(* ===== verification/Prelude.thy ===== *)
theory Prelude
  imports Main "HOL-Library.List_Lexorder" "HOL-Library.Product_Lexorder" "HOL-Library.Multiset"
    "HOL-Library.Word"
begin

text \<open>
  Shared material of the development.

  \<^item> \<open>rstr\<close>: a Rust \<open>String\<close>/\<open>&str\<close> as the list of its Unicode scalar values, so that
    \<open>chars()\<close> is the list itself, \<open>chars().count()\<close> its length and \<open>len()\<close> the length of its
    UTF-8 encoding.  Literals are written \<^term>\<open>str ''abc''\<close>.  The lexicographic order on \<open>rstr\<close>
    is the order of \<open>String\<close> (UTF-8 preserves the order of scalar values).
  \<^item> \<open>rbind\<close>, \<open>ensure\<close>: the \<open>?\<close> operator on \<open>Result\<close>, with \<^const>\<open>Inl\<close> the error.
  \<^item> the standard-library string functions the program uses: \<open>trim\<close>, \<open>split\<close>, \<open>join\<close>,
    \<open>parse::<uN>\<close>, ASCII predicates;
  \<^item> saturating \<open>usize\<close> arithmetic and a stable \<open>sort_by\<close>.
\<close>

named_theorems res_simps \<open>equations that evaluate the result monad\<close>

section \<open>Results and early return\<close>

type_synonym ('e, 'a) result = "'e + 'a"

fun rbind :: "('e, 'a) result \<Rightarrow> ('a \<Rightarrow> ('e, 'b) result) \<Rightarrow> ('e, 'b) result" where
  "rbind (Inl e) f = Inl e"
| "rbind (Inr x) f = f x"

fun is_ok :: "('e, 'a) result \<Rightarrow> bool" where
  "is_ok (Inl e) = False"
| "is_ok (Inr x) = True"

fun map_err :: "('e \<Rightarrow> 'f) \<Rightarrow> ('e, 'a) result \<Rightarrow> ('f, 'a) result" where
  "map_err f (Inl e) = Inl (f e)"
| "map_err f (Inr x) = Inr x"

definition ensure :: "bool \<Rightarrow> 'e \<Rightarrow> ('e, unit) result" where
  "ensure b e = (if b then Inr () else Inl e)"

definition ok_or :: "'e \<Rightarrow> 'a option \<Rightarrow> ('e, 'a) result" where
  "ok_or e v = (case v of None \<Rightarrow> Inl e | Some x \<Rightarrow> Inr x)"

text \<open>\<open>if let Some(x) = v { check(x)? }\<close>\<close>

definition if_some :: "('a \<Rightarrow> ('e, unit) result) \<Rightarrow> 'a option \<Rightarrow> ('e, unit) result" where
  "if_some f v = (case v of None \<Rightarrow> Inr () | Some x \<Rightarrow> f x)"

text \<open>\<open>iter.map(f).collect::<Result<Vec<_>, _>>()\<close>\<close>

fun try_map :: "('a \<Rightarrow> ('e, 'b) result) \<Rightarrow> 'a list \<Rightarrow> ('e, 'b list) result" where
  "try_map f [] = Inr []"
| "try_map f (x # xs) = rbind (f x) (\<lambda>y. rbind (try_map f xs) (\<lambda>ys. Inr (y # ys)))"

lemma rbind_Inr [res_simps]: "rbind m f = Inr y \<longleftrightarrow> (\<exists>x. m = Inr x \<and> f x = Inr y)"
  by (cases m) auto

lemma rbind_Inl: "rbind m f = Inl e \<longleftrightarrow> m = Inl e \<or> (\<exists>x. m = Inr x \<and> f x = Inl e)"
  by (cases m) auto

lemma map_err_Inr [simp]: "map_err f m = Inr y \<longleftrightarrow> m = Inr y"
  by (cases m) auto

lemma ensure_Inr [simp]: "ensure b e = Inr u \<longleftrightarrow> b"
  by (auto simp: ensure_def)

lemma ensure_Inl [simp]: "ensure b e = Inl e' \<longleftrightarrow> \<not> b \<and> e' = e"
  by (auto simp: ensure_def)

lemma ensure_simps [simp]: "ensure True e = Inr ()" "ensure False e = Inl e"
  by (auto simp: ensure_def)

lemma ok_or_simps [simp]: "ok_or e None = Inl e" "ok_or e (Some x) = Inr x"
  by (auto simp: ok_or_def)

lemma ok_or_Inr: "ok_or e v = Inr x \<longleftrightarrow> v = Some x"
  by (cases v) auto

lemma if_some_simps [simp]: "if_some f None = Inr ()" "if_some f (Some x) = f x"
  by (auto simp: if_some_def)

lemma if_some_Inr: "if_some f v = Inr u \<longleftrightarrow> (\<forall>x. v = Some x \<longrightarrow> f x = Inr ())"
  by (cases v) auto

lemma is_ok_iff: "is_ok m \<longleftrightarrow> (\<exists>x. m = Inr x)"
  by (cases m) auto

lemma unit_result_eq: "(\<And>u. (m :: ('e, unit) result) = Inr u \<longleftrightarrow> m = Inr ())"
  by simp

lemma try_map_Inr_length: "try_map f xs = Inr ys \<Longrightarrow> length ys = length xs"
  by (induction xs arbitrary: ys) (auto simp: rbind_Inr)

lemma try_map_Inr_iff: "try_map f xs = Inr ys \<longleftrightarrow> list_all2 (\<lambda>x y. f x = Inr y) xs ys"
proof (induction xs arbitrary: ys)
  case (Cons x xs) then show ?case by (cases ys) (auto simp: rbind_Inr)
qed auto

lemma try_map_total: "(\<And>x. x \<in> set xs \<Longrightarrow> \<exists>y. f x = Inr y) \<Longrightarrow> \<exists>ys. try_map f xs = Inr ys"
proof (induction xs)
  case (Cons x xs)
  then obtain y ys where "f x = Inr y" "try_map f xs = Inr ys" by (meson list.set_intros)
  then show ?case by simp
qed simp

lemma rbind_unit_Inr: "rbind (m :: ('e, unit) result) (\<lambda>_. n) = Inr y \<longleftrightarrow> m = Inr () \<and> n = Inr y"
  by (cases m) auto

text \<open>\<open>for x in xs { f(x)?; }\<close>\<close>

fun for_each :: "('a \<Rightarrow> ('e, unit) result) \<Rightarrow> 'a list \<Rightarrow> ('e, unit) result" where
  "for_each f [] = Inr ()"
| "for_each f (x # xs) = rbind (f x) (\<lambda>_. for_each f xs)"

lemma for_each_Inr: "for_each f xs = Inr u \<longleftrightarrow> (\<forall>x \<in> set xs. f x = Inr ())"
  by (induction xs) (auto simp: rbind_Inr)

lemma for_each_cong [fundef_cong]:
  "xs = ys \<Longrightarrow> (\<And>x. x \<in> set ys \<Longrightarrow> f x = g x) \<Longrightarrow> for_each f xs = for_each g ys"
  by (induction ys arbitrary: xs) auto

lemma rbind_cong [fundef_cong]: "m = n \<Longrightarrow> (\<And>x. n = Inr x \<Longrightarrow> f x = g x) \<Longrightarrow> rbind m f = rbind n g"
  by (cases n) auto

lemma if_some_cong [fundef_cong]: "v = w \<Longrightarrow> (\<And>x. w = Some x \<Longrightarrow> f x = g x) \<Longrightarrow> if_some f v = if_some g w"
  by (cases w) auto

section \<open>Strings\<close>

type_synonym rstr = "nat list"

definition str :: "string \<Rightarrow> rstr" where
  "str s = map of_char s"

lemma str_inject [simp]: "str s = str t \<longleftrightarrow> s = t"
  by (auto simp: str_def dest: map_injective intro!: injI)

lemma str_Nil [simp]: "str [] = []" "str s = [] \<longleftrightarrow> s = []"
  by (auto simp: str_def)

lemma length_str [simp]: "length (str s) = length s"
  by (simp add: str_def)

lemma str_append: "str (s @ t) = str s @ str t"
  by (simp add: str_def)

definition is_ascii_digit :: "nat \<Rightarrow> bool" where
  "is_ascii_digit c \<longleftrightarrow> 48 \<le> c \<and> c \<le> 57"

definition is_ascii_lowercase :: "nat \<Rightarrow> bool" where
  "is_ascii_lowercase c \<longleftrightarrow> 97 \<le> c \<and> c \<le> 122"

definition is_ascii_uppercase :: "nat \<Rightarrow> bool" where
  "is_ascii_uppercase c \<longleftrightarrow> 65 \<le> c \<and> c \<le> 90"

definition is_ascii_alphanumeric :: "nat \<Rightarrow> bool" where
  "is_ascii_alphanumeric c \<longleftrightarrow> is_ascii_digit c \<or> is_ascii_lowercase c \<or> is_ascii_uppercase c"

definition to_ascii_lower :: "nat \<Rightarrow> nat" where
  "to_ascii_lower c = (if is_ascii_uppercase c then c + 32 else c)"

lemmas ascii_defs = is_ascii_digit_def is_ascii_lowercase_def is_ascii_uppercase_def
  is_ascii_alphanumeric_def to_ascii_lower_def

definition to_ascii_lowercase :: "rstr \<Rightarrow> rstr" where
  "to_ascii_lowercase = map to_ascii_lower"

lemma to_ascii_lower_idem [simp]: "to_ascii_lower (to_ascii_lower c) = to_ascii_lower c"
  by (auto simp: ascii_defs)

lemma to_ascii_lowercase_idem [simp]: "to_ascii_lowercase (to_ascii_lowercase s) = to_ascii_lowercase s"
  by (simp add: to_ascii_lowercase_def)

lemma to_ascii_lowercase_append: "to_ascii_lowercase (s @ t) = to_ascii_lowercase s @ to_ascii_lowercase t"
  by (simp add: to_ascii_lowercase_def)

text \<open>\<open>char::is_whitespace\<close>: the Unicode property \<open>White_Space\<close>.\<close>

definition is_whitespace :: "nat \<Rightarrow> bool" where
  "is_whitespace c \<longleftrightarrow> (9 \<le> c \<and> c \<le> 13) \<or> c = 32 \<or> c = 133 \<or> c = 160 \<or> c = 5760 \<or>
     (8192 \<le> c \<and> c \<le> 8202) \<or> c = 8232 \<or> c = 8233 \<or> c = 8239 \<or> c = 8287 \<or> c = 12288"

definition trim_start :: "rstr \<Rightarrow> rstr" where
  "trim_start s = dropWhile is_whitespace s"

definition trim_end :: "rstr \<Rightarrow> rstr" where
  "trim_end s = rev (dropWhile is_whitespace (rev s))"

definition trim :: "rstr \<Rightarrow> rstr" where
  "trim s = trim_end (trim_start s)"

lemma trim_id: "list_all (\<lambda>c. \<not> is_whitespace c) s \<Longrightarrow> trim s = s"
proof -
  assume a: "list_all (\<lambda>c. \<not> is_whitespace c) s"
  have d: "dropWhile is_whitespace t = t" if "list_all (\<lambda>c. \<not> is_whitespace c) t" for t
    using that by (cases t) auto
  show ?thesis using d [OF a] d [of "rev s"] a by (simp add: trim_def trim_start_def trim_end_def)
qed

lemma dropWhile_idem [simp]: "dropWhile P (dropWhile P xs) = dropWhile P xs"
  by (induction xs) auto

lemma dropWhile_hd_id: "xs = [] \<or> \<not> P (hd xs) \<Longrightarrow> dropWhile P xs = xs"
  by (cases xs) auto

lemma trim_hd_last: "trim s = [] \<or> (\<not> is_whitespace (hd (trim s)) \<and> \<not> is_whitespace (last (trim s)))"
proof -
  define t where "t = dropWhile is_whitespace s"
  define u where "u = dropWhile is_whitespace (rev t)"
  have tr: "trim s = rev u" by (simp add: trim_def trim_start_def trim_end_def t_def u_def)
  show ?thesis
  proof (cases "u = []")
    case False
    then have h: "\<not> is_whitespace (hd u)" by (simp add: u_def hd_dropWhile)
    obtain p where p: "rev t = p @ u" using takeWhile_dropWhile_id [of is_whitespace "rev t"]
      by (metis u_def)
    then have "t = rev u @ rev p" by (metis rev_append rev_rev_ident)
    moreover have "t \<noteq> [] \<Longrightarrow> \<not> is_whitespace (hd t)" by (simp add: t_def hd_dropWhile)
    ultimately have "\<not> is_whitespace (hd (rev u))" using False by (cases "rev u") auto
    with h False tr show ?thesis by (simp add: last_rev)
  qed (simp add: tr)
qed

lemma trim_idem [simp]: "trim (trim s) = trim s"
proof -
  have "trim t = t" if "t = [] \<or> (\<not> is_whitespace (hd t) \<and> \<not> is_whitespace (last t))" for t
  proof -
    have "dropWhile is_whitespace t = t" using that by (auto intro: dropWhile_hd_id)
    moreover have "dropWhile is_whitespace (rev t) = rev t"
      using that by (intro dropWhile_hd_id) (auto simp: hd_rev)
    ultimately show ?thesis by (simp add: trim_def trim_start_def trim_end_def)
  qed
  then show ?thesis using trim_hd_last by blast
qed

lemma trim_empty_iff: "trim s = [] \<longleftrightarrow> list_all is_whitespace s"
proof -
  have 1: "dropWhile is_whitespace t = [] \<longleftrightarrow> list_all is_whitespace t" for t
    by (simp add: list_all_iff)
  have "dropWhile is_whitespace s = [] \<or> \<not> is_whitespace (hd (dropWhile is_whitespace s))"
    using hd_dropWhile by blast
  then have "list_all is_whitespace (dropWhile is_whitespace s) \<longleftrightarrow> dropWhile is_whitespace s = []"
    by (metis hd_in_set list_all_iff list.pred_inject(1))
  then show ?thesis
    using 1 [of s] 1 [of "rev (dropWhile is_whitespace s)"]
    by (simp add: trim_def trim_start_def trim_end_def)
qed

text \<open>UTF-8: \<open>char::len_utf8\<close> and \<open>str::len\<close>.\<close>

definition len_utf8 :: "nat \<Rightarrow> nat" where
  "len_utf8 c = (if c < 128 then 1 else if c < 2048 then 2 else if c < 65536 then 3 else 4)"

definition str_len :: "rstr \<Rightarrow> nat" where
  "str_len s = sum_list (map len_utf8 s)"

lemma len_utf8_bounds: "1 \<le> len_utf8 c" "len_utf8 c \<le> 4"
  by (auto simp: len_utf8_def)

lemma length_le_str_len: "length s \<le> str_len s"
proof (induction s)
  case (Cons c s) then show ?case using len_utf8_bounds(1) [of c] by (simp add: str_len_def)
qed (simp add: str_len_def)

lemma str_len_simps [simp]: "str_len [] = 0" "str_len (c # s) = len_utf8 c + str_len s"
  "str_len (s @ t) = str_len s + str_len t"
  by (auto simp: str_len_def)

lemma str_len_ascii: "list_all (\<lambda>c. c < 128) s \<Longrightarrow> str_len s = length s"
  by (induction s) (auto simp: len_utf8_def)

text \<open>
  \<open>bytes().all(p)\<close> for an ASCII class \<open>p\<close>: every byte of the encoding of a non-ASCII scalar value is at
  least 128 and so outside the class; on an ASCII scalar value the byte is the value.
\<close>

definition bytes_all :: "(nat \<Rightarrow> bool) \<Rightarrow> rstr \<Rightarrow> bool" where
  "bytes_all p s = list_all (\<lambda>c. c < 128 \<and> p c) s"

text \<open>\<open>str::split(char)\<close> and \<open>join\<close>.\<close>

fun split_on :: "nat \<Rightarrow> rstr \<Rightarrow> rstr list" where
  "split_on d [] = [[]]"
| "split_on d (c # cs) =
     (if c = d then [] # split_on d cs
      else (case split_on d cs of [] \<Rightarrow> [[c]] | w # ws \<Rightarrow> (c # w) # ws))"

fun join :: "rstr \<Rightarrow> rstr list \<Rightarrow> rstr" where
  "join sep [] = []"
| "join sep [w] = w"
| "join sep (w # v # ws) = w @ sep @ join sep (v # ws)"

lemma split_on_not_Nil [simp]: "split_on d s \<noteq> []"
  by (induction s) (auto split: list.splits)

lemma join_Cons_ne: "ws \<noteq> [] \<Longrightarrow> join sep (w # ws) = w @ sep @ join sep ws"
  by (cases ws) auto

lemma join_split_on: "join [d] (split_on d s) = s"
proof (induction s)
  case (Cons c s)
  then show ?case
    by (cases "split_on d s"; cases "tl (split_on d s)") (auto simp: join_Cons_ne)
qed simp

lemma split_on_no_sep: "d \<notin> set w \<Longrightarrow> split_on d w = [w]"
  by (induction w) auto

lemma split_on_append_sep: "d \<notin> set w \<Longrightarrow> split_on d (w @ d # s) = w # split_on d s"
  by (induction w) auto

lemma split_on_join:
  "ws \<noteq> [] \<Longrightarrow> (\<And>w. w \<in> set ws \<Longrightarrow> d \<notin> set w) \<Longrightarrow> split_on d (join [d] ws) = ws"
proof (induction ws)
  case (Cons w ws)
  then show ?case
    by (cases ws) (auto simp: split_on_no_sep split_on_append_sep)
qed simp

lemma split_on_pieces: "w \<in> set (split_on d s) \<Longrightarrow> d \<notin> set w"
proof (induction s arbitrary: w)
  case (Cons c s)
  then show ?case by (cases "split_on d s") (auto split: if_splits)
qed simp

text \<open>\<open>str::split_whitespace\<close>: the maximal non-empty runs of non-whitespace.\<close>

fun split_ws_acc :: "rstr \<Rightarrow> rstr \<Rightarrow> rstr list" where
  "split_ws_acc acc [] = (if acc = [] then [] else [rev acc])"
| "split_ws_acc acc (c # cs) =
     (if is_whitespace c then (if acc = [] then split_ws_acc [] cs else rev acc # split_ws_acc [] cs)
      else split_ws_acc (c # acc) cs)"

definition split_whitespace :: "rstr \<Rightarrow> rstr list" where
  "split_whitespace = split_ws_acc []"

text \<open>\<open>str::starts_with\<close>, \<open>ends_with\<close>, \<open>contains\<close>, \<open>strip_prefix\<close>.\<close>

fun starts_with :: "rstr \<Rightarrow> rstr \<Rightarrow> bool" where
  "starts_with [] s = True"
| "starts_with (p # ps) [] = False"
| "starts_with (p # ps) (c # cs) = (p = c \<and> starts_with ps cs)"

definition ends_with :: "rstr \<Rightarrow> rstr \<Rightarrow> bool" where
  "ends_with p s = starts_with (rev p) (rev s)"

fun contains_str :: "rstr \<Rightarrow> rstr \<Rightarrow> bool" where
  "contains_str p [] = (p = [])"
| "contains_str p (c # cs) = (starts_with p (c # cs) \<or> contains_str p cs)"

lemma starts_with_iff: "starts_with p s \<longleftrightarrow> (\<exists>t. s = p @ t)"
  by (induction p s rule: starts_with.induct) auto

lemma ends_with_iff: "ends_with p s \<longleftrightarrow> (\<exists>t. s = t @ p)"
  by (auto simp: ends_with_def starts_with_iff) (metis rev_append rev_rev_ident)

lemma starts_with_append [simp]: "starts_with p (p @ t)"
  by (simp add: starts_with_iff)

lemma starts_with_drop: "starts_with p s \<Longrightarrow> p @ drop (length p) s = s"
  by (auto simp: starts_with_iff)

text \<open>Decimal integers: \<open>parse::<uN>()\<close> (an optional leading plus sign, at least one digit, an error on
  overflow) and \<open>to_string()\<close>.\<close>

definition digits_value :: "rstr \<Rightarrow> nat" where
  "digits_value ds = foldl (\<lambda>n c. n * 10 + (c - 48)) 0 ds"

definition parse_uint :: "nat \<Rightarrow> rstr \<Rightarrow> nat option" where
  "parse_uint limit s =
     (let ds = (case s of [] \<Rightarrow> [] | c # cs \<Rightarrow> if c = 43 then cs else s)
      in if ds = [] \<or> \<not> list_all is_ascii_digit ds \<or> limit < digits_value ds then None
         else Some (digits_value ds))"

fun show_nat :: "nat \<Rightarrow> rstr" where
  "show_nat n = (if n < 10 then [48 + n] else show_nat (n div 10) @ [48 + n mod 10])"

declare show_nat.simps [simp del]

lemma digits_value_snoc: "digits_value (ds @ [c]) = digits_value ds * 10 + (c - 48)"
  by (simp add: digits_value_def)

lemma show_nat_props:
  "show_nat n \<noteq> [] \<and> list_all is_ascii_digit (show_nat n) \<and> digits_value (show_nat n) = n"
proof (induction n rule: show_nat.induct)
  case (1 n)
  show ?case
  proof (cases "n < 10")
    case True
    then show ?thesis by (subst (1 2 3) show_nat.simps) (simp add: digits_value_def is_ascii_digit_def)
  next
    case False
    then have "show_nat n = show_nat (n div 10) @ [48 + n mod 10]" by (subst show_nat.simps) simp
    moreover have "is_ascii_digit (48 + n mod 10)"
      using mod_less_divisor [of 10 n] by (simp add: is_ascii_digit_def)
    ultimately show ?thesis using "1.IH" [OF False] by (simp add: digits_value_snoc)
  qed
qed

lemma show_nat_digits: "c \<in> set (show_nat n) \<Longrightarrow> is_ascii_digit c"
  using show_nat_props [of n] by (simp add: list_all_iff)

lemma parse_show_nat: "n \<le> limit \<Longrightarrow> parse_uint limit (show_nat n) = Some n"
proof -
  assume n: "n \<le> limit"
  obtain c cs where s: "show_nat n = c # cs" using show_nat_props [of n] by (cases "show_nat n") auto
  have "is_ascii_digit c" using show_nat_digits [of c n] s by simp
  then have "c \<noteq> 43" by (auto simp: is_ascii_digit_def)
  then show ?thesis using show_nat_props [of n] n s by (simp add: parse_uint_def)
qed

lemma show_nat_no_leading_zero: "length (show_nat n) > 1 \<Longrightarrow> hd (show_nat n) \<noteq> 48"
proof (induction n rule: show_nat.induct)
  case (1 n)
  show ?case
  proof (cases "n < 10")
    case True
    with "1.prems" show ?thesis by (simp add: show_nat.simps [of n])
  next
    case False
    then have e: "show_nat n = show_nat (n div 10) @ [48 + n mod 10]" by (subst show_nat.simps) simp
    have ne: "show_nat (n div 10) \<noteq> []" using show_nat_props by blast
    show ?thesis
    proof (cases "length (show_nat (n div 10)) > 1")
      case True
      then show ?thesis using "1.IH" [OF False] e ne by simp
    next
      case f: False
      then obtain c where c: "show_nat (n div 10) = [c]" using ne by (cases "show_nat (n div 10)") auto
      then have "c = 48 + n div 10" using show_nat_props [of "n div 10"] show_nat_digits [of c "n div 10"]
        by (simp add: digits_value_def is_ascii_digit_def) arith
      moreover have "n div 10 \<noteq> 0" using False by simp
      ultimately show ?thesis using e c by simp
    qed
  qed
qed

lemma digits_value_pos: "list_all is_ascii_digit ds \<Longrightarrow> ds \<noteq> [] \<Longrightarrow> hd ds \<noteq> 48 \<Longrightarrow> 0 < digits_value ds"
proof (induction ds rule: rev_induct)
  case (snoc c ds)
  then show ?case by (cases "ds = []") (auto simp: digits_value_snoc digits_value_def is_ascii_digit_def)
qed simp

lemma show_digits:
  "list_all is_ascii_digit ds \<Longrightarrow> ds \<noteq> [] \<Longrightarrow> length ds = 1 \<or> hd ds \<noteq> 48 \<Longrightarrow> show_nat (digits_value ds) = ds"
proof (induction ds rule: rev_induct)
  case (snoc c ds)
  then have c: "c - 48 < 10" "48 \<le> c" by (auto simp: is_ascii_digit_def)
  show ?case
  proof (cases "ds = []")
    case True
    then show ?thesis using c by (simp add: digits_value_def show_nat.simps)
  next
    case False
    have h: "hd ds \<noteq> 48" using snoc.prems False by simp
    have "0 < digits_value ds" using digits_value_pos [of ds] snoc.prems False h by simp
    moreover define d where "d = c - 48"
    ultimately have "show_nat (digits_value ds * 10 + d) = show_nat (digits_value ds) @ [48 + d]"
      using c(1) by (subst show_nat.simps) simp
    then have "show_nat (digits_value ds * 10 + (c - 48)) = show_nat (digits_value ds) @ [c]"
      using c(2) by (simp add: d_def)
    then show ?thesis using snoc False h by (simp add: digits_value_snoc)
  qed
qed simp

section \<open>Machine sizes\<close>

definition usize_max :: nat where
  "usize_max = 2 ^ 64 - 1"

definition sat_add :: "nat \<Rightarrow> nat \<Rightarrow> nat" where
  "sat_add a b = min (a + b) usize_max"

lemma sat_add_le: "sat_add a b \<le> a + b"
  by (simp add: sat_add_def)

lemma sat_add_exact: "a + b \<le> usize_max \<Longrightarrow> sat_add a b = a + b"
  by (simp add: sat_add_def)

lemma sat_add_le_iff: "m < usize_max \<Longrightarrow> sat_add a b \<le> m \<longleftrightarrow> a + b \<le> m"
  by (auto simp: sat_add_def)

definition u64_max :: nat where
  "u64_max = 2 ^ 64 - 1"

definition u32_max :: nat where
  "u32_max = 2 ^ 32 - 1"

definition u8_max :: nat where
  "u8_max = 255"

section \<open>Stable sorting\<close>

text \<open>\<open>slice::sort_by\<close> is stable; \<open>le x y\<close> says that the comparator does not return \<open>Greater\<close>.\<close>

fun insort_by :: "('a \<Rightarrow> 'a \<Rightarrow> bool) \<Rightarrow> 'a \<Rightarrow> 'a list \<Rightarrow> 'a list" where
  "insort_by le x [] = [x]"
| "insort_by le x (y # ys) = (if le x y then x # y # ys else y # insort_by le x ys)"

definition sort_by :: "('a \<Rightarrow> 'a \<Rightarrow> bool) \<Rightarrow> 'a list \<Rightarrow> 'a list" where
  "sort_by le xs = foldr (insort_by le) xs []"

lemma sort_by_simps [simp]: "sort_by le [] = []" "sort_by le (x # xs) = insort_by le x (sort_by le xs)"
  by (simp_all add: sort_by_def)

lemma mset_insort_by [simp]: "mset (insort_by le x xs) = add_mset x (mset xs)"
  by (induction xs) auto

lemma mset_sort_by [simp]: "mset (sort_by le xs) = mset xs"
  by (induction xs) auto

lemma set_sort_by [simp]: "set (sort_by le xs) = set xs"
  by (metis mset_sort_by set_mset_mset)

lemma length_sort_by [simp]: "length (sort_by le xs) = length xs"
  by (metis mset_sort_by size_mset)

lemma distinct_sort_by [simp]: "distinct (sort_by le xs) = distinct xs"
  by (metis mset_sort_by mset_eq_imp_distinct_iff)

lemma set_insort_by [simp]: "set (insort_by le x xs) = insert x (set xs)"
  by (induction xs) auto

lemma sort_by_Nil_iff [simp]: "sort_by le xs = [] \<longleftrightarrow> xs = []"
  by (metis length_0_conv length_sort_by)

definition total_preorder :: "('a \<Rightarrow> 'a \<Rightarrow> bool) \<Rightarrow> bool" where
  "total_preorder le \<longleftrightarrow> (\<forall>x y. le x y \<or> le y x) \<and> (\<forall>x y z. le x y \<longrightarrow> le y z \<longrightarrow> le x z)"

lemma total_preorder_key: "total_preorder (\<lambda>x y. (f x :: 'k :: linorder) \<le> f y)"
  by (auto simp: total_preorder_def)

lemma sorted_insort_by:
  "total_preorder le \<Longrightarrow> sorted_wrt le xs \<Longrightarrow> sorted_wrt le (insort_by le x xs)"
proof (induction xs)
  case (Cons y ys)
  then have t: "\<And>a b. le a b \<or> le b a" "\<And>a b c. le a b \<Longrightarrow> le b c \<Longrightarrow> le a c"
    by (auto simp: total_preorder_def)
  show ?case using Cons t by auto
qed simp

lemma sorted_sort_by: "total_preorder le \<Longrightarrow> sorted_wrt le (sort_by le xs)"
  by (induction xs) (auto simp: sorted_insort_by)

text \<open>Stability: the elements of a class that \<open>le\<close> does not separate keep their order.\<close>

lemma filter_insort_by_other: "\<not> P x \<Longrightarrow> filter P (insort_by le x xs) = filter P xs"
  by (induction xs) auto

lemma filter_insort_by_same:
  assumes "\<And>a b. P a \<Longrightarrow> P b \<Longrightarrow> le a b"
  shows "P x \<Longrightarrow> filter P (insort_by le x xs) = x # filter P xs"
  by (induction xs) (use assms in auto)

lemma sort_by_stable:
  assumes "\<And>a b. P a \<Longrightarrow> P b \<Longrightarrow> le a b"
  shows "filter P (sort_by le xs) = filter P xs"
proof (induction xs)
  case (Cons x xs)
  then show ?case
    using filter_insort_by_other [of P x le] filter_insort_by_same [of P le x, OF assms]
    by (cases "P x") auto
qed simp

lemma sort_by_sorted: "sorted_wrt le xs \<Longrightarrow> sort_by le xs = xs"
proof (induction xs)
  case (Cons x xs)
  then show ?case by (cases xs) auto
qed simp

lemma sort_by_hd_min:
  assumes "total_preorder le" "y \<in> set xs" "sort_by le xs = x # rest"
  shows "le x y"
proof -
  have "sorted_wrt le (x # rest)" using assms(1,3) sorted_sort_by by metis
  moreover have "y = x \<or> y \<in> set rest" using assms(2,3) by (metis set_ConsD set_sort_by)
  ultimately show ?thesis using assms(1) by (auto simp: total_preorder_def)
qed

section \<open>Lists\<close>

lemma find_Some_split: "find P xs = Some x \<Longrightarrow> P x \<and> x \<in> set xs"
  by (induction xs) (auto split: if_splits)

lemma find_None_all: "find P xs = None \<longleftrightarrow> (\<forall>x \<in> set xs. \<not> P x)"
  by (induction xs) auto

lemma distinct_key_unique:
  "distinct (map f xs) \<Longrightarrow> x \<in> set xs \<Longrightarrow> y \<in> set xs \<Longrightarrow> f x = f y \<Longrightarrow> x = y"
  by (simp add: distinct_map inj_on_def)

lemma find_key_eq:
  "distinct (map f xs) \<Longrightarrow> x \<in> set xs \<Longrightarrow> find (\<lambda>y. f y = f x) xs = Some x"
  by (induction xs) (auto simp: image_iff)

lemma sorted_wrt_split:
  "(\<And>xs x ys y. zs = xs @ x # ys \<Longrightarrow> y \<in> set ys \<Longrightarrow> R x y) \<Longrightarrow> sorted_wrt R zs"
proof (induction zs)
  case (Cons z zs)
  have "sorted_wrt R zs" by (rule Cons.IH) (metis Cons.prems append_Cons)
  moreover have "R z y" if "y \<in> set zs" for y using Cons.prems [of "[]" z zs y] that by simp
  ultimately show ?case by simp
qed simp

text \<open>In a sorted list the elements stand in the order the relation forces.\<close>

lemma sorted_wrt_before:
  assumes "sorted_wrt R zs" "x \<in> set zs" "y \<in> set zs" "x \<noteq> y" "\<not> R y x"
  obtains xs ys ws where "zs = xs @ x # ys @ y # ws"
proof -
  obtain us vs where z: "zs = us @ x # vs" using assms(2) by (meson split_list)
  then have "y \<in> set vs" using assms by (auto simp: sorted_wrt_append)
  then show thesis using that z by (metis split_list)
qed

lemma strict_sorted_unique_by:
  fixes f :: "'a \<Rightarrow> 'b :: linorder"
  shows "sorted_wrt (\<lambda>x y. f x < f y) xs \<Longrightarrow> sorted_wrt (\<lambda>x y. f x < f y) ys \<Longrightarrow> set xs = set ys \<Longrightarrow> xs = ys"
proof (induction xs arbitrary: ys)
  case (Cons x xs)
  then obtain y zs where y: "ys = y # zs" by (cases ys) auto
  have "x = y" using Cons.prems y by (metis insert_iff list.simps(15) not_less_iff_gr_or_eq sorted_wrt.simps(2))
  moreover have "x \<notin> set xs" "y \<notin> set zs" using Cons.prems y by auto
  ultimately have "set xs = set zs" using Cons.prems(3) y by auto
  then show ?case using Cons y \<open>x = y\<close> by simp
qed simp

text \<open>\<open>BTreeMap\<close>: the association list of the entries in ascending key order.\<close>

type_synonym ('k, 'v) btree = "('k \<times> 'v) list"

definition btree_ok :: "('k :: linorder, 'v) btree \<Rightarrow> bool" where
  "btree_ok m \<longleftrightarrow> sorted_wrt (<) (map fst m)"

fun btree_insert :: "'k :: linorder \<Rightarrow> 'v \<Rightarrow> ('k, 'v) btree \<Rightarrow> ('k, 'v) btree" where
  "btree_insert k v [] = [(k, v)]"
| "btree_insert k v ((l, w) # m) =
     (if k < l then (k, v) # (l, w) # m else if k = l then (k, v) # m else (l, w) # btree_insert k v m)"

definition btree_remove :: "'k \<Rightarrow> ('k, 'v) btree \<Rightarrow> ('k, 'v) btree" where
  "btree_remove k m = filter (\<lambda>e. fst e \<noteq> k) m"

lemma btree_insert_keys [simp]: "fst ` set (btree_insert k v m) = insert k (fst ` set m)"
  by (induction k v m rule: btree_insert.induct) auto

lemma btree_insert_ok [simp]: "btree_ok m \<Longrightarrow> btree_ok (btree_insert k v m)"
proof (induction k v m rule: btree_insert.induct)
  case (2 k v l w m)
  have "\<forall>x \<in> fst ` set (btree_insert k v m). l < x" if "l < k" using 2 that by (simp add: btree_ok_def)
  with 2 show ?case by (force simp: btree_ok_def not_less)
qed (simp add: btree_ok_def)

lemma btree_insert_get [simp]: "map_of (btree_insert k v m) = (map_of m)(k \<mapsto> v)"
  by (induction k v m rule: btree_insert.induct) auto

lemma btree_remove_ok [simp]: "btree_ok m \<Longrightarrow> btree_ok (btree_remove k m)"
  by (induction m) (auto simp: btree_ok_def btree_remove_def)

lemma btree_remove_get [simp]: "map_of (btree_remove k m) = (map_of m)(k := None)"
  by (induction m) (auto simp: btree_remove_def)

lemma btree_distinct: "btree_ok m \<Longrightarrow> distinct (map fst m)"
  by (simp add: btree_ok_def strict_sorted_iff)

lemma btree_get_iff: "btree_ok m \<Longrightarrow> map_of m k = Some v \<longleftrightarrow> (k, v) \<in> set m"
  using btree_distinct [of m] by auto

text \<open>A map has one representation.\<close>

lemma btree_ext: "btree_ok m \<Longrightarrow> btree_ok n \<Longrightarrow> map_of m = map_of n \<Longrightarrow> m = n"
proof -
  assume ok: "btree_ok m" "btree_ok n" and eq: "map_of m = map_of n"
  have "set m = set n" using eq btree_get_iff [OF ok(1)] btree_get_iff [OF ok(2)] by auto
  moreover have "sorted_wrt (\<lambda>x y. fst x < fst y) m" "sorted_wrt (\<lambda>x y. fst x < fst y) n"
    using ok by (simp_all add: btree_ok_def sorted_wrt_map)
  ultimately show "m = n"
    using strict_sorted_unique_by [of fst m n] by blast
qed

lemma distinct_set_singleton: "distinct xs \<Longrightarrow> set xs = {x} \<Longrightarrow> xs = [x]"
  by (cases xs; cases "tl xs") auto

lemma filter_unique:
  assumes "distinct xs" "r \<in> set xs" "P r" "\<forall>x \<in> set xs. P x \<longrightarrow> x = r"
  shows "filter P xs = [r]"
proof (rule distinct_set_singleton)
  show "set (filter P xs) = {r}" using assms(2-4) unfolding set_filter by blast
qed (use assms(1) in simp)

lemma try_map_append:
  "try_map f (xs @ ys) = rbind (try_map f xs) (\<lambda>us. rbind (try_map f ys) (\<lambda>vs. Inr (us @ vs)))"
proof (induction xs)
  case Nil
  then show ?case by (cases "try_map f ys") auto
next
  case (Cons x xs)
  then show ?case by (cases "f x"; cases "try_map f xs"; cases "try_map f ys") auto
qed

lemma try_map_nth: "try_map f xs = Inr ys \<Longrightarrow> i < length xs \<Longrightarrow> f (xs ! i) = Inr (ys ! i)"
  by (auto simp: try_map_Inr_iff list_all2_conv_all_nth)

lemma try_map_drop: "try_map f xs = Inr ys \<Longrightarrow> try_map f (drop n xs) = Inr (drop n ys)"
  by (simp add: try_map_Inr_iff list_all2_dropI)

section \<open>Systems of operations with an invariant\<close>

text \<open>
  The contract of a stateful component: a step function over the component's operations and an invariant
  that every admissible operation keeps.  The second locale adds a version that no operation lowers (the
  attempt number of a task, the version of a registry), the basis of every fencing argument.
\<close>

locale invariant_system =
  fixes step :: "'s \<Rightarrow> 'op \<Rightarrow> 's" and inv :: "'s \<Rightarrow> bool" and admissible :: "'op \<Rightarrow> bool"
  assumes inv_step: "inv s \<Longrightarrow> admissible a \<Longrightarrow> inv (step s a)"
begin

lemma inv_run: "inv s \<Longrightarrow> list_all admissible as \<Longrightarrow> inv (foldl step s as)"
  by (induction as arbitrary: s) (auto simp: inv_step)

end

locale fenced_system = invariant_system step inv admissible
  for step :: "'s \<Rightarrow> 'op \<Rightarrow> 's" and inv and admissible +
  fixes version_of :: "'s \<Rightarrow> 'k \<Rightarrow> nat option"
  assumes version_mono: "inv s \<Longrightarrow> admissible a \<Longrightarrow> version_of s k = Some v \<Longrightarrow>
    \<exists>v'. version_of (step s a) k = Some v' \<and> v \<le> v'"
begin

lemma version_run:
  "inv s \<Longrightarrow> list_all admissible as \<Longrightarrow> version_of s k = Some v \<Longrightarrow>
     \<exists>v'. version_of (foldl step s as) k = Some v' \<and> v \<le> v'"
proof (induction as arbitrary: s v)
  case (Cons a as)
  then obtain v1 where "version_of (step s a) k = Some v1" "v \<le> v1" using version_mono by fastforce
  with Cons inv_step show ?case by (fastforce intro: le_trans)
qed simp

lemma stale_forever:
  "inv s \<Longrightarrow> list_all admissible as \<Longrightarrow> version_of s k = Some v \<Longrightarrow> old < v \<Longrightarrow>
     version_of (foldl step s as) k \<noteq> Some old"
  using version_run by fastforce

end

end
