(* ===== verification/Task_Model.thy ===== *)
theory Task_Model
  imports Prelude
begin

text \<open>
  \<open>src-tauri/src/tasks/model.rs\<close>: task states, task records and their validation.

  \<open>chrono\<close>, \<open>serde_json\<close>, \<open>uuid\<close> and SQLite's \<open>julianday\<close> are third-party code and are the fields of
  the parameter record \<open>lib\<close>; a \<open>Uuid\<close> is its canonical text.  A \<open>TaskError\<close> keeps its code; the
  human-readable message, which no code of the program inspects, is left out.
\<close>

section \<open>External functions\<close>

record lib =
  rfc3339_ok :: "rstr \<Rightarrow> bool"              \<comment> \<open>\<open>chrono::DateTime::parse_from_rfc3339(v).is_ok()\<close>\<close>
  json_ok :: "rstr \<Rightarrow> bool"                 \<comment> \<open>\<open>serde_json::from_str::<Value>(v).is_ok()\<close>\<close>
  uuid_parse :: "rstr \<Rightarrow> rstr option"        \<comment> \<open>\<open>Uuid::parse_str(v)\<close>, the canonical text of the id\<close>
  julianday :: "rstr \<Rightarrow> int option"          \<comment> \<open>SQLite's \<open>julianday\<close>, \<open>None\<close> for NULL\<close>

section \<open>States\<close>

datatype TaskState =
  Queued | Running | WaitingExternal | Paused | Completed | Failed | Cancelled | Interrupted

fun as_str :: "TaskState \<Rightarrow> rstr" where
  "as_str Queued = str ''queued''"
| "as_str Running = str ''running''"
| "as_str WaitingExternal = str ''waiting_external''"
| "as_str Paused = str ''paused''"
| "as_str Completed = str ''completed''"
| "as_str Failed = str ''failed''"
| "as_str Cancelled = str ''cancelled''"
| "as_str Interrupted = str ''interrupted''"

fun can_transition_to :: "TaskState \<Rightarrow> TaskState \<Rightarrow> bool" where
  "can_transition_to Queued t = (t \<in> {Running, Paused, Cancelled})"
| "can_transition_to Running t =
     (t \<in> {WaitingExternal, Paused, Completed, Failed, Cancelled, Interrupted})"
| "can_transition_to WaitingExternal t =
     (t \<in> {Running, Paused, Completed, Failed, Cancelled, Interrupted})"
| "can_transition_to Paused t = (t \<in> {Queued, Cancelled})"
| "can_transition_to Failed t = (t = Queued)"
| "can_transition_to Cancelled t = (t = Queued)"
| "can_transition_to Interrupted t = (t \<in> {Queued, Cancelled})"
| "can_transition_to Completed t = False"

datatype InvalidTaskState = InvalidTaskState rstr

definition from_str :: "rstr \<Rightarrow> (InvalidTaskState, TaskState) result" where
  "from_str v =
     (if v = str ''queued'' then Inr Queued
      else if v = str ''running'' then Inr Running
      else if v = str ''waiting_external'' then Inr WaitingExternal
      else if v = str ''paused'' then Inr Paused
      else if v = str ''completed'' then Inr Completed
      else if v = str ''failed'' then Inr Failed
      else if v = str ''cancelled'' then Inr Cancelled
      else if v = str ''interrupted'' then Inr Interrupted
      else Inl (InvalidTaskState v))"

datatype task_error = TaskError (te_code: string)

section \<open>Records\<close>

record task_record =
  t_id :: rstr
  t_workspace_id :: rstr
  t_kind :: rstr
  t_state :: TaskState
  t_payload_json :: rstr
  t_checkpoint_json :: "rstr option"
  t_attempt :: nat
  t_next_run_at :: "rstr option"
  t_progress :: nat
  t_error_code :: "rstr option"
  t_cancel_requested :: bool
  t_created_at :: rstr
  t_updated_at :: rstr
  t_started_at :: "rstr option"
  t_finished_at :: "rstr option"

record new_task =
  n_workspace_id :: rstr
  n_kind :: rstr
  n_payload_json :: rstr
  n_checkpoint_json :: "rstr option"
  n_next_run_at :: "rstr option"
  n_progress :: nat

section \<open>Validation\<close>

definition MAX_IDENTIFIER_LENGTH :: nat where
  "MAX_IDENTIFIER_LENGTH = 128"

abbreviation invalid_task :: task_error where
  "invalid_task \<equiv> TaskError ''invalid_task''"

abbreviation storage_error :: task_error where
  "storage_error \<equiv> TaskError ''storage_error''"

definition validate_timestamp :: "lib \<Rightarrow> rstr \<Rightarrow> (task_error, unit) result" where
  "validate_timestamp L v = (if rfc3339_ok L v then Inr () else Inl invalid_task)"

definition validate_identifier :: "rstr \<Rightarrow> (task_error, unit) result" where
  "validate_identifier v =
     (if trim v = [] \<or> trim v \<noteq> v \<or> MAX_IDENTIFIER_LENGTH < length v
        \<or> \<not> bytes_all (\<lambda>b. is_ascii_alphanumeric b \<or> b \<in> {95, 45, 46}) v
      then Inl invalid_task else Inr ())"

definition validate_json :: "lib \<Rightarrow> rstr \<Rightarrow> (task_error, unit) result" where
  "validate_json L v = (if json_ok L v then Inr () else Inl invalid_task)"

definition validate_progress :: "nat \<Rightarrow> (task_error, unit) result" where
  "validate_progress p = (if 100 < p then Inl invalid_task else Inr ())"

definition NewTask_validate :: "lib \<Rightarrow> new_task \<Rightarrow> (task_error, unit) result" where
  "NewTask_validate L n =
     rbind (validate_identifier (n_workspace_id n)) (\<lambda>_.
     rbind (validate_identifier (n_kind n)) (\<lambda>_.
     rbind (validate_json L (n_payload_json n)) (\<lambda>_.
     rbind (if_some (validate_json L) (n_checkpoint_json n)) (\<lambda>_.
     rbind (if_some (validate_timestamp L) (n_next_run_at n)) (\<lambda>_.
     validate_progress (n_progress n))))))"

definition error_code_check :: "TaskState \<Rightarrow> rstr option \<Rightarrow> (task_error, unit) result" where
  "error_code_check st ec =
     (case (st, ec) of
        (Failed, Some c) \<Rightarrow> validate_identifier c
      | (Failed, None) \<Rightarrow> Inl invalid_task
      | (_, Some _) \<Rightarrow> Inl invalid_task
      | (_, None) \<Rightarrow> Inr ())"

definition TaskRecord_validate :: "lib \<Rightarrow> task_record \<Rightarrow> (task_error, unit) result" where
  "TaskRecord_validate L t =
     rbind (validate_identifier (t_workspace_id t)) (\<lambda>_.
     rbind (validate_identifier (t_kind t)) (\<lambda>_.
     rbind (validate_json L (t_payload_json t)) (\<lambda>_.
     rbind (if_some (validate_json L) (t_checkpoint_json t)) (\<lambda>_.
     rbind (if_some (validate_timestamp L) (t_next_run_at t)) (\<lambda>_.
     rbind (validate_progress (t_progress t)) (\<lambda>_.
     rbind (validate_timestamp L (t_created_at t)) (\<lambda>_.
     rbind (validate_timestamp L (t_updated_at t)) (\<lambda>_.
     rbind (if_some (validate_timestamp L) (t_started_at t)) (\<lambda>_.
     rbind (if_some (validate_timestamp L) (t_finished_at t)) (\<lambda>_.
     if t_state t = Completed \<and> (t_progress t \<noteq> 100 \<or> t_next_run_at t \<noteq> None)
     then Inl invalid_task
     else error_code_check (t_state t) (t_error_code t)))))))))))"

section \<open>Lemmas\<close>

lemma as_str_inject [simp]: "as_str s = as_str t \<longleftrightarrow> s = t"
  by (cases s; cases t) auto

lemma from_str_as_str [simp]: "from_str (as_str s) = Inr s"
  by (cases s) (auto simp: from_str_def)

lemma from_str_Inr: "from_str v = Inr s \<longleftrightarrow> v = as_str s"
  by (cases s) (auto simp: from_str_def)

lemma validate_timestamp_Inr [simp]: "validate_timestamp L v = Inr u \<longleftrightarrow> rfc3339_ok L v"
  by (simp add: validate_timestamp_def)

lemma validate_json_Inr [simp]: "validate_json L v = Inr u \<longleftrightarrow> json_ok L v"
  by (simp add: validate_json_def)

lemma validate_progress_Inr [simp]: "validate_progress p = Inr u \<longleftrightarrow> p \<le> 100"
  by (auto simp: validate_progress_def)

lemma validate_Inl:
  "validate_timestamp L v = Inl e \<Longrightarrow> e = invalid_task"
  "validate_json L v = Inl e \<Longrightarrow> e = invalid_task"
  "validate_identifier v = Inl e \<Longrightarrow> e = invalid_task"
  "validate_progress p = Inl e \<Longrightarrow> e = invalid_task"
  by (auto simp: validate_timestamp_def validate_json_def validate_identifier_def
      validate_progress_def split: if_splits)

definition identifier_ok :: "rstr \<Rightarrow> bool" where
  "identifier_ok v \<longleftrightarrow> v \<noteq> [] \<and> length v \<le> 128 \<and>
     list_all (\<lambda>c. is_ascii_alphanumeric c \<or> c \<in> {95, 45, 46}) v"

lemma ident_char_not_ws: "is_ascii_alphanumeric c \<or> c \<in> {95, 45, 46} \<Longrightarrow> c < 128 \<and> \<not> is_whitespace c"
  by (auto simp: ascii_defs is_whitespace_def)

lemma validate_identifier_iff: "validate_identifier v = Inr u \<longleftrightarrow> identifier_ok v"
proof -
  have "bytes_all (\<lambda>b. is_ascii_alphanumeric b \<or> b \<in> {95, 45, 46}) v
      \<longleftrightarrow> list_all (\<lambda>c. is_ascii_alphanumeric c \<or> c \<in> {95, 45, 46}) v"
    unfolding bytes_all_def using ident_char_not_ws by (auto simp: list_all_iff)
  moreover have "list_all (\<lambda>c. is_ascii_alphanumeric c \<or> c \<in> {95, 45, 46}) v \<Longrightarrow> trim v = v"
    by (rule trim_id) (use ident_char_not_ws in \<open>auto simp: list_all_iff\<close>)
  ultimately show ?thesis
    by (auto simp: validate_identifier_def identifier_ok_def MAX_IDENTIFIER_LENGTH_def)
qed

lemma error_code_check_Inr:
  "error_code_check st ec = Inr u \<longleftrightarrow>
     (if st = Failed then (\<exists>c. ec = Some c \<and> identifier_ok c) else ec = None)"
  by (cases st; cases ec) (auto simp: error_code_check_def validate_identifier_iff)

text \<open>What a validated record satisfies, as one predicate on the record.\<close>

definition task_wf :: "lib \<Rightarrow> task_record \<Rightarrow> bool" where
  "task_wf L t \<longleftrightarrow> identifier_ok (t_workspace_id t) \<and> identifier_ok (t_kind t) \<and> json_ok L (t_payload_json t)
     \<and> (\<forall>c. t_checkpoint_json t = Some c \<longrightarrow> json_ok L c)
     \<and> (\<forall>c. t_next_run_at t = Some c \<longrightarrow> rfc3339_ok L c)
     \<and> t_progress t \<le> 100 \<and> rfc3339_ok L (t_created_at t) \<and> rfc3339_ok L (t_updated_at t)
     \<and> (\<forall>c. t_started_at t = Some c \<longrightarrow> rfc3339_ok L c)
     \<and> (\<forall>c. t_finished_at t = Some c \<longrightarrow> rfc3339_ok L c)
     \<and> (t_state t = Completed \<longrightarrow> t_progress t = 100 \<and> t_next_run_at t = None)
     \<and> (if t_state t = Failed then (\<exists>c. t_error_code t = Some c \<and> identifier_ok c)
        else t_error_code t = None)"

lemma TaskRecord_validate_iff: "TaskRecord_validate L t = Inr u \<longleftrightarrow> task_wf L t"
  unfolding TaskRecord_validate_def task_wf_def
  by (auto simp: rbind_Inr if_some_Inr validate_identifier_iff error_code_check_Inr split: if_splits)

lemma NewTask_validate_iff:
  "NewTask_validate L n = Inr u \<longleftrightarrow> identifier_ok (n_workspace_id n) \<and> identifier_ok (n_kind n)
     \<and> json_ok L (n_payload_json n) \<and> (\<forall>c. n_checkpoint_json n = Some c \<longrightarrow> json_ok L c)
     \<and> (\<forall>c. n_next_run_at n = Some c \<longrightarrow> rfc3339_ok L c) \<and> n_progress n \<le> 100"
  unfolding NewTask_validate_def
  by (auto simp: rbind_Inr if_some_Inr validate_identifier_iff)

end
