(* ===== verification/Task_Repository.thy ===== *)
theory Task_Repository
  imports Task_Model
begin

text \<open>
  \<open>src-tauri/src/tasks/repository.rs\<close> over the table \<open>background_tasks\<close> of
  \<open>storage/migrations/0004_background_tasks.sql\<close>, \<open>0022_task_timings.sql\<close> and \<open>0027_task_claims.sql\<close>.

  The database is a list of raw rows.  An SQL \<open>UPDATE\<close> is \<open>sql_update\<close>: it maps the selected rows and
  is refused as a whole when a \<open>CHECK\<close> constraint or the unique index on \<open>claim_token\<close> would be violated.
  Every operation takes the database and returns its result together with the database afterwards; an
  operation that runs in a transaction returns the old database on every error path (rollback on drop),
  one that runs a single statement in autocommit mode keeps the statement's effect.  The wall clock and
  \<open>Uuid::new_v4\<close> are arguments.
\<close>

section \<open>Rows and constraints\<close>

record task_row =
  r_id :: rstr
  r_workspace_id :: rstr
  r_kind :: rstr
  r_state :: rstr
  r_payload_json :: rstr
  r_checkpoint_json :: "rstr option"
  r_attempt :: int
  r_next_run_at :: "rstr option"
  r_progress :: int
  r_error_code :: "rstr option"
  r_cancel_requested :: int
  r_created_at :: rstr
  r_updated_at :: rstr
  r_started_at :: "rstr option"
  r_finished_at :: "rstr option"
  r_owner :: "rstr option"
  r_claim_token :: "rstr option"
  r_lease_expires_at :: "rstr option"

record task_db =
  db_tasks :: "task_row list"
  db_claim_tokens :: "(rstr \<times> rstr \<times> rstr) list"

type_synonym 'a task_io = "task_db \<Rightarrow> (task_error, 'a) result \<times> task_db"

definition row_checks :: "task_row \<Rightarrow> bool" where
  "row_checks r \<longleftrightarrow>
     r_state r \<in> set (map as_str [Queued, Running, WaitingExternal, Paused, Completed, Failed, Cancelled, Interrupted])
     \<and> 0 \<le> r_attempt r \<and> 0 \<le> r_progress r \<and> r_progress r \<le> 100 \<and> r_cancel_requested r \<in> {0, 1}
     \<and> ((r_state r = str ''failed'') = (r_error_code r \<noteq> None))
     \<and> (r_state r \<noteq> str ''completed'' \<or> (r_progress r = 100 \<and> r_next_run_at r = None))"

definition tokens_unique :: "task_row list \<Rightarrow> bool" where
  "tokens_unique rows = distinct (List.map_filter r_claim_token rows)"

definition sql_update :: "(task_row \<Rightarrow> bool) \<Rightarrow> (task_row \<Rightarrow> task_row) \<Rightarrow> task_db \<Rightarrow> (nat \<times> task_db) option" where
  "sql_update P f db =
     (let rows = map (\<lambda>r. if P r then f r else r) (db_tasks db);
          hit = filter P (db_tasks db)
      in if list_all row_checks (map f hit) \<and> tokens_unique rows
         then Some (length hit, db\<lparr>db_tasks := rows\<rparr>) else None)"

definition sql_insert :: "task_row \<Rightarrow> task_db \<Rightarrow> task_db option" where
  "sql_insert r db =
     (if r_id r \<in> set (map r_id (db_tasks db)) \<or> \<not> row_checks r \<or> \<not> tokens_unique (db_tasks db @ [r]) then None
      else Some (db\<lparr>db_tasks := db_tasks db @ [r]\<rparr>))"

definition is_row :: "rstr \<Rightarrow> rstr \<Rightarrow> task_row \<Rightarrow> bool" where
  "is_row ws i r \<longleftrightarrow> r_workspace_id r = ws \<and> r_id r = i"

definition SELECT_TASK :: "rstr \<Rightarrow> rstr \<Rightarrow> task_db \<Rightarrow> task_row option" where
  "SELECT_TASK ws i db = find (is_row ws i) (db_tasks db)"

section \<open>Decoding\<close>

definition task_of_row :: "rstr \<Rightarrow> TaskState \<Rightarrow> task_row \<Rightarrow> task_record" where
  "task_of_row u st r =
     \<lparr>t_id = u, t_workspace_id = r_workspace_id r, t_kind = r_kind r, t_state = st,
      t_payload_json = r_payload_json r, t_checkpoint_json = r_checkpoint_json r,
      t_attempt = nat (r_attempt r), t_next_run_at = r_next_run_at r,
      t_progress = nat (r_progress r), t_error_code = r_error_code r,
      t_cancel_requested = (r_cancel_requested r = 1), t_created_at = r_created_at r,
      t_updated_at = r_updated_at r, t_started_at = r_started_at r, t_finished_at = r_finished_at r\<rparr>"

definition decode_task :: "lib \<Rightarrow> task_row \<Rightarrow> (task_error, task_record) result" where
  "decode_task L r =
     rbind (ok_or storage_error (uuid_parse L (r_id r))) (\<lambda>u.
     rbind (map_err (\<lambda>_. storage_error) (from_str (r_state r))) (\<lambda>st.
     rbind (ensure (0 \<le> r_attempt r \<and> r_attempt r \<le> int u32_max) storage_error) (\<lambda>_.
     rbind (ensure (0 \<le> r_progress r \<and> r_progress r \<le> int u8_max) storage_error) (\<lambda>_.
     rbind (ensure (r_cancel_requested r \<in> {0, 1}) storage_error) (\<lambda>_.
     rbind (map_err (\<lambda>_. storage_error) (TaskRecord_validate L (task_of_row u st r))) (\<lambda>_.
     Inr (task_of_row u st r)))))))"

section \<open>Reads\<close>

definition get :: "lib \<Rightarrow> rstr \<Rightarrow> rstr \<Rightarrow> task_db \<Rightarrow> (task_error, task_record option) result" where
  "get L ws i db =
     rbind (validate_identifier ws) (\<lambda>_.
     (case SELECT_TASK ws i db of
        None \<Rightarrow> Inr None
      | Some r \<Rightarrow> rbind (decode_task L r) (\<lambda>t. Inr (Some t))))"

definition list_tasks :: "lib \<Rightarrow> rstr \<Rightarrow> task_db \<Rightarrow> (task_error, task_record list) result" where
  "list_tasks L ws db =
     rbind (validate_identifier ws) (\<lambda>_.
     try_map (decode_task L)
       (sort_by (\<lambda>x y. (r_created_at x, r_id x) \<le> (r_created_at y, r_id y))
          (filter (\<lambda>r. r_workspace_id r = ws) (db_tasks db))))"

text \<open>Reading a row back after a write: \<open>get(...)?.ok_or_else(storage_error)\<close>.\<close>

definition read_back :: "lib \<Rightarrow> rstr \<Rightarrow> rstr \<Rightarrow> task_db \<Rightarrow> (task_error, task_record) result" where
  "read_back L ws i db = rbind (get L ws i db) (ok_or storage_error)"

text \<open>Reading a row back inside the transaction: \<open>query_row(SELECT_TASK)?\<close> and \<open>decode_task\<close>.\<close>

definition select_decode :: "lib \<Rightarrow> rstr \<Rightarrow> rstr \<Rightarrow> task_db \<Rightarrow> (task_error, task_record) result" where
  "select_decode L ws i db = rbind (ok_or storage_error (SELECT_TASK ws i db)) (decode_task L)"

text \<open>Commit when the body succeeded, roll back otherwise.\<close>

definition commit_or_rollback :: "task_db \<Rightarrow> task_db \<Rightarrow> (task_error, 'a) result \<Rightarrow> (task_error, 'a) result \<times> task_db" where
  "commit_or_rollback old new res = (case res of Inl e \<Rightarrow> (Inl e, old) | Inr x \<Rightarrow> (Inr x, new))"

section \<open>Writes\<close>

definition create :: "lib \<Rightarrow> rstr \<Rightarrow> rstr \<Rightarrow> new_task \<Rightarrow> task_record task_io" where
  "create L new_id ts n db =
     (case NewTask_validate L n of
        Inl e \<Rightarrow> (Inl e, db)
      | Inr _ \<Rightarrow>
          (case sql_insert
             \<lparr>r_id = new_id, r_workspace_id = n_workspace_id n, r_kind = n_kind n, r_state = str ''queued'',
              r_payload_json = n_payload_json n, r_checkpoint_json = n_checkpoint_json n, r_attempt = 0,
              r_next_run_at = n_next_run_at n, r_progress = int (n_progress n), r_error_code = None,
              r_cancel_requested = 0, r_created_at = ts, r_updated_at = ts, r_started_at = None,
              r_finished_at = None, r_owner = None, r_claim_token = None, r_lease_expires_at = None\<rparr> db of
             None \<Rightarrow> (Inl storage_error, db)
           | Some db' \<Rightarrow> (read_back L (n_workspace_id n) new_id db', db')))"

definition checkpoint ::
  "lib \<Rightarrow> rstr \<Rightarrow> rstr \<Rightarrow> rstr \<Rightarrow> nat \<Rightarrow> rstr option \<Rightarrow> nat \<Rightarrow> rstr option \<Rightarrow> task_record task_io" where
  "checkpoint L ts ws i expected_attempt cp progress next_run db =
     (case rbind (validate_identifier ws) (\<lambda>_. rbind (if_some (validate_json L) cp) (\<lambda>_.
           rbind (if_some (validate_timestamp L) next_run) (\<lambda>_. validate_progress progress))) of
        Inl e \<Rightarrow> (Inl e, db)
      | Inr _ \<Rightarrow>
          (case sql_update
             (\<lambda>r. is_row ws i r \<and> r_attempt r = int expected_attempt
                  \<and> r_state r \<in> {str ''running'', str ''waiting_external''})
             (\<lambda>r. r\<lparr>r_checkpoint_json := cp, r_progress := int progress, r_next_run_at := next_run,
                    r_updated_at := ts\<rparr>) db of
             None \<Rightarrow> (Inl storage_error, db)
           | Some (updated, db') \<Rightarrow>
               if updated = 0 then
                 (case get L ws i db' of
                    Inl e \<Rightarrow> (Inl e, db')
                  | Inr None \<Rightarrow> (Inl (TaskError ''task_not_found''), db')
                  | Inr (Some t) \<Rightarrow>
                      if t_attempt t \<noteq> expected_attempt then (Inl (TaskError ''stale_claim''), db')
                      else if t_state t \<in> {Running, WaitingExternal} then (Inl storage_error, db')
                      else (Inl (TaskError ''stale_claim''), db'))
               else (read_back L ws i db', db')))"

definition retry_set :: "rstr option \<Rightarrow> nat \<Rightarrow> rstr \<Rightarrow> rstr \<Rightarrow> task_row \<Rightarrow> task_row" where
  "retry_set cp progress next_run now r =
     r\<lparr>r_state := (if r_cancel_requested r = 1 then str ''cancelled'' else str ''queued''),
       r_checkpoint_json := cp, r_progress := int progress, r_next_run_at := Some next_run,
       r_error_code := None, r_updated_at := now\<rparr>"

definition schedule_retry ::
  "lib \<Rightarrow> rstr \<Rightarrow> rstr \<Rightarrow> nat \<Rightarrow> rstr option \<Rightarrow> nat \<Rightarrow> rstr \<Rightarrow> rstr \<Rightarrow> task_record task_io" where
  "schedule_retry L ws i expected_attempt cp progress next_run now db =
     (case rbind (validate_identifier ws) (\<lambda>_. rbind (if_some (validate_json L) cp) (\<lambda>_.
           rbind (validate_progress progress) (\<lambda>_. rbind (validate_timestamp L next_run) (\<lambda>_.
           validate_timestamp L now)))) of
        Inl e \<Rightarrow> (Inl e, db)
      | Inr _ \<Rightarrow>
          (case sql_update
             (\<lambda>r. is_row ws i r \<and> r_attempt r = int expected_attempt \<and> r_state r = str ''running'')
             (retry_set cp progress next_run now) db of
             None \<Rightarrow> (Inl storage_error, db)
           | Some (updated, db') \<Rightarrow>
               if updated = 0 then
                 (case SELECT_TASK ws i db' of
                    None \<Rightarrow> (Inl (TaskError ''task_not_found''), db)
                  | Some r \<Rightarrow>
                      (case decode_task L r of
                         Inl e \<Rightarrow> (Inl e, db)
                       | Inr t \<Rightarrow>
                           if t_attempt t \<noteq> expected_attempt \<or> t_state t \<noteq> Running
                           then (Inl (TaskError ''stale_claim''), db) else (Inl storage_error, db)))
               else commit_or_rollback db db' (select_decode L ws i db')))"

definition is_finishing :: "TaskState \<Rightarrow> bool" where
  "is_finishing t \<longleftrightarrow> t \<in> {Completed, Failed, Cancelled, Interrupted}"

text \<open>The \<open>SET\<close> clause of the transition, from the record read before.\<close>

definition transition_set ::
  "rstr \<Rightarrow> rstr \<Rightarrow> task_record \<Rightarrow> TaskState \<Rightarrow> rstr option \<Rightarrow> task_row \<Rightarrow> task_row" where
  "transition_set ts_fin ts cur target ec r =
     (let (progress, next_run, code) =
            (if target = Completed then (100, None, None)
             else if target = Failed then (t_progress cur, t_next_run_at cur, ec)
             else if target = Queued then (t_progress cur, t_next_run_at cur, None)
             else (t_progress cur, t_next_run_at cur, None));
          cancel = (if target = Queued then 0 else if t_cancel_requested cur then 1 else 0);
          finished = (if is_finishing target then Some ts_fin else None)
      in r\<lparr>r_state := as_str target, r_progress := int progress, r_next_run_at := next_run,
           r_error_code := code, r_cancel_requested := cancel, r_updated_at := ts, r_finished_at := finished\<rparr>)"

definition transition ::
  "lib \<Rightarrow> rstr \<Rightarrow> rstr \<Rightarrow> rstr \<Rightarrow> rstr \<Rightarrow> nat \<Rightarrow> TaskState \<Rightarrow> TaskState \<Rightarrow> rstr option \<Rightarrow> task_record task_io" where
  "transition L ts_fin ts ws i expected_attempt expected_state target ec db =
     (case rbind (validate_identifier ws) (\<lambda>_. rbind (error_code_check target ec) (\<lambda>_.
           rbind (ok_or (TaskError ''task_not_found'') (SELECT_TASK ws i db)) (decode_task L))) of
        Inl e \<Rightarrow> (Inl e, db)
      | Inr cur \<Rightarrow>
          if t_attempt cur \<noteq> expected_attempt then (Inl (TaskError ''stale_claim''), db)
          else if t_state cur \<noteq> expected_state then (Inl (TaskError ''stale_claim''), db)
          else if expected_state \<in> {Queued, WaitingExternal} \<and> target = Running
          then (Inl (TaskError ''claim_required''), db)
          else if \<not> can_transition_to (t_state cur) target
          then (Inl (TaskError ''illegal_transition''), db)
          else
            (case sql_update
               (\<lambda>r. is_row ws i r \<and> r_attempt r = int expected_attempt \<and> r_state r = as_str expected_state)
               (transition_set ts_fin ts cur target ec) db of
               None \<Rightarrow> (Inl storage_error, db)
             | Some (_, db') \<Rightarrow> commit_or_rollback db db' (select_decode L ws i db')))"

definition request_cancellation :: "lib \<Rightarrow> rstr \<Rightarrow> rstr \<Rightarrow> rstr \<Rightarrow> task_record task_io" where
  "request_cancellation L ts ws i db =
     (case validate_identifier ws of
        Inl e \<Rightarrow> (Inl e, db)
      | Inr _ \<Rightarrow>
          (case sql_update (is_row ws i) (\<lambda>r. r\<lparr>r_cancel_requested := 1, r_updated_at := ts\<rparr>) db of
             None \<Rightarrow> (Inl storage_error, db)
           | Some (changed, db') \<Rightarrow>
               if changed = 0 then (Inl (TaskError ''task_not_found''), db')
               else (read_back L ws i db', db')))"

definition request_running_cancellation :: "lib \<Rightarrow> rstr \<Rightarrow> rstr \<Rightarrow> rstr \<Rightarrow> nat \<Rightarrow> task_record task_io" where
  "request_running_cancellation L ts ws i expected_attempt db =
     (case validate_identifier ws of
        Inl e \<Rightarrow> (Inl e, db)
      | Inr _ \<Rightarrow>
          (case sql_update
             (\<lambda>r. is_row ws i r \<and> r_attempt r = int expected_attempt \<and> r_state r = str ''running'')
             (\<lambda>r. r\<lparr>r_cancel_requested := 1, r_updated_at := ts\<rparr>) db of
             None \<Rightarrow> (Inl storage_error, db)
           | Some (changed, db') \<Rightarrow>
               if changed = 0 then
                 (case SELECT_TASK ws i db' of
                    None \<Rightarrow> (Inl (TaskError ''task_not_found''), db)
                  | Some r \<Rightarrow> (case decode_task L r of Inl e \<Rightarrow> (Inl e, db)
                               | Inr _ \<Rightarrow> (Inl (TaskError ''stale_claim''), db)))
               else commit_or_rollback db db' (select_decode L ws i db')))"

definition retry_manually :: "lib \<Rightarrow> rstr \<Rightarrow> rstr \<Rightarrow> rstr \<Rightarrow> nat \<Rightarrow> TaskState \<Rightarrow> task_record task_io" where
  "retry_manually L ts ws i expected_attempt expected_state db =
     (case validate_identifier ws of
        Inl e \<Rightarrow> (Inl e, db)
      | Inr _ \<Rightarrow>
          if expected_state \<notin> {Failed, Cancelled, Interrupted, Paused}
          then (Inl (TaskError ''illegal_transition''), db)
          else
            (case sql_update
               (\<lambda>r. is_row ws i r \<and> r_attempt r = int expected_attempt \<and> r_state r = as_str expected_state)
               (\<lambda>r. r\<lparr>r_state := str ''queued'', r_next_run_at := None, r_error_code := None,
                      r_cancel_requested := 0, r_updated_at := ts\<rparr>) db of
               None \<Rightarrow> (Inl storage_error, db)
             | Some (changed, db') \<Rightarrow>
                 if changed = 0 then
                   (Inl (if SELECT_TASK ws i db' \<noteq> None then TaskError ''stale_claim''
                         else TaskError ''task_not_found''), db)
                 else commit_or_rollback db db' (select_decode L ws i db')))"

text \<open>The claim: \<open>ORDER BY next_run_at IS NOT NULL, julianday(next_run_at), created_at, id LIMIT 1\<close>.\<close>

definition claimable_state :: "task_row \<Rightarrow> bool" where
  "claimable_state r \<longleftrightarrow> r_state r \<in> {str ''queued'', str ''waiting_external''} \<and> r_cancel_requested r = 0"

definition julian_le :: "lib \<Rightarrow> rstr \<Rightarrow> rstr \<Rightarrow> bool" where
  "julian_le L a b = (case (julianday L a, julianday L b) of (Some x, Some y) \<Rightarrow> x \<le> y | _ \<Rightarrow> False)"

definition due :: "lib \<Rightarrow> rstr \<Rightarrow> task_row \<Rightarrow> bool" where
  "due L now r = (case r_next_run_at r of None \<Rightarrow> True | Some v \<Rightarrow> julian_le L v now)"

definition claim_key :: "lib \<Rightarrow> task_row \<Rightarrow> bool \<times> (nat \<times> int) \<times> rstr \<times> rstr" where
  "claim_key L r =
     (r_next_run_at r \<noteq> None,
      (case Option.bind (r_next_run_at r) (julianday L) of None \<Rightarrow> (0, 0) | Some j \<Rightarrow> (1, j)),
      r_created_at r, r_id r)"

definition claim_candidates :: "lib \<Rightarrow> rstr \<Rightarrow> rstr \<Rightarrow> task_db \<Rightarrow> task_row list" where
  "claim_candidates L ws now db =
     sort_by (\<lambda>x y. claim_key L x \<le> claim_key L y)
       (filter (\<lambda>r. r_workspace_id r = ws \<and> claimable_state r \<and> due L now r) (db_tasks db))"

definition claim_set :: "rstr \<Rightarrow> task_row \<Rightarrow> task_row" where
  "claim_set now r = r\<lparr>r_state := str ''running'', r_attempt := r_attempt r + 1,
     r_updated_at := now, r_started_at := Some now\<rparr>"

definition claim_next :: "lib \<Rightarrow> rstr \<Rightarrow> rstr \<Rightarrow> task_record option task_io" where
  "claim_next L ws now db =
     (case rbind (validate_identifier ws) (\<lambda>_. validate_timestamp L now) of
        Inl e \<Rightarrow> (Inl e, db)
      | Inr _ \<Rightarrow>
          if \<not> list_all (\<lambda>r. case r_next_run_at r of None \<Rightarrow> True | Some v \<Rightarrow> rfc3339_ok L v)
                 (filter (\<lambda>r. r_workspace_id r = ws \<and> claimable_state r) (db_tasks db))
          then (Inl storage_error, db)
          else
            (case claim_candidates L ws now db of
               [] \<Rightarrow> (Inr None, db)
             | c # _ \<Rightarrow>
                 (case sql_update (\<lambda>r. is_row ws (r_id c) r \<and> claimable_state r)
                         (claim_set now) db of
                    None \<Rightarrow> (Inl storage_error, db)
                  | Some (updated, db') \<Rightarrow>
                      if updated \<noteq> 1 then (Inl storage_error, db)
                      else commit_or_rollback db db'
                             (rbind (select_decode L ws (r_id c) db') (\<lambda>t. Inr (Some t))))))"

section \<open>The table invariant\<close>

text \<open>A well-formed row is one that \<open>decode_task\<close> accepts; it then satisfies the table's constraints.\<close>

definition row_wf :: "lib \<Rightarrow> task_row \<Rightarrow> bool" where
  "row_wf L r \<longleftrightarrow> (\<exists>u st. uuid_parse L (r_id r) = Some u \<and> r_state r = as_str st
     \<and> 0 \<le> r_attempt r \<and> r_attempt r \<le> int u32_max \<and> 0 \<le> r_progress r
     \<and> r_cancel_requested r \<in> {0, 1} \<and> task_wf L (task_of_row u st r))"

definition repo_ok :: "lib \<Rightarrow> task_db \<Rightarrow> bool" where
  "repo_ok L db \<longleftrightarrow> distinct (map r_id (db_tasks db)) \<and> list_all (row_wf L) (db_tasks db)
     \<and> tokens_unique (db_tasks db) \<and> (\<forall>i \<in> set (map r_id (db_tasks db)). uuid_parse L i = Some i)"

text \<open>The record of a well-formed row.\<close>

definition record_of :: "lib \<Rightarrow> task_row \<Rightarrow> task_record" where
  "record_of L r = (case decode_task L r of Inr t \<Rightarrow> t | Inl _ \<Rightarrow> undefined)"

lemma as_str_failed [simp]: "as_str s = str ''failed'' \<longleftrightarrow> s = Failed" by (cases s) auto
lemma as_str_completed [simp]: "as_str s = str ''completed'' \<longleftrightarrow> s = Completed" by (cases s) auto
lemma as_str_running [simp]: "as_str s = str ''running'' \<longleftrightarrow> s = Running" by (cases s) auto
lemma as_str_queued [simp]: "as_str s = str ''queued'' \<longleftrightarrow> s = Queued" by (cases s) auto
lemma as_str_waiting [simp]: "as_str s = str ''waiting_external'' \<longleftrightarrow> s = WaitingExternal"
  by (cases s) auto
lemma str_as_str [simp]: "str ''failed'' = as_str s \<longleftrightarrow> s = Failed" "str ''completed'' = as_str s \<longleftrightarrow> s = Completed"
  "str ''running'' = as_str s \<longleftrightarrow> s = Running" "str ''queued'' = as_str s \<longleftrightarrow> s = Queued"
  "str ''cancelled'' = as_str s \<longleftrightarrow> s = Cancelled" "str ''waiting_external'' = as_str s \<longleftrightarrow> s = WaitingExternal"
  by (cases s; simp)+

lemma str_as_str_ex [simp]: "\<exists>s. str ''queued'' = as_str s" "\<exists>s. str ''running'' = as_str s"
  "\<exists>s. str ''cancelled'' = as_str s" "\<exists>s. str ''completed'' = as_str s"
  by (metis as_str.simps)+

lemma task_of_row_simps [simp]:
  "t_id (task_of_row u st r) = u" "t_workspace_id (task_of_row u st r) = r_workspace_id r"
  "t_kind (task_of_row u st r) = r_kind r" "t_state (task_of_row u st r) = st"
  "t_payload_json (task_of_row u st r) = r_payload_json r"
  "t_checkpoint_json (task_of_row u st r) = r_checkpoint_json r"
  "t_attempt (task_of_row u st r) = nat (r_attempt r)" "t_next_run_at (task_of_row u st r) = r_next_run_at r"
  "t_progress (task_of_row u st r) = nat (r_progress r)" "t_error_code (task_of_row u st r) = r_error_code r"
  "t_cancel_requested (task_of_row u st r) = (r_cancel_requested r = 1)"
  "t_created_at (task_of_row u st r) = r_created_at r" "t_updated_at (task_of_row u st r) = r_updated_at r"
  "t_started_at (task_of_row u st r) = r_started_at r" "t_finished_at (task_of_row u st r) = r_finished_at r"
  by (simp_all add: task_of_row_def)

lemma task_wf_progress: "task_wf L t \<Longrightarrow> t_progress t \<le> 100"
  by (simp add: task_wf_def)

lemma decode_task_Inr:
  "decode_task L r = Inr t \<longleftrightarrow> (\<exists>u st. uuid_parse L (r_id r) = Some u \<and> r_state r = as_str st
     \<and> 0 \<le> r_attempt r \<and> r_attempt r \<le> int u32_max \<and> 0 \<le> r_progress r
     \<and> r_cancel_requested r \<in> {0, 1} \<and> task_wf L (task_of_row u st r) \<and> t = task_of_row u st r)"
proof -
  have "task_wf L (task_of_row u st r) \<Longrightarrow> r_progress r \<le> int u8_max" for u st
    using task_wf_progress [of L "task_of_row u st r"] by (simp add: u8_max_def)
  then show ?thesis
    unfolding decode_task_def rbind_Inr ok_or_Inr map_err_Inr from_str_Inr ensure_Inr TaskRecord_validate_iff
    by blast
qed

lemma decode_task_ok_iff: "(\<exists>t. decode_task L r = Inr t) \<longleftrightarrow> row_wf L r"
  unfolding decode_task_Inr row_wf_def by blast

lemma decode_record_of: "row_wf L r \<Longrightarrow> decode_task L r = Inr (record_of L r)"
  using decode_task_ok_iff [of L r] by (auto simp: record_of_def)

lemma decode_fields:
  assumes "decode_task L r = Inr t"
  shows "row_wf L r" "r_state r = as_str (t_state t)" "r_attempt r = int (t_attempt t)"
    "r_progress r = int (t_progress t)" "r_cancel_requested r = (if t_cancel_requested t then 1 else 0)"
    "t_workspace_id t = r_workspace_id r" "t_kind t = r_kind r" "t_next_run_at t = r_next_run_at r"
    "t_error_code t = r_error_code r" "t_checkpoint_json t = r_checkpoint_json r"
    "uuid_parse L (r_id r) = Some (t_id t)" "task_wf L t"
  using assms decode_task_ok_iff [of L r] unfolding decode_task_Inr by auto

lemma decode_Inl: "decode_task L r = Inl e \<Longrightarrow> e = storage_error"
proof -
  have m: "map_err (\<lambda>_. storage_error) m = Inl e \<Longrightarrow> e = storage_error" for m :: "('x, 'y) result"
    by (cases m) auto
  have o: "ok_or storage_error v = Inl e \<Longrightarrow> e = storage_error" for v :: "'z option"
    by (cases v) auto
  show "decode_task L r = Inl e \<Longrightarrow> e = storage_error"
    unfolding decode_task_def rbind_Inl ensure_Inl by (blast dest: m o)
qed

lemma row_wf_checks: "row_wf L r \<Longrightarrow> row_checks r"
proof -
  assume "row_wf L r"
  then obtain u st where w: "r_state r = as_str st" "0 \<le> r_attempt r" "0 \<le> r_progress r"
    "r_cancel_requested r \<in> {0, 1}" and t: "task_wf L (task_of_row u st r)"
    unfolding row_wf_def by blast
  have "r_state r \<in> set (map as_str [Queued, Running, WaitingExternal, Paused, Completed, Failed, Cancelled, Interrupted])"
    unfolding w(1) by (cases st) auto
  moreover have "(st = Failed) = (r_error_code r \<noteq> None)" using t by (auto simp: task_wf_def split: if_splits)
  moreover have "st = Completed \<Longrightarrow> r_progress r = 100 \<and> r_next_run_at r = None" "r_progress r \<le> 100"
    using t by (auto simp: task_wf_def)
  ultimately show ?thesis using w unfolding row_checks_def by simp
qed

subsection \<open>Generic facts on updates\<close>

definition keeps_key :: "(task_row \<Rightarrow> task_row) \<Rightarrow> bool" where
  "keeps_key f \<longleftrightarrow> (\<forall>r. r_id (f r) = r_id r \<and> r_workspace_id (f r) = r_workspace_id r
     \<and> r_claim_token (f r) = r_claim_token r)"

lemma map_filter_map_if:
  "(\<And>r. g (f r) = g r) \<Longrightarrow> List.map_filter g (map (\<lambda>r. if P r then f r else r) rows) = List.map_filter g rows"
  by (induction rows) (auto simp: List.map_filter_simps split: option.splits)

lemma map_id_map_if:
  "(\<And>r. g (f r) = g r) \<Longrightarrow> map g (map (\<lambda>r. if P r then f r else r) rows) = map g rows"
  by (induction rows) auto

lemma sql_update_SomeD:
  "sql_update P f db = Some (n, db') \<Longrightarrow>
     n = length (filter P (db_tasks db)) \<and> db' = db\<lparr>db_tasks := map (\<lambda>r. if P r then f r else r) (db_tasks db)\<rparr>"
  by (auto simp: sql_update_def Let_def split: if_splits)

lemma repo_ok_update:
  assumes ok: "repo_ok L db" and k: "keeps_key f"
    and wf: "\<forall>r. r \<in> set (db_tasks db) \<longrightarrow> P r \<longrightarrow> row_wf L r \<longrightarrow> row_wf L (f r)"
  shows "sql_update P f db =
           Some (length (filter P (db_tasks db)), db\<lparr>db_tasks := map (\<lambda>r. if P r then f r else r) (db_tasks db)\<rparr>)"
    and "repo_ok L (db\<lparr>db_tasks := map (\<lambda>r. if P r then f r else r) (db_tasks db)\<rparr>)"
proof -
  have all: "\<And>r. r \<in> set (db_tasks db) \<Longrightarrow> row_wf L r" using ok by (auto simp: repo_ok_def list_all_iff)
  have t: "tokens_unique (map (\<lambda>r. if P r then f r else r) (db_tasks db))"
    using ok k by (simp add: repo_ok_def tokens_unique_def keeps_key_def map_filter_map_if)
  show "sql_update P f db =
           Some (length (filter P (db_tasks db)), db\<lparr>db_tasks := map (\<lambda>r. if P r then f r else r) (db_tasks db)\<rparr>)"
    using t wf all by (auto simp: sql_update_def Let_def list_all_iff intro: row_wf_checks)
  have i: "map r_id (map (\<lambda>r. if P r then f r else r) (db_tasks db)) = map r_id (db_tasks db)"
    by (rule map_id_map_if) (use k in \<open>simp add: keeps_key_def\<close>)
  show "repo_ok L (db\<lparr>db_tasks := map (\<lambda>r. if P r then f r else r) (db_tasks db)\<rparr>)"
    using ok wf all t i by (simp add: repo_ok_def list_all_iff del: map_map set_map) auto
qed

lemma SELECT_TASK_Some: "SELECT_TASK ws i db = Some r \<Longrightarrow> r \<in> set (db_tasks db) \<and> r_workspace_id r = ws \<and> r_id r = i"
  by (auto simp: SELECT_TASK_def is_row_def dest: find_Some_split)

lemma find_map_if_key:
  "(\<And>r. Q (f r) = Q r) \<Longrightarrow> find Q (map (\<lambda>r. if P r then f r else r) rows)
     = map_option (\<lambda>r. if P r then f r else r) (find Q rows)"
  by (induction rows) auto

lemma SELECT_TASK_update:
  "keeps_key f \<Longrightarrow>
     SELECT_TASK ws i (db\<lparr>db_tasks := map (\<lambda>r. if P r then f r else r) (db_tasks db)\<rparr>)
       = map_option (\<lambda>r. if P r then f r else r) (SELECT_TASK ws i db)"
  using find_map_if_key [of "is_row ws i" f P "db_tasks db"]
  by (simp add: SELECT_TASK_def keeps_key_def is_row_def)

lemma SELECT_TASK_unique:
  assumes "repo_ok L db" "r \<in> set (db_tasks db)"
  shows "SELECT_TASK (r_workspace_id r) (r_id r) db = Some r"
proof -
  have d: "distinct (map r_id (db_tasks db))" using assms(1) by (simp add: repo_ok_def)
  have "find (is_row (r_workspace_id r) (r_id r)) (db_tasks db) \<noteq> None"
    using assms(2) by (auto simp: find_None_all is_row_def)
  then obtain r' where "find (is_row (r_workspace_id r) (r_id r)) (db_tasks db) = Some r'" by auto
  moreover from this have "r' = r"
    using find_Some_split distinct_key_unique [OF d] assms(2) by (fastforce simp: is_row_def)
  ultimately show ?thesis by (simp add: SELECT_TASK_def)
qed

lemma hits_of_row:
  assumes "repo_ok L db" "\<And>r. P r \<Longrightarrow> is_row ws i r"
  shows "filter P (db_tasks db) = (case SELECT_TASK ws i db of None \<Rightarrow> [] | Some r \<Rightarrow> if P r then [r] else [])"
proof -
  have d: "distinct (map r_id (db_tasks db))" using assms(1) by (simp add: repo_ok_def)
  have "filter P rows = (case find (is_row ws i) rows of None \<Rightarrow> [] | Some r \<Rightarrow> if P r then [r] else [])"
    if "distinct (map r_id rows)" for rows
    using that
  proof (induction rows)
    case (Cons x rows)
    show ?case
    proof (cases "is_row ws i x")
      case True
      then have "\<forall>y \<in> set rows. \<not> P y" using Cons.prems assms(2) by (force simp: is_row_def image_iff)
      then show ?thesis using True by simp
    qed (use Cons assms(2) in auto)
  qed simp
  then show ?thesis using d by (simp add: SELECT_TASK_def)
qed

lemma get_Inr:
  "get L ws i db = Inr v \<longleftrightarrow> identifier_ok ws \<and>
     (case SELECT_TASK ws i db of None \<Rightarrow> v = None | Some r \<Rightarrow> (\<exists>t. decode_task L r = Inr t \<and> v = Some t))"
  by (auto simp: get_def rbind_Inr validate_identifier_iff split: option.splits)

lemma repo_ok_row: "repo_ok L db \<Longrightarrow> SELECT_TASK ws i db = Some r \<Longrightarrow> row_wf L r"
  using SELECT_TASK_Some [of ws i db r] by (auto simp: repo_ok_def list_all_iff)

lemma repo_ok_record_id:
  assumes "repo_ok L db" "SELECT_TASK ws i db = Some r"
  shows "t_id (record_of L r) = i" "t_workspace_id (record_of L r) = ws"
  using decode_fields(6,11) [OF decode_record_of [OF repo_ok_row [OF assms]]] assms(1) SELECT_TASK_Some [OF assms(2)]
  by (auto simp: repo_ok_def)

lemma row_wf_state: "row_wf L r \<Longrightarrow> \<exists>s. r_state r = as_str s"
  by (auto simp: row_wf_def)

subsection \<open>Every write keeps the invariant\<close>

lemma row_wfE:
  assumes "row_wf L r"
  obtains u st where "uuid_parse L (r_id r) = Some u" "r_state r = as_str st" "0 \<le> r_attempt r"
    "r_attempt r \<le> int u32_max" "0 \<le> r_progress r" "r_cancel_requested r \<in> {0, 1}"
    "task_wf L (task_of_row u st r)"
  using assms unfolding row_wf_def by blast

lemma row_wfI:
  assumes "uuid_parse L (r_id r) = Some u" "r_state r = as_str st" "0 \<le> r_attempt r"
    "r_attempt r \<le> int u32_max" "0 \<le> r_progress r" "r_cancel_requested r \<in> {0, 1}"
    "task_wf L (task_of_row u st r)"
  shows "row_wf L r"
  using assms unfolding row_wf_def by blast

lemma keeps_key_updates [simp]:
  "keeps_key (\<lambda>r. r\<lparr>r_checkpoint_json := cp, r_progress := p, r_next_run_at := n, r_updated_at := ts\<rparr>)"
  "keeps_key (retry_set cp q nx ts)"
  "keeps_key (transition_set tf ts cur tgt ec)"
  "keeps_key (\<lambda>r. r\<lparr>r_cancel_requested := c, r_updated_at := ts\<rparr>)"
  "keeps_key (\<lambda>r. r\<lparr>r_state := s, r_next_run_at := n, r_error_code := e, r_cancel_requested := c, r_updated_at := ts\<rparr>)"
  "keeps_key (claim_set ts)"
  by (simp_all add: keeps_key_def transition_set_def claim_set_def retry_set_def Let_def)

lemma row_wf_checkpoint:
  assumes "row_wf L r" "r_state r \<in> {str ''running'', str ''waiting_external''}"
    "if_some (validate_json L) cp = Inr ()" "if_some (validate_timestamp L) n = Inr ()" "p \<le> 100" "rfc3339_ok L ts"
  shows "row_wf L (r\<lparr>r_checkpoint_json := cp, r_progress := int p, r_next_run_at := n, r_updated_at := ts\<rparr>)"
  using assms(1)
proof (rule row_wfE)
  fix u st
  assume a: "uuid_parse L (r_id r) = Some u" "r_state r = as_str st" "0 \<le> r_attempt r"
    "r_attempt r \<le> int u32_max" "0 \<le> r_progress r" "r_cancel_requested r \<in> {0, 1}"
    "task_wf L (task_of_row u st r)"
  then have "st \<in> {Running, WaitingExternal}" using assms(2) by auto
  then show ?thesis
    using a assms(3-) by (intro row_wfI [of L _ u st]) (auto simp: task_wf_def if_some_Inr)
qed

lemma row_wf_retry:
  assumes "row_wf L r" "r_state r = str ''running''" "if_some (validate_json L) cp = Inr ()"
    "rfc3339_ok L n" "p \<le> 100" "rfc3339_ok L ts"
  shows "row_wf L (retry_set cp p n ts r)"
  using assms(1)
proof (rule row_wfE)
  fix u st
  assume a: "uuid_parse L (r_id r) = Some u" "r_state r = as_str st" "0 \<le> r_attempt r"
    "r_attempt r \<le> int u32_max" "0 \<le> r_progress r" "r_cancel_requested r \<in> {0, 1}"
    "task_wf L (task_of_row u st r)"
  then show ?thesis
    using assms(2-)
    by (intro row_wfI [of L _ u "if r_cancel_requested r = 1 then Cancelled else Queued"])
      (auto simp: task_wf_def if_some_Inr retry_set_def)
qed

lemma row_wf_transition:
  assumes "row_wf L r" "decode_task L r = Inr cur" "error_code_check target ec = Inr ()"
    "rfc3339_ok L tf" "rfc3339_ok L ts"
  shows "row_wf L (transition_set tf ts cur target ec r)"
proof -
  have c: "task_wf L cur" "t_progress cur \<le> 100" using decode_fields [OF assms(2)] task_wf_progress by auto
  from assms(1) show ?thesis
  proof (rule row_wfE)
    fix u st
    assume a: "uuid_parse L (r_id r) = Some u" "r_state r = as_str st" "0 \<le> r_attempt r"
      "r_attempt r \<le> int u32_max" "0 \<le> r_progress r" "r_cancel_requested r \<in> {0, 1}"
      "task_wf L (task_of_row u st r)"
    show ?thesis
      using a(1,3,4,7) c assms(3-)
      by (intro row_wfI [of L _ u target])
        (auto simp: task_wf_def transition_set_def error_code_check_Inr split: if_splits)
  qed
qed

lemma row_wf_cancel:
  assumes "row_wf L r" "rfc3339_ok L ts"
  shows "row_wf L (r\<lparr>r_cancel_requested := 1, r_updated_at := ts\<rparr>)"
  using assms(1)
proof (rule row_wfE)
  fix u st
  assume a: "uuid_parse L (r_id r) = Some u" "r_state r = as_str st" "0 \<le> r_attempt r"
    "r_attempt r \<le> int u32_max" "0 \<le> r_progress r" "r_cancel_requested r \<in> {0, 1}"
    "task_wf L (task_of_row u st r)"
  then show ?thesis using assms(2) by (intro row_wfI [of L _ u st]) (auto simp: task_wf_def)
qed

lemma row_wf_requeue:
  assumes "row_wf L r" "rfc3339_ok L ts"
  shows "row_wf L (r\<lparr>r_state := str ''queued'', r_next_run_at := None, r_error_code := None,
     r_cancel_requested := 0, r_updated_at := ts\<rparr>)"
  using assms(1)
proof (rule row_wfE)
  fix u st
  assume a: "uuid_parse L (r_id r) = Some u" "r_state r = as_str st" "0 \<le> r_attempt r"
    "r_attempt r \<le> int u32_max" "0 \<le> r_progress r" "r_cancel_requested r \<in> {0, 1}"
    "task_wf L (task_of_row u st r)"
  then show ?thesis using assms(2) by (intro row_wfI [of L _ u Queued]) (auto simp: task_wf_def)
qed

lemma row_wf_claim:
  assumes "row_wf L r" "claimable_state r" "rfc3339_ok L now" "r_attempt r < int u32_max"
  shows "row_wf L (claim_set now r)"
  using assms(1)
proof (rule row_wfE)
  fix u st
  assume a: "uuid_parse L (r_id r) = Some u" "r_state r = as_str st" "0 \<le> r_attempt r"
    "r_attempt r \<le> int u32_max" "0 \<le> r_progress r" "r_cancel_requested r \<in> {0, 1}"
    "task_wf L (task_of_row u st r)"
  then have "st \<in> {Queued, WaitingExternal}" using assms(2) by (auto simp: claimable_state_def)
  then show ?thesis using a assms(3,4) by (intro row_wfI [of L _ u Running]) (auto simp: task_wf_def claim_set_def)
qed

lemma commit_or_rollback_snd [simp]:
  "snd (commit_or_rollback old new res) = (if is_ok res then new else old)"
  "fst (commit_or_rollback old new res) = res"
  by (cases res; simp add: commit_or_rollback_def)+

lemma repo_ok_insert:
  "repo_ok L db \<Longrightarrow> row_wf L r \<Longrightarrow> uuid_parse L (r_id r) = Some (r_id r) \<Longrightarrow> sql_insert r db = Some db' \<Longrightarrow>
     repo_ok L db'"
  by (auto simp: sql_insert_def repo_ok_def split: if_splits)

lemma create_repo_ok:
  assumes "repo_ok L db" "rfc3339_ok L ts" "uuid_parse L new_id = Some new_id"
  shows "repo_ok L (snd (create L new_id ts n db))"
proof (cases "NewTask_validate L n")
  case (Inr v)
  have "row_wf L \<lparr>r_id = new_id, r_workspace_id = n_workspace_id n, r_kind = n_kind n,
      r_state = str ''queued'', r_payload_json = n_payload_json n, r_checkpoint_json = n_checkpoint_json n,
      r_attempt = 0, r_next_run_at = n_next_run_at n, r_progress = int (n_progress n), r_error_code = None,
      r_cancel_requested = 0, r_created_at = ts, r_updated_at = ts, r_started_at = None,
      r_finished_at = None, r_owner = None, r_claim_token = None, r_lease_expires_at = None\<rparr>"
    using Inr assms(2,3) unfolding NewTask_validate_iff
    by (intro row_wfI [of L _ new_id Queued]) (auto simp: task_wf_def)
  then show ?thesis
    using Inr assms(1,3) repo_ok_insert by (auto simp: create_def split: option.splits)
qed (use assms in \<open>simp add: create_def\<close>)

lemma checkpoint_repo_ok:
  assumes "repo_ok L db" "rfc3339_ok L ts"
  shows "repo_ok L (snd (checkpoint L ts ws i a cp p n db))"
proof (cases "rbind (validate_identifier ws) (\<lambda>_. rbind (if_some (validate_json L) cp) (\<lambda>_.
           rbind (if_some (validate_timestamp L) n) (\<lambda>_. validate_progress p)))")
  case (Inr v)
  then have v: "if_some (validate_json L) cp = Inr ()" "if_some (validate_timestamp L) n = Inr ()" "p \<le> 100"
    by (auto simp: rbind_Inr)
  have wf: "\<forall>r. r \<in> set (db_tasks db) \<longrightarrow>
      is_row ws i r \<and> r_attempt r = int a \<and> r_state r \<in> {str ''running'', str ''waiting_external''} \<longrightarrow>
      row_wf L r \<longrightarrow>
      row_wf L (r\<lparr>r_checkpoint_json := cp, r_progress := int p, r_next_run_at := n, r_updated_at := ts\<rparr>)"
    using row_wf_checkpoint v assms(2) by blast
  note u = repo_ok_update [OF assms(1) keeps_key_updates(1) wf]
  show ?thesis unfolding checkpoint_def Inr u(1) sum.case option.case prod.case using u(2)
    by (simp split: sum.split option.split)
qed (use assms in \<open>simp add: checkpoint_def\<close>)

lemma schedule_retry_repo_ok:
  assumes "repo_ok L db"
  shows "repo_ok L (snd (schedule_retry L ws i a cp p n now db))"
proof (cases "rbind (validate_identifier ws) (\<lambda>_. rbind (if_some (validate_json L) cp) (\<lambda>_.
           rbind (validate_progress p) (\<lambda>_. rbind (validate_timestamp L n) (\<lambda>_. validate_timestamp L now))))")
  case (Inr v)
  then have v: "if_some (validate_json L) cp = Inr ()" "rfc3339_ok L n" "p \<le> 100" "rfc3339_ok L now"
    by (auto simp: rbind_Inr)
  have wf: "\<forall>r. r \<in> set (db_tasks db) \<longrightarrow>
      is_row ws i r \<and> r_attempt r = int a \<and> r_state r = str ''running'' \<longrightarrow> row_wf L r \<longrightarrow>
      row_wf L (retry_set cp p n now r)"
    using row_wf_retry v by blast
  note u = repo_ok_update [OF assms(1) keeps_key_updates(2) wf]
  show ?thesis unfolding schedule_retry_def Inr u(1) sum.case option.case prod.case using u(2) assms
    by (simp split: sum.split option.split)
qed (use assms in \<open>simp add: schedule_retry_def\<close>)

subsection \<open>Transitions\<close>

abbreviation transition_where :: "rstr \<Rightarrow> rstr \<Rightarrow> nat \<Rightarrow> TaskState \<Rightarrow> task_row \<Rightarrow> bool" where
  "transition_where ws i a st \<equiv> (\<lambda>r. is_row ws i r \<and> r_attempt r = int a \<and> r_state r = as_str st)"

text \<open>The guard of a transition, on the row as it is stored.\<close>

definition transition_allowed ::
  "rstr \<Rightarrow> rstr \<Rightarrow> nat \<Rightarrow> TaskState \<Rightarrow> TaskState \<Rightarrow> rstr option \<Rightarrow> task_db \<Rightarrow> bool" where
  "transition_allowed ws i a st target ec db \<longleftrightarrow>
     identifier_ok ws \<and> error_code_check target ec = Inr () \<and>
     (\<exists>r. SELECT_TASK ws i db = Some r \<and> r_attempt r = int a \<and> r_state r = as_str st) \<and>
     can_transition_to st target \<and> \<not> (st \<in> {Queued, WaitingExternal} \<and> target = Running)"

lemma transition_effect:
  assumes ok: "repo_ok L db" and ts: "rfc3339_ok L tf" "rfc3339_ok L ts"
    and al: "transition_allowed ws i a st target ec db" and r: "SELECT_TASK ws i db = Some r"
  defines "db' \<equiv> db\<lparr>db_tasks := map (\<lambda>x. if transition_where ws i a st x
                      then transition_set tf ts (record_of L r) target ec x else x) (db_tasks db)\<rparr>"
  shows "transition L tf ts ws i a st target ec db
           = (Inr (record_of L (transition_set tf ts (record_of L r) target ec r)), db')"
    and "repo_ok L db'"
proof -
  have w: "row_wf L r" using repo_ok_row [OF ok r] .
  note d = decode_record_of [OF w]
  have rr: "r_attempt r = int a" "r_state r = as_str st" using al r by (auto simp: transition_allowed_def)
  have f: "t_attempt (record_of L r) = a" "t_state (record_of L r) = st"
    using decode_fields [OF d] rr by auto
  have wf: "\<forall>x. x \<in> set (db_tasks db) \<longrightarrow> transition_where ws i a st x \<longrightarrow> row_wf L x \<longrightarrow>
      row_wf L (transition_set tf ts (record_of L r) target ec x)"
  proof (intro allI impI)
    fix x assume x: "x \<in> set (db_tasks db)" "transition_where ws i a st x" "row_wf L x"
    then have "x = r" using SELECT_TASK_unique [OF ok x(1)] r by (simp add: is_row_def)
    then show "row_wf L (transition_set tf ts (record_of L r) target ec x)"
      using row_wf_transition [OF w d] al ts by (simp add: transition_allowed_def)
  qed
  note u = repo_ok_update [OF ok keeps_key_updates(3) wf]
  show "repo_ok L db'" unfolding db'_def by (rule u(2))
  have s: "SELECT_TASK ws i db' = Some (transition_set tf ts (record_of L r) target ec r)"
    unfolding db'_def SELECT_TASK_update [OF keeps_key_updates(3)]
    using r rr SELECT_TASK_Some [OF r] by (simp add: is_row_def)
  have w': "row_wf L (transition_set tf ts (record_of L r) target ec r)"
    using row_wf_transition [OF w d] al ts by (simp add: transition_allowed_def)
  have sd: "select_decode L ws i db' = Inr (record_of L (transition_set tf ts (record_of L r) target ec r))"
    unfolding select_decode_def s by (simp add: decode_record_of [OF w'])
  have v: "validate_identifier ws = Inr ()" "error_code_check target ec = Inr ()"
    "can_transition_to st target" "\<not> (st \<in> {Queued, WaitingExternal} \<and> target = Running)"
    using al by (simp_all add: transition_allowed_def validate_identifier_iff)
  have "transition L tf ts ws i a st target ec db = commit_or_rollback db db' (select_decode L ws i db')"
    unfolding transition_def v(1,2) r db'_def rbind.simps ok_or_simps d sum.case f
      Eq_FalseI [OF v(4)] if_False u(1) using v(3) by simp
  then show "transition L tf ts ws i a st target ec db
           = (Inr (record_of L (transition_set tf ts (record_of L r) target ec r)), db')"
    by (simp add: sd commit_or_rollback_def)
qed

lemma transition_refused:
  assumes ok: "repo_ok L db" and n: "\<not> transition_allowed ws i a st target ec db"
  shows "\<exists>e. transition L tf ts ws i a st target ec db = (Inl e, db)"
proof (cases "rbind (validate_identifier ws) (\<lambda>_. rbind (error_code_check target ec) (\<lambda>_.
           rbind (ok_or (TaskError ''task_not_found'') (SELECT_TASK ws i db)) (decode_task L)))")
  case (Inr cur)
  then obtain r where r: "SELECT_TASK ws i db = Some r" "decode_task L r = Inr cur"
    and o: "identifier_ok ws" "error_code_check target ec = Inr ()"
    by (auto simp: rbind_Inr ok_or_Inr validate_identifier_iff)
  note f = decode_fields [OF r(2)]
  show ?thesis
    using n r o f Inr by (auto simp: transition_def transition_allowed_def)
qed (simp add: transition_def)

lemma transition_repo_ok:
  assumes "repo_ok L db" "rfc3339_ok L tf" "rfc3339_ok L ts"
  shows "repo_ok L (snd (transition L tf ts ws i a st target ec db))"
proof (cases "transition_allowed ws i a st target ec db")
  case True
  then obtain r where "SELECT_TASK ws i db = Some r" by (auto simp: transition_allowed_def)
  then show ?thesis using transition_effect [OF assms True] by simp
next
  case False
  then show ?thesis using transition_refused [OF assms(1) False] assms(1) by (metis snd_conv)
qed

lemma transition_frame:
  assumes "repo_ok L db" "rfc3339_ok L tf" "rfc3339_ok L ts" "(ws', i') \<noteq> (ws, i)"
  shows "SELECT_TASK ws' i' (snd (transition L tf ts ws i a st target ec db)) = SELECT_TASK ws' i' db"
proof (cases "transition_allowed ws i a st target ec db")
  case True
  then obtain r where "SELECT_TASK ws i db = Some r" by (auto simp: transition_allowed_def)
  note e = transition_effect(1) [OF assms(1-3) True this]
  show ?thesis unfolding e snd_conv SELECT_TASK_update [OF keeps_key_updates(3)]
    using assms(4) by (cases "SELECT_TASK ws' i' db") (auto dest!: SELECT_TASK_Some simp: is_row_def)
next
  case False
  then show ?thesis using transition_refused [OF assms(1) False] by (metis snd_conv)
qed

lemma record_of_transition:
  assumes "row_wf L r" "error_code_check target ec = Inr ()" "rfc3339_ok L tf" "rfc3339_ok L ts"
  defines "t \<equiv> record_of L (transition_set tf ts (record_of L r) target ec r)"
  shows "t_state t = target" "t_attempt t = t_attempt (record_of L r)"
    "t_error_code t = (if target = Failed then ec else None)"
    "t_cancel_requested t = (target \<noteq> Queued \<and> t_cancel_requested (record_of L r))"
proof -
  note d = decode_record_of [OF assms(1)]
  note w = row_wf_transition [OF assms(1) d assms(2-4)]
  note e = decode_fields [OF decode_record_of [OF w], folded t_def]
  note o = decode_fields [OF d]
  show "t_state t = target" using e(2) by (simp add: transition_set_def Let_def split: if_splits prod.splits)
  show "t_attempt t = t_attempt (record_of L r)"
    using e(3) o(3) by (simp add: transition_set_def Let_def split: if_splits prod.splits)
  show "t_error_code t = (if target = Failed then ec else None)"
    using e(9) by (auto simp: transition_set_def Let_def split: if_splits prod.splits)
  show "t_cancel_requested t = (target \<noteq> Queued \<and> t_cancel_requested (record_of L r))"
    using e(5) by (auto simp: transition_set_def Let_def split: if_splits prod.splits)
qed

subsection \<open>Scheduled retries\<close>

lemma schedule_retry_effect:
  assumes ok: "repo_ok L db" and v: "identifier_ok ws" "if_some (validate_json L) cp = Inr ()" "p \<le> 100"
      "rfc3339_ok L n" "rfc3339_ok L now"
    and r: "SELECT_TASK ws i db = Some r" "r_attempt r = int a" "r_state r = str ''running''"
  defines "db' \<equiv> db\<lparr>db_tasks := map (\<lambda>x. if is_row ws i x \<and> r_attempt x = int a \<and> r_state x = str ''running''
                      then retry_set cp p n now x else x) (db_tasks db)\<rparr>"
  shows "schedule_retry L ws i a cp p n now db = (Inr (record_of L (retry_set cp p n now r)), db')"
    and "repo_ok L db'" "SELECT_TASK ws i db' = Some (retry_set cp p n now r)" "row_wf L (retry_set cp p n now r)"
proof -
  have w: "row_wf L r" using repo_ok_row [OF ok r(1)] .
  have wf: "\<forall>x. x \<in> set (db_tasks db) \<longrightarrow> is_row ws i x \<and> r_attempt x = int a \<and> r_state x = str ''running'' \<longrightarrow>
      row_wf L x \<longrightarrow> row_wf L (retry_set cp p n now x)"
    using row_wf_retry v by blast
  note u = repo_ok_update [OF ok keeps_key_updates(2) wf]
  show "repo_ok L db'" unfolding db'_def by (rule u(2))
  show s: "SELECT_TASK ws i db' = Some (retry_set cp p n now r)"
    unfolding db'_def SELECT_TASK_update [OF keeps_key_updates(2)] using r SELECT_TASK_Some [OF r(1)]
    by (simp add: is_row_def)
  show w': "row_wf L (retry_set cp p n now r)" using row_wf_retry [OF w r(3) v(2,4,3,5)] .
  have hit: "filter (\<lambda>x. is_row ws i x \<and> r_attempt x = int a \<and> r_state x = str ''running'') (db_tasks db) = [r]"
    using hits_of_row [OF ok, of "\<lambda>x. is_row ws i x \<and> r_attempt x = int a \<and> r_state x = str ''running''" ws i]
      r SELECT_TASK_Some [OF r(1)] by (simp add: is_row_def)
  have vv: "rbind (validate_identifier ws) (\<lambda>_. rbind (if_some (validate_json L) cp) (\<lambda>_.
           rbind (validate_progress p) (\<lambda>_. rbind (validate_timestamp L n) (\<lambda>_. validate_timestamp L now)))) = Inr ()"
    using v by (simp add: rbind_Inr validate_identifier_iff)
  have sd: "select_decode L ws i db' = Inr (record_of L (retry_set cp p n now r))"
    unfolding select_decode_def s by (simp add: decode_record_of [OF w'])
  show "schedule_retry L ws i a cp p n now db = (Inr (record_of L (retry_set cp p n now r)), db')"
    unfolding schedule_retry_def vv u(1) hit sum.case option.case prod.case db'_def [symmetric] sd
    by (simp add: commit_or_rollback_def)
qed

subsection \<open>Cancellation and manual retry\<close>

lemma request_cancellation_repo_ok:
  assumes "repo_ok L db" "rfc3339_ok L ts"
  shows "repo_ok L (snd (request_cancellation L ts ws i db))"
proof -
  have wf: "\<forall>r. r \<in> set (db_tasks db) \<longrightarrow> is_row ws i r \<longrightarrow> row_wf L r \<longrightarrow>
      row_wf L (r\<lparr>r_cancel_requested := 1, r_updated_at := ts\<rparr>)" using row_wf_cancel assms(2) by blast
  note u = repo_ok_update [OF assms(1) keeps_key_updates(4) wf]
  show ?thesis using u(2) assms(1)
    by (simp add: request_cancellation_def u(1) split: sum.splits)
qed

lemma request_running_cancellation_repo_ok:
  assumes "repo_ok L db" "rfc3339_ok L ts"
  shows "repo_ok L (snd (request_running_cancellation L ts ws i a db))"
proof -
  have wf: "\<forall>r. r \<in> set (db_tasks db) \<longrightarrow>
      is_row ws i r \<and> r_attempt r = int a \<and> r_state r = str ''running'' \<longrightarrow> row_wf L r \<longrightarrow>
      row_wf L (r\<lparr>r_cancel_requested := 1, r_updated_at := ts\<rparr>)" using row_wf_cancel assms(2) by blast
  note u = repo_ok_update [OF assms(1) keeps_key_updates(4) wf]
  show ?thesis using u(2) assms(1)
    by (simp add: request_running_cancellation_def u(1) split: sum.splits option.splits)
qed

lemma retry_manually_repo_ok:
  assumes "repo_ok L db" "rfc3339_ok L ts"
  shows "repo_ok L (snd (retry_manually L ts ws i a st db))"
proof -
  have wf: "\<forall>r. r \<in> set (db_tasks db) \<longrightarrow> transition_where ws i a st r \<longrightarrow> row_wf L r \<longrightarrow>
      row_wf L (r\<lparr>r_state := str ''queued'', r_next_run_at := None, r_error_code := None,
        r_cancel_requested := 0, r_updated_at := ts\<rparr>)" using row_wf_requeue assms(2) by blast
  note u = repo_ok_update [OF assms(1) keeps_key_updates(5) wf]
  show ?thesis
  proof (cases "validate_identifier ws")
    case (Inr x)
    show ?thesis
      unfolding retry_manually_def Inr sum.case u(1) option.case prod.case using u(2) assms(1)
      by (cases "st \<notin> {Failed, Cancelled, Interrupted, Paused}") (simp_all only: if_True if_False, simp_all)
  qed (simp add: retry_manually_def assms)
qed

subsection \<open>Claims\<close>

lemma claim_candidates_set:
  "r \<in> set (claim_candidates L ws now db) \<longleftrightarrow>
     r \<in> set (db_tasks db) \<and> r_workspace_id r = ws \<and> claimable_state r \<and> due L now r"
  by (simp add: claim_candidates_def)

lemma claim_candidates_min:
  assumes "claim_candidates L ws now db = c # cs" "r \<in> set (db_tasks db)" "r_workspace_id r = ws"
    "claimable_state r" "due L now r"
  shows "claim_key L c \<le> claim_key L r"
  by (rule sort_by_hd_min [OF total_preorder_key _ assms(1) [unfolded claim_candidates_def]])
    (use assms(2-) in simp)

lemma claim_schedules_ok:
  assumes "repo_ok L db"
  shows "list_all (\<lambda>r. case r_next_run_at r of None \<Rightarrow> True | Some v \<Rightarrow> rfc3339_ok L v) (filter P (db_tasks db))"
proof -
  have "case r_next_run_at r of None \<Rightarrow> True | Some v \<Rightarrow> rfc3339_ok L v" if "row_wf L r" for r
    using that by (rule row_wfE) (auto simp: task_wf_def split: option.splits)
  then show ?thesis using assms by (auto simp: repo_ok_def list_all_iff)
qed

abbreviation claim_db :: "rstr \<Rightarrow> rstr \<Rightarrow> task_row \<Rightarrow> task_db \<Rightarrow> task_db" where
  "claim_db ws now c db \<equiv> db\<lparr>db_tasks := map (\<lambda>r. if is_row ws (r_id c) r \<and> claimable_state r
     then claim_set now r else r) (db_tasks db)\<rparr>"

lemma claim_next_effect:
  assumes ok: "repo_ok L db" and v: "identifier_ok ws" "rfc3339_ok L now"
    and c: "claim_candidates L ws now db = c # cs" and a: "r_attempt c < int u32_max"
  shows "claim_next L ws now db = (Inr (Some (record_of L (claim_set now c))), claim_db ws now c db)"
    and "repo_ok L (claim_db ws now c db)"
    and "SELECT_TASK ws (r_id c) db = Some c" "row_wf L c"
proof -
  have cc: "c \<in> set (db_tasks db)" "r_workspace_id c = ws" "claimable_state c"
    using c claim_candidates_set [of c L ws now db] by auto
  show s: "SELECT_TASK ws (r_id c) db = Some c" using SELECT_TASK_unique [OF ok cc(1)] cc(2) by simp
  show wc: "row_wf L c" using repo_ok_row [OF ok s] .
  have uniq: "r = c" if "r \<in> set (db_tasks db)" "is_row ws (r_id c) r" for r
    using SELECT_TASK_unique [OF ok that(1)] that(2) s by (simp add: is_row_def)
  have wf: "\<forall>r. r \<in> set (db_tasks db) \<longrightarrow> is_row ws (r_id c) r \<and> claimable_state r \<longrightarrow> row_wf L r \<longrightarrow>
      row_wf L (claim_set now r)" using uniq row_wf_claim [OF wc cc(3) v(2) a] by blast
  note u = repo_ok_update [OF ok keeps_key_updates(6) wf]
  show "repo_ok L (claim_db ws now c db)" by (rule u(2))
  have n: "length (filter (\<lambda>r. is_row ws (r_id c) r \<and> claimable_state r) (db_tasks db)) = 1"
    using hits_of_row [OF ok, of "\<lambda>r. is_row ws (r_id c) r \<and> claimable_state r" ws "r_id c"] s cc
    by (simp add: is_row_def)
  have s': "SELECT_TASK ws (r_id c) (claim_db ws now c db) = Some (claim_set now c)"
    unfolding SELECT_TASK_update [OF keeps_key_updates(6)] using s cc by (simp add: is_row_def)
  have sd: "select_decode L ws (r_id c) (claim_db ws now c db) = Inr (record_of L (claim_set now c))"
    unfolding select_decode_def s' using decode_record_of [OF row_wf_claim [OF wc cc(3) v(2) a]] by simp
  have up: "sql_update (\<lambda>r. is_row ws (r_id c) r \<and> claimable_state r) (claim_set now) db = Some (1, claim_db ws now c db)"
    using u(1) n by simp
  have vi: "validate_identifier ws = Inr ()" using v(1) by (simp add: validate_identifier_iff)
  show "claim_next L ws now db = (Inr (Some (record_of L (claim_set now c))), claim_db ws now c db)"
    unfolding claim_next_def c using v vi claim_schedules_ok [OF ok] up sd
    by (simp add: commit_or_rollback_def validate_timestamp_def)
qed

lemma claim_next_exhausted:
  assumes ok: "repo_ok L db" and v: "identifier_ok ws" "rfc3339_ok L now"
    and c: "claim_candidates L ws now db = c # cs" and a: "\<not> r_attempt c < int u32_max"
  shows "claim_next L ws now db = (Inl storage_error, db)"
proof -
  have cc: "c \<in> set (db_tasks db)" "r_workspace_id c = ws" "claimable_state c"
    using c claim_candidates_set [of c L ws now db] by auto
  have s: "SELECT_TASK ws (r_id c) db = Some c" using SELECT_TASK_unique [OF ok cc(1)] cc(2) by simp
  have d: "\<not> row_wf L (claim_set now c)" using a by (auto simp: row_wf_def claim_set_def)
  have "select_decode L ws (r_id c) db' = Inl storage_error"
    if up: "sql_update (\<lambda>r. is_row ws (r_id c) r \<and> claimable_state r) (claim_set now) db = Some (n, db')" for n db'
  proof -
    have "SELECT_TASK ws (r_id c) db' = Some (claim_set now c)"
      using sql_update_SomeD [OF up] SELECT_TASK_update [OF keeps_key_updates(6)] s cc by (simp add: is_row_def)
    moreover obtain e where "decode_task L (claim_set now c) = Inl e"
      using d decode_task_ok_iff [of L "claim_set now c"] by (cases "decode_task L (claim_set now c)") auto
    ultimately show ?thesis using decode_Inl by (fastforce simp: select_decode_def)
  qed
  moreover have "validate_identifier ws = Inr ()" using v(1) by (simp add: validate_identifier_iff)
  ultimately show ?thesis
    unfolding claim_next_def c using v claim_schedules_ok [OF ok]
    by (auto simp: commit_or_rollback_def validate_timestamp_def split: option.splits)
qed

lemma claim_next_none:
  assumes "repo_ok L db" "identifier_ok ws" "rfc3339_ok L now" "claim_candidates L ws now db = []"
  shows "claim_next L ws now db = (Inr None, db)"
proof -
  have "validate_identifier ws = Inr ()" using assms(2) by (simp add: validate_identifier_iff)
  then show ?thesis unfolding claim_next_def using assms claim_schedules_ok [OF assms(1)]
    by (simp add: validate_timestamp_def)
qed

lemma claim_next_cases:
  assumes "repo_ok L db"
  shows "(\<exists>x. claim_next L ws now db = (x, db) \<and> (\<forall>t. x \<noteq> Inr (Some t))) \<or>
    (\<exists>c cs. claim_candidates L ws now db = c # cs \<and> r_attempt c < int u32_max \<and> identifier_ok ws \<and> rfc3339_ok L now)"
proof (cases "identifier_ok ws \<and> rfc3339_ok L now")
  case True
  show ?thesis
  proof (cases "claim_candidates L ws now db")
    case Nil
    then show ?thesis using claim_next_none [OF assms, of ws now] True by simp
  next
    case (Cons c cs)
    then show ?thesis using claim_next_exhausted [OF assms, of ws now c cs] True by fastforce
  qed
next
  case False
  then obtain e where "rbind (validate_identifier ws) (\<lambda>_. validate_timestamp L now) = Inl e"
    by (cases "rbind (validate_identifier ws) (\<lambda>_. validate_timestamp L now)")
      (auto simp: rbind_Inr validate_identifier_iff)
  then show ?thesis by (simp add: claim_next_def)
qed

lemma claim_next_repo_ok:
  assumes "repo_ok L db"
  shows "repo_ok L (snd (claim_next L ws now db))"
  using claim_next_cases [OF assms, of ws now] claim_next_effect(1,2) [OF assms, of ws now] assms by force

end
