(* ===== verification/Work_Stealing.thy ===== *)
theory Work_Stealing
  imports Task_Repository
begin

text \<open>
  \<open>src-tauri/src/tasks/work_stealing.rs\<close>: claims of queued tasks under an owner, a token and a lease, on
  the same table as the repository.  Instants are integers; \<open>fmt\<close> is \<open>DateTime<Utc>::to_rfc3339\<close>, and the
  SQL compares the formatted texts.
\<close>

record task_claim =
  cl_task :: task_record
  cl_owner :: rstr
  cl_claim_token :: rstr
  cl_lease_expires_at :: int

definition ws_expired :: "rstr \<Rightarrow> rstr \<Rightarrow> task_row \<Rightarrow> bool" where
  "ws_expired ws now r \<longleftrightarrow> r_workspace_id r = ws \<and> r_state r = str ''running''
     \<and> (case r_lease_expires_at r of None \<Rightarrow> False | Some l \<Rightarrow> l \<le> now)"

definition ws_release :: "task_row \<Rightarrow> task_row" where
  "ws_release r = r\<lparr>r_state := str ''queued'', r_owner := None, r_claim_token := None, r_lease_expires_at := None\<rparr>"

definition ws_free :: "rstr \<Rightarrow> task_row \<Rightarrow> bool" where
  "ws_free ws r \<longleftrightarrow> r_workspace_id r = ws \<and> r_state r = str ''queued'' \<and> r_owner r = None"

definition ws_candidates :: "rstr \<Rightarrow> task_db \<Rightarrow> task_row list" where
  "ws_candidates ws db =
     sort_by (\<lambda>x y. (r_created_at x, r_id x) \<le> (r_created_at y, r_id y)) (filter (ws_free ws) (db_tasks db))"

definition insert_token :: "rstr \<Rightarrow> rstr \<Rightarrow> rstr \<Rightarrow> task_db \<Rightarrow> task_db option" where
  "insert_token tok i ts db =
     (if tok \<in> fst ` set (db_claim_tokens db) then None
      else Some (db\<lparr>db_claim_tokens := db_claim_tokens db @ [(tok, i, ts)]\<rparr>))"

definition ws_take :: "rstr \<Rightarrow> rstr \<Rightarrow> rstr \<Rightarrow> rstr \<Rightarrow> task_row \<Rightarrow> task_row" where
  "ws_take owner tok expires now r =
     r\<lparr>r_state := str ''running'', r_owner := Some owner, r_claim_token := Some tok,
       r_lease_expires_at := Some expires, r_attempt := r_attempt r + 1,
       r_started_at := Some now, r_updated_at := now\<rparr>"

definition ws_claim_next ::
  "lib \<Rightarrow> (int \<Rightarrow> rstr) \<Rightarrow> rstr \<Rightarrow> rstr \<Rightarrow> rstr \<Rightarrow> int \<Rightarrow> int \<Rightarrow> task_claim option task_io" where
  "ws_claim_next L fmt token ws owner now lease db =
     (if trim owner = [] \<or> lease \<le> 0 then (Inl (TaskError ''invalid_task_claim''), db)
      else
        (case sql_update (ws_expired ws (fmt now)) ws_release db of
           None \<Rightarrow> (Inl storage_error, db)
         | Some (_, db1) \<Rightarrow>
             (case ws_candidates ws db1 of
                [] \<Rightarrow> (Inr None, db1)
              | c # _ \<Rightarrow>
                  (case insert_token token (r_id c) (fmt now) db1 of
                     None \<Rightarrow> (Inl storage_error, db)
                   | Some db2 \<Rightarrow>
                       (case sql_update (\<lambda>r. ws_free ws r \<and> r_id r = r_id c)
                               (ws_take owner token (fmt (now + lease)) (fmt now)) db2 of
                          None \<Rightarrow> (Inl storage_error, db)
                        | Some (changed, db3) \<Rightarrow>
                            if changed \<noteq> 1 then (Inl (TaskError ''task_claim_conflict''), db)
                            else
                              (case uuid_parse L (r_id c) of
                                 None \<Rightarrow> (Inl storage_error, db)
                               | Some u \<Rightarrow>
                                   commit_or_rollback db db3
                                     (rbind (rbind (get L ws u db3) (ok_or storage_error)) (\<lambda>t.
                                      Inr (Some \<lparr>cl_task = t, cl_owner = owner, cl_claim_token = token,
                                                 cl_lease_expires_at = now + lease\<rparr>)))))))))"

definition ws_finish :: "rstr \<Rightarrow> task_row \<Rightarrow> task_row" where
  "ws_finish now r =
     r\<lparr>r_state := str ''completed'', r_progress := 100, r_owner := None, r_claim_token := None,
       r_lease_expires_at := None, r_finished_at := Some now, r_updated_at := now\<rparr>"

definition ws_holds :: "rstr \<Rightarrow> rstr \<Rightarrow> rstr \<Rightarrow> rstr \<Rightarrow> rstr \<Rightarrow> task_row \<Rightarrow> bool" where
  "ws_holds ws i owner token now r \<longleftrightarrow> is_row ws i r \<and> r_state r = str ''running''
     \<and> r_owner r = Some owner \<and> r_claim_token r = Some token
     \<and> (case r_lease_expires_at r of None \<Rightarrow> False | Some l \<Rightarrow> now < l)"

definition ws_complete ::
  "lib \<Rightarrow> (int \<Rightarrow> rstr) \<Rightarrow> rstr \<Rightarrow> rstr \<Rightarrow> rstr \<Rightarrow> rstr \<Rightarrow> int \<Rightarrow> task_record task_io" where
  "ws_complete L fmt ws i owner token now db =
     (case sql_update (ws_holds ws i owner token (fmt now)) (ws_finish (fmt now)) db of
        None \<Rightarrow> (Inl storage_error, db)
      | Some (changed, db') \<Rightarrow>
          if changed \<noteq> 1 then (Inl (TaskError ''task_claim_mismatch''), db')
          else (rbind (get L ws i db') (ok_or storage_error), db'))"

section \<open>Preservation of the table invariant\<close>

lemma sql_update_repo_ok:
  assumes ok: "repo_ok L db" and up: "sql_update P f db = Some (n, db')"
    and k: "\<forall>r. r_id (f r) = r_id r"
    and wf: "\<forall>r. r \<in> set (db_tasks db) \<longrightarrow> P r \<longrightarrow> row_wf L r \<longrightarrow> row_checks (f r) \<longrightarrow> row_wf L (f r)"
  shows "repo_ok L db'"
proof -
  have t: "tokens_unique (map (\<lambda>r. if P r then f r else r) (db_tasks db))"
    and c: "list_all row_checks (map f (filter P (db_tasks db)))"
    and d: "db' = db\<lparr>db_tasks := map (\<lambda>r. if P r then f r else r) (db_tasks db)\<rparr>"
    using up by (auto simp: sql_update_def Let_def split: if_splits)
  have i: "map r_id (map (\<lambda>r. if P r then f r else r) (db_tasks db)) = map r_id (db_tasks db)"
    by (rule map_id_map_if) (use k in simp)
  show ?thesis using ok t c d wf i by (simp add: repo_ok_def list_all_iff del: map_map set_map) auto
qed

lemma row_wf_release: "row_wf L r \<Longrightarrow> r_state r = str ''running'' \<Longrightarrow> row_wf L (ws_release r)"
proof (erule row_wfE)
  fix u st
  assume a: "r_state r = str ''running''" "uuid_parse L (r_id r) = Some u" "r_state r = as_str st"
    "0 \<le> r_attempt r" "r_attempt r \<le> int u32_max" "0 \<le> r_progress r" "r_cancel_requested r \<in> {0, 1}"
    "task_wf L (task_of_row u st r)"
  then show ?thesis by (intro row_wfI [of L _ u Queued]) (auto simp: task_wf_def ws_release_def)
qed

lemma row_wf_take:
  assumes "row_wf L r" "r_state r = str ''queued''" "rfc3339_ok L now" "r_attempt r < int u32_max"
  shows "row_wf L (ws_take owner tok ex now r)"
  using assms(1)
proof (rule row_wfE)
  fix u st
  assume "uuid_parse L (r_id r) = Some u" "r_state r = as_str st"
    "0 \<le> r_attempt r" "r_attempt r \<le> int u32_max" "0 \<le> r_progress r" "r_cancel_requested r \<in> {0, 1}"
    "task_wf L (task_of_row u st r)"
  then show ?thesis using assms(2-) by (intro row_wfI [of L _ u Running]) (auto simp: task_wf_def ws_take_def)
qed

lemma row_wf_finish:
  assumes "row_wf L r" "r_state r = str ''running''" "rfc3339_ok L now" "r_next_run_at r = None"
  shows "row_wf L (ws_finish now r)"
  using assms(1)
proof (rule row_wfE)
  fix u st
  assume "uuid_parse L (r_id r) = Some u" "r_state r = as_str st"
    "0 \<le> r_attempt r" "r_attempt r \<le> int u32_max" "0 \<le> r_progress r" "r_cancel_requested r \<in> {0, 1}"
    "task_wf L (task_of_row u st r)"
  then show ?thesis using assms(2-) by (intro row_wfI [of L _ u Completed]) (auto simp: task_wf_def ws_finish_def)
qed

lemma checks_finish: "row_checks (ws_finish now r) \<Longrightarrow> r_next_run_at r = None"
  by (simp add: row_checks_def ws_finish_def)

lemma ws_expire_ok:
  assumes "repo_ok L db" "sql_update (ws_expired ws now) ws_release db = Some (n, db1)"
  shows "repo_ok L db1"
  by (rule sql_update_repo_ok [OF assms])
    (auto simp: ws_release_def ws_expired_def intro: row_wf_release [unfolded ws_release_def])

lemma repo_ok_tokens [simp]: "repo_ok L (db\<lparr>db_claim_tokens := ts\<rparr>) = repo_ok L db"
  by (simp add: repo_ok_def)

lemma ws_complete_repo_ok:
  assumes "repo_ok L db" "rfc3339_ok L (fmt now)"
  shows "repo_ok L (snd (ws_complete L fmt ws i owner token now db))"
proof (cases "sql_update (ws_holds ws i owner token (fmt now)) (ws_finish (fmt now)) db")
  case (Some x)
  obtain n db' where x: "x = (n, db')" by (cases x)
  have "repo_ok L db'"
    by (rule sql_update_repo_ok [OF assms(1) Some [unfolded x]])
      (use assms(2) in \<open>auto simp: ws_holds_def ws_finish_def
         intro: row_wf_finish [unfolded ws_finish_def] dest: checks_finish [unfolded ws_finish_def]\<close>)
  then show ?thesis using Some x by (simp add: ws_complete_def)
qed (simp add: ws_complete_def assms)

lemma SELECT_TASK_update_id:
  "(\<forall>r. r_id (f r) = r_id r \<and> r_workspace_id (f r) = r_workspace_id r) \<Longrightarrow>
     SELECT_TASK ws i (db\<lparr>db_tasks := map (\<lambda>r. if P r then f r else r) (db_tasks db)\<rparr>)
       = map_option (\<lambda>r. if P r then f r else r) (SELECT_TASK ws i db)"
  using find_map_if_key [of "is_row ws i" f P "db_tasks db"] by (simp add: SELECT_TASK_def is_row_def)

lemma ws_take_keys [simp]: "r_id (ws_take o' t e n r) = r_id r" "r_workspace_id (ws_take o' t e n r) = r_workspace_id r"
  "r_attempt (ws_take o' t e n r) = r_attempt r + 1"
  by (simp_all add: ws_take_def)

lemma ws_release_keys [simp]: "r_id (ws_release r) = r_id r" "r_workspace_id (ws_release r) = r_workspace_id r"
  "r_attempt (ws_release r) = r_attempt r" "r_created_at (ws_release r) = r_created_at r"
  by (simp_all add: ws_release_def)

lemma ws_finish_keys [simp]: "r_id (ws_finish n r) = r_id r" "r_workspace_id (ws_finish n r) = r_workspace_id r"
  "r_attempt (ws_finish n r) = r_attempt r"
  by (simp_all add: ws_finish_def)

lemma ws_take_ok:
  assumes ok: "repo_ok L db2" and c: "c \<in> set (db_tasks db2)" "ws_free ws c"
    and up: "sql_update (\<lambda>r. ws_free ws r \<and> r_id r = r_id c) (ws_take owner tok ex now) db2 = Some (n, db3)"
    and g: "get L ws (r_id c) db3 = Inr (Some t)" and now: "rfc3339_ok L now"
  shows "repo_ok L db3" "SELECT_TASK ws (r_id c) db3 = Some (ws_take owner tok ex now c)"
proof -
  have s: "SELECT_TASK ws (r_id c) db2 = Some c"
    using SELECT_TASK_unique [OF ok c(1)] c(2) by (simp add: ws_free_def)
  show s3: "SELECT_TASK ws (r_id c) db3 = Some (ws_take owner tok ex now c)"
    using sql_update_SomeD [OF up] SELECT_TASK_update_id [of "ws_take owner tok ex now"] s c(2) by simp
  have "row_wf L (ws_take owner tok ex now c)"
    using g s3 decode_task_ok_iff by (fastforce simp: get_Inr)
  then have a: "r_attempt c < int u32_max" by (auto simp: row_wf_def)
  have uniq: "r = c" if "r \<in> set (db_tasks db2)" "ws_free ws r" "r_id r = r_id c" for r
    using SELECT_TASK_unique [OF ok that(1)] that(2,3) s by (simp add: ws_free_def)
  show "repo_ok L db3"
    by (rule sql_update_repo_ok [OF ok up])
      (use uniq a now c(2) in \<open>auto simp: ws_free_def dest!: uniq intro!: row_wf_take\<close>)
qed

lemma ws_claim_cases:
  assumes ok: "repo_ok L db" and now: "rfc3339_ok L (fmt now)"
    and res: "ws_claim_next L fmt token ws owner now lease db = (res, db')"
  obtains (same) e where "res = Inl e" "db' = db"
    | (none) n where "res = Inr None" "sql_update (ws_expired ws (fmt now)) ws_release db = Some (n, db')"
        "repo_ok L db'" "ws_candidates ws db' = []"
    | (claimed) n db1 c cs t m where "sql_update (ws_expired ws (fmt now)) ws_release db = Some (n, db1)"
        "repo_ok L db1" "ws_candidates ws db1 = c # cs" "token \<notin> fst ` set (db_claim_tokens db)"
        "sql_update (\<lambda>r. ws_free ws r \<and> r_id r = r_id c) (ws_take owner token (fmt (now + lease)) (fmt now))
           (db1\<lparr>db_claim_tokens := db_claim_tokens db @ [(token, r_id c, fmt now)]\<rparr>) = Some (m, db')"
        "repo_ok L db'" "SELECT_TASK ws (r_id c) db1 = Some c" "ws_free ws c"
        "SELECT_TASK ws (r_id c) db' = Some (ws_take owner token (fmt (now + lease)) (fmt now) c)"
        "decode_task L (ws_take owner token (fmt (now + lease)) (fmt now) c) = Inr t"
        "res = Inr (Some \<lparr>cl_task = t, cl_owner = owner, cl_claim_token = token, cl_lease_expires_at = now + lease\<rparr>)"
        "trim owner \<noteq> []" "0 < lease"
proof (cases res)
  case (Inl e)
  have "db' = db" if "res = Inl e"
    using res that unfolding ws_claim_next_def
    by (auto simp: commit_or_rollback_def split: if_splits option.splits list.splits sum.splits)
  then show thesis using Inl that(1) by blast
next
  case (Inr v)
  then have g: "\<not> (trim owner = [] \<or> lease \<le> 0)" using res by (auto simp: ws_claim_next_def split: if_splits)
  obtain n db1 where u1: "sql_update (ws_expired ws (fmt now)) ws_release db = Some (n, db1)"
    using res g Inr by (auto simp: ws_claim_next_def split: option.splits)
  have ok1: "repo_ok L db1" by (rule ws_expire_ok [OF ok u1])
  show thesis
  proof (cases "ws_candidates ws db1")
    case Nil
    then show thesis using res g Inr u1 ok1 that(2) by (auto simp: ws_claim_next_def)
  next
    case (Cons c cs)
    have "c \<in> set (ws_candidates ws db1)" using Cons by simp
    then have c: "c \<in> set (db_tasks db1)" "ws_free ws c" by (simp_all add: ws_candidates_def)
    have tk: "db_claim_tokens db1 = db_claim_tokens db" using sql_update_SomeD [OF u1] by simp
    have i: "uuid_parse L (r_id c) = Some (r_id c)" using ok1 c(1) by (simp add: repo_ok_def)
    define db2 where "db2 = db1\<lparr>db_claim_tokens := db_claim_tokens db @ [(token, r_id c, fmt now)]\<rparr>"
    have nt: "token \<notin> fst ` set (db_claim_tokens db)"
      using res g Inr u1 Cons tk by (auto simp: ws_claim_next_def insert_token_def split: if_splits)
    then have it: "insert_token token (r_id c) (fmt now) db1 = Some db2"
      using tk by (simp add: insert_token_def db2_def)
    obtain m db3 where u3: "sql_update (\<lambda>r. ws_free ws r \<and> r_id r = r_id c)
        (ws_take owner token (fmt (now + lease)) (fmt now)) db2 = Some (m, db3)"
      using res g Inr u1 Cons it by (auto simp: ws_claim_next_def split: option.splits)
    have r3: "(res, db') = commit_or_rollback db db3 (rbind (rbind (get L ws (r_id c) db3) (ok_or storage_error)) (\<lambda>t.
        Inr (Some \<lparr>cl_task = t, cl_owner = owner, cl_claim_token = token, cl_lease_expires_at = now + lease\<rparr>)))"
      using res g Inr u1 Cons it u3 i by (auto simp: ws_claim_next_def split: if_splits)
    then obtain t where t: "get L ws (r_id c) db3 = Inr (Some t)" and d: "db' = db3"
      and rr: "res = Inr (Some \<lparr>cl_task = t, cl_owner = owner, cl_claim_token = token, cl_lease_expires_at = now + lease\<rparr>)"
      using Inr by (auto simp: commit_or_rollback_def rbind_Inr ok_or_Inr split: sum.splits)
    have c2: "c \<in> set (db_tasks db2)" "repo_ok L db2" using c(1) ok1 by (simp_all add: db2_def)
    note tt = ws_take_ok [OF c2(2,1) c(2) u3 t now]
    have s1: "SELECT_TASK ws (r_id c) db1 = Some c"
      using SELECT_TASK_unique [OF ok1 c(1)] c(2) by (simp add: ws_free_def)
    show thesis
      by (rule that(3) [OF u1 ok1 Cons nt u3 [unfolded db2_def, folded d] tt(1) [folded d] s1 c(2) tt(2) [folded d] _ rr])
        (use t tt(2) g in \<open>auto simp: get_Inr\<close>)
  qed
qed

lemma ws_claim_next_repo_ok:
  assumes "repo_ok L db" "rfc3339_ok L (fmt now)"
  shows "repo_ok L (snd (ws_claim_next L fmt token ws owner now lease db))"
proof -
  obtain res db' where r: "ws_claim_next L fmt token ws owner now lease db = (res, db')" by fastforce
  show ?thesis by (rule ws_claim_cases [OF assms r]) (use r assms in auto)
qed

end
