(* ===== verification/Task_System.thy ===== *)
theory Task_System
  imports Work_Stealing
begin

text \<open>
  The task table as a system of operations: every write of \<open>tasks/repository.rs\<close> and
  \<open>tasks/work_stealing.rs\<close> as one step.  The system interprets the contract \<open>fenced_system\<close>: every write
  keeps the table decodable, and no write lowers the attempt number of a task, which is what makes the
  attempt a fencing token.
\<close>

datatype task_op =
    Create rstr rstr new_task
  | Checkpoint rstr rstr rstr nat "rstr option" nat "rstr option"
  | ScheduleRetry rstr rstr nat "rstr option" nat rstr rstr
  | Transition rstr rstr rstr rstr nat TaskState TaskState "rstr option"
  | RequestCancellation rstr rstr rstr
  | RequestRunningCancellation rstr rstr rstr nat
  | RetryManually rstr rstr rstr nat TaskState
  | ClaimNext rstr rstr
  | WsClaimNext rstr rstr rstr int int
  | WsComplete rstr rstr rstr rstr int

fun task_step :: "lib \<Rightarrow> (int \<Rightarrow> rstr) \<Rightarrow> task_db \<Rightarrow> task_op \<Rightarrow> task_db" where
  "task_step L fmt db (Create i ts n) = snd (create L i ts n db)"
| "task_step L fmt db (Checkpoint ts ws i a cp p n) = snd (checkpoint L ts ws i a cp p n db)"
| "task_step L fmt db (ScheduleRetry ws i a cp p n now) = snd (schedule_retry L ws i a cp p n now db)"
| "task_step L fmt db (Transition tf ts ws i a st tgt ec) = snd (transition L tf ts ws i a st tgt ec db)"
| "task_step L fmt db (RequestCancellation ts ws i) = snd (request_cancellation L ts ws i db)"
| "task_step L fmt db (RequestRunningCancellation ts ws i a) = snd (request_running_cancellation L ts ws i a db)"
| "task_step L fmt db (RetryManually ts ws i a st) = snd (retry_manually L ts ws i a st db)"
| "task_step L fmt db (ClaimNext ws now) = snd (claim_next L ws now db)"
| "task_step L fmt db (WsClaimNext tok ws owner now lease) = snd (ws_claim_next L fmt tok ws owner now lease db)"
| "task_step L fmt db (WsComplete ws i owner tok now) = snd (ws_complete L fmt ws i owner tok now db)"

text \<open>What the program's own callers guarantee: generated ids and clock readings are well formed.\<close>

fun task_admissible :: "lib \<Rightarrow> (int \<Rightarrow> rstr) \<Rightarrow> task_op \<Rightarrow> bool" where
  "task_admissible L fmt (Create i ts n) = (uuid_parse L i = Some i \<and> rfc3339_ok L ts)"
| "task_admissible L fmt (Checkpoint ts _ _ _ _ _ _) = rfc3339_ok L ts"
| "task_admissible L fmt (ScheduleRetry _ _ _ _ _ _ _) = True"
| "task_admissible L fmt (Transition tf ts _ _ _ _ _ _) = (rfc3339_ok L tf \<and> rfc3339_ok L ts)"
| "task_admissible L fmt (RequestCancellation ts _ _) = rfc3339_ok L ts"
| "task_admissible L fmt (RequestRunningCancellation ts _ _ _) = rfc3339_ok L ts"
| "task_admissible L fmt (RetryManually ts _ _ _ _) = rfc3339_ok L ts"
| "task_admissible L fmt (ClaimNext _ _) = True"
| "task_admissible L fmt (WsClaimNext _ _ _ now _) = rfc3339_ok L (fmt now)"
| "task_admissible L fmt (WsComplete _ _ _ _ now) = rfc3339_ok L (fmt now)"

definition task_attempt :: "task_db \<Rightarrow> rstr \<Rightarrow> nat option" where
  "task_attempt db i = map_option (\<lambda>r. nat (r_attempt r)) (find (\<lambda>r. r_id r = i) (db_tasks db))"

lemma task_step_repo_ok: "repo_ok L db \<Longrightarrow> task_admissible L fmt a \<Longrightarrow> repo_ok L (task_step L fmt db a)"
  by (cases a) (simp_all add: create_repo_ok checkpoint_repo_ok schedule_retry_repo_ok transition_repo_ok
      request_cancellation_repo_ok request_running_cancellation_repo_ok retry_manually_repo_ok
      claim_next_repo_ok ws_claim_next_repo_ok ws_complete_repo_ok)

section \<open>Attempts only grow\<close>

definition attempts_grow :: "task_db \<Rightarrow> task_db \<Rightarrow> bool" where
  "attempts_grow db db' \<longleftrightarrow> (\<forall>i a. task_attempt db i = Some a \<longrightarrow> (\<exists>a'. task_attempt db' i = Some a' \<and> a \<le> a'))"

lemma attempts_grow_refl [simp]: "attempts_grow db db"
  by (simp add: attempts_grow_def)

lemma attempts_grow_trans: "attempts_grow a b \<Longrightarrow> attempts_grow b c \<Longrightarrow> attempts_grow a c"
  unfolding attempts_grow_def by (meson le_trans)

lemma attempts_grow_update:
  assumes up: "sql_update P f db = Some (n, db')"
    and f: "\<forall>r. r_id (f r) = r_id r \<and> r_attempt r \<le> r_attempt (f r)"
  shows "attempts_grow db db'"
proof -
  have "find (\<lambda>r. r_id r = i) (map (\<lambda>r. if P r then f r else r) (db_tasks db))
      = map_option (\<lambda>r. if P r then f r else r) (find (\<lambda>r. r_id r = i) (db_tasks db))" for i
    by (rule find_map_if_key) (use f in simp)
  then have e: "task_attempt db' i = map_option (\<lambda>r. nat (r_attempt (if P r then f r else r)))
      (find (\<lambda>r. r_id r = i) (db_tasks db))" for i
    using sql_update_SomeD [OF up] by (simp add: task_attempt_def option.map_comp comp_def)
  show ?thesis
    unfolding attempts_grow_def
  proof (intro allI impI)
    fix i a assume "task_attempt db i = Some a"
    then obtain r where r: "find (\<lambda>r. r_id r = i) (db_tasks db) = Some r" "a = nat (r_attempt r)"
      by (auto simp: task_attempt_def)
    then show "\<exists>a'. task_attempt db' i = Some a' \<and> a \<le> a'" using f by (auto simp: e intro: nat_mono)
  qed
qed

lemma find_append: "find P (xs @ ys) = (case find P xs of None \<Rightarrow> find P ys | Some x \<Rightarrow> Some x)"
  by (induction xs) auto

lemma attempts_grow_insert: "sql_insert r db = Some db' \<Longrightarrow> attempts_grow db db'"
  by (auto simp: sql_insert_def attempts_grow_def task_attempt_def find_append split: if_splits)

lemma attempts_grow_tokens: "attempts_grow (db\<lparr>db_claim_tokens := ts\<rparr>) db' = attempts_grow db db'"
  by (simp add: attempts_grow_def task_attempt_def)

lemma attempts_grow_fields:
  "sql_update P (\<lambda>r. r\<lparr>r_checkpoint_json := cp, r_progress := p, r_next_run_at := m, r_updated_at := ts\<rparr>) db = Some (n, db') \<Longrightarrow> attempts_grow db db'"
  "sql_update P (retry_set cp q nx ts) db = Some (n, db') \<Longrightarrow> attempts_grow db db'"
  "sql_update P (transition_set tf ts cur tgt ec) db = Some (n, db') \<Longrightarrow> attempts_grow db db'"
  "sql_update P (\<lambda>r. r\<lparr>r_cancel_requested := c, r_updated_at := ts\<rparr>) db = Some (n, db') \<Longrightarrow> attempts_grow db db'"
  "sql_update P (\<lambda>r. r\<lparr>r_state := s, r_next_run_at := m, r_error_code := e, r_cancel_requested := c, r_updated_at := ts\<rparr>) db = Some (n, db') \<Longrightarrow> attempts_grow db db'"
  "sql_update P (claim_set ts) db = Some (n, db') \<Longrightarrow> attempts_grow db db'"
  "sql_update P ws_release db = Some (n, db') \<Longrightarrow> attempts_grow db db'"
  "sql_update P (ws_take ow tk ex ts) db = Some (n, db') \<Longrightarrow> attempts_grow db db'"
  "sql_update P (ws_finish ts) db = Some (n, db') \<Longrightarrow> attempts_grow db db'"
  by (erule attempts_grow_update; simp add: transition_set_def claim_set_def retry_set_def ws_release_def ws_take_def
      ws_finish_def Let_def)+

lemma attempts_grow_ws_claim:
  assumes "repo_ok L db" "rfc3339_ok L (fmt now)"
  shows "attempts_grow db (snd (ws_claim_next L fmt tok ws owner now lease db))"
proof -
  obtain res db' where r: "ws_claim_next L fmt tok ws owner now lease db = (res, db')" by fastforce
  show ?thesis
  proof (rule ws_claim_cases [OF assms r])
    fix n db1 c m
    assume "sql_update (ws_expired ws (fmt now)) ws_release db = Some (n, db1)"
      and "sql_update (\<lambda>r. ws_free ws r \<and> r_id r = r_id c) (ws_take owner tok (fmt (now + lease)) (fmt now))
           (db1\<lparr>db_claim_tokens := db_claim_tokens db @ [(tok, r_id c, fmt now)]\<rparr>) = Some (m, db')"
    then have "attempts_grow db db1" "attempts_grow db1 db'"
      using attempts_grow_fields(7,8) attempts_grow_tokens by blast+
    then show ?thesis using r attempts_grow_trans by (metis snd_conv)
  qed (use r attempts_grow_fields(7) in auto)
qed

lemma attempts_grow_commit:
  "attempts_grow old new \<Longrightarrow> attempts_grow old (snd (commit_or_rollback old new res))"
  by simp

lemma attempts_grow_ops:
  "attempts_grow db (snd (create L i ts nt db))"
  "attempts_grow db (snd (checkpoint L ts ws i a cp p m db))"
  "attempts_grow db (snd (schedule_retry L ws i a cp p m' now db))"
  "attempts_grow db (snd (transition L tf ts ws i a st tgt ec db))"
  "attempts_grow db (snd (request_cancellation L ts ws i db))"
  "attempts_grow db (snd (request_running_cancellation L ts ws i a db))"
  "attempts_grow db (snd (retry_manually L ts ws i a st db))"
  "attempts_grow db (snd (claim_next L ws now db))"
  "attempts_grow db (snd (ws_complete L fmt ws i owner tok t db))"
         apply (simp add: create_def split: sum.split option.split, blast intro: attempts_grow_insert)
        apply (simp add: checkpoint_def split: sum.split option.split, blast intro: attempts_grow_fields(1))
       apply (simp add: schedule_retry_def split: sum.split option.split, blast intro: attempts_grow_fields(2))
      apply (simp add: transition_def split: sum.split option.split del: insert_iff, blast intro: attempts_grow_fields(3))
     apply (simp add: request_cancellation_def split: sum.split option.split, blast intro: attempts_grow_fields(4))
    apply (simp add: request_running_cancellation_def split: sum.split option.split, blast intro: attempts_grow_fields(4))
   apply (simp add: retry_manually_def split: sum.split option.split del: insert_iff, blast intro: attempts_grow_fields(5))
  apply (simp add: claim_next_def split: sum.split option.split list.split, blast intro: attempts_grow_fields(6))
  apply (simp add: ws_complete_def split: sum.split option.split, blast intro: attempts_grow_fields(9))
  done

lemma task_step_attempts_grow:
  "repo_ok L db \<Longrightarrow> task_admissible L fmt a \<Longrightarrow> attempts_grow db (task_step L fmt db a)"
  by (cases a) (simp_all add: attempts_grow_ops attempts_grow_ws_claim)

interpretation tasks: fenced_system "task_step L fmt" "repo_ok L" "task_admissible L fmt" task_attempt
  by unfold_locales (use task_step_repo_ok task_step_attempts_grow in \<open>auto simp: attempts_grow_def\<close>)

end
