(* ===== verification/Scheduler.thy ===== *)
theory Scheduler
  imports Task_System
begin

text \<open>
  \<open>src-tauri/src/tasks/scheduler.rs\<close>: the worker pool over the task table.

  The scheduler's mutable state is \<open>sched\<close>: the table, the active workers, the emitted progress events and
  the two flags of \<open>ControlState\<close>.  A worker's \<open>mpsc\<close> channel is what \<open>try_recv\<close> would report; the
  worker threads themselves are the environment, which may change a channel between two operations.
  Opening a connection succeeds; \<open>chrono\<close> is the parameter record \<open>clock_lib\<close>; the instant an operation
  reads from its clock is an argument.
\<close>

record clock_lib =
  format_time :: "int \<Rightarrow> rstr"                 \<comment> \<open>\<open>to_rfc3339_opts(Millis, true)\<close> of an instant\<close>
  from_std :: "nat \<Rightarrow> int option"              \<comment> \<open>\<open>chrono::Duration::from_std\<close> of nanoseconds\<close>

datatype HandlerOutcome = OutCompleted | OutWaitingExternal | OutCancelled | OutInterrupted

record handler_error =
  he_code :: rstr
  he_retryable :: bool

type_synonym handler_result = "(handler_error, HandlerOutcome) result"

text \<open>\<open>split_once(':')\<close> and the normalisation of error codes.\<close>

fun split_once :: "nat \<Rightarrow> rstr \<Rightarrow> (rstr \<times> rstr) option" where
  "split_once d [] = None"
| "split_once d (c # cs) = (if c = d then Some ([], cs) else map_option (\<lambda>(a, b). (c # a, b)) (split_once d cs))"

definition normalize_handler_error_code :: "rstr \<Rightarrow> rstr" where
  "normalize_handler_error_code code =
     (if is_ok (validate_identifier code) then code
      else (case split_once 58 code of
              None \<Rightarrow> str ''handler_error''
            | Some (p, _) \<Rightarrow> if is_ok (validate_identifier (trim p)) then trim p else str ''handler_error''))"

definition HandlerError_retryable :: "rstr \<Rightarrow> handler_error" where
  "HandlerError_retryable c = \<lparr>he_code = normalize_handler_error_code c, he_retryable = True\<rparr>"

definition HandlerError_permanent :: "rstr \<Rightarrow> handler_error" where
  "HandlerError_permanent c = \<lparr>he_code = normalize_handler_error_code c, he_retryable = False\<rparr>"

record task_progress =
  p_id :: rstr
  p_kind :: rstr
  p_state :: TaskState
  p_progress :: nat
  p_attempt :: nat
  p_error_code :: "rstr option"
  p_cancel_requested :: bool
  p_created_at :: rstr
  p_updated_at :: rstr

definition progress_of :: "task_record \<Rightarrow> task_progress" where
  "progress_of t = \<lparr>p_id = t_id t, p_kind = t_kind t, p_state = t_state t, p_progress = t_progress t,
     p_attempt = t_attempt t, p_error_code = t_error_code t, p_cancel_requested = t_cancel_requested t,
     p_created_at = t_created_at t, p_updated_at = t_updated_at t\<rparr>"

record scheduler_config =
  max_workers :: nat
  max_attempts :: nat
  retry_base :: nat
  retry_max :: nat

definition SchedulerConfig_default :: scheduler_config where
  "SchedulerConfig_default = \<lparr>max_workers = 2, max_attempts = 4, retry_base = 5 * 10 ^ 9, retry_max = 300 * 10 ^ 9\<rparr>"

datatype channel = Empty | Message handler_result | Disconnected

record active_task =
  a_claim :: task_record
  a_result :: channel
  a_outcome :: "handler_result option"
  a_fenced :: bool

record sched =
  s_db :: task_db
  s_active :: "active_task list"
  s_events :: "task_progress list"
  s_accepting :: bool
  s_shutdown :: bool

text \<open>What a scheduler is created with: the libraries, the workspace, the limits and, per task kind, whether
  its handler is resumable.\<close>

record sched_env =
  e_lib :: lib
  e_clock :: clock_lib
  e_workspace :: rstr
  e_config :: scheduler_config
  e_handlers :: "(rstr \<times> bool) list"

type_synonym 'a sched_io = "sched \<Rightarrow> (task_error, 'a) result \<times> sched"

definition sbind :: "'a sched_io \<Rightarrow> ('a \<Rightarrow> 'b sched_io) \<Rightarrow> 'b sched_io" where
  "sbind m f s = (case m s of (Inl e, s') \<Rightarrow> (Inl e, s') | (Inr x, s') \<Rightarrow> f x s')"

fun register_handlers :: "(rstr \<times> bool) list \<Rightarrow> (rstr \<times> bool) list \<Rightarrow> (task_error, (rstr \<times> bool) list) result" where
  "register_handlers reg [] = Inr reg"
| "register_handlers reg ((k, r) # hs) =
     rbind (validate_identifier k) (\<lambda>_.
     if k \<in> fst ` set reg then Inl (TaskError ''duplicate_handler'') else register_handlers (reg @ [(k, r)]) hs)"

definition Scheduler_new ::
  "lib \<Rightarrow> clock_lib \<Rightarrow> rstr \<Rightarrow> scheduler_config \<Rightarrow> (rstr \<times> bool) list \<Rightarrow> (task_error, sched_env) result" where
  "Scheduler_new L C ws cfg hs =
     rbind (validate_identifier ws) (\<lambda>_.
     if max_workers cfg = 0 \<or> max_attempts cfg = 0 then Inl (TaskError ''invalid_scheduler'')
     else if retry_max cfg < retry_base cfg then Inl (TaskError ''invalid_scheduler'')
     else rbind (register_handlers [] hs) (\<lambda>reg.
       Inr \<lparr>e_lib = L, e_clock = C, e_workspace = ws, e_config = cfg, e_handlers = reg\<rparr>))"

definition request_shutdown :: "sched \<Rightarrow> sched" where
  "request_shutdown s = s\<lparr>s_accepting := False, s_shutdown := True\<rparr>"

definition emit_progress :: "task_record \<Rightarrow> sched \<Rightarrow> sched" where
  "emit_progress t s = s\<lparr>s_events := s_events s @ [progress_of t]\<rparr>"

text \<open>A repository call on the scheduler's table.\<close>

definition repo :: "'a task_io \<Rightarrow> 'a sched_io" where
  "repo f s = (case f (s_db s) of (r, db) \<Rightarrow> (r, s\<lparr>s_db := db\<rparr>))"

definition transition_and_emit ::
  "sched_env \<Rightarrow> int \<Rightarrow> rstr \<Rightarrow> nat \<Rightarrow> TaskState \<Rightarrow> TaskState \<Rightarrow> rstr option \<Rightarrow> unit sched_io" where
  "transition_and_emit E now i a st target ec =
     sbind (repo (transition (e_lib E) (format_time (e_clock E) now) (format_time (e_clock E) now)
                    (e_workspace E) i a st target ec))
       (\<lambda>t s. (Inr (), emit_progress t s))"

definition transition_active :: "sched_env \<Rightarrow> int \<Rightarrow> task_record \<Rightarrow> TaskState \<Rightarrow> rstr option \<Rightarrow> unit sched_io" where
  "transition_active E now t target ec = transition_and_emit E now (t_id t) (t_attempt t) Running target ec"

section \<open>Retry with exponential backoff\<close>

definition DURATION_MAX :: nat where
  "DURATION_MAX = (2 ^ 64 - 1) * 10 ^ 9 + 999999999"

text \<open>\<open>1u32.checked_shl(n).unwrap_or(u32::MAX)\<close>; \<open>checked_shl\<close> fails only for \<open>n \<ge> 32\<close>.\<close>

definition retry_multiplier :: "nat \<Rightarrow> nat" where
  "retry_multiplier attempt =
     (let n = min (attempt - 1) 31 in if n < 32 then unat (push_bit n (1 :: 32 word)) else u32_max)"

definition retry_delay :: "scheduler_config \<Rightarrow> nat \<Rightarrow> nat" where
  "retry_delay cfg attempt =
     min (min (retry_base cfg * retry_multiplier attempt) DURATION_MAX) (retry_max cfg)"

definition Scheduler_schedule_retry :: "sched_env \<Rightarrow> int \<Rightarrow> task_record \<Rightarrow> unit sched_io" where
  "Scheduler_schedule_retry E now t s =
     (case from_std (e_clock E) (retry_delay (e_config E) (t_attempt t)) of
        None \<Rightarrow> (Inl (TaskError ''invalid_scheduler''), s)
      | Some d \<Rightarrow>
          sbind (repo (schedule_retry (e_lib E) (e_workspace E) (t_id t) (t_attempt t) (t_checkpoint_json t)
                         (t_progress t) (format_time (e_clock E) (now + d)) (format_time (e_clock E) now)))
            (\<lambda>u s. (Inr (), emit_progress u s)) s)"

section \<open>Finishing a worker\<close>

definition finish :: "sched_env \<Rightarrow> int \<Rightarrow> task_record \<Rightarrow> handler_result \<Rightarrow> unit sched_io" where
  "finish E now claim result s =
     (case get (e_lib E) (e_workspace E) (t_id claim) (s_db s) of
        Inl e \<Rightarrow> (Inl e, s)
      | Inr None \<Rightarrow> (Inr (), s)
      | Inr (Some cur) \<Rightarrow>
          if t_attempt cur \<noteq> t_attempt claim \<or> t_state cur \<noteq> Running then (Inr (), s)
          else if t_cancel_requested cur then transition_active E now cur Cancelled None s
          else if s_shutdown s then transition_active E now cur Interrupted None s
          else (case result of
                  Inr OutCompleted \<Rightarrow> transition_active E now cur Completed None s
                | Inr OutWaitingExternal \<Rightarrow> transition_active E now cur WaitingExternal None s
                | Inr OutCancelled \<Rightarrow> transition_active E now cur Cancelled None s
                | Inr OutInterrupted \<Rightarrow> transition_active E now cur Interrupted None s
                | Inl err \<Rightarrow>
                    if he_retryable err \<and> t_attempt cur < max_attempts (e_config E)
                    then Scheduler_schedule_retry E now cur s
                    else transition_active E now cur Failed (Some (he_code err)) s))"

definition poll_channel :: "active_task \<Rightarrow> active_task" where
  "poll_channel a =
     (if a_outcome a \<noteq> None then a
      else (case a_result a of
              Message r \<Rightarrow> a\<lparr>a_outcome := Some r\<rparr>
            | Disconnected \<Rightarrow> a\<lparr>a_outcome := Some (Inl (HandlerError_permanent (str ''handler_panicked'')))\<rparr>
            | Empty \<Rightarrow> a))"

fun finish_all :: "sched_env \<Rightarrow> int \<Rightarrow> active_task list \<Rightarrow> unit sched_io" where
  "finish_all E now [] s = (Inr (), s)"
| "finish_all E now (a # as) s =
     (case a_outcome a of
        None \<Rightarrow> finish_all E now as s
      | Some r \<Rightarrow>
          if a_fenced a then finish_all E now as s
          else sbind (finish E now (a_claim a) r) (\<lambda>_. finish_all E now as) s)"

definition reap_finished :: "sched_env \<Rightarrow> int \<Rightarrow> unit sched_io" where
  "reap_finished E now s =
     (let s1 = s\<lparr>s_active := map poll_channel (s_active s)\<rparr>
      in sbind (finish_all E now (s_active s1))
           (\<lambda>_ s2. (Inr (), s2\<lparr>s_active := filter (\<lambda>a. a_outcome a = None) (s_active s2)\<rparr>)) s1)"

definition fail_unknown :: "sched_env \<Rightarrow> int \<Rightarrow> task_record \<Rightarrow> unit sched_io" where
  "fail_unknown E now t s =
     reap_finished E now
       (s\<lparr>s_active := s_active s @ [\<lparr>a_claim = t, a_result = Disconnected,
          a_outcome = Some (Inl (HandlerError_permanent (str ''unknown_task_kind''))), a_fenced = False\<rparr>]\<rparr>)"

text \<open>The worker thread starts with an empty channel; when the thread cannot be started its sender is dropped.\<close>

definition spawn :: "bool \<Rightarrow> task_record \<Rightarrow> sched \<Rightarrow> sched" where
  "spawn started t s =
     s\<lparr>s_active := s_active s @ [\<lparr>a_claim = t, a_result = (if started then Empty else Disconnected),
        a_outcome = None, a_fenced = False\<rparr>]\<rparr>"

section \<open>Fencing active workers\<close>

text \<open>
  The loops of \<open>cancel_active\<close> and \<open>interrupt_active\<close>: \<open>target cur\<close> says to which state a live claim is moved
  (\<open>None\<close>: left alone).  An error leaves the remaining workers untouched.
\<close>

fun fence_loop ::
  "sched_env \<Rightarrow> int \<Rightarrow> (task_record \<Rightarrow> TaskState option) \<Rightarrow> active_task list \<Rightarrow> sched
     \<Rightarrow> (task_error, unit) result \<times> active_task list \<times> sched" where
  "fence_loop E now target [] s = (Inr (), [], s)"
| "fence_loop E now target (a # as) s =
     (if a_fenced a then (case fence_loop E now target as s of (r, as', s') \<Rightarrow> (r, a # as', s'))
      else (case get (e_lib E) (e_workspace E) (t_id (a_claim a)) (s_db s) of
              Inl e \<Rightarrow> (Inl e, a # as, s)
            | Inr None \<Rightarrow> (case fence_loop E now target as s of (r, as', s') \<Rightarrow> (r, a\<lparr>a_fenced := True\<rparr> # as', s'))
            | Inr (Some cur) \<Rightarrow>
                if t_attempt cur \<noteq> t_attempt (a_claim a) \<or> t_state cur \<noteq> Running
                then (case fence_loop E now target as s of (r, as', s') \<Rightarrow> (r, a\<lparr>a_fenced := True\<rparr> # as', s'))
                else (case target cur of
                        None \<Rightarrow> (case fence_loop E now target as s of (r, as', s') \<Rightarrow> (r, a # as', s'))
                      | Some st \<Rightarrow>
                          (case transition_active E now cur st None s of
                             (Inl e, s') \<Rightarrow> (Inl e, a # as, s')
                           | (Inr _, s') \<Rightarrow>
                               (case fence_loop E now target as s' of
                                  (r, as', s'') \<Rightarrow> (r, a\<lparr>a_fenced := True\<rparr> # as', s''))))))"

definition run_fence :: "sched_env \<Rightarrow> int \<Rightarrow> (task_record \<Rightarrow> TaskState option) \<Rightarrow> unit sched_io" where
  "run_fence E now target s =
     (case fence_loop E now target (s_active s) s of (r, as, s') \<Rightarrow> (r, s'\<lparr>s_active := as\<rparr>))"

definition cancel_active :: "sched_env \<Rightarrow> int \<Rightarrow> unit sched_io" where
  "cancel_active E now = run_fence E now (\<lambda>cur. if t_cancel_requested cur then Some Cancelled else None)"

definition interrupt_active :: "sched_env \<Rightarrow> int \<Rightarrow> unit sched_io" where
  "interrupt_active E now s =
     (if list_all a_fenced (s_active s) then (Inr (), s)
      else run_fence E now (\<lambda>cur. Some (if t_cancel_requested cur then Cancelled else Interrupted)) s)"

section \<open>One tick\<close>

text \<open>\<open>started n\<close> says whether the operating system starts the \<open>n\<close>-th worker thread of this tick.\<close>

fun claim_loop :: "sched_env \<Rightarrow> int \<Rightarrow> (nat \<Rightarrow> bool) \<Rightarrow> nat \<Rightarrow> unit sched_io" where
  "claim_loop E now started 0 s = (Inr (), s)"
| "claim_loop E now started (Suc n) s =
     (if \<not> s_accepting s then (Inr (), s)
      else (case repo (claim_next (e_lib E) (e_workspace E) (format_time (e_clock E) now)) s of
              (Inl e, s') \<Rightarrow> (Inl e, s')
            | (Inr None, s') \<Rightarrow> (Inr (), s')
            | (Inr (Some t), s') \<Rightarrow>
                (let s1 = emit_progress t s'
                 in if t_kind t \<notin> fst ` set (e_handlers E)
                    then sbind (fail_unknown E now t) (\<lambda>_. claim_loop E now started n) s1
                    else claim_loop E now started n (spawn (started n) t s1))))"

definition tick :: "sched_env \<Rightarrow> int \<Rightarrow> (nat \<Rightarrow> bool) \<Rightarrow> unit sched_io" where
  "tick E now started =
     sbind (reap_finished E now) (\<lambda>_ s.
       if s_shutdown s then interrupt_active E now s
       else sbind (cancel_active E now) (\<lambda>_ s.
         if e_handlers E = [] then (Inr (), s)
         else claim_loop E now started (max_workers (e_config E) - length (s_active s)) s) s)"

section \<open>Recovery at start\<close>

fun recover_running :: "sched_env \<Rightarrow> int \<Rightarrow> task_record list \<Rightarrow> unit sched_io" where
  "recover_running E now [] s = (Inr (), s)"
| "recover_running E now (t # ts) s =
     (if t_state t = Running
      then sbind (transition_and_emit E now (t_id t) (t_attempt t) Running
                    (if t_cancel_requested t then Cancelled else Interrupted) None)
             (\<lambda>_. recover_running E now ts) s
      else recover_running E now ts s)"

definition resumable :: "sched_env \<Rightarrow> rstr \<Rightarrow> bool" where
  "resumable E k = (map_of (e_handlers E) k = Some True)"

fun recover_interrupted :: "sched_env \<Rightarrow> int \<Rightarrow> task_record list \<Rightarrow> unit sched_io" where
  "recover_interrupted E now [] s = (Inr (), s)"
| "recover_interrupted E now (t # ts) s =
     (if t_state t \<noteq> Interrupted then recover_interrupted E now ts s
      else if t_cancel_requested t
      then sbind (transition_and_emit E now (t_id t) (t_attempt t) Interrupted Cancelled None)
             (\<lambda>_. recover_interrupted E now ts) s
      else if resumable E (t_kind t)
      then sbind (transition_and_emit E now (t_id t) (t_attempt t) Interrupted Queued None)
             (\<lambda>_. recover_interrupted E now ts) s
      else recover_interrupted E now ts s)"

definition recover :: "sched_env \<Rightarrow> int \<Rightarrow> unit sched_io" where
  "recover E now s =
     (case list_tasks (e_lib E) (e_workspace E) (s_db s) of
        Inl e \<Rightarrow> (Inl e, s)
      | Inr ts \<Rightarrow>
          sbind (recover_running E now ts) (\<lambda>_ s1.
            (case list_tasks (e_lib E) (e_workspace E) (s_db s1) of
               Inl e \<Rightarrow> (Inl e, s1)
             | Inr ts1 \<Rightarrow> recover_interrupted E now ts1 s1)) s)"

section \<open>Handler context\<close>

definition ctx_checkpoint ::
  "sched_env \<Rightarrow> int \<Rightarrow> rstr \<Rightarrow> nat \<Rightarrow> rstr option \<Rightarrow> nat \<Rightarrow> int option \<Rightarrow> task_record sched_io" where
  "ctx_checkpoint E now i a cp p next_run =
     sbind (repo (checkpoint (e_lib E) (format_time (e_clock E) now) (e_workspace E) i a cp p
                    (map_option (format_time (e_clock E)) next_run)))
       (\<lambda>t s. (Inr t, emit_progress t s))"

definition cancellation_requested :: "sched_env \<Rightarrow> rstr \<Rightarrow> sched \<Rightarrow> (task_error, bool) result" where
  "cancellation_requested E i s =
     rbind (get (e_lib E) (e_workspace E) i (s_db s)) (\<lambda>t.
     ok_or (TaskError ''task_not_found'') (map_option t_cancel_requested t))"

definition completed_with_checkpoint :: "sched_env \<Rightarrow> rstr \<Rightarrow> nat \<Rightarrow> rstr \<Rightarrow> sched \<Rightarrow> (task_error, bool) result" where
  "completed_with_checkpoint E i a cp s =
     rbind (get (e_lib E) (e_workspace E) i (s_db s)) (\<lambda>t.
     Inr (case t of None \<Rightarrow> False
          | Some t \<Rightarrow> t_attempt t = a \<and> t_state t = Completed \<and> t_progress t = 100 \<and> t_checkpoint_json t = Some cp))"

section \<open>Lemmas\<close>

lemma sbind_simps: "m s = (Inl e, s') \<Longrightarrow> sbind m f s = (Inl e, s')"
  "m s = (Inr x, s') \<Longrightarrow> sbind m f s = f x s'"
  by (simp_all add: sbind_def)

lemma normalize_identifier_ok: "identifier_ok (normalize_handler_error_code c)"
proof -
  have h: "identifier_ok (str ''handler_error'')" by (simp add: identifier_ok_def str_def ascii_defs)
  show ?thesis using h
    by (auto simp: normalize_handler_error_code_def is_ok_iff validate_identifier_iff split: option.splits)
qed

lemma handler_error_code_ok [simp]:
  "identifier_ok (he_code (HandlerError_retryable c))" "identifier_ok (he_code (HandlerError_permanent c))"
  by (simp_all add: HandlerError_retryable_def HandlerError_permanent_def normalize_identifier_ok)

lemma retry_multiplier_eq: "retry_multiplier attempt = 2 ^ min (attempt - 1) 31"
proof -
  have "unat (push_bit n (1 :: 32 word)) = 2 ^ n" if "n < 32" for n
  proof -
    have "unat (push_bit n (1 :: 32 word)) = take_bit 32 (push_bit n (1 :: nat))"
      by transfer (simp add: push_bit_take_bit take_bit_nat_eq nat_take_bit_eq push_bit_nat_eq)
    then show ?thesis using that by (simp add: push_bit_eq_mult take_bit_nat_eq_self)
  qed
  moreover have "min (attempt - 1) 31 < 32" by simp
  ultimately show ?thesis unfolding retry_multiplier_def Let_def by (simp only: if_True)
qed

lemma retry_delay_mono: "a \<le> b \<Longrightarrow> retry_delay cfg a \<le> retry_delay cfg b"
proof -
  assume "a \<le> b"
  then have "retry_multiplier a \<le> retry_multiplier b"
    unfolding retry_multiplier_eq by (intro power_increasing) auto
  then have "retry_base cfg * retry_multiplier a \<le> retry_base cfg * retry_multiplier b" by simp
  then show ?thesis unfolding retry_delay_def by (meson min.mono order_refl)
qed

subsection \<open>The worker bound\<close>

lemma s_active_emit [simp]: "s_active (emit_progress t s) = s_active s"
  by (simp add: emit_progress_def)

lemma repo_active: "repo f s = (r, s') \<Longrightarrow> s_active s' = s_active s"
  by (auto simp: repo_def split: prod.splits)

lemma transition_and_emit_active [simp]: "s_active (snd (transition_and_emit E now i a st tg ec s)) = s_active s"
  by (auto simp: transition_and_emit_def sbind_def split: prod.split sum.split dest: repo_active)

lemma schedule_retry_active [simp]: "s_active (snd (Scheduler_schedule_retry E now t s)) = s_active s"
  by (auto simp: Scheduler_schedule_retry_def sbind_def split: prod.split sum.split option.split dest: repo_active)

lemma finish_active [simp]: "s_active (snd (finish E now c r s)) = s_active s"
  by (auto simp: finish_def transition_active_def split: sum.split option.split HandlerOutcome.split)

lemma finish_all_active [simp]: "s_active (snd (finish_all E now as s)) = s_active s"
proof (induction as arbitrary: s)
  case (Cons a as)
  show ?case
  proof (cases "a_outcome a")
    case (Some r)
    obtain x s1 where f: "finish E now (a_claim a) r s = (x, s1)" by fastforce
    then have "s_active s1 = s_active s" using finish_active [of E now "a_claim a" r s] by simp
    then show ?thesis using Some f Cons.IH by (cases x) (simp_all add: sbind_def)
  qed (simp add: Cons.IH)
qed simp

lemma reap_finished_active:
  "s_active (snd (reap_finished E now s)) =
     (if is_ok (fst (reap_finished E now s)) then filter (\<lambda>a. a_outcome a = None) (map poll_channel (s_active s))
      else map poll_channel (s_active s))"
proof -
  define s1 where "s1 = s\<lparr>s_active := map poll_channel (s_active s)\<rparr>"
  obtain x s2 where f: "finish_all E now (s_active s1) s1 = (x, s2)" by fastforce
  then have "s_active s2 = map poll_channel (s_active s)"
    using finish_all_active [of E now "s_active s1" s1] by (simp add: s1_def)
  then show ?thesis using f unfolding reap_finished_def s1_def by (cases x) (simp_all add: sbind_def)
qed

lemma reap_finished_length: "length (s_active (snd (reap_finished E now s))) \<le> length (s_active s)"
  unfolding reap_finished_active
  using length_filter_le [of "\<lambda>a. a_outcome a = None" "map poll_channel (s_active s)"] by simp

lemma fail_unknown_length:
  "length (s_active (snd (fail_unknown E now t s))) \<le>
     (if is_ok (fst (fail_unknown E now t s)) then length (s_active s) else Suc (length (s_active s)))"
proof -
  define s1 where "s1 = s\<lparr>s_active := s_active s @ [\<lparr>a_claim = t, a_result = Disconnected,
          a_outcome = Some (Inl (HandlerError_permanent (str ''unknown_task_kind''))), a_fenced = False\<rparr>]\<rparr>"
  have "filter (\<lambda>a. a_outcome a = None) (map poll_channel (s_active s1))
      = filter (\<lambda>a. a_outcome a = None) (map poll_channel (s_active s))"
    by (simp add: s1_def poll_channel_def)
  then show ?thesis
    unfolding fail_unknown_def s1_def [symmetric] reap_finished_active
    by (simp add: s1_def le_trans [OF length_filter_le])
qed

lemma fence_loop_length: "fence_loop E now tg as s = (r, as', s') \<Longrightarrow> length as' = length as"
proof (induction as arbitrary: s r as' s')
  case (Cons a as)
  then show ?case by (auto split: if_splits prod.splits sum.splits option.splits)
qed simp

lemma run_fence_length: "length (s_active (snd (run_fence E now tg s))) = length (s_active s)"
  by (auto simp: run_fence_def split: prod.split dest: fence_loop_length)

lemma claim_loop_length:
  "length (s_active s) + n \<le> m \<Longrightarrow> length (s_active (snd (claim_loop E now started n s))) \<le> m"
proof (induction n arbitrary: s)
  case (Suc n)
  obtain x s' where c: "repo (claim_next (e_lib E) (e_workspace E) (format_time (e_clock E) now)) s = (x, s')"
    by fastforce
  have l: "s_active s' = s_active s" using repo_active [OF c] .
  show ?case
  proof (cases "\<exists>t. x = Inr (Some t)")
    case True
    then obtain t where x: "x = Inr (Some t)" by blast
    obtain y s2 where f: "fail_unknown E now t (emit_progress t s') = (y, s2)" by fastforce
    have len: "length (s_active s2) \<le> (if is_ok y then length (s_active s) else Suc (length (s_active s)))"
      using fail_unknown_length [of E now t "emit_progress t s'"] f l by (simp split: if_splits)
    have sp: "length (s_active (spawn b t (emit_progress t s'))) = Suc (length (s_active s))" for b
      using l by (simp add: spawn_def)
    show ?thesis
      using Suc.prems c x l f len sp Suc.IH [of s2] Suc.IH [of "spawn (started n) t (emit_progress t s')"]
      by (cases y) (auto simp: Let_def sbind_def)
  next
    case False
    then show ?thesis using Suc.prems c l by (cases x) (auto split: option.split)
  qed
qed simp

lemma tick_active_le:
  assumes "length (s_active s) \<le> max_workers (e_config E)"
  shows "length (s_active (snd (tick E now started s))) \<le> max_workers (e_config E)"
proof -
  obtain r1 s1 where r: "reap_finished E now s = (r1, s1)" by fastforce
  have l1: "length (s_active s1) \<le> max_workers (e_config E)"
    using reap_finished_length [of E now s] r assms by simp
  have i1: "length (s_active (snd (interrupt_active E now s1))) \<le> max_workers (e_config E)"
    using l1 by (simp add: interrupt_active_def run_fence_length)
  obtain r2 s2 where c: "cancel_active E now s1 = (r2, s2)" by fastforce
  have l2: "length (s_active s2) \<le> max_workers (e_config E)"
    using run_fence_length [of E now "\<lambda>cur. if t_cancel_requested cur then Some Cancelled else None" s1] l1 c
    by (simp add: cancel_active_def)
  show ?thesis
    using r l1 i1 c l2 claim_loop_length [of s2 "max_workers (e_config E) - length (s_active s2)" "max_workers (e_config E)" E now started]
    by (cases r1; cases r2) (simp_all add: tick_def sbind_def)
qed

subsection \<open>Finishing a live claim\<close>

text \<open>A well-formed environment: the workspace is a valid identifier and the clock formats RFC 3339.\<close>

definition env_ok :: "sched_env \<Rightarrow> bool" where
  "env_ok E \<longleftrightarrow> identifier_ok (e_workspace E) \<and> (\<forall>t. rfc3339_ok (e_lib E) (format_time (e_clock E) t))"

abbreviation row_in :: "sched_env \<Rightarrow> rstr \<Rightarrow> sched \<Rightarrow> task_row option" where
  "row_in E i s \<equiv> SELECT_TASK (e_workspace E) i (s_db s)"

lemma transition_and_emit_effect:
  fixes now :: int
  assumes e: "env_ok E" and ok: "repo_ok (e_lib E) (s_db s)" and r: "row_in E i s = Some r"
    and st: "r_attempt r = int a" "r_state r = as_str st" and c: "can_transition_to st tg" "error_code_check tg ec = Inr ()"
      "\<not> (st \<in> {Queued, WaitingExternal} \<and> tg = Running)"
  defines "f \<equiv> transition_set (format_time (e_clock E) now) (format_time (e_clock E) now) (record_of (e_lib E) r) tg ec"
  shows "\<exists>s'. transition_and_emit E now i a st tg ec s = (Inr (), s') \<and> repo_ok (e_lib E) (s_db s')
     \<and> row_in E i s' = Some (f r) \<and> row_wf (e_lib E) (f r) \<and> (\<forall>j. j \<noteq> i \<longrightarrow> row_in E j s' = row_in E j s)
     \<and> s_events s' = s_events s @ [progress_of (record_of (e_lib E) (f r))]
     \<and> s_active s' = s_active s \<and> s_shutdown s' = s_shutdown s"
proof -
  define tm where "tm = format_time (e_clock E) now"
  have v: "identifier_ok (e_workspace E)" "rfc3339_ok (e_lib E) tm" using e by (auto simp: env_ok_def tm_def)
  have al: "transition_allowed (e_workspace E) i a st tg ec (s_db s)"
    using v c r st by (auto simp: transition_allowed_def)
  note te = transition_effect [OF ok v(2) v(2) al r]
  define db' where "db' = snd (transition (e_lib E) tm tm (e_workspace E) i a st tg ec (s_db s))"
  have t: "transition (e_lib E) tm tm (e_workspace E) i a st tg ec (s_db s) = (Inr (record_of (e_lib E) (f r)), db')"
    using te(1) by (simp add: db'_def f_def tm_def)
  have ok': "repo_ok (e_lib E) db'" using te(2) te(1) by (simp add: db'_def)
  have sel: "SELECT_TASK (e_workspace E) i db' = Some (f r)"
    unfolding db'_def te(1) snd_conv SELECT_TASK_update [OF keeps_key_updates(3)]
    using r st SELECT_TASK_Some [OF r] by (simp add: is_row_def f_def tm_def)
  have oth: "SELECT_TASK (e_workspace E) j db' = SELECT_TASK (e_workspace E) j (s_db s)" if "j \<noteq> i" for j
    unfolding db'_def using transition_frame [OF ok v(2) v(2)] that by simp
  have "transition_and_emit E now i a st tg ec s
      = (Inr (), emit_progress (record_of (e_lib E) (f r)) (s\<lparr>s_db := db'\<rparr>))"
    using t unfolding transition_and_emit_def sbind_def repo_def tm_def by simp
  then show ?thesis using ok' sel oth repo_ok_row [OF ok' sel] by (simp add: emit_progress_def)
qed

text \<open>The state a live claim ends in, by the priority of \<open>finish\<close>.\<close>

fun finish_target :: "bool \<Rightarrow> bool \<Rightarrow> bool \<Rightarrow> handler_result \<Rightarrow> TaskState" where
  "finish_target True _ _ _ = Cancelled"
| "finish_target False True _ _ = Interrupted"
| "finish_target False False _ (Inr OutCompleted) = Completed"
| "finish_target False False _ (Inr OutWaitingExternal) = WaitingExternal"
| "finish_target False False _ (Inr OutCancelled) = Cancelled"
| "finish_target False False _ (Inr OutInterrupted) = Interrupted"
| "finish_target False False attempts_left (Inl err) =
     (if he_retryable err \<and> attempts_left then Queued else Failed)"

lemma finish_via_transition:
  assumes e: "env_ok E" and ok: "repo_ok (e_lib E) (s_db s)" and r: "row_in E i s = Some r"
    and st: "r_state r = str ''running''" and c: "can_transition_to Running tg" "error_code_check tg ec = Inr ()"
  shows "\<exists>s' r'. transition_active E now (record_of (e_lib E) r) tg ec s = (Inr (), s')
     \<and> repo_ok (e_lib E) (s_db s') \<and> row_in E i s' = Some r' \<and> r_state r' = as_str tg \<and> r_attempt r' = r_attempt r
     \<and> r_error_code r' = (if tg = Failed then ec else None)"
proof -
  note w = repo_ok_row [OF ok r]
  note d = decode_fields [OF decode_record_of [OF w]]
  have a: "r_attempt r = int (t_attempt (record_of (e_lib E) r))" by (rule d(3))
  have sr: "r_state r = as_str Running" using st by simp
  have ei: "t_id (record_of (e_lib E) r) = i" using repo_ok_record_id [OF ok r] by simp
  obtain s' where t: "transition_and_emit E now i (t_attempt (record_of (e_lib E) r)) Running tg ec s = (Inr (), s')"
    and "repo_ok (e_lib E) (s_db s')"
    and "row_in E i s' = Some (transition_set (format_time (e_clock E) now) (format_time (e_clock E) now)
          (record_of (e_lib E) r) tg ec r)"
    using transition_and_emit_effect [OF e ok r a sr c, of now] by auto
  then show ?thesis
    by (intro exI [of _ s']) (auto simp: transition_active_def ei transition_set_def Let_def split: if_splits)
qed

lemma finish_via_retry:
  assumes e: "env_ok E" and ok: "repo_ok (e_lib E) (s_db s)" and r: "row_in E i s = Some r"
    and st: "r_state r = str ''running''" and nc: "r_cancel_requested r = 0"
    and fs: "from_std (e_clock E) (retry_delay (e_config E) (t_attempt (record_of (e_lib E) r))) = Some dl"
  shows "\<exists>s' r'. Scheduler_schedule_retry E now (record_of (e_lib E) r) s = (Inr (), s')
     \<and> repo_ok (e_lib E) (s_db s') \<and> row_in E i s' = Some r' \<and> r_state r' = str ''queued'' \<and> r_attempt r' = r_attempt r
     \<and> r_error_code r' = None \<and> r_next_run_at r' = Some (format_time (e_clock E) (now + dl))"
proof -
  note w = repo_ok_row [OF ok r]
  note d = decode_fields [OF decode_record_of [OF w]]
  have ei: "t_id (record_of (e_lib E) r) = i" using repo_ok_record_id [OF ok r] by simp
  have v: "identifier_ok (e_workspace E)" "\<And>t. rfc3339_ok (e_lib E) (format_time (e_clock E) t)"
    using e by (auto simp: env_ok_def)
  have cp: "if_some (validate_json (e_lib E)) (t_checkpoint_json (record_of (e_lib E) r)) = Inr ()"
    "t_progress (record_of (e_lib E) r) \<le> 100"
    using d(12) by (auto simp: task_wf_def if_some_Inr)
  note se = schedule_retry_effect [OF ok v(1) cp v(2) v(2) r d(3) st, of "now + dl" now]
  show ?thesis
    unfolding Scheduler_schedule_retry_def fs option.case ei sbind_def repo_def se(1)
    using se(2-4) nc by (auto simp: emit_progress_def retry_set_def)
qed

subsection \<open>Recovery\<close>

fun transition_each :: "sched_env \<Rightarrow> int \<Rightarrow> (task_record \<Rightarrow> TaskState option) \<Rightarrow> task_record list \<Rightarrow> unit sched_io" where
  "transition_each E now ch [] s = (Inr (), s)"
| "transition_each E now ch (t # ts) s =
     (case ch t of
        None \<Rightarrow> transition_each E now ch ts s
      | Some tg \<Rightarrow> sbind (transition_and_emit E now (t_id t) (t_attempt t) (t_state t) tg None)
                     (\<lambda>_. transition_each E now ch ts) s)"

definition running_choice :: "task_record \<Rightarrow> TaskState option" where
  "running_choice t =
     (if t_state t = Running then Some (if t_cancel_requested t then Cancelled else Interrupted) else None)"

definition interrupted_choice :: "sched_env \<Rightarrow> task_record \<Rightarrow> TaskState option" where
  "interrupted_choice E t =
     (if t_state t \<noteq> Interrupted then None else if t_cancel_requested t then Some Cancelled
      else if resumable E (t_kind t) then Some Queued else None)"

lemma recover_running_each: "recover_running E now ts = transition_each E now running_choice ts"
proof (induction ts)
  case (Cons t ts)
  show ?case by (rule ext) (simp add: Cons.IH running_choice_def [of t])
qed (simp add: fun_eq_iff)

lemma recover_interrupted_each: "recover_interrupted E now ts = transition_each E now (interrupted_choice E) ts"
proof (induction ts)
  case (Cons t ts)
  show ?case by (rule ext) (simp add: Cons.IH interrupted_choice_def [of E t])
qed (simp add: fun_eq_iff)

definition each_effect :: "(task_record \<Rightarrow> TaskState option) \<Rightarrow> task_record \<Rightarrow> task_row \<Rightarrow> task_row \<Rightarrow> bool" where
  "each_effect ch t r r' = (case ch t of None \<Rightarrow> r' = r
     | Some tg \<Rightarrow> r_state r' = as_str tg \<and> r_cancel_requested r' = (if tg = Queued then 0 else r_cancel_requested r)
         \<and> r_kind r' = r_kind r)"

definition snapshot_of :: "sched_env \<Rightarrow> task_record list \<Rightarrow> sched \<Rightarrow> bool" where
  "snapshot_of E ts s \<longleftrightarrow> distinct (map t_id ts) \<and>
     (\<forall>t \<in> set ts. \<exists>r. row_in E (t_id t) s = Some r \<and> t = record_of (e_lib E) r)"

lemma transition_each_effect:
  assumes e: "env_ok E" and ch: "\<And>t tg. ch t = Some tg \<Longrightarrow> can_transition_to (t_state t) tg \<and> tg \<notin> {Failed, Running}"
  shows "repo_ok (e_lib E) (s_db s) \<Longrightarrow> snapshot_of E ts s \<Longrightarrow>
    \<exists>s'. transition_each E now ch ts s = (Inr (), s') \<and> repo_ok (e_lib E) (s_db s')
      \<and> (\<forall>i. i \<notin> t_id ` set ts \<longrightarrow> row_in E i s' = row_in E i s)
      \<and> (\<forall>t \<in> set ts. \<exists>r r'. row_in E (t_id t) s = Some r \<and> row_in E (t_id t) s' = Some r' \<and>
           each_effect ch t r r')"
proof (induction ts arbitrary: s)
  case (Cons t ts)
  have d: "distinct (map t_id ts)" "t_id t \<notin> t_id ` set ts" using Cons.prems(2) by (auto simp: snapshot_of_def)
  obtain r where r: "row_in E (t_id t) s = Some r" "t = record_of (e_lib E) r"
    using Cons.prems(2) by (auto simp: snapshot_of_def)
  note f = decode_fields [OF decode_record_of [OF repo_ok_row [OF Cons.prems(1) r(1)]], folded r(2)]
  show ?case
  proof (cases "ch t")
    case None
    obtain s' where s': "transition_each E now ch ts s = (Inr (), s')" "repo_ok (e_lib E) (s_db s')"
      "\<forall>i. i \<notin> t_id ` set ts \<longrightarrow> row_in E i s' = row_in E i s"
      "\<forall>t \<in> set ts. \<exists>r r'. row_in E (t_id t) s = Some r \<and> row_in E (t_id t) s' = Some r' \<and>
           each_effect ch t r r'"
      using Cons.IH [OF Cons.prems(1)] Cons.prems(2) by (auto simp: snapshot_of_def)
    moreover have "each_effect ch t r r" using None by (simp add: each_effect_def)
    moreover have "row_in E (t_id t) s' = Some r" using s'(3) d(2) r(1) by simp
    ultimately show ?thesis using None r(1) by (intro exI [of _ s']) simp
  next
    case (Some tg)
    have c: "can_transition_to (t_state t) tg" "error_code_check tg None = Inr ()"
      "\<not> (t_state t \<in> {Queued, WaitingExternal} \<and> tg = Running)"
      using ch [OF Some] by (auto simp: error_code_check_Inr)
    define g where "g = transition_set (format_time (e_clock E) now) (format_time (e_clock E) now) t tg None"
    obtain s1 where s1: "transition_and_emit E now (t_id t) (t_attempt t) (t_state t) tg None s = (Inr (), s1)"
      "repo_ok (e_lib E) (s_db s1)" "row_in E (t_id t) s1 = Some (g r)"
      "\<forall>j. j \<noteq> t_id t \<longrightarrow> row_in E j s1 = row_in E j s"
      using transition_and_emit_effect [OF e Cons.prems(1) r(1) f(3) f(2) c, of now] r(2) by (auto simp: g_def)
    have "\<exists>r. row_in E (t_id u) s1 = Some r \<and> u = record_of (e_lib E) r" if "u \<in> set ts" for u
    proof -
      have "t_id u \<noteq> t_id t" using d(2) that by (metis image_eqI)
      then show ?thesis using Cons.prems(2) s1(4) that by (simp add: snapshot_of_def)
    qed
    then have "snapshot_of E ts s1" using d(1) by (simp add: snapshot_of_def)
    then obtain s' where s': "transition_each E now ch ts s1 = (Inr (), s')" "repo_ok (e_lib E) (s_db s')"
      "\<forall>i. i \<notin> t_id ` set ts \<longrightarrow> row_in E i s' = row_in E i s1"
      "\<forall>t \<in> set ts. \<exists>r r'. row_in E (t_id t) s1 = Some r \<and> row_in E (t_id t) s' = Some r' \<and>
           each_effect ch t r r'"
      using Cons.IH [OF s1(2)] by auto
    have gr: "r_state (g r) = as_str tg" "r_cancel_requested (g r) = (if tg = Queued then 0 else r_cancel_requested r)"
      "r_kind (g r) = r_kind r"
      using f(5) by (auto simp: g_def transition_set_def Let_def)
    have h: "row_in E (t_id t) s' = Some (g r)" using s'(3) s1(3) d(2) by simp
    have tail: "row_in E (t_id u) s1 = row_in E (t_id u) s" if "u \<in> set ts" for u
      using s1(4) d(2) that by (metis image_eqI)
    have "each_effect ch t r (g r)" using Some gr by (simp add: each_effect_def)
    then have hd: "\<exists>r r'. row_in E (t_id t) s = Some r \<and> row_in E (t_id t) s' = Some r' \<and> each_effect ch t r r'"
      using r(1) h by blast
    have tl: "\<forall>u \<in> set ts. \<exists>r r'. row_in E (t_id u) s = Some r \<and> row_in E (t_id u) s' = Some r' \<and> each_effect ch u r r'"
      using s'(4) tail by simp
    have "transition_each E now ch (t # ts) s = (Inr (), s')" using Some s1(1) s'(1) by (simp add: sbind_def)
    moreover have "\<forall>i. i \<notin> t_id ` set (t # ts) \<longrightarrow> row_in E i s' = row_in E i s" using s'(3) s1(4) by simp
    ultimately show ?thesis using s'(2) hd tl by (intro exI [of _ s']) simp
  qed
qed simp

lemma list_tasks_snapshot:
  assumes e: "env_ok E" and ok: "repo_ok (e_lib E) (s_db s)"
  shows "\<exists>ts. list_tasks (e_lib E) (e_workspace E) (s_db s) = Inr ts \<and> snapshot_of E ts s
     \<and> (\<forall>i r. row_in E i s = Some r \<longrightarrow> record_of (e_lib E) r \<in> set ts \<and> t_id (record_of (e_lib E) r) = i)"
proof -
  define rows where "rows = sort_by (\<lambda>x y. (r_created_at x, r_id x) \<le> (r_created_at y, r_id y))
          (filter (\<lambda>r. r_workspace_id r = e_workspace E) (db_tasks (s_db s)))"
  have mem: "r \<in> set rows \<longleftrightarrow> r \<in> set (db_tasks (s_db s)) \<and> r_workspace_id r = e_workspace E" for r
    by (auto simp: rows_def)
  have wf: "row_wf (e_lib E) r" if "r \<in> set rows" for r
    using that ok mem by (auto simp: repo_ok_def list_all_iff)
  have sel: "row_in E (r_id r) s = Some r" if "r \<in> set rows" for r
    using that mem SELECT_TASK_unique [OF ok] by metis
  have ids: "t_id (record_of (e_lib E) r) = r_id r" if "r \<in> set rows" for r
    using repo_ok_record_id [OF ok sel [OF that]] by simp
  have "distinct (map r_id (db_tasks (s_db s)))" using ok by (simp add: repo_ok_def)
  then have dr: "distinct (map r_id rows)"
    unfolding rows_def by (simp add: distinct_map inj_on_def)
  have tm: "try_map (decode_task (e_lib E)) rows = Inr (map (record_of (e_lib E)) rows)"
    using wf by (auto simp: try_map_Inr_iff list_all2_map2 list.rel_refl_strong intro!: list.rel_refl_strong decode_record_of)
  have l: "list_tasks (e_lib E) (e_workspace E) (s_db s) = Inr (map (record_of (e_lib E)) rows)"
    using e tm by (simp add: list_tasks_def rows_def rbind_Inr env_ok_def validate_identifier_iff)
  have m: "map t_id (map (record_of (e_lib E)) rows) = map r_id rows" using ids by simp
  have sn: "snapshot_of E (map (record_of (e_lib E)) rows) s"
    unfolding snapshot_of_def m using dr sel ids by auto
  have "record_of (e_lib E) r \<in> set (map (record_of (e_lib E)) rows) \<and> t_id (record_of (e_lib E) r) = i"
    if "row_in E i s = Some r" for i r
    using SELECT_TASK_Some [OF that] mem ids by auto
  then show ?thesis using l sn by blast
qed

lemma recover_effect:
  assumes e: "env_ok E" and ok: "repo_ok (e_lib E) (s_db s)"
  shows "\<exists>s'. recover E now s = (Inr (), s') \<and> repo_ok (e_lib E) (s_db s') \<and>
    (\<forall>i r. row_in E i s' = Some r \<longrightarrow> r_state r \<noteq> str ''running'' \<and>
      (r_state r = str ''interrupted'' \<longrightarrow> r_cancel_requested r = 0 \<and> \<not> resumable E (r_kind r)))"
proof -
  obtain ts where ts: "list_tasks (e_lib E) (e_workspace E) (s_db s) = Inr ts" "snapshot_of E ts s"
    and all: "\<forall>i r. row_in E i s = Some r \<longrightarrow> record_of (e_lib E) r \<in> set ts \<and> t_id (record_of (e_lib E) r) = i"
    using list_tasks_snapshot [OF e ok] by blast
  have c1: "\<And>t tg. running_choice t = Some tg \<Longrightarrow> can_transition_to (t_state t) tg \<and> tg \<notin> {Failed, Running}"
    by (auto simp: running_choice_def split: if_splits)
  obtain s1 where s1: "transition_each E now running_choice ts s = (Inr (), s1)" "repo_ok (e_lib E) (s_db s1)"
    "\<forall>i. i \<notin> t_id ` set ts \<longrightarrow> row_in E i s1 = row_in E i s"
    "\<forall>t \<in> set ts. \<exists>r r'. row_in E (t_id t) s = Some r \<and> row_in E (t_id t) s1 = Some r' \<and>
       each_effect running_choice t r r'"
    using transition_each_effect [OF e c1 ok ts(2)] by blast
  have nr: "r' \<in> {r. r_state r \<noteq> str ''running''}" if r': "row_in E i s1 = Some r'" for i r'
  proof (cases "row_in E i s")
    case None
    then have "i \<notin> t_id ` set ts" using ts(2) by (auto simp: snapshot_of_def)
    then show ?thesis using s1(3) None r' by simp
  next
    case (Some r)
    define t where "t = record_of (e_lib E) r"
    have t: "t \<in> set ts" "t_id t = i" using all Some by (auto simp: t_def)
    have st: "r_state r = as_str (t_state t)"
      using decode_fields(2) [OF decode_record_of [OF repo_ok_row [OF ok Some]]] by (simp add: t_def)
    show ?thesis using bspec [OF s1(4) t(1)] t(2) Some r' st by (auto simp: running_choice_def each_effect_def split: if_splits)
  qed
  obtain ts1 where ts1: "list_tasks (e_lib E) (e_workspace E) (s_db s1) = Inr ts1" "snapshot_of E ts1 s1"
    and all1: "\<forall>i r. row_in E i s1 = Some r \<longrightarrow> record_of (e_lib E) r \<in> set ts1 \<and> t_id (record_of (e_lib E) r) = i"
    using list_tasks_snapshot [OF e s1(2)] by blast
  have c2: "\<And>t tg. interrupted_choice E t = Some tg \<Longrightarrow> can_transition_to (t_state t) tg \<and> tg \<notin> {Failed, Running}"
    by (auto simp: interrupted_choice_def split: if_splits)
  obtain s2 where s2: "transition_each E now (interrupted_choice E) ts1 s1 = (Inr (), s2)" "repo_ok (e_lib E) (s_db s2)"
    "\<forall>i. i \<notin> t_id ` set ts1 \<longrightarrow> row_in E i s2 = row_in E i s1"
    "\<forall>t \<in> set ts1. \<exists>r r'. row_in E (t_id t) s1 = Some r \<and> row_in E (t_id t) s2 = Some r' \<and>
       each_effect (interrupted_choice E) t r r'"
    using transition_each_effect [OF e c2 s1(2) ts1(2)] by blast
  have fin: "r_state r' \<noteq> str ''running'' \<and>
      (r_state r' = str ''interrupted'' \<longrightarrow> r_cancel_requested r' = 0 \<and> \<not> resumable E (r_kind r'))"
    if r': "row_in E i s2 = Some r'" for i r'
  proof (cases "row_in E i s1")
    case None
    then have "i \<notin> t_id ` set ts1" using ts1(2) by (auto simp: snapshot_of_def)
    then show ?thesis using s2(3) None r' by simp
  next
    case (Some r)
    define t where "t = record_of (e_lib E) r"
    have t: "t \<in> set ts1" "t_id t = i" using all1 Some by (auto simp: t_def)
    note f = decode_fields [OF decode_record_of [OF repo_ok_row [OF s1(2) Some]], folded t_def]
    have int: "str ''interrupted'' = as_str Interrupted" by simp
    show ?thesis
      using bspec [OF s2(4) t(1)] t(2) Some r' f(2,5,7) nr [OF Some]
      unfolding int by (auto simp: interrupted_choice_def each_effect_def simp del: as_str.simps split: if_splits)
  qed
  have "recover E now s = (Inr (), s2)"
    using ts(1) s1(1) ts1(1) s2(1)
    by (simp add: recover_def recover_running_each recover_interrupted_each sbind_def)
  then show ?thesis using s2(2) fin by blast
qed

end
