(* ===== verification/Task_Properties.thy ===== *)
theory Task_Properties
  imports Scheduler
begin

text \<open>
  The properties of the background-task subsystem: the table (\<open>Task_Repository\<close>, \<open>Work_Stealing\<close>,
  \<open>Task_System\<close>) and the scheduler over it.  The closing section holds the example data the witnesses use.
\<close>

section \<open>Example data\<close>

definition ex_lib :: lib where
  "ex_lib = \<lparr>rfc3339_ok = (\<lambda>v. v \<noteq> []), json_ok = (\<lambda>v. v \<noteq> []), uuid_parse = (\<lambda>v. if v = [] then None else Some v),
     julianday = (\<lambda>v. Some (int (length v)))\<rparr>"

definition ex_fmt :: "int \<Rightarrow> rstr" where
  "ex_fmt t = [nat t, 90]"

definition ex_ws :: rstr where
  "ex_ws = str ''local''"

definition ex_row :: "string \<Rightarrow> string \<Rightarrow> int \<Rightarrow> rstr option \<Rightarrow> task_row" where
  "ex_row i st a next_run = \<lparr>r_id = str i, r_workspace_id = ex_ws, r_kind = str ''ingest'', r_state = str st,
     r_payload_json = str ''1'', r_checkpoint_json = None, r_attempt = a, r_next_run_at = next_run, r_progress = 0,
     r_error_code = None, r_cancel_requested = 0, r_created_at = str ''t0'', r_updated_at = str ''t0'',
     r_started_at = None, r_finished_at = None, r_owner = None, r_claim_token = None, r_lease_expires_at = None\<rparr>"

definition ex_db :: "task_row list \<Rightarrow> task_db" where
  "ex_db rows = \<lparr>db_tasks = rows, db_claim_tokens = []\<rparr>"

lemma ex_ident: "identifier_ok ex_ws" "identifier_ok (str ''ingest'')"
  by (simp_all add: identifier_ok_def ex_ws_def str_def ascii_defs)

lemma ex_row_wf:
  assumes "str st = as_str s" "s \<in> {Queued, Running, Interrupted}" "0 \<le> a" "a \<le> int u32_max" "i \<noteq> []"
    "next_run \<noteq> Some []"
  shows "row_wf ex_lib (ex_row i st a next_run)"
  using assms ex_ident
  by (intro row_wfI [of ex_lib _ "str i" s]) (auto simp: ex_row_def ex_lib_def task_wf_def)

lemma ex_repo_ok1:
  assumes "row_wf ex_lib (ex_row i st a nx)" "i \<noteq> []"
  shows "repo_ok ex_lib (ex_db [ex_row i st a nx])"
  using assms by (simp add: repo_ok_def ex_db_def tokens_unique_def List.map_filter_simps ex_row_def ex_lib_def)

lemma ex_running: "repo_ok ex_lib (ex_db [ex_row ''a'' ''running'' 2 None])"
  by (rule ex_repo_ok1, rule ex_row_wf [of _ Running]) (simp_all add: u32_max_def)

section \<open>The table\<close>

text \<open>C6. Whatever sequence of task operations the program performs on a fresh table (creation, checkpoint,
  transition, claim, retry, cancellation, lease-based claim and completion, each with well-formed generated
  ids and clock readings), the table stays readable: listing any workspace succeeds, so no operation can
  write a row that poisons later reads.\<close>

theorem task_table_always_readable:
  assumes "list_all (task_admissible L fmt) ops" "identifier_ok ws"
  shows "\<exists>ts. list_tasks L ws (foldl (task_step L fmt) \<lparr>db_tasks = [], db_claim_tokens = []\<rparr> ops) = Inr ts"
proof -
  have "repo_ok L \<lparr>db_tasks = [], db_claim_tokens = []\<rparr>" by (simp add: repo_ok_def tokens_unique_def List.map_filter_simps)
  then have ok: "repo_ok L (foldl (task_step L fmt) \<lparr>db_tasks = [], db_claim_tokens = []\<rparr> ops)"
    using tasks.inv_run assms(1) by blast
  have "\<exists>ts. try_map (decode_task L) (sort_by (\<lambda>x y. (r_created_at x, r_id x) \<le> (r_created_at y, r_id y))
      (filter (\<lambda>r. r_workspace_id r = ws) (db_tasks (foldl (task_step L fmt) \<lparr>db_tasks = [], db_claim_tokens = []\<rparr> ops)))) = Inr ts"
    by (rule try_map_total) (use ok in \<open>auto simp: decode_task_ok_iff repo_ok_def list_all_iff\<close>)
  then show ?thesis using assms(2) by (auto simp: list_tasks_def rbind_Inr validate_identifier_iff)
qed

theorem task_table_always_readable_witness:
  "\<exists>ts. list_tasks ex_lib ex_ws (foldl (task_step ex_lib ex_fmt) \<lparr>db_tasks = [], db_claim_tokens = []\<rparr>
      [Create (str ''a'') (str ''t0'') \<lparr>n_workspace_id = ex_ws, n_kind = str ''ingest'', n_payload_json = str ''1'',
         n_checkpoint_json = None, n_next_run_at = None, n_progress = 0\<rparr>, ClaimNext ex_ws (str ''t1''),
       WsClaimNext (str ''tok'') ex_ws (str ''bob'') 5 9]) = Inr ts"
  by (rule task_table_always_readable) (simp_all add: ex_lib_def ex_fmt_def ex_ident)

text \<open>C16. Fencing: once a task has been claimed with attempt \<open>v\<close>, a worker that still holds an older attempt
  can never again write to it.  After any further operations, its checkpoint, its retry and its transition are
  refused and leave the table as it is.\<close>

theorem stale_worker_is_fenced_forever:
  assumes ok: "repo_ok L db" and ops: "list_all (task_admissible L fmt) ops"
    and v: "task_attempt db i = Some v" "old < v"
  shows "let db' = foldl (task_step L fmt) db ops in
     (\<exists>e. checkpoint L ts ws i old cp p n db' = (Inl e, db')) \<and>
     (\<exists>e. schedule_retry L ws i old cp p n' now db' = (Inl e, db')) \<and>
     (\<exists>e. transition L tf ts ws i old st tg ec db' = (Inl e, db'))"
proof -
  define db' where "db' = foldl (task_step L fmt) db ops"
  have ok': "repo_ok L db'" unfolding db'_def using tasks.inv_run [OF ok ops] .
  have na: "task_attempt db' i \<noteq> Some old" unfolding db'_def by (rule tasks.stale_forever [OF ok ops v])
  have nb: "r_attempt r \<noteq> int old" if "SELECT_TASK ws i db' = Some r" for r ws
  proof -
    have m: "r \<in> set (db_tasks db')" "r_id r = i" using SELECT_TASK_Some [OF that] by auto
    have "find (\<lambda>x. r_id x = r_id r) (db_tasks db') = Some r"
      using ok' m(1) by (intro find_key_eq) (simp add: repo_ok_def)
    then show ?thesis using na m(2) by (auto simp: task_attempt_def)
  qed
  have hit: "filter P (db_tasks db') = []" if "\<And>r. P r \<Longrightarrow> is_row ws i r \<and> r_attempt r = int old" for P
  proof (rule filter_False, rule ballI, rule notI)
    fix r assume r: "r \<in> set (db_tasks db')" "P r"
    then show False using nb [of ws r] SELECT_TASK_unique [OF ok' r(1)] that [OF r(2)] by (auto simp: is_row_def)
  qed
  have same: "sql_update P f db' = Some (0, db')" if "\<And>r. P r \<Longrightarrow> is_row ws i r \<and> r_attempt r = int old" for P f
  proof -
    have "\<forall>r \<in> set (db_tasks db'). \<not> P r" using hit [OF that] by (simp add: filter_empty_conv)
    then have "map (\<lambda>r. if P r then f r else r) (db_tasks db') = db_tasks db'" by (induction "db_tasks db'") (auto intro: map_idI)
    then show ?thesis using hit [OF that] ok' by (simp add: sql_update_def Let_def repo_ok_def)
  qed
  have c: "\<exists>e. checkpoint L ts ws i old cp p n db' = (Inl e, db')"
    using same [of "\<lambda>r. is_row ws i r \<and> r_attempt r = int old \<and> r_state r \<in> {str ''running'', str ''waiting_external''}"]
    by (auto simp: checkpoint_def split: sum.split option.split)
  have s: "\<exists>e. schedule_retry L ws i old cp p n' now db' = (Inl e, db')"
    using same [of "\<lambda>r. is_row ws i r \<and> r_attempt r = int old \<and> r_state r = str ''running''"]
    by (auto simp: schedule_retry_def split: sum.split option.split)
  have "\<not> transition_allowed ws i old st tg ec db'" using nb by (auto simp: transition_allowed_def)
  then have "\<exists>e. transition L tf ts ws i old st tg ec db' = (Inl e, db')" by (rule transition_refused [OF ok'])
  then show ?thesis using c s by (simp add: db'_def Let_def)
qed

theorem stale_worker_is_fenced_forever_witness:
  "let db' = foldl (task_step ex_lib ex_fmt) (ex_db [ex_row ''a'' ''running'' 2 None]) [RequestCancellation (str ''t1'') ex_ws (str ''a'')] in
     (\<exists>e. checkpoint ex_lib (str ''t2'') ex_ws (str ''a'') 1 None 50 None db' = (Inl e, db')) \<and>
     (\<exists>e. schedule_retry ex_lib ex_ws (str ''a'') 1 None 50 (str ''t3'') (str ''t2'') db' = (Inl e, db')) \<and>
     (\<exists>e. transition ex_lib (str ''t2'') (str ''t2'') ex_ws (str ''a'') 1 Running Completed None db' = (Inl e, db'))"
  by (rule stale_worker_is_fenced_forever [OF ex_running, of _ _ _ 2])
    (simp_all add: task_attempt_def ex_db_def ex_row_def ex_lib_def)

text \<open>C17. A transition succeeds exactly when the workspace and error code are valid, the task exists with the
  expected attempt and state, the edge is one of the state machine, and the edge is not one reserved to the
  atomic claim; a success moves exactly that task to the target with the same attempt, an error changes nothing.\<close>

theorem transition_spec:
  fixes ws i :: rstr and a :: nat and st tg :: TaskState and ec :: "rstr option"
  assumes ok: "repo_ok L db" and ts: "rfc3339_ok L tf" "rfc3339_ok L ts"
  defines "res \<equiv> transition L tf ts ws i a st tg ec db"
  shows "is_ok (fst res) = transition_allowed ws i a st tg ec db
     \<and> (\<not> is_ok (fst res) \<longrightarrow> snd res = db)
     \<and> (\<forall>t. fst res = Inr t \<longrightarrow> t_state t = tg \<and> t_attempt t = a \<and> t_id t = i
           \<and> get L ws i (snd res) = Inr (Some t)
           \<and> (\<forall>ws' i'. (ws', i') \<noteq> (ws, i) \<longrightarrow> SELECT_TASK ws' i' (snd res) = SELECT_TASK ws' i' db))"
proof -
  note rf = transition_refused [OF ok, of ws i a st tg ec tf ts]
  have eff: "\<exists>t. fst res = Inr t \<and> t_state t = tg \<and> t_attempt t = a \<and> t_id t = i \<and> get L ws i (snd res) = Inr (Some t)"
    if al: "transition_allowed ws i a st tg ec db"
  proof -
    obtain r where r: "SELECT_TASK ws i db = Some r" and ra: "r_attempt r = int a" "r_state r = as_str st"
      and ec: "error_code_check tg ec = Inr ()" and iw: "identifier_ok ws"
      using al by (auto simp: transition_allowed_def)
    define r' where "r' = transition_set tf ts (record_of L r) tg ec r"
    note te = transition_effect [OF ok ts al r, folded r'_def]
    note w = repo_ok_row [OF ok r]
    note rt = record_of_transition [OF w ec ts, folded r'_def]
    have s: "SELECT_TASK ws i (snd res) = Some r'"
      unfolding res_def te(1) snd_conv SELECT_TASK_update [OF keeps_key_updates(3)]
      using r ra SELECT_TASK_Some [OF r] by (simp add: is_row_def r'_def)
    have ok': "repo_ok L (snd res)" unfolding res_def te(1) snd_conv by (rule te(2))
    have "get L ws i (snd res) = Inr (Some (record_of L r'))"
      using s iw decode_record_of [OF repo_ok_row [OF ok' s]] by (simp add: get_Inr)
    moreover have "t_attempt (record_of L r) = a"
      using decode_fields(3) [OF decode_record_of [OF w]] ra by simp
    ultimately show ?thesis
      using rt(1,2) repo_ok_record_id(1) [OF ok' s] te(1) by (auto simp: res_def)
  qed
  have 1: "is_ok (fst res) = transition_allowed ws i a st tg ec db"
    by (cases "transition_allowed ws i a st tg ec db") (use eff rf in \<open>auto simp: res_def is_ok_iff\<close>)
  have "\<not> is_ok (fst res) \<longrightarrow> snd res = db" using 1 rf by (auto simp: res_def)
  moreover have "\<forall>t. fst res = Inr t \<longrightarrow> t_state t = tg \<and> t_attempt t = a \<and> t_id t = i
           \<and> get L ws i (snd res) = Inr (Some t)
           \<and> (\<forall>ws' i'. (ws', i') \<noteq> (ws, i) \<longrightarrow> SELECT_TASK ws' i' (snd res) = SELECT_TASK ws' i' db)"
    using eff 1 transition_frame [OF ok ts] by (auto simp: res_def is_ok_iff)
  ultimately show ?thesis using 1 by blast
qed

theorem transition_spec_witness:
  "is_ok (fst (transition ex_lib (str ''t1'') (str ''t1'') ex_ws (str ''a'') 2 Running Completed None
      (ex_db [ex_row ''a'' ''running'' 2 None])))"
proof -
  have "transition_allowed ex_ws (str ''a'') 2 Running Completed None (ex_db [ex_row ''a'' ''running'' 2 None])"
    by (simp add: transition_allowed_def ex_ident error_code_check_def SELECT_TASK_def is_row_def ex_db_def ex_row_def)
  moreover have "rfc3339_ok ex_lib (str ''t1'')" by (simp add: ex_lib_def)
  ultimately show ?thesis
    using transition_spec [OF ex_running, of "str ''t1''" "str ''t1''" ex_ws "str ''a''" 2 Running Completed None]
    by simp
qed

text \<open>C18. The claim is atomic and ordered.  With no eligible task it returns nothing and changes nothing.
  Otherwise it takes an eligible task (queued or waiting, not cancelled, due) whose key -- unscheduled before
  scheduled, then due time, creation time and id -- is minimal among all eligible tasks, and returns it as
  running with the attempt raised by one; no other task changes.  A task whose attempt counter is exhausted
  makes the claim fail with the table unchanged.\<close>

theorem claim_next_spec:
  assumes ok: "repo_ok L db" and v: "identifier_ok ws" "rfc3339_ok L now"
  shows "case claim_next L ws now db of
     (Inr None, db') \<Rightarrow> db' = db \<and> (\<forall>r \<in> set (db_tasks db). r_workspace_id r = ws \<longrightarrow> \<not> (claimable_state r \<and> due L now r))
   | (Inr (Some t), db') \<Rightarrow>
       (\<exists>c \<in> set (db_tasks db). r_workspace_id c = ws \<and> claimable_state c \<and> due L now c \<and> t_id t = r_id c
          \<and> (\<forall>r \<in> set (db_tasks db). r_workspace_id r = ws \<and> claimable_state r \<and> due L now r \<longrightarrow> claim_key L c \<le> claim_key L r)
          \<and> t_state t = Running \<and> int (t_attempt t) = r_attempt c + 1
          \<and> get L ws (t_id t) db' = Inr (Some t)
          \<and> (\<forall>ws' i'. (ws', i') \<noteq> (ws, t_id t) \<longrightarrow> SELECT_TASK ws' i' db' = SELECT_TASK ws' i' db))
   | (Inl e, db') \<Rightarrow> db' = db \<and> e = storage_error \<and> (\<exists>c \<in> set (db_tasks db). r_attempt c = int u32_max)"
proof (cases "claim_candidates L ws now db")
  case Nil
  then have "\<forall>r \<in> set (db_tasks db). r_workspace_id r = ws \<longrightarrow> \<not> (claimable_state r \<and> due L now r)"
    using claim_candidates_set [of _ L ws now db] by auto
  then show ?thesis using claim_next_none [OF ok v Nil] by simp
next
  case (Cons c cs)
  have c: "c \<in> set (db_tasks db)" "r_workspace_id c = ws" "claimable_state c" "due L now c"
    using Cons claim_candidates_set [of c L ws now db] by auto
  show ?thesis
  proof (cases "r_attempt c < int u32_max")
    case False
    have "row_wf L c" using ok c(1) by (simp add: repo_ok_def list_all_iff)
    then have "r_attempt c = int u32_max" using False by (auto simp: row_wf_def)
    then show ?thesis using claim_next_exhausted [OF ok v Cons False] c(1) by auto
  next
    case True
    note e = claim_next_effect [OF ok v Cons True]
    have s: "SELECT_TASK ws (r_id c) (claim_db ws now c db) = Some (claim_set now c)"
      unfolding SELECT_TASK_update [OF keeps_key_updates(6)] using e(3) c by (simp add: is_row_def)
    note d = decode_record_of [OF repo_ok_row [OF e(2) s]]
    note f = decode_fields [OF d]
    have i: "t_id (record_of L (claim_set now c)) = r_id c" using repo_ok_record_id [OF e(2) s] by simp
    have g: "get L ws (r_id c) (claim_db ws now c db) = Inr (Some (record_of L (claim_set now c)))"
      using s d v(1) by (simp add: get_Inr)
    have st: "t_state (record_of L (claim_set now c)) = Running" using f(2) by (simp add: claim_set_def)
    have at: "int (t_attempt (record_of L (claim_set now c))) = r_attempt c + 1" using f(3) by (simp add: claim_set_def)
    have fr: "SELECT_TASK ws' i' (claim_db ws now c db) = SELECT_TASK ws' i' db" if "(ws', i') \<noteq> (ws, r_id c)" for ws' i'
      unfolding SELECT_TASK_update [OF keeps_key_updates(6)] using that
      by (cases "SELECT_TASK ws' i' db") (auto dest!: SELECT_TASK_Some simp: is_row_def)
    show ?thesis
      unfolding e(1) prod.case sum.case option.case i
      using c claim_candidates_min [OF Cons] g st at fr by (intro bexI [of _ c]) auto
  qed
qed

lemma ex_two: "repo_ok ex_lib (ex_db [ex_row ''a'' ''queued'' 0 (Some (str ''t9'')), ex_row ''b'' ''queued'' 3 None])"
proof -
  have "row_wf ex_lib (ex_row ''a'' ''queued'' 0 (Some (str ''t9'')))" "row_wf ex_lib (ex_row ''b'' ''queued'' 3 None)"
    by (rule ex_row_wf [of _ Queued]; simp add: u32_max_def)+
  then show ?thesis
    by (simp add: repo_ok_def ex_db_def tokens_unique_def List.map_filter_simps ex_row_def ex_lib_def)
qed

theorem claim_next_spec_witness:
  "\<exists>t db'. claim_next ex_lib ex_ws (str ''t1'') (ex_db [ex_row ''a'' ''queued'' 0 (Some (str ''t9'')), ex_row ''b'' ''queued'' 3 None])
     = (Inr (Some t), db') \<and> t_state t = Running"
proof -
  have n: "rfc3339_ok ex_lib (str ''t1'')" by (simp add: ex_lib_def)
  note spec = claim_next_spec [OF ex_two ex_ident(1) n]
  obtain x db' where cn: "claim_next ex_lib ex_ws (str ''t1'')
      (ex_db [ex_row ''a'' ''queued'' 0 (Some (str ''t9'')), ex_row ''b'' ''queued'' 3 None]) = (x, db')" by fastforce
  have "\<exists>t. x = Inr (Some t)"
    using spec unfolding cn
    by (auto split: sum.splits option.splits simp: ex_db_def ex_row_def u32_max_def claimable_state_def due_def)
  then show ?thesis using spec cn by auto
qed

section \<open>Lease-based claims\<close>

text \<open>A lease completes only for its holder: a successful completion means the stored row was running
  under exactly this owner and token with an unexpired lease, and it is now completed with full progress and
  no holder.\<close>

theorem ws_complete_only_for_holder:
  assumes ok: "repo_ok L db" and res: "ws_complete L fmt ws i owner token now db = (Inr t, db')"
  shows "(\<exists>r l. SELECT_TASK ws i db = Some r \<and> r_state r = str ''running'' \<and> r_owner r = Some owner
        \<and> r_claim_token r = Some token \<and> r_lease_expires_at r = Some l \<and> fmt now < l)
     \<and> t_state t = Completed \<and> t_progress t = 100
     \<and> (\<exists>r'. SELECT_TASK ws i db' = Some r' \<and> r_owner r' = None \<and> r_claim_token r' = None)"
proof -
  obtain db1 where up: "sql_update (ws_holds ws i owner token (fmt now)) (ws_finish (fmt now)) db = Some (1, db1)"
    and d: "db' = db1" and g: "get L ws i db' = Inr (Some t)"
    using res by (auto simp: ws_complete_def rbind_Inr ok_or_Inr split: option.splits if_splits)
  have h: "filter (ws_holds ws i owner token (fmt now)) (db_tasks db)
      = (case SELECT_TASK ws i db of None \<Rightarrow> [] | Some r \<Rightarrow> if ws_holds ws i owner token (fmt now) r then [r] else [])"
    by (rule hits_of_row [OF ok]) (simp add: ws_holds_def)
  have "length (filter (ws_holds ws i owner token (fmt now)) (db_tasks db)) = 1" using sql_update_SomeD [OF up] by simp
  then obtain r where r: "SELECT_TASK ws i db = Some r" "ws_holds ws i owner token (fmt now) r"
    unfolding h by (auto split: option.splits if_splits)
  have s: "SELECT_TASK ws i db' = Some (ws_finish (fmt now) r)"
    using sql_update_SomeD [OF up] SELECT_TASK_update_id [of "ws_finish (fmt now)"] r d by simp
  have "decode_task L (ws_finish (fmt now) r) = Inr t" using g s by (simp add: get_Inr)
  then have "t_state t = Completed" "t_progress t = 100"
    using decode_fields [of L "ws_finish (fmt now) r" t] by (simp_all add: ws_finish_def)
  moreover have "\<exists>l. r_state r = str ''running'' \<and> r_owner r = Some owner \<and> r_claim_token r = Some token
      \<and> r_lease_expires_at r = Some l \<and> fmt now < l"
    using r(2) by (simp add: ws_holds_def split: option.splits)
  ultimately show ?thesis using r(1) s by (simp add: ws_finish_def)
qed

definition ex_held :: "rstr option \<Rightarrow> task_row" where
  "ex_held nx = (ex_row ''a'' ''running'' 1 nx)\<lparr>r_owner := Some (str ''bob''), r_claim_token := Some (str ''tok''),
     r_lease_expires_at := Some (ex_fmt 9)\<rparr>"

lemma ex_held_ok: "nx \<noteq> Some [] \<Longrightarrow> repo_ok ex_lib (ex_db [ex_held nx])"
proof -
  assume "nx \<noteq> Some []"
  then have w: "row_wf ex_lib (ex_row ''a'' ''running'' 1 nx)" by (intro ex_row_wf [of _ Running]) (simp_all add: u32_max_def)
  have "row_wf ex_lib (ex_held nx)"
    using w by (simp add: ex_held_def row_wf_def task_of_row_def)
  then show ?thesis by (simp add: repo_ok_def ex_db_def tokens_unique_def List.map_filter_simps ex_held_def ex_row_def ex_lib_def)
qed

theorem ws_complete_only_for_holder_witness:
  "\<exists>t db'. ws_complete ex_lib ex_fmt ex_ws (str ''a'') (str ''bob'') (str ''tok'') 5 (ex_db [ex_held None]) = (Inr t, db')
     \<and> t_state t = Completed"
proof -
  have w: "row_wf ex_lib (ws_finish (ex_fmt 5) (ex_held None))"
  proof (rule row_wf_finish)
    show "row_wf ex_lib (ex_held None)" using ex_held_ok [of None] by (simp add: repo_ok_def ex_db_def)
  qed (simp_all add: ex_held_def ex_row_def ex_lib_def ex_fmt_def)
  note d = decode_record_of [OF w]
  have h: "ws_holds ex_ws (str ''a'') (str ''bob'') (str ''tok'') (ex_fmt 5) (ex_held None)"
    by (simp add: ws_holds_def is_row_def ex_held_def ex_row_def ex_fmt_def)
  have ir: "is_row ex_ws (str ''a'') (ws_finish (ex_fmt 5) (ex_held None))"
    by (simp add: is_row_def ws_finish_def ex_held_def ex_row_def)
  have vi: "validate_identifier ex_ws = Inr ()" using ex_ident(1) by (simp add: validate_identifier_iff)
  have "ws_complete ex_lib ex_fmt ex_ws (str ''a'') (str ''bob'') (str ''tok'') 5 (ex_db [ex_held None])
      = (Inr (record_of ex_lib (ws_finish (ex_fmt 5) (ex_held None))), ex_db [ws_finish (ex_fmt 5) (ex_held None)])"
    using h d row_wf_checks [OF w] vi ir
    by (simp add: ws_complete_def sql_update_def ex_db_def tokens_unique_def List.map_filter_simps get_def SELECT_TASK_def
        ws_finish_def [of _ "ex_held None", THEN arg_cong [where f = r_claim_token]])
  then show ?thesis using ws_complete_only_for_holder [OF ex_held_ok [of None]] by blast
qed

text \<open>A lease claim ignores the schedule, and the completion does not clear it: for a running task that
  carries a \<open>next_run_at\<close>, completion by the rightful holder violates the table constraint on completed
  tasks, so it always fails with \<open>storage_error\<close> and the task stays as it was.\<close>

theorem ws_complete_scheduled_task_fails:
  assumes "SELECT_TASK ws i db = Some r" "ws_holds ws i owner token (fmt now) r" "r_next_run_at r = Some due_at"
  shows "ws_complete L fmt ws i owner token now db = (Inl storage_error, db)"
proof -
  have m: "r \<in> set (db_tasks db)" using SELECT_TASK_Some [OF assms(1)] by simp
  have n: "\<not> row_checks (ws_finish (fmt now) r)" using assms(3) by (simp add: row_checks_def ws_finish_def)
  have "\<not> list_all row_checks (map (ws_finish (fmt now)) (filter (ws_holds ws i owner token (fmt now)) (db_tasks db)))"
    unfolding list_all_iff using m n assms(2) by auto
  then show ?thesis by (simp add: ws_complete_def sql_update_def Let_def)
qed

theorem ws_complete_scheduled_task_fails_witness:
  "ws_complete ex_lib ex_fmt ex_ws (str ''a'') (str ''bob'') (str ''tok'') 5 (ex_db [ex_held (Some (str ''t9''))])
     = (Inl storage_error, ex_db [ex_held (Some (str ''t9''))])"
  by (rule ws_complete_scheduled_task_fails [of _ _ _ "ex_held (Some (str ''t9''))"])
    (simp_all add: SELECT_TASK_def is_row_def ws_holds_def ex_db_def ex_held_def ex_row_def ex_fmt_def)

text \<open>Claims are exclusive: after a lease claim succeeded with some token, completing that task with any
  other token is refused with \<open>task_claim_mismatch\<close> and changes nothing, and the claimed task is running under
  the claimer's name with the attempt raised by one.\<close>

theorem ws_claim_exclusive:
  assumes ok: "repo_ok L db" and now: "rfc3339_ok L (fmt now)"
    and res: "ws_claim_next L fmt token ws owner now lease db = (Inr (Some cl), db')"
  shows "t_state (cl_task cl) = Running \<and> cl_owner cl = owner \<and> cl_claim_token cl = token
    \<and> (\<exists>r. SELECT_TASK ws (t_id (cl_task cl)) db = Some r \<and> int (t_attempt (cl_task cl)) = r_attempt r + 1)
    \<and> (\<forall>token' owner' now'. token' \<noteq> token \<longrightarrow>
         ws_complete L fmt ws (t_id (cl_task cl)) owner' token' now' db' = (Inl (TaskError ''task_claim_mismatch''), db'))"
proof (rule ws_claim_cases [OF ok now res])
  fix n db1 c cs t m
  assume a: "sql_update (ws_expired ws (fmt now)) ws_release db = Some (n, db1)" "repo_ok L db'"
    "SELECT_TASK ws (r_id c) db1 = Some c"
    "SELECT_TASK ws (r_id c) db' = Some (ws_take owner token (fmt (now + lease)) (fmt now) c)"
    "decode_task L (ws_take owner token (fmt (now + lease)) (fmt now) c) = Inr t"
    "Inr (Some cl) = Inr (Some \<lparr>cl_task = t, cl_owner = owner, cl_claim_token = token, cl_lease_expires_at = now + lease\<rparr>)"
  have cl: "cl = \<lparr>cl_task = t, cl_owner = owner, cl_claim_token = token, cl_lease_expires_at = now + lease\<rparr>" using a(6) by simp
  note f = decode_fields [OF a(5)]
  have w: "row_wf L (ws_take owner token (fmt (now + lease)) (fmt now) c)" by (rule f(1))
  have rt: "record_of L (ws_take owner token (fmt (now + lease)) (fmt now) c) = t"
    using decode_record_of [OF w] a(5) by simp
  have i: "t_id t = r_id c" using repo_ok_record_id(1) [OF a(2) a(4)] rt by simp
  have st: "t_state t = Running" using f(2) by (simp add: ws_take_def)
  obtain r where r: "SELECT_TASK ws (r_id c) db = Some r" "r_attempt c = r_attempt r"
    using a(3) sql_update_SomeD [OF a(1)] SELECT_TASK_update_id [of ws_release ws "r_id c"]
    by (auto split: if_splits)
  have at: "int (t_attempt t) = r_attempt r + 1" using f(3) r(2) by simp
  have "ws_complete L fmt ws (r_id c) o' k' n' db' = (Inl (TaskError ''task_claim_mismatch''), db')" if "k' \<noteq> token" for o' k' n'
  proof -
    have "filter (ws_holds ws (r_id c) o' k' (fmt n')) (db_tasks db') = []"
      using hits_of_row [OF a(2), of "ws_holds ws (r_id c) o' k' (fmt n')" ws "r_id c"] a(4) that
      by (simp add: ws_holds_def ws_take_def)
    moreover from this have "map (\<lambda>r. if ws_holds ws (r_id c) o' k' (fmt n') r then ws_finish (fmt n') r else r) (db_tasks db') = db_tasks db'"
      by (intro map_idI) (auto simp: filter_empty_conv)
    ultimately show ?thesis using a(2) by (simp add: ws_complete_def sql_update_def Let_def repo_ok_def)
  qed
  then show ?thesis using st r(1) at by (simp add: cl i)
qed (use res in auto)

lemma ex_queued: "repo_ok ex_lib (ex_db [ex_row ''a'' ''queued'' 0 None])"
  by (rule ex_repo_ok1, rule ex_row_wf [of _ Queued]) (simp_all add: u32_max_def)

theorem ws_claim_exclusive_witness:
  "\<exists>cl db'. ws_claim_next ex_lib ex_fmt (str ''tok'') ex_ws (str ''bob'') 5 9 (ex_db [ex_row ''a'' ''queued'' 0 None]) = (Inr (Some cl), db')
     \<and> ws_complete ex_lib ex_fmt ex_ws (t_id (cl_task cl)) (str ''eve'') (str ''forged'') 6 db' = (Inl (TaskError ''task_claim_mismatch''), db')"
proof -
  define q where "q = ex_row ''a'' ''queued'' 0 None"
  define t where "t = ws_take (str ''bob'') (str ''tok'') (ex_fmt 14) (ex_fmt 5) q"
  have wq: "row_wf ex_lib q" using ex_queued by (simp add: repo_ok_def ex_db_def q_def)
  have now: "rfc3339_ok ex_lib (ex_fmt 5)" by (simp add: ex_lib_def ex_fmt_def)
  have w: "row_wf ex_lib t" unfolding t_def
    by (rule row_wf_take [OF wq _ now]) (simp_all add: q_def ex_row_def u32_max_def)
  note d = decode_record_of [OF w]
  have nx: "\<not> ws_expired ex_ws (ex_fmt 5) q" by (simp add: ws_expired_def q_def ex_row_def)
  have fr: "ws_free ex_ws q" by (simp add: ws_free_def q_def ex_row_def)
  have k: "r_id q = str ''a''" "r_claim_token q = None" "r_claim_token t = Some (str ''tok'')" "is_row ex_ws (str ''a'') t"
    by (simp_all add: q_def ex_row_def t_def ws_take_def is_row_def)
  have tr: "trim (str ''bob'') \<noteq> []" by (simp add: trim_empty_iff str_def is_whitespace_def)
  have vi: "validate_identifier ex_ws = Inr ()" using ex_ident(1) by (simp add: validate_identifier_iff)
  have ui: "uuid_parse ex_lib (str ''a'') = Some (str ''a'')" by (simp add: ex_lib_def)
  have c: "ws_claim_next ex_lib ex_fmt (str ''tok'') ex_ws (str ''bob'') 5 9 (ex_db [q])
     = (Inr (Some \<lparr>cl_task = record_of ex_lib t, cl_owner = str ''bob'', cl_claim_token = str ''tok'', cl_lease_expires_at = 14\<rparr>),
        \<lparr>db_tasks = [t], db_claim_tokens = [(str ''tok'', str ''a'', ex_fmt 5)]\<rparr>)"
    using nx fr k tr d row_wf_checks [OF w] vi ui
    by (simp add: ws_claim_next_def ex_db_def sql_update_def tokens_unique_def List.map_filter_simps ws_candidates_def
        insert_token_def t_def [symmetric] get_def SELECT_TASK_def commit_or_rollback_def)
  show ?thesis
    using c ws_claim_exclusive [where fmt = ex_fmt and now = 5, OF ex_queued now c [unfolded q_def]] unfolding q_def
    by simp
qed

section \<open>The scheduler\<close>

text \<open>When a worker's result arrives for a claim that is still live (running, same attempt), the task always
  reaches the state given by the priority order cancellation, shutdown, handler outcome; a retryable error with
  attempts left requeues the task at the backoff time, any other error fails it under the handler's code; the
  attempt is unchanged and the table stays readable.\<close>

theorem finish_live_claim:
  assumes e: "env_ok E" and ok: "repo_ok (e_lib E) (s_db s)" and r: "row_in E (t_id claim) s = Some r"
    and live: "r_state r = str ''running''" "r_attempt r = int (t_attempt claim)"
    and code: "\<forall>err. result = Inl err \<longrightarrow> identifier_ok (he_code err)"
    and std: "from_std (e_clock E) (retry_delay (e_config E) (t_attempt claim)) = Some dl"
  shows "\<exists>s' r'. finish E now claim result s = (Inr (), s') \<and> repo_ok (e_lib E) (s_db s')
    \<and> row_in E (t_id claim) s' = Some r' \<and> r_attempt r' = r_attempt r
    \<and> r_state r' = as_str (finish_target (r_cancel_requested r = 1) (s_shutdown s)
         (t_attempt claim < max_attempts (e_config E)) result)
    \<and> (r_state r' = str ''queued'' \<longrightarrow> r_next_run_at r' = Some (format_time (e_clock E) (now + dl)))
    \<and> (r_state r' = str ''failed'' \<longrightarrow> (\<exists>err. result = Inl err \<and> r_error_code r' = Some (he_code err)))"
proof -
  note d = decode_record_of [OF repo_ok_row [OF ok r]]
  note f = decode_fields [OF d]
  define cur where "cur = record_of (e_lib E) r"
  have g: "get (e_lib E) (e_workspace E) (t_id claim) (s_db s) = Inr (Some cur)"
    using r d e by (simp add: get_Inr env_ok_def cur_def)
  have c: "t_attempt cur = t_attempt claim" "t_state cur = Running" "t_cancel_requested cur = (r_cancel_requested r = 1)"
    using f live by (auto simp: cur_def)
  note tr = finish_via_transition [OF e ok r live(1), folded cur_def]
  have T: "\<exists>s' r'. transition_active E now cur tg ec s = (Inr (), s') \<and> repo_ok (e_lib E) (s_db s')
      \<and> row_in E (t_id claim) s' = Some r' \<and> r_attempt r' = r_attempt r \<and> r_state r' = as_str tg
      \<and> (tg = Failed \<longrightarrow> r_error_code r' = ec)"
    if "can_transition_to Running tg" "error_code_check tg ec = Inr ()" for tg ec
    using tr [OF that, of now] by auto
  have std': "from_std (e_clock E) (retry_delay (e_config E) (t_attempt (record_of (e_lib E) r))) = Some dl"
    using std c(1) by (simp add: cur_def)
  show ?thesis
  proof (cases "t_cancel_requested cur \<or> s_shutdown s")
    case True
    then show ?thesis
      using g c T [of Cancelled None] T [of Interrupted None]
      by (auto simp: finish_def error_code_check_Inr)
  next
    case nc: False
    show ?thesis
    proof (cases result)
      case (Inl err)
      show ?thesis
      proof (cases "he_retryable err \<and> t_attempt claim < max_attempts (e_config E)")
        case True
        have "r_cancel_requested r = 0" using nc f(5) by (auto simp: cur_def)
        then show ?thesis
          using finish_via_retry [OF e ok r live(1) _ std', of now] g c nc True Inl
          by (auto simp: finish_def cur_def)
      next
        case False
        then show ?thesis
          using T [of Failed "Some (he_code err)"] code Inl g c nc
          by (auto simp: finish_def error_code_check_Inr)
      qed
    next
      case (Inr out)
      then show ?thesis
        using g c nc T [of Completed None] T [of WaitingExternal None] T [of Cancelled None] T [of Interrupted None]
        by (cases out) (auto simp: finish_def error_code_check_Inr)
    qed
  qed
qed

definition ex_env :: sched_env where
  "ex_env = \<lparr>e_lib = ex_lib, e_clock = \<lparr>format_time = ex_fmt, from_std = (\<lambda>d. Some (int d))\<rparr>, e_workspace = ex_ws,
     e_config = SchedulerConfig_default, e_handlers = [(str ''ingest'', True)]\<rparr>"

definition ex_sched :: "task_row list \<Rightarrow> sched" where
  "ex_sched rows = \<lparr>s_db = ex_db rows, s_active = [], s_events = [], s_accepting = True, s_shutdown = False\<rparr>"

lemma ex_env_ok: "env_ok ex_env"
  using ex_ident(1) by (simp add: env_ok_def ex_env_def ex_lib_def ex_fmt_def)

theorem finish_live_claim_witness:
  "\<exists>s' r'. finish ex_env 7 (record_of ex_lib (ex_row ''a'' ''running'' 2 None))
      (Inl (HandlerError_retryable (str ''timeout''))) (ex_sched [ex_row ''a'' ''running'' 2 None]) = (Inr (), s')
    \<and> row_in ex_env (str ''a'') s' = Some r' \<and> r_state r' = str ''queued''"
proof -
  define r where "r = ex_row ''a'' ''running'' 2 None"
  have ok: "repo_ok (e_lib ex_env) (s_db (ex_sched [r]))" using ex_running by (simp add: ex_env_def ex_sched_def r_def)
  have row: "row_in ex_env (str ''a'') (ex_sched [r]) = Some r"
    by (simp add: ex_env_def ex_sched_def SELECT_TASK_def is_row_def ex_db_def r_def ex_row_def)
  have L: "e_lib ex_env = ex_lib" by (simp add: ex_env_def)
  have i: "t_id (record_of ex_lib r) = str ''a''" using repo_ok_record_id(1) [OF ok row] by (simp add: L)
  note f = decode_fields [OF decode_record_of [OF repo_ok_row [OF ok row]], unfolded L]
  have a: "t_attempt (record_of ex_lib r) = 2" using f(3) by (simp add: r_def ex_row_def)
  have "\<exists>s' r'. finish ex_env 7 (record_of ex_lib r) (Inl (HandlerError_retryable (str ''timeout''))) (ex_sched [r]) = (Inr (), s')
    \<and> repo_ok (e_lib ex_env) (s_db s')
    \<and> row_in ex_env (t_id (record_of ex_lib r)) s' = Some r' \<and> r_attempt r' = r_attempt r
    \<and> r_state r' = as_str (finish_target (r_cancel_requested r = 1) (s_shutdown (ex_sched [r]))
         (t_attempt (record_of ex_lib r) < max_attempts (e_config ex_env)) (Inl (HandlerError_retryable (str ''timeout''))))
    \<and> (r_state r' = str ''queued'' \<longrightarrow> r_next_run_at r' = Some (format_time (e_clock ex_env) (7 + int (retry_delay (e_config ex_env) 2))))
    \<and> (r_state r' = str ''failed'' \<longrightarrow> (\<exists>err. Inl (HandlerError_retryable (str ''timeout'')) = (Inl err :: handler_result) \<and> r_error_code r' = Some (he_code err)))"
    by (rule finish_live_claim [OF ex_env_ok ok])
      (use row i a in \<open>simp_all add: r_def ex_row_def ex_env_def\<close>)
  then show ?thesis
    using i a by (auto simp: r_def ex_row_def ex_sched_def ex_env_def SchedulerConfig_default_def HandlerError_retryable_def)
qed

text \<open>A result that arrives for a claim that is no longer live -- the task is gone, was claimed again with a
  newer attempt, or left the running state -- has no effect at all on the scheduler or the table.\<close>

theorem finish_stale_claim_ignored:
  assumes "env_ok E" "repo_ok (e_lib E) (s_db s)"
    and "\<forall>r. row_in E (t_id claim) s = Some r \<longrightarrow> r_attempt r \<noteq> int (t_attempt claim) \<or> r_state r \<noteq> str ''running''"
  shows "finish E now claim result s = (Inr (), s)"
proof (cases "row_in E (t_id claim) s")
  case None
  then have "get (e_lib E) (e_workspace E) (t_id claim) (s_db s) = Inr None"
    using assms(1) by (simp add: get_Inr env_ok_def)
  then show ?thesis by (simp add: finish_def)
next
  case (Some r)
  note d = decode_record_of [OF repo_ok_row [OF assms(2) Some]]
  note f = decode_fields [OF d]
  have "get (e_lib E) (e_workspace E) (t_id claim) (s_db s) = Inr (Some (record_of (e_lib E) r))"
    using Some d assms(1) by (simp add: get_Inr env_ok_def)
  moreover have "t_attempt (record_of (e_lib E) r) \<noteq> t_attempt claim \<or> t_state (record_of (e_lib E) r) \<noteq> Running"
    using assms(3) Some f(2,3) by auto
  ultimately show ?thesis by (auto simp: finish_def)
qed

theorem finish_stale_claim_ignored_witness:
  "finish ex_env 7 ((record_of ex_lib (ex_row ''a'' ''running'' 2 None))\<lparr>t_attempt := 1\<rparr>) (Inr OutCompleted)
     (ex_sched [ex_row ''a'' ''running'' 2 None]) = (Inr (), ex_sched [ex_row ''a'' ''running'' 2 None])"
  by (rule finish_stale_claim_ignored [OF ex_env_ok])
    (use ex_running in \<open>auto simp: ex_env_def ex_sched_def ex_db_def SELECT_TASK_def is_row_def ex_row_def split: if_splits\<close>)

text \<open>Recovery at start always succeeds on a readable table, and afterwards no task of the workspace is
  running; a task left interrupted has no pending cancellation and no resumable handler.\<close>

theorem recover_leaves_nothing_running:
  assumes "env_ok E" "repo_ok (e_lib E) (s_db s)"
  shows "\<exists>s'. recover E now s = (Inr (), s') \<and> repo_ok (e_lib E) (s_db s') \<and>
    (\<forall>i r. row_in E i s' = Some r \<longrightarrow> r_state r \<noteq> str ''running'' \<and>
      (r_state r = str ''interrupted'' \<longrightarrow> r_cancel_requested r = 0 \<and> \<not> resumable E (r_kind r)))"
  by (rule recover_effect [OF assms])

theorem recover_leaves_nothing_running_witness:
  "\<exists>s'. recover ex_env 3 (ex_sched [ex_row ''a'' ''running'' 2 None]) = (Inr (), s') \<and> repo_ok (e_lib ex_env) (s_db s')"
  using recover_leaves_nothing_running [OF ex_env_ok, of "ex_sched [ex_row ''a'' ''running'' 2 None]" 3] ex_running
  by (auto simp: ex_env_def ex_sched_def)

text \<open>A tick never holds more workers than configured, on success and on every error path, so the
  subtraction \<open>max_workers - active.len()\<close> of the next tick cannot underflow.\<close>

theorem tick_respects_worker_limit:
  assumes "length (s_active s) \<le> max_workers (e_config E)"
  shows "length (s_active (snd (tick E now started s))) \<le> max_workers (e_config E)"
  by (rule tick_active_le [OF assms])

theorem tick_respects_worker_limit_witness:
  "length (s_active (snd (tick ex_env 3 (\<lambda>_. True) (ex_sched [ex_row ''a'' ''queued'' 0 None, ex_row ''b'' ''queued'' 0 None])))) \<le> 2"
  using tick_respects_worker_limit [of "ex_sched [ex_row ''a'' ''queued'' 0 None, ex_row ''b'' ''queued'' 0 None]" ex_env 3 "\<lambda>_. True"]
  by (simp add: ex_sched_def ex_env_def SchedulerConfig_default_def)

text \<open>The backoff doubles with every attempt until it reaches the configured maximum, never exceeds it and
  never decreases; the shift in the multiplier never overflows 32 bits.\<close>

theorem retry_backoff_bounds:
  "retry_multiplier attempt = 2 ^ min (attempt - 1) 31 \<and> retry_multiplier attempt \<le> u32_max
   \<and> retry_delay cfg attempt \<le> retry_max cfg
   \<and> retry_delay cfg attempt \<le> retry_delay cfg (Suc attempt)
   \<and> (retry_base cfg * 2 ^ min (attempt - 1) 31 \<le> retry_max cfg \<and> retry_max cfg \<le> DURATION_MAX \<longrightarrow>
        retry_delay cfg attempt = retry_base cfg * 2 ^ min (attempt - 1) 31)"
proof -
  have "(2::nat) ^ min (attempt - 1) 31 \<le> 2 ^ 31" by (rule power_increasing) auto
  then have "retry_multiplier attempt \<le> u32_max" by (simp add: retry_multiplier_eq u32_max_def)
  then show ?thesis using retry_delay_mono [of attempt "Suc attempt" cfg]
    by (simp add: retry_multiplier_eq retry_delay_def)
qed

theorem retry_backoff_bounds_witness:
  "retry_delay SchedulerConfig_default 3 = 20 * 10 ^ 9"
  using retry_backoff_bounds [of 3 SchedulerConfig_default]
  by (simp add: SchedulerConfig_default_def DURATION_MAX_def)

text \<open>The text form of a task state round-trips and rejects everything else, and in the state machine
  \<open>completed\<close> is final and entered only from a state in which a worker or an external job is active.\<close>

theorem task_state_machine:
  "from_str (as_str st) = Inr st \<and> (from_str v = Inr st \<longleftrightarrow> v = as_str st)
   \<and> \<not> can_transition_to Completed st
   \<and> (can_transition_to st Completed \<longleftrightarrow> st \<in> {Running, WaitingExternal})
   \<and> (can_transition_to st Running \<longleftrightarrow> st \<in> {Queued, WaitingExternal})"
  by (cases st) (auto simp: from_str_Inr)

end
