(* ===== verification/Json.thy ===== *)
theory Json
  imports Prelude
begin

text \<open>
  JSON values as \<open>serde_json::Value\<close> has them: numbers are a \<open>u64\<close>, a negative \<open>i64\<close> or the bits of a finite
  \<open>f64\<close>; an object is a \<open>BTreeMap\<close>, here the association list of its entries in ascending key order
  (\<open>json_wf\<close>).  Reading an object gives the value under a key; collecting entries sorts them and keeps the last
  value of a repeated key.
\<close>

datatype json_number = PosInt nat | NegInt int | Float "64 word"

datatype json =
    JNull
  | JBool bool
  | JNumber json_number
  | JString rstr
  | JArray "json list"
  | JObject "(rstr \<times> json) list"

fun as_object :: "json \<Rightarrow> (rstr \<times> json) list option" where
  "as_object (JObject fields) = Some fields"
| "as_object _ = None"

fun as_array :: "json \<Rightarrow> json list option" where
  "as_array (JArray values) = Some values"
| "as_array _ = None"

fun json_as_str :: "json \<Rightarrow> rstr option" where
  "json_as_str (JString s) = Some s"
| "json_as_str _ = None"

fun is_boolean :: "json \<Rightarrow> bool" where
  "is_boolean (JBool b) = True"
| "is_boolean _ = False"

fun is_array :: "json \<Rightarrow> bool" where
  "is_array (JArray vs) = True"
| "is_array _ = False"

definition obj_get :: "rstr \<Rightarrow> (rstr \<times> json) list \<Rightarrow> json option" where
  "obj_get k fields = map_of fields k"

text \<open>Values built by the library: the entries of every object are in strictly ascending key order.\<close>

fun json_wf :: "json \<Rightarrow> bool" where
  "json_wf (JArray vs) = (\<forall>v \<in> set vs. json_wf v)"
| "json_wf (JObject fields) = (sorted_wrt (<) (map fst fields) \<and> (\<forall>v \<in> set (map snd fields). json_wf v))"
| "json_wf _ = True"

text \<open>The values nested in a value, itself included.\<close>

fun subvalues :: "json \<Rightarrow> json list" where
  "subvalues (JArray vs) = JArray vs # concat (map subvalues vs)"
| "subvalues (JObject fields) = JObject fields # concat (map subvalues (map snd fields))"
| "subvalues v = [v]"

text \<open>\<open>Value::eq\<close>: structural, with \<open>f64\<close> equality on floats, for which the two zeros are equal (a \<open>Value\<close>
  holds no NaN).\<close>

definition float_zero :: "64 word \<Rightarrow> bool" where
  "float_zero w \<longleftrightarrow> w = 0 \<or> w = 2 ^ 63"

fun number_eq :: "json_number \<Rightarrow> json_number \<Rightarrow> bool" where
  "number_eq (Float a) (Float b) = (a = b \<or> float_zero a \<and> float_zero b)"
| "number_eq a b = (a = b)"

fun json_eq :: "json \<Rightarrow> json \<Rightarrow> bool" where
  "json_eq (JNumber a) (JNumber b) = number_eq a b"
| "json_eq (JArray xs) (JArray ys) = list_all2 json_eq xs ys"
| "json_eq (JObject xs) (JObject ys) = (map fst xs = map fst ys \<and> list_all2 json_eq (map snd xs) (map snd ys))"
| "json_eq v w = (v = w)"

lemma number_eq_refl [simp]: "number_eq a a"
  by (cases a) auto

lemma number_eq_sym: "number_eq a b \<Longrightarrow> number_eq b a"
  by (cases a; cases b) auto

lemma number_eq_trans: "number_eq a b \<Longrightarrow> number_eq b c \<Longrightarrow> number_eq a c"
  by (cases a; cases b; cases c) auto

lemma json_eq_refl [simp]: "json_eq v v"
proof (induction v)
  case (JObject fields)
  then show ?case by (fastforce simp: list_all2_same)
qed (auto simp: list_all2_same)

lemma json_eq_sym: "json_eq v w \<Longrightarrow> json_eq w v"
proof (induction v w rule: json_eq.induct)
  case (2 xs ys)
  then show ?case by (auto simp: list_all2_conv_all_nth)
next
  case (3 xs ys)
  then show ?case by (auto simp: list_all2_conv_all_nth)
qed (auto intro: number_eq_sym)

lemma json_eq_cases:
  "json_eq (JArray xs) w \<longleftrightarrow> (\<exists>ys. w = JArray ys \<and> list_all2 json_eq xs ys)"
  "json_eq (JObject fs) w \<longleftrightarrow> (\<exists>gs. w = JObject gs \<and> map fst fs = map fst gs \<and> list_all2 json_eq (map snd fs) (map snd gs))"
  "json_eq (JNumber a) w \<longleftrightarrow> (\<exists>b. w = JNumber b \<and> number_eq a b)"
  "json_eq (JString s) w \<longleftrightarrow> w = JString s" "json_eq (JBool b) w \<longleftrightarrow> w = JBool b" "json_eq JNull w \<longleftrightarrow> w = JNull"
  by (cases w; auto)+

lemma list_all2_trans_on:
  assumes "list_all2 R xs ys" "list_all2 R ys zs" and t: "\<And>x y z. x \<in> set xs \<Longrightarrow> R x y \<Longrightarrow> R y z \<Longrightarrow> R x z"
  shows "list_all2 R xs zs"
  unfolding list_all2_conv_all_nth
proof (intro conjI allI impI)
  fix i assume i: "i < length xs"
  have "R (xs ! i) (ys ! i)" "R (ys ! i) (zs ! i)" using assms(1,2) i by (simp_all add: list_all2_conv_all_nth)
  then show "R (xs ! i) (zs ! i)" using t [OF nth_mem [OF i]] by blast
qed (use assms(1,2) in \<open>simp add: list_all2_conv_all_nth\<close>)

lemma json_eq_trans: "json_eq v w \<Longrightarrow> json_eq w x \<Longrightarrow> json_eq v x"
proof (induction v arbitrary: w x)
  case (JArray xs)
  then obtain ys zs where e: "x = JArray zs" "list_all2 json_eq xs ys" "list_all2 json_eq ys zs"
    by (auto simp: json_eq_cases)
  show ?case unfolding e(1) json_eq.simps by (rule list_all2_trans_on [OF e(2,3)]) (blast intro: JArray.IH)
next
  case (JObject fs)
  obtain gs where g: "w = JObject gs" "map fst fs = map fst gs" "list_all2 json_eq (map snd fs) (map snd gs)"
    using JObject.prems(1) unfolding json_eq_cases by blast
  obtain hs where h: "x = JObject hs" "map fst gs = map fst hs" "list_all2 json_eq (map snd gs) (map snd hs)"
    using JObject.prems(2) unfolding g(1) json_eq_cases by blast
  have e: "x = JObject hs" "map fst fs = map fst hs"
    "list_all2 json_eq (map snd fs) (map snd gs)" "list_all2 json_eq (map snd gs) (map snd hs)" using g h by simp_all
  have "list_all2 json_eq (map snd fs) (map snd hs)"
  proof (rule list_all2_trans_on [OF e(3,4)])
    fix a b c assume a: "a \<in> set (map snd fs)" "json_eq a b" "json_eq b c"
    then obtain k where "(k, a) \<in> set fs" by auto
    then show "json_eq a c" using JObject.IH [of "(k, a)" a b c] a by simp
  qed
  then show ?case using e by simp
next
  case (JNumber a)
  then obtain b c where "x = JNumber c" "number_eq a b" "number_eq b c" by (auto simp: json_eq_cases)
  then show ?case using number_eq_trans by simp
qed (simp_all add: json_eq_cases)

lemma subvalues_self [simp]: "v \<in> set (subvalues v)"
  by (cases v) auto

lemma size_snd_field [termination_simp]: "(k, v) \<in> set fields \<Longrightarrow> size v < Suc (size_list (size_prod (\<lambda>_. 0) size) fields)"
  by (induction fields) auto

lemma as_object_Some [simp]: "as_object v = Some fields \<longleftrightarrow> v = JObject fields"
  by (cases v) auto

lemma as_array_Some [simp]: "as_array v = Some vs \<longleftrightarrow> v = JArray vs"
  by (cases v) auto

lemma json_as_str_Some [simp]: "json_as_str v = Some s \<longleftrightarrow> v = JString s"
  by (cases v) auto

lemma obj_get_in: "obj_get k fields = Some v \<Longrightarrow> (k, v) \<in> set fields"
  by (simp add: obj_get_def map_of_SomeD)

lemma json_wf_distinct: "json_wf (JObject fields) \<Longrightarrow> distinct (map fst fields)"
  by (simp add: strict_sorted_iff)

lemma obj_get_wf: "json_wf (JObject fields) \<Longrightarrow> (k, v) \<in> set fields \<longleftrightarrow> obj_get k fields = Some v"
  using json_wf_distinct [of fields] by (auto simp: obj_get_def)

lemma obj_get_size: "obj_get k fields = Some v \<Longrightarrow> size v < size (JObject fields)"
  using size_snd_field [OF obj_get_in] by simp

lemma array_elem_size: "x \<in> set vs \<Longrightarrow> size x < size (JArray vs)"
  by (simp add: size_list_estimation' less_Suc_eq_le)

end
