(* ===== verification/Agent_Protocol.thy ===== *)
theory Agent_Protocol
  imports Json "HOL-Library.Countable"
begin

text \<open>
  The event protocol of an agent run (\<open>agent/protocol/event.rs\<close>, \<open>error.rs\<close>): run states and outcomes, the
  payload of every event and the envelope that orders the events of a run.  A UUID is its canonical text; an
  instant is its number of nanoseconds since the epoch.
\<close>

type_synonym uuid = rstr

datatype AgentRunState =
    Created | Preparing | Generating | AwaitingPermission | ExecutingTools | Verifying | Completing
  | Completed | Cancelled | Failed | Interrupted

datatype AgentMessageRole = User | Assistant | Tool | System

datatype ToolOutcome = Succeeded | ToolFailed | ToolCancelled

datatype PermissionRisk = Automatic | ConfirmationRequired | Dangerous

datatype PermissionDecision = AllowOnce | AllowSession | AllowAlways | Deny

datatype TaskProgressState =
    TpQueued | TpRunning | TpWaitingExternal | TpPaused | TpCompleted | TpFailed | TpCancelled | TpInterrupted

datatype RunOutcome = OutcomeCompleted | OutcomeCancelled | OutcomeFailed | OutcomeInterrupted

datatype CheckpointReason = ModelCall | AssistantResult | AssistantError

datatype AgentErrorCategory =
    Configuration | Authentication | Quota | Network | Parsing | Indexing | ModelCapability | ToolPermission
  | Mcp | Database | Internal

record agent_error =
  ae_code :: rstr
  ae_category :: AgentErrorCategory
  ae_message :: rstr
  ae_retryable :: bool
  ae_details :: "json option"

record run_created =
  rc_state :: AgentRunState
  rc_user_message_id :: uuid

record run_state_changed =
  previous :: AgentRunState
  current :: AgentRunState
  reason :: "rstr option"

record run_completed =
  outcome :: RunOutcome
  assistant_message_id :: "uuid option"

record tool_requested =
  tq_tool_call_id :: uuid
  tq_tool_id :: rstr
  tq_tool_name :: rstr
  tq_arguments :: json

record tool_completed =
  tc_tool_call_id :: uuid
  tc_outcome :: ToolOutcome
  tc_output :: "json option"
  tc_error :: "agent_error option"

record permission_requested =
  pq_permission_id :: uuid
  pq_tool_call_id :: uuid
  pq_risk :: PermissionRisk
  pq_reason :: rstr
  pq_summary :: rstr

record checkpoint_saved =
  cs_reason :: CheckpointReason
  cs_model_call_index :: nat
  cs_model_calls :: nat
  cs_tool_calls :: nat
  cs_tool_round :: nat
  cs_recovery_attempt :: nat

record recovery_started =
  rs_recovery_id :: uuid
  rs_action :: rstr
  rs_recovery_attempt :: nat

record recovery_completed =
  rd_recovery_id :: uuid
  rd_action :: rstr
  rd_outcome :: "RunOutcome option"

text \<open>The payloads that no operation below reads are written inline, their fields in the order of the structs.\<close>

datatype AgentEventData =
    RunCreated run_created
  | RunStateChanged run_state_changed
  | ReasoningDelta uuid rstr
  | ReasoningCompleted uuid nat
  | MessageDelta uuid AgentMessageRole rstr
  | MessageCompleted uuid AgentMessageRole rstr bool
  | ToolRequested tool_requested
  | ToolStarted uuid
  | ToolProgress uuid nat "rstr option"
  | ToolCompleted tool_completed
  | PermissionRequested permission_requested
  | PermissionResolved uuid PermissionDecision
  | EvidenceAttached uuid "nat list"
  | UsageUpdated nat nat nat nat nat
  | TaskProgress uuid rstr TaskProgressState nat
  | CheckpointSaved checkpoint_saved
  | RecoveryStarted recovery_started
  | RecoveryCompleted recovery_completed
  | RunCompleted run_completed
  | ErrorRaised agent_error bool

definition PROTOCOL_VERSION :: nat where
  "PROTOCOL_VERSION = 1"

record AgentEventEnvelope =
  protocol_version :: nat
  event_id :: uuid
  run_id :: uuid
  conversation_id :: uuid
  sequence :: nat
  timestamp :: int
  data :: AgentEventData

section \<open>The events are countable\<close>

text \<open>There are countably many envelopes, so that a serialiser that can read back every envelope exists.\<close>

instance json_number :: countable by countable_datatype

instance json :: countable by countable_datatype

instance AgentRunState :: countable by countable_datatype

instance AgentMessageRole :: countable by countable_datatype

instance ToolOutcome :: countable by countable_datatype

instance PermissionRisk :: countable by countable_datatype

instance PermissionDecision :: countable by countable_datatype

instance TaskProgressState :: countable by countable_datatype

instance RunOutcome :: countable by countable_datatype

instance CheckpointReason :: countable by countable_datatype

instance AgentErrorCategory :: countable by countable_datatype

instance agent_error_ext :: (countable) countable
  by (rule countable_classI [of "\<lambda>r. to_nat (ae_code r, ae_category r, ae_message r, ae_retryable r, ae_details r, agent_error.more r)"]) simp

instance run_created_ext :: (countable) countable
  by (rule countable_classI [of "\<lambda>r. to_nat (rc_state r, rc_user_message_id r, run_created.more r)"]) simp

instance run_state_changed_ext :: (countable) countable
  by (rule countable_classI [of "\<lambda>r. to_nat (previous r, current r, reason r, run_state_changed.more r)"]) simp

instance run_completed_ext :: (countable) countable
  by (rule countable_classI [of "\<lambda>r. to_nat (outcome r, assistant_message_id r, run_completed.more r)"]) simp

instance tool_requested_ext :: (countable) countable
  by (rule countable_classI [of "\<lambda>r. to_nat (tq_tool_call_id r, tq_tool_id r, tq_tool_name r, tq_arguments r, tool_requested.more r)"]) simp

instance tool_completed_ext :: (countable) countable
  by (rule countable_classI [of "\<lambda>r. to_nat (tc_tool_call_id r, tc_outcome r, tc_output r, tc_error r, tool_completed.more r)"]) simp

instance permission_requested_ext :: (countable) countable
  by (rule countable_classI [of "\<lambda>r. to_nat (pq_permission_id r, pq_tool_call_id r, pq_risk r, pq_reason r, pq_summary r,
     permission_requested.more r)"]) simp

instance checkpoint_saved_ext :: (countable) countable
  by (rule countable_classI [of "\<lambda>r. to_nat (cs_reason r, cs_model_call_index r, cs_model_calls r, cs_tool_calls r, cs_tool_round r,
     cs_recovery_attempt r, checkpoint_saved.more r)"]) simp

instance recovery_started_ext :: (countable) countable
  by (rule countable_classI [of "\<lambda>r. to_nat (rs_recovery_id r, rs_action r, rs_recovery_attempt r, recovery_started.more r)"]) simp

instance recovery_completed_ext :: (countable) countable
  by (rule countable_classI [of "\<lambda>r. to_nat (rd_recovery_id r, rd_action r, rd_outcome r, recovery_completed.more r)"]) simp

instance AgentEventData :: countable by countable_datatype

instance AgentEventEnvelope_ext :: (countable) countable
  by (rule countable_classI [of "\<lambda>r. to_nat (protocol_version r, event_id r, run_id r, conversation_id r, sequence r, timestamp r,
     data r, AgentEventEnvelope.more r)"]) simp

end
