(* ===== verification/Run_State.thy ===== *)
theory Run_State
  imports Agent_Protocol
begin

text \<open>
  The state machine of an agent run (\<open>agent/runtime/state_machine.rs\<close>): the legal edges, the guards on pending
  permissions and unresolved tool calls, and the step relation a run follows.
\<close>

record RunGuards =
  unresolved_tool_calls :: nat
  unresolved_permissions :: nat
  executable_tool_calls :: nat

record InvalidRunTransition =
  it_previous :: AgentRunState
  it_target :: AgentRunState
  it_reason :: string

fun is_terminal :: "AgentRunState \<Rightarrow> bool" where
  "is_terminal Completed = True"
| "is_terminal Cancelled = True"
| "is_terminal Failed = True"
| "is_terminal Interrupted = True"
| "is_terminal _ = False"

definition legal_edge :: "AgentRunState \<Rightarrow> AgentRunState \<Rightarrow> bool" where
  "legal_edge p t \<longleftrightarrow>
     (case p of
        Created \<Rightarrow> t = Preparing
      | Preparing \<Rightarrow> t = Generating
      | Generating \<Rightarrow> t \<in> {AwaitingPermission, ExecutingTools, Verifying}
      | AwaitingPermission \<Rightarrow> t \<in> {Generating, ExecutingTools}
      | ExecutingTools \<Rightarrow> t \<in> {Generating, Verifying}
      | Verifying \<Rightarrow> t \<in> {Generating, Completing}
      | Completing \<Rightarrow> t = Completed
      | _ \<Rightarrow> False)
     \<or> t \<in> {Cancelled, Failed, Interrupted}"

text \<open>The machine is its state; an error leaves it as it is.\<close>

definition run_transition ::
  "AgentRunState \<Rightarrow> AgentRunState \<Rightarrow> RunGuards \<Rightarrow> (InvalidRunTransition, run_state_changed) result \<times> AgentRunState" where
  "run_transition p t g =
     (let err = (\<lambda>why. (Inl \<lparr>it_previous = p, it_target = t, it_reason = why\<rparr>, p)) in
      if is_terminal p then err ''terminal runs cannot transition''
      else if \<not> legal_edge p t then err ''state edge is not allowed''
      else if t = AwaitingPermission \<and> unresolved_permissions g = 0 then err ''no tool permission is pending''
      else if p = AwaitingPermission \<and> t = Generating \<and> unresolved_permissions g \<noteq> 0
      then err ''tool permissions are unresolved''
      else if t = ExecutingTools \<and> unresolved_permissions g \<noteq> 0 then err ''tool permissions are unresolved''
      else if t = ExecutingTools \<and> executable_tool_calls g = 0 then err ''no tool call is approved for execution''
      else if t \<in> {Completing, Completed} \<and> (unresolved_tool_calls g \<noteq> 0 \<or> unresolved_permissions g \<noteq> 0)
      then err ''run work is unresolved''
      else (Inr \<lparr>previous = p, current = t, reason = None\<rparr>, t))"

section \<open>The step relation\<close>

text \<open>A run moves by successful transitions; \<open>run_reaches p tr q\<close> records the guards at each step.\<close>

inductive run_step :: "AgentRunState \<Rightarrow> RunGuards \<Rightarrow> AgentRunState \<Rightarrow> bool" where
  step: "run_transition p t g = (Inr c, t) \<Longrightarrow> run_step p g t"

inductive run_path :: "AgentRunState \<Rightarrow> (RunGuards \<times> AgentRunState) list \<Rightarrow> AgentRunState \<Rightarrow> bool" where
  nil: "run_path p [] p"
| cons: "run_step p g q \<Longrightarrow> run_path q tr r \<Longrightarrow> run_path p ((g, q) # tr) r"

inductive_cases run_path_ConsE [elim!]: "run_path p (x # tr) r"
inductive_cases run_path_NilE [elim!]: "run_path p [] r"
inductive_simps run_step_iff: "run_step p g t"

text \<open>The guard as one condition.\<close>

definition run_allowed :: "AgentRunState \<Rightarrow> AgentRunState \<Rightarrow> RunGuards \<Rightarrow> bool" where
  "run_allowed p t g \<longleftrightarrow> \<not> is_terminal p \<and> legal_edge p t
     \<and> (t = AwaitingPermission \<longrightarrow> unresolved_permissions g \<noteq> 0)
     \<and> (t = ExecutingTools \<longrightarrow> unresolved_permissions g = 0 \<and> executable_tool_calls g \<noteq> 0)
     \<and> (p = AwaitingPermission \<and> t = Generating \<longrightarrow> unresolved_permissions g = 0)
     \<and> (t \<in> {Completing, Completed} \<longrightarrow> unresolved_tool_calls g = 0 \<and> unresolved_permissions g = 0)"

lemma run_transition_ok:
  "run_allowed p t g \<Longrightarrow> run_transition p t g = (Inr \<lparr>previous = p, current = t, reason = None\<rparr>, t)"
  unfolding run_allowed_def run_transition_def Let_def by auto

lemma run_transition_err:
  "\<not> run_allowed p t g \<Longrightarrow> \<exists>w. run_transition p t g = (Inl \<lparr>it_previous = p, it_target = t, it_reason = w\<rparr>, p)"
  unfolding run_allowed_def run_transition_def Let_def
  by (cases "is_terminal p"; cases "legal_edge p t"; cases "unresolved_permissions g = 0";
      cases "executable_tool_calls g = 0"; cases "unresolved_tool_calls g = 0"; simp; blast)

lemma run_step_iff_allowed: "run_step p g t \<longleftrightarrow> run_allowed p t g"
  using run_transition_ok [of p t g] run_transition_err [of p t g]
  by (cases "run_allowed p t g") (auto simp: run_step_iff)

lemma run_step_legal: "run_step p g t \<Longrightarrow> \<not> is_terminal p \<and> legal_edge p t"
  by (simp add: run_step_iff_allowed run_allowed_def)

lemma terminal_no_step: "is_terminal p \<Longrightarrow> \<not> run_step p g t"
  using run_step_legal by blast

text \<open>How far a state is along the only way to completion.\<close>

fun run_stage :: "AgentRunState \<Rightarrow> nat" where
  "run_stage Created = 0"
| "run_stage Preparing = 1"
| "run_stage Completing = 3"
| "run_stage Completed = 4"
| "run_stage _ = 2"

lemma legal_edge_pred:
  "legal_edge p Completed \<Longrightarrow> p = Completing"
  "legal_edge p Completing \<Longrightarrow> p = Verifying"
  "legal_edge p Verifying \<Longrightarrow> p \<in> {Generating, ExecutingTools}"
  "legal_edge p Generating \<Longrightarrow> p \<in> {Preparing, AwaitingPermission, ExecutingTools, Verifying}"
  by (cases p; simp add: legal_edge_def)+

lemma run_path_snoc: "run_path p (tr @ [(g, q)]) r \<longleftrightarrow> r = q \<and> (\<exists>m. run_path p tr m \<and> run_step m g q)"
  by (induction tr arbitrary: p) (auto intro: run_path.intros, metis run_path.cons)

text \<open>The visited states end with the final one, and completion is reached through the last two stages.\<close>

lemma run_path_last: "run_path p tr r \<Longrightarrow> tr \<noteq> [] \<Longrightarrow> snd (last tr) = r"
  by (induction rule: run_path.induct) (auto elim: run_path.cases)

lemma run_path_step_in:
  assumes "run_path p tr r" "r \<noteq> p"
  obtains tr' g m where "tr = tr' @ [(g, r)]" "run_path p tr' m" "run_step m g r"
proof (cases tr rule: rev_cases)
  case Nil
  then show thesis using assms by auto
next
  case (snoc tr' x)
  then show thesis using assms that by (cases x) (auto simp: run_path_snoc)
qed

lemma completed_path:
  assumes "run_path Created tr Completed"
  obtains tr' g1 g2 where "tr = tr' @ [(g1, Completing), (g2, Completed)]" "run_path Created tr' Verifying"
    "run_step Verifying g1 Completing" "run_step Completing g2 Completed"
proof -
  obtain tr1 g2 m where 1: "tr = tr1 @ [(g2, Completed)]" "run_path Created tr1 m" "run_step m g2 Completed"
    by (rule run_path_step_in [OF assms]) auto
  then have m: "m = Completing" using run_step_legal legal_edge_pred by blast
  obtain tr2 g1 n where 2: "tr1 = tr2 @ [(g1, m)]" "run_path Created tr2 n" "run_step n g1 m"
    by (rule run_path_step_in [OF 1(2)]) (use m in auto)
  then have "n = Verifying" using run_step_legal legal_edge_pred m by blast
  then show thesis using that 1 2 m by auto
qed

lemma generating_visited:
  assumes "run_path Created tr s" "s \<notin> {Created, Preparing, Cancelled, Failed, Interrupted}"
  shows "Generating \<in> snd ` set tr"
  using assms
proof (induction tr arbitrary: s rule: rev_induct)
  case (snoc x tr)
  then obtain g m where x: "x = (g, s)" and m: "run_path Created tr m" "run_step m g s"
    by (cases x) (auto simp: run_path_snoc)
  have e: "legal_edge m s" "\<not> is_terminal m" using m(2) run_step_legal by auto
  show ?case
  proof (cases "s = Generating")
    case False
    then have "m \<notin> {Created, Preparing, Cancelled, Failed, Interrupted}"
      using e snoc.prems(2) by (cases m; simp add: legal_edge_def)
    then show ?thesis using snoc.IH m(1) by simp
  qed (simp add: x)
qed auto

text \<open>Liveness: from every state that is not terminal the run can be brought to completion.\<close>

abbreviation idle_guards :: RunGuards where
  "idle_guards \<equiv> \<lparr>unresolved_tool_calls = 0, unresolved_permissions = 0, executable_tool_calls = 0\<rparr>"

lemma idle_step:
  "run_step Created idle_guards Preparing" "run_step Preparing idle_guards Generating"
  "run_step Generating idle_guards Verifying" "run_step AwaitingPermission idle_guards Generating"
  "run_step ExecutingTools idle_guards Verifying" "run_step Verifying idle_guards Completing"
  "run_step Completing idle_guards Completed"
  by (simp_all add: run_step_iff run_transition_def legal_edge_def)

lemma can_complete: "\<not> is_terminal p \<Longrightarrow> \<exists>tr. run_path p tr Completed"
proof -
  have *: "\<exists>tr. run_path p tr Completed" if "run_step p idle_guards q" "\<exists>tr. run_path q tr Completed" for p q
    using that run_path.cons by blast
  have c: "\<exists>tr. run_path Completing tr Completed" by (rule *, rule idle_step) (blast intro: run_path.nil)
  have v: "\<exists>tr. run_path Verifying tr Completed" by (rule *, rule idle_step) (rule c)
  have g: "\<exists>tr. run_path Generating tr Completed" by (rule *, rule idle_step) (rule v)
  have r: "\<exists>tr. run_path Preparing tr Completed" by (rule *, rule idle_step) (rule g)
  assume "\<not> is_terminal p"
  then show ?thesis using c v g r * [OF idle_step(1)] * [OF idle_step(4)] * [OF idle_step(5)] by (cases p) auto
qed

end
