(* ===== verification/Run_Store.thy ===== *)
theory Run_Store
  imports Run_State
begin

text \<open>
  The durable runs and their event log (\<open>storage/repositories/runs.rs\<close>, \<open>runs/*.rs\<close>, \<open>events.rs\<close> over the tables
  of \<open>0011_agent_runs.sql\<close>).  A table is the list of its rows in insertion order; an immediate transaction is a
  function on the database whose error leaves the database as it was.  UUIDs are held in canonical text;
  \<open>uuid\<close>, \<open>chrono\<close> and \<open>serde_json\<close> are the fields of \<open>run_lib\<close>.  The sequence column is unbounded here (SQLite
  holds 63 bits).
\<close>

record run_lib =
  rl_uuid :: "rstr \<Rightarrow> uuid option"                        \<comment> \<open>\<open>Uuid::parse_str\<close>\<close>
  rl_time :: "rstr \<Rightarrow> int option"                         \<comment> \<open>\<open>DateTime::parse_from_rfc3339\<close>, in UTC\<close>
  rl_text :: "int \<Rightarrow> rstr"                                \<comment> \<open>\<open>to_rfc3339_opts(Nanos, true)\<close>\<close>
  rl_encode :: "AgentEventEnvelope \<Rightarrow> rstr option"         \<comment> \<open>\<open>serde_json::to_string\<close>\<close>
  rl_decode :: "rstr \<Rightarrow> AgentEventEnvelope option"         \<comment> \<open>\<open>serde_json::from_str\<close>\<close>

datatype StorageError = StorageError (se_code: string)

record NewAgentRun =
  nr_id :: uuid
  nr_workspace_id :: rstr
  nr_conversation_id :: uuid
  nr_user_message_id :: uuid
  nr_event_id :: uuid
  nr_timestamp :: int

record AgentRunRecord =
  ar_id :: uuid
  ar_workspace_id :: rstr
  ar_conversation_id :: uuid
  ar_user_message_id :: uuid
  ar_state :: AgentRunState
  ar_next_sequence :: nat
  ar_created_at :: int
  ar_updated_at :: int
  ar_completed_at :: "int option"

record RawRun =
  rr_id :: rstr
  rr_workspace_id :: rstr
  rr_conversation_id :: rstr
  rr_user_message_id :: rstr
  rr_state :: rstr
  rr_next_sequence :: int
  rr_created_at :: rstr
  rr_updated_at :: rstr
  rr_completed_at :: "rstr option"

record PersistedEvent =
  ev_event_id :: rstr
  ev_workspace_id :: rstr
  ev_run_id :: rstr
  ev_conversation_id :: rstr
  ev_sequence :: int
  ev_protocol_version :: int
  ev_timestamp :: rstr
  ev_json :: rstr

text \<open>The parts of the database the runs use: conversations \<open>(workspace, id)\<close> and messages
  \<open>(workspace, conversation, id, role)\<close> belong to the conversation store and are only read.\<close>

record run_db =
  conversations :: "(rstr \<times> rstr) list"
  messages :: "(rstr \<times> rstr \<times> rstr \<times> rstr) list"
  agent_runs :: "RawRun list"
  agent_run_events :: "PersistedEvent list"

type_synonym 'a run_tx = "run_db \<Rightarrow> (StorageError, 'a \<times> run_db) result"
type_synonym 'a run_io = "run_db \<Rightarrow> (StorageError, 'a) result \<times> run_db"

definition in_transaction :: "'a run_tx \<Rightarrow> 'a run_io" where
  "in_transaction f db = (case f db of Inl e \<Rightarrow> (Inl e, db) | Inr (x, db') \<Rightarrow> (Inr x, db'))"

section \<open>Encoding\<close>

fun outcome_state :: "RunOutcome \<Rightarrow> AgentRunState" where
  "outcome_state OutcomeCompleted = Completed"
| "outcome_state OutcomeCancelled = Cancelled"
| "outcome_state OutcomeFailed = Failed"
| "outcome_state OutcomeInterrupted = Interrupted"

fun state_text :: "AgentRunState \<Rightarrow> rstr" where
  "state_text Created = str ''created''"
| "state_text Preparing = str ''preparing''"
| "state_text Generating = str ''generating''"
| "state_text AwaitingPermission = str ''awaiting_permission''"
| "state_text ExecutingTools = str ''executing_tools''"
| "state_text Verifying = str ''verifying''"
| "state_text Completing = str ''completing''"
| "state_text Completed = str ''completed''"
| "state_text Cancelled = str ''cancelled''"
| "state_text Failed = str ''failed''"
| "state_text Interrupted = str ''interrupted''"

definition run_states :: "AgentRunState list" where
  "run_states = [Created, Preparing, Generating, AwaitingPermission, ExecutingTools, Verifying, Completing,
     Completed, Cancelled, Failed, Interrupted]"

definition parse_state :: "rstr \<Rightarrow> (StorageError, AgentRunState) result" where
  "parse_state v =
     (if v = str ''created'' then Inr Created
      else if v = str ''preparing'' then Inr Preparing
      else if v = str ''generating'' then Inr Generating
      else if v = str ''awaiting_permission'' then Inr AwaitingPermission
      else if v = str ''executing_tools'' then Inr ExecutingTools
      else if v = str ''verifying'' then Inr Verifying
      else if v = str ''completing'' then Inr Completing
      else if v = str ''completed'' then Inr Completed
      else if v = str ''cancelled'' then Inr Cancelled
      else if v = str ''failed'' then Inr Failed
      else if v = str ''interrupted'' then Inr Interrupted
      else Inl (StorageError ''agent_run_decode_failed''))"

definition validate_workspace :: "rstr \<Rightarrow> (StorageError, unit) result" where
  "validate_workspace ws =
     (if trim ws = [] \<or> trim ws \<noteq> ws then Inl (StorageError ''agent_workspace_invalid'') else Inr ())"

abbreviation run_decode_error :: StorageError where
  "run_decode_error \<equiv> StorageError ''agent_run_decode_failed''"

abbreviation run_storage_error :: StorageError where
  "run_storage_error \<equiv> StorageError ''agent_run_storage_failed''"

abbreviation event_decode_error :: StorageError where
  "event_decode_error \<equiv> StorageError ''agent_event_decode_failed''"

abbreviation event_storage_error :: StorageError where
  "event_storage_error \<equiv> StorageError ''agent_event_storage_failed''"

definition parse_timestamp :: "run_lib \<Rightarrow> rstr \<Rightarrow> (StorageError, int) result" where
  "parse_timestamp L v = ok_or run_decode_error (rl_time L v)"

definition decode_run :: "run_lib \<Rightarrow> RawRun \<Rightarrow> (StorageError, AgentRunRecord) result" where
  "decode_run L raw =
     rbind (ok_or run_decode_error (rl_uuid L (rr_id raw))) (\<lambda>i.
     rbind (ok_or run_decode_error (rl_uuid L (rr_conversation_id raw))) (\<lambda>c.
     rbind (ok_or run_decode_error (rl_uuid L (rr_user_message_id raw))) (\<lambda>m.
     rbind (parse_state (rr_state raw)) (\<lambda>st.
     rbind (ensure (0 \<le> rr_next_sequence raw) run_decode_error) (\<lambda>_.
     rbind (parse_timestamp L (rr_created_at raw)) (\<lambda>ca.
     rbind (parse_timestamp L (rr_updated_at raw)) (\<lambda>ua.
     rbind (case rr_completed_at raw of None \<Rightarrow> Inr None
            | Some v \<Rightarrow> rbind (parse_timestamp L v) (\<lambda>t. Inr (Some t))) (\<lambda>fa.
     Inr \<lparr>ar_id = i, ar_workspace_id = rr_workspace_id raw, ar_conversation_id = c, ar_user_message_id = m,
       ar_state = st, ar_next_sequence = nat (rr_next_sequence raw), ar_created_at = ca, ar_updated_at = ua,
       ar_completed_at = fa\<rparr>))))))))"

definition is_run :: "rstr \<Rightarrow> uuid \<Rightarrow> RawRun \<Rightarrow> bool" where
  "is_run ws rid r \<longleftrightarrow> rr_workspace_id r = ws \<and> rr_id r = rid"

definition run_read :: "run_lib \<Rightarrow> rstr \<Rightarrow> uuid \<Rightarrow> run_db \<Rightarrow> (StorageError, AgentRunRecord option) result" where
  "run_read L ws rid db =
     (case find (is_run ws rid) (agent_runs db) of
        None \<Rightarrow> Inr None
      | Some raw \<Rightarrow> rbind (decode_run L raw) (\<lambda>r. Inr (Some r)))"

definition read_run :: "run_lib \<Rightarrow> string \<Rightarrow> rstr \<Rightarrow> uuid \<Rightarrow> run_db \<Rightarrow> (StorageError, AgentRunRecord) result" where
  "read_run L code ws rid db = rbind (run_read L ws rid db) (ok_or (StorageError code))"

section \<open>The tables\<close>

definition run_checks :: "RawRun \<Rightarrow> bool" where
  "run_checks r \<longleftrightarrow> rr_state r \<in> set (map state_text run_states) \<and> 1 \<le> rr_next_sequence r
     \<and> (rr_state r \<in> set (map state_text [Completed, Cancelled, Failed, Interrupted])) = (rr_completed_at r \<noteq> None)"

definition update_runs :: "(RawRun \<Rightarrow> bool) \<Rightarrow> (RawRun \<Rightarrow> RawRun) \<Rightarrow> run_db \<Rightarrow> (nat \<times> run_db) option" where
  "update_runs P f db =
     (let hit = filter P (agent_runs db)
      in if list_all run_checks (map f hit)
         then Some (length hit, db\<lparr>agent_runs := map (\<lambda>r. if P r then f r else r) (agent_runs db)\<rparr>) else None)"

definition insert_run :: "RawRun \<Rightarrow> run_db \<Rightarrow> (StorageError, run_db) result" where
  "insert_run r db =
     (if \<not> run_checks r then Inl run_storage_error
      else if rr_id r \<in> set (map rr_id (agent_runs db)) then Inl (StorageError ''agent_run_duplicate'')
      else if (rr_workspace_id r, rr_conversation_id r) \<notin> set (conversations db)
        \<or> (rr_workspace_id r, rr_conversation_id r, rr_user_message_id r)
             \<notin> (\<lambda>(w, c, i, _). (w, c, i)) ` set (messages db) then Inl run_storage_error
      else Inr (db\<lparr>agent_runs := agent_runs db @ [r]\<rparr>))"

definition insert_event :: "PersistedEvent \<Rightarrow> run_db \<Rightarrow> (StorageError, run_db) result" where
  "insert_event v db =
     (if ev_sequence v \<le> 0 \<or> ev_protocol_version v \<le> 0 \<or> ev_json v = [] then Inl event_storage_error
      else if ev_event_id v \<in> set (map ev_event_id (agent_run_events db))
      then Inl (StorageError ''agent_event_duplicate'')
      else if (\<exists>w \<in> set (agent_run_events db). ev_run_id w = ev_run_id v \<and> ev_sequence w = ev_sequence v)
        \<or> \<not> (\<exists>r \<in> set (agent_runs db). rr_workspace_id r = ev_workspace_id v \<and> rr_id r = ev_run_id v
               \<and> rr_conversation_id r = ev_conversation_id v) then Inl event_storage_error
      else Inr (db\<lparr>agent_run_events := agent_run_events db @ [v]\<rparr>))"

section \<open>The event log\<close>

definition persist :: "run_lib \<Rightarrow> rstr \<Rightarrow> AgentEventEnvelope \<Rightarrow> rstr \<Rightarrow> PersistedEvent" where
  "persist L ws e j = \<lparr>ev_event_id = event_id e, ev_workspace_id = ws, ev_run_id = run_id e,
     ev_conversation_id = conversation_id e, ev_sequence = int (sequence e),
     ev_protocol_version = int (protocol_version e), ev_timestamp = rl_text L (timestamp e), ev_json = j\<rparr>"

definition append_in_transaction ::
  "run_lib \<Rightarrow> rstr \<Rightarrow> uuid \<Rightarrow> uuid \<Rightarrow> int \<Rightarrow> AgentEventData \<Rightarrow> AgentEventEnvelope run_tx" where
  "append_in_transaction L ws rid eid t d db =
     rbind (validate_workspace ws) (\<lambda>_.
     rbind (ok_or (StorageError ''agent_run_not_found'') (find (is_run ws rid) (agent_runs db))) (\<lambda>r.
     rbind (ok_or event_decode_error (rl_uuid L (rr_conversation_id r))) (\<lambda>c.
     rbind (ensure (0 \<le> rr_next_sequence r) event_decode_error) (\<lambda>_.
     let e = \<lparr>protocol_version = PROTOCOL_VERSION, event_id = eid, run_id = rid, conversation_id = c,
              sequence = nat (rr_next_sequence r), timestamp = t, data = d\<rparr> in
     rbind (ok_or (StorageError ''agent_event_encode_failed'') (rl_encode L e)) (\<lambda>j.
     rbind (insert_event (persist L ws e j) db) (\<lambda>db1.
     rbind (ok_or event_storage_error
              (update_runs (\<lambda>x. is_run ws rid x \<and> rr_next_sequence x = rr_next_sequence r)
                 (\<lambda>x. x\<lparr>rr_next_sequence := rr_next_sequence x + 1, rr_updated_at := rl_text L t\<rparr>) db1)) (\<lambda>(n, db2).
     rbind (ensure (n = 1) (StorageError ''agent_sequence_conflict'')) (\<lambda>_.
     Inr (e, db2)))))))))"

fun is_state_event :: "AgentEventData \<Rightarrow> bool" where
  "is_state_event (RunCreated _) = True"
| "is_state_event (RunStateChanged _) = True"
| "is_state_event (RunCompleted _) = True"
| "is_state_event _ = False"

definition append_event :: "run_lib \<Rightarrow> rstr \<Rightarrow> uuid \<Rightarrow> uuid \<Rightarrow> int \<Rightarrow> AgentEventData \<Rightarrow> AgentEventEnvelope run_io" where
  "append_event L ws rid eid t d db =
     (if is_state_event d then (Inl (StorageError ''agent_state_event_requires_run_repository''), db)
      else in_transaction (append_in_transaction L ws rid eid t d) db)"

definition decode_event :: "run_lib \<Rightarrow> uuid \<Rightarrow> PersistedEvent \<Rightarrow> (StorageError, AgentEventEnvelope) result" where
  "decode_event L rid p =
     rbind (ok_or event_decode_error (rl_decode L (ev_json p))) (\<lambda>e.
     rbind (ensure (0 \<le> ev_sequence p) event_decode_error) (\<lambda>_.
     rbind (ensure (0 \<le> ev_protocol_version p \<and> ev_protocol_version p < 65536) event_decode_error) (\<lambda>_.
     rbind (ok_or event_decode_error (rl_uuid L (ev_event_id p))) (\<lambda>eid.
     rbind (ok_or event_decode_error (rl_uuid L (ev_conversation_id p))) (\<lambda>c.
     rbind (ok_or event_decode_error (rl_time L (ev_timestamp p))) (\<lambda>t.
     if event_id e \<noteq> eid \<or> run_id e \<noteq> rid \<or> conversation_id e \<noteq> c \<or> sequence e \<noteq> nat (ev_sequence p)
       \<or> protocol_version e \<noteq> nat (ev_protocol_version p) \<or> timestamp e \<noteq> t
     then Inl (StorageError ''agent_event_corrupt'') else Inr e))))))"

definition I64_MAX :: nat where
  "I64_MAX = 2 ^ 63 - 1"

definition replay :: "run_lib \<Rightarrow> rstr \<Rightarrow> uuid \<Rightarrow> nat \<Rightarrow> run_db \<Rightarrow> (StorageError, AgentEventEnvelope list) result" where
  "replay L ws rid after db =
     rbind (validate_workspace ws) (\<lambda>_.
     rbind (ensure (find (is_run ws rid) (agent_runs db) \<noteq> None) (StorageError ''agent_run_not_found'')) (\<lambda>_.
     rbind (ensure (after \<le> I64_MAX) (StorageError ''agent_sequence_invalid'')) (\<lambda>_.
     try_map (decode_event L rid)
       (sort_by (\<lambda>v w. ev_sequence v \<le> ev_sequence w)
         (filter (\<lambda>v. ev_workspace_id v = ws \<and> ev_run_id v = rid \<and> int after < ev_sequence v) (agent_run_events db))))))"

section \<open>The runs\<close>

definition create_in_transaction :: "run_lib \<Rightarrow> NewAgentRun \<Rightarrow> (AgentRunRecord \<times> AgentEventEnvelope) run_tx" where
  "create_in_transaction L n db =
     rbind (validate_workspace (nr_workspace_id n)) (\<lambda>_.
     rbind (ensure ((nr_workspace_id n, nr_conversation_id n) \<in> set (conversations db)
              \<and> (nr_workspace_id n, nr_conversation_id n, nr_user_message_id n, str ''user'') \<in> set (messages db))
              (StorageError ''agent_user_message_not_found'')) (\<lambda>_.
     let ts = rl_text L (nr_timestamp n) in
     rbind (insert_run \<lparr>rr_id = nr_id n, rr_workspace_id = nr_workspace_id n, rr_conversation_id = nr_conversation_id n,
         rr_user_message_id = nr_user_message_id n, rr_state = str ''created'', rr_next_sequence = 1,
         rr_created_at = ts, rr_updated_at = ts, rr_completed_at = None\<rparr> db) (\<lambda>db1.
     rbind (append_in_transaction L (nr_workspace_id n) (nr_id n) (nr_event_id n) (nr_timestamp n)
         (RunCreated \<lparr>rc_state = Created, rc_user_message_id = nr_user_message_id n\<rparr>) db1) (\<lambda>(e, db2).
     rbind (read_run L ''agent_run_storage_failed'' (nr_workspace_id n) (nr_id n) db2) (\<lambda>r.
     Inr ((r, e), db2))))))"

definition create_run :: "run_lib \<Rightarrow> NewAgentRun \<Rightarrow> (AgentRunRecord \<times> AgentEventEnvelope) run_io" where
  "create_run L n = in_transaction (create_in_transaction L n)"

definition get_run :: "run_lib \<Rightarrow> rstr \<Rightarrow> uuid \<Rightarrow> run_db \<Rightarrow> (StorageError, AgentRunRecord option) result" where
  "get_run L ws rid db = rbind (validate_workspace ws) (\<lambda>_. run_read L ws rid db)"

definition list_nonterminal :: "run_lib \<Rightarrow> rstr \<Rightarrow> int option \<Rightarrow> run_db \<Rightarrow> (StorageError, AgentRunRecord list) result" where
  "list_nonterminal L ws updated_before db =
     rbind (validate_workspace ws) (\<lambda>_.
     try_map (decode_run L)
       (sort_by (\<lambda>x y. (rr_updated_at x, rr_id x) \<le> (rr_updated_at y, rr_id y))
         (filter (\<lambda>r. rr_workspace_id r = ws
             \<and> rr_state r \<notin> set (map state_text [Completed, Cancelled, Failed, Interrupted])
             \<and> (case updated_before of None \<Rightarrow> True | Some t \<Rightarrow> rr_updated_at r \<le> rl_text L t)) (agent_runs db))))"

text \<open>The guarded update of a run's state, \<open>WHERE state = previous\<close>.\<close>

definition set_state :: "run_lib \<Rightarrow> string \<Rightarrow> rstr \<Rightarrow> uuid \<Rightarrow> AgentRunState \<Rightarrow> AgentRunState \<Rightarrow> int \<Rightarrow> bool \<Rightarrow> unit run_tx" where
  "set_state L conflict ws rid p c t finishing db =
     rbind (ok_or run_storage_error
       (update_runs (\<lambda>x. is_run ws rid x \<and> rr_state x = state_text p)
          (\<lambda>x. x\<lparr>rr_state := state_text c, rr_updated_at := rl_text L t,
                 rr_completed_at := (if finishing then Some (rl_text L t) else rr_completed_at x)\<rparr>) db)) (\<lambda>(n, db1).
     rbind (ensure (n = 1) (StorageError conflict)) (\<lambda>_. Inr ((), db1)))"

definition run_transition_tx ::
  "run_lib \<Rightarrow> rstr \<Rightarrow> uuid \<Rightarrow> run_state_changed \<Rightarrow> int \<Rightarrow> uuid \<Rightarrow> (AgentRunRecord \<times> AgentEventEnvelope) run_tx" where
  "run_transition_tx L ws rid changed t eid db =
     rbind (read_run L ''agent_run_not_found'' ws rid db) (\<lambda>cur.
     rbind (ensure (ar_state cur = previous changed) (StorageError ''agent_run_state_conflict'')) (\<lambda>_.
     rbind (set_state L ''agent_run_state_conflict'' ws rid (previous changed) (current changed) t False db) (\<lambda>(_, db1).
     rbind (append_in_transaction L ws rid eid t (RunStateChanged changed) db1) (\<lambda>(e, db2).
     rbind (read_run L ''agent_run_storage_failed'' ws rid db2) (\<lambda>r.
     Inr ((r, e), db2))))))"

definition run_store_transition ::
  "run_lib \<Rightarrow> rstr \<Rightarrow> uuid \<Rightarrow> run_state_changed \<Rightarrow> int \<Rightarrow> uuid \<Rightarrow> (AgentRunRecord \<times> AgentEventEnvelope) run_io" where
  "run_store_transition L ws rid changed t eid db =
     (case validate_workspace ws of
        Inl err \<Rightarrow> (Inl err, db)
      | Inr _ \<Rightarrow>
          if is_terminal (previous changed) then (Inl (StorageError ''agent_run_terminal_transition_rejected''), db)
          else if is_terminal (current changed)
          then (Inl (StorageError ''agent_run_terminal_transition_requires_finish''), db)
          else in_transaction (run_transition_tx L ws rid changed t eid) db)"

definition run_finish_tx ::
  "run_lib \<Rightarrow> rstr \<Rightarrow> uuid \<Rightarrow> run_state_changed \<Rightarrow> RunOutcome \<Rightarrow> uuid option \<Rightarrow> int \<Rightarrow> uuid \<Rightarrow> uuid
     \<Rightarrow> AgentEventEnvelope list run_tx" where
  "run_finish_tx L ws rid changed out amid t eid1 eid2 db =
     rbind (read_run L ''agent_run_not_found'' ws rid db) (\<lambda>cur.
     rbind (ensure (ar_state cur = previous changed) (StorageError ''agent_run_state_conflict'')) (\<lambda>_.
     rbind (set_state L ''agent_run_state_conflict'' ws rid (previous changed) (current changed) t True db) (\<lambda>(_, db1).
     rbind (append_in_transaction L ws rid eid1 t (RunStateChanged changed) db1) (\<lambda>(e1, db2).
     rbind (append_in_transaction L ws rid eid2 t
              (RunCompleted \<lparr>outcome = out, assistant_message_id = amid\<rparr>) db2) (\<lambda>(e2, db3).
     Inr ([e1, e2], db3))))))"

definition run_store_finish ::
  "run_lib \<Rightarrow> rstr \<Rightarrow> uuid \<Rightarrow> run_state_changed \<Rightarrow> RunOutcome \<Rightarrow> uuid option \<Rightarrow> int \<Rightarrow> uuid \<Rightarrow> uuid
     \<Rightarrow> AgentEventEnvelope list run_io" where
  "run_store_finish L ws rid changed out amid t eid1 eid2 db =
     (case validate_workspace ws of
        Inl err \<Rightarrow> (Inl err, db)
      | Inr _ \<Rightarrow>
          if is_terminal (previous changed) then (Inl (StorageError ''agent_run_terminal_completion_rejected''), db)
          else if \<not> is_terminal (current changed) \<or> outcome_state out \<noteq> current changed
          then (Inl (StorageError ''agent_run_completion_mismatch''), db)
          else in_transaction (run_finish_tx L ws rid changed out amid t eid1 eid2) db)"

definition run_complete_tx ::
  "run_lib \<Rightarrow> rstr \<Rightarrow> uuid \<Rightarrow> uuid \<Rightarrow> int \<Rightarrow> RunOutcome \<Rightarrow> uuid option \<Rightarrow> (AgentRunRecord \<times> AgentEventEnvelope) run_tx" where
  "run_complete_tx L ws rid eid t out amid db =
     rbind (read_run L ''agent_run_not_found'' ws rid db) (\<lambda>cur.
     rbind (ensure (ar_state cur = Completing) (StorageError ''agent_run_not_completing'')) (\<lambda>_.
     rbind (set_state L ''agent_run_not_completing'' ws rid Completing (outcome_state out) t True db) (\<lambda>(_, db1).
     rbind (append_in_transaction L ws rid eid t
              (RunCompleted \<lparr>outcome = out, assistant_message_id = amid\<rparr>) db1) (\<lambda>(e, db2).
     rbind (read_run L ''agent_run_storage_failed'' ws rid db2) (\<lambda>r.
     Inr ((r, e), db2))))))"

definition run_store_complete ::
  "run_lib \<Rightarrow> rstr \<Rightarrow> uuid \<Rightarrow> uuid \<Rightarrow> int \<Rightarrow> RunOutcome \<Rightarrow> uuid option \<Rightarrow> (AgentRunRecord \<times> AgentEventEnvelope) run_io" where
  "run_store_complete L ws rid eid t out amid db =
     (case validate_workspace ws of
        Inl err \<Rightarrow> (Inl err, db)
      | Inr _ \<Rightarrow> in_transaction (run_complete_tx L ws rid eid t out amid) db)"

end
