(* ===== verification/Run_Log.thy ===== *)
theory Run_Log
  imports Run_Store
begin

text \<open>
  The invariant of the run store: the events of a run are numbered \<open>1, 2, ...\<close> without gaps up to its
  \<open>next_sequence\<close>, every stored row decodes, and folding the log gives the stored state (\<open>run_ok\<close>).  Every
  operation keeps it; a terminal run keeps its state for ever.
\<close>

section \<open>Assumptions on the libraries\<close>

text \<open>The instants RFC 3339 can express, the years 0 to 9999, in nanoseconds since the epoch.\<close>

definition rfc3339_instant :: "int \<Rightarrow> bool" where
  "rfc3339_instant t \<longleftrightarrow> - 62167219200 * 10 ^ 9 \<le> t \<and> t < 253402300800 * 10 ^ 9"

text \<open>The JSON values an event carries.  \<open>serde_json\<close> writes values of any depth but refuses to read more than 128 levels; the
  envelope takes at most six of them.\<close>

fun event_values :: "AgentEventData \<Rightarrow> json list" where
  "event_values (ToolRequested q) = [tq_arguments q]"
| "event_values (ToolCompleted c) = List.map_filter id [tc_output c, Option.bind (tc_error c) ae_details]"
| "event_values (ErrorRaised e _) = List.map_filter id [ae_details e]"
| "event_values _ = []"

fun json_depth :: "json \<Rightarrow> nat" where
  "json_depth (JArray vs) = Suc (foldr max (map json_depth vs) 0)"
| "json_depth (JObject fs) = Suc (foldr max (map json_depth (map snd fs)) 0)"
| "json_depth _ = 0"

definition MAX_VALUE_DEPTH :: nat where
  "MAX_VALUE_DEPTH = 120"

definition readable :: "int \<Rightarrow> AgentEventData \<Rightarrow> bool" where
  "readable t d \<longleftrightarrow> rfc3339_instant t \<and> list_all (\<lambda>v. json_depth v \<le> MAX_VALUE_DEPTH) (event_values d)"

text \<open>Reading back may change the JSON values (\<open>Some(Null)\<close> is read as \<open>None\<close>, a float may be rounded), and nothing else.\<close>

fun erase_values :: "AgentEventData \<Rightarrow> AgentEventData" where
  "erase_values (ToolRequested q) = ToolRequested (q\<lparr>tq_arguments := JNull\<rparr>)"
| "erase_values (ToolCompleted c) =
     ToolCompleted (c\<lparr>tc_output := None, tc_error := map_option (\<lambda>e. e\<lparr>ae_details := None\<rparr>) (tc_error c)\<rparr>)"
| "erase_values (ErrorRaised e fatal) = ErrorRaised (e\<lparr>ae_details := None\<rparr>) fatal"
| "erase_values d = d"

definition same_event :: "AgentEventEnvelope \<Rightarrow> AgentEventEnvelope \<Rightarrow> bool" where
  "same_event e e' \<longleftrightarrow> e'\<lparr>data := erase_values (data e')\<rparr> = e\<lparr>data := erase_values (data e)\<rparr>"

text \<open>\<open>chrono\<close> reads back the instants it wrote, \<open>serde_json\<close> the events up to their JSON values.\<close>

definition run_lib_ok :: "run_lib \<Rightarrow> bool" where
  "run_lib_ok L \<longleftrightarrow> (\<forall>t. rfc3339_instant t \<longrightarrow> rl_time L (rl_text L t) = Some t)
     \<and> (\<forall>e j. readable (timestamp e) (data e) \<longrightarrow> rl_encode L e = Some j \<longrightarrow> (\<exists>e'. rl_decode L j = Some e' \<and> same_event e e'))"

lemma readable_instant: "readable t d \<Longrightarrow> rfc3339_instant t"
  by (simp add: readable_def)

lemma readable_plain: "rfc3339_instant t \<Longrightarrow> event_values d = [] \<Longrightarrow> readable t d"
  by (simp add: readable_def)

lemma same_event_fields:
  assumes "same_event e e'"
  shows "protocol_version e' = protocol_version e" "event_id e' = event_id e" "run_id e' = run_id e"
    "conversation_id e' = conversation_id e" "sequence e' = sequence e" "timestamp e' = timestamp e"
    "erase_values (data e') = erase_values (data e)"
  using assms by (cases e; cases e'; simp add: same_event_def)+

text \<open>An event without JSON values is read back exactly.\<close>

lemma erase_values_exact: "event_values d = [] \<Longrightarrow> \<not> (\<exists>c. d = ToolCompleted c) \<Longrightarrow> \<not> (\<exists>e b. d = ErrorRaised e b) \<Longrightarrow> erase_values d' = erase_values d \<Longrightarrow> d' = d"
  by (cases d; cases d') simp_all

lemma same_event_exact:
  assumes "same_event e e'" "event_values (data e) = []" "\<not> (\<exists>c. data e = ToolCompleted c)" "\<not> (\<exists>x b. data e = ErrorRaised x b)"
  shows "e' = e"
  using same_event_fields [OF assms(1)] erase_values_exact [OF assms(2-4)] by (cases e; cases e') simp

definition canonical :: "run_lib \<Rightarrow> uuid \<Rightarrow> bool" where
  "canonical L u \<longleftrightarrow> rl_uuid L u = Some u"

lemma parse_state_text [simp]: "parse_state (state_text s) = Inr s"
  by (cases s) (simp_all add: parse_state_def)

lemma state_text_inj: "state_text s = state_text t \<Longrightarrow> s = t"
  by (metis parse_state_text sum.inject(2))

lemma state_text_eq [simp]: "state_text s = state_text t \<longleftrightarrow> s = t"
  using state_text_inj by blast

lemma parse_state_Inr: "parse_state v = Inr s \<longleftrightarrow> v = state_text s"
proof
  assume "parse_state v = Inr s"
  then show "v = state_text s" unfolding parse_state_def by (simp split: if_splits; auto)
qed simp

lemma state_text_mem [simp]: "state_text s \<in> state_text ` S \<longleftrightarrow> s \<in> S"
  by auto

lemma run_states_all [simp]: "s \<in> set run_states"
  by (cases s) (simp_all add: run_states_def)

lemma terminal_texts:
  "state_text s \<in> set (map state_text [Completed, Cancelled, Failed, Interrupted]) \<longleftrightarrow> is_terminal s"
  by (cases s) (simp_all del: state_text.simps)

section \<open>The invariant\<close>

definition events_of :: "run_db \<Rightarrow> uuid \<Rightarrow> PersistedEvent list" where
  "events_of db rid = filter (\<lambda>v. ev_run_id v = rid) (agent_run_events db)"

fun next_state :: "AgentRunState option \<Rightarrow> AgentEventData \<Rightarrow> AgentRunState option" where
  "next_state s (RunCreated c) = Some (rc_state c)"
| "next_state s (RunStateChanged c) = Some (current c)"
| "next_state s (RunCompleted c) = Some (outcome_state (outcome c))"
| "next_state s _ = s"

lemma next_state_erase [simp]: "next_state s (erase_values d) = next_state s d"
  by (cases d) simp_all

lemma next_state_same: "same_event e e' \<Longrightarrow> next_state s (data e') = next_state s (data e)"
  by (metis next_state_erase same_event_fields(7))

definition derived_state :: "AgentEventEnvelope list \<Rightarrow> AgentRunState option" where
  "derived_state es = foldl next_state None (map data es)"

definition run_pre :: "run_lib \<Rightarrow> run_db \<Rightarrow> RawRun \<Rightarrow> AgentEventEnvelope list \<Rightarrow> bool" where
  "run_pre L db r es \<longleftrightarrow> run_checks r \<and> is_ok (decode_run L r) \<and> canonical L (rr_id r) \<and> canonical L (rr_conversation_id r)
     \<and> validate_workspace (rr_workspace_id r) = Inr ()
     \<and> map ev_sequence (events_of db (rr_id r)) = map int [1..<nat (rr_next_sequence r)]
     \<and> list_all (\<lambda>v. ev_workspace_id v = rr_workspace_id r) (events_of db (rr_id r))
     \<and> try_map (decode_event L (rr_id r)) (events_of db (rr_id r)) = Inr es"

definition run_ok :: "run_lib \<Rightarrow> run_db \<Rightarrow> RawRun \<Rightarrow> bool" where
  "run_ok L db r \<longleftrightarrow> (\<exists>es st. run_pre L db r es \<and> derived_state es = Some st \<and> rr_state r = state_text st)"

text \<open>Everything but the run \<open>rid\<close>.\<close>

definition store_frame :: "run_lib \<Rightarrow> run_db \<Rightarrow> uuid \<Rightarrow> bool" where
  "store_frame L db rid \<longleftrightarrow> distinct (map rr_id (agent_runs db))
     \<and> (\<forall>v \<in> set (agent_run_events db). ev_run_id v \<in> rr_id ` set (agent_runs db))
     \<and> (\<forall>r \<in> set (agent_runs db). rr_id r \<noteq> rid \<longrightarrow> run_ok L db r)"

definition run_store_ok :: "run_lib \<Rightarrow> run_db \<Rightarrow> bool" where
  "run_store_ok L db \<longleftrightarrow> distinct (map rr_id (agent_runs db))
     \<and> (\<forall>v \<in> set (agent_run_events db). ev_run_id v \<in> rr_id ` set (agent_runs db))
     \<and> (\<forall>r \<in> set (agent_runs db). run_ok L db r)"

lemma run_store_frame: "run_store_ok L db \<Longrightarrow> store_frame L db rid"
  by (simp add: run_store_ok_def store_frame_def)

lemma find_run:
  assumes "find (is_run ws rid) (agent_runs db) = Some r"
  shows "r \<in> set (agent_runs db)" "rr_id r = rid" "rr_workspace_id r = ws"
  using find_Some_split [OF assms] by (auto simp: is_run_def)

lemma find_run_iff:
  assumes "distinct (map rr_id (agent_runs db))"
  shows "find (is_run ws rid) (agent_runs db) = Some r \<longleftrightarrow> r \<in> set (agent_runs db) \<and> rr_id r = rid \<and> rr_workspace_id r = ws"
proof
  assume r: "r \<in> set (agent_runs db) \<and> rr_id r = rid \<and> rr_workspace_id r = ws"
  then obtain r' where r': "find (is_run ws rid) (agent_runs db) = Some r'"
    by (cases "find (is_run ws rid) (agent_runs db)") (auto simp: find_None_all is_run_def)
  with r assms show "find (is_run ws rid) (agent_runs db) = Some r"
    using find_run [OF r'] distinct_key_unique by metis
qed (use find_run in auto)

lemma run_store_okI:
  assumes f: "store_frame L db rid" and r: "find (is_run ws rid) (agent_runs db) = Some r" and ok: "run_ok L db r"
  shows "run_store_ok L db"
proof -
  have d: "distinct (map rr_id (agent_runs db))" using f by (simp add: store_frame_def)
  have "run_ok L db x" if "x \<in> set (agent_runs db)" for x
    using f ok that find_run [OF r] distinct_key_unique [OF d, of x r] by (cases "rr_id x = rid") (auto simp: store_frame_def)
  then show ?thesis using f by (auto simp: run_store_ok_def store_frame_def)
qed

lemma run_store_okD:
  assumes "run_store_ok L db" "find (is_run ws rid) (agent_runs db) = Some r"
  obtains es st where "run_pre L db r es" "derived_state es = Some st" "rr_state r = state_text st"
  using assms find_run [OF assms(2)] by (auto simp: run_store_ok_def run_ok_def)

section \<open>Replacing one run\<close>

definition put_run :: "RawRun \<Rightarrow> run_db \<Rightarrow> run_db" where
  "put_run r db = db\<lparr>agent_runs := map (\<lambda>x. if rr_id x = rr_id r then r else x) (agent_runs db)\<rparr>"

lemma put_run_simps [simp]:
  "conversations (put_run r db) = conversations db" "messages (put_run r db) = messages db"
  "agent_run_events (put_run r db) = agent_run_events db" "events_of (put_run r db) rid = events_of db rid"
  "map rr_id (agent_runs (put_run r db)) = map rr_id (agent_runs db)"
  by (auto simp: put_run_def events_of_def)

lemma put_run_ids [simp]: "rr_id ` set (agent_runs (put_run r db)) = rr_id ` set (agent_runs db)"
  by (metis put_run_simps(5) set_map)

lemma run_pre_put [simp]: "run_pre L (put_run r db) x es = run_pre L db x es"
  by (simp add: run_pre_def)

lemma put_run_find:
  assumes "distinct (map rr_id (agent_runs db))" "find (is_run ws rid) (agent_runs db) = Some r"
    "rr_id r' = rid" "rr_workspace_id r' = ws"
  shows "find (is_run ws rid) (agent_runs (put_run r' db)) = Some r'"
proof -
  have "distinct (map rr_id (agent_runs (put_run r' db)))" using assms(1) by simp
  moreover have "r' \<in> set (agent_runs (put_run r' db))" using find_run [OF assms(2)] assms(3) by (force simp: put_run_def)
  ultimately show ?thesis using assms(3,4) by (simp add: find_run_iff)
qed

lemma put_run_other: "x \<in> set (agent_runs (put_run r db)) \<Longrightarrow> rr_id x \<noteq> rr_id r \<Longrightarrow> x \<in> set (agent_runs db)"
  by (auto simp: put_run_def)

lemma store_frame_put [intro]:
  assumes "store_frame L db rid" "rr_id r = rid"
  shows "store_frame L (put_run r db) rid"
  using assms put_run_other [of _ r db] by (auto simp: store_frame_def run_ok_def)

lemma update_one:
  assumes d: "distinct (map rr_id (agent_runs db))" and r: "find (is_run ws rid) (agent_runs db) = Some r"
    and P: "\<And>x. P x \<longleftrightarrow> is_run ws rid x \<and> Q x" and Q: "Q r" and f: "rr_id (f r) = rid"
  shows "update_runs P f db = (if run_checks (f r) then Some (1, put_run (f r) db) else None)"
proof -
  note r' = find_run [OF r]
  have u: "rr_id x = rid \<longleftrightarrow> x = r" if "x \<in> set (agent_runs db)" for x
    using distinct_key_unique [OF d that r'(1)] r'(2) by auto
  have Pu: "P x \<longrightarrow> x = r" if "x \<in> set (agent_runs db)" for x using u [OF that] P [of x] is_run_def by metis
  have Pr: "P r" using P [of r] Q r'(2,3) is_run_def by metis
  have "distinct (agent_runs db)" using d by (simp add: distinct_map)
  then have hit: "filter P (agent_runs db) = [r]" using filter_unique [OF _ r'(1), of P] Pr Pu by blast
  have m: "map (\<lambda>x. if P x then f x else x) (agent_runs db) = map (\<lambda>x. if rr_id x = rid then f r else x) (agent_runs db)"
  proof (rule map_cong [OF refl])
    fix x assume "x \<in> set (agent_runs db)"
    then show "(if P x then f x else x) = (if rr_id x = rid then f r else x)" using u [of x] Pu [of x] Pr by metis
  qed
  show ?thesis unfolding update_runs_def Let_def put_run_def hit f m by simp
qed

section \<open>Writing the state and appending an event\<close>

lemma set_state_effect:
  fixes t :: int
  assumes f: "store_frame L db rid" and r: "find (is_run ws rid) (agent_runs db) = Some r"
    and pre: "run_pre L db r es" and p: "rr_state r = state_text p" and fin: "fin = is_terminal c" "\<not> is_terminal p"
    and L: "run_lib_ok L" "rfc3339_instant t"
  defines "r' \<equiv> r\<lparr>rr_state := state_text c, rr_updated_at := rl_text L t,
      rr_completed_at := (if fin then Some (rl_text L t) else rr_completed_at r)\<rparr>"
  shows "set_state L code ws rid p c t fin db = Inr ((), put_run r' db) \<and> run_pre L db r' es"
proof -
  have d: "distinct (map rr_id (agent_runs db))" using f by (simp add: store_frame_def)
  have nc: "rr_completed_at r = None"
    using pre fin(2) unfolding run_pre_def run_checks_def p terminal_texts by auto
  have "state_text c \<in> set (map state_text run_states)" by simp
  then have ch: "run_checks r'"
    using pre nc fin(1) unfolding run_pre_def run_checks_def r'_def by (simp add: terminal_texts [simplified])
  have "is_ok (decode_run L r')"
    using pre L unfolding run_pre_def r'_def decode_run_def run_lib_ok_def parse_timestamp_def
    by (auto simp: is_ok_iff rbind_Inr parse_state_Inr split: option.splits)
  then have pre': "run_pre L db r' es" using pre ch unfolding run_pre_def r'_def by simp
  have "update_runs (\<lambda>x. is_run ws rid x \<and> rr_state x = state_text p)
      (\<lambda>x. x\<lparr>rr_state := state_text c, rr_updated_at := rl_text L t,
         rr_completed_at := (if fin then Some (rl_text L t) else rr_completed_at x)\<rparr>) db = Some (1, put_run r' db)"
    by (subst update_one [OF d r, of _ "\<lambda>x. rr_state x = state_text p"])
      (use p ch find_run [OF r] in \<open>simp_all add: r'_def\<close>)
  then show ?thesis using pre' unfolding set_state_def by (simp add: ok_or_def ensure_def)
qed

definition bump :: "run_lib \<Rightarrow> int \<Rightarrow> RawRun \<Rightarrow> RawRun" where
  "bump L t r = r\<lparr>rr_next_sequence := rr_next_sequence r + 1, rr_updated_at := rl_text L t\<rparr>"

definition add_event :: "PersistedEvent \<Rightarrow> run_db \<Rightarrow> run_db" where
  "add_event v db = db\<lparr>agent_run_events := agent_run_events db @ [v]\<rparr>"

definition envelope :: "RawRun \<Rightarrow> uuid \<Rightarrow> int \<Rightarrow> AgentEventData \<Rightarrow> AgentEventEnvelope" where
  "envelope r eid t d = \<lparr>protocol_version = PROTOCOL_VERSION, event_id = eid, run_id = rr_id r,
     conversation_id = rr_conversation_id r, sequence = nat (rr_next_sequence r), timestamp = t, data = d\<rparr>"

lemma bump_simps [simp]:
  "rr_id (bump L t r) = rr_id r" "rr_workspace_id (bump L t r) = rr_workspace_id r"
  "rr_conversation_id (bump L t r) = rr_conversation_id r" "rr_state (bump L t r) = rr_state r"
  "rr_completed_at (bump L t r) = rr_completed_at r" "rr_next_sequence (bump L t r) = rr_next_sequence r + 1"
  by (simp_all add: bump_def)

lemma add_event_simps [simp]:
  "conversations (add_event v db) = conversations db" "messages (add_event v db) = messages db"
  "agent_runs (add_event v db) = agent_runs db" "agent_run_events (add_event v db) = agent_run_events db @ [v]"
  "events_of (add_event v db) rid = events_of db rid @ (if ev_run_id v = rid then [v] else [])"
  by (simp_all add: add_event_def events_of_def)

lemma add_event_put: "add_event v (put_run r db) = put_run r (add_event v db)"
  by (simp add: add_event_def put_run_def)

lemma run_pre_next: "run_pre L db r es \<Longrightarrow> 1 \<le> rr_next_sequence r"
  by (simp add: run_pre_def run_checks_def)

lemma run_pre_length: "run_pre L db r es \<Longrightarrow> int (length es) + 1 = rr_next_sequence r"
proof -
  assume a: "run_pre L db r es"
  then have "length (events_of db (rr_id r)) = nat (rr_next_sequence r) - 1"
    unfolding run_pre_def by (metis length_map length_upt)
  moreover have "length es = length (events_of db (rr_id r))"
    using a unfolding run_pre_def by (blast intro: try_map_Inr_length)
  ultimately show ?thesis using run_pre_next [OF a] by linarith
qed

lemma no_sequence_clash:
  assumes pre: "run_pre L db r es" and w: "w \<in> set (agent_run_events db)" "ev_run_id w = rr_id r"
  shows "ev_sequence w \<noteq> rr_next_sequence r"
proof -
  have "ev_sequence w \<in> set (map ev_sequence (events_of db (rr_id r)))" using w by (simp add: events_of_def)
  then have "ev_sequence w \<in> int ` {1..<nat (rr_next_sequence r)}" using pre unfolding run_pre_def by (metis set_map set_upt)
  then show ?thesis using run_pre_next [OF pre] by auto
qed

lemma decode_persist:
  assumes "run_lib_ok L" "canonical L (event_id e)" "canonical L (conversation_id e)" "rl_encode L e = Some j"
    "protocol_version e = PROTOCOL_VERSION" "readable (timestamp e) (data e)"
  obtains e' where "decode_event L (run_id e) (persist L ws e j) = Inr e'" "same_event e e'"
proof -
  obtain e' where e': "rl_decode L j = Some e'" "same_event e e'" using assms(1,4,6) unfolding run_lib_ok_def by blast
  have "rl_time L (rl_text L (timestamp e)) = Some (timestamp e)" using assms(1,6) by (simp add: run_lib_ok_def readable_def)
  then have "decode_event L (run_id e) (persist L ws e j) = Inr e'"
    using assms(2,3,5) e'(1) same_event_fields [OF e'(2)]
    by (simp add: decode_event_def persist_def canonical_def ok_or_def ensure_def PROTOCOL_VERSION_def)
  then show thesis using that e'(2) by blast
qed

lemma append_insert:
  assumes r: "r \<in> set (agent_runs db)" and pre: "run_pre L db r es"
  shows "insert_event (persist L (rr_workspace_id r) (envelope r eid t d) j) db =
      (if j = [] then Inl event_storage_error
       else if eid \<in> set (map ev_event_id (agent_run_events db)) then Inl (StorageError ''agent_event_duplicate'')
       else Inr (add_event (persist L (rr_workspace_id r) (envelope r eid t d) j) db))"
proof -
  define v where "v = persist L (rr_workspace_id r) (envelope r eid t d) j"
  have v: "ev_sequence v = rr_next_sequence r" "ev_protocol_version v = 1" "ev_json v = j" "ev_event_id v = eid"
    "ev_run_id v = rr_id r" "ev_workspace_id v = rr_workspace_id r" "ev_conversation_id v = rr_conversation_id r"
    using run_pre_next [OF pre] by (simp_all add: v_def persist_def envelope_def PROTOCOL_VERSION_def)
  have 1: "(\<exists>w \<in> set (agent_run_events db). ev_run_id w = rr_id r \<and> ev_sequence w = rr_next_sequence r) = False"
    using no_sequence_clash [OF pre] by blast
  have 2: "(\<exists>x \<in> set (agent_runs db). rr_workspace_id x = rr_workspace_id r \<and> rr_id x = rr_id r
      \<and> rr_conversation_id x = rr_conversation_id r) = True" using r by blast
  have 3: "(rr_next_sequence r \<le> 0) = False" using run_pre_next [OF pre] by simp
  show ?thesis unfolding v_def [symmetric] insert_event_def v 1 2 3 add_event_def by simp
qed

lemma append_update:
  assumes d: "distinct (map rr_id (agent_runs db))" and r: "find (is_run ws rid) (agent_runs db) = Some r"
    and ch: "run_checks r"
  shows "update_runs (\<lambda>x. is_run ws rid x \<and> rr_next_sequence x = rr_next_sequence r)
      (\<lambda>x. x\<lparr>rr_next_sequence := rr_next_sequence x + 1, rr_updated_at := rl_text L t\<rparr>) db
    = Some (1, put_run (bump L t r) db)"
proof -
  have "run_checks (bump L t r)" using ch by (simp add: run_checks_def)
  then show ?thesis
    using update_one [OF d r, of _ "\<lambda>x. rr_next_sequence x = rr_next_sequence r"
      "\<lambda>x. x\<lparr>rr_next_sequence := rr_next_sequence x + 1, rr_updated_at := rl_text L t\<rparr>"] find_run(2) [OF r]
    by (simp add: bump_def)
qed

lemma append_equation:
  assumes f: "store_frame L db rid" and r: "find (is_run ws rid) (agent_runs db) = Some r"
    and pre: "run_pre L db r es"
  shows "append_in_transaction L ws rid eid t d db =
    (case rl_encode L (envelope r eid t d) of
       None \<Rightarrow> Inl (StorageError ''agent_event_encode_failed'')
     | Some j \<Rightarrow>
         if j = [] then Inl event_storage_error
         else if eid \<in> set (map ev_event_id (agent_run_events db)) then Inl (StorageError ''agent_event_duplicate'')
         else Inr (envelope r eid t d, add_event (persist L ws (envelope r eid t d) j) (put_run (bump L t r) db)))"
proof -
  note r' = find_run [OF r]
  have d: "distinct (map rr_id (agent_runs db))" using f by (simp add: store_frame_def)
  have n: "(0 \<le> rr_next_sequence r) = True" using run_pre_next [OF pre] by simp
  have c: "rl_uuid L (rr_conversation_id r) = Some (rr_conversation_id r)" "validate_workspace ws = Inr ()"
    and ch: "run_checks r"
    using pre r'(3) by (auto simp: run_pre_def canonical_def)
  note ins = append_insert [OF r'(1) pre, unfolded r'(3)]
  have upd: "update_runs (\<lambda>x. is_run ws rid x \<and> rr_next_sequence x = rr_next_sequence r)
      (\<lambda>x. x\<lparr>rr_next_sequence := rr_next_sequence x + 1, rr_updated_at := rl_text L t\<rparr>) (add_event v db)
    = Some (1, put_run (bump L t r) (add_event v db))" for v
    by (rule append_update) (simp_all add: d r ch)
  have e: "\<lparr>protocol_version = PROTOCOL_VERSION, event_id = eid, run_id = rid, conversation_id = rr_conversation_id r,
      sequence = nat (rr_next_sequence r), timestamp = t, data = d\<rparr> = envelope r eid t d" for d
    using r'(2) by (simp add: envelope_def)
  show ?thesis
  proof (cases "rl_encode L (envelope r eid t d)")
    case None
    then show ?thesis
      unfolding append_in_transaction_def c(2) rbind.simps r ok_or_def option.case c(1) n ensure_def Let_def e by simp
  next
    case (Some j)
    then show ?thesis
      unfolding append_in_transaction_def c(2) rbind.simps r ok_or_def option.case c(1) n ensure_def Let_def e ins
      by (cases "j = []"; cases "eid \<in> set (map ev_event_id (agent_run_events db))")
        (simp_all only: rbind.simps if_True if_False upd option.case prod.case add_event_put not_False_eq_True simp_thms)
  qed
qed

lemma run_pre_add_other: "ev_run_id v \<noteq> rr_id x \<Longrightarrow> run_pre L (add_event v db) x es = run_pre L db x es"
  by (simp add: run_pre_def)

lemma store_frame_add:
  assumes "store_frame L db rid" "ev_run_id v = rid" "rid \<in> rr_id ` set (agent_runs db)"
  shows "store_frame L (add_event v db) rid"
  using assms run_pre_add_other [of v] by (auto simp: store_frame_def run_ok_def)

lemma run_pre_bump:
  assumes pre: "run_pre L db r es" and L: "run_lib_ok L" and c: "canonical L eid"
    and j: "rl_encode L (envelope r eid t d) = Some j" and R: "readable t d"
  obtains e' where "same_event (envelope r eid t d) e'"
    "run_pre L (add_event (persist L (rr_workspace_id r) (envelope r eid t d) j) db) (bump L t r) (es @ [e'])"
proof -
  define e where "e = envelope r eid t d"
  define v where "v = persist L (rr_workspace_id r) e j"
  have n: "1 \<le> rr_next_sequence r" by (rule run_pre_next [OF pre])
  have v: "ev_run_id v = rr_id r" "ev_workspace_id v = rr_workspace_id r" "ev_sequence v = rr_next_sequence r"
    using n by (simp_all add: v_def e_def persist_def envelope_def)
  have u: "canonical L (rr_conversation_id r)" using pre by (simp add: run_pre_def)
  have "canonical L (event_id e)" "canonical L (conversation_id e)" "rl_encode L e = Some j" "protocol_version e = PROTOCOL_VERSION"
    "readable (timestamp e) (data e)" using c u j R by (simp_all add: e_def envelope_def)
  then obtain e' where "decode_event L (run_id e) v = Inr e'" and same: "same_event e e'" unfolding v_def by (rule decode_persist [OF L])
  then have dv: "decode_event L (rr_id r) v = Inr e'" by (simp add: e_def envelope_def)
  have "rl_time L (rl_text L t) = Some t" using L R by (simp add: run_lib_ok_def readable_def)
  then have "is_ok (decode_run L (bump L t r))"
    using pre n unfolding run_pre_def decode_run_def parse_timestamp_def bump_def
    by (auto simp: is_ok_iff rbind_Inr ensure_def ok_or_def split: option.splits)
  moreover have "[1..<nat (rr_next_sequence r + 1)] = [1..<nat (rr_next_sequence r)] @ [nat (rr_next_sequence r)]"
    using n by (simp add: nat_add_distrib)
  ultimately have "run_pre L (add_event v db) (bump L t r) (es @ [e'])"
    using pre n dv v unfolding run_pre_def by (simp add: run_checks_def try_map_append)
  then show thesis using that same unfolding v_def e_def by blast
qed

lemma append_step:
  assumes f: "store_frame L db rid" and r: "find (is_run ws rid) (agent_runs db) = Some r"
    and pre: "run_pre L db r es" and L: "run_lib_ok L" and c: "canonical L eid"
    and ap: "append_in_transaction L ws rid eid t d db = Inr (e, db')" and R: "readable t d"
  shows "e = envelope r eid t d" "find (is_run ws rid) (agent_runs db') = Some (bump L t r)"
    "\<exists>e'. same_event e e' \<and> run_pre L db' (bump L t r) (es @ [e'])" "store_frame L db' rid"
    "\<exists>v. ev_run_id v = rid \<and> db' = add_event v (put_run (bump L t r) db)"
proof -
  note r' = find_run [OF r]
  obtain j where j: "rl_encode L (envelope r eid t d) = Some j" and e: "e = envelope r eid t d"
    and db': "db' = add_event (persist L ws (envelope r eid t d) j) (put_run (bump L t r) db)"
    using ap unfolding append_equation [OF f r pre] by (auto split: option.splits if_splits)
  have v: "ev_run_id (persist L ws (envelope r eid t d) j) = rid" using r'(2) by (simp add: persist_def envelope_def)
  have d: "distinct (map rr_id (agent_runs db))" using f by (simp add: store_frame_def)
  show "e = envelope r eid t d" by (rule e)
  show "find (is_run ws rid) (agent_runs db') = Some (bump L t r)"
    unfolding db' add_event_simps using r' by (intro put_run_find [OF d r]) simp_all
  show "\<exists>e'. same_event e e' \<and> run_pre L db' (bump L t r) (es @ [e'])"
    using run_pre_bump [OF pre L c j R] unfolding db' e add_event_put run_pre_put r'(3) by blast
  show "store_frame L db' rid"
    unfolding db' using r' by (intro store_frame_add store_frame_put f v) force+
  show "\<exists>v. ev_run_id v = rid \<and> db' = add_event v (put_run (bump L t r) db)" using db' v by blast
qed

section \<open>Every operation keeps the invariant\<close>

lemma derived_state_snoc: "derived_state (es @ [e]) = next_state (derived_state es) (data e)"
  by (simp add: derived_state_def)

lemma decode_run_fields:
  assumes "decode_run L raw = Inr r"
  shows "rr_state raw = state_text (ar_state r)" "rr_workspace_id raw = ar_workspace_id r"
    "ar_next_sequence r = nat (rr_next_sequence raw)" "rl_uuid L (rr_id raw) = Some (ar_id r)"
    "(ar_completed_at r = None) = (rr_completed_at raw = None)"
  using assms by (auto simp: decode_run_def rbind_Inr parse_state_Inr ok_or_def split: option.splits)

lemma run_read_decode:
  assumes "find (is_run ws rid) (agent_runs db) = Some r" "rr_state r = state_text st" "run_pre L db r es"
  obtains x where "run_read L ws rid db = Inr (Some x)" "ar_state x = st" "decode_run L r = Inr x"
proof -
  obtain x where x: "decode_run L r = Inr x" using assms(3) by (auto simp: run_pre_def is_ok_iff)
  then have "ar_state x = st" using assms(2) by (auto simp: decode_run_def rbind_Inr)
  then show thesis using that x assms(1) by (simp add: run_read_def)
qed

text \<open>The two writes every state change is made of: the guarded update, then the event that records it.\<close>

lemma change_step:
  assumes ok: "run_store_ok L db" and r: "find (is_run ws rid) (agent_runs db) = Some r"
    and p: "rr_state r = state_text p" "\<not> is_terminal p" and fin: "fin = is_terminal c"
    and L: "run_lib_ok L" and u: "canonical L eid" and R: "readable t d"
    and st: "set_state L code ws rid p c t fin db = Inr (x, db1)"
    and ap: "append_in_transaction L ws rid eid t d db1 = Inr (e, db2)" and d: "\<And>s. next_state s d = Some c"
  shows "run_store_ok L db2"
    "\<exists>r2. find (is_run ws rid) (agent_runs db2) = Some r2 \<and> rr_state r2 = state_text c"
proof -
  obtain es s where pre: "run_pre L db r es" and s: "derived_state es = Some s"
    using run_store_okD [OF ok r] by blast
  note f = run_store_frame [OF ok, of rid]
  define r1 where "r1 = r\<lparr>rr_state := state_text c, rr_updated_at := rl_text L t,
      rr_completed_at := (if fin then Some (rl_text L t) else rr_completed_at r)\<rparr>"
  have se: "set_state L code ws rid p c t fin db = Inr ((), put_run r1 db) \<and> run_pre L db r1 es"
    unfolding r1_def by (rule set_state_effect [OF f r pre p(1) fin p(2) L readable_instant [OF R]])
  then have db1: "db1 = put_run r1 db" using st by simp
  have d0: "distinct (map rr_id (agent_runs db))" using ok by (simp add: run_store_ok_def)
  have r1: "rr_id r1 = rid" "rr_workspace_id r1 = ws" "rr_state r1 = state_text c" using find_run [OF r] by (simp_all add: r1_def)
  have f1: "store_frame L db1 rid" unfolding db1 using f r1(1) by (rule store_frame_put)
  have fr1: "find (is_run ws rid) (agent_runs db1) = Some r1"
    unfolding db1 by (rule put_run_find [OF d0 r r1(1,2)])
  have pre1: "run_pre L db1 r1 es" unfolding db1 using se by simp
  note as = append_step [OF f1 fr1 pre1 L u ap R]
  obtain e' where e': "same_event e e'" "run_pre L db2 (bump L t r1) (es @ [e'])" using as(3) by blast
  have "data e = d" using as(1) by (simp add: envelope_def)
  then have "derived_state (es @ [e']) = Some c" by (simp add: derived_state_snoc next_state_same [OF e'(1)] d)
  then have "run_ok L db2 (bump L t r1)" using e'(2) r1(3) by (auto simp: run_ok_def)
  then show "run_store_ok L db2" by (rule run_store_okI [OF as(4) as(2)])
  show "\<exists>r2. find (is_run ws rid) (agent_runs db2) = Some r2 \<and> rr_state r2 = state_text c" using as(2) r1(3) by auto
qed

lemma append_keeps:
  assumes ok: "run_store_ok L db" and r: "find (is_run ws rid) (agent_runs db) = Some r"
    and st: "rr_state r = state_text c" "next_state (Some c) d = Some c"
    and L: "run_lib_ok L" and u: "canonical L eid"
    and ap: "append_in_transaction L ws rid eid t d db = Inr (e, db')" and R: "readable t d"
  shows "run_store_ok L db'" "\<exists>r'. find (is_run ws rid) (agent_runs db') = Some r' \<and> rr_state r' = state_text c"
proof -
  obtain es s where pre: "run_pre L db r es" and s: "derived_state es = Some s" "rr_state r = state_text s"
    using run_store_okD [OF ok r] by blast
  note as = append_step [OF run_store_frame [OF ok] r pre L u ap R]
  obtain e' where e': "same_event e e'" "run_pre L db' (bump L t r) (es @ [e'])" using as(3) by blast
  have "derived_state (es @ [e']) = Some c" using s st as(1) by (simp add: derived_state_snoc next_state_same [OF e'(1)] envelope_def)
  then have "run_ok L db' (bump L t r)" using e'(2) st(1) by (auto simp: run_ok_def)
  then show "run_store_ok L db'" by (rule run_store_okI [OF as(4) as(2)])
  show "\<exists>r'. find (is_run ws rid) (agent_runs db') = Some r' \<and> rr_state r' = state_text c" using as(2) st(1) by auto
qed

lemma in_transaction_ok: "P db \<Longrightarrow> (\<And>x db'. f db = Inr (x, db') \<Longrightarrow> P db') \<Longrightarrow> P (snd (in_transaction f db))"
  by (auto simp: in_transaction_def split: sum.split prod.split)

lemma read_run_state:
  assumes "run_store_ok L db" "read_run L code ws rid db = Inr cur"
  obtains r where "find (is_run ws rid) (agent_runs db) = Some r" "rr_state r = state_text (ar_state cur)"
proof -
  obtain r where r: "find (is_run ws rid) (agent_runs db) = Some r" "decode_run L r = Inr cur"
    using assms(2) by (auto simp: read_run_def run_read_def rbind_Inr ok_or_def split: option.splits)
  then show thesis using that [OF r(1)] decode_run_fields [OF r(2)] by simp
qed

lemma transition_tx:
  assumes ok: "run_store_ok L db" and L: "run_lib_ok L" and u: "canonical L eid" and t: "rfc3339_instant t"
    and nt: "\<not> is_terminal (previous ch)" "\<not> is_terminal (current ch)"
    and run: "run_transition_tx L ws rid ch t eid db = Inr (x, db')"
  shows "run_store_ok L db'"
proof -
  obtain cur y db1 e where cur: "read_run L ''agent_run_not_found'' ws rid db = Inr cur" "ar_state cur = previous ch"
    and st: "set_state L ''agent_run_state_conflict'' ws rid (previous ch) (current ch) t False db = Inr (y, db1)"
    and ap: "append_in_transaction L ws rid eid t (RunStateChanged ch) db1 = Inr (e, db')"
    using run by (auto simp: run_transition_tx_def rbind_Inr ensure_def split: if_splits)
  obtain r where r: "find (is_run ws rid) (agent_runs db) = Some r" "rr_state r = state_text (previous ch)"
    using read_run_state [OF ok cur(1)] cur(2) by metis
  show ?thesis by (rule change_step(1) [OF ok r nt(1) _ L u readable_plain [OF t] st ap]) (simp_all add: nt)
qed

lemma run_store_transition_ok:
  assumes "run_store_ok L db" "run_lib_ok L" "canonical L eid" "rfc3339_instant t"
  shows "run_store_ok L (snd (run_store_transition L ws rid ch t eid db))"
  unfolding run_store_transition_def using transition_tx [OF assms] assms(1)
  by (auto intro: in_transaction_ok split: sum.split)

lemma finish_tx:
  assumes ok: "run_store_ok L db" and L: "run_lib_ok L" and u: "canonical L eid1" "canonical L eid2" and t: "rfc3339_instant t"
    and nt: "\<not> is_terminal (previous ch)" "is_terminal (current ch)" "outcome_state out = current ch"
    and run: "run_finish_tx L ws rid ch out amid t eid1 eid2 db = Inr (x, db')"
  shows "run_store_ok L db'"
proof -
  obtain cur y db1 e1 db2 e2 where cur: "read_run L ''agent_run_not_found'' ws rid db = Inr cur" "ar_state cur = previous ch"
    and st: "set_state L ''agent_run_state_conflict'' ws rid (previous ch) (current ch) t True db = Inr (y, db1)"
    and ap: "append_in_transaction L ws rid eid1 t (RunStateChanged ch) db1 = Inr (e1, db2)"
    and ap2: "append_in_transaction L ws rid eid2 t (RunCompleted \<lparr>outcome = out, assistant_message_id = amid\<rparr>) db2 = Inr (e2, db')"
    using run by (auto simp: run_finish_tx_def rbind_Inr ensure_def split: if_splits)
  obtain r where r: "find (is_run ws rid) (agent_runs db) = Some r" "rr_state r = state_text (previous ch)"
    using read_run_state [OF ok cur(1)] cur(2) by metis
  note c = change_step [OF ok r nt(1) _ L u(1) readable_plain [OF t] st ap]
  have ok2: "run_store_ok L db2" by (rule c(1)) (simp_all add: nt)
  obtain r2 where r2: "find (is_run ws rid) (agent_runs db2) = Some r2" "rr_state r2 = state_text (current ch)"
    using c(2) nt by auto
  show ?thesis by (rule append_keeps(1) [OF ok2 r2 _ L u(2) ap2 readable_plain [OF t]]) (simp_all add: nt(3))
qed

lemma run_store_finish_ok:
  assumes "run_store_ok L db" "run_lib_ok L" "canonical L eid1" "canonical L eid2" "rfc3339_instant t"
  shows "run_store_ok L (snd (run_store_finish L ws rid ch out amid t eid1 eid2 db))"
  unfolding run_store_finish_def using finish_tx [OF assms] assms(1)
  by (auto intro: in_transaction_ok split: sum.split)

lemma outcome_terminal [simp]: "is_terminal (outcome_state out)"
  by (cases out) simp_all

lemma complete_tx:
  assumes ok: "run_store_ok L db" and L: "run_lib_ok L" and u: "canonical L eid" and t: "rfc3339_instant t"
    and run: "run_complete_tx L ws rid eid t out amid db = Inr (x, db')"
  shows "run_store_ok L db'"
proof -
  obtain cur y db1 e where cur: "read_run L ''agent_run_not_found'' ws rid db = Inr cur" "ar_state cur = Completing"
    and st: "set_state L ''agent_run_not_completing'' ws rid Completing (outcome_state out) t True db = Inr (y, db1)"
    and ap: "append_in_transaction L ws rid eid t (RunCompleted \<lparr>outcome = out, assistant_message_id = amid\<rparr>) db1 = Inr (e, db')"
    using run by (auto simp: run_complete_tx_def rbind_Inr ensure_def split: if_splits)
  obtain r where r: "find (is_run ws rid) (agent_runs db) = Some r" "rr_state r = state_text Completing"
    using read_run_state [OF ok cur(1)] cur(2) by metis
  show ?thesis by (rule change_step(1) [OF ok r _ _ L u readable_plain [OF t] st ap]) simp_all
qed

lemma run_store_complete_ok:
  assumes "run_store_ok L db" "run_lib_ok L" "canonical L eid" "rfc3339_instant t"
  shows "run_store_ok L (snd (run_store_complete L ws rid eid t out amid db))"
  unfolding run_store_complete_def using complete_tx [OF assms] assms(1)
  by (auto intro: in_transaction_ok split: sum.split)

lemma append_event_ok:
  assumes ok: "run_store_ok L db" and L: "run_lib_ok L" and u: "canonical L eid" and R: "readable t d"
  shows "run_store_ok L (snd (append_event L ws rid eid t d db))"
proof (cases "is_state_event d")
  case False
  then have n: "next_state s d = s" for s by (cases d) simp_all
  have "run_store_ok L db'" if ap: "append_in_transaction L ws rid eid t d db = Inr (e, db')" for e db'
  proof -
    obtain r where r: "find (is_run ws rid) (agent_runs db) = Some r"
      using ap by (auto simp: append_in_transaction_def rbind_Inr ok_or_def split: option.splits)
    obtain st where "rr_state r = state_text st" using run_store_okD [OF ok r] by blast
    then show ?thesis by (rule append_keeps(1) [OF ok r _ n L u ap R])
  qed
  then show ?thesis using False ok by (auto simp: append_event_def intro: in_transaction_ok)
qed (simp add: append_event_def ok)

definition new_raw :: "run_lib \<Rightarrow> NewAgentRun \<Rightarrow> RawRun" where
  "new_raw L n = \<lparr>rr_id = nr_id n, rr_workspace_id = nr_workspace_id n, rr_conversation_id = nr_conversation_id n,
         rr_user_message_id = nr_user_message_id n, rr_state = str ''created'', rr_next_sequence = 1,
         rr_created_at = rl_text L (nr_timestamp n), rr_updated_at = rl_text L (nr_timestamp n), rr_completed_at = None\<rparr>"

lemma create_tx_cases:
  assumes "create_in_transaction L n db = Inr (x, db')"
  obtains db1 e where "validate_workspace (nr_workspace_id n) = Inr ()" "insert_run (new_raw L n) db = Inr db1"
   "append_in_transaction L (nr_workspace_id n) (nr_id n) (nr_event_id n) (nr_timestamp n)
        (RunCreated \<lparr>rc_state = Created, rc_user_message_id = nr_user_message_id n\<rparr>) db1 = Inr (e, db')"
  using assms unfolding create_in_transaction_def Let_def new_raw_def [symmetric] rbind_Inr
  by (auto simp: rbind_Inr split: prod.splits)
lemma new_pre:
  assumes L: "run_lib_ok L" and ev: "events_of db (nr_id n) = []" and v: "validate_workspace (nr_workspace_id n) = Inr ()"
    and u: "canonical L (nr_id n)" "canonical L (nr_conversation_id n)" "canonical L (nr_user_message_id n)"
    and t: "rfc3339_instant (nr_timestamp n)"
  shows "run_pre L db (new_raw L n) []"
proof -
  have c: "str ''created'' = state_text Created" by simp
  have 1: "run_checks (new_raw L n)"
    unfolding run_checks_def new_raw_def c by (simp add: run_states_def)
  have 2: "is_ok (decode_run L (new_raw L n))"
    using u L t unfolding decode_run_def new_raw_def c canonical_def run_lib_ok_def parse_timestamp_def
    by (simp add: ok_or_def ensure_def del: state_text.simps)
  show ?thesis using 1 2 ev v u unfolding run_pre_def by (simp add: new_raw_def)
qed

lemma insert_run_frame:
  assumes ok: "run_store_ok L db" and ins: "insert_run r db = Inr db1"
  shows "store_frame L db1 (rr_id r)" "events_of db1 (rr_id r) = []"
    "find (is_run (rr_workspace_id r) (rr_id r)) (agent_runs db1) = Some r"
proof -
  have db1: "db1 = db\<lparr>agent_runs := agent_runs db @ [r]\<rparr>" and fresh: "rr_id r \<notin> rr_id ` set (agent_runs db)"
    using ins unfolding insert_run_def by (simp_all split: if_splits)
  have ev: "\<forall>v \<in> set (agent_run_events db). ev_run_id v \<in> rr_id ` set (agent_runs db)"
    and d: "distinct (map rr_id (agent_runs db))" and all: "\<forall>x \<in> set (agent_runs db). run_ok L db x"
    using ok by (simp_all add: run_store_ok_def)
  show "events_of db1 (rr_id r) = []"
    unfolding events_of_def filter_empty_conv db1 using ev fresh by (metis run_db.ext_inject run_db.surjective run_db.update_convs(3))
  have same: "run_ok L db1 y = run_ok L db y" for y by (simp add: run_ok_def run_pre_def db1 events_of_def)
  have d1: "distinct (map rr_id (agent_runs db1))" using d fresh by (simp add: db1)
  show "store_frame L db1 (rr_id r)" unfolding store_frame_def same using d1 ev all by (simp add: db1)
  show "find (is_run (rr_workspace_id r) (rr_id r)) (agent_runs db1) = Some r"
    unfolding find_run_iff [OF d1] by (simp add: db1)
qed

lemma create_run_ok:
  assumes ok: "run_store_ok L db" and L: "run_lib_ok L"
    and u: "canonical L (nr_id n)" "canonical L (nr_conversation_id n)" "canonical L (nr_user_message_id n)"
      "canonical L (nr_event_id n)" and t: "rfc3339_instant (nr_timestamp n)"
  shows "run_store_ok L (snd (create_run L n db))"
proof -
  define r where "r = new_raw L n"
  have rs: "rr_id r = nr_id n" "rr_workspace_id r = nr_workspace_id n" "rr_state r = state_text Created"
    by (simp_all add: r_def new_raw_def)
  have "run_store_ok L db'" if tx: "create_in_transaction L n db = Inr (x, db')" for x db'
  proof (rule create_tx_cases [OF tx, folded r_def])
    fix db1 e
    assume v: "validate_workspace (nr_workspace_id n) = Inr ()" and ins: "insert_run r db = Inr db1"
      and ap: "append_in_transaction L (nr_workspace_id n) (nr_id n) (nr_event_id n) (nr_timestamp n)
        (RunCreated \<lparr>rc_state = Created, rc_user_message_id = nr_user_message_id n\<rparr>) db1 = Inr (e, db')"
    note f = insert_run_frame [OF ok ins, unfolded rs(1,2)]
    have pre: "run_pre L db1 r []" unfolding r_def by (rule new_pre [OF L f(2) v u(1-3) t])
    note as = append_step [OF f(1,3) pre L u(4) ap readable_plain [OF t]]
    obtain e' where e': "same_event e e'" "run_pre L db' (bump L (nr_timestamp n) r) ([] @ [e'])" using as(3) by auto
    have "derived_state ([] @ [e']) = Some Created" using as(1) by (simp add: derived_state_def envelope_def next_state_same [OF e'(1)])
    then have "run_ok L db' (bump L (nr_timestamp n) r)" using e'(2) rs(3) unfolding run_ok_def bump_simps by blast
    then show ?thesis using as(2,4) by (intro run_store_okI) simp_all
  qed
  then show ?thesis unfolding create_run_def by (rule in_transaction_ok [of "run_store_ok L", OF ok])
qed

section \<open>The store as a system of operations\<close>

datatype run_op =
    CreateRun NewAgentRun
  | TransitionRun rstr uuid run_state_changed int uuid
  | FinishRun rstr uuid run_state_changed RunOutcome "uuid option" int uuid uuid
  | CompleteRun rstr uuid uuid int RunOutcome "uuid option"
  | AppendEvent rstr uuid uuid int AgentEventData

fun run_store_step :: "run_lib \<Rightarrow> run_db \<Rightarrow> run_op \<Rightarrow> run_db" where
  "run_store_step L db (CreateRun n) = snd (create_run L n db)"
| "run_store_step L db (TransitionRun ws rid ch t eid) = snd (run_store_transition L ws rid ch t eid db)"
| "run_store_step L db (FinishRun ws rid ch out amid t eid1 eid2) = snd (run_store_finish L ws rid ch out amid t eid1 eid2 db)"
| "run_store_step L db (CompleteRun ws rid eid t out amid) = snd (run_store_complete L ws rid eid t out amid db)"
| "run_store_step L db (AppendEvent ws rid eid t d) = snd (append_event L ws rid eid t d db)"

text \<open>The identifiers an operation brings are UUIDs, its instant is in the range of RFC 3339 and its JSON values can be read back.\<close>

fun run_admissible :: "run_lib \<Rightarrow> run_op \<Rightarrow> bool" where
  "run_admissible L (CreateRun n) =
     (list_all (canonical L) [nr_id n, nr_conversation_id n, nr_user_message_id n, nr_event_id n] \<and> rfc3339_instant (nr_timestamp n))"
| "run_admissible L (TransitionRun ws rid ch t eid) = (canonical L eid \<and> rfc3339_instant t)"
| "run_admissible L (FinishRun ws rid ch out amid t eid1 eid2) = (canonical L eid1 \<and> canonical L eid2 \<and> rfc3339_instant t)"
| "run_admissible L (CompleteRun ws rid eid t out amid) = (canonical L eid \<and> rfc3339_instant t)"
| "run_admissible L (AppendEvent ws rid eid t d) = (canonical L eid \<and> readable t d)"

lemma run_store_step_ok:
  "run_lib_ok L \<Longrightarrow> run_store_ok L db \<Longrightarrow> run_admissible L a \<Longrightarrow> run_store_ok L (run_store_step L db a)"
  by (cases a) (simp_all add: create_run_ok run_store_transition_ok run_store_finish_ok run_store_complete_ok append_event_ok)

section \<open>What no operation can undo\<close>

text \<open>A run keeps its identity, its sequence number does not decrease, and once finished its state is final.\<close>

definition run_le :: "RawRun \<Rightarrow> RawRun \<Rightarrow> bool" where
  "run_le r r' \<longleftrightarrow> rr_id r' = rr_id r \<and> rr_workspace_id r' = rr_workspace_id r
     \<and> rr_conversation_id r' = rr_conversation_id r \<and> rr_user_message_id r' = rr_user_message_id r
     \<and> rr_created_at r' = rr_created_at r \<and> rr_next_sequence r \<le> rr_next_sequence r'
     \<and> (rr_completed_at r \<noteq> None \<longrightarrow> rr_completed_at r' = rr_completed_at r \<and> rr_state r' = rr_state r)"

definition store_grow :: "run_db \<Rightarrow> run_db \<Rightarrow> bool" where
  "store_grow db db' \<longleftrightarrow> (\<exists>vs. agent_run_events db' = agent_run_events db @ vs)
     \<and> (\<forall>r \<in> set (agent_runs db). \<exists>r' \<in> set (agent_runs db'). run_le r r')"

lemma run_le_refl [simp]: "run_le r r"
  by (simp add: run_le_def)

lemma run_le_trans: "run_le a b \<Longrightarrow> run_le b c \<Longrightarrow> run_le a c"
  unfolding run_le_def by (metis order_trans)

lemma store_growI:
  "agent_run_events db' = agent_run_events db @ vs \<Longrightarrow> set (agent_runs db) \<subseteq> set (agent_runs db') \<Longrightarrow> store_grow db db'"
  unfolding store_grow_def using run_le_refl by blast

lemma store_grow_refl [simp]: "store_grow db db"
  by (rule store_growI [of _ _ "[]"]) simp_all

lemma store_grow_trans: "store_grow a b \<Longrightarrow> store_grow b c \<Longrightarrow> store_grow a c"
  unfolding store_grow_def by (metis append_assoc run_le_trans)

lemma update_grow:
  assumes "update_runs P f db = Some (n, db')" "\<forall>r \<in> set (agent_runs db). P r \<longrightarrow> run_le r (f r)"
  shows "store_grow db db'"
proof -
  have db': "db' = db\<lparr>agent_runs := map (\<lambda>r. if P r then f r else r) (agent_runs db)\<rparr>"
    using assms(1) by (simp add: update_runs_def Let_def split: if_splits)
  have "\<exists>r' \<in> set (agent_runs db'). run_le r r'" if "r \<in> set (agent_runs db)" for r
    using that assms(2) unfolding db' by (intro bexI [of _ "if P r then f r else r"]) auto
  then show ?thesis by (simp add: store_grow_def db')
qed

lemma insert_event_grow: "insert_event v db = Inr db' \<Longrightarrow> store_grow db db'"
  by (rule store_growI [of _ _ "[v]"]) (auto simp: insert_event_def split: if_splits)

lemma insert_run_grow: "insert_run r db = Inr db' \<Longrightarrow> store_grow db db'"
  by (rule store_growI [of _ _ "[]"]) (auto simp: insert_run_def split: if_splits)

lemma append_grow:
  assumes "append_in_transaction L ws rid eid t d db = Inr (e, db')"
  shows "store_grow db db'"
proof -
  obtain v db1 P n where "insert_event v db = Inr db1"
    and u: "update_runs P (\<lambda>x. x\<lparr>rr_next_sequence := rr_next_sequence x + 1, rr_updated_at := rl_text L t\<rparr>) db1 = Some (n, db')"
    using assms unfolding append_in_transaction_def Let_def rbind_Inr ok_or_Inr
    by (elim exE conjE) (rule that, assumption, auto simp: rbind_Inr split: prod.splits)
  moreover have "store_grow db1 db'" by (rule update_grow [OF u]) (simp add: run_le_def)
  ultimately show ?thesis using insert_event_grow store_grow_trans by blast
qed

text \<open>The CHECK constraints of the table hold whatever the libraries do.\<close>

definition rows_checked :: "run_db \<Rightarrow> bool" where
  "rows_checked db \<longleftrightarrow> (\<forall>r \<in> set (agent_runs db). run_checks r)"

lemma run_store_checked: "run_store_ok L db \<Longrightarrow> rows_checked db"
  by (auto simp: rows_checked_def run_store_ok_def run_ok_def run_pre_def)

lemma update_checked: "update_runs P f db = Some (n, db') \<Longrightarrow> rows_checked db \<Longrightarrow> rows_checked db'"
  by (auto simp: rows_checked_def update_runs_def Let_def list_all_iff split: if_splits)

lemma insert_event_checked: "insert_event v db = Inr db' \<Longrightarrow> rows_checked db \<Longrightarrow> rows_checked db'"
  by (auto simp: rows_checked_def insert_event_def split: if_splits)

lemma insert_run_checked: "insert_run r db = Inr db' \<Longrightarrow> rows_checked db \<Longrightarrow> rows_checked db'"
  by (auto simp: rows_checked_def insert_run_def split: if_splits)

lemma set_state_checked: "set_state L code ws rid p c t fin db = Inr (x, db') \<Longrightarrow> rows_checked db \<Longrightarrow> rows_checked db'"
  unfolding set_state_def rbind_Inr by (auto simp: rbind_Inr ok_or_def split: option.splits prod.splits intro: update_checked)

lemma append_checked:
  assumes "append_in_transaction L ws rid eid t d db = Inr (e, db')" "rows_checked db"
  shows "rows_checked db'"
proof -
  obtain v db1 P f n where "insert_event v db = Inr db1" "update_runs P f db1 = Some (n, db')"
    using assms(1) unfolding append_in_transaction_def Let_def rbind_Inr ok_or_Inr
    by (elim exE conjE) (rule that, assumption, auto simp: rbind_Inr split: prod.splits)
  then show ?thesis using assms(2) insert_event_checked update_checked by blast
qed

lemma set_state_grow:
  assumes st: "set_state L code ws rid p c t fin db = Inr (x, db')" and p: "\<not> is_terminal p" and ok: "rows_checked db"
  shows "store_grow db db'"
proof -
  obtain n where u: "update_runs (\<lambda>x. is_run ws rid x \<and> rr_state x = state_text p)
      (\<lambda>x. x\<lparr>rr_state := state_text c, rr_updated_at := rl_text L t,
         rr_completed_at := (if fin then Some (rl_text L t) else rr_completed_at x)\<rparr>) db = Some (n, db')"
    using st unfolding set_state_def rbind_Inr by (auto simp: rbind_Inr ok_or_def split: option.splits prod.splits)
  have "rr_completed_at r = None" if "r \<in> set (agent_runs db)" "rr_state r = state_text p" for r
  proof -
    have "run_checks r" using ok that(1) by (simp add: rows_checked_def)
    then show ?thesis using p unfolding run_checks_def that(2) terminal_texts by auto
  qed
  then show ?thesis by (intro update_grow [OF u]) (auto simp: run_le_def)
qed

lemma in_transaction_grow: "(\<And>x db'. f db = Inr (x, db') \<Longrightarrow> store_grow db db') \<Longrightarrow> store_grow db (snd (in_transaction f db))"
  by (rule in_transaction_ok) simp_all

lemma transition_tx_grow:
  assumes "rows_checked db" "\<not> is_terminal (previous ch)" "run_transition_tx L ws rid ch t eid db = Inr (x, db')"
  shows "store_grow db db'"
proof -
  obtain y db1 e where "set_state L ''agent_run_state_conflict'' ws rid (previous ch) (current ch) t False db = Inr (y, db1)"
    and a: "append_in_transaction L ws rid eid t (RunStateChanged ch) db1 = Inr (e, db')"
    using assms(3) unfolding run_transition_tx_def rbind_Inr by (auto simp: rbind_Inr)
  then have "store_grow db db1" using assms(1,2) by (intro set_state_grow)
  then show ?thesis by (rule store_grow_trans [OF _ append_grow [OF a]])
qed

lemma finish_tx_grow:
  assumes "rows_checked db" "\<not> is_terminal (previous ch)" "run_finish_tx L ws rid ch out amid t eid1 eid2 db = Inr (x, db')"
  shows "store_grow db db'"
proof -
  obtain y db1 e1 db2 e2 where "set_state L ''agent_run_state_conflict'' ws rid (previous ch) (current ch) t True db = Inr (y, db1)"
    and a: "append_in_transaction L ws rid eid1 t (RunStateChanged ch) db1 = Inr (e1, db2)"
      "append_in_transaction L ws rid eid2 t (RunCompleted \<lparr>outcome = out, assistant_message_id = amid\<rparr>) db2 = Inr (e2, db')"
    using assms(3) unfolding run_finish_tx_def rbind_Inr by (auto simp: rbind_Inr)
  then have "store_grow db db1" using assms(1,2) by (intro set_state_grow)
  then show ?thesis using append_grow [OF a(1)] append_grow [OF a(2)] store_grow_trans by metis
qed

lemma complete_tx_grow:
  assumes "rows_checked db" "run_complete_tx L ws rid eid t out amid db = Inr (x, db')"
  shows "store_grow db db'"
proof -
  obtain y db1 e where s: "set_state L ''agent_run_not_completing'' ws rid Completing (outcome_state out) t True db = Inr (y, db1)"
    and a: "append_in_transaction L ws rid eid t (RunCompleted \<lparr>outcome = out, assistant_message_id = amid\<rparr>) db1 = Inr (e, db')"
    using assms(2) unfolding run_complete_tx_def rbind_Inr by (auto simp: rbind_Inr)
  have "store_grow db db1" by (rule set_state_grow [OF s _ assms(1)]) simp
  then show ?thesis by (rule store_grow_trans [OF _ append_grow [OF a]])
qed

lemma run_store_step_grow:
  assumes ok: "rows_checked db"
  shows "store_grow db (run_store_step L db a)"
proof (cases a)
  case (CreateRun n)
  have "store_grow db db'" if "create_in_transaction L n db = Inr (x, db')" for x db'
    by (rule create_tx_cases [OF that]) (meson insert_run_grow append_grow store_grow_trans)
  then show ?thesis unfolding CreateRun run_store_step.simps create_run_def by (rule in_transaction_grow)
next
  case (TransitionRun ws rid ch t eid)
  then show ?thesis using transition_tx_grow [OF ok]
    by (auto simp: run_store_transition_def intro: in_transaction_grow split: sum.split)
next
  case (FinishRun ws rid ch out amid t eid1 eid2)
  then show ?thesis using finish_tx_grow [OF ok]
    by (auto simp: run_store_finish_def intro: in_transaction_grow split: sum.split)
next
  case (CompleteRun ws rid eid t out amid)
  then show ?thesis using complete_tx_grow [OF ok]
    by (auto simp: run_store_complete_def intro: in_transaction_grow split: sum.split)
next
  case (AppendEvent ws rid eid t d)
  then show ?thesis by (auto simp: append_event_def intro: in_transaction_grow append_grow)
qed

lemma in_transaction_checked:
  "rows_checked db \<Longrightarrow> (\<And>x db'. f db = Inr (x, db') \<Longrightarrow> rows_checked db') \<Longrightarrow> rows_checked (snd (in_transaction f db))"
  by (rule in_transaction_ok)

lemma tx_checked:
  assumes "rows_checked db"
  shows "run_transition_tx L ws rid ch t eid db = Inr (x, db') \<Longrightarrow> rows_checked db'"
    "run_finish_tx L ws rid ch out amid t eid1 eid2 db = Inr (y, db') \<Longrightarrow> rows_checked db'"
    "run_complete_tx L ws rid eid t out amid db = Inr (z, db') \<Longrightarrow> rows_checked db'"
    "create_in_transaction L n db = Inr (w, db') \<Longrightarrow> rows_checked db'"
proof -
  note keep = set_state_checked append_checked insert_run_checked
  show "run_transition_tx L ws rid ch t eid db = Inr (x, db') \<Longrightarrow> rows_checked db'"
    using assms unfolding run_transition_tx_def rbind_Inr by (auto simp: rbind_Inr dest: keep)
  show "run_finish_tx L ws rid ch out amid t eid1 eid2 db = Inr (y, db') \<Longrightarrow> rows_checked db'"
    using assms unfolding run_finish_tx_def rbind_Inr by (auto simp: rbind_Inr dest: keep)
  show "run_complete_tx L ws rid eid t out amid db = Inr (z, db') \<Longrightarrow> rows_checked db'"
    using assms unfolding run_complete_tx_def rbind_Inr by (auto simp: rbind_Inr dest: keep)
  show "create_in_transaction L n db = Inr (w, db') \<Longrightarrow> rows_checked db'"
    by (rule create_tx_cases, assumption) (blast intro: keep assms)
qed

lemma run_store_step_checked: "rows_checked db \<Longrightarrow> rows_checked (run_store_step L db a)"
  by (cases a) (auto simp: create_run_def run_store_transition_def run_store_finish_def run_store_complete_def append_event_def
      intro!: in_transaction_checked intro: tx_checked append_checked split: sum.split)

definition run_version :: "run_db \<Rightarrow> uuid \<Rightarrow> nat option" where
  "run_version db rid = map_option (\<lambda>r. nat (rr_next_sequence r)) (find (\<lambda>r. rr_id r = rid) (agent_runs db))"

lemma run_version_grow:
  assumes "distinct (map rr_id (agent_runs db'))" "store_grow db db'" "run_version db rid = Some v"
  shows "\<exists>v'. run_version db' rid = Some v' \<and> v \<le> v'"
proof -
  obtain r where r: "find (\<lambda>r. rr_id r = rid) (agent_runs db) = Some r" "v = nat (rr_next_sequence r)"
    using assms(3) by (auto simp: run_version_def)
  have rm: "r \<in> set (agent_runs db)" "rr_id r = rid" using find_Some_split [OF r(1)] by auto
  obtain r' where r': "r' \<in> set (agent_runs db')" "run_le r r'" using assms(2) rm(1) by (auto simp: store_grow_def)
  have i: "rr_id r' = rid" using r'(2) rm(2) by (simp add: run_le_def)
  have "find (\<lambda>x. rr_id x = rid) (agent_runs db') = Some r'"
    using find_key_eq [OF assms(1) r'(1)] unfolding i .
  then show ?thesis using r' r(2) by (auto simp: run_version_def run_le_def)
qed

interpretation runs: fenced_system "run_store_step L" "\<lambda>db. run_lib_ok L \<and> run_store_ok L db" "run_admissible L" run_version
proof unfold_locales
  fix db a
  assume "run_lib_ok L \<and> run_store_ok L db" "run_admissible L a"
  then show "run_lib_ok L \<and> run_store_ok L (run_store_step L db a)" by (simp add: run_store_step_ok)
next
  fix db a k v
  assume a: "run_lib_ok L \<and> run_store_ok L db" "run_admissible L a" "run_version db k = Some v"
  then have "run_store_ok L (run_store_step L db a)" by (simp add: run_store_step_ok)
  then show "\<exists>v'. run_version (run_store_step L db a) k = Some v' \<and> v \<le> v'"
    using run_version_grow [OF _ run_store_step_grow [OF run_store_checked, of L] a(3)] a(1) run_store_ok_def by blast
qed

lemma run_store_run_grow:
  assumes "rows_checked db"
  shows "store_grow db (foldl (run_store_step L) db ops)"
  using assms
proof (induction ops arbitrary: db)
  case (Cons a ops)
  then have "store_grow (run_store_step L db a) (foldl (run_store_step L) (run_store_step L db a) ops)"
    by (intro Cons.IH run_store_step_checked)
  then show ?case using store_grow_trans [OF run_store_step_grow [OF Cons.prems]] by simp
qed simp

section \<open>Replaying a log\<close>

lemma filter_sequence_drop:
  assumes "map f xs = map int [1..<m]"
  shows "filter (\<lambda>v. int n < f v) xs = drop n xs"
proof -
  have len: "length xs = m - 1" using arg_cong [OF assms, of length] by simp
  have f: "f (xs ! i) = int (i + 1)" if "i < length xs" for i
    using arg_cong [OF assms, of "\<lambda>l. l ! i"] that len by simp
  have "filter (\<lambda>v. int n < f v) (take n xs) = []"
    using f by (auto simp: filter_empty_conv in_set_conv_nth)
  moreover have "filter (\<lambda>v. int n < f v) (drop n xs) = drop n xs"
    using f by (auto simp: filter_id_conv in_set_conv_nth)
  ultimately show ?thesis by (metis append_Nil append_take_drop_id filter_append)
qed

lemma replay_events:
  assumes ok: "run_store_ok L db" and r: "find (is_run ws rid) (agent_runs db) = Some r" and n: "n \<le> I64_MAX"
  obtains es where "run_pre L db r es" "replay L ws rid n db = Inr (drop n es)"
proof -
  obtain es where pre: "run_pre L db r es" using run_store_okD [OF ok r] by blast
  have r': "rr_id r = rid" "rr_workspace_id r = ws" using find_run [OF r] by auto
  define evs where "evs = events_of db rid"
  have seqs: "map ev_sequence evs = map int [1..<nat (rr_next_sequence r)]"
    and ws: "list_all (\<lambda>v. ev_workspace_id v = ws) evs" and dec: "try_map (decode_event L rid) evs = Inr es"
    using pre r' by (auto simp: run_pre_def evs_def)
  have "filter (\<lambda>v. ev_workspace_id v = ws \<and> ev_run_id v = rid \<and> int n < ev_sequence v) (agent_run_events db)
      = filter (\<lambda>v. int n < ev_sequence v) evs"
    using ws by (auto simp: evs_def events_of_def list_all_iff intro!: filter_cong)
  also have "\<dots> = drop n evs" by (rule filter_sequence_drop [OF seqs])
  finally have sel: "filter (\<lambda>v. ev_workspace_id v = ws \<and> ev_run_id v = rid \<and> int n < ev_sequence v) (agent_run_events db) = drop n evs" .
  have "sorted_wrt (\<lambda>v w. ev_sequence v \<le> ev_sequence w) evs"
    using seqs sorted_wrt_map [of "(\<le>)" ev_sequence evs] by (simp add: sorted_wrt_map)
  then have "sort_by (\<lambda>v w. ev_sequence v \<le> ev_sequence w) (drop n evs) = drop n evs"
    by (intro sort_by_sorted sorted_wrt_drop)
  moreover have "validate_workspace ws = Inr ()" using pre r' by (simp add: run_pre_def)
  ultimately have "replay L ws rid n db = Inr (drop n es)"
    using n r try_map_drop [OF dec, of n] by (simp add: replay_def sel ensure_def)
  then show thesis using that pre by blast
qed

section \<open>Operations that succeed\<close>

definition encode_total :: "run_lib \<Rightarrow> bool" where
  "encode_total L \<longleftrightarrow> (\<forall>e. readable (timestamp e) (data e) \<longrightarrow> (\<exists>j. j \<noteq> [] \<and> rl_encode L e = Some j))"

abbreviation event_ids :: "run_db \<Rightarrow> uuid set" where
  "event_ids db \<equiv> ev_event_id ` set (agent_run_events db)"

lemma append_success:
  assumes "store_frame L db rid" "find (is_run ws rid) (agent_runs db) = Some r" "run_pre L db r es"
    and "encode_total L" "eid \<notin> event_ids db" "readable t d"
  obtains v where "ev_event_id v = eid" "ev_run_id v = rid" "append_in_transaction L ws rid eid t d db = Inr (envelope r eid t d, add_event v (put_run (bump L t r) db))"
proof -
  have "readable (timestamp (envelope r eid t d)) (data (envelope r eid t d))" using assms(6) by (simp add: envelope_def)
  then obtain j where "j \<noteq> []" "rl_encode L (envelope r eid t d) = Some j" using assms(4) by (auto simp: encode_total_def)
  then show thesis
    using that [of "persist L ws (envelope r eid t d) j"] assms(5) find_run(2) [OF assms(2)]
    unfolding append_equation [OF assms(1-3)]
    by (simp add: persist_def envelope_def)
qed

text \<open>What an operation on the run \<open>rid\<close> leaves alone: the rows of the other runs.\<close>

definition others_same :: "uuid \<Rightarrow> run_db \<Rightarrow> run_db \<Rightarrow> bool" where
  "others_same rid db db' \<longleftrightarrow> conversations db' = conversations db \<and> messages db' = messages db
     \<and> (\<forall>x. rr_id x \<noteq> rid \<longrightarrow> (x \<in> set (agent_runs db')) = (x \<in> set (agent_runs db)))
     \<and> (\<forall>i. i \<noteq> rid \<longrightarrow> events_of db' i = events_of db i)"

lemma others_same_refl [simp]: "others_same rid db db"
  by (simp add: others_same_def)

lemma others_same_trans: "others_same rid a b \<Longrightarrow> others_same rid b c \<Longrightarrow> others_same rid a c"
  by (simp add: others_same_def)

lemma others_same_put [intro]: "rr_id r = rid \<Longrightarrow> others_same rid db (put_run r db)"
  unfolding others_same_def put_run_simps by (auto simp: put_run_def)

lemma others_same_add [simp]: "ev_run_id v = rid \<Longrightarrow> others_same rid db (add_event v db') = others_same rid db db'"
  by (simp add: others_same_def)

lemma append_event_success:
  assumes ok: "run_store_ok L db" and r: "find (is_run ws rid) (agent_runs db) = Some r"
    and L: "run_lib_ok L" "encode_total L" and u: "canonical L eid" "eid \<notin> event_ids db" and d: "\<not> is_state_event d" "readable t d"
  obtains db' where "append_event L ws rid eid t d db = (Inr (envelope r eid t d), db')" "run_store_ok L db'"
    "find (is_run ws rid) (agent_runs db') = Some (bump L t r)" "event_ids db' = insert eid (event_ids db)" "others_same rid db db'"
proof -
  obtain es where pre: "run_pre L db r es" using run_store_okD [OF ok r] by blast
  note f = run_store_frame [OF ok, of rid]
  obtain v where v: "ev_event_id v = eid" "ev_run_id v = rid"
    and ap: "append_in_transaction L ws rid eid t d db = Inr (envelope r eid t d, add_event v (put_run (bump L t r) db))"
    using append_success [OF f r pre L(2) u(2) d(2)] by metis
  have e: "append_event L ws rid eid t d db = (Inr (envelope r eid t d), add_event v (put_run (bump L t r) db))"
    using d(1) ap by (simp add: append_event_def in_transaction_def)
  have "run_store_ok L (add_event v (put_run (bump L t r) db))" using append_event_ok [OF ok L(1) u(1) d(2), of ws rid] e by simp
  moreover have "others_same rid db (put_run (bump L t r) db)" using find_run(2) [OF r] by (intro others_same_put) simp
  ultimately show thesis using that [OF e] append_step(2) [OF f r pre L(1) u(1) ap d(2)] v by simp
qed

lemma finish_success:
  fixes t :: int and amid :: "uuid option"
  assumes ok: "run_store_ok L db" and r: "find (is_run ws rid) (agent_runs db) = Some r"
    and p: "rr_state r = state_text (previous ch)" "\<not> is_terminal (previous ch)"
    and c: "outcome_state out = current ch" and L: "run_lib_ok L" "encode_total L"
    and u: "canonical L eid1" "canonical L eid2" "eid1 \<noteq> eid2" "eid1 \<notin> event_ids db" "eid2 \<notin> event_ids db"
    and t: "rfc3339_instant t"
  defines "r1 \<equiv> r\<lparr>rr_state := state_text (current ch), rr_updated_at := rl_text L t, rr_completed_at := Some (rl_text L t)\<rparr>"
  defines "e1 \<equiv> envelope r1 eid1 t (RunStateChanged ch)"
  defines "e2 \<equiv> envelope (bump L t r1) eid2 t (RunCompleted \<lparr>outcome = out, assistant_message_id = amid\<rparr>)"
  obtains db' where "run_store_finish L ws rid ch out amid t eid1 eid2 db = (Inr [e1, e2], db')"
    "run_store_ok L db'" "find (is_run ws rid) (agent_runs db') = Some (bump L t (bump L t r1))"
    "event_ids db' = {eid1, eid2} \<union> event_ids db" "others_same rid db db'"
    "\<And>es. run_pre L db r es \<Longrightarrow> run_pre L db' (bump L t (bump L t r1)) (es @ [e1, e2])"
proof -
  have tc: "is_terminal (current ch)" using outcome_terminal [of out] by (simp add: c)
  have R: "readable t (RunStateChanged ch)" "readable t (RunCompleted \<lparr>outcome = out, assistant_message_id = amid\<rparr>)"
    using t by (simp_all add: readable_plain)
  obtain es where pre: "run_pre L db r es" using run_store_okD [OF ok r] by blast
  note f = run_store_frame [OF ok, of rid]
  have r1: "rr_id r1 = rid" "rr_workspace_id r1 = ws" using find_run [OF r] by (simp_all add: r1_def)
  have st: "set_state L code ws rid (previous ch) (current ch) t True db = Inr ((), put_run r1 db) \<and> run_pre L db r1 es" for code
    using set_state_effect [OF f r pre p(1) _ p(2) L(1) t, of True "current ch"] tc by (simp add: r1_def)
  have f1: "store_frame L (put_run r1 db) rid" using f r1(1) by (rule store_frame_put)
  have d0: "distinct (map rr_id (agent_runs db))" using ok by (simp add: run_store_ok_def)
  have fr1: "find (is_run ws rid) (agent_runs (put_run r1 db)) = Some r1" by (rule put_run_find [OF d0 r r1])
  have pre1: "run_pre L (put_run r1 db) r1 es" using st by simp
  have n1: "eid1 \<notin> event_ids (put_run r1 db)" using u(4) by simp
  obtain v1 where v1: "ev_event_id v1 = eid1" "ev_run_id v1 = rid" and a1: "append_in_transaction L ws rid eid1 t (RunStateChanged ch) (put_run r1 db)
      = Inr (e1, add_event v1 (put_run (bump L t r1) (put_run r1 db)))"
    unfolding e1_def using append_success [OF f1 fr1 pre1 L(2) n1 R(1)] by metis
  define db2 where "db2 = add_event v1 (put_run (bump L t r1) (put_run r1 db))"
  note s1 = append_step [OF f1 fr1 pre1 L(1) u(1) a1 R(1), folded db2_def]
  have pre2: "run_pre L db2 (bump L t r1) (es @ [e1])"
    using s1(3) same_event_exact [of e1] by (auto simp: e1_def envelope_def)
  have n2: "eid2 \<notin> event_ids db2" using u(3,5) v1 by (simp add: db2_def)
  obtain v2 where v2: "ev_event_id v2 = eid2" "ev_run_id v2 = rid" and a2: "append_in_transaction L ws rid eid2 t
      (RunCompleted \<lparr>outcome = out, assistant_message_id = amid\<rparr>) db2 = Inr (e2, add_event v2 (put_run (bump L t (bump L t r1)) db2))"
    unfolding e2_def using append_success [OF s1(4,2) pre2 L(2) n2 R(2)] by metis
  define db3 where "db3 = add_event v2 (put_run (bump L t (bump L t r1)) db2)"
  note s2 = append_step [OF s1(4,2) pre2 L(1) u(2) a2 R(2), folded db3_def]
  have pre3: "run_pre L db3 (bump L t (bump L t r1)) ((es @ [e1]) @ [e2])"
    using s2(3) same_event_exact [of e2] by (auto simp: e2_def envelope_def)
  obtain cur where rd: "read_run L ''agent_run_not_found'' ws rid db = Inr cur" "ar_state cur = previous ch"
  proof -
    obtain x where "run_read L ws rid db = Inr (Some x)" "ar_state x = previous ch"
      using run_read_decode [OF r p(1) pre] by metis
    then show thesis using that by (simp add: read_run_def)
  qed
  have "run_finish_tx L ws rid ch out amid t eid1 eid2 db = Inr ([e1, e2], db3)"
    unfolding run_finish_tx_def using rd st a1 a2 by (simp add: ensure_def db2_def db3_def)
  moreover have "validate_workspace ws = Inr ()" using pre find_run(3) [OF r] by (simp add: run_pre_def)
  ultimately have fin: "run_store_finish L ws rid ch out amid t eid1 eid2 db = (Inr [e1, e2], db3)"
    using p(2) tc c by (simp add: run_store_finish_def in_transaction_def)
  have "run_store_ok L db3" using run_store_finish_ok [OF ok L(1) u(1,2) t, of ws rid ch out amid] fin by simp
  moreover have "others_same rid db db3"
  proof -
    have "others_same rid db (put_run r1 db)" using r1(1) by (rule others_same_put)
    moreover have "others_same rid (put_run r1 db) db2" unfolding db2_def others_same_add [OF v1(2)] using r1(1) by (intro others_same_put) simp
    moreover have "others_same rid db2 db3" unfolding db3_def others_same_add [OF v2(2)] using r1(1) by (intro others_same_put) simp
    ultimately show ?thesis using others_same_trans by metis
  qed
  moreover have "run_pre L db3 (bump L t (bump L t r1)) (es' @ [e1, e2])" if "run_pre L db r es'" for es'
    using pre3 that pre by (simp add: run_pre_def)
  ultimately show thesis using that [OF fin _ s2(2)] v1 v2 by (simp add: db3_def db2_def)
qed

lemma replay_same:
  assumes o: "others_same rid db db'" and i: "i \<noteq> rid"
  shows "replay L ws i n db' = replay L ws i n db"
proof -
  have f: "(find (is_run ws i) (agent_runs db') \<noteq> None) = (find (is_run ws i) (agent_runs db) \<noteq> None)"
    using o i by (auto simp: others_same_def find_None_all is_run_def)
  have e: "filter (\<lambda>v. ev_workspace_id v = ws \<and> ev_run_id v = i \<and> int n < ev_sequence v) (agent_run_events d)
      = filter (\<lambda>v. ev_workspace_id v = ws \<and> int n < ev_sequence v) (events_of d i)" for d
    by (auto simp: events_of_def intro!: filter_cong)
  show ?thesis unfolding replay_def e f using o i by (simp add: others_same_def)
qed

lemma find_same:
  assumes "others_same rid db db'" "i \<noteq> rid" "distinct (map rr_id (agent_runs db))" "distinct (map rr_id (agent_runs db'))"
  shows "find (is_run ws i) (agent_runs db') = Some r \<longleftrightarrow> find (is_run ws i) (agent_runs db) = Some r"
  unfolding find_run_iff [OF assms(3)] find_run_iff [OF assms(4)] using assms(1,2) by (auto simp: others_same_def)

end
