(* ===== verification/Chat_Message.thy ===== *)
theory Chat_Message
  imports Agent_Protocol
begin

text \<open>The messages of a conversation with a model (\<open>providers/capabilities.rs\<close>) and the checkpoints of a run that hold them
  (\<open>agent/loop_types.rs\<close>).\<close>

record chat_tool_call =
  ct_id :: rstr
  ct_name :: rstr
  ct_arguments :: rstr

text \<open>An image is its data and its MIME type.\<close>

record chat_message =
  cm_role :: rstr
  cm_content :: rstr
  cm_images :: "(rstr \<times> rstr) list"
  cm_reasoning_content :: "rstr option"
  cm_tool_call_id :: "rstr option"
  cm_tool_calls :: "chat_tool_call list"

definition ChatMessage_new :: "rstr \<Rightarrow> rstr \<Rightarrow> chat_message" where
  "ChatMessage_new role content = \<lparr>cm_role = role, cm_content = content, cm_images = [], cm_reasoning_content = None,
     cm_tool_call_id = None, cm_tool_calls = []\<rparr>"

definition ChatMessage_with_images :: "rstr \<Rightarrow> rstr \<Rightarrow> (rstr \<times> rstr) list \<Rightarrow> chat_message" where
  "ChatMessage_with_images role content images = (ChatMessage_new role content)\<lparr>cm_images := images\<rparr>"

text \<open>What a run saves to be resumed from.\<close>

record AgentContextCheckpoint =
  ck_reason :: CheckpointReason
  ck_model_call_index :: nat
  ck_model_calls :: nat
  ck_tool_calls :: nat
  ck_tool_round :: nat
  ck_recovery_attempt :: nat
  ck_messages :: "chat_message list"

end
