(* ===== verification/Run_Recovery.thy ===== *)
theory Run_Recovery
  imports Run_Log Chat_Message
begin

text \<open>
  Crash recovery of agent runs (\<open>agent/runtime/recovery.rs\<close>) with the durable checkpoints it reads
  (\<open>storage/repositories/checkpoints.rs\<close>, \<open>turn_snapshots.rs\<close>): what to do with a run that was active when the
  process died, the lease that keeps two processes from recovering the same run, and the cancel, fail and retry
  commands.  The UUIDs an operation generates are an argument, \<open>fresh run_id k\<close> being the \<open>k\<close>-th one generated
  for a run.
\<close>

record checkpoint_row =
  kr_run_id :: rstr
  kr_workspace_id :: rstr
  kr_reason :: rstr
  kr_json :: rstr
  kr_updated_at :: rstr

record snapshot_row =
  nr_run_id :: rstr
  nr_snap_workspace_id :: rstr
  nr_snapshot_json :: rstr

text \<open>The JSON library on checkpoints, and on turn snapshots the ids and idempotence of their tools.\<close>

record checkpoint_lib =
  cl_encode :: "AgentContextCheckpoint \<Rightarrow> rstr option"
  cl_decode :: "rstr \<Rightarrow> AgentContextCheckpoint option"
  cl_snapshot_tools :: "rstr \<Rightarrow> (rstr \<times> bool) list option"

record agent_db =
  ad_runs :: run_db
  ad_checkpoints :: "checkpoint_row list"
  ad_snapshots :: "snapshot_row list"

section \<open>Checkpoints\<close>

fun reason_text :: "CheckpointReason \<Rightarrow> rstr" where
  "reason_text ModelCall = str ''model_call''"
| "reason_text AssistantResult = str ''assistant_result''"
| "reason_text AssistantError = str ''assistant_error''"

definition MAX_CHECKPOINT_BYTES :: nat where
  "MAX_CHECKPOINT_BYTES = 512 * 1024"

definition checkpoint_save ::
  "run_lib \<Rightarrow> checkpoint_lib \<Rightarrow> rstr \<Rightarrow> uuid \<Rightarrow> AgentContextCheckpoint \<Rightarrow> int \<Rightarrow> agent_db \<Rightarrow> (StorageError, agent_db) result" where
  "checkpoint_save L K ws rid cp t db =
     (let durable = cp\<lparr>ck_messages := map (\<lambda>m. m\<lparr>cm_images := []\<rparr>) (ck_messages cp)\<rparr> in
      rbind (ok_or (StorageError ''agent_checkpoint_encode_failed'') (cl_encode K durable)) (\<lambda>j.
      rbind (ensure (str_len j \<le> MAX_CHECKPOINT_BYTES) (StorageError ''agent_checkpoint_too_large'')) (\<lambda>_.
      let row = \<lparr>kr_run_id = rid, kr_workspace_id = ws, kr_reason = reason_text (ck_reason cp), kr_json = j,
                 kr_updated_at = rl_text L t\<rparr> in
      rbind (ensure (j \<noteq> [] \<and> rid \<in> rr_id ` set (agent_runs (ad_runs db)))
               (StorageError ''agent_checkpoint_storage_failed'')) (\<lambda>_.
      Inr (db\<lparr>ad_checkpoints :=
        (if rid \<in> kr_run_id ` set (ad_checkpoints db)
         then map (\<lambda>k. if kr_run_id k = rid then row else k) (ad_checkpoints db)
         else ad_checkpoints db @ [row])\<rparr>)))))"

definition checkpoint_get ::
  "checkpoint_lib \<Rightarrow> rstr \<Rightarrow> uuid \<Rightarrow> agent_db \<Rightarrow> (StorageError, AgentContextCheckpoint option) result" where
  "checkpoint_get K ws rid db =
     (case find (\<lambda>k. kr_workspace_id k = ws \<and> kr_run_id k = rid) (ad_checkpoints db) of
        None \<Rightarrow> Inr None
      | Some k \<Rightarrow> rbind (ok_or (StorageError ''agent_checkpoint_decode_failed'') (cl_decode K (kr_json k))) (\<lambda>c. Inr (Some c)))"

definition snapshot_get :: "checkpoint_lib \<Rightarrow> rstr \<Rightarrow> uuid \<Rightarrow> agent_db \<Rightarrow> (StorageError, (rstr \<times> bool) list option) result" where
  "snapshot_get K ws rid db =
     (case find (\<lambda>n. nr_snap_workspace_id n = ws \<and> nr_run_id n = rid) (ad_snapshots db) of
        None \<Rightarrow> Inr None
      | Some n \<Rightarrow> rbind (ok_or (StorageError ''agent_turn_snapshot_decode_failed'') (cl_snapshot_tools K (nr_snapshot_json n)))
                   (\<lambda>ts. Inr (Some ts)))"

section \<open>What the log says is pending\<close>

record PendingPermission =
  pp_permission_id :: uuid
  pp_tool_call_id :: uuid
  pp_tool_id :: rstr
  pp_tool_name :: rstr
  pp_arguments :: json
  pp_risk :: PermissionRisk
  pp_reason :: rstr
  pp_summary :: rstr

record ToolCheckpoint =
  tk_tool_call_id :: uuid
  tk_tool_id :: rstr
  tk_tool_name :: rstr
  tk_arguments :: json

datatype RecoveryAction =
    Regenerate
  | AwaitPermissions "PendingPermission list"
  | ResumeTools "ToolCheckpoint list"
  | ResumeFromCheckpoint AgentContextCheckpoint

fun action_kind :: "RecoveryAction \<Rightarrow> rstr" where
  "action_kind Regenerate = str ''regenerate''"
| "action_kind (AwaitPermissions _) = str ''await_permissions''"
| "action_kind (ResumeTools _) = str ''resume_tools''"
| "action_kind (ResumeFromCheckpoint _) = str ''resume_from_checkpoint''"

type_synonym tool_table = "(uuid \<times> (rstr \<times> rstr \<times> json)) list"

fun pending_permissions_step ::
  "PendingPermission list \<times> tool_table \<Rightarrow> AgentEventEnvelope \<Rightarrow> PendingPermission list \<times> tool_table" where
  "pending_permissions_step (pending, tools) e =
     (case data e of
        ToolRequested t \<Rightarrow> (pending, (tq_tool_call_id t, (tq_tool_id t, tq_tool_name t, tq_arguments t)) # tools)
      | PermissionRequested p \<Rightarrow>
          (let t = map_of tools (pq_tool_call_id p) in
           (pending @ [\<lparr>pp_permission_id = pq_permission_id p, pp_tool_call_id = pq_tool_call_id p,
              pp_tool_id = (case t of None \<Rightarrow> [] | Some (i, _, _) \<Rightarrow> i),
              pp_tool_name = (case t of None \<Rightarrow> [] | Some (_, n, _) \<Rightarrow> n),
              pp_arguments = (case t of None \<Rightarrow> JNull | Some (_, _, a) \<Rightarrow> a),
              pp_risk = pq_risk p, pp_reason = pq_reason p, pp_summary = pq_summary p\<rparr>], tools))
      | PermissionResolved pid _ \<Rightarrow> (filter (\<lambda>p. pp_permission_id p \<noteq> pid) pending, tools)
      | _ \<Rightarrow> (pending, tools))"

definition pending_permissions :: "AgentEventEnvelope list \<Rightarrow> PendingPermission list" where
  "pending_permissions events = fst (foldl pending_permissions_step ([], []) events)"

definition tool_checkpoint :: "tool_requested \<Rightarrow> ToolCheckpoint" where
  "tool_checkpoint t = \<lparr>tk_tool_call_id = tq_tool_call_id t, tk_tool_id = tq_tool_id t, tk_tool_name = tq_tool_name t,
     tk_arguments = tq_arguments t\<rparr>"

definition pending_tools_step :: "ToolCheckpoint list \<Rightarrow> AgentEventEnvelope \<Rightarrow> ToolCheckpoint list" where
  "pending_tools_step pending e =
     (case data e of
        ToolRequested t \<Rightarrow> pending @ [tool_checkpoint t]
      | ToolCompleted t \<Rightarrow> filter (\<lambda>k. tk_tool_call_id k \<noteq> tc_tool_call_id t) pending
      | _ \<Rightarrow> pending)"

definition pending_tools :: "AgentEventEnvelope list \<Rightarrow> ToolCheckpoint list" where
  "pending_tools events = foldl pending_tools_step [] events"

text \<open>Instants in nanoseconds: the lease is ten minutes.\<close>

definition RECOVERY_LEASE_TIMEOUT :: int where
  "RECOVERY_LEASE_TIMEOUT = 10 * 60 * 1000000000"

definition active_recovery_step :: "(uuid \<times> int) option \<Rightarrow> AgentEventEnvelope \<Rightarrow> (uuid \<times> int) option" where
  "active_recovery_step active e =
     (case data e of
        RecoveryStarted s \<Rightarrow> Some (rs_recovery_id s, timestamp e)
      | RecoveryCompleted c \<Rightarrow>
          (case active of Some (i, _) \<Rightarrow> if i = rd_recovery_id c then None else active | None \<Rightarrow> None)
      | _ \<Rightarrow> active)"

definition active_recovery_id :: "AgentEventEnvelope list \<Rightarrow> int \<Rightarrow> uuid option" where
  "active_recovery_id events now =
     (case foldl active_recovery_step None events of
        None \<Rightarrow> None
      | Some (i, started) \<Rightarrow>
          if now - started < 0 then Some i
          else if now - started < RECOVERY_LEASE_TIMEOUT then Some i else None)"

definition recovery_action ::
  "AgentRunRecord \<Rightarrow> AgentEventEnvelope list \<Rightarrow> AgentContextCheckpoint option \<Rightarrow> rstr set \<Rightarrow> RecoveryAction" where
  "recovery_action run events checkpoint idempotent =
     (case ar_state run of
        AwaitingPermission \<Rightarrow>
          (let ps = pending_permissions events in if ps = [] then Regenerate else AwaitPermissions ps)
      | ExecutingTools \<Rightarrow>
          (let ts = pending_tools events in
           if ts \<noteq> [] \<and> (\<forall>k \<in> set ts. tk_tool_id k \<in> idempotent) then ResumeTools ts else Regenerate)
      | st \<Rightarrow>
          if st \<in> {Generating, Preparing, Verifying} then
            (case checkpoint of
               Some c \<Rightarrow> if ck_recovery_attempt c < 2 \<and> ck_reason c \<in> {ModelCall, AssistantResult}
                          then ResumeFromCheckpoint c else Regenerate
             | None \<Rightarrow> Regenerate)
          else Regenerate)"

section \<open>The recovery service\<close>

datatype recovery_error = Storage StorageError | Message string

record RecoveredRun =
  rv_run :: AgentRunRecord
  rv_action :: RecoveryAction
  rv_events :: "AgentEventEnvelope list"
  rv_recovery_id :: uuid

record RunCommandResult =
  cr_run :: AgentRunRecord
  cr_events :: "AgentEventEnvelope list"
  cr_replay_only :: bool

type_synonym 'a rec_io = "agent_db \<Rightarrow> (recovery_error, 'a) result \<times> agent_db"

text \<open>A call of the run store, and a pure read.\<close>

definition on_runs :: "'a run_io \<Rightarrow> 'a rec_io" where
  "on_runs f db = (case f (ad_runs db) of (r, d) \<Rightarrow> (map_err Storage r, db\<lparr>ad_runs := d\<rparr>))"

definition pure_io :: "(agent_db \<Rightarrow> (recovery_error, 'a) result) \<Rightarrow> 'a rec_io" where
  "pure_io f db = (f db, db)"

definition io_bind :: "'a rec_io \<Rightarrow> ('a \<Rightarrow> 'b rec_io) \<Rightarrow> 'b rec_io" where
  "io_bind m f db = (case m db of (Inl e, db') \<Rightarrow> (Inl e, db') | (Inr x, db') \<Rightarrow> f x db')"

definition require_run :: "run_lib \<Rightarrow> rstr \<Rightarrow> uuid \<Rightarrow> agent_db \<Rightarrow> (recovery_error, AgentRunRecord) result" where
  "require_run L ws rid db =
     rbind (map_err Storage (get_run L ws rid (ad_runs db))) (ok_or (Message ''agent run not found''))"

definition recovery_replay :: "run_lib \<Rightarrow> rstr \<Rightarrow> uuid \<Rightarrow> nat \<Rightarrow> agent_db \<Rightarrow> (recovery_error, AgentEventEnvelope list) result" where
  "recovery_replay L ws rid after db = map_err Storage (replay L ws rid after (ad_runs db))"

definition effective_idempotent :: "rstr set \<Rightarrow> (rstr \<times> bool) list option \<Rightarrow> rstr set" where
  "effective_idempotent base snap = base \<union> (case snap of None \<Rightarrow> {} | Some ts \<Rightarrow> fst ` set (filter snd ts))"

definition recover_one ::
  "run_lib \<Rightarrow> checkpoint_lib \<Rightarrow> rstr \<Rightarrow> rstr set \<Rightarrow> int \<Rightarrow> (uuid \<Rightarrow> nat \<Rightarrow> uuid) \<Rightarrow> AgentRunRecord \<Rightarrow> RecoveredRun rec_io" where
  "recover_one L K ws idem t fresh run =
     io_bind (pure_io (recovery_replay L ws (ar_id run) 0)) (\<lambda>events.
     io_bind (pure_io (\<lambda>db. map_err Storage (checkpoint_get K ws (ar_id run) db))) (\<lambda>checkpoint.
     io_bind (pure_io (\<lambda>db. map_err Storage (snapshot_get K ws (ar_id run) db))) (\<lambda>snap.
     let attempt = (case checkpoint of None \<Rightarrow> 0 | Some c \<Rightarrow> ck_recovery_attempt c);
         action = recovery_action run events checkpoint (effective_idempotent idem snap);
         lease = active_recovery_id events t;
         rec_id = fresh (ar_id run) 0 in
     if action \<noteq> Regenerate \<and> lease \<noteq> None
     then (\<lambda>db. (Inr \<lparr>rv_run = run, rv_action = action, rv_events = [],
                      rv_recovery_id = (case lease of Some i \<Rightarrow> i | None \<Rightarrow> [])\<rparr>, db))
     else
       io_bind (on_runs (append_event L ws (ar_id run) rec_id t
         (RecoveryStarted \<lparr>rs_recovery_id = rec_id, rs_action = action_kind action, rs_recovery_attempt = attempt\<rparr>))) (\<lambda>started.
       if action \<noteq> Regenerate
       then (\<lambda>db. (Inr \<lparr>rv_run = run, rv_action = action, rv_events = [started], rv_recovery_id = rec_id\<rparr>, db))
       else
         io_bind (on_runs (run_store_finish L ws (ar_id run)
           \<lparr>previous = ar_state run, current = Interrupted, reason = Some (str ''app_restart'')\<rparr> OutcomeInterrupted None t
           (fresh (ar_id run) 1) (fresh (ar_id run) 2))) (\<lambda>finished.
         io_bind (on_runs (append_event L ws (ar_id run) (fresh (ar_id run) 3) t
           (RecoveryCompleted \<lparr>rd_recovery_id = rec_id, rd_action = action_kind action,
              rd_outcome = Some OutcomeInterrupted\<rparr>))) (\<lambda>completed.
         io_bind (pure_io (require_run L ws (ar_id run))) (\<lambda>run'.
         (\<lambda>db. (Inr \<lparr>rv_run = run', rv_action = action, rv_events = [started] @ finished @ [completed],
                     rv_recovery_id = rec_id\<rparr>, db)))))))))"

fun recover_runs ::
  "run_lib \<Rightarrow> checkpoint_lib \<Rightarrow> rstr \<Rightarrow> rstr set \<Rightarrow> int \<Rightarrow> (uuid \<Rightarrow> nat \<Rightarrow> uuid) \<Rightarrow> AgentRunRecord list \<Rightarrow> RecoveredRun list rec_io" where
  "recover_runs L K ws idem t fresh [] db = (Inr [], db)"
| "recover_runs L K ws idem t fresh (r # rs) db =
     io_bind (recover_one L K ws idem t fresh r) (\<lambda>x.
     io_bind (recover_runs L K ws idem t fresh rs) (\<lambda>xs. (\<lambda>db. (Inr (x # xs), db)))) db"

definition AgentRecoveryService_new :: "rstr \<Rightarrow> (recovery_error, unit) result" where
  "AgentRecoveryService_new ws =
     (if trim ws = [] \<or> trim ws \<noteq> ws then Inl (Message ''workspace_id is invalid'') else Inr ())"

definition recover_active ::
  "run_lib \<Rightarrow> checkpoint_lib \<Rightarrow> rstr \<Rightarrow> rstr set \<Rightarrow> int \<Rightarrow> (uuid \<Rightarrow> nat \<Rightarrow> uuid) \<Rightarrow> RecoveredRun list rec_io" where
  "recover_active L K ws idem t fresh =
     io_bind (pure_io (\<lambda>db. map_err Storage (list_nonterminal L ws None (ad_runs db)))) (recover_runs L K ws idem t fresh)"

definition recover_stale ::
  "run_lib \<Rightarrow> checkpoint_lib \<Rightarrow> rstr \<Rightarrow> rstr set \<Rightarrow> int \<Rightarrow> int \<Rightarrow> (uuid \<Rightarrow> nat \<Rightarrow> uuid) \<Rightarrow> RecoveredRun list rec_io" where
  "recover_stale L K ws idem cutoff t fresh =
     io_bind (pure_io (\<lambda>db. map_err Storage (list_nonterminal L ws (Some cutoff) (ad_runs db)))) (recover_runs L K ws idem t fresh)"

definition finish_command ::
  "run_lib \<Rightarrow> rstr \<Rightarrow> uuid \<Rightarrow> RunOutcome \<Rightarrow> rstr \<Rightarrow> uuid option \<Rightarrow> int \<Rightarrow> (uuid \<Rightarrow> nat \<Rightarrow> uuid) \<Rightarrow> RunCommandResult rec_io" where
  "finish_command L ws rid out why amid t fresh =
     io_bind (pure_io (require_run L ws rid)) (\<lambda>run.
     if is_terminal (ar_state run) then
       io_bind (pure_io (recovery_replay L ws rid 0)) (\<lambda>events.
       (\<lambda>db. (Inr \<lparr>cr_run = run, cr_events = events, cr_replay_only = True\<rparr>, db)))
     else
       io_bind (on_runs (run_store_finish L ws rid \<lparr>previous = ar_state run, current = outcome_state out, reason = Some why\<rparr>
         out amid t (fresh rid 0) (fresh rid 1))) (\<lambda>events.
       io_bind (pure_io (require_run L ws rid)) (\<lambda>run'.
       (\<lambda>db. (Inr \<lparr>cr_run = run', cr_events = events, cr_replay_only = False\<rparr>, db)))))"

definition recovery_cancel where
  "recovery_cancel L ws rid amid t fresh = finish_command L ws rid OutcomeCancelled (str ''user_cancelled'') amid t fresh"

definition recovery_fail where
  "recovery_fail L ws rid why t fresh = finish_command L ws rid OutcomeFailed why None t fresh"

definition recovery_retry ::
  "run_lib \<Rightarrow> rstr \<Rightarrow> uuid \<Rightarrow> uuid \<Rightarrow> uuid \<Rightarrow> int \<Rightarrow> (AgentRunRecord \<times> AgentEventEnvelope) rec_io" where
  "recovery_retry L ws source rid eid t =
     io_bind (pure_io (require_run L ws source)) (\<lambda>s.
     if \<not> is_terminal (ar_state s) then (\<lambda>db. (Inl (Message ''agent run must be terminal before retry''), db))
     else on_runs (create_run L \<lparr>nr_id = rid, nr_workspace_id = ws, nr_conversation_id = ar_conversation_id s,
            nr_user_message_id = ar_user_message_id s, nr_event_id = eid, nr_timestamp = t\<rparr>))"

section \<open>Lemmas\<close>

fun completes :: "uuid \<Rightarrow> AgentEventEnvelope \<Rightarrow> bool" where
  "completes i e = (case data e of ToolCompleted t \<Rightarrow> tc_tool_call_id t = i | _ \<Rightarrow> False)"

text \<open>The reference reading of a log: a requested call is unfinished when no later event completes it.\<close>

fun unfinished :: "AgentEventEnvelope list \<Rightarrow> ToolCheckpoint list" where
  "unfinished [] = []"
| "unfinished (e # es) =
     (case data e of
        ToolRequested t \<Rightarrow> if (\<exists>x \<in> set es. completes (tq_tool_call_id t) x) then unfinished es
                           else tool_checkpoint t # unfinished es
      | _ \<Rightarrow> unfinished es)"

lemma tool_checkpoint_id [simp]: "tk_tool_call_id (tool_checkpoint t) = tq_tool_call_id t"
  by (simp add: tool_checkpoint_def)

lemma pending_tools_fold:
  "foldl pending_tools_step acc es = filter (\<lambda>k. \<not> (\<exists>x \<in> set es. completes (tk_tool_call_id k) x)) acc @ unfinished es"
proof (induction es arbitrary: acc)
  case (Cons e es)
  show ?case
  proof (cases "data e")
    case (ToolRequested t)
    then have c: "\<not> completes i e" for i by simp
    have s: "pending_tools_step acc e = acc @ [tool_checkpoint t]" using ToolRequested by (simp add: pending_tools_step_def)
    show ?thesis unfolding foldl_Cons s Cons using ToolRequested c by (simp del: completes.simps)
  next
    case (ToolCompleted t)
    then have c: "completes i e \<longleftrightarrow> tc_tool_call_id t = i" for i by simp
    have s: "pending_tools_step acc e = filter (\<lambda>k. tk_tool_call_id k \<noteq> tc_tool_call_id t) acc"
      using ToolCompleted by (simp add: pending_tools_step_def)
    have "unfinished (e # es) = unfinished es" using ToolCompleted by simp
    then show ?thesis unfolding foldl_Cons s Cons filter_filter by (auto simp: c simp del: completes.simps intro!: filter_cong)
  qed (use Cons in \<open>simp_all add: pending_tools_step_def\<close>)
qed simp

lemma recovery_action_resume_tools:
  assumes "recovery_action run es cp idem = ResumeTools ts"
  shows "ar_state run = ExecutingTools \<and> ts = pending_tools es \<and> ts \<noteq> [] \<and> (\<forall>k \<in> set ts. tk_tool_id k \<in> idem)"
  using assms by (auto simp: recovery_action_def Let_def split: AgentRunState.splits option.splits if_splits)

section \<open>Recovery settles every run\<close>

definition checkpoints_readable :: "checkpoint_lib \<Rightarrow> rstr \<Rightarrow> agent_db \<Rightarrow> bool" where
  "checkpoints_readable K ws db \<longleftrightarrow> (\<forall>rid. is_ok (checkpoint_get K ws rid db) \<and> is_ok (snapshot_get K ws rid db))"

text \<open>What recovery promises of one run: it is handed back with its id; unless it can be resumed it is
  interrupted, otherwise it keeps its state; and tools are resumed only when the log shows them unfinished and
  all of them are idempotent.\<close>

definition tools_of :: "checkpoint_lib \<Rightarrow> rstr \<Rightarrow> uuid \<Rightarrow> agent_db \<Rightarrow> (rstr \<times> bool) list option" where
  "tools_of K ws rid db = (case snapshot_get K ws rid db of Inl _ \<Rightarrow> None | Inr s \<Rightarrow> s)"

definition settled ::
  "run_lib \<Rightarrow> checkpoint_lib \<Rightarrow> rstr \<Rightarrow> rstr set \<Rightarrow> agent_db \<Rightarrow> agent_db \<Rightarrow> AgentRunRecord \<Rightarrow> RecoveredRun \<Rightarrow> bool" where
  "settled L K ws idem db db' run x \<longleftrightarrow>
     ar_id (rv_run x) = ar_id run
     \<and> ar_state (rv_run x) = (if rv_action x = Regenerate then Interrupted else ar_state run)
     \<and> (\<exists>r. find (is_run ws (ar_id run)) (agent_runs (ad_runs db')) = Some r \<and> rr_state r = state_text (ar_state (rv_run x)))
     \<and> (\<forall>ts. rv_action x = ResumeTools ts \<longrightarrow> ar_state run = ExecutingTools \<and> ts \<noteq> []
          \<and> (\<forall>k \<in> set ts. tk_tool_id k \<in> effective_idempotent idem (tools_of K ws (ar_id run) db))
          \<and> (\<exists>es. replay L ws (ar_id run) 0 (ad_runs db) = Inr es \<and> ts = unfinished es))"

lemma io_simps:
  "m db = (Inr x, db') \<Longrightarrow> io_bind m f db = f x db'"
  "g db = Inr y \<Longrightarrow> io_bind (pure_io g) f db = f y db"
  "h (ad_runs db) = (Inr z, d) \<Longrightarrow> io_bind (on_runs h) f db = f z (db\<lparr>ad_runs := d\<rparr>)"
  by (simp_all add: io_bind_def pure_io_def on_runs_def)

lemma ad_runs_id [simp]: "db\<lparr>ad_runs := ad_runs db\<rparr> = db"
  by simp

lemma decode_run_id: "run_pre L db r es \<Longrightarrow> decode_run L r = Inr run \<Longrightarrow> ar_id run = rr_id r"
  by (auto simp: run_pre_def canonical_def dest: decode_run_fields(4))

lemma require_run_ok:
  assumes "run_store_ok L (ad_runs db)" "find (is_run ws rid) (agent_runs (ad_runs db)) = Some r" "rr_state r = state_text st"
  obtains x where "require_run L ws rid db = Inr x" "ar_id x = rid" "ar_state x = st"
proof -
  obtain es where pre: "run_pre L (ad_runs db) r es" using run_store_okD [OF assms(1,2)] by blast
  obtain x where x: "run_read L ws rid (ad_runs db) = Inr (Some x)" "ar_state x = st" "decode_run L r = Inr x"
    using run_read_decode [OF assms(2,3) pre] by metis
  have "validate_workspace ws = Inr ()" using pre find_run(3) [OF assms(2)] by (simp add: run_pre_def)
  then show thesis using that x decode_run_id [OF pre x(3)] find_run(2) [OF assms(2)] by (simp add: require_run_def get_run_def)
qed

definition started_event :: "(uuid \<Rightarrow> nat \<Rightarrow> uuid) \<Rightarrow> uuid \<Rightarrow> RecoveryAction \<Rightarrow> AgentContextCheckpoint option \<Rightarrow> AgentEventData" where
  "started_event fresh rid act cp = RecoveryStarted \<lparr>rs_recovery_id = fresh rid 0, rs_action = action_kind act,
     rs_recovery_attempt = (case cp of None \<Rightarrow> 0 | Some c \<Rightarrow> ck_recovery_attempt c)\<rparr>"

definition completed_event :: "(uuid \<Rightarrow> nat \<Rightarrow> uuid) \<Rightarrow> uuid \<Rightarrow> RecoveryAction \<Rightarrow> AgentEventData" where
  "completed_event fresh rid act = RecoveryCompleted \<lparr>rd_recovery_id = fresh rid 0, rd_action = action_kind act,
     rd_outcome = Some OutcomeInterrupted\<rparr>"

definition restart_change :: "AgentRunRecord \<Rightarrow> run_state_changed" where
  "restart_change run = \<lparr>previous = ar_state run, current = Interrupted, reason = Some (str ''app_restart'')\<rparr>"

lemma recover_one_eq:
  assumes i: "ar_id run = rid" and rp: "replay L ws rid 0 (ad_runs db) = Inr es"
    and cp: "checkpoint_get K ws rid db = Inr cp" and sn: "snapshot_get K ws rid db = Inr sn"
    and act: "act = recovery_action run es cp (effective_idempotent idem sn)"
  shows "recover_one L K ws idem t fresh run db =
     (if act \<noteq> Regenerate \<and> active_recovery_id es t \<noteq> None
      then (Inr \<lparr>rv_run = run, rv_action = act, rv_events = [],
                 rv_recovery_id = (case active_recovery_id es t of Some i \<Rightarrow> i | None \<Rightarrow> [])\<rparr>, db)
      else io_bind (on_runs (append_event L ws rid (fresh rid 0) t (started_event fresh rid act cp))) (\<lambda>started.
       if act \<noteq> Regenerate
       then (\<lambda>db. (Inr \<lparr>rv_run = run, rv_action = act, rv_events = [started], rv_recovery_id = fresh rid 0\<rparr>, db))
       else
         io_bind (on_runs (run_store_finish L ws rid (restart_change run) OutcomeInterrupted None t
           (fresh rid 1) (fresh rid 2))) (\<lambda>finished.
         io_bind (on_runs (append_event L ws rid (fresh rid 3) t (completed_event fresh rid act))) (\<lambda>completed.
         io_bind (pure_io (require_run L ws rid)) (\<lambda>run'.
         (\<lambda>db. (Inr \<lparr>rv_run = run', rv_action = act, rv_events = [started] @ finished @ [completed],
                     rv_recovery_id = fresh rid 0\<rparr>, db)))))) db)"
proof -
  note ev = io_simps(2) [of "recovery_replay L ws rid 0" db es] io_simps(2) [of "\<lambda>db. map_err Storage (checkpoint_get K ws rid db)" db cp]
    io_simps(2) [of "\<lambda>db. map_err Storage (snapshot_get K ws rid db)" db sn]
  have rp': "recovery_replay L ws rid 0 db = Inr es" by (simp add: recovery_replay_def rp)
  show ?thesis
    unfolding recover_one_def i
    by (simp only: ev(1) [OF rp'] ev(2) ev(3) cp sn map_err.simps Let_def act if_distrib [of "\<lambda>f. f db"]
        started_event_def completed_event_def restart_change_def)
qed

text \<open>The facts shared by the two outcomes: the run is on disk with its log, and the generated ids are new.\<close>

definition recoverable ::
  "run_lib \<Rightarrow> checkpoint_lib \<Rightarrow> rstr \<Rightarrow> int \<Rightarrow> (uuid \<Rightarrow> nat \<Rightarrow> uuid) \<Rightarrow> agent_db \<Rightarrow> AgentRunRecord \<Rightarrow> RawRun \<Rightarrow> bool" where
  "recoverable L K ws t fresh db run r \<longleftrightarrow> run_store_ok L (ad_runs db) \<and> run_lib_ok L \<and> encode_total L \<and> rfc3339_instant t
     \<and> checkpoints_readable K ws db \<and> find (is_run ws (ar_id run)) (agent_runs (ad_runs db)) = Some r
     \<and> decode_run L r = Inr run \<and> \<not> is_terminal (ar_state run)
     \<and> (\<forall>k. canonical L (fresh (ar_id run) k) \<and> fresh (ar_id run) k \<notin> event_ids (ad_runs db)) \<and> inj (fresh (ar_id run))"

definition recovered ::
  "run_lib \<Rightarrow> checkpoint_lib \<Rightarrow> rstr \<Rightarrow> rstr set \<Rightarrow> (uuid \<Rightarrow> nat \<Rightarrow> uuid) \<Rightarrow> agent_db \<Rightarrow> AgentRunRecord \<Rightarrow> RecoveredRun \<Rightarrow> run_db \<Rightarrow> bool" where
  "recovered L K ws idem fresh db run x d \<longleftrightarrow> run_store_ok L d \<and> others_same (ar_id run) (ad_runs db) d
     \<and> event_ids d \<subseteq> event_ids (ad_runs db) \<union> range (fresh (ar_id run))
     \<and> settled L K ws idem db (db\<lparr>ad_runs := d\<rparr>) run x"

lemma resume_tools_justified:
  assumes "replay L ws rid 0 (ad_runs db) = Inr es" "snapshot_get K ws rid db = Inr sn"
    "recovery_action run es cp (effective_idempotent idem sn) = ResumeTools ts"
  shows "ar_state run = ExecutingTools \<and> ts \<noteq> [] \<and> (\<forall>k \<in> set ts. tk_tool_id k \<in> effective_idempotent idem (tools_of K ws rid db))
      \<and> (\<exists>es. replay L ws rid 0 (ad_runs db) = Inr es \<and> ts = unfinished es)"
  using recovery_action_resume_tools [OF assms(3)] assms(1,2) pending_tools_fold [of "[]" es]
  by (auto simp: tools_of_def pending_tools_def)

lemma recover_started:
  assumes R: "recoverable L K ws t fresh db run r"
  obtains d where "append_event L ws (ar_id run) (fresh (ar_id run) 0) t (started_event fresh (ar_id run) act cp) (ad_runs db)
      = (Inr (envelope r (fresh (ar_id run) 0) t (started_event fresh (ar_id run) act cp)), d)"
    "run_store_ok L d" "find (is_run ws (ar_id run)) (agent_runs d) = Some (bump L t r)"
    "event_ids d = insert (fresh (ar_id run) 0) (event_ids (ad_runs db))" "others_same (ar_id run) (ad_runs db) d"
proof -
  have "\<not> is_state_event (started_event fresh (ar_id run) act cp)" "readable t (started_event fresh (ar_id run) act cp)"
    using R by (simp_all add: started_event_def recoverable_def readable_plain)
  then show thesis
    using append_event_success [of L "ad_runs db" ws "ar_id run" r "fresh (ar_id run) 0" "started_event fresh (ar_id run) act cp" t]
      R that unfolding recoverable_def by metis
qed

lemma recover_interrupts:
  assumes R: "recoverable L K ws t fresh db run r"
    and d: "run_store_ok L d1" "find (is_run ws (ar_id run)) (agent_runs d1) = Some (bump L t r)"
      "event_ids d1 = insert (fresh (ar_id run) 0) (event_ids (ad_runs db))"
  obtains es2 d2 e3 d3 run' where
    "run_store_finish L ws (ar_id run) (restart_change run) OutcomeInterrupted None t (fresh (ar_id run) 1) (fresh (ar_id run) 2) d1
       = (Inr es2, d2)"
    "append_event L ws (ar_id run) (fresh (ar_id run) 3) t (completed_event fresh (ar_id run) act) d2 = (Inr e3, d3)"
    "require_run L ws (ar_id run) (db\<lparr>ad_runs := d3\<rparr>) = Inr run'" "ar_id run' = ar_id run" "ar_state run' = Interrupted"
    "run_store_ok L d3" "others_same (ar_id run) d1 d3" "event_ids d3 \<subseteq> event_ids (ad_runs db) \<union> range (fresh (ar_id run))"
    "\<exists>r3. find (is_run ws (ar_id run)) (agent_runs d3) = Some r3 \<and> rr_state r3 = state_text Interrupted"
proof -
  define f where "f = fresh (ar_id run)"
  have L: "run_lib_ok L" "encode_total L" and t: "rfc3339_instant t" and nt: "\<not> is_terminal (ar_state run)" and run: "decode_run L r = Inr run"
    and fr: "canonical L (f k)" "f k \<notin> event_ids (ad_runs db)" and inj: "inj f" for k
    using R by (auto simp: recoverable_def f_def)
  have ne: "f j \<noteq> f k" if "j \<noteq> k" for j k using inj that by (auto dest: injD)
  have st: "rr_state (bump L t r) = state_text (previous (restart_change run))"
    using decode_run_fields(1) [OF run] by (simp add: restart_change_def)
  have n12: "f 1 \<notin> event_ids d1" "f 2 \<notin> event_ids d1" using d(3) fr(2) ne by (auto simp: f_def)
  obtain d2 es2 r2 where a2: "run_store_finish L ws (ar_id run) (restart_change run) OutcomeInterrupted None t (f 1) (f 2) d1 = (Inr es2, d2)"
    and ok2: "run_store_ok L d2" and r2: "find (is_run ws (ar_id run)) (agent_runs d2) = Some r2" "rr_state r2 = state_text Interrupted"
    and e2: "event_ids d2 = {f 1, f 2} \<union> event_ids d1" and o2: "others_same (ar_id run) d1 d2"
    by (rule finish_success [OF d(1,2) st _ _ L fr(1) [of 1] fr(1) [of 2] ne [of 1 2] n12 t, where amid = None
        and out = OutcomeInterrupted]) (use nt in \<open>auto simp: restart_change_def\<close>)
  have n3: "f 3 \<notin> event_ids d2" using d(3) e2 fr(2) ne by (auto simp: f_def)
  have ns: "\<not> is_state_event (completed_event fresh (ar_id run) act)" "readable t (completed_event fresh (ar_id run) act)"
    using t by (simp_all add: completed_event_def readable_plain)
  obtain e3 d3 where a3: "append_event L ws (ar_id run) (f 3) t (completed_event fresh (ar_id run) act) d2 = (Inr e3, d3)"
    and ok3: "run_store_ok L d3" and r3: "find (is_run ws (ar_id run)) (agent_runs d3) = Some (bump L t r2)"
    and e3: "event_ids d3 = insert (f 3) (event_ids d2)" and o3: "others_same (ar_id run) d2 d3"
    using append_event_success [OF ok2 r2(1) L fr(1) n3 ns] by metis
  obtain run' where "require_run L ws (ar_id run) (db\<lparr>ad_runs := d3\<rparr>) = Inr run'" "ar_id run' = ar_id run" "ar_state run' = Interrupted"
    using require_run_ok [of L "db\<lparr>ad_runs := d3\<rparr>" ws "ar_id run" "bump L t r2" Interrupted] ok3 r3 r2(2) by auto
  moreover have "event_ids d3 \<subseteq> event_ids (ad_runs db) \<union> range f" using d(3) unfolding e3 e2 by (auto simp: f_def)
  ultimately show thesis
    using that a2 a3 ok3 others_same_trans [OF o2 o3] r3 r2(2) by (simp add: f_def)
qed

lemma recover_one_settles:
  assumes R: "recoverable L K ws t fresh db run r"
  shows "\<exists>x d. recover_one L K ws idem t fresh run db = (Inr x, db\<lparr>ad_runs := d\<rparr>) \<and> recovered L K ws idem fresh db run x d"
proof -
  define rid where "rid = ar_id run"
  have ok: "run_store_ok L (ad_runs db)" and r: "find (is_run ws rid) (agent_runs (ad_runs db)) = Some r"
    and run: "decode_run L r = Inr run" and K: "checkpoints_readable K ws db"
    using R by (simp_all add: recoverable_def rid_def)
  obtain es where rp: "replay L ws rid 0 (ad_runs db) = Inr es" using replay_events [OF ok r, of 0] by auto
  obtain cp sn where cp: "checkpoint_get K ws rid db = Inr cp" and sn: "snapshot_get K ws rid db = Inr sn"
    using K by (auto simp: checkpoints_readable_def is_ok_iff) metis
  define act where "act = recovery_action run es cp (effective_idempotent idem sn)"
  note res = resume_tools_justified [OF rp sn, of run cp idem, folded act_def]
  note body = recover_one_eq [OF rid_def [symmetric] rp cp sn act_def, of t fresh]
  have st: "rr_state r = state_text (ar_state run)" using decode_run_fields(1) [OF run] .
  obtain d1 where a1: "append_event L ws rid (fresh rid 0) t (started_event fresh rid act cp) (ad_runs db)
      = (Inr (envelope r (fresh rid 0) t (started_event fresh rid act cp)), d1)"
    and d1: "run_store_ok L d1" "find (is_run ws rid) (agent_runs d1) = Some (bump L t r)"
      "event_ids d1 = insert (fresh rid 0) (event_ids (ad_runs db))" "others_same rid (ad_runs db) d1"
    using recover_started [OF R, folded rid_def] by metis
  consider (lease) i where "act \<noteq> Regenerate" "active_recovery_id es t = Some i"
    | (resume) "act \<noteq> Regenerate" "active_recovery_id es t = None" | (stop) "act = Regenerate" by (cases "active_recovery_id es t") auto
  then show ?thesis
  proof cases
    case lease
    define x where "x = \<lparr>rv_run = run, rv_action = act, rv_events = [], rv_recovery_id = i\<rparr>"
    have "recover_one L K ws idem t fresh run db = (Inr x, db\<lparr>ad_runs := ad_runs db\<rparr>)" unfolding body x_def using lease by simp
    moreover have "recovered L K ws idem fresh db run x (ad_runs db)"
      using lease ok r st res by (auto simp: recovered_def settled_def x_def rid_def)
    ultimately show ?thesis by blast
  next
    case resume
    define x where "x = \<lparr>rv_run = run, rv_action = act, rv_events = [envelope r (fresh rid 0) t (started_event fresh rid act cp)],
        rv_recovery_id = fresh rid 0\<rparr>"
    have "recover_one L K ws idem t fresh run db = (Inr x, db\<lparr>ad_runs := d1\<rparr>)"
      unfolding body x_def using resume a1 by (simp add: io_bind_def on_runs_def)
    moreover have "recovered L K ws idem fresh db run x d1"
      using resume d1 st res by (auto simp: recovered_def settled_def x_def rid_def)
    ultimately show ?thesis by blast
  next
    case stop
    obtain es2 d2 e3 d3 run' where a: "run_store_finish L ws rid (restart_change run) OutcomeInterrupted None t (fresh rid 1) (fresh rid 2) d1 = (Inr es2, d2)"
      "append_event L ws rid (fresh rid 3) t (completed_event fresh rid act) d2 = (Inr e3, d3)"
      "require_run L ws rid (db\<lparr>ad_runs := d3\<rparr>) = Inr run'" "ar_id run' = rid" "ar_state run' = Interrupted"
      and d3: "run_store_ok L d3" "others_same rid d1 d3" "event_ids d3 \<subseteq> event_ids (ad_runs db) \<union> range (fresh rid)"
        "\<exists>r3. find (is_run ws rid) (agent_runs d3) = Some r3 \<and> rr_state r3 = state_text Interrupted"
      using recover_interrupts [OF R, folded rid_def, OF d1(1-3)] by metis
    define x where "x = \<lparr>rv_run = run', rv_action = act,
      rv_events = [envelope r (fresh rid 0) t (started_event fresh rid act cp)] @ es2 @ [e3], rv_recovery_id = fresh rid 0\<rparr>"
    have "recover_one L K ws idem t fresh run db = (Inr x, db\<lparr>ad_runs := d3\<rparr>)"
      unfolding body x_def using stop a1 a(1-3) by (simp add: io_bind_def on_runs_def pure_io_def)
    moreover have "recovered L K ws idem fresh db run x d3"
      using stop d3 a(4,5) others_same_trans [OF d1(4) d3(2)] by (simp add: recovered_def settled_def x_def rid_def)
    ultimately show ?thesis by blast
  qed
qed

lemma reads_same [simp]:
  "checkpoint_get K ws i (db\<lparr>ad_runs := d\<rparr>) = checkpoint_get K ws i db"
  "snapshot_get K ws i (db\<lparr>ad_runs := d\<rparr>) = snapshot_get K ws i db"
  "checkpoints_readable K ws (db\<lparr>ad_runs := d\<rparr>) = checkpoints_readable K ws db"
  "tools_of K ws i (db\<lparr>ad_runs := d\<rparr>) = tools_of K ws i db"
  by (simp_all add: checkpoint_get_def snapshot_get_def checkpoints_readable_def tools_of_def)

lemma recoverable_other:
  assumes R: "recoverable L K ws t fresh db run r" and O: "recovered L K ws idem fresh db run0 x d"
    and ne: "ar_id run \<noteq> ar_id run0" and fr: "\<forall>i j k l. i \<noteq> j \<longrightarrow> fresh i k \<noteq> fresh j l"
  shows "recoverable L K ws t fresh (db\<lparr>ad_runs := d\<rparr>) run r"
proof -
  have d: "run_store_ok L d" "others_same (ar_id run0) (ad_runs db) d"
    "event_ids d \<subseteq> event_ids (ad_runs db) \<union> range (fresh (ar_id run0))" using O by (simp_all add: recovered_def)
  have db: "distinct (map rr_id (agent_runs (ad_runs db)))" "distinct (map rr_id (agent_runs d))"
    using R d(1) by (simp_all add: recoverable_def run_store_ok_def)
  have "fresh (ar_id run) k \<notin> event_ids d" for k
  proof -
    have "fresh (ar_id run) k \<notin> event_ids (ad_runs db)" using R by (simp add: recoverable_def)
    moreover have "fresh (ar_id run) k \<notin> range (fresh (ar_id run0))" using fr ne by blast
    ultimately show ?thesis using d(3) by blast
  qed
  then show ?thesis using R d(1) find_same [OF d(2) ne db] by (simp add: recoverable_def)
qed

lemma settled_other:
  assumes "settled L K ws idem (db\<lparr>ad_runs := d\<rparr>) db' run x" "others_same rid (ad_runs db) d" "ar_id run \<noteq> rid"
  shows "settled L K ws idem db db' run x"
proof -
  have e: "ad_runs (db\<lparr>ad_runs := d\<rparr>) = d" by simp
  show ?thesis using assms(1) unfolding settled_def reads_same e replay_same [OF assms(2,3)] .
qed

lemma recover_runs_settles:
  assumes "\<forall>run \<in> set runs. \<exists>r. recoverable L K ws t fresh db run r" "distinct (map ar_id runs)"
    "\<forall>i j k l. i \<noteq> j \<longrightarrow> fresh i k \<noteq> fresh j l" "run_store_ok L (ad_runs db)"
  shows "\<exists>xs d. recover_runs L K ws idem t fresh runs db = (Inr xs, db\<lparr>ad_runs := d\<rparr>) \<and> run_store_ok L d
     \<and> list_all2 (settled L K ws idem db (db\<lparr>ad_runs := d\<rparr>)) runs xs
     \<and> (\<forall>i r. i \<notin> ar_id ` set runs \<longrightarrow> find (is_run ws i) (agent_runs d) = Some r
           \<longleftrightarrow> find (is_run ws i) (agent_runs (ad_runs db)) = Some r)"
  using assms
proof (induction runs arbitrary: db)
  case Nil
  then show ?case by (intro exI [of _ "[]"] exI [of _ "ad_runs db"]) simp
next
  case (Cons run runs)
  obtain r where R: "recoverable L K ws t fresh db run r" using Cons.prems(1) by auto
  obtain x d1 where x: "recover_one L K ws idem t fresh run db = (Inr x, db\<lparr>ad_runs := d1\<rparr>)"
    and rec: "recovered L K ws idem fresh db run x d1" using recover_one_settles [OF R] by blast
  define db1 where "db1 = db\<lparr>ad_runs := d1\<rparr>"
  have ok1: "run_store_ok L d1" and o1: "others_same (ar_id run) (ad_runs db) d1" and s1: "settled L K ws idem db db1 run x"
    using rec by (simp_all add: recovered_def db1_def)
  have ne: "ar_id q \<noteq> ar_id run" if "q \<in> set runs" for q using Cons.prems(2) that by (metis distinct.simps(2) image_eqI list.simps(9) set_map)
  have "\<forall>q \<in> set runs. \<exists>r. recoverable L K ws t fresh db1 q r"
    using Cons.prems(1,3) recoverable_other [OF _ rec ne] by (metis db1_def list.set_intros(2))
  then obtain xs d where xs: "recover_runs L K ws idem t fresh runs db1 = (Inr xs, db1\<lparr>ad_runs := d\<rparr>)" and ok: "run_store_ok L d"
    and all: "list_all2 (settled L K ws idem db1 (db1\<lparr>ad_runs := d\<rparr>)) runs xs"
    and fr: "\<forall>i r. i \<notin> ar_id ` set runs \<longrightarrow> find (is_run ws i) (agent_runs d) = Some r
        \<longleftrightarrow> find (is_run ws i) (agent_runs d1) = Some r"
    using Cons.IH [of db1] Cons.prems(2,3) ok1 by (auto simp: db1_def)
  have db: "db1\<lparr>ad_runs := d\<rparr> = db\<lparr>ad_runs := d\<rparr>" by (simp add: db1_def)
  have "recover_runs L K ws idem t fresh (run # runs) db = (Inr (x # xs), db\<lparr>ad_runs := d\<rparr>)"
    using x xs db by (simp add: io_bind_def db1_def)
  moreover have "settled L K ws idem db (db\<lparr>ad_runs := d\<rparr>) run x"
    using s1 fr Cons.prems(2) by (auto simp: settled_def db1_def)
  moreover have "list_all2 (settled L K ws idem db (db\<lparr>ad_runs := d\<rparr>)) runs xs"
    using all settled_other [OF _ o1] ne unfolding db db1_def by (auto simp: list_all2_conv_all_nth)
  moreover have "find (is_run ws i) (agent_runs d) = Some r \<longleftrightarrow> find (is_run ws i) (agent_runs (ad_runs db)) = Some r"
    if "i \<notin> ar_id ` set (run # runs)" for i r
    using that fr find_same [OF o1, of i ws r] Cons.prems(4) ok1 by (auto simp: run_store_ok_def)
  ultimately show ?case using ok by auto
qed

text \<open>The runs that recovery lists are exactly the stored runs of the workspace that are not terminal.\<close>

definition open_rows :: "rstr \<Rightarrow> run_db \<Rightarrow> RawRun list" where
  "open_rows ws db = sort_by (\<lambda>x y. (rr_updated_at x, rr_id x) \<le> (rr_updated_at y, rr_id y)) (filter (\<lambda>r. rr_workspace_id r = ws
     \<and> rr_state r \<notin> set (map state_text [Completed, Cancelled, Failed, Interrupted])) (agent_runs db))"

lemma open_rows_mem:
  "r \<in> set (open_rows ws db) \<longleftrightarrow> r \<in> set (agent_runs db) \<and> rr_workspace_id r = ws
     \<and> rr_state r \<notin> set (map state_text [Completed, Cancelled, Failed, Interrupted])"
  unfolding open_rows_def set_sort_by set_filter by blast

lemma open_rows_distinct:
  assumes "distinct (map rr_id (agent_runs db))"
  shows "distinct (map rr_id (open_rows ws db))"
proof -
  have "mset (map rr_id (open_rows ws db)) = mset (map rr_id (filter (\<lambda>r. rr_workspace_id r = ws
     \<and> rr_state r \<notin> set (map state_text [Completed, Cancelled, Failed, Interrupted])) (agent_runs db)))"
    unfolding open_rows_def mset_map mset_sort_by ..
  then show ?thesis using distinct_map_filter [OF assms] mset_eq_imp_distinct_iff by blast
qed

lemma list_nonterminal_rows:
  assumes "validate_workspace ws = Inr ()"
  shows "list_nonterminal L ws None db = try_map (decode_run L) (open_rows ws db)"
  using assms by (simp add: list_nonterminal_def open_rows_def)

lemma decode_open_row:
  assumes ok: "run_store_ok L db" and r: "r \<in> set (open_rows ws db)" and run: "decode_run L r = Inr run"
  shows "ar_id run = rr_id r" "\<not> is_terminal (ar_state run)" "find (is_run ws (ar_id run)) (agent_runs db) = Some r"
proof -
  have m: "r \<in> set (agent_runs db)" "rr_workspace_id r = ws"
    and s: "rr_state r \<notin> set (map state_text [Completed, Cancelled, Failed, Interrupted])"
    using r unfolding open_rows_mem by blast+
  obtain es where "run_pre L db r es" using ok m(1) by (auto simp: run_store_ok_def run_ok_def)
  then show i: "ar_id run = rr_id r" using run by (rule decode_run_id)
  show "\<not> is_terminal (ar_state run)" using s unfolding decode_run_fields(1) [OF run] terminal_texts .
  have d: "distinct (map rr_id (agent_runs db))" using ok by (simp add: run_store_ok_def)
  show "find (is_run ws (ar_id run)) (agent_runs db) = Some r" unfolding find_run_iff [OF d] i using m by blast
qed

lemma list_nonterminal_ok:
  assumes ok: "run_store_ok L db" and ws: "validate_workspace ws = Inr ()"
  obtains runs where "list_nonterminal L ws None db = Inr runs"
    "list_all2 (\<lambda>r run. decode_run L r = Inr run) (open_rows ws db) runs" "map ar_id runs = map rr_id (open_rows ws db)"
proof -
  have "\<exists>run. decode_run L r = Inr run" if "r \<in> set (open_rows ws db)" for r
    using ok that by (auto simp: open_rows_mem run_store_ok_def run_ok_def run_pre_def is_ok_iff)
  then obtain runs where runs: "try_map (decode_run L) (open_rows ws db) = Inr runs" using try_map_total by metis
  then have l2: "list_all2 (\<lambda>r run. decode_run L r = Inr run) (open_rows ws db) runs" by (simp add: try_map_Inr_iff)
  then have "list_all2 (\<lambda>r run. ar_id run = rr_id r) (open_rows ws db) runs"
    using decode_open_row(1) [OF ok] by (blast intro: list.rel_mono_strong)
  then have "map rr_id (open_rows ws db) = map ar_id runs"
    by (auto simp: list_all2_conv_all_nth intro: nth_equalityI)
  then show thesis using that [of runs] runs l2 list_nonterminal_rows [OF ws] by simp
qed

end
