(* ===== verification/Run_Properties.thy ===== *)
theory Run_Properties
  imports Run_Recovery
begin

text \<open>
  The properties of agent runs: their state machine, their durable event log and crash recovery.  The first
  section holds the example data of the witnesses.
\<close>

section \<open>Example data\<close>

definition ex_text :: "int \<Rightarrow> rstr" where
  "ex_text t = [to_nat t]"

definition ex_run_lib :: run_lib where
  "ex_run_lib = \<lparr>rl_uuid = (\<lambda>v. if v = [] then None else Some v),
     rl_time = (\<lambda>v. case v of [n] \<Rightarrow> Some (from_nat n) | _ \<Rightarrow> None), rl_text = (\<lambda>t. [to_nat t]),
     rl_encode = (\<lambda>e. Some [to_nat e]),
     rl_decode = (\<lambda>v. case v of [n] \<Rightarrow> (let e = from_nat n in Some (e\<lparr>data := erase_values (data e)\<rparr>)) | _ \<Rightarrow> None)\<rparr>"

definition ex_checkpoint_lib :: checkpoint_lib where
  "ex_checkpoint_lib = \<lparr>cl_encode = (\<lambda>_. None), cl_decode = (\<lambda>_. None), cl_snapshot_tools = (\<lambda>_. None)\<rparr>"

definition ex_store :: run_db where
  "ex_store = \<lparr>conversations = [(str ''local'', str ''c'')], messages = [(str ''local'', str ''c'', str ''m'', str ''user'')],
     agent_runs = [], agent_run_events = []\<rparr>"

definition ex_new_run :: NewAgentRun where
  "ex_new_run = \<lparr>nr_id = str ''r'', nr_workspace_id = str ''local'', nr_conversation_id = str ''c'',
     nr_user_message_id = str ''m'', nr_event_id = str ''e0'', nr_timestamp = 0\<rparr>"

text \<open>The store after creating the example run.\<close>

definition ex_raw :: RawRun where
  "ex_raw = bump ex_run_lib 0 (new_raw ex_run_lib ex_new_run)"

definition ex_runs :: run_db where
  "ex_runs = snd (create_run ex_run_lib ex_new_run ex_store)"

definition ex_fresh :: "uuid \<Rightarrow> nat \<Rightarrow> uuid" where
  "ex_fresh rid k = k # 0 # rid"

lemma erase_values_idem [simp]: "erase_values (erase_values d) = erase_values d"
  by (cases d) (simp_all add: option.map_comp comp_def)

lemma ex_lib_ok: "run_lib_ok ex_run_lib" "encode_total ex_run_lib"
  by (simp_all add: run_lib_ok_def encode_total_def ex_run_lib_def same_event_def)

lemma ex_instant [simp]: "rfc3339_instant 0" "rfc3339_instant 5" "rfc3339_instant 7"
  by (simp_all add: rfc3339_instant_def)

lemma ex_canonical: "canonical ex_run_lib u \<longleftrightarrow> u \<noteq> []"
  by (simp add: canonical_def ex_run_lib_def)

lemma ex_store_ok: "run_store_ok ex_run_lib ex_store"
  by (simp add: run_store_ok_def ex_store_def)

lemma ex_runs_ok: "run_store_ok ex_run_lib ex_runs"
  unfolding ex_runs_def by (rule create_run_ok [OF ex_store_ok ex_lib_ok(1)]) (simp_all add: ex_canonical ex_new_run_def)

lemma ex_ws [simp]: "validate_workspace (str ''local'') = Inr ()"
proof -
  have "trim (str ''local'') = str ''local''" by (simp add: trim_def trim_start_def trim_end_def str_def is_whitespace_def)
  then show ?thesis by (simp add: validate_workspace_def)
qed

lemma ex_new_insert:
  "insert_run (new_raw ex_run_lib ex_new_run) ex_store = Inr (ex_store\<lparr>agent_runs := [new_raw ex_run_lib ex_new_run]\<rparr>)"
proof -
  have "run_checks (new_raw ex_run_lib ex_new_run)" by (simp add: run_checks_def new_raw_def run_states_def)
  then show ?thesis by (simp add: insert_run_def ex_store_def new_raw_def ex_new_run_def)
qed

lemma ex_create:
  "\<exists>v. ev_event_id v = str ''e0'' \<and>
     ex_runs = add_event v (put_run ex_raw (ex_store\<lparr>agent_runs := [new_raw ex_run_lib ex_new_run]\<rparr>))"
proof -
  define r where "r = new_raw ex_run_lib ex_new_run"
  define db1 where "db1 = ex_store\<lparr>agent_runs := [r]\<rparr>"
  have ins: "insert_run r ex_store = Inr db1" unfolding r_def db1_def by (rule ex_new_insert)
  have i: "rr_id r = str ''r''" "rr_workspace_id r = str ''local''" by (simp_all add: r_def new_raw_def ex_new_run_def)
  note f = insert_run_frame [OF ex_store_ok ins, unfolded i]
  have pre: "run_pre ex_run_lib db1 r []" unfolding r_def
    by (rule new_pre) (use f ex_lib_ok in \<open>simp_all add: ex_canonical ex_new_run_def\<close>)
  have n: "str ''e0'' \<notin> event_ids db1" by (simp add: db1_def ex_store_def)
  define d where "d = RunCreated \<lparr>rc_state = Created, rc_user_message_id = str ''m''\<rparr>"
  have rd: "readable 0 d" by (rule readable_plain) (simp_all add: d_def)
  obtain v where v: "ev_event_id v = str ''e0''" and ap: "append_in_transaction ex_run_lib (str ''local'') (str ''r'') (str ''e0'') 0 d db1
      = Inr (envelope r (str ''e0'') 0 d, add_event v (put_run (bump ex_run_lib 0 r) db1))"
    using append_success [OF f(1,3) pre ex_lib_ok(2) n rd] by metis
  define db2 where "db2 = add_event v (put_run (bump ex_run_lib 0 r) db1)"
  have c: "canonical ex_run_lib (str ''e0'')" by (simp add: ex_canonical)
  note st = append_step [OF f(1,3) pre ex_lib_ok(1) c ap rd, folded db2_def]
  have "rr_state (bump ex_run_lib 0 r) = state_text Created" by (simp add: r_def new_raw_def)
  then obtain x where "run_read ex_run_lib (str ''local'') (str ''r'') db2 = Inr (Some x)"
    using run_read_decode [OF st(2)] st(3) by metis
  then have "create_in_transaction ex_run_lib ex_new_run ex_store = Inr ((x, envelope r (str ''e0'') 0 d), db2)"
    unfolding create_in_transaction_def Let_def new_raw_def [symmetric] r_def [symmetric]
    using ins ap by (simp add: ex_new_run_def ex_store_def ensure_def read_run_def d_def db2_def)
  then show ?thesis using v
    by (auto simp: ex_runs_def create_run_def in_transaction_def db2_def db1_def r_def ex_raw_def)
qed

lemma ex_find: "find (is_run (str ''local'') (str ''r'')) (agent_runs ex_runs) = Some ex_raw"
proof -
  obtain v where e: "ex_runs = add_event v (put_run ex_raw (ex_store\<lparr>agent_runs := [new_raw ex_run_lib ex_new_run]\<rparr>))"
    using ex_create by blast
  show ?thesis unfolding e by (simp add: put_run_def is_run_def ex_raw_def new_raw_def ex_new_run_def)
qed

lemma ex_event_ids: "event_ids ex_runs = {str ''e0''}"
proof -
  obtain v where v: "ev_event_id v = str ''e0''"
    and e: "ex_runs = add_event v (put_run ex_raw (ex_store\<lparr>agent_runs := [new_raw ex_run_lib ex_new_run]\<rparr>))"
    using ex_create by blast
  show ?thesis unfolding e using v by (simp add: ex_store_def)
qed

section \<open>The state machine\<close>

text \<open>C19. A run that has completed went through generating, verifying and completing in that order, and at the
  last two steps no tool call and no permission was unresolved.  A terminal run can never move again, and from
  every other state the run can still be completed.\<close>

theorem run_completion_spec:
  shows "(run_path Created tr Completed \<longrightarrow>
       (\<exists>tr' g1 g2. tr = tr' @ [(g1, Completing), (g2, Completed)] \<and> run_path Created tr' Verifying
          \<and> Generating \<in> snd ` set tr' \<and> unresolved_tool_calls g1 = 0 \<and> unresolved_permissions g1 = 0
          \<and> unresolved_tool_calls g2 = 0 \<and> unresolved_permissions g2 = 0))
     \<and> (is_terminal s \<longrightarrow> (\<forall>t g. \<exists>w. run_transition s t g = (Inl \<lparr>it_previous = s, it_target = t, it_reason = w\<rparr>, s)))
     \<and> (\<not> is_terminal s \<longrightarrow> (\<exists>tr. run_path s tr Completed))"
proof (intro conjI impI)
  assume "run_path Created tr Completed"
  then obtain tr' g1 g2 where t: "tr = tr' @ [(g1, Completing), (g2, Completed)]" "run_path Created tr' Verifying"
    "run_step Verifying g1 Completing" "run_step Completing g2 Completed" by (rule completed_path)
  have "Generating \<in> snd ` set tr'" by (rule generating_visited [OF t(2)]) simp
  then show "\<exists>tr' g1 g2. tr = tr' @ [(g1, Completing), (g2, Completed)] \<and> run_path Created tr' Verifying
          \<and> Generating \<in> snd ` set tr' \<and> unresolved_tool_calls g1 = 0 \<and> unresolved_permissions g1 = 0
          \<and> unresolved_tool_calls g2 = 0 \<and> unresolved_permissions g2 = 0"
    using t by (auto simp: run_step_iff_allowed run_allowed_def)
next
  assume "is_terminal s"
  then have "\<not> run_allowed s t g" for t g by (simp add: run_allowed_def)
  then show "\<forall>t g. \<exists>w. run_transition s t g = (Inl \<lparr>it_previous = s, it_target = t, it_reason = w\<rparr>, s)"
    using run_transition_err by blast
next
  assume "\<not> is_terminal s"
  then show "\<exists>tr. run_path s tr Completed" by (rule can_complete)
qed

theorem run_completion_spec_witness:
  "(\<exists>tr. run_path Created tr Completed) \<and>
   (\<exists>w. run_transition Failed Generating idle_guards = (Inl \<lparr>it_previous = Failed, it_target = Generating, it_reason = w\<rparr>, Failed))"
  using run_completion_spec [of "[]" Created] run_completion_spec [of "[]" Failed] by simp

section \<open>The event log\<close>

text \<open>C10. Event sourcing: whatever run operations are performed on a store, with UUIDs as ids, instants RFC 3339 can express and
  JSON values nested at most 120 deep (\<open>serde_json\<close> writes deeper ones but does not read them), every run's log can be replayed from
  any point; the events are numbered 1, 2, 3, ... without gaps up to the run's next sequence number, replaying
  after \<open>n\<close> gives exactly the events a client that has seen \<open>n\<close> of them is missing, and folding the whole log
  gives the stored state.\<close>

theorem run_log_event_sourced:
  assumes L: "run_lib_ok L" and ok: "run_store_ok L db" and ops: "list_all (run_admissible L) ops"
    and r: "find (is_run ws rid) (agent_runs (foldl (run_store_step L) db ops)) = Some r" and n: "n \<le> I64_MAX"
  shows "\<exists>es. replay L ws rid 0 (foldl (run_store_step L) db ops) = Inr es
     \<and> replay L ws rid n (foldl (run_store_step L) db ops) = Inr (drop n es)
     \<and> rr_next_sequence r = int (length es) + 1 \<and> map sequence es = [1..<length es + 1]
     \<and> (\<exists>st. derived_state es = Some st \<and> rr_state r = state_text st)"
proof -
  define db' where "db' = foldl (run_store_step L) db ops"
  have ok': "run_store_ok L db'" unfolding db'_def using runs.inv_run [of L db ops] L ok ops by simp
  note r' = r [folded db'_def]
  obtain es where pre: "run_pre L db' r es" and rep: "replay L ws rid n db' = Inr (drop n es)"
    using replay_events [OF ok' r' n] by blast
  obtain es0 where "run_pre L db' r es0" "replay L ws rid 0 db' = Inr (drop 0 es0)"
    using replay_events [OF ok' r', of 0] by auto
  moreover have "es0 = es" if "run_pre L db' r es0" for es0 using pre that by (simp add: run_pre_def)
  ultimately have rep0: "replay L ws rid 0 db' = Inr es" by auto
  obtain es1 st where "run_pre L db' r es1" "derived_state es1 = Some st" "rr_state r = state_text st"
    using run_store_okD [OF ok' r'] by blast
  then have st: "derived_state es = Some st" "rr_state r = state_text st" using pre by (simp_all add: run_pre_def)
  have len: "rr_next_sequence r = int (length es) + 1" using run_pre_length [OF pre] by simp
  have "map sequence es = [1..<length es + 1]"
  proof (rule nth_equalityI)
    fix i assume i: "i < length (map sequence es)"
    have dec: "try_map (decode_event L (rr_id r)) (events_of db' (rr_id r)) = Inr es"
      and sq: "map ev_sequence (events_of db' (rr_id r)) = map int [1..<nat (rr_next_sequence r)]"
      using pre by (simp_all add: run_pre_def)
    have i': "i < length (events_of db' (rr_id r))" using i try_map_Inr_length [OF dec] by simp
    have "decode_event L (rr_id r) (events_of db' (rr_id r) ! i) = Inr (es ! i)" by (rule try_map_nth [OF dec i'])
    then have "sequence (es ! i) = nat (ev_sequence (events_of db' (rr_id r) ! i))"
      by (auto simp: decode_event_def rbind_Inr split: if_splits)
    also have "ev_sequence (events_of db' (rr_id r) ! i) = map int [1..<nat (rr_next_sequence r)] ! i"
      using i' sq by (metis nth_map)
    finally show "map sequence es ! i = [1..<length es + 1] ! i" using i len by (simp del: upt_Suc)
  qed (simp del: upt_Suc)
  then show ?thesis using rep rep0 len st unfolding db'_def by blast
qed

theorem run_log_event_sourced_witness:
  "\<exists>es. replay ex_run_lib (str ''local'') (str ''r'') 0 ex_runs = Inr es
     \<and> replay ex_run_lib (str ''local'') (str ''r'') 1 ex_runs = Inr (drop 1 es)
     \<and> rr_next_sequence ex_raw = int (length es) + 1 \<and> map sequence es = [1..<length es + 1]
     \<and> (\<exists>st. derived_state es = Some st \<and> rr_state ex_raw = state_text st)"
proof -
  have e: "foldl (run_store_step ex_run_lib) ex_store [CreateRun ex_new_run] = ex_runs" by (simp add: ex_runs_def)
  show ?thesis
    using run_log_event_sourced [of ex_run_lib ex_store "[CreateRun ex_new_run]" "str ''local''" "str ''r''" ex_raw 1, unfolded e]
      ex_lib_ok(1) ex_store_ok ex_find by (simp add: ex_canonical ex_new_run_def I64_MAX_def)
qed





text \<open>Finishing a run: from the expected state it succeeds, appends exactly the state change and the
  completion with the next two sequence numbers, and sets the terminal state and the completion time in the same
  transaction; from any other state it is refused and nothing changes.\<close>

theorem finish_run_spec:
  assumes ok: "run_store_ok L db" and r: "find (is_run ws rid) (agent_runs db) = Some r" and L: "run_lib_ok L" "encode_total L"
    and u: "canonical L eid1" "canonical L eid2" "eid1 \<noteq> eid2" "eid1 \<notin> event_ids db" "eid2 \<notin> event_ids db"
    and p: "\<not> is_terminal (previous ch)" "outcome_state out = current ch" and t: "rfc3339_instant t"
  shows "(rr_state r = state_text (previous ch) \<longrightarrow>
       (\<exists>e1 e2 db' r' es. run_store_finish L ws rid ch out amid t eid1 eid2 db = (Inr [e1, e2], db')
          \<and> data e1 = RunStateChanged ch \<and> data e2 = RunCompleted \<lparr>outcome = out, assistant_message_id = amid\<rparr>
          \<and> replay L ws rid 0 db = Inr es \<and> replay L ws rid 0 db' = Inr (es @ [e1, e2])
          \<and> find (is_run ws rid) (agent_runs db') = Some r' \<and> rr_state r' = state_text (current ch)
          \<and> rr_completed_at r' = Some (rl_text L t)))
     \<and> (rr_state r \<noteq> state_text (previous ch) \<longrightarrow>
         run_store_finish L ws rid ch out amid t eid1 eid2 db = (Inl (StorageError ''agent_run_state_conflict''), db))"
proof (intro conjI impI)
  assume s: "rr_state r = state_text (previous ch)"
  obtain es where pre: "run_pre L db r es" and rep: "replay L ws rid 0 db = Inr es"
    using replay_events [OF ok r, of 0] by auto
  show "\<exists>e1 e2 db' r' es. run_store_finish L ws rid ch out amid t eid1 eid2 db = (Inr [e1, e2], db')
          \<and> data e1 = RunStateChanged ch \<and> data e2 = RunCompleted \<lparr>outcome = out, assistant_message_id = amid\<rparr>
          \<and> replay L ws rid 0 db = Inr es \<and> replay L ws rid 0 db' = Inr (es @ [e1, e2])
          \<and> find (is_run ws rid) (agent_runs db') = Some r' \<and> rr_state r' = state_text (current ch)
          \<and> rr_completed_at r' = Some (rl_text L t)"
  proof (rule finish_success [OF ok r s p L u t, where amid = amid], goal_cases)
    case (1 db')
    obtain es' where "run_pre L db' (bump L t (bump L t (r\<lparr>rr_state := state_text (current ch),
        rr_updated_at := rl_text L t, rr_completed_at := Some (rl_text L t)\<rparr>))) es'" "replay L ws rid 0 db' = Inr es'"
      using replay_events [OF 1(2,3), of 0] by auto
    with 1(6) [OF pre] have "replay L ws rid 0 db' = Inr (es @ [envelope (r\<lparr>rr_state := state_text (current ch),
        rr_updated_at := rl_text L t, rr_completed_at := Some (rl_text L t)\<rparr>) eid1 t (RunStateChanged ch),
        envelope (bump L t (r\<lparr>rr_state := state_text (current ch), rr_updated_at := rl_text L t,
        rr_completed_at := Some (rl_text L t)\<rparr>)) eid2 t (RunCompleted \<lparr>outcome = out, assistant_message_id = amid\<rparr>)])"
      by (simp add: run_pre_def)
    with 1(1,3) rep show ?case by (auto simp: envelope_def)
  qed
next
  assume s: "rr_state r \<noteq> state_text (previous ch)"
  obtain es st where pre: "run_pre L db r es" "rr_state r = state_text st" using run_store_okD [OF ok r] by blast
  obtain x where x: "run_read L ws rid db = Inr (Some x)" "ar_state x = st" using run_read_decode [OF r pre(2,1)] by metis
  have "ar_state x \<noteq> previous ch" using s pre(2) x(2) by auto
  then have tx: "run_finish_tx L ws rid ch out amid t eid1 eid2 db = Inl (StorageError ''agent_run_state_conflict'')"
    using x(1) by (simp add: run_finish_tx_def read_run_def ensure_def)
  have "validate_workspace ws = Inr ()" using pre(1) find_run(3) [OF r] by (simp add: run_pre_def)
  moreover have "is_terminal (current ch)" using outcome_terminal [of out] by (simp add: p(2))
  ultimately show "run_store_finish L ws rid ch out amid t eid1 eid2 db = (Inl (StorageError ''agent_run_state_conflict''), db)"
    using p tx by (simp add: run_store_finish_def in_transaction_def)
qed

theorem finish_run_spec_witness:
  "(\<exists>e1 e2 db' r' es. run_store_finish ex_run_lib (str ''local'') (str ''r'')
        \<lparr>previous = Created, current = Cancelled, reason = None\<rparr> OutcomeCancelled None 7 (str ''e1'') (str ''e2'') ex_runs = (Inr [e1, e2], db')
     \<and> data e1 = RunStateChanged \<lparr>previous = Created, current = Cancelled, reason = None\<rparr>
     \<and> data e2 = RunCompleted \<lparr>outcome = OutcomeCancelled, assistant_message_id = None\<rparr>
     \<and> replay ex_run_lib (str ''local'') (str ''r'') 0 ex_runs = Inr es
     \<and> replay ex_run_lib (str ''local'') (str ''r'') 0 db' = Inr (es @ [e1, e2])
     \<and> find (is_run (str ''local'') (str ''r'')) (agent_runs db') = Some r' \<and> rr_state r' = state_text Cancelled
     \<and> rr_completed_at r' = Some (rl_text ex_run_lib 7))"
proof -
  have s: "rr_state ex_raw = state_text Created" by (simp add: ex_raw_def new_raw_def)
  show ?thesis
    using finish_run_spec [OF ex_runs_ok ex_find ex_lib_ok, of "str ''e1''" "str ''e2''"
        "\<lparr>previous = Created, current = Cancelled, reason = None\<rparr>" OutcomeCancelled 7 None]
    by (simp add: ex_canonical ex_event_ids s)
qed

section \<open>Recovery\<close>

text \<open>C21. The tool calls recovery considers pending, computed by one pass that appends requests and drops
  completed calls, are exactly those the log requested and did not complete afterwards, in order.\<close>

theorem pending_tools_exact:
  "pending_tools es = unfinished es"
  using pending_tools_fold [of "[]" es] by (simp add: pending_tools_def)

text \<open>C22. Recovery after a crash, if every stored checkpoint and turn snapshot of the workspace can be decoded, returns and settles every
  active run of the workspace: the stored runs that are not finished are handed back in order; each is interrupted on disk unless it can be resumed, in which case it keeps
  its state; tools are resumed only if the log shows them unfinished and every one of them is idempotent.\<close>

theorem recovery_settles_every_run:
  assumes L: "run_lib_ok L" "encode_total L" "rfc3339_instant t" and ok: "run_store_ok L (ad_runs db)" and ws: "validate_workspace ws = Inr ()"
    and K: "checkpoints_readable K ws db"
    and fr: "\<forall>i k. canonical L (fresh i k) \<and> fresh i k \<notin> event_ids (ad_runs db)" "\<forall>i. inj (fresh i)"
      "\<forall>i j k l. i \<noteq> j \<longrightarrow> fresh i k \<noteq> fresh j l"
  shows "\<exists>runs xs d. list_nonterminal L ws None (ad_runs db) = Inr runs
     \<and> map ar_id runs = map rr_id (open_rows ws (ad_runs db))
     \<and> recover_active L K ws idem t fresh db = (Inr xs, db\<lparr>ad_runs := d\<rparr>) \<and> run_store_ok L d
     \<and> list_all2 (settled L K ws idem db (db\<lparr>ad_runs := d\<rparr>)) runs xs"
proof -
  obtain runs where runs: "list_nonterminal L ws None (ad_runs db) = Inr runs"
    and l2: "list_all2 (\<lambda>r run. decode_run L r = Inr run) (open_rows ws (ad_runs db)) runs"
    and ids: "map ar_id runs = map rr_id (open_rows ws (ad_runs db))"
    using list_nonterminal_ok [OF ok ws] by blast
  have d: "distinct (map ar_id runs)" using ok ids by (simp add: run_store_ok_def open_rows_distinct)
  have "\<exists>r. recoverable L K ws t fresh db run r" if run: "run \<in> set runs" for run
  proof -
    obtain r where r: "r \<in> set (open_rows ws (ad_runs db))" "decode_run L r = Inr run"
    proof -
      obtain i where i: "i < length runs" "runs ! i = run" using run by (auto simp: in_set_conv_nth)
      then show thesis using that [of "open_rows ws (ad_runs db) ! i"] list_all2_nthD2 [OF l2 i(1)] list_all2_lengthD [OF l2] by simp
    qed
    have "recoverable L K ws t fresh db run r"
      unfolding recoverable_def using decode_open_row(2,3) [OF ok r] r(2) L ok K fr(1,2) by (intro conjI) simp_all
    then show ?thesis by blast
  qed
  then have "\<forall>run \<in> set runs. \<exists>r. recoverable L K ws t fresh db run r" by blast
  from recover_runs_settles [OF this d fr(3) ok, of idem]
  obtain xs d where x: "recover_runs L K ws idem t fresh runs db = (Inr xs, db\<lparr>ad_runs := d\<rparr>)"
    and rest: "run_store_ok L d" "list_all2 (settled L K ws idem db (db\<lparr>ad_runs := d\<rparr>)) runs xs"
    by (elim exE conjE)
  have "recover_active L K ws idem t fresh db = (Inr xs, db\<lparr>ad_runs := d\<rparr>)"
    unfolding recover_active_def io_bind_def pure_io_def runs map_err.simps prod.case sum.case x ..
  then show ?thesis using runs ids rest by (intro exI conjI)
qed

theorem recovery_settles_every_run_witness:
  "\<exists>runs xs d. list_nonterminal ex_run_lib (str ''local'') None ex_runs = Inr runs
     \<and> map ar_id runs = map rr_id (open_rows (str ''local'') ex_runs)
     \<and> recover_active ex_run_lib ex_checkpoint_lib (str ''local'') {} 5 ex_fresh
          \<lparr>ad_runs = ex_runs, ad_checkpoints = [], ad_snapshots = []\<rparr>
        = (Inr xs, \<lparr>ad_runs = ex_runs, ad_checkpoints = [], ad_snapshots = []\<rparr>\<lparr>ad_runs := d\<rparr>)
     \<and> run_store_ok ex_run_lib d
     \<and> list_all2 (settled ex_run_lib ex_checkpoint_lib (str ''local'') {} \<lparr>ad_runs = ex_runs, ad_checkpoints = [], ad_snapshots = []\<rparr>
          (\<lparr>ad_runs = ex_runs, ad_checkpoints = [], ad_snapshots = []\<rparr>\<lparr>ad_runs := d\<rparr>)) runs xs"
proof -
  define db where "db = \<lparr>ad_runs = ex_runs, ad_checkpoints = [], ad_snapshots = []\<rparr>"
  have e: "ad_runs db = ex_runs" by (simp add: db_def)
  have n: "ex_fresh i k \<notin> event_ids ex_runs" for i k
    unfolding ex_event_ids by (simp add: ex_fresh_def str_def)
  have "checkpoints_readable ex_checkpoint_lib (str ''local'') db"
    by (simp add: checkpoints_readable_def checkpoint_get_def snapshot_get_def db_def)
  then show ?thesis
    using recovery_settles_every_run [of ex_run_lib 5 db "str ''local''" ex_checkpoint_lib ex_fresh "{}", unfolded e]
      ex_lib_ok ex_runs_ok n unfolding db_def [symmetric]
    by (simp add: ex_canonical ex_fresh_def inj_on_def)
qed

end
