(* ===== verification/Context_Budget.thy ===== *)
theory Context_Budget
  imports Prelude "HOL-Library.Sublist"
begin

text \<open>
  The context budget of an agent turn (\<open>agent/context/tokens.rs\<close>, \<open>budget.rs\<close>): the token estimate, truncation to
  a number of tokens, and the selection of context items under the model's input limit.
\<close>

section \<open>Tokens\<close>

definition ASCII_CHARS_PER_TOKEN :: nat where
  "ASCII_CHARS_PER_TOKEN = 3"

definition next_token_cost :: "nat \<Rightarrow> nat \<Rightarrow> nat \<times> nat" where
  "next_token_cost c ascii_run =
     (if is_ascii_alphanumeric c \<or> c = 95
      then ((if ascii_run mod ASCII_CHARS_PER_TOKEN = 0 then 1 else 0), sat_add ascii_run 1)
      else (len_utf8 c, 0))"

fun token_loop :: "nat \<Rightarrow> nat \<Rightarrow> rstr \<Rightarrow> nat" where
  "token_loop tokens run [] = tokens"
| "token_loop tokens run (c # cs) =
     (case next_token_cost c run of (cost, run') \<Rightarrow> token_loop (sat_add tokens cost) run' cs)"

definition estimate_tokens :: "rstr \<Rightarrow> nat" where
  "estimate_tokens text = token_loop 0 0 text"

fun truncate_loop :: "nat \<Rightarrow> nat \<Rightarrow> nat \<Rightarrow> rstr \<Rightarrow> rstr" where
  "truncate_loop limit tokens run [] = []"
| "truncate_loop limit tokens run (c # cs) =
     (case next_token_cost c run of
        (cost, run') \<Rightarrow>
          if limit < sat_add tokens cost then []
          else c # truncate_loop limit (sat_add tokens cost) run' cs)"

definition truncate_to_tokens :: "rstr \<Rightarrow> nat \<Rightarrow> rstr" where
  "truncate_to_tokens text limit = truncate_loop limit 0 0 text"

section \<open>Context items\<close>

datatype ContextSource =
    Security | System | Domain | Permission | CurrentRequest | Mailbox | RecentTurn nat | ToolEvidence
  | ExplicitMemory | HistoricalSummary

fun priority :: "ContextSource \<Rightarrow> nat" where
  "priority Security = 0"
| "priority System = 0"
| "priority Domain = 0"
| "priority Permission = 0"
| "priority CurrentRequest = 1"
| "priority Mailbox = 1"
| "priority (RecentTurn _) = 2"
| "priority ToolEvidence = 3"
| "priority ExplicitMemory = 4"
| "priority HistoricalSummary = 5"

definition is_required :: "ContextSource \<Rightarrow> bool" where
  "is_required s \<longleftrightarrow> s \<in> {Security, System, Domain, Permission, CurrentRequest}"

fun is_recent :: "ContextSource \<Rightarrow> bool" where
  "is_recent (RecentTurn _) = True"
| "is_recent _ = False"

record ContextItem =
  ci_id :: rstr
  ci_source :: ContextSource
  ci_content :: rstr

record TokenRecord =
  tr_id :: rstr
  tr_original_tokens :: nat
  tr_included_tokens :: nat

record ContextReport =
  rp_model_limit :: nat
  rp_input_limit :: nat
  rp_output_reservation :: nat
  rp_reasoning_reservation :: nat
  rp_completion_reservation :: nat
  rp_estimated_included_tokens :: nat
  rp_included_ids :: "rstr list"
  rp_omitted_ids :: "rstr list"
  rp_included_items :: "ContextItem list"
  rp_item_token_estimates :: "TokenRecord list"
  rp_truncations :: "TokenRecord list"

datatype ContextBudgetError =
    MissingCurrentRequest
  | EmptyCurrentRequest
  | MultipleCurrentRequests nat
  | DuplicateItemId rstr
  | DuplicateRecentTurnRank nat
  | CompletionReservationExceedsModelLimit nat nat nat
  | RequiredContentExceedsLimit nat nat nat
  | ToolSchemaExceedsLimit nat nat nat
  | MessageBlockExceedsLimit nat nat

definition DEFAULT_MODEL_LIMIT :: nat where
  "DEFAULT_MODEL_LIMIT = 8192"

text \<open>\<open>seen\<close> are the items before the current index.\<close>

fun validate_items :: "ContextItem list \<Rightarrow> ContextItem list \<Rightarrow> (ContextBudgetError, unit) result" where
  "validate_items seen [] = Inr ()"
| "validate_items seen (x # xs) =
     (if ci_id x \<in> ci_id ` set seen then Inl (DuplicateItemId (ci_id x))
      else (case ci_source x of
              RecentTurn k \<Rightarrow>
                if RecentTurn k \<in> ci_source ` set seen then Inl (DuplicateRecentTurnRank k)
                else validate_items (seen @ [x]) xs
            | _ \<Rightarrow> validate_items (seen @ [x]) xs))"

text \<open>The comparator of the stable sort: \<open>left.cmp(right) != Greater\<close>.\<close>

definition source_le :: "ContextSource \<Rightarrow> ContextSource \<Rightarrow> bool" where
  "source_le l r \<longleftrightarrow> priority l < priority r \<or> priority l = priority r \<and>
     (case (l, r) of (RecentTurn a, RecentTurn b) \<Rightarrow> a \<le> b | _ \<Rightarrow> True)"

definition selection_order :: "ContextItem list \<Rightarrow> nat list" where
  "selection_order items = sort_by (\<lambda>i j. source_le (ci_source (items ! i)) (ci_source (items ! j))) [0..<length items]"

section \<open>The selection loop\<close>

record budget_state =
  bs_items :: "ContextItem list"
  bs_ids :: "rstr list"
  bs_omitted :: "rstr list"
  bs_truncations :: "TokenRecord list"
  bs_tokens :: "nat list"
  bs_estimated :: nat
  bs_recent_blocked :: bool

definition include_item :: "ContextItem \<Rightarrow> nat \<Rightarrow> nat \<Rightarrow> budget_state \<Rightarrow> budget_state" where
  "include_item item tokens i s = s\<lparr>bs_items := bs_items s @ [item], bs_ids := bs_ids s @ [ci_id item],
     bs_tokens := (bs_tokens s)[i := tokens], bs_estimated := sat_add (bs_estimated s) tokens\<rparr>"

definition omit_item :: "ContextItem \<Rightarrow> budget_state \<Rightarrow> budget_state" where
  "omit_item item s = s\<lparr>bs_omitted := bs_omitted s @ [ci_id item]\<rparr>"

definition budget_step :: "nat \<Rightarrow> ContextItem list \<Rightarrow> budget_state \<Rightarrow> nat \<Rightarrow> budget_state" where
  "budget_step input_limit items s i =
     (let item = items ! i; original = estimate_tokens (ci_content item); remaining = input_limit - bs_estimated s in
      if is_required (ci_source item) then include_item item original i s
      else if is_recent (ci_source item) then
        (if bs_recent_blocked s \<or> remaining < original
         then omit_item item (s\<lparr>bs_recent_blocked := True\<rparr>)
         else include_item item original i s)
      else if original \<le> remaining then include_item item original i s
      else if remaining = 0 then omit_item item s
      else
        (let content = truncate_to_tokens (ci_content item) remaining; included = estimate_tokens content in
         if included = 0 then omit_item item s
         else (include_item (item\<lparr>ci_content := content\<rparr>) included i s)
                \<lparr>bs_truncations := bs_truncations s @
                   [\<lparr>tr_id = ci_id item, tr_original_tokens = original, tr_included_tokens = included\<rparr>]\<rparr>))"

definition budget_init :: "ContextItem list \<Rightarrow> budget_state" where
  "budget_init items = \<lparr>bs_items = [], bs_ids = [], bs_omitted = [], bs_truncations = [],
     bs_tokens = replicate (length items) 0, bs_estimated = 0, bs_recent_blocked = False\<rparr>"

definition required_tokens :: "ContextItem list \<Rightarrow> nat" where
  "required_tokens items =
     foldl (\<lambda>total x. sat_add total (estimate_tokens (ci_content x))) 0 (filter (is_required \<circ> ci_source) items)"

definition budget_context ::
  "ContextItem list \<Rightarrow> nat option \<Rightarrow> nat \<Rightarrow> nat \<Rightarrow> (ContextBudgetError, ContextReport) result" where
  "budget_context items model_limit output_reservation reasoning_reservation =
     rbind (validate_items [] items) (\<lambda>_.
     let requests = filter (\<lambda>x. ci_source x = CurrentRequest) items in
     if length requests = 0 then Inl MissingCurrentRequest
     else if length requests \<noteq> 1 then Inl (MultipleCurrentRequests (length requests))
     else if trim (ci_content (hd requests)) = [] then Inl EmptyCurrentRequest
     else
       let model_limit = (case model_limit of None \<Rightarrow> DEFAULT_MODEL_LIMIT | Some l \<Rightarrow> l);
           completion = sat_add output_reservation reasoning_reservation in
       if model_limit < completion
       then Inl (CompletionReservationExceedsModelLimit output_reservation reasoning_reservation model_limit)
       else
         let input_limit = model_limit - completion in
         if input_limit < required_tokens items
         then Inl (RequiredContentExceedsLimit (required_tokens items) input_limit model_limit)
         else
           let s = foldl (budget_step input_limit items) (budget_init items) (selection_order items) in
           Inr \<lparr>rp_model_limit = model_limit, rp_input_limit = input_limit, rp_output_reservation = output_reservation,
             rp_reasoning_reservation = reasoning_reservation, rp_completion_reservation = completion,
             rp_estimated_included_tokens = bs_estimated s, rp_included_ids = bs_ids s, rp_omitted_ids = bs_omitted s,
             rp_included_items = bs_items s,
             rp_item_token_estimates = map (\<lambda>i. \<lparr>tr_id = ci_id (items ! i),
               tr_original_tokens = estimate_tokens (ci_content (items ! i)), tr_included_tokens = bs_tokens s ! i\<rparr>) [0..<length items],
             rp_truncations = bs_truncations s\<rparr>)"

section \<open>Token lemmas\<close>

lemma sat_add_min: "sat_add a b = min usize_max (a + b)"
  by (simp add: sat_add_def)

lemma truncate_prefix_loop: "prefix (truncate_loop l t r cs) cs"
  by (induction l t r cs rule: truncate_loop.induct) (auto split: prod.split)

lemma truncate_prefix: "prefix (truncate_to_tokens s l) s"
  by (simp add: truncate_to_tokens_def truncate_prefix_loop)

lemma truncate_loop_bound: "t \<le> l \<Longrightarrow> token_loop t r (truncate_loop l t r cs) \<le> l"
  by (induction l t r cs rule: truncate_loop.induct) (auto split: prod.split)

lemma truncate_bound: "estimate_tokens (truncate_to_tokens s l) \<le> l"
  by (simp add: estimate_tokens_def truncate_to_tokens_def truncate_loop_bound)

lemma token_loop_mono: "t \<le> usize_max \<Longrightarrow> t \<le> token_loop t r cs"
proof (induction cs arbitrary: t r)
  case (Cons c cs)
  obtain a b where ab: "next_token_cost c r = (a, b)" by fastforce
  have "t \<le> sat_add t a" "sat_add t a \<le> usize_max" using Cons.prems by (auto simp: sat_add_min)
  then show ?case using Cons.IH [of "sat_add t a" b] ab by (simp add: order.trans)
qed simp

lemma truncate_loop_id: "t \<le> usize_max \<Longrightarrow> token_loop t r cs \<le> l \<Longrightarrow> truncate_loop l t r cs = cs"
proof (induction cs arbitrary: t r)
  case (Cons c cs)
  obtain a b where ab: "next_token_cost c r = (a, b)" by fastforce
  have u: "sat_add t a \<le> usize_max" by (simp add: sat_add_min)
  have "sat_add t a \<le> l" using token_loop_mono [OF u, of b cs] Cons.prems(2) ab by simp
  then show ?case using Cons.IH [OF u, of b] Cons.prems(2) ab by simp
qed simp

lemma truncate_id: "estimate_tokens s \<le> l \<Longrightarrow> truncate_to_tokens s l = s"
  by (simp add: estimate_tokens_def truncate_to_tokens_def truncate_loop_id)

text \<open>Truncation is maximal: any longer prefix costs more than the limit.\<close>

lemma truncate_loop_maximal:
  "t \<le> usize_max \<Longrightarrow> prefix p cs \<Longrightarrow> token_loop t r p \<le> l \<Longrightarrow> prefix p (truncate_loop l t r cs)"
proof (induction cs arbitrary: t r p)
  case (Cons c cs)
  show ?case
  proof (cases p)
    case (Cons d q)
    then have d: "d = c" "prefix q cs" using Cons.prems(2) by auto
    obtain a b where ab: "next_token_cost c r = (a, b)" by fastforce
    have u: "sat_add t a \<le> usize_max" by (simp add: sat_add_min)
    have "token_loop (sat_add t a) b q \<le> l" using Cons.prems(3) \<open>p = d # q\<close> d ab by simp
    moreover have "sat_add t a \<le> l" using token_loop_mono [OF u, of b q] calculation by simp
    ultimately show ?thesis using Cons.IH [OF u d(2), of b] \<open>p = d # q\<close> d ab by simp
  qed simp
qed simp

lemma truncate_maximal: "prefix p s \<Longrightarrow> estimate_tokens p \<le> l \<Longrightarrow> prefix p (truncate_to_tokens s l)"
  by (simp add: estimate_tokens_def truncate_to_tokens_def truncate_loop_maximal)

section \<open>The order of selection\<close>

fun source_key :: "ContextSource \<Rightarrow> nat \<times> nat" where
  "source_key (RecentTurn k) = (2, k)"
| "source_key s = (priority s, 0)"

lemma source_le_key: "source_le l r \<longleftrightarrow> source_key l \<le> source_key r"
  by (cases l; cases r) (auto simp: source_le_def less_eq_prod_def)

lemma order_preorder: "total_preorder (\<lambda>i j. source_le (ci_source (items ! i)) (ci_source (items ! j)))"
  unfolding source_le_key by (rule total_preorder_key)

lemma selection_order_mset: "mset (selection_order items) = mset [0..<length items]"
  by (simp add: selection_order_def)

lemma selection_order_set [simp]: "set (selection_order items) = {..<length items}"
  by (auto simp: selection_order_def)

lemma selection_order_distinct: "distinct (selection_order items)"
  by (metis distinct_upt mset_eq_imp_distinct_iff selection_order_mset)

lemma selection_order_sorted:
  "sorted_wrt (\<lambda>i j. source_le (ci_source (items ! i)) (ci_source (items ! j))) (selection_order items)"
  unfolding selection_order_def by (rule sorted_sort_by [OF order_preorder])

lemma selection_order_stable:
  assumes o: "selection_order items = xs @ i # ys" and j: "j \<in> set ys"
    and k: "source_key (ci_source (items ! i)) = source_key (ci_source (items ! j))"
  shows "i < j"
proof -
  define P where "P n = (source_key (ci_source (items ! n)) = source_key (ci_source (items ! i)))" for n
  have "filter P (selection_order items) = filter P [0..<length items]"
    unfolding selection_order_def by (rule sort_by_stable) (simp add: P_def source_le_key)
  then have f: "filter P xs @ i # filter P ys = filter P [0..<length items]" by (simp add: o P_def)
  have "sorted_wrt (<) (filter P [0..<length items])" using sorted_wrt_filter [OF sorted_wrt_upt] .
  then have "sorted_wrt (<) (i # filter P ys)" unfolding f [symmetric] sorted_wrt_append by blast
  then show ?thesis using j k by (simp add: P_def)
qed

text \<open>A mailbox message does not come before the current request.\<close>

definition mailbox_after_request :: "ContextItem list \<Rightarrow> bool" where
  "mailbox_after_request items \<longleftrightarrow>
     (\<forall>i j. i < j \<and> j < length items \<longrightarrow> \<not> (ci_source (items ! i) = Mailbox \<and> ci_source (items ! j) = CurrentRequest))"

lemma required_first:
  assumes "mailbox_after_request items"
  shows "sorted_wrt (\<lambda>i j. is_required (ci_source (items ! j)) \<longrightarrow> is_required (ci_source (items ! i))) (selection_order items)"
proof -
  have "is_required (ci_source (items ! i))"
    if o: "selection_order items = xs @ i # ys" and j: "j \<in> set ys" and r: "is_required (ci_source (items ! j))" for xs i ys j
  proof (rule ccontr)
    assume n: "\<not> is_required (ci_source (items ! i))"
    have jl: "j < length items" using j o selection_order_set [of items] by auto
    have le: "source_le (ci_source (items ! i)) (ci_source (items ! j))"
      using selection_order_sorted [of items] j by (auto simp: o sorted_wrt_append)
    have m: "ci_source (items ! i) = Mailbox" "ci_source (items ! j) = CurrentRequest"
      using n r le by (cases "ci_source (items ! i)"; cases "ci_source (items ! j)"; simp add: is_required_def source_le_def)+
    have "i < j" by (rule selection_order_stable [OF o j]) (simp add: m)
    then show False using assms jl m by (auto simp: mailbox_after_request_def)
  qed
  then show ?thesis by (metis (no_types, lifting) sorted_wrt_split)
qed

section \<open>The loop\<close>

lemma budget_step_cases [case_names whole cut omit]:
  assumes "\<And>s'. s' = include_item (items ! i) (estimate_tokens (ci_content (items ! i))) i s \<Longrightarrow>
      is_required (ci_source (items ! i)) \<or> estimate_tokens (ci_content (items ! i)) \<le> lim - bs_estimated s \<Longrightarrow> P s'"
    and "\<And>s' c. s' = (include_item ((items ! i)\<lparr>ci_content := c\<rparr>) (estimate_tokens c) i s)\<lparr>bs_truncations := tr\<rparr> \<Longrightarrow>
      \<not> is_required (ci_source (items ! i)) \<Longrightarrow> \<not> is_recent (ci_source (items ! i)) \<Longrightarrow>
      c = truncate_to_tokens (ci_content (items ! i)) (lim - bs_estimated s) \<Longrightarrow> P s'"
    and "\<And>b. \<not> is_required (ci_source (items ! i)) \<Longrightarrow> P (omit_item (items ! i) (s\<lparr>bs_recent_blocked := b\<rparr>))"
    and "tr = bs_truncations s @ [\<lparr>tr_id = ci_id (items ! i), tr_original_tokens = estimate_tokens (ci_content (items ! i)),
       tr_included_tokens = estimate_tokens (truncate_to_tokens (ci_content (items ! i)) (lim - bs_estimated s))\<rparr>]"
  shows "P (budget_step lim items s i)"
proof -
  have o: "P (omit_item (items ! i) s)" if "\<not> is_required (ci_source (items ! i))"
    using assms(3) [OF that, of "bs_recent_blocked s"] by simp
  show ?thesis unfolding budget_step_def Let_def
    using assms(1) [OF refl] assms(2) [OF refl _ _ refl] assms(3) assms(4) o by auto
qed

abbreviation budget_loop :: "nat \<Rightarrow> ContextItem list \<Rightarrow> budget_state \<Rightarrow> nat list \<Rightarrow> budget_state" where
  "budget_loop lim items \<equiv> foldl (budget_step lim items)"

abbreviation item_tokens :: "ContextItem \<Rightarrow> nat" where
  "item_tokens x \<equiv> estimate_tokens (ci_content x)"

lemma include_simps [simp]:
  "bs_items (include_item x k i s) = bs_items s @ [x]" "bs_ids (include_item x k i s) = bs_ids s @ [ci_id x]"
  "bs_omitted (include_item x k i s) = bs_omitted s" "bs_recent_blocked (include_item x k i s) = bs_recent_blocked s"
  "bs_estimated (include_item x k i s) = min usize_max (bs_estimated s + k)"
  "bs_items (omit_item x s) = bs_items s" "bs_ids (omit_item x s) = bs_ids s" "bs_omitted (omit_item x s) = bs_omitted s @ [ci_id x]"
  "bs_estimated (omit_item x s) = bs_estimated s" "bs_recent_blocked (omit_item x s) = bs_recent_blocked s"
  by (simp_all add: include_item_def omit_item_def sat_add_min)

lemma step_optional_bound:
  assumes "bs_estimated s \<le> lim" "\<not> is_required (ci_source (items ! i))"
  shows "bs_estimated (budget_step lim items s i) \<le> lim"
  by (rule budget_step_cases [OF _ _ _ refl])
    (use assms truncate_bound [of "ci_content (items ! i)" "lim - bs_estimated s"] in \<open>auto simp: min_le_iff_disj\<close>)

lemma loop_bound:
  assumes "sorted_wrt (\<lambda>i j. is_required (ci_source (items ! j)) \<longrightarrow> is_required (ci_source (items ! i))) is"
    and "min usize_max (bs_estimated s + (\<Sum>i \<leftarrow> filter (\<lambda>i. is_required (ci_source (items ! i))) is. item_tokens (items ! i))) \<le> lim"
    and "bs_estimated s \<le> lim"
  shows "bs_estimated (budget_loop lim items s is) \<le> lim"
  using assms
proof (induction "is" arbitrary: s)
  case (Cons i "is")
  show ?case
  proof (cases "is_required (ci_source (items ! i))")
    case True
    then have "budget_step lim items s i = include_item (items ! i) (item_tokens (items ! i)) i s"
      by (simp add: budget_step_def Let_def)
    then show ?thesis using Cons.prems True by (auto intro!: Cons.IH)
  next
    case False
    then have "filter (\<lambda>i. is_required (ci_source (items ! i))) is = []" using Cons.prems(1) by (auto simp: filter_empty_conv)
    then show ?thesis using Cons.prems False step_optional_bound [OF Cons.prems(3) False] by (auto intro!: Cons.IH)
  qed
qed simp

lemma step_sum:
  assumes "bs_estimated s = min usize_max (\<Sum>x \<leftarrow> bs_items s. item_tokens x)"
  shows "bs_estimated (budget_step lim items s i) = min usize_max (\<Sum>x \<leftarrow> bs_items (budget_step lim items s i). item_tokens x)"
  by (rule budget_step_cases [OF _ _ _ refl]) (use assms in auto)

lemma loop_sum:
  assumes "bs_estimated s = min usize_max (\<Sum>x \<leftarrow> bs_items s. item_tokens x)"
  shows "bs_estimated (budget_loop lim items s is) = min usize_max (\<Sum>x \<leftarrow> bs_items (budget_loop lim items s is). item_tokens x)"
  using assms by (induction "is" arbitrary: s) (auto simp: step_sum)

lemma step_partition:
  "mset (bs_ids (budget_step lim items s i) @ bs_omitted (budget_step lim items s i))
     = add_mset (ci_id (items ! i)) (mset (bs_ids s @ bs_omitted s))"
  by (rule budget_step_cases [OF _ _ _ refl]) auto

lemma loop_partition:
  "mset (bs_ids (budget_loop lim items s is) @ bs_omitted (budget_loop lim items s is))
     = mset (map (\<lambda>i. ci_id (items ! i)) is) + mset (bs_ids s @ bs_omitted s)"
proof (induction "is" arbitrary: s)
  case (Cons i "is")
  then show ?case using step_partition [of lim items s i] by (simp add: ac_simps)
qed simp

text \<open>Where an included item comes from: it is an input item, whole or, for optional items, cut to a prefix.\<close>

definition comes_from :: "ContextItem \<Rightarrow> ContextItem \<Rightarrow> bool" where
  "comes_from x y \<longleftrightarrow> ci_id x = ci_id y \<and> ci_source x = ci_source y \<and> prefix (ci_content x) (ci_content y)
     \<and> (is_required (ci_source y) \<or> is_recent (ci_source y) \<longrightarrow> x = y)"

lemma step_origin:
  assumes "i < length items" "\<forall>x \<in> set (bs_items s). \<exists>y \<in> set items. comes_from x y"
  shows "\<forall>x \<in> set (bs_items (budget_step lim items s i)). \<exists>y \<in> set items. comes_from x y"
proof -
  have self: "comes_from (items ! i) (items ! i)" by (simp add: comes_from_def)
  have cut: "\<exists>y \<in> set items. comes_from ((items ! i)\<lparr>ci_content := truncate_to_tokens (ci_content (items ! i)) k\<rparr>) y"
    if "\<not> is_required (ci_source (items ! i))" "\<not> is_recent (ci_source (items ! i))" for k
    by (rule bexI [OF _ nth_mem [OF assms(1)]]) (use that in \<open>simp add: comes_from_def truncate_prefix\<close>)
  show ?thesis
    by (rule budget_step_cases [OF _ _ _ refl]) (use assms self cut nth_mem [OF assms(1)] in auto)
qed

lemma loop_origin:
  assumes "\<forall>i \<in> set is. i < length items" "\<forall>x \<in> set (bs_items s). \<exists>y \<in> set items. comes_from x y"
  shows "\<forall>x \<in> set (bs_items (budget_loop lim items s is)). \<exists>y \<in> set items. comes_from x y"
  using assms
proof (induction "is" arbitrary: s)
  case (Cons i "is")
  have "\<forall>x \<in> set (bs_items (budget_step lim items s i)). \<exists>y \<in> set items. comes_from x y"
    by (rule step_origin) (use Cons.prems in auto)
  then show ?case using Cons by simp
qed simp

lemma step_grows: "set (bs_items s) \<subseteq> set (bs_items (budget_step lim items s i))"
  by (rule budget_step_cases [OF _ _ _ refl]) auto

lemma loop_grows: "set (bs_items s) \<subseteq> set (bs_items (budget_loop lim items s is))"
proof (induction "is" arbitrary: s)
  case (Cons i "is")
  then show ?case using step_grows [of s lim items i] by fastforce
qed simp

lemma loop_required:
  assumes "i \<in> set is" "is_required (ci_source (items ! i))"
  shows "items ! i \<in> set (bs_items (budget_loop lim items s is))"
  using assms(1)
proof (induction "is" arbitrary: s)
  case (Cons j "is")
  show ?case
  proof (cases "i = j")
    case True
    then have "items ! i \<in> set (bs_items (budget_step lim items s j))" using assms(2) by (simp add: budget_step_def Let_def)
    then show ?thesis using loop_grows by fastforce
  qed (use Cons in auto)
qed simp

section \<open>Recent turns\<close>

lemma step_ids: "set (bs_ids (budget_step lim items s i)) \<subseteq> insert (ci_id (items ! i)) (set (bs_ids s))"
  by (rule budget_step_cases [OF _ _ _ refl]) auto

lemma loop_ids: "set (bs_ids (budget_loop lim items s is)) \<subseteq> (\<lambda>i. ci_id (items ! i)) ` set is \<union> set (bs_ids s)"
proof (induction "is" arbitrary: s)
  case (Cons i "is")
  then show ?case using step_ids [of lim items s i] by fastforce
qed simp

lemma step_blocked: "bs_recent_blocked s \<Longrightarrow> bs_recent_blocked (budget_step lim items s i)"
  by (simp add: budget_step_def Let_def)

lemma loop_blocked: "bs_recent_blocked s \<Longrightarrow> bs_recent_blocked (budget_loop lim items s is)"
  by (induction "is" arbitrary: s) (auto simp: step_blocked)

lemma recent_step:
  assumes "is_recent (ci_source (items ! i))"
  shows "(bs_recent_blocked (budget_step lim items s i) \<and> bs_ids (budget_step lim items s i) = bs_ids s)
    \<or> (\<not> bs_recent_blocked s \<and> items ! i \<in> set (bs_items (budget_step lim items s i)))"
proof -
  have "\<not> is_required (ci_source (items ! i))" using assms by (cases "ci_source (items ! i)") (simp_all add: is_required_def)
  then show ?thesis using assms by (simp add: budget_step_def Let_def)
qed

lemma recent_prefix:
  assumes o: "is = xs @ i # ys @ j # zs" and d: "distinct (map (\<lambda>i. ci_id (items ! i)) is)" and s: "bs_ids s = []"
    and ri: "is_recent (ci_source (items ! i))" and rj: "is_recent (ci_source (items ! j))"
    and inc: "ci_id (items ! j) \<in> set (bs_ids (budget_loop lim items s is))"
  shows "items ! i \<in> set (bs_items (budget_loop lim items s is))"
proof -
  define s1 where "s1 = budget_loop lim items s xs"
  define s2 where "s2 = budget_step lim items s1 i"
  define s3 where "s3 = budget_loop lim items s2 ys"
  define s4 where "s4 = budget_step lim items s3 j"
  have fin: "budget_loop lim items s is = budget_loop lim items s4 zs" by (simp add: o s1_def s2_def s3_def s4_def)
  have s3': "s3 = budget_loop lim items s (xs @ i # ys)" by (simp add: s1_def s2_def s3_def)
  have n: "ci_id (items ! j) \<notin> set (bs_ids s3)"
    using loop_ids [of lim items s "xs @ i # ys"] s d unfolding s3' o by (auto simp: image_iff)
  have "ci_id (items ! j) \<in> set (bs_ids s4)"
  proof -
    have "ci_id (items ! j) \<notin> (\<lambda>i. ci_id (items ! i)) ` set zs" using d unfolding o by (auto simp: image_iff)
    then show ?thesis using inc loop_ids [of lim items s4 zs] unfolding fin by blast
  qed
  then have "\<not> bs_recent_blocked s3" using n recent_step [OF rj, of lim s3] unfolding s4_def by auto
  then have "\<not> bs_recent_blocked s2" using loop_blocked unfolding s3_def by blast
  then have "items ! i \<in> set (bs_items s2)" using recent_step [OF ri, of lim s1] unfolding s2_def by blast
  then show ?thesis using loop_grows [of s2 lim items ys] step_grows [of s3 lim items j] loop_grows [of s4 lim items zs]
    unfolding fin s3_def s4_def by blast
qed

section \<open>Validation\<close>

lemma validate_items_ok:
  "validate_items seen xs = Inr () \<Longrightarrow> distinct (map ci_id xs) \<and> ci_id ` set xs \<inter> ci_id ` set seen = {}"
proof (induction seen xs rule: validate_items.induct)
  case (2 seen x xs)
  have n: "ci_id x \<notin> ci_id ` set seen" using "2.prems" by (auto split: if_splits)
  have "validate_items (seen @ [x]) xs = Inr ()" using "2.prems" n by (auto split: ContextSource.splits if_splits)
  then have "distinct (map ci_id xs) \<and> ci_id ` set xs \<inter> ci_id ` set (seen @ [x]) = {}"
    using "2.IH" n "2.prems" by (auto split: ContextSource.splits if_splits)
  then show ?case using n by auto
qed simp

lemma required_tokens_sum:
  "required_tokens items = min usize_max (\<Sum>x \<leftarrow> filter (is_required \<circ> ci_source) items. item_tokens x)"
proof -
  have "foldl (\<lambda>total x. sat_add total (item_tokens x)) a xs = min usize_max (a + (\<Sum>x \<leftarrow> xs. item_tokens x))"
    if "a \<le> usize_max" for a xs
    using that by (induction xs arbitrary: a) (auto simp: sat_add_min)
  from this [of 0] show ?thesis by (simp add: required_tokens_def)
qed

lemma order_sum:
  "(\<Sum>i \<leftarrow> filter (\<lambda>i. P (items ! i)) (selection_order items). item_tokens (items ! i)) = (\<Sum>x \<leftarrow> filter P items. item_tokens x)"
proof -
  have "mset (map (\<lambda>i. item_tokens (items ! i)) (filter (\<lambda>i. P (items ! i)) (selection_order items)))
      = mset (map (\<lambda>i. item_tokens (items ! i)) (filter (\<lambda>i. P (items ! i)) [0..<length items]))"
    by (simp add: selection_order_mset)
  then have "(\<Sum>i \<leftarrow> filter (\<lambda>i. P (items ! i)) (selection_order items). item_tokens (items ! i))
      = (\<Sum>i \<leftarrow> filter (\<lambda>i. P (items ! i)) [0..<length items]. item_tokens (items ! i))"
    by (metis sum_mset_sum_list)
  also have "\<dots> = (\<Sum>x \<leftarrow> filter P (map ((!) items) [0..<length items]). item_tokens x)"
    by (simp add: filter_map comp_def)
  finally show ?thesis by (simp only: map_nth)
qed

lemma required_order_sum:
  "(\<Sum>i \<leftarrow> filter (\<lambda>i. is_required (ci_source (items ! i))) (selection_order items). item_tokens (items ! i))
     = (\<Sum>x \<leftarrow> filter (is_required \<circ> ci_source) items. item_tokens x)"
  using order_sum [of items "is_required \<circ> ci_source"] by simp

text \<open>In any order only required items can exceed the limit.\<close>

lemma loop_excess:
  "bs_estimated (budget_loop lim items s is)
     \<le> max lim (bs_estimated s) + (\<Sum>i \<leftarrow> filter (\<lambda>i. is_required (ci_source (items ! i))) is. item_tokens (items ! i))"
proof (induction "is" arbitrary: s)
  case (Cons i "is")
  have "bs_estimated (budget_step lim items s i) \<le> max lim (bs_estimated s)
      + (if is_required (ci_source (items ! i)) then item_tokens (items ! i) else 0)"
    by (rule budget_step_cases [OF _ _ _ refl])
      (use truncate_bound [of "ci_content (items ! i)" "lim - bs_estimated s"] in \<open>auto simp: min_def max_def\<close>)
  then show ?case using Cons.IH [of "budget_step lim items s i"] by (auto simp: max_def split: if_splits)
qed simp

abbreviation request_tokens :: "ContextItem list \<Rightarrow> nat" where
  "request_tokens items \<equiv> \<Sum>x \<leftarrow> filter (\<lambda>x. ci_source x = CurrentRequest) items. item_tokens x"

lemma loop_request_bound:
  assumes "required_tokens items \<le> lim"
  shows "bs_estimated (budget_loop lim items (budget_init items) (selection_order items)) \<le> lim + request_tokens items"
proof -
  define p where "p i = (priority (ci_source (items ! i)) = 0)" for i
  define A B where "A = takeWhile p (selection_order items)" and "B = dropWhile p (selection_order items)"
  have AB: "selection_order items = A @ B" by (simp add: A_def B_def)
  have A: "is_required (ci_source (items ! i)) \<and> ci_source (items ! i) \<noteq> CurrentRequest" if "i \<in> set A" for i
    using set_takeWhileD [OF that [unfolded A_def]] by (cases "ci_source (items ! i)") (auto simp: p_def is_required_def)
  have B: "is_required (ci_source (items ! j)) \<longleftrightarrow> ci_source (items ! j) = CurrentRequest" if "j \<in> set B" for j
  proof (cases B)
    case (Cons b bs)
    have "\<not> p b" using Cons hd_dropWhile [of p "selection_order items"] by (simp add: B_def)
    moreover have "b = j \<or> source_le (ci_source (items ! b)) (ci_source (items ! j))"
      using selection_order_sorted [of items] that Cons by (auto simp: AB sorted_wrt_append)
    ultimately have "priority (ci_source (items ! j)) \<noteq> 0" by (auto simp: p_def source_le_def)
    then show ?thesis by (cases "ci_source (items ! j)") (auto simp: is_required_def)
  qed (use that in simp)
  let ?sum = "\<lambda>is. \<Sum>i \<leftarrow> filter (\<lambda>i. is_required (ci_source (items ! i))) is. item_tokens (items ! i)"
  let ?s = "budget_loop lim items (budget_init items) A"
  have "min usize_max (?sum A + ?sum B) \<le> lim"
    using assms by (simp add: required_tokens_sum flip: required_order_sum sum_list_append map_append filter_append AB)
  then have "bs_estimated ?s \<le> lim"
    using A by (intro loop_bound) (auto simp: budget_init_def sorted_wrt_iff_nth_less min_le_iff_disj)
  moreover have "?sum B = request_tokens items"
  proof -
    have "filter (\<lambda>i. ci_source (items ! i) = CurrentRequest) A = []" using A by (auto simp: filter_empty_conv)
    moreover have "filter (\<lambda>i. is_required (ci_source (items ! i))) B = filter (\<lambda>i. ci_source (items ! i) = CurrentRequest) B"
      using B by (intro filter_cong) auto
    ultimately show ?thesis using order_sum [of items "\<lambda>x. ci_source x = CurrentRequest"] by (simp add: AB)
  qed
  ultimately show ?thesis using loop_excess [of lim items ?s B] by (simp add: AB)
qed

text \<open>A successful report comes from the loop over the selection order.\<close>

lemma budget_context_Inr:
  assumes "budget_context items ml outp reas = Inr rep"
  obtains lim s where "s = budget_loop lim items (budget_init items) (selection_order items)" "rp_input_limit rep = lim"
    "validate_items [] items = Inr ()" "required_tokens items \<le> lim"
    "rp_model_limit rep = (case ml of None \<Rightarrow> DEFAULT_MODEL_LIMIT | Some l \<Rightarrow> l)"
    "lim + sat_add outp reas = rp_model_limit rep"
    "rp_estimated_included_tokens rep = bs_estimated s" "rp_included_ids rep = bs_ids s" "rp_omitted_ids rep = bs_omitted s"
    "rp_included_items rep = bs_items s"
  using assms by (auto simp: budget_context_def rbind_Inr Let_def split: if_splits)

end
