(* ===== verification/Context_Summary.thy ===== *)
theory Context_Summary
  imports Context_Budget
begin

text \<open>
  Folding old messages into a summary (\<open>agent/context/summary.rs\<close>): when to summarise, which messages to fold, and
  which messages remain after a summary.
\<close>

definition SUMMARY_TRIGGER_TOKENS :: nat where
  "SUMMARY_TRIGGER_TOKENS = 9000"

definition SUMMARY_KEEP_TAIL_TOKENS :: nat where
  "SUMMARY_KEEP_TAIL_TOKENS = 3200"

definition SUMMARY_MIN_FOLD_TOKENS :: nat where
  "SUMMARY_MIN_FOLD_TOKENS = 1200"

record SummaryMessage =
  sm_id :: rstr
  sm_role :: rstr
  sm_content :: rstr
  sm_created_at :: rstr

record SummaryPlan =
  older_messages :: "SummaryMessage list"
  plan_covered_message_id :: rstr
  total_tokens :: nat
  folded_tokens :: nat

definition message_tokens :: "SummaryMessage \<Rightarrow> nat" where
  "message_tokens m = estimate_tokens (sm_role m) + estimate_tokens (sm_content m) + 4"

definition estimate_summary_tokens :: "SummaryMessage list \<Rightarrow> nat" where
  "estimate_summary_tokens ms = (\<Sum>m \<leftarrow> ms. message_tokens m)"

text \<open>\<open>covered_message_id.map(str::trim).filter(|v| !v.is_empty())\<close>\<close>

definition anchor :: "rstr option \<Rightarrow> rstr option" where
  "anchor c = (case c of None \<Rightarrow> None | Some v \<Rightarrow> if trim v = [] then None else Some (trim v))"

fun position :: "('a \<Rightarrow> bool) \<Rightarrow> 'a list \<Rightarrow> nat option" where
  "position P [] = None"
| "position P (x # xs) = (if P x then Some 0 else map_option Suc (position P xs))"

text \<open>The backward scan over the messages: \<open>index\<close> counts the messages not yet visited.\<close>

fun split_loop :: "SummaryMessage list \<Rightarrow> nat \<Rightarrow> nat \<Rightarrow> nat \<Rightarrow> nat" where
  "split_loop ms 0 tail split = split"
| "split_loop ms (Suc index) tail split =
     (if SUMMARY_KEEP_TAIL_TOKENS \<le> tail \<and> 8 \<le> length ms - index then index + 1
      else split_loop ms index (sat_add tail (message_tokens (ms ! index))) index)"

definition split_index :: "SummaryMessage list \<Rightarrow> nat" where
  "split_index ms = split_loop ms (length ms) 0 (length ms)"

definition plan_summary :: "SummaryMessage list \<Rightarrow> rstr option \<Rightarrow> (string, SummaryPlan option) result" where
  "plan_summary ms covered =
     (if ms = [] then Inr None
      else
        (case anchor covered of
           Some a \<Rightarrow>
             (case position (\<lambda>m. sm_id m = a) ms of
                None \<Rightarrow> Inl ''covered message not found''
              | Some i \<Rightarrow>
                  (let older = take (i + 1) ms; folded = estimate_summary_tokens older in
                   Inr (Some \<lparr>older_messages = older, plan_covered_message_id = a, total_tokens = folded, folded_tokens = folded\<rparr>)))
         | None \<Rightarrow>
             if estimate_summary_tokens ms < SUMMARY_TRIGGER_TOKENS then Inr None
             else
               (let older = take (split_index ms) ms; folded = estimate_summary_tokens older in
                if older = [] then Inr None
                else if folded < SUMMARY_MIN_FOLD_TOKENS then Inr None
                else Inr (Some \<lparr>older_messages = older, plan_covered_message_id = sm_id (last older),
                       total_tokens = estimate_summary_tokens ms, folded_tokens = folded\<rparr>))))"

definition messages_after_covered_id :: "SummaryMessage list \<Rightarrow> rstr option \<Rightarrow> SummaryMessage list" where
  "messages_after_covered_id ms covered =
     (case anchor covered of
        None \<Rightarrow> ms
      | Some a \<Rightarrow> (case position (\<lambda>m. sm_id m = a) ms of None \<Rightarrow> ms | Some i \<Rightarrow> drop (i + 1) ms))"

section \<open>Lemmas\<close>

lemma position_Some: "position P xs = Some i \<longleftrightarrow> i < length xs \<and> P (xs ! i) \<and> (\<forall>j < i. \<not> P (xs ! j))"
proof (induction xs arbitrary: i)
  case (Cons x xs)
  show ?case by (cases i) (auto simp: Cons nth_Cons less_Suc_eq_0_disj split: nat.split if_splits)
qed simp

lemma position_distinct:
  assumes "distinct (map f xs)" "i < length xs"
  shows "position (\<lambda>x. f x = f (xs ! i)) xs = Some i"
  unfolding position_Some using assms by (auto simp: distinct_conv_nth)

lemma split_loop_pos:
  "0 < n \<Longrightarrow> split_loop ms n tail split =
     (if SUMMARY_KEEP_TAIL_TOKENS \<le> tail \<and> 8 \<le> length ms - (n - 1) then n
      else split_loop ms (n - 1) (sat_add tail (message_tokens (ms ! (n - 1)))) (n - 1))"
  by (cases n) simp_all

lemma split_loop_le: "n \<le> split \<Longrightarrow> split_loop ms n tail split \<le> split"
  by (induction ms n tail split rule: split_loop.induct) (auto intro: le_trans)

text \<open>The scan stops with a tail of at least 3200 tokens and at least seven messages, unless it reaches the start.\<close>

lemma split_loop_tail:
  assumes "tail = min usize_max (estimate_summary_tokens (drop n ms))" "n \<le> length ms" "split = n"
  shows "split_loop ms n tail split = 0 \<or>
     (SUMMARY_KEEP_TAIL_TOKENS \<le> estimate_summary_tokens (drop (split_loop ms n tail split) ms) \<and>
      split_loop ms n tail split + 7 \<le> length ms)"
  using assms
proof (induction ms n tail split rule: split_loop.induct)
  case (2 ms index tail split)
  show ?case
  proof (cases "SUMMARY_KEEP_TAIL_TOKENS \<le> tail \<and> 8 \<le> length ms - index")
    case True
    then have "index + 8 \<le> length ms" using 2 by linarith
    then show ?thesis using 2 True by simp
  next
    case False
    have "drop index ms = ms ! index # drop (Suc index) ms" using 2 by (simp add: Cons_nth_drop_Suc)
    then have "sat_add tail (message_tokens (ms ! index)) = min usize_max (estimate_summary_tokens (drop index ms))"
      using 2 by (auto simp: sat_add_min estimate_summary_tokens_def)
    moreover have "split_loop ms (Suc index) tail split = split_loop ms index (sat_add tail (message_tokens (ms ! index))) index"
      using False by auto
    ultimately show ?thesis using "2.IH" [OF False] "2.prems" by simp
  qed
qed simp

lemma split_index_le: "split_index ms \<le> length ms"
  unfolding split_index_def by (rule split_loop_le) simp

lemma split_index_tail:
  "split_index ms = 0 \<or> SUMMARY_KEEP_TAIL_TOKENS \<le> estimate_summary_tokens (drop (split_index ms) ms) \<and> split_index ms + 7 \<le> length ms"
  unfolding split_index_def by (rule split_loop_tail) (simp_all add: estimate_summary_tokens_def)

text \<open>A plan folds a non-empty prefix and covers the last message of it.\<close>

lemma plan_summary_prefix:
  assumes "plan_summary ms covered = Inr (Some plan)"
  obtains n where "0 < n" "n \<le> length ms" "older_messages plan = take n ms" "plan_covered_message_id plan = sm_id (ms ! (n - 1))"
proof (cases "anchor covered")
  case None
  let ?n = "split_index ms"
  have p: "older_messages plan = take ?n ms" "take ?n ms \<noteq> []" "plan_covered_message_id plan = sm_id (last (take ?n ms))"
    using assms None by (auto simp: plan_summary_def Let_def split: if_splits)
  then have "0 < ?n" by (cases ?n) auto
  moreover have "last (take ?n ms) = ms ! (?n - 1)"
    using p(2) split_index_le [of ms] calculation by (simp add: last_conv_nth min_absorb2)
  ultimately show thesis using that [of ?n] p split_index_le [of ms] by simp
next
  case (Some a)
  then obtain i where i: "position (\<lambda>m. sm_id m = a) ms = Some i"
    and p: "older_messages plan = take (i + 1) ms" "plan_covered_message_id plan = a"
    using assms by (auto simp: plan_summary_def Let_def split: if_splits option.splits)
  have "i < length ms" "sm_id (ms ! i) = a" using i by (auto simp: position_Some)
  then show thesis using that [of "i + 1"] p by simp
qed

end
