(* ===== verification/Context_Properties.thy ===== *)
theory Context_Properties
  imports Context_Summary
begin

text \<open>
  The properties of the context budget and of conversation summaries: what a budget report guarantees, what truncation
  keeps, which messages a summary plan folds, and that the messages after a summary are exactly those it did not fold.
\<close>

section \<open>The context budget\<close>

text \<open>C23. Every context report that is produced, for any items: the completion reservation and the input limit together are the
  model's limit; the included tokens are exactly the tokens of the included items (up to \<open>usize\<close> saturation); they do not exceed
  the input limit if no mailbox message precedes the current request, and otherwise exceed it by at most the tokens of the
  request; the items' ids are partitioned into included and omitted ones; every included item is an input item, whole if it is
  required or a recent turn and otherwise cut to a prefix; every required item is included.\<close>

theorem budget_context_spec:
  assumes "budget_context items model_limit output_reservation reasoning_reservation = Inr rep"
  shows "rp_input_limit rep + sat_add output_reservation reasoning_reservation = rp_model_limit rep
    \<and> rp_estimated_included_tokens rep = min usize_max (\<Sum>x \<leftarrow> rp_included_items rep. estimate_tokens (ci_content x))
    \<and> (mailbox_after_request items \<longrightarrow> rp_estimated_included_tokens rep \<le> rp_input_limit rep)
    \<and> rp_estimated_included_tokens rep \<le> rp_input_limit rep + request_tokens items
    \<and> mset (rp_included_ids rep @ rp_omitted_ids rep) = mset (map ci_id items)
    \<and> (\<forall>x \<in> set (rp_included_items rep). \<exists>y \<in> set items. comes_from x y)
    \<and> (\<forall>y \<in> set items. is_required (ci_source y) \<longrightarrow> y \<in> set (rp_included_items rep))"
proof -
  obtain lim s where s: "s = budget_loop lim items (budget_init items) (selection_order items)"
    and rep: "rp_input_limit rep = lim" "required_tokens items \<le> lim"
      "lim + sat_add output_reservation reasoning_reservation = rp_model_limit rep"
      "rp_estimated_included_tokens rep = bs_estimated s" "rp_included_ids rep = bs_ids s" "rp_omitted_ids rep = bs_omitted s"
      "rp_included_items rep = bs_items s"
    by (rule budget_context_Inr [OF assms])
  have sum: "bs_estimated s = min usize_max (\<Sum>x \<leftarrow> bs_items s. item_tokens x)"
    unfolding s by (rule loop_sum) (simp add: budget_init_def)
  have bound: "bs_estimated s \<le> lim" if "mailbox_after_request items"
    unfolding s by (rule loop_bound [OF required_first [OF that]])
      (use rep(2) in \<open>simp_all add: budget_init_def required_order_sum required_tokens_sum\<close>)
  have excess: "bs_estimated s \<le> lim + request_tokens items" unfolding s by (rule loop_request_bound [OF rep(2)])
  have ids: "mset (map (\<lambda>i. ci_id (items ! i)) (selection_order items)) = mset (map ci_id items)"
  proof -
    have "mset (map (\<lambda>i. ci_id (items ! i)) (selection_order items)) = mset (map ci_id (map ((!) items) [0..<length items]))"
      unfolding mset_map selection_order_mset by (simp add: image_mset.compositionality comp_def)
    then show ?thesis by (simp only: map_nth)
  qed
  have part: "mset (bs_ids s @ bs_omitted s) = mset (map ci_id items)"
    unfolding s loop_partition ids by (simp add: budget_init_def)
  have origin: "\<forall>x \<in> set (bs_items s). \<exists>y \<in> set items. comes_from x y"
    unfolding s by (rule loop_origin) (simp_all add: budget_init_def)
  have req: "\<forall>y \<in> set items. is_required (ci_source y) \<longrightarrow> y \<in> set (bs_items s)"
    using loop_required [of _ "selection_order items" items lim "budget_init items"] unfolding s
    by (metis in_set_conv_nth lessThan_iff selection_order_set)
  show ?thesis using rep sum bound excess part origin req by simp
qed

definition sample_items :: "ContextItem list" where
  "sample_items = [\<lparr>ci_id = str ''sys'', ci_source = System, ci_content = str ''be brief''\<rparr>,
     \<lparr>ci_id = str ''req'', ci_source = CurrentRequest, ci_content = str ''why''\<rparr>,
     \<lparr>ci_id = str ''mem'', ci_source = ExplicitMemory, ci_content = str ''long memory''\<rparr>]"

lemmas token_eval = estimate_tokens_def next_token_cost_def ascii_defs ASCII_CHARS_PER_TOKEN_def sat_add_def usize_max_def
  len_utf8_def str_def

lemma sample_tokens: "estimate_tokens (str ''be brief'') = 4" "estimate_tokens (str ''why'') = 1"
  by (simp_all add: token_eval cong: prod.case_cong_weak)

lemma sample_requests: "filter (\<lambda>x. ci_source x = CurrentRequest) sample_items = [sample_items ! Suc 0]"
  by (simp add: sample_items_def)

lemma sample_required: "required_tokens sample_items = 5"
  by (simp add: required_tokens_def sample_items_def is_required_def sample_tokens sat_add_def usize_max_def)

lemma sample_trim: "trim (ci_content (sample_items ! Suc 0)) \<noteq> []"
  by (simp add: sample_items_def str_def trim_def trim_start_def trim_end_def is_whitespace_def)

lemma sample_valid: "validate_items [] sample_items = Inr ()"
  by (simp add: sample_items_def)

lemma sample_reservation: "sat_add 10 2 = 12"
  by (simp add: sat_add_def usize_max_def)

lemmas sample_parts = sample_requests sample_required sample_trim sample_valid sample_reservation

theorem budget_context_spec_witness:
  "\<exists>rep. budget_context sample_items (Some 20) 10 2 = Inr rep \<and> rp_estimated_included_tokens rep \<le> rp_input_limit rep"
proof -
  have "is_ok (budget_context sample_items (Some 20) 10 2)"
    by (simp add: budget_context_def sample_parts Let_def)
  then obtain rep where r: "budget_context sample_items (Some 20) 10 2 = Inr rep" unfolding is_ok_iff by blast
  have "mailbox_after_request sample_items"
    by (auto simp: mailbox_after_request_def sample_items_def less_Suc_eq nth_Cons split: nat.splits)
  then show ?thesis using budget_context_spec [OF r] r by blast
qed

text \<open>The limit does not hold without the condition on the mailbox: \<open>Mailbox\<close> shares the priority of the current
  request and is not required, so a mailbox message that stands before the request is admitted against the whole input
  limit and the request is then added on top of it.  The desktop service inserts mailbox messages at index one, before
  the request.\<close>

definition mailbox_items :: "ContextItem list" where
  "mailbox_items = [\<lparr>ci_id = str ''m'', ci_source = Mailbox, ci_content = str ''!!!!''\<rparr>,
     \<lparr>ci_id = str ''r'', ci_source = CurrentRequest, ci_content = str ''why''\<rparr>]"

lemma mailbox_parts:
  "estimate_tokens (str ''!!!!'') = 4" "required_tokens mailbox_items = 1" "selection_order mailbox_items = [0, 1]"
  "trim (str ''why'') \<noteq> []" "sat_add 0 0 = 0"
proof -
  show "estimate_tokens (str ''!!!!'') = 4" by (simp add: token_eval cong: prod.case_cong_weak)
  show "required_tokens mailbox_items = 1"
    by (simp add: required_tokens_def mailbox_items_def is_required_def sample_tokens sat_add_def usize_max_def)
  show "selection_order mailbox_items = [0, 1]"
    by (simp add: selection_order_def mailbox_items_def upt_rec source_le_def sort_by_def)
  show "trim (str ''why'') \<noteq> []" using sample_trim by (simp add: sample_items_def)
  show "sat_add 0 0 = 0" by (simp add: sat_add_def)
qed

theorem mailbox_before_request_exceeds_limit:
  "\<exists>rep. budget_context mailbox_items (Some 4) 0 0 = Inr rep \<and> rp_input_limit rep = 4 \<and> rp_estimated_included_tokens rep = 5"
proof -
  have "filter (\<lambda>x. ci_source x = CurrentRequest) mailbox_items = [mailbox_items ! 1]"
    "ci_content (mailbox_items ! 1) = str ''why''" "validate_items [] mailbox_items = Inr ()"
    by (simp_all add: mailbox_items_def)
  moreover have "bs_estimated (budget_loop 4 mailbox_items (budget_init mailbox_items) [0, 1]) = 5"
    by (simp add: budget_step_def mailbox_items_def mailbox_parts(1) sample_tokens is_required_def Let_def budget_init_def usize_max_def)
  ultimately show ?thesis by (simp add: budget_context_def mailbox_parts Let_def)
qed

text \<open>Recent turns enter the context newest first and without gaps: if a recent turn is included then so is, in full,
  every recent turn that is more recent (has a smaller rank).\<close>

theorem recent_turns_contiguous:
  assumes "budget_context items model_limit output_reservation reasoning_reservation = Inr rep"
    and "x \<in> set items" "ci_source x = RecentTurn a" "y \<in> set items" "ci_source y = RecentTurn b" "a < b"
    and "ci_id y \<in> set (rp_included_ids rep)"
  shows "x \<in> set (rp_included_items rep)"
proof -
  obtain lim s where s: "s = budget_loop lim items (budget_init items) (selection_order items)"
    and rep: "validate_items [] items = Inr ()" "rp_included_ids rep = bs_ids s" "rp_included_items rep = bs_items s"
    by (rule budget_context_Inr [OF assms(1)])
  obtain i j where i: "i < length items" "items ! i = x" and j: "j < length items" "items ! j = y"
    using assms(2,4) by (metis in_set_conv_nth)
  have "i \<noteq> j" using i j assms(3,5,6) by auto
  moreover have "\<not> source_le (ci_source (items ! j)) (ci_source (items ! i))" using i j assms(3,5,6) by (simp add: source_le_def)
  ultimately obtain xs ys zs where o: "selection_order items = xs @ i # ys @ j # zs"
    using sorted_wrt_before [OF selection_order_sorted, of i items j] i j by auto
  have d: "distinct (map (\<lambda>i. ci_id (items ! i)) (selection_order items))"
  proof -
    have "distinct (map ci_id items)" using validate_items_ok [OF rep(1)] by simp
    then show ?thesis unfolding distinct_map [of _ "selection_order items"]
      by (intro conjI selection_order_distinct) (auto simp: inj_on_def distinct_conv_nth)
  qed
  show ?thesis
    using recent_prefix [OF o d, of "budget_init items" lim] i j assms(3,5,7) rep s by (simp add: budget_init_def)
qed

definition recent_items :: "ContextItem list" where
  "recent_items = [\<lparr>ci_id = str ''r'', ci_source = CurrentRequest, ci_content = str ''why''\<rparr>,
     \<lparr>ci_id = str ''t1'', ci_source = RecentTurn 1, ci_content = str ''why''\<rparr>,
     \<lparr>ci_id = str ''t0'', ci_source = RecentTurn 0, ci_content = str ''why''\<rparr>]"

lemma recent_parts:
  "required_tokens recent_items = 1" "selection_order recent_items = [0, 2, 1]"
  "filter (\<lambda>x. ci_source x = CurrentRequest) recent_items = [recent_items ! 0]"
  "ci_content (recent_items ! 0) = str ''why''" "validate_items [] recent_items = Inr ()"
  by (simp_all add: required_tokens_def recent_items_def is_required_def sample_tokens sat_add_def usize_max_def
    selection_order_def upt_rec source_le_def sort_by_def)

theorem recent_turns_contiguous_witness:
  "\<exists>rep. budget_context recent_items (Some 9) 0 0 = Inr rep \<and> recent_items ! 2 \<in> set (rp_included_items rep)"
proof -
  have "\<exists>rep. budget_context recent_items (Some 9) 0 0 = Inr rep
      \<and> rp_included_ids rep = bs_ids (budget_loop 9 recent_items (budget_init recent_items) [0, 2, 1])"
    by (simp add: budget_context_def recent_parts mailbox_parts(4,5) Let_def)
  moreover have "bs_ids (budget_loop 9 recent_items (budget_init recent_items) [0, 2, 1]) = [str ''r'', str ''t0'', str ''t1'']"
    by (simp add: budget_step_def recent_items_def sample_tokens is_required_def Let_def budget_init_def usize_max_def)
  ultimately obtain rep where r: "budget_context recent_items (Some 9) 0 0 = Inr rep" "str ''t1'' \<in> set (rp_included_ids rep)"
    by auto
  show ?thesis
    using recent_turns_contiguous [OF r(1), of "recent_items ! 2" 0 "recent_items ! 1" 1] r by (simp add: recent_items_def)
qed

text \<open>Truncation to a token limit returns the longest prefix of the text whose estimate is within the limit: it is
  such a prefix, and every prefix within the limit is a prefix of it.\<close>

theorem truncate_to_tokens_longest:
  "prefix (truncate_to_tokens s limit) s \<and> estimate_tokens (truncate_to_tokens s limit) \<le> limit
   \<and> (\<forall>p. prefix p s \<and> estimate_tokens p \<le> limit \<longrightarrow> prefix p (truncate_to_tokens s limit))"
  using truncate_prefix truncate_bound truncate_maximal by blast

theorem truncate_to_tokens_longest_witness:
  "prefix (str ''wh'') (truncate_to_tokens (str ''why not'') 1)"
proof -
  have "estimate_tokens (str ''wh'') \<le> 1" "prefix (str ''wh'') (str ''why not'')"
    by (simp_all add: token_eval cong: prod.case_cong_weak)
  then show ?thesis using truncate_to_tokens_longest [of "str ''why not''" 1] by blast
qed

section \<open>Summaries\<close>

text \<open>A summary plan folds a non-empty prefix of the conversation and names its last message; for messages with
  distinct, trimmed, non-empty ids the messages that remain after the plan's covered id are exactly the messages the plan
  did not fold, so that summary and remainder together lose and repeat nothing.\<close>

theorem summary_split_roundtrip:
  assumes "plan_summary ms covered = Inr (Some plan)"
    and "distinct (map sm_id ms)" "\<forall>m \<in> set ms. trim (sm_id m) = sm_id m \<and> sm_id m \<noteq> []"
  shows "older_messages plan \<noteq> [] \<and> sm_id (last (older_messages plan)) = plan_covered_message_id plan
    \<and> older_messages plan @ messages_after_covered_id ms (Some (plan_covered_message_id plan)) = ms"
proof -
  obtain n where n: "0 < n" "n \<le> length ms" "older_messages plan = take n ms" "plan_covered_message_id plan = sm_id (ms ! (n - 1))"
    using plan_summary_prefix [OF assms(1)] .
  have "take n ms \<noteq> []" using n by auto
  then have l: "last (take n ms) = ms ! (n - 1)" using n by (simp add: last_conv_nth min_absorb2)
  have i: "n - 1 < length ms" using n by simp
  have a: "anchor (Some (sm_id (ms ! (n - 1)))) = Some (sm_id (ms ! (n - 1)))"
    using assms(3) nth_mem [OF i] by (simp add: anchor_def)
  have "messages_after_covered_id ms (Some (sm_id (ms ! (n - 1)))) = drop n ms"
    using position_distinct [OF assms(2) i] n unfolding messages_after_covered_id_def a by simp
  then show ?thesis using n l by auto
qed

definition sample_messages :: "SummaryMessage list" where
  "sample_messages = map (\<lambda>i. \<lparr>sm_id = [97 + i], sm_role = [], sm_content = replicate 1000 33, sm_created_at = []\<rparr>) [0..<10]"

lemma sample_messages_ids:
  "distinct (map sm_id sample_messages)" "\<forall>m \<in> set sample_messages. trim (sm_id m) = sm_id m \<and> sm_id m \<noteq> []"
  by (auto simp: sample_messages_def distinct_map inj_on_def trim_def trim_start_def trim_end_def is_whitespace_def)

lemma token_loop_punctuation:
  "t + n \<le> usize_max \<Longrightarrow> token_loop t r (replicate n 33) = t + n"
  by (induction n arbitrary: t r) (auto simp: next_token_cost_def ascii_defs len_utf8_def sat_add_def)

lemma sample_message_tokens: "m \<in> set sample_messages \<Longrightarrow> message_tokens m = 1004"
  by (auto simp: sample_messages_def message_tokens_def estimate_tokens_def token_loop_punctuation usize_max_def)

lemma sample_messages_nth: "i < 10 \<Longrightarrow> message_tokens (sample_messages ! i) = 1004"
  by (rule sample_message_tokens) (simp add: sample_messages_def)

lemma sample_messages_total: "estimate_summary_tokens (take n sample_messages) = 1004 * min n 10"
proof -
  have "map message_tokens (take n sample_messages) = replicate (min n 10) 1004"
    by (rule nth_equalityI) (auto simp: sample_messages_def [THEN arg_cong [of _ _ length]] sample_messages_nth)
  then show ?thesis by (simp add: estimate_summary_tokens_def sum_list_replicate)
qed

theorem summary_split_roundtrip_witness:
  "\<exists>plan. plan_summary sample_messages (Some (str '' c '')) = Inr (Some plan) \<and>
     older_messages plan @ messages_after_covered_id sample_messages (Some (plan_covered_message_id plan)) = sample_messages"
proof -
  have "anchor (Some (str '' c '')) = Some [99]"
    by (simp add: anchor_def str_def trim_def trim_start_def trim_end_def is_whitespace_def)
  moreover have "position (\<lambda>m. sm_id m = [99]) sample_messages = Some 2"
    unfolding position_Some by (simp add: sample_messages_def)
  moreover have "sample_messages \<noteq> []" by (simp add: sample_messages_def)
  ultimately obtain plan where "plan_summary sample_messages (Some (str '' c '')) = Inr (Some plan)"
    by (simp add: plan_summary_def Let_def)
  then show ?thesis using summary_split_roundtrip [OF _ sample_messages_ids] by blast
qed

text \<open>A plan made without an anchor is made only for a conversation of at least 9000 estimated tokens, folds at least
  1200 of them and leaves an unfolded tail of at least 3200 tokens and at least seven messages.\<close>

theorem summary_plan_bounds:
  assumes "plan_summary ms None = Inr (Some plan)"
  shows "9000 \<le> estimate_summary_tokens ms \<and> total_tokens plan = estimate_summary_tokens ms
    \<and> (\<exists>tail. ms = older_messages plan @ tail \<and> 3200 \<le> estimate_summary_tokens tail \<and> 7 \<le> length tail)
    \<and> folded_tokens plan = estimate_summary_tokens (older_messages plan) \<and> 1200 \<le> folded_tokens plan"
proof -
  have p: "9000 \<le> estimate_summary_tokens ms" "total_tokens plan = estimate_summary_tokens ms"
    "older_messages plan = take (split_index ms) ms" "take (split_index ms) ms \<noteq> []"
    "folded_tokens plan = estimate_summary_tokens (older_messages plan)" "1200 \<le> folded_tokens plan"
    using assms by (auto simp: plan_summary_def anchor_def Let_def SUMMARY_TRIGGER_TOKENS_def SUMMARY_MIN_FOLD_TOKENS_def split: if_splits)
  have "split_index ms \<noteq> 0" using p(4) by auto
  then have "3200 \<le> estimate_summary_tokens (drop (split_index ms) ms)" "7 \<le> length (drop (split_index ms) ms)"
    using split_index_tail [of ms] by (auto simp: SUMMARY_KEEP_TAIL_TOKENS_def)
  then show ?thesis using p by (metis append_take_drop_id)
qed

lemma sample_split: "split_index sample_messages = 3"
proof -
  have "length sample_messages = 10" by (simp add: sample_messages_def)
  then show ?thesis
    by (simp add: split_index_def split_loop_pos SUMMARY_KEEP_TAIL_TOKENS_def sample_messages_nth sat_add_def usize_max_def
      cong: if_weak_cong)
qed

theorem summary_plan_bounds_witness:
  "\<exists>plan. plan_summary sample_messages None = Inr (Some plan) \<and> 1200 \<le> folded_tokens plan"
proof -
  have "sample_messages \<noteq> []" "take 10 sample_messages = sample_messages" by (simp_all add: sample_messages_def)
  then obtain plan where r: "plan_summary sample_messages None = Inr (Some plan)"
    using sample_messages_total [of 10] sample_messages_total [of 3]
    by (force simp: plan_summary_def anchor_def sample_split Let_def SUMMARY_TRIGGER_TOKENS_def SUMMARY_MIN_FOLD_TOKENS_def)
  then show ?thesis using summary_plan_bounds [OF r] by blast
qed

end
