(* ===== verification/Tool_Registry.thy ===== *)
theory Tool_Registry
  imports Json Agent_Protocol
begin

text \<open>
  Tool definitions and the tool registry (\<open>tools/definition.rs\<close>, \<open>tools/registry.rs\<close>): identifiers, versions, the
  validation of JSON schemas, and the registry with its atomic batch operations and domain snapshots.
\<close>

section \<open>Identifiers and versions\<close>

datatype ToolIdError = ToolId_InvalidFormat

definition ToolId_new :: "rstr \<Rightarrow> (ToolIdError, rstr) result" where
  "ToolId_new value =
     (if value = [] \<or> 128 < str_len value then Inl ToolId_InvalidFormat
      else if starts_with (str ''.'') value \<or> ends_with (str ''.'') value \<or> contains_str (str ''..'') value
      then Inl ToolId_InvalidFormat
      else if \<not> bytes_all (\<lambda>b. is_ascii_lowercase b \<or> is_ascii_digit b \<or> b \<in> set (str ''._-'')) value
      then Inl ToolId_InvalidFormat
      else Inr value)"

record ToolVersion =
  tv_major :: nat
  tv_minor :: nat
  tv_patch :: nat

datatype ToolVersionError = ToolVersion_InvalidFormat

definition parse_part :: "rstr \<Rightarrow> (ToolVersionError, nat) result" where
  "parse_part s = ok_or ToolVersion_InvalidFormat (parse_uint u64_max s)"

definition ToolVersion_parse :: "rstr \<Rightarrow> (ToolVersionError, ToolVersion) result" where
  "ToolVersion_parse value =
     (let parts = split_on 46 value in
      if length parts \<noteq> 3 \<or> list_ex (\<lambda>p. p = []) parts then Inl ToolVersion_InvalidFormat
      else if list_ex (\<lambda>p. 1 < str_len p \<and> starts_with (str ''0'') p) parts then Inl ToolVersion_InvalidFormat
      else (case parts of
              [a, b, c] \<Rightarrow> rbind (parse_part a) (\<lambda>x. rbind (parse_part b) (\<lambda>y. rbind (parse_part c) (\<lambda>z.
                Inr \<lparr>tv_major = x, tv_minor = y, tv_patch = z\<rparr>)))
            | _ \<Rightarrow> Inl ToolVersion_InvalidFormat))"

definition ToolVersion_display :: "ToolVersion \<Rightarrow> rstr" where
  "ToolVersion_display v = show_nat (tv_major v) @ [46] @ show_nat (tv_minor v) @ [46] @ show_nat (tv_patch v)"

section \<open>Definitions\<close>

datatype ConcurrencyPolicy = ParallelRead | SerialWrite | Exclusive

datatype ToolSource = Builtin | Mcp rstr ToolVersion | DomainPackage rstr ToolVersion

text \<open>A \<open>Duration\<close> is its number of nanoseconds; \<open>domains\<close> lists a \<open>BTreeSet\<close>.\<close>

record ToolDefinition =
  td_id :: rstr
  td_version :: ToolVersion
  td_name :: rstr
  td_description :: rstr
  td_input_schema :: json
  td_output_schema :: json
  td_risk :: PermissionRisk
  td_read_only :: bool
  td_concurrency :: ConcurrencyPolicy
  td_timeout :: nat
  td_source :: ToolSource
  td_domains :: "rstr list"

text \<open>\<open>PartialEq\<close> of definitions: field by field, the schemas by \<open>Value::eq\<close>.\<close>

definition definition_eq :: "ToolDefinition \<Rightarrow> ToolDefinition \<Rightarrow> bool" where
  "definition_eq d e \<longleftrightarrow> json_eq (td_input_schema d) (td_input_schema e) \<and> json_eq (td_output_schema d) (td_output_schema e)
     \<and> d\<lparr>td_input_schema := JNull, td_output_schema := JNull\<rparr> = e\<lparr>td_input_schema := JNull, td_output_schema := JNull\<rparr>"

section \<open>Schemas\<close>

definition TYPES :: "rstr list" where
  "TYPES = map str [''null'', ''boolean'', ''object'', ''array'', ''number'', ''integer'', ''string'']"

definition check_types :: "rstr list \<Rightarrow> (rstr, unit) result" where
  "check_types types = (if list_ex (\<lambda>v. v \<notin> set TYPES) types then Inl (str ''type contains an unsupported JSON type'') else Inr ())"

fun validate_type :: "json \<Rightarrow> (rstr, unit) result" where
  "validate_type (JString value) = check_types [value]"
| "validate_type (JArray values) =
     (if values \<noteq> []
      then rbind (try_map (\<lambda>v. ok_or (str ''type array entries must be strings'') (json_as_str v)) values) check_types
      else Inl (str ''type array must not be empty''))"
| "validate_type _ = Inl (str ''type must be a string or array of strings'')"

fun check_required :: "rstr set \<Rightarrow> json list \<Rightarrow> (rstr, unit) result" where
  "check_required seen [] = Inr ()"
| "check_required seen (v # vs) =
     (case json_as_str v of
        None \<Rightarrow> Inl (str ''required entries must be strings'')
      | Some field \<Rightarrow>
          if field \<in> seen then Inl (str ''required contains duplicate field '' @ field)
          else check_required (insert field seen) vs)"

definition alternative_keywords :: "rstr list" where
  "alternative_keywords = map str [''anyOf'', ''oneOf'', ''allOf'']"

function validate_schema :: "json \<Rightarrow> (rstr, unit) result" where
  "validate_schema schema =
     (case as_object schema of
        None \<Rightarrow> Inl (str ''schema must be a JSON object'')
      | Some object \<Rightarrow>
          rbind (if_some validate_type (obj_get (str ''type'') object)) (\<lambda>_.
          rbind (if_some (\<lambda>properties. case as_object properties of
                   None \<Rightarrow> Inl (str ''properties must be an object'')
                 | Some props \<Rightarrow> for_each validate_schema (map snd props)) (obj_get (str ''properties'') object)) (\<lambda>_.
          rbind (if_some (\<lambda>required. case as_array required of
                   None \<Rightarrow> Inl (str ''required must be an array'')
                 | Some vs \<Rightarrow> check_required {} vs) (obj_get (str ''required'') object)) (\<lambda>_.
          rbind (if_some (\<lambda>v. if is_boolean v then Inr () else validate_schema v)
                   (obj_get (str ''additionalProperties'') object)) (\<lambda>_.
          rbind (if_some (\<lambda>v. if is_boolean v then Inr () else validate_schema v) (obj_get (str ''items'') object)) (\<lambda>_.
          rbind (for_each (\<lambda>keyword. if_some (\<lambda>alternatives. case as_array alternatives of
                   None \<Rightarrow> Inl (keyword @ str '' must be an array'')
                 | Some vs \<Rightarrow> if vs = [] then Inl (keyword @ str '' must not be empty'') else for_each validate_schema vs)
                   (obj_get keyword object)) alternative_keywords) (\<lambda>_.
          if_some (\<lambda>v. if is_array v then Inr () else Inl (str ''enum must be an array'')) (obj_get (str ''enum'') object))))))))"
  by pat_completeness auto

lemma nested_field_size: "obj_get k object = Some (JObject fs) \<Longrightarrow> (l, v) \<in> set fs \<Longrightarrow> size v < size (JObject object)"
  using size_snd_field [of l v fs] obj_get_size [of k object "JObject fs"] by simp

lemma nested_array_size: "obj_get k object = Some (JArray vs) \<Longrightarrow> v \<in> set vs \<Longrightarrow> size v < size (JObject object)"
  using array_elem_size [of v vs] obj_get_size [of k object "JArray vs"] by simp

termination validate_schema
  by (relation "measure size") (auto dest: obj_get_size nested_field_size nested_array_size)

declare validate_schema.simps [simp del]

section \<open>The registry\<close>

datatype RegistryError =
    DuplicateId rstr
  | UnknownId rstr
  | InvalidDefinition rstr rstr
  | InvalidSchema rstr rstr

definition validate_definition :: "ToolDefinition \<Rightarrow> (RegistryError, unit) result" where
  "validate_definition d =
     rbind (ensure (trim (td_name d) \<noteq> []) (InvalidDefinition (str ''name'') (str ''must not be empty''))) (\<lambda>_.
     rbind (ensure (trim (td_description d) \<noteq> []) (InvalidDefinition (str ''description'') (str ''must not be empty''))) (\<lambda>_.
     rbind (ensure (td_timeout d \<noteq> 0) (InvalidDefinition (str ''timeout'') (str ''must be greater than zero''))) (\<lambda>_.
     rbind (map_err (InvalidSchema (str ''input_schema'')) (validate_schema (td_input_schema d))) (\<lambda>_.
     rbind (map_err (InvalidSchema (str ''output_schema'')) (validate_schema (td_output_schema d))) (\<lambda>_.
     rbind (for_each (\<lambda>x. ensure (trim x \<noteq> []) (InvalidDefinition (str ''domains'') (str ''domain identifiers must not be empty'')))
             (td_domains d)) (\<lambda>_.
     (case td_source d of
        DomainPackage package_id _ \<Rightarrow>
          ensure (trim package_id \<noteq> []) (InvalidDefinition (str ''source'') (str ''domain package id must not be empty''))
      | _ \<Rightarrow> Inr ())))))))"

record ToolRegistry =
  reg_definitions :: "(rstr, ToolDefinition) btree"
  reg_enabled :: "rstr set"
  reg_version :: "64 word"

definition ToolRegistry_new :: ToolRegistry where
  "ToolRegistry_new = \<lparr>reg_definitions = [], reg_enabled = {}, reg_version = 0\<rparr>"

type_synonym 'a registry_io = "ToolRegistry \<Rightarrow> (RegistryError, 'a) result \<times> ToolRegistry"

definition register :: "ToolDefinition \<Rightarrow> unit registry_io" where
  "register d r =
     (case validate_definition d of
        Inl e \<Rightarrow> (Inl e, r)
      | Inr _ \<Rightarrow>
          if map_of (reg_definitions r) (td_id d) \<noteq> None then (Inl (DuplicateId (td_id d)), r)
          else (Inr (), r\<lparr>reg_definitions := btree_insert (td_id d) d (reg_definitions r),
                         reg_enabled := insert (td_id d) (reg_enabled r), reg_version := reg_version r + 1\<rparr>))"

text \<open>The loop of \<open>register_many\<close> on the candidate copy, with early return.\<close>

fun register_loop :: "ToolDefinition list \<Rightarrow> ToolRegistry \<Rightarrow> (RegistryError, ToolRegistry) result" where
  "register_loop [] candidate = Inr candidate"
| "register_loop (d # ds) candidate =
     (case register d candidate of (Inl e, _) \<Rightarrow> Inl e | (Inr _, candidate') \<Rightarrow> register_loop ds candidate')"

definition register_many :: "ToolDefinition list \<Rightarrow> unit registry_io" where
  "register_many ds r =
     (if ds = [] then (Inr (), r)
      else (case register_loop ds r of
              Inl e \<Rightarrow> (Inl e, r)
            | Inr candidate \<Rightarrow> (Inr (), candidate\<lparr>reg_version := reg_version r + 1\<rparr>)))"

definition check_current :: "ToolRegistry \<Rightarrow> ToolDefinition \<Rightarrow> (RegistryError, unit) result" where
  "check_current r d =
     (case map_of (reg_definitions r) (td_id d) of
        Some cur \<Rightarrow>
          if definition_eq cur d then Inr ()
          else Inl (InvalidDefinition (str ''id'') (str ''tool definition changed: '' @ td_id d))
      | None \<Rightarrow> Inl (UnknownId (td_id d)))"

definition remove_definition :: "ToolRegistry \<Rightarrow> ToolDefinition \<Rightarrow> ToolRegistry" where
  "remove_definition r d = r\<lparr>reg_definitions := btree_remove (td_id d) (reg_definitions r), reg_enabled := reg_enabled r - {td_id d}\<rparr>"

definition unregister_many :: "ToolDefinition list \<Rightarrow> unit registry_io" where
  "unregister_many ds r =
     (case for_each (check_current r) ds of
        Inl e \<Rightarrow> (Inl e, r)
      | Inr _ \<Rightarrow>
          if ds \<noteq> [] then (Inr (), (foldl remove_definition r ds)\<lparr>reg_version := reg_version r + 1\<rparr>) else (Inr (), r))"

definition set_enabled :: "rstr \<Rightarrow> bool \<Rightarrow> unit registry_io" where
  "set_enabled i on r =
     (if map_of (reg_definitions r) i = None then (Inl (UnknownId i), r)
      else if on then (Inr (), r\<lparr>reg_enabled := insert i (reg_enabled r)\<rparr>)
      else (Inr (), r\<lparr>reg_enabled := reg_enabled r - {i}\<rparr>))"

definition is_enabled :: "ToolRegistry \<Rightarrow> rstr \<Rightarrow> bool" where
  "is_enabled r i \<longleftrightarrow> i \<in> reg_enabled r"

definition applies_to_domain :: "ToolDefinition \<Rightarrow> rstr option \<Rightarrow> bool" where
  "applies_to_domain d dm =
     (case dm of Some x \<Rightarrow> td_domains d = [] \<or> x \<in> set (td_domains d) | None \<Rightarrow> td_domains d = [])"

definition snapshot_for_domain :: "rstr option \<Rightarrow> ToolRegistry \<Rightarrow> ToolDefinition list" where
  "snapshot_for_domain dm r =
     map snd (filter (\<lambda>(i, d). i \<in> reg_enabled r \<and> applies_to_domain d dm) (reg_definitions r))"

section \<open>Lemmas on versions\<close>

lemma show_nat_no_dot: "46 \<notin> set (show_nat n)" "43 \<notin> set (show_nat n)"
  using show_nat_digits [of 46 n] show_nat_digits [of 43 n] by (auto simp: is_ascii_digit_def)

lemma show_nat_part: "show_nat n \<noteq> []" "\<not> (1 < str_len (show_nat n) \<and> starts_with (str ''0'') (show_nat n))"
proof -
  show "show_nat n \<noteq> []" using show_nat_props by blast
  have "str_len (show_nat n) = length (show_nat n)"
    using show_nat_props [of n] by (intro str_len_ascii) (auto simp: list_all_iff is_ascii_digit_def)
  then show "\<not> (1 < str_len (show_nat n) \<and> starts_with (str ''0'') (show_nat n))"
    using show_nat_no_leading_zero [of n] by (cases "show_nat n") (auto simp: str_def)
qed

lemma display_parts: "split_on 46 (ToolVersion_display v) = [show_nat (tv_major v), show_nat (tv_minor v), show_nat (tv_patch v)]"
  using split_on_join [of "[show_nat (tv_major v), show_nat (tv_minor v), show_nat (tv_patch v)]" 46] show_nat_no_dot
  by (simp add: ToolVersion_display_def) blast

lemma parse_display:
  assumes "tv_major v \<le> u64_max" "tv_minor v \<le> u64_max" "tv_patch v \<le> u64_max"
  shows "ToolVersion_parse (ToolVersion_display v) = Inr v"
  using assms show_nat_part by (simp add: ToolVersion_parse_def display_parts parse_part_def parse_show_nat Let_def)

lemma parse_part_show:
  assumes "parse_part s = Inr n" "43 \<notin> set s" "\<not> (1 < str_len s \<and> starts_with (str ''0'') s)"
  shows "show_nat n = s"
proof -
  obtain c cs where s: "s = c # cs" using assms(1) by (cases s) (auto simp: parse_part_def ok_or_Inr parse_uint_def)
  then have d: "list_all is_ascii_digit s" "n = digits_value s"
    using assms(1,2) by (auto simp: parse_part_def ok_or_Inr parse_uint_def Let_def split: if_splits)
  have "length s = 1 \<or> hd s \<noteq> 48"
  proof (cases "cs = []")
    case False
    then have "1 < length s" using s by (cases cs) auto
    then have "1 < str_len s" using length_le_str_len [of s] by simp
    then show ?thesis using assms(3) s by (simp add: str_def)
  qed (simp add: s)
  then show ?thesis using show_digits [OF d(1)] s d(2) by simp
qed

lemma parse_Inr:
  assumes "ToolVersion_parse s = Inr v" "43 \<notin> set s"
  shows "ToolVersion_display v = s"
proof -
  obtain a b c where p: "split_on 46 s = [a, b, c]" and n: "parse_part a = Inr (tv_major v)" "parse_part b = Inr (tv_minor v)" "parse_part c = Inr (tv_patch v)"
    and z: "\<forall>p \<in> {a, b, c}. \<not> (1 < str_len p \<and> starts_with (str ''0'') p)"
    using assms(1) by (auto simp: ToolVersion_parse_def Let_def rbind_Inr split: if_splits list.splits)
  have s: "s = a @ [46] @ b @ [46] @ c" using join_split_on [of 46 s] by (simp add: p)
  then have "43 \<notin> set a" "43 \<notin> set b" "43 \<notin> set c" using assms(2) by auto
  then show ?thesis using parse_part_show n z by (simp add: ToolVersion_display_def s)
qed

section \<open>Lemmas on schemas\<close>

text \<open>What one schema object asks of itself, and the schemas directly inside it.\<close>

definition field_ok :: "rstr \<Rightarrow> (json \<Rightarrow> bool) \<Rightarrow> (rstr, json) btree \<Rightarrow> bool" where
  "field_ok k P object \<longleftrightarrow> (\<forall>v. obj_get k object = Some v \<longrightarrow> P v)"

definition required_ok :: "json \<Rightarrow> bool" where
  "required_ok v \<longleftrightarrow> (\<exists>names. v = JArray (map JString names) \<and> distinct names)"

definition local_ok :: "json \<Rightarrow> bool" where
  "local_ok s \<longleftrightarrow> (\<exists>object. s = JObject object
     \<and> field_ok (str ''type'') (\<lambda>v. validate_type v = Inr ()) object
     \<and> field_ok (str ''properties'') (\<lambda>v. \<exists>fs. v = JObject fs) object
     \<and> field_ok (str ''required'') required_ok object
     \<and> (\<forall>k \<in> set alternative_keywords. field_ok k (\<lambda>v. \<exists>w ws. v = JArray (w # ws)) object)
     \<and> field_ok (str ''enum'') is_array object)"

inductive child_schema :: "json \<Rightarrow> json \<Rightarrow> bool" where
  properties: "obj_get (str ''properties'') object = Some (JObject fs) \<Longrightarrow> (k, t) \<in> set fs \<Longrightarrow> child_schema (JObject object) t"
| single: "k \<in> {str ''additionalProperties'', str ''items''} \<Longrightarrow> obj_get k object = Some t \<Longrightarrow> \<not> is_boolean t \<Longrightarrow>
    child_schema (JObject object) t"
| alternative: "k \<in> set alternative_keywords \<Longrightarrow> obj_get k object = Some (JArray vs) \<Longrightarrow> t \<in> set vs \<Longrightarrow>
    child_schema (JObject object) t"

inductive_cases child_schemaE: "child_schema (JObject object) t"

inductive subschema :: "json \<Rightarrow> json \<Rightarrow> bool" where
  self: "subschema s s"
| inner: "child_schema s t \<Longrightarrow> subschema t u \<Longrightarrow> subschema s u"

lemma check_required_iff:
  "check_required seen vs = Inr () \<longleftrightarrow> (\<exists>names. vs = map JString names \<and> distinct names \<and> set names \<inter> seen = {})"
proof (induction seen vs rule: check_required.induct)
  case (2 seen v vs)
  show ?case
  proof (cases "json_as_str v")
    case (Some f)
    then have v: "v = JString f" by simp
    have "(\<exists>names. v # vs = map JString names \<and> distinct names \<and> set names \<inter> seen = {})
      \<longleftrightarrow> f \<notin> seen \<and> (\<exists>names. vs = map JString names \<and> distinct names \<and> set names \<inter> insert f seen = {})"
      unfolding v Cons_eq_map_conv by fastforce
    then show ?thesis using 2 Some by simp
  next
    case None
    then have "v # vs \<noteq> map JString names" for names by (cases names) auto
    then show ?thesis using None by simp
  qed
qed auto

lemma properties_iff:
  "(case as_object p of None \<Rightarrow> Inl e | Some fs \<Rightarrow> for_each f (map snd fs)) = Inr () \<longleftrightarrow>
     (\<exists>fs. p = JObject fs \<and> (\<forall>t \<in> set (map snd fs). f t = Inr ()))"
  by (cases p) (auto simp: for_each_Inr)

lemma required_iff:
  "(case as_array v of None \<Rightarrow> Inl e | Some vs \<Rightarrow> check_required {} vs) = Inr () \<longleftrightarrow> required_ok v"
  by (cases v) (auto simp: check_required_iff required_ok_def)

lemma alternatives_iff:
  "(case as_array v of None \<Rightarrow> Inl e | Some vs \<Rightarrow> if vs = [] then Inl e' else for_each f vs) = Inr () \<longleftrightarrow>
     (\<exists>w ws. v = JArray (w # ws) \<and> (\<forall>t \<in> set (w # ws). f t = Inr ()))"
  by (cases v) (auto simp: for_each_Inr neq_Nil_conv)

lemma unless_boolean_iff: "(if is_boolean v then Inr () else f v) = Inr () \<longleftrightarrow> is_boolean v \<or> f v = Inr ()"
  by simp

lemma enum_iff: "(if is_array v then Inr () else Inl e) = Inr () \<longleftrightarrow> is_array v"
  by simp

lemmas schema_iffs = properties_iff required_iff alternatives_iff unless_boolean_iff enum_iff

lemma validate_schema_fields:
  "validate_schema (JObject object) = Inr () \<longleftrightarrow> field_ok (str ''type'') (\<lambda>v. validate_type v = Inr ()) object
     \<and> field_ok (str ''properties'') (\<lambda>v. \<exists>fs. v = JObject fs \<and> (\<forall>t \<in> set (map snd fs). validate_schema t = Inr ())) object
     \<and> field_ok (str ''required'') required_ok object
     \<and> field_ok (str ''additionalProperties'') (\<lambda>v. is_boolean v \<or> validate_schema v = Inr ()) object
     \<and> field_ok (str ''items'') (\<lambda>v. is_boolean v \<or> validate_schema v = Inr ()) object
     \<and> (\<forall>k \<in> set alternative_keywords.
          field_ok k (\<lambda>v. \<exists>w ws. v = JArray (w # ws) \<and> (\<forall>t \<in> set (w # ws). validate_schema t = Inr ())) object)
     \<and> field_ok (str ''enum'') is_array object"
  unfolding validate_schema.simps [of "JObject object"] as_object.simps option.case rbind_unit_Inr if_some_Inr for_each_Inr
    schema_iffs field_ok_def by blast

lemma validate_schema_object: "validate_schema s = Inr () \<Longrightarrow> \<exists>object. s = JObject object"
  using validate_schema.simps [of s] by (cases s) auto

lemma field_ok_mono: "field_ok k P object \<Longrightarrow> (\<And>v. P v \<Longrightarrow> Q v) \<Longrightarrow> field_ok k Q object"
  by (auto simp: field_ok_def)

lemma validate_schema_local: "validate_schema s = Inr () \<Longrightarrow> local_ok s"
proof -
  assume v: "validate_schema s = Inr ()"
  then obtain object where s: "s = JObject object" using validate_schema_object by blast
  note f = v [unfolded s validate_schema_fields]
  have "field_ok (str ''properties'') (\<lambda>v. \<exists>fs. v = JObject fs) object" using f by (auto elim: field_ok_mono)
  moreover have "\<forall>k \<in> set alternative_keywords. field_ok k (\<lambda>v. \<exists>w ws. v = JArray (w # ws)) object"
  proof
    fix k assume "k \<in> set alternative_keywords"
    then have "field_ok k (\<lambda>v. \<exists>w ws. v = JArray (w # ws) \<and> (\<forall>t \<in> set (w # ws). validate_schema t = Inr ())) object"
      using f by blast
    then show "field_ok k (\<lambda>v. \<exists>w ws. v = JArray (w # ws)) object" by (rule field_ok_mono) blast
  qed
  ultimately show "local_ok s" unfolding local_ok_def s using f by simp
qed

lemma validate_schema_child: "child_schema s t \<Longrightarrow> validate_schema s = Inr () \<Longrightarrow> validate_schema t = Inr ()"
proof (induction rule: child_schema.induct)
  case (properties object fs k t)
  then have "\<exists>gs. JObject fs = JObject gs \<and> (\<forall>t \<in> set (map snd gs). validate_schema t = Inr ())"
    unfolding validate_schema_fields field_ok_def by blast
  then show ?case using properties(2) by auto
next
  case (single k object t)
  then show ?case unfolding validate_schema_fields field_ok_def by blast
next
  case (alternative k object vs t)
  then have "\<exists>w ws. JArray vs = JArray (w # ws) \<and> (\<forall>t \<in> set (w # ws). validate_schema t = Inr ())"
    unfolding validate_schema_fields field_ok_def by blast
  then show ?case using alternative(3) by auto
qed

lemma local_children_validate:
  assumes "local_ok s" "\<And>t. child_schema s t \<Longrightarrow> validate_schema t = Inr ()"
  shows "validate_schema s = Inr ()"
proof -
  obtain object where s: "s = JObject object"
    and l: "field_ok (str ''type'') (\<lambda>v. validate_type v = Inr ()) object"
      "field_ok (str ''properties'') (\<lambda>v. \<exists>fs. v = JObject fs) object" "field_ok (str ''required'') required_ok object"
      "\<forall>k \<in> set alternative_keywords. field_ok k (\<lambda>v. \<exists>w ws. v = JArray (w # ws)) object" "field_ok (str ''enum'') is_array object"
    using assms(1) unfolding local_ok_def by blast
  have v: "child_schema (JObject object) t \<Longrightarrow> validate_schema t = Inr ()" for t using assms(2) s by blast
  have "field_ok (str ''properties'') (\<lambda>v. \<exists>fs. v = JObject fs \<and> (\<forall>t \<in> set (map snd fs). validate_schema t = Inr ())) object"
    using l(2) v [OF child_schema.properties] unfolding field_ok_def by fastforce
  moreover have "field_ok (str ''additionalProperties'') (\<lambda>v. is_boolean v \<or> validate_schema v = Inr ()) object"
    "field_ok (str ''items'') (\<lambda>v. is_boolean v \<or> validate_schema v = Inr ()) object"
    using v [OF child_schema.single] unfolding field_ok_def by blast+
  moreover have "\<forall>k \<in> set alternative_keywords.
      field_ok k (\<lambda>v. \<exists>w ws. v = JArray (w # ws) \<and> (\<forall>t \<in> set (w # ws). validate_schema t = Inr ())) object"
    using l(4) v [OF child_schema.alternative] unfolding field_ok_def by metis
  ultimately show ?thesis unfolding s validate_schema_fields using l by blast
qed

lemma validate_schema_subschemas: "validate_schema s = Inr () \<Longrightarrow> subschema s t \<Longrightarrow> local_ok t"
proof (rotate_tac 1, induction s t rule: subschema.induct)
  case (self s)
  then show ?case using validate_schema_local by blast
next
  case (inner s t u)
  then show ?case using validate_schema_child by blast
qed

lemma child_schema_size: "child_schema s t \<Longrightarrow> size t < size s"
  by (induction rule: child_schema.induct) (auto dest: obj_get_size nested_field_size nested_array_size)

lemma subschemas_validate: "(\<And>t. subschema s t \<Longrightarrow> local_ok t) \<Longrightarrow> validate_schema s = Inr ()"
proof (induction s rule: measure_induct_rule [of size])
  case (less s)
  have "validate_schema t = Inr ()" if "child_schema s t" for t
    using less.IH [OF child_schema_size [OF that]] less.prems subschema.inner [OF that] by blast
  then show ?case using local_children_validate less.prems [OF subschema.self] by blast
qed

section \<open>The registry invariant\<close>

definition registry_ok :: "ToolRegistry \<Rightarrow> bool" where
  "registry_ok r \<longleftrightarrow> btree_ok (reg_definitions r)
     \<and> (\<forall>(i, d) \<in> set (reg_definitions r). td_id d = i \<and> validate_definition d = Inr ())
     \<and> reg_enabled r \<subseteq> dom (map_of (reg_definitions r))"

lemma registry_ok_version [simp]: "registry_ok (r\<lparr>reg_version := v\<rparr>) = registry_ok r"
  by (simp add: registry_ok_def)

lemma registry_ok_get: "registry_ok r \<Longrightarrow> map_of (reg_definitions r) i = Some d \<Longrightarrow> td_id d = i \<and> validate_definition d = Inr ()"
  by (auto simp: registry_ok_def dest: map_of_SomeD)

lemma registry_okI:
  assumes "btree_ok (reg_definitions r)" "reg_enabled r \<subseteq> dom (map_of (reg_definitions r))"
    "\<And>i d. map_of (reg_definitions r) i = Some d \<Longrightarrow> td_id d = i \<and> validate_definition d = Inr ()"
  shows "registry_ok r"
  using assms btree_get_iff [OF assms(1)] by (auto simp: registry_ok_def)

datatype registry_op =
    OpRegister ToolDefinition
  | OpRegisterMany "ToolDefinition list"
  | OpUnregisterMany "ToolDefinition list"
  | OpSetEnabled rstr bool

fun registry_step :: "ToolRegistry \<Rightarrow> registry_op \<Rightarrow> ToolRegistry" where
  "registry_step r (OpRegister d) = snd (register d r)"
| "registry_step r (OpRegisterMany ds) = snd (register_many ds r)"
| "registry_step r (OpUnregisterMany ds) = snd (unregister_many ds r)"
| "registry_step r (OpSetEnabled i on) = snd (set_enabled i on r)"

text \<open>The loop of \<open>register_many\<close> succeeds exactly on valid definitions with new, distinct ids.\<close>

abbreviation keyed :: "ToolDefinition list \<Rightarrow> (rstr \<times> ToolDefinition) list" where
  "keyed ds \<equiv> map (\<lambda>d. (td_id d, d)) ds"

definition registrable :: "ToolDefinition list \<Rightarrow> ToolRegistry \<Rightarrow> bool" where
  "registrable ds r \<longleftrightarrow> (\<forall>d \<in> set ds. validate_definition d = Inr ()) \<and> distinct (map td_id ds)
     \<and> td_id ` set ds \<inter> dom (map_of (reg_definitions r)) = {}"

lemma register_cases:
  "register d r = (if registrable [d] r then
     (Inr (), r\<lparr>reg_definitions := btree_insert (td_id d) d (reg_definitions r), reg_enabled := insert (td_id d) (reg_enabled r),
                reg_version := reg_version r + 1\<rparr>)
     else (Inl (case validate_definition d of Inl e \<Rightarrow> e | Inr _ \<Rightarrow> DuplicateId (td_id d)), r))"
  by (auto simp: register_def registrable_def split: sum.split)

lemma register_ok: "registry_ok r \<Longrightarrow> registry_ok (snd (register d r))"
proof (cases "registrable [d] r")
  case True
  assume ok: "registry_ok r"
  show ?thesis
    by (rule registry_okI) (use True ok registry_ok_get [OF ok] in \<open>auto simp: register_cases registrable_def registry_ok_def split: if_splits\<close>)
qed (simp add: register_cases)

lemma registrable_Cons:
  "registrable (d # ds) r \<longleftrightarrow> registrable [d] r \<and> registrable ds (snd (register d r))"
  by (auto simp: register_cases registrable_def image_iff)

lemma register_loop_spec:
  "(\<exists>c. register_loop ds r = Inr c) \<longleftrightarrow> registrable ds r"
proof (induction ds r rule: register_loop.induct)
  case (2 d ds r)
  then show ?case unfolding registrable_Cons [of d ds] by (auto simp: register_cases)
qed (simp add: registrable_def)

lemma register_loop_result:
  "register_loop ds r = Inr c \<Longrightarrow> map_of (reg_definitions c) = map_of (reg_definitions r) ++ map_of (keyed ds)
     \<and> reg_enabled c = reg_enabled r \<union> td_id ` set ds \<and> (registry_ok r \<longrightarrow> registry_ok c)"
proof (induction ds r rule: register_loop.induct)
  case (2 d ds r)
  have reg: "registrable [d] r" using "2.prems" by (auto simp: register_cases split: if_splits)
  obtain r1 where e: "register d r = (Inr (), r1)" using reg by (simp add: register_cases)
  have IH: "map_of (reg_definitions c) = map_of (reg_definitions r1) ++ map_of (keyed ds)
     \<and> reg_enabled c = reg_enabled r1 \<union> td_id ` set ds \<and> (registry_ok r1 \<longrightarrow> registry_ok c)"
    using "2.IH" "2.prems" e by auto
  have new: "td_id d \<notin> td_id ` set ds"
    using register_loop_spec [of "d # ds" r] "2.prems" by (auto simp: registrable_def)
  have "map_of (keyed ds) (td_id d) = None" using new by (force simp: map_of_eq_None_iff)
  then have "(map_of (reg_definitions r))(td_id d \<mapsto> d) ++ map_of (keyed ds) = map_of (reg_definitions r) ++ map_of (keyed (d # ds))"
    by (simp add: map_add_upd_left domIff)
  moreover have "map_of (reg_definitions r1) = (map_of (reg_definitions r))(td_id d \<mapsto> d)" "reg_enabled r1 = insert (td_id d) (reg_enabled r)"
    using reg e by (auto simp: register_cases)
  ultimately have "map_of (reg_definitions c) = map_of (reg_definitions r) ++ map_of (keyed (d # ds))"
    "reg_enabled c = reg_enabled r \<union> td_id ` set (d # ds)" using IH by (metis, simp)
  then show ?case using IH register_ok [of r d] e by (metis snd_conv)
qed simp

lemma register_many_success: "fst (register_many ds r) = Inr () \<longleftrightarrow> registrable ds r"
  using register_loop_spec [of ds r] by (auto simp: register_many_def registrable_def split: sum.split)

lemma register_many_failure: "fst (register_many ds r) = Inl e \<Longrightarrow> snd (register_many ds r) = r"
  by (auto simp: register_many_def split: if_splits sum.splits)

lemma register_many_result:
  assumes "registrable ds r" "r' = snd (register_many ds r)"
  shows "map_of (reg_definitions r') = map_of (reg_definitions r) ++ map_of (keyed ds)"
    "reg_enabled r' = reg_enabled r \<union> td_id ` set ds"
    "reg_version r' = (if ds = [] then reg_version r else reg_version r + 1)"
    "registry_ok r \<Longrightarrow> registry_ok r'"
proof -
  obtain c where c: "register_loop ds r = Inr c" using register_loop_spec assms(1) by blast
  have r': "r' = (if ds = [] then r else c\<lparr>reg_version := reg_version r + 1\<rparr>)" using assms(2) c by (simp add: register_many_def)
  note res = register_loop_result [OF c]
  show "map_of (reg_definitions r') = map_of (reg_definitions r) ++ map_of (keyed ds)"
    "reg_enabled r' = reg_enabled r \<union> td_id ` set ds"
    "reg_version r' = (if ds = [] then reg_version r else reg_version r + 1)" using res r' by auto
  show "registry_ok r \<Longrightarrow> registry_ok r'" using res r' by simp
qed

lemma remove_loop:
  "map_of (reg_definitions (foldl remove_definition r ds)) = (\<lambda>i. if i \<in> td_id ` set ds then None else map_of (reg_definitions r) i)"
  "reg_enabled (foldl remove_definition r ds) = reg_enabled r - td_id ` set ds"
  "btree_ok (reg_definitions r) \<Longrightarrow> btree_ok (reg_definitions (foldl remove_definition r ds))"
  "reg_version (foldl remove_definition r ds) = reg_version r"
  by (induction ds arbitrary: r) (auto simp: remove_definition_def fun_eq_iff)

lemma unregister_many_ok: "registry_ok r \<Longrightarrow> registry_ok (snd (unregister_many ds r))"
proof (cases "for_each (check_current r) ds")
  case (Inr u)
  assume ok: "registry_ok r"
  have "registry_ok (foldl remove_definition r ds)"
    by (rule registry_okI) (use ok registry_ok_get [OF ok] in \<open>auto simp: remove_loop registry_ok_def split: if_splits\<close>)
  then show ?thesis using ok Inr by (simp add: unregister_many_def registry_ok_def)
qed (simp add: unregister_many_def)

lemma set_enabled_ok: "registry_ok r \<Longrightarrow> registry_ok (snd (set_enabled i on r))"
  by (auto simp: set_enabled_def registry_ok_def)

lemma registry_step_ok: "registry_ok r \<Longrightarrow> registry_ok (registry_step r a)"
proof (cases a)
  case (OpRegisterMany ds)
  assume "registry_ok r"
  then show ?thesis using OpRegisterMany register_many_result(4) [OF _ refl, of ds r] register_many_success [of ds r]
      register_many_failure [of ds r] by (cases "fst (register_many ds r)") auto
qed (auto intro: register_ok unregister_many_ok set_enabled_ok)

interpretation registry: invariant_system registry_step registry_ok "\<lambda>_. True"
  by unfold_locales (rule registry_step_ok)

lemma registry_new_ok: "registry_ok ToolRegistry_new"
  by (simp add: ToolRegistry_new_def registry_ok_def btree_ok_def)

lemma definition_eq_refl [simp]: "definition_eq d d"
  by (simp add: definition_eq_def)

end
