(* ===== verification/Tool_Output.thy ===== *)
theory Tool_Output
  imports Json
begin

text \<open>
  The boundary between a tool and the model (\<open>tools/output.rs\<close>): redaction of credentials and the bound on inline
  output.  Serialisation (\<open>serde_json::to_vec\<close>) and the artifact store are parameters.
\<close>

definition MAX_INLINE_OUTPUT_BYTES :: nat where
  "MAX_INLINE_OUTPUT_BYTES = 32 * 1024"

record ArtifactRef =
  ar_id :: rstr
  ar_path :: rstr
  ar_size_bytes :: nat

record ToolOutput =
  model_output :: json
  artifact :: "ArtifactRef option"

record ToolError =
  te_code :: rstr
  te_message :: rstr
  te_details :: "json option"

definition ToolError_new :: "rstr \<Rightarrow> rstr \<Rightarrow> ToolError" where
  "ToolError_new code message = \<lparr>te_code = code, te_message = message, te_details = None\<rparr>"

definition ToolError_with_details :: "rstr \<Rightarrow> rstr \<Rightarrow> json \<Rightarrow> ToolError" where
  "ToolError_with_details code message details = \<lparr>te_code = code, te_message = message, te_details = Some details\<rparr>"

definition ToolError_cancelled :: ToolError where
  "ToolError_cancelled = ToolError_new (str ''cancelled'') (str ''tool execution was cancelled'')"

section \<open>Redaction\<close>

definition REDACTED :: rstr where
  "REDACTED = str ''[REDACTED]''"

definition sensitive_names :: "rstr list" where
  "sensitive_names = map str [''apikey'', ''authtoken'', ''accesstoken'', ''authorization'', ''credential'', ''clientsecret'',
     ''password'', ''privatekey'', ''refreshtoken'', ''secret'', ''token'']"

definition sensitive_suffixes :: "rstr list" where
  "sensitive_suffixes = map str [''apikey'', ''authtoken'', ''token'', ''clientsecret'', ''password'', ''privatekey'', ''refreshtoken'']"

definition is_sensitive_key :: "rstr \<Rightarrow> bool" where
  "is_sensitive_key key =
     (let normalized = to_ascii_lowercase (filter is_ascii_alphanumeric key) in
      normalized \<in> set sensitive_names \<or> list_ex (\<lambda>s. ends_with s normalized) sensitive_suffixes)"

definition sensitive_prefixes :: "rstr list" where
  "sensitive_prefixes = map str [''bearer '', ''sk-'', ''ghp_'', ''github_pat_'', ''xoxb-'', ''akia'']"

definition is_sensitive_string :: "rstr \<Rightarrow> bool" where
  "is_sensitive_string value =
     (let lower = to_ascii_lowercase (trim_start value) in
      list_ex (\<lambda>p. starts_with p lower) sensitive_prefixes \<or> contains_str (str ''begin private key'') lower)"

definition redact_sensitive_string :: "rstr \<Rightarrow> rstr" where
  "redact_sensitive_string value = (if is_sensitive_string value then REDACTED else value)"

fun redact_sensitive_value :: "json \<Rightarrow> json" where
  "redact_sensitive_value (JObject fs) =
     JObject (map (\<lambda>(key, value). (key, if is_sensitive_key key then JString REDACTED else redact_sensitive_value value)) fs)"
| "redact_sensitive_value (JArray values) = JArray (map redact_sensitive_value values)"
| "redact_sensitive_value (JString value) = JString (redact_sensitive_string value)"
| "redact_sensitive_value other = other"

section \<open>Bounded output\<close>

definition bound_output ::
  "(json \<Rightarrow> (rstr, nat list) result) \<Rightarrow> (nat list \<Rightarrow> (ToolError, ArtifactRef) result) \<Rightarrow> json \<Rightarrow> (ToolError, ToolOutput) result" where
  "bound_output to_vec store value =
     (let value = redact_sensitive_value value in
      rbind (map_err (\<lambda>e. ToolError_new (str ''tool_output_serialization_failed'') (str ''cannot serialize tool output: '' @ e)) (to_vec value)) (\<lambda>bytes.
      if length bytes \<le> MAX_INLINE_OUTPUT_BYTES then Inr \<lparr>model_output = value, artifact = None\<rparr>
      else rbind (store bytes) (\<lambda>a.
        Inr \<lparr>model_output = JObject [(str ''artifact_id'', JString (ar_id a)), (str ''size_bytes'', JNumber (PosInt (ar_size_bytes a))),
               (str ''truncated'', JBool True)], artifact = Some a\<rparr>)))"

section \<open>Lemmas\<close>

text \<open>A value that shows no credential: under a sensitive key stands only the mark, and no string looks like a credential.\<close>

fun clean_node :: "json \<Rightarrow> bool" where
  "clean_node (JObject fs) \<longleftrightarrow> (\<forall>(k, w) \<in> set fs. is_sensitive_key k \<longrightarrow> w = JString REDACTED)"
| "clean_node (JString s) \<longleftrightarrow> \<not> is_sensitive_string s"
| "clean_node _ \<longleftrightarrow> True"

definition shows_no_credential :: "json \<Rightarrow> bool" where
  "shows_no_credential v \<longleftrightarrow> (\<forall>u \<in> set (subvalues v). clean_node u)"

lemma redacted_mark: "\<not> is_sensitive_string REDACTED"
  by (simp add: is_sensitive_string_def REDACTED_def sensitive_prefixes_def to_ascii_lowercase_def str_def trim_start_def
      is_whitespace_def ascii_defs)

lemma redact_string_clean: "\<not> is_sensitive_string (redact_sensitive_string s)"
  by (simp add: redact_sensitive_string_def redacted_mark)

lemma redact_string_idem: "redact_sensitive_string (redact_sensitive_string s) = redact_sensitive_string s"
  using redact_string_clean by (simp add: redact_sensitive_string_def)

lemma shows_no_credential_simps:
  "shows_no_credential (JArray vs) \<longleftrightarrow> (\<forall>v \<in> set vs. shows_no_credential v)"
  "shows_no_credential (JObject fs) \<longleftrightarrow>
     (\<forall>(k, w) \<in> set fs. (is_sensitive_key k \<longrightarrow> w = JString REDACTED) \<and> shows_no_credential w)"
  "shows_no_credential (JString s) \<longleftrightarrow> \<not> is_sensitive_string s"
  "shows_no_credential (JBool b)" "shows_no_credential (JNumber n)" "shows_no_credential JNull"
  by (auto simp: shows_no_credential_def)

lemma redact_clean: "shows_no_credential (redact_sensitive_value v)"
proof (induction v rule: redact_sensitive_value.induct)
  case (1 fs)
  then show ?case by (auto simp: shows_no_credential_simps redacted_mark)
qed (auto simp: shows_no_credential_simps redact_string_clean)

lemma redact_id: "shows_no_credential v \<Longrightarrow> redact_sensitive_value v = v"
proof (induction v rule: redact_sensitive_value.induct)
  case (1 fs)
  then show ?case by (force simp: shows_no_credential_simps intro!: map_idI)
next
  case (2 vs)
  then show ?case by (auto simp: shows_no_credential_simps intro!: map_idI)
qed (auto simp: shows_no_credential_simps redact_sensitive_string_def)

lemma redact_wf: "json_wf v \<Longrightarrow> json_wf (redact_sensitive_value v)"
proof (induction v rule: redact_sensitive_value.induct)
  case (1 fs)
  have "map fst (map (\<lambda>(key, value). (key, if is_sensitive_key key then JString REDACTED else redact_sensitive_value value)) fs) = map fst fs"
    by (simp add: comp_def case_prod_beta)
  with 1 show ?case by (force simp del: map_map)
qed auto

end
