(* ===== verification/Tool_Executor.thy ===== *)
theory Tool_Executor
  imports Tool_Registry Tool_Output
begin

text \<open>
  The tool executor (\<open>tools/executor.rs\<close>): its construction from registrations, the result of one call, and the two
  gates that order concurrent calls.  A handler is the environment: what it ends with is a value of \<open>handler_end\<close>.
  The gates are the \<open>RwLock\<close> and the \<open>Mutex\<close> of the executor, as steps of a transition relation in which a call may be
  dropped in any phase (timeout or cancellation of the future).
\<close>

section \<open>Construction and one call\<close>

record 'h ToolRegistration =
  tg_definition :: ToolDefinition
  tg_handler :: 'h

record 'h ToolExecutor =
  registrations :: "(rstr, 'h ToolRegistration) btree"
  snapshot :: "ToolDefinition list"

fun executor_loop ::
  "'h ToolRegistration list \<Rightarrow> ToolRegistry \<Rightarrow> (rstr, 'h ToolRegistration) btree \<Rightarrow> (RegistryError, 'h ToolExecutor) result" where
  "executor_loop [] registry by_id = Inr \<lparr>registrations = by_id, snapshot = snapshot_for_domain None registry\<rparr>"
| "executor_loop (g # gs) registry by_id =
     (case register (tg_definition g) registry of
        (Inl e, _) \<Rightarrow> Inl e
      | (Inr _, registry') \<Rightarrow> executor_loop gs registry' (btree_insert (td_id (tg_definition g)) g by_id))"

definition ToolExecutor_new :: "'h ToolRegistration list \<Rightarrow> (RegistryError, 'h ToolExecutor) result" where
  "ToolExecutor_new gs = executor_loop gs ToolRegistry_new []"

datatype handler_end = Returned "(ToolError, json) result" | Panicked

datatype call_end = HandlerEnded handler_end | TimedOut | CancelSeen

fun run_handler :: "handler_end \<Rightarrow> (ToolError, json) result" where
  "run_handler (Returned r) = r"
| "run_handler Panicked = Inl (ToolError_new (str ''tool_panicked'') (str ''tool handler panicked during execution''))"

definition execute ::
  "(json \<Rightarrow> (rstr, nat list) result) \<Rightarrow> (nat list \<Rightarrow> (ToolError, ArtifactRef) result) \<Rightarrow> 'h ToolExecutor \<Rightarrow> rstr \<Rightarrow> bool
     \<Rightarrow> ('h \<Rightarrow> call_end) \<Rightarrow> (ToolError, ToolOutput) result" where
  "execute to_vec store x i already_cancelled ended =
     (case map_of (registrations x) i of
        None \<Rightarrow> Inl (ToolError_new (str ''unknown_tool'') (str ''tool is not registered: '' @ i))
      | Some g \<Rightarrow>
          if already_cancelled then Inl ToolError_cancelled
          else
            (case ended (tg_handler g) of
               HandlerEnded h \<Rightarrow> rbind (run_handler h) (bound_output to_vec store)
             | TimedOut \<Rightarrow> Inl (ToolError_new (str ''tool_timeout'') (str ''tool '' @ td_id (tg_definition g) @ str '' exceeded its timeout''))
             | CancelSeen \<Rightarrow> Inl ToolError_cancelled))"

section \<open>The gates\<close>

datatype phase = Waiting | SharedHeld | InHandler | Left

text \<open>\<open>exclusive_gate\<close> is a read-write lock, \<open>write_gate\<close> a mutex; the calls are numbered in the order they start.\<close>

record gates =
  exclusive_readers :: nat
  exclusive_writer :: bool
  write_locked :: bool
  calls :: "(ConcurrencyPolicy \<times> phase) list"

definition gates_new :: gates where
  "gates_new = \<lparr>exclusive_readers = 0, exclusive_writer = False, write_locked = False, calls = []\<rparr>"

fun release :: "ConcurrencyPolicy \<Rightarrow> phase \<Rightarrow> gates \<Rightarrow> gates" where
  "release _ SharedHeld g = g\<lparr>exclusive_readers := exclusive_readers g - 1\<rparr>"
| "release ParallelRead InHandler g = g\<lparr>exclusive_readers := exclusive_readers g - 1\<rparr>"
| "release SerialWrite InHandler g = g\<lparr>exclusive_readers := exclusive_readers g - 1, write_locked := False\<rparr>"
| "release Exclusive InHandler g = g\<lparr>exclusive_writer := False\<rparr>"
| "release _ _ g = g"

inductive gate_step :: "gates \<Rightarrow> gates \<Rightarrow> bool" where
  start: "gate_step g (g\<lparr>calls := calls g @ [(p, Waiting)]\<rparr>)"
| shared: "i < length (calls g) \<Longrightarrow> calls g ! i = (p, Waiting) \<Longrightarrow> p \<noteq> Exclusive \<Longrightarrow> \<not> exclusive_writer g \<Longrightarrow>
    gate_step g (g\<lparr>exclusive_readers := exclusive_readers g + 1,
      calls := (calls g)[i := (p, if p = ParallelRead then InHandler else SharedHeld)]\<rparr>)"
| mutex: "i < length (calls g) \<Longrightarrow> calls g ! i = (SerialWrite, SharedHeld) \<Longrightarrow> \<not> write_locked g \<Longrightarrow>
    gate_step g (g\<lparr>write_locked := True, calls := (calls g)[i := (SerialWrite, InHandler)]\<rparr>)"
| exclusive: "i < length (calls g) \<Longrightarrow> calls g ! i = (Exclusive, Waiting) \<Longrightarrow> exclusive_readers g = 0 \<Longrightarrow> \<not> exclusive_writer g \<Longrightarrow>
    gate_step g (g\<lparr>exclusive_writer := True, calls := (calls g)[i := (Exclusive, InHandler)]\<rparr>)"
| leave: "i < length (calls g) \<Longrightarrow> calls g ! i = (p, ph) \<Longrightarrow> ph \<noteq> Left \<Longrightarrow>
    gate_step g (release p ph (g\<lparr>calls := (calls g)[i := (p, Left)]\<rparr>))"

inductive gates_reachable :: "gates \<Rightarrow> bool" where
  init: "gates_reachable gates_new"
| step: "gates_reachable g \<Longrightarrow> gate_step g h \<Longrightarrow> gates_reachable h"

section \<open>The gate invariant\<close>

text \<open>Each gate counts exactly the calls that hold it.\<close>

fun holds_shared :: "ConcurrencyPolicy \<times> phase \<Rightarrow> bool" where
  "holds_shared (p, SharedHeld) = True"
| "holds_shared (p, InHandler) = (p \<noteq> Exclusive)"
| "holds_shared _ = False"

definition holds_exclusive :: "ConcurrencyPolicy \<times> phase \<Rightarrow> bool" where
  "holds_exclusive c \<longleftrightarrow> c = (Exclusive, InHandler)"

definition holds_write :: "ConcurrencyPolicy \<times> phase \<Rightarrow> bool" where
  "holds_write c \<longleftrightarrow> c = (SerialWrite, InHandler)"

definition holders :: "('a \<Rightarrow> bool) \<Rightarrow> 'a list \<Rightarrow> nat" where
  "holders P xs = length (filter P xs)"

definition gates_ok :: "gates \<Rightarrow> bool" where
  "gates_ok g \<longleftrightarrow> exclusive_readers g = holders holds_shared (calls g)
     \<and> holders holds_exclusive (calls g) = of_bool (exclusive_writer g)
     \<and> holders holds_write (calls g) = of_bool (write_locked g)
     \<and> (exclusive_writer g \<longrightarrow> exclusive_readers g = 0)
     \<and> (\<forall>c \<in> set (calls g). snd c = SharedHeld \<longrightarrow> fst c = SerialWrite)"

lemma holders_update:
  assumes "i < length xs"
  shows "holders P (xs[i := y]) + of_bool (P (xs ! i)) = holders P xs + of_bool (P y)"
proof -
  have split: "holders P (take i xs @ z # drop (Suc i) xs) = holders P (take i xs) + of_bool (P z) + holders P (drop (Suc i) xs)" for z
    by (simp add: holders_def)
  show ?thesis
    using split [of y] split [of "xs ! i"] assms by (simp add: upd_conv_take_nth_drop id_take_nth_drop [symmetric])
qed

lemma holders_pos: "x \<in> set xs \<Longrightarrow> P x \<Longrightarrow> 0 < holders P xs"
  unfolding holders_def by (simp add: filter_empty_conv) blast

lemma holders_two: "i < length xs \<Longrightarrow> j < length xs \<Longrightarrow> i \<noteq> j \<Longrightarrow> P (xs ! i) \<Longrightarrow> P (xs ! j) \<Longrightarrow> 2 \<le> holders P xs"
proof -
  assume a: "i < length xs" "j < length xs" "i \<noteq> j" "P (xs ! i)" "P (xs ! j)"
  then have "{i, j} \<subseteq> {k. k < length xs \<and> P (xs ! k)}" "finite {k. k < length xs \<and> P (xs ! k)}" by auto
  then have "card {i, j} \<le> card {k. k < length xs \<and> P (xs ! k)}" by (rule card_mono [rotated])
  then show ?thesis using a(3) by (simp add: holders_def length_filter_conv_card)
qed

text \<open>The effect of moving one call: each count changes by what the call gains and loses.\<close>

lemma gates_okI:
  assumes i: "i < length (calls g)" and c: "calls h = (calls g)[i := (p, ph')]" "calls g ! i = (p, ph)" and ok: "gates_ok g"
    and r: "exclusive_readers h + of_bool (holds_shared (p, ph)) = exclusive_readers g + of_bool (holds_shared (p, ph'))"
    and e: "of_bool (exclusive_writer h) + of_bool (holds_exclusive (p, ph)) = (of_bool (exclusive_writer g) + of_bool (holds_exclusive (p, ph')) :: nat)"
    and w: "of_bool (write_locked h) + of_bool (holds_write (p, ph)) = (of_bool (write_locked g) + of_bool (holds_write (p, ph')) :: nat)"
    and x: "exclusive_writer h \<longrightarrow> exclusive_readers h = 0" and s: "ph' = SharedHeld \<longrightarrow> p = SerialWrite"
  shows "gates_ok h"
proof -
  note u = holders_update [OF i, of _ "(p, ph')", folded c(1), unfolded c(2)]
  have "exclusive_readers h = holders holds_shared (calls h)" using u [of holds_shared] r ok by (simp add: gates_ok_def)
  moreover have "holders holds_exclusive (calls h) = of_bool (exclusive_writer h)"
    using u [of holds_exclusive] e ok unfolding gates_ok_def by linarith
  moreover have "holders holds_write (calls h) = of_bool (write_locked h)"
    using u [of holds_write] w ok unfolding gates_ok_def by linarith
  moreover have "\<forall>c \<in> set (calls h). snd c = SharedHeld \<longrightarrow> fst c = SerialWrite"
    using ok s set_update_subset_insert [of "calls g" i "(p, ph')"] unfolding gates_ok_def c(1) by auto
  ultimately show ?thesis using x by (simp add: gates_ok_def)
qed

lemma holding_readers: "gates_ok g \<Longrightarrow> i < length (calls g) \<Longrightarrow> holds_shared (calls g ! i) \<Longrightarrow> 0 < exclusive_readers g"
  using holders_pos [of "calls g ! i" "calls g" holds_shared] by (simp add: gates_ok_def)

lemma holding_gate:
  "gates_ok g \<Longrightarrow> i < length (calls g) \<Longrightarrow> holds_exclusive (calls g ! i) \<Longrightarrow> exclusive_writer g"
  "gates_ok g \<Longrightarrow> i < length (calls g) \<Longrightarrow> holds_write (calls g ! i) \<Longrightarrow> write_locked g"
  using holders_pos [of "calls g ! i" "calls g" holds_exclusive] holders_pos [of "calls g ! i" "calls g" holds_write]
  by (auto simp: gates_ok_def)

lemma release_calls [simp]: "calls (release p ph g) = calls g"
  by (cases "(p, ph, g)" rule: release.cases) auto

lemma leave_ok:
  assumes ok: "gates_ok g" and i: "i < length (calls g)" and c: "calls g ! i = (p, ph)" and l: "ph \<noteq> Left"
  shows "gates_ok (release p ph (g\<lparr>calls := (calls g)[i := (p, Left)]\<rparr>))"
proof (rule gates_okI [OF i _ c ok])
  note facts = holding_readers [OF ok i] holding_gate [OF ok i] c
  have x: "exclusive_writer g \<longrightarrow> exclusive_readers g = 0" using ok unfolding gates_ok_def by blast
  show "exclusive_readers (release p ph (g\<lparr>calls := (calls g)[i := (p, Left)]\<rparr>)) + of_bool (holds_shared (p, ph)) =
      exclusive_readers g + of_bool (holds_shared (p, Left))"
    using facts(1) c l by (cases ph; cases p) auto
  show "of_bool (exclusive_writer (release p ph (g\<lparr>calls := (calls g)[i := (p, Left)]\<rparr>))) + of_bool (holds_exclusive (p, ph)) =
      (of_bool (exclusive_writer g) + of_bool (holds_exclusive (p, Left)) :: nat)"
    using facts(2) c l by (cases ph; cases p) (auto simp: holds_exclusive_def)
  show "of_bool (write_locked (release p ph (g\<lparr>calls := (calls g)[i := (p, Left)]\<rparr>))) + of_bool (holds_write (p, ph)) =
      (of_bool (write_locked g) + of_bool (holds_write (p, Left)) :: nat)"
    using facts(3) c l by (cases ph; cases p) (auto simp: holds_write_def)
  show "exclusive_writer (release p ph (g\<lparr>calls := (calls g)[i := (p, Left)]\<rparr>)) \<longrightarrow>
      exclusive_readers (release p ph (g\<lparr>calls := (calls g)[i := (p, Left)]\<rparr>)) = 0"
    using x by (cases ph; cases p) auto
qed simp_all

lemmas holds_defs = holds_exclusive_def holds_write_def

lemma shared_ok:
  assumes "i < length (calls g)" "calls g ! i = (p, Waiting)" "p \<noteq> Exclusive" "\<not> exclusive_writer g" "gates_ok g"
  shows "gates_ok (g\<lparr>exclusive_readers := exclusive_readers g + 1,
    calls := (calls g)[i := (p, if p = ParallelRead then InHandler else SharedHeld)]\<rparr>)"
proof (cases p)
  case ParallelRead
  show ?thesis using gates_okI [OF assms(1) _ assms(2,5), of _ InHandler] assms(4) ParallelRead by (simp add: holds_defs)
next
  case SerialWrite
  show ?thesis using gates_okI [OF assms(1) _ assms(2,5), of _ SharedHeld] assms(4) SerialWrite by (simp add: holds_defs)
qed (use assms in simp)

lemma mutex_ok:
  assumes "i < length (calls g)" "calls g ! i = (SerialWrite, SharedHeld)" "\<not> write_locked g" "gates_ok g"
  shows "gates_ok (g\<lparr>write_locked := True, calls := (calls g)[i := (SerialWrite, InHandler)]\<rparr>)"
proof -
  have "0 < exclusive_readers g" using holding_readers [OF assms(4,1)] assms(2) by simp
  then have "\<not> exclusive_writer g" using assms(4) unfolding gates_ok_def by linarith
  then show ?thesis using gates_okI [OF assms(1) _ assms(2,4), of _ InHandler] assms(3) by (simp add: holds_defs)
qed

lemma exclusive_ok:
  assumes "i < length (calls g)" "calls g ! i = (Exclusive, Waiting)" "exclusive_readers g = 0" "\<not> exclusive_writer g" "gates_ok g"
  shows "gates_ok (g\<lparr>exclusive_writer := True, calls := (calls g)[i := (Exclusive, InHandler)]\<rparr>)"
  using gates_okI [OF assms(1) _ assms(2,5), of _ InHandler] assms(3,4) by (simp add: holds_defs)

lemma start_ok: "gates_ok g \<Longrightarrow> gates_ok (g\<lparr>calls := calls g @ [(p, Waiting)]\<rparr>)"
  unfolding gates_ok_def by (auto simp: holders_def holds_defs)

lemma gate_step_ok: "gate_step g h \<Longrightarrow> gates_ok g \<Longrightarrow> gates_ok h"
  by (induction rule: gate_step.induct) (blast intro: start_ok shared_ok mutex_ok exclusive_ok leave_ok)+

lemma reachable_ok: "gates_reachable g \<Longrightarrow> gates_ok g"
proof (induction rule: gates_reachable.induct)
  case init
  then show ?case by (simp add: gates_ok_def gates_new_def holders_def)
qed (rule gate_step_ok)

text \<open>When no handler runs, some waiting call can take its next gate.\<close>

lemma gates_progress:
  assumes ok: "gates_ok g" and i: "i < length (calls g)" "snd (calls g ! i) \<in> {Waiting, SharedHeld}"
    and idle: "\<forall>c \<in> set (calls g). snd c \<noteq> InHandler"
  shows "\<exists>j h. gate_step g h \<and> j < length (calls g) \<and> snd (calls g ! j) \<in> {Waiting, SharedHeld}
     \<and> calls h ! j \<noteq> calls g ! j \<and> snd (calls h ! j) \<noteq> Left"
proof -
  have "\<not> P c" if "c \<in> set (calls g)" "P = holds_exclusive \<or> P = holds_write" for c P
    using idle that by (cases c) (auto simp: holds_exclusive_def holds_write_def)
  then have "holders holds_exclusive (calls g) = 0" "holders holds_write (calls g) = 0" by (auto simp: holders_def filter_empty_conv)
  then have f: "\<not> exclusive_writer g" "\<not> write_locked g" using ok by (auto simp: gates_ok_def)
  show ?thesis
  proof (cases "\<exists>j < length (calls g). snd (calls g ! j) = SharedHeld")
    case True
    then obtain j where j: "j < length (calls g)" "snd (calls g ! j) = SharedHeld" by blast
    then have "calls g ! j = (SerialWrite, SharedHeld)"
      using ok nth_mem [OF j(1)] by (cases "calls g ! j") (auto simp: gates_ok_def)
    then show ?thesis using gate_step.mutex [OF j(1) _ f(2)] j by force
  next
    case False
    have "\<not> holds_shared c" if "c \<in> set (calls g)" for c
    proof -
      obtain p ph where c: "c = (p, ph)" by fastforce
      have "ph \<noteq> InHandler" using idle that c by auto
      moreover have "ph \<noteq> SharedHeld" using False that c by (metis in_set_conv_nth snd_conv)
      ultimately show ?thesis using c by (cases ph) auto
    qed
    then have r: "exclusive_readers g = 0" using ok by (auto simp: gates_ok_def holders_def filter_empty_conv)
    obtain p where p: "calls g ! i = (p, Waiting)" using i False by (cases "calls g ! i") auto
    show ?thesis
    proof (cases "p = Exclusive")
      case True
      then show ?thesis using gate_step.exclusive [OF i(1) _ r f(1)] p i by force
    next
      case False
      show ?thesis by (rule exI [of _ i], rule exI, intro conjI, rule gate_step.shared [OF i(1) p False f(1)]) (use p i in auto)
    qed
  qed
qed

end
