(* ===== verification/Permission_Policy.thy ===== *)
theory Permission_Policy
  imports Tool_Registry
begin

text \<open>
  Tool permissions (\<open>permissions/model.rs\<close>, \<open>permissions/policy.rs\<close>): parameter scopes, rules, the evaluation of a
  request and its resolution by the user.  Fresh ids (\<open>Uuid::new_v4\<close>) are arguments.
\<close>

datatype PermissionAction = Execute

datatype ParameterScope = AnyScope | Exact json | Fields "(rstr, json) btree"

datatype ScopeError = ExpectedObject

definition scope_fields :: "json \<Rightarrow> (ScopeError, ParameterScope) result" where
  "scope_fields arguments = (case as_object arguments of None \<Rightarrow> Inl ExpectedObject | Some object \<Rightarrow> Inr (Fields object))"

fun scope_matches :: "ParameterScope \<Rightarrow> json \<Rightarrow> bool" where
  "scope_matches AnyScope arguments = True"
| "scope_matches (Exact expected) arguments = json_eq expected arguments"
| "scope_matches (Fields fs) arguments =
     (case as_object arguments of
        None \<Rightarrow> False
      | Some args \<Rightarrow> list_all (\<lambda>(k, expected). case obj_get k args of None \<Rightarrow> False | Some v \<Rightarrow> json_eq v expected) fs)"

record PermissionRequest =
  pr_permission_id :: uuid
  pr_tool_id :: rstr
  pr_tool_version :: ToolVersion
  pr_source :: ToolSource
  pr_action :: PermissionAction
  pr_risk :: PermissionRisk
  pr_read_only :: bool
  pr_arguments :: json

definition from_tool :: "uuid \<Rightarrow> ToolDefinition \<Rightarrow> json \<Rightarrow> PermissionRequest" where
  "from_tool fresh d arguments = \<lparr>pr_permission_id = fresh, pr_tool_id = td_id d, pr_tool_version = td_version d,
     pr_source = td_source d, pr_action = Execute, pr_risk = td_risk d, pr_read_only = td_read_only d, pr_arguments = arguments\<rparr>"

datatype RuleEffect = RuleAllow | RuleDeny

record PermissionRule =
  ru_id :: uuid
  ru_tool_id :: rstr
  ru_tool_version :: ToolVersion
  ru_source :: ToolSource
  ru_action :: PermissionAction
  ru_scope :: ParameterScope
  ru_effect :: RuleEffect

definition rule_matches :: "PermissionRule \<Rightarrow> PermissionRequest \<Rightarrow> bool" where
  "rule_matches rule req \<longleftrightarrow> ru_tool_id rule = pr_tool_id req \<and> ru_tool_version rule = pr_tool_version req
     \<and> ru_source rule = pr_source req \<and> ru_action rule = pr_action req \<and> scope_matches (ru_scope rule) (pr_arguments req)"

definition for_request :: "uuid \<Rightarrow> PermissionRequest \<Rightarrow> ParameterScope \<Rightarrow> RuleEffect \<Rightarrow> PermissionRule" where
  "for_request fresh req sc eff = \<lparr>ru_id = fresh, ru_tool_id = pr_tool_id req, ru_tool_version = pr_tool_version req,
     ru_source = pr_source req, ru_action = pr_action req, ru_scope = sc, ru_effect = eff\<rparr>"

datatype DenialReason = DangerousDisabled | ExplicitRule uuid

datatype PolicyDecision = AllowAutomatic | RequireConfirmation PermissionRequest | PolicyDeny DenialReason

datatype PolicyError = UnknownRule uuid

record PermissionPolicy =
  dangerous_enabled :: bool
  once_rules :: "PermissionRule list"
  session_rules :: "PermissionRule list"
  persistent_rules :: "PermissionRule list"

definition PermissionPolicy_new :: PermissionPolicy where
  "PermissionPolicy_new = \<lparr>dangerous_enabled = False, once_rules = [], session_rules = [], persistent_rules = []\<rparr>"

definition set_dangerous_enabled :: "bool \<Rightarrow> PermissionPolicy \<Rightarrow> PermissionPolicy" where
  "set_dangerous_enabled on p = p\<lparr>dangerous_enabled := on\<rparr>"

definition all_rules :: "PermissionPolicy \<Rightarrow> PermissionRule list" where
  "all_rules p = once_rules p @ session_rules p @ persistent_rules p"

definition find_rule :: "PermissionPolicy \<Rightarrow> PermissionRequest \<Rightarrow> RuleEffect \<Rightarrow> PermissionRule option" where
  "find_rule p req eff = find (\<lambda>rule. ru_effect rule = eff \<and> rule_matches rule req) (all_rules p)"

definition consume_once :: "uuid \<Rightarrow> PermissionPolicy \<Rightarrow> PermissionPolicy" where
  "consume_once i p = p\<lparr>once_rules := filter (\<lambda>rule. ru_id rule \<noteq> i) (once_rules p)\<rparr>"

definition is_read_only :: "PermissionRequest \<Rightarrow> bool" where
  "is_read_only req = pr_read_only req"

definition evaluate_request :: "PermissionRequest \<Rightarrow> PermissionPolicy \<Rightarrow> PolicyDecision \<times> PermissionPolicy" where
  "evaluate_request req p =
     (case find_rule p req RuleDeny of
        Some rule \<Rightarrow> (PolicyDeny (ExplicitRule (ru_id rule)), consume_once (ru_id rule) p)
      | None \<Rightarrow>
          if pr_risk req = Dangerous \<and> \<not> dangerous_enabled p then (PolicyDeny DangerousDisabled, p)
          else (case find_rule p req RuleAllow of
                  Some rule \<Rightarrow> (AllowAutomatic, consume_once (ru_id rule) p)
                | None \<Rightarrow>
                    if pr_risk req = Automatic \<and> is_read_only req then (AllowAutomatic, p)
                    else (RequireConfirmation req, p)))"

definition evaluate :: "uuid \<Rightarrow> ToolDefinition \<Rightarrow> json \<Rightarrow> PermissionPolicy \<Rightarrow> PolicyDecision \<times> PermissionPolicy" where
  "evaluate fresh d arguments p = evaluate_request (from_tool fresh d arguments) p"

definition resolve_with_scope ::
  "uuid \<Rightarrow> PermissionRequest \<Rightarrow> PermissionDecision \<Rightarrow> ParameterScope \<Rightarrow> PermissionPolicy \<Rightarrow> (PolicyError, unit) result \<times> PermissionPolicy" where
  "resolve_with_scope fresh req decision sc p =
     (let rule = (case decision of
                    AllowOnce \<Rightarrow> for_request fresh req sc RuleAllow
                  | AllowSession \<Rightarrow> for_request fresh req sc RuleAllow
                  | AllowAlways \<Rightarrow> for_request fresh req sc RuleAllow
                  | Deny \<Rightarrow> for_request fresh req sc RuleDeny) in
      (Inr (),
       (case decision of
          AllowOnce \<Rightarrow> p\<lparr>once_rules := once_rules p @ [rule]\<rparr>
        | Deny \<Rightarrow> p\<lparr>once_rules := once_rules p @ [rule]\<rparr>
        | AllowSession \<Rightarrow> p\<lparr>session_rules := session_rules p @ [rule]\<rparr>
        | AllowAlways \<Rightarrow> p\<lparr>persistent_rules := persistent_rules p @ [rule]\<rparr>)))"

definition resolve :: "uuid \<Rightarrow> PermissionRequest \<Rightarrow> PermissionDecision \<Rightarrow> PermissionPolicy \<Rightarrow> (PolicyError, unit) result \<times> PermissionPolicy" where
  "resolve fresh req decision p = resolve_with_scope fresh req decision (Exact (pr_arguments req)) p"

definition load_persistent_rules :: "PermissionRule list \<Rightarrow> PermissionPolicy \<Rightarrow> PermissionPolicy" where
  "load_persistent_rules rules p = p\<lparr>persistent_rules := rules\<rparr>"

definition rule_count :: "PermissionPolicy \<Rightarrow> nat" where
  "rule_count p = length (once_rules p) + length (session_rules p) + length (persistent_rules p)"

definition revoke :: "uuid \<Rightarrow> PermissionPolicy \<Rightarrow> (PolicyError, unit) result \<times> PermissionPolicy" where
  "revoke i p =
     (let p' = p\<lparr>once_rules := filter (\<lambda>rule. ru_id rule \<noteq> i) (once_rules p),
                 session_rules := filter (\<lambda>rule. ru_id rule \<noteq> i) (session_rules p),
                 persistent_rules := filter (\<lambda>rule. ru_id rule \<noteq> i) (persistent_rules p)\<rparr> in
      if rule_count p' = rule_count p then (Inl (UnknownRule i), p') else (Inr (), p'))"

definition clear_session :: "PermissionPolicy \<Rightarrow> PermissionPolicy" where
  "clear_session p = p\<lparr>once_rules := [], session_rules := []\<rparr>"

section \<open>Histories\<close>

datatype policy_op =
    OpSetDangerous bool
  | OpEvaluate PermissionRequest
  | OpResolve uuid PermissionRequest PermissionDecision ParameterScope
  | OpLoad "PermissionRule list"
  | OpRevoke uuid
  | OpClearSession

fun policy_step :: "PermissionPolicy \<Rightarrow> policy_op \<Rightarrow> PermissionPolicy" where
  "policy_step p (OpSetDangerous on) = set_dangerous_enabled on p"
| "policy_step p (OpEvaluate req) = snd (evaluate_request req p)"
| "policy_step p (OpResolve fresh req decision sc) = snd (resolve_with_scope fresh req decision sc p)"
| "policy_step p (OpLoad rules) = load_persistent_rules rules p"
| "policy_step p (OpRevoke i) = snd (revoke i p)"
| "policy_step p OpClearSession = clear_session p"

text \<open>A history with the policy before each operation.\<close>

type_synonym policy_history = "(PermissionPolicy \<times> policy_op) list"

fun history :: "PermissionPolicy \<Rightarrow> policy_op list \<Rightarrow> policy_history" where
  "history p [] = []"
| "history p (a # as) = (p, a) # history (policy_step p a) as"

text \<open>The consent behind an allow rule: the user allowed a request with that rule, or the rule was loaded from storage.\<close>

datatype grant = ForOnce | ForSession | ForEver

fun grants :: "grant \<Rightarrow> PermissionRule \<Rightarrow> PermissionPolicy \<times> policy_op \<Rightarrow> bool" where
  "grants k rule (p, OpResolve fresh req decision sc) = (rule = for_request fresh req sc RuleAllow \<and>
     (decision = AllowOnce \<and> k = ForOnce \<or> decision = AllowSession \<and> k = ForSession \<or> decision = AllowAlways \<and> k = ForEver))"
| "grants k rule (p, OpLoad rules) = (k = ForEver \<and> rule \<in> set rules)"
| "grants k rule _ = False"

text \<open>The rule that decided an evaluation.\<close>

definition decided_by :: "PermissionPolicy \<Rightarrow> PermissionRequest \<Rightarrow> uuid \<Rightarrow> bool" where
  "decided_by p req i =
     (case find_rule p req RuleDeny of
        Some rule \<Rightarrow> ru_id rule = i
      | None \<Rightarrow> fst (evaluate_request req p) = AllowAutomatic \<and> (case find_rule p req RuleAllow of Some rule \<Rightarrow> ru_id rule = i | None \<Rightarrow> False))"

text \<open>Consent ends when its rule is revoked; consent for one call also with the evaluation it decides, consent for one call or
  for the session with the session, and persistent consent when the stored rules are loaded again.\<close>

fun withdraws :: "grant \<Rightarrow> PermissionRule \<Rightarrow> PermissionPolicy \<times> policy_op \<Rightarrow> bool" where
  "withdraws k rule (p, OpRevoke i) = (ru_id rule = i)"
| "withdraws k rule (p, OpEvaluate req) = (k = ForOnce \<and> decided_by p req (ru_id rule))"
| "withdraws k rule (p, OpClearSession) = (k \<noteq> ForEver)"
| "withdraws k rule (p, OpLoad rules) = (k = ForEver)"
| "withdraws k rule _ = False"

definition in_force :: "grant \<Rightarrow> PermissionRule \<Rightarrow> policy_history \<Rightarrow> bool" where
  "in_force k rule h \<longleftrightarrow> (\<exists>h1 t h2. h = h1 @ t # h2 \<and> grants k rule t \<and> list_all (\<lambda>u. \<not> withdraws k rule u) h2)"

lemma in_force_grant: "grants k rule t \<Longrightarrow> in_force k rule (h @ [t])"
  unfolding in_force_def by (intro exI [of _ h] exI [of _ t] exI [of _ "[]"]) simp

lemma in_force_keep: "in_force k rule h \<Longrightarrow> \<not> withdraws k rule t \<Longrightarrow> in_force k rule (h @ [t])"
proof -
  assume "in_force k rule h" "\<not> withdraws k rule t"
  then obtain h1 u h2 where "h = h1 @ u # h2" "grants k rule u" "list_all (\<lambda>u. \<not> withdraws k rule u) (h2 @ [t])"
    by (auto simp: in_force_def)
  then show ?thesis unfolding in_force_def by (intro exI [of _ h1] exI [of _ u] exI [of _ "h2 @ [t]"]) simp
qed

fun rules_for :: "grant \<Rightarrow> PermissionPolicy \<Rightarrow> PermissionRule list" where
  "rules_for ForOnce p = once_rules p"
| "rules_for ForSession p = session_rules p"
| "rules_for ForEver p = persistent_rules p"

lemma rules_for_all: "rule \<in> set (all_rules p) \<longleftrightarrow> (\<exists>k. rule \<in> set (rules_for k p))"
proof
  assume "rule \<in> set (all_rules p)"
  then show "\<exists>k. rule \<in> set (rules_for k p)"
    unfolding all_rules_def by (metis rules_for.simps set_append Un_iff)
next
  assume "\<exists>k. rule \<in> set (rules_for k p)"
  then obtain k where "rule \<in> set (rules_for k p)" by blast
  then show "rule \<in> set (all_rules p)" by (cases k) (simp_all add: all_rules_def)
qed

lemma evaluate_once:
  assumes "rule \<in> set (rules_for k (snd (evaluate_request req p)))"
  shows "rule \<in> set (rules_for k p) \<and> \<not> (k = ForOnce \<and> decided_by p req (ru_id rule))"
  using assms by (cases k) (auto simp: evaluate_request_def consume_once_def decided_by_def split: option.splits if_splits)

lemma revoke_rules: "rules_for k (snd (revoke i p)) = filter (\<lambda>rule. ru_id rule \<noteq> i) (rules_for k p)"
  by (cases k) (simp_all add: revoke_def Let_def)

lemma policy_step_rules:
  assumes "rule \<in> set (rules_for k (policy_step p a))" "ru_effect rule = RuleAllow"
  shows "grants k rule (p, a) \<or> rule \<in> set (rules_for k p) \<and> \<not> withdraws k rule (p, a)"
proof (cases a)
  case (OpEvaluate req)
  then show ?thesis using assms evaluate_once [of rule k req p] by simp
next
  case (OpResolve fresh req decision sc)
  then show ?thesis using assms by (cases k; cases decision) (auto simp: resolve_with_scope_def for_request_def)
next
  case (OpRevoke i)
  then show ?thesis using assms by (auto simp: revoke_rules)
qed (use assms in \<open>cases k; auto simp: set_dangerous_enabled_def load_persistent_rules_def clear_session_def\<close>)+

definition traced_step :: "PermissionPolicy \<times> policy_history \<Rightarrow> policy_op \<Rightarrow> PermissionPolicy \<times> policy_history" where
  "traced_step s a = (policy_step (fst s) a, snd s @ [(fst s, a)])"

definition traced_ok :: "PermissionPolicy \<times> policy_history \<Rightarrow> bool" where
  "traced_ok s \<longleftrightarrow> (\<forall>k. \<forall>rule \<in> set (rules_for k (fst s)). ru_effect rule = RuleAllow \<longrightarrow> in_force k rule (snd s))"

interpretation policy: invariant_system traced_step traced_ok "\<lambda>_. True"
proof unfold_locales
  fix s a assume ok: "traced_ok s"
  show "traced_ok (traced_step s a)" unfolding traced_ok_def
  proof (intro allI ballI impI)
    fix k rule assume r: "rule \<in> set (rules_for k (fst (traced_step s a)))" "ru_effect rule = RuleAllow"
    then show "in_force k rule (snd (traced_step s a))"
      using policy_step_rules [of rule k "fst s" a] ok in_force_grant [of k rule] in_force_keep [of k rule]
      by (auto simp: traced_ok_def traced_step_def)
  qed
qed

lemma traced_run: "foldl traced_step (p, h) ops = (foldl policy_step p ops, h @ history p ops)"
  by (induction ops arbitrary: p h) (auto simp: traced_step_def)

lemma run_consented:
  assumes "rule \<in> set (all_rules (foldl policy_step PermissionPolicy_new ops))" "ru_effect rule = RuleAllow"
  shows "\<exists>k. in_force k rule (history PermissionPolicy_new ops)"
proof -
  have "traced_ok (PermissionPolicy_new, [])" unfolding traced_ok_def
  proof (intro allI ballI impI)
    fix k rule assume "rule \<in> set (rules_for k (fst (PermissionPolicy_new, [] :: policy_history)))"
    then show "in_force k rule (snd (PermissionPolicy_new, []))" by (cases k) (simp_all add: PermissionPolicy_new_def)
  qed
  then have "traced_ok (foldl policy_step PermissionPolicy_new ops, history PermissionPolicy_new ops)"
    using policy.inv_run [of "(PermissionPolicy_new, [])" ops] by (simp add: traced_run list_all_iff)
  then show ?thesis using assms by (auto simp: traced_ok_def rules_for_all)
qed

section \<open>Evaluation\<close>

lemma find_rule_Some: "find_rule p req eff = Some rule \<Longrightarrow> rule \<in> set (all_rules p) \<and> ru_effect rule = eff \<and> rule_matches rule req"
  unfolding find_rule_def by (auto dest: find_Some_split)

lemma find_rule_None: "find_rule p req eff = None \<longleftrightarrow> (\<forall>rule \<in> set (all_rules p). ru_effect rule = eff \<longrightarrow> \<not> rule_matches rule req)"
  by (auto simp: find_rule_def find_None_iff)

lemma scope_exact [simp]: "scope_matches (Exact v) v"
  by simp

lemma for_request_matches [simp]: "rule_matches (for_request fresh req sc eff) req' \<longleftrightarrow>
   pr_tool_id req = pr_tool_id req' \<and> pr_tool_version req = pr_tool_version req' \<and> pr_source req = pr_source req'
   \<and> pr_action req = pr_action req' \<and> scope_matches sc (pr_arguments req')"
  by (simp add: rule_matches_def for_request_def)

lemma find_append_new: "find P (xs @ x # ys) = (if find P xs = None then (if P x then Some x else find P ys) else find P xs)"
  by (induction xs) auto

text \<open>A once rule for a request is found by the next evaluation of the request and removed by it.\<close>

lemma consume_new:
  assumes "i \<notin> ru_id ` set (once_rules p)" "ru_id rule = i"
  shows "consume_once i (p\<lparr>once_rules := once_rules p @ [rule]\<rparr>) = p"
proof -
  have "filter (\<lambda>r. ru_id r \<noteq> i) (once_rules p) = once_rules p" using assms(1) by (metis (mono_tags, lifting) filter_True imageI)
  then show ?thesis using assms(2) by (simp add: consume_once_def)
qed

lemma once_rule_found:
  assumes "eff = RuleAllow \<or> eff = RuleDeny" "find_rule p req eff = None"
    and "ru_effect rule = eff" "rule_matches rule req" "p' = p\<lparr>once_rules := once_rules p @ [rule]\<rparr>"
  shows "find_rule p' req eff = Some rule"
  using assms by (auto simp: find_rule_def all_rules_def find_append_new find_None_iff)

lemma once_rule_other:
  assumes "ru_effect rule \<noteq> eff" "p' = p\<lparr>once_rules := once_rules p @ [rule]\<rparr>"
  shows "find_rule p' req eff = find_rule p req eff"
proof -
  have "find P (xs @ x # ys) = find P (xs @ ys)" if "\<not> P x" for P and xs ys :: "PermissionRule list" and x
    using that by (induction xs) auto
  then show ?thesis using assms by (simp add: find_rule_def all_rules_def)
qed

end
