(* ===== verification/Tool_Properties.thy ===== *)
theory Tool_Properties
  imports Tool_Executor Permission_Policy
begin

text \<open>
  The properties of the tool layer: the registry, schemas and versions, the output boundary, permissions and the gates.
\<close>

section \<open>The registry\<close>

lemma snapshot_members:
  assumes "registry_ok r"
  shows "d \<in> set (snapshot_for_domain dm r) \<longleftrightarrow>
    map_of (reg_definitions r) (td_id d) = Some d \<and> is_enabled r (td_id d) \<and> applies_to_domain d dm"
proof -
  have "(i, d) \<in> set (reg_definitions r) \<longleftrightarrow> map_of (reg_definitions r) i = Some d" for i
    using assms by (simp add: registry_ok_def btree_get_iff)
  moreover have "d \<in> set (snapshot_for_domain dm r) \<longleftrightarrow> (\<exists>i. (i, d) \<in> set (reg_definitions r) \<and> is_enabled r i \<and> applies_to_domain d dm)"
    by (auto simp: snapshot_for_domain_def is_enabled_def image_iff)
  ultimately show ?thesis using registry_ok_get [OF assms] by blast
qed

lemma snapshot_sorted: "registry_ok r \<Longrightarrow> sorted_wrt (<) (map td_id (snapshot_for_domain dm r))"
proof -
  assume ok: "registry_ok r"
  have e: "map td_id (snapshot_for_domain dm r) = map fst (filter (\<lambda>(i, d). i \<in> reg_enabled r \<and> applies_to_domain d dm) (reg_definitions r))"
    using ok by (auto simp: snapshot_for_domain_def registry_ok_def)
  have "sorted_wrt (\<lambda>x y. fst x < fst y) (reg_definitions r)" using ok by (simp add: registry_ok_def btree_ok_def sorted_wrt_map)
  then show ?thesis unfolding e sorted_wrt_map by (rule sorted_wrt_filter)
qed

text \<open>After any sequence of registry operations a domain snapshot lists, strictly ordered by tool id, exactly the
  registered tools that are enabled and apply to the domain, and each of them has passed validation.\<close>

theorem registry_snapshot_spec:
  fixes ops :: "registry_op list" and dm :: "rstr option"
  defines "r \<equiv> foldl registry_step ToolRegistry_new ops"
  shows "sorted_wrt (<) (map td_id (snapshot_for_domain dm r))
    \<and> list_all (\<lambda>d. validate_definition d = Inr ()) (snapshot_for_domain dm r)
    \<and> (\<forall>d. d \<in> set (snapshot_for_domain dm r) \<longleftrightarrow>
         map_of (reg_definitions r) (td_id d) = Some d \<and> is_enabled r (td_id d) \<and> applies_to_domain d dm)"
proof -
  have ok: "registry_ok r" unfolding r_def by (rule registry.inv_run [OF registry_new_ok]) (simp add: list_all_iff)
  then have "validate_definition d = Inr ()" if "d \<in> set (snapshot_for_domain dm r)" for d
    using that snapshot_members [OF ok] registry_ok_get [OF ok] by blast
  then show ?thesis using snapshot_sorted [OF ok] snapshot_members [OF ok] by (simp add: list_all_iff)
qed

theorem registry_snapshot_spec_witness: "snapshot_for_domain None (foldl registry_step ToolRegistry_new []) = []"
  using registry_snapshot_spec [of None "[]"] by (simp add: ToolRegistry_new_def snapshot_for_domain_def)

text \<open>C26. A batch registration is a single step on the abstract registry, the map from ids to definitions: it succeeds
  exactly when every definition is valid, no id is repeated and none is taken, and then extends the map by the batch,
  enables its tools and advances the version once; otherwise it fails and leaves the registry as it was.\<close>

theorem register_many_refines_map:
  "if registrable ds r
   then fst (register_many ds r) = Inr ()
     \<and> map_of (reg_definitions (snd (register_many ds r))) = map_of (reg_definitions r) ++ map_of (keyed ds)
     \<and> reg_enabled (snd (register_many ds r)) = reg_enabled r \<union> td_id ` set ds
     \<and> reg_version (snd (register_many ds r)) = (if ds = [] then reg_version r else reg_version r + 1)
   else (\<exists>e. register_many ds r = (Inl e, r))"
proof (cases "registrable ds r")
  case True
  then show ?thesis using register_many_success [of ds r] register_many_result(1-3) [OF True refl] by simp
next
  case False
  then obtain e where e: "fst (register_many ds r) = Inl e" using register_many_success [of ds r] by (cases "fst (register_many ds r)") auto
  then have "register_many ds r = (Inl e, r)" using register_many_failure [OF e] by (metis prod.collapse)
  then show ?thesis using False by auto
qed

text \<open>Removing a batch right after registering it restores the registry: the definitions and the enabled set are as
  before, and only the version has advanced, once for each of the two changes.\<close>

theorem register_unregister_roundtrip:
  assumes "registry_ok r" "registrable ds r" "ds \<noteq> []"
  shows "unregister_many ds (snd (register_many ds r)) = (Inr (), r\<lparr>reg_version := reg_version r + 2\<rparr>)"
proof -
  define r' where "r' = snd (register_many ds r)"
  note res = register_many_result [OF assms(2) r'_def]
  have d: "map_of (keyed ds) (td_id d) = Some d" if "d \<in> set ds" for d
    using assms(2) that by (auto simp: registrable_def distinct_map comp_def inj_on_def intro!: map_of_is_SomeI)
  have "check_current r' d = Inr ()" if "d \<in> set ds" for d
    using d [OF that] by (simp add: check_current_def res(1))
  then have "unregister_many ds r' = (Inr (), (foldl remove_definition r' ds)\<lparr>reg_version := reg_version r' + 1\<rparr>)"
    using assms(3) for_each_Inr [of "check_current r'" ds "()"] by (simp add: unregister_many_def)
  moreover have "reg_definitions (foldl remove_definition r' ds) = reg_definitions r"
  proof (rule btree_ext)
    show "btree_ok (reg_definitions (foldl remove_definition r' ds))"
      by (rule remove_loop(3)) (use res(4) assms(1) in \<open>simp add: registry_ok_def\<close>)
    show "btree_ok (reg_definitions r)" using assms(1) by (simp add: registry_ok_def)
    have "map_of (reg_definitions r) i = None" if "i \<in> td_id ` set ds" for i using assms(2) that by (auto simp: registrable_def)
    moreover have "map_of (keyed ds) i = None" if "i \<notin> td_id ` set ds" for i using that by (force simp: map_of_eq_None_iff)
    ultimately show "map_of (reg_definitions (foldl remove_definition r' ds)) = map_of (reg_definitions r)"
      unfolding remove_loop(1) res(1) by (auto simp: fun_eq_iff map_add_def)
  qed
  moreover have "reg_enabled (foldl remove_definition r' ds) = reg_enabled r"
    using assms(1,2) unfolding remove_loop(2) res(2) registry_ok_def registrable_def by blast
  moreover have "reg_version r' + 1 = reg_version r + 2" using res(3) assms(3) by simp
  ultimately show ?thesis unfolding r'_def [symmetric] by (simp add: ToolRegistry.equality)
qed

definition sample_tool :: "string \<Rightarrow> ToolDefinition" where
  "sample_tool i = \<lparr>td_id = str i, td_version = \<lparr>tv_major = 1, tv_minor = 0, tv_patch = 0\<rparr>, td_name = [65], td_description = [66],
     td_input_schema = JObject [], td_output_schema = JObject [], td_risk = Automatic, td_read_only = True,
     td_concurrency = ParallelRead, td_timeout = 1, td_source = Builtin, td_domains = []\<rparr>"

lemma empty_schema: "validate_schema (JObject []) = Inr ()"
  by (simp add: validate_schema_fields field_ok_def obj_get_def)

lemma sample_tool_valid: "validate_definition (sample_tool i) = Inr ()"
  by (simp add: validate_definition_def sample_tool_def empty_schema trim_def trim_start_def trim_end_def is_whitespace_def)

lemma sample_registrable: "registrable [sample_tool ''a''] ToolRegistry_new"
  by (simp add: registrable_def sample_tool_valid ToolRegistry_new_def)

theorem register_unregister_roundtrip_witness:
  "unregister_many [sample_tool ''a''] (snd (register_many [sample_tool ''a''] ToolRegistry_new)) =
     (Inr (), ToolRegistry_new\<lparr>reg_version := 2\<rparr>)"
  using register_unregister_roundtrip [OF registry_new_ok sample_registrable] by (simp add: ToolRegistry_new_def)

section \<open>Schemas and versions\<close>

text \<open>Schema validation terminates on every JSON value and accepts a schema exactly when it and every schema nested in
  it (under properties, additionalProperties, items and the alternatives) are well formed on their own: an object with a
  supported type, an object of properties, distinct required names, non-empty alternatives and an array of enum values.\<close>

theorem validate_schema_spec: "validate_schema s = Inr () \<longleftrightarrow> (\<forall>t. subschema s t \<longrightarrow> local_ok t)"
  using validate_schema_subschemas subschemas_validate by blast

theorem validate_schema_spec_witness: "local_ok (JObject [])"
  using validate_schema_spec [of "JObject []"] empty_schema subschema.self by blast

text \<open>Versions round-trip: printing a version whose parts fit \<open>u64\<close> and parsing it gives it back, and a parsed text
  without a plus sign is the printed form of its version.\<close>

theorem tool_version_roundtrip:
  "(tv_major v \<le> u64_max \<and> tv_minor v \<le> u64_max \<and> tv_patch v \<le> u64_max \<longrightarrow> ToolVersion_parse (ToolVersion_display v) = Inr v)
   \<and> (ToolVersion_parse s = Inr v \<and> 43 \<notin> set s \<longrightarrow> ToolVersion_display v = s)"
  using parse_display [of v] parse_Inr [of s v] by blast

theorem tool_version_roundtrip_witness:
  "ToolVersion_parse (ToolVersion_display \<lparr>tv_major = 1, tv_minor = 20, tv_patch = 3\<rparr>) = Inr \<lparr>tv_major = 1, tv_minor = 20, tv_patch = 3\<rparr>"
  using tool_version_roundtrip [of "\<lparr>tv_major = 1, tv_minor = 20, tv_patch = 3\<rparr>" "[]"] by (simp add: u64_max_def)

text \<open>The plus sign is the one exception: \<open>parse::<u64>\<close> accepts it.\<close>

lemma tool_version_accepts_plus:
  "ToolVersion_parse (str ''+1.0.0'') = Inr \<lparr>tv_major = 1, tv_minor = 0, tv_patch = 0\<rparr>"
  by (simp add: ToolVersion_parse_def str_def parse_part_def parse_uint_def ascii_defs digits_value_def u64_max_def len_utf8_def Let_def)

section \<open>The output boundary\<close>

text \<open>A successful result of the output boundary is computed from the redacted value alone, which shows no credential
  (no value but the mark under a sensitive key at any depth, no credential-like string) and is not changed by a second
  redaction; it is passed inline only up to 32 KiB, and beyond that only a reference to the stored redacted bytes is.\<close>

theorem bound_output_spec:
  assumes "bound_output to_vec store v = Inr out"
  shows "shows_no_credential (redact_sensitive_value v)
    \<and> redact_sensitive_value (redact_sensitive_value v) = redact_sensitive_value v
    \<and> (\<exists>bytes. to_vec (redact_sensitive_value v) = Inr bytes
         \<and> (if length bytes \<le> 32768 then out = \<lparr>model_output = redact_sensitive_value v, artifact = None\<rparr>
            else (\<exists>a. store bytes = Inr a \<and> artifact out = Some a
                   \<and> model_output out = JObject [(str ''artifact_id'', JString (ar_id a)),
                        (str ''size_bytes'', JNumber (PosInt (ar_size_bytes a))), (str ''truncated'', JBool True)])))"
proof -
  obtain bytes where b: "to_vec (redact_sensitive_value v) = Inr bytes"
    using assms by (auto simp: bound_output_def Let_def rbind_Inr)
  then show ?thesis using assms redact_clean [of v] redact_id [OF redact_clean, of v]
    by (cases "length bytes \<le> 32768") (auto simp: bound_output_def Let_def rbind_Inr MAX_INLINE_OUTPUT_BYTES_def)
qed

theorem bound_output_spec_witness:
  "shows_no_credential (redact_sensitive_value (JObject [(str ''api_key'', JString (str ''x''))]))"
  using bound_output_spec [of "\<lambda>_. Inr [0]" undefined "JObject [(str ''api_key'', JString (str ''x''))]"]
  by (simp add: bound_output_def Let_def MAX_INLINE_OUTPUT_BYTES_def)

text \<open>An executor is built only from valid tools with distinct ids, and knows exactly them; a call that succeeds was
  to a registered tool, was not cancelled, did not time out or panic, and its output is the bounded output of the value the
  tool's handler returned.\<close>

lemma executor_loop_spec:
  assumes "executor_loop gs registry by_id = Inr x"
  shows "registrable (map tg_definition gs) registry
    \<and> map_of (registrations x) = map_of by_id ++ map_of (map (\<lambda>g. (td_id (tg_definition g), g)) gs)"
  using assms
proof (induction gs arbitrary: registry by_id)
  case (Cons g gs)
  let ?d = "tg_definition g"
  have reg: "registrable [?d] registry" using Cons.prems by (auto simp: register_cases split: if_splits)
  then obtain registry' where r: "register ?d registry = (Inr (), registry')" by (simp add: register_cases)
  then have l: "executor_loop gs registry' (btree_insert (td_id ?d) g by_id) = Inr x" using Cons.prems by simp
  note IH = conjunct1 [OF Cons.IH [OF l]] conjunct2 [OF Cons.IH [OF l], unfolded btree_insert_get]
  have all: "registrable (?d # map tg_definition gs) registry" using registrable_Cons reg r IH(1) by (metis snd_conv)
  let ?m = "map_of (map (\<lambda>g. (td_id (tg_definition g), g)) gs)"
  have "td_id ?d \<notin> td_id ` set (map tg_definition gs)" using all unfolding registrable_def by (simp add: image_image)
  moreover have "dom ?m = td_id ` set (map tg_definition gs)" by (simp add: dom_map_of_conv_image_fst image_image)
  ultimately have "(map_of by_id)(td_id ?d \<mapsto> g) ++ ?m = map_of by_id ++ (?m(td_id ?d \<mapsto> g))" by (simp add: map_add_upd_left)
  moreover have "map_of (map (\<lambda>g. (td_id (tg_definition g), g)) (g # gs)) = ?m(td_id ?d \<mapsto> g)" by simp
  ultimately have "map_of (registrations x) = map_of by_id ++ map_of (map (\<lambda>g. (td_id (tg_definition g), g)) (g # gs))"
    using IH(2) by argo
  then show ?case using all by (simp only: list.map)
qed (auto simp: registrable_def)

theorem execute_spec:
  assumes "ToolExecutor_new gs = Inr x" "execute to_vec store x i already_cancelled ended = Inr out"
  shows "list_all (\<lambda>g. validate_definition (tg_definition g) = Inr ()) gs \<and> distinct (map (td_id \<circ> tg_definition) gs)
    \<and> \<not> already_cancelled
    \<and> (\<exists>g v. g \<in> set gs \<and> td_id (tg_definition g) = i \<and> ended (tg_handler g) = HandlerEnded (Returned (Inr v))
         \<and> bound_output to_vec store v = Inr out)"
proof -
  have spec: "registrable (map tg_definition gs) ToolRegistry_new"
    "map_of (registrations x) = map_of (map (\<lambda>g. (td_id (tg_definition g), g)) gs)"
    using executor_loop_spec assms(1) unfolding ToolExecutor_new_def by fastforce+
  obtain g where g: "map_of (registrations x) i = Some g" "\<not> already_cancelled"
    and e: "(case ended (tg_handler g) of HandlerEnded h \<Rightarrow> rbind (run_handler h) (bound_output to_vec store)
             | TimedOut \<Rightarrow> Inl (ToolError_new (str ''tool_timeout'') (str ''tool '' @ td_id (tg_definition g) @ str '' exceeded its timeout''))
             | CancelSeen \<Rightarrow> Inl ToolError_cancelled) = Inr out"
    using assms(2) by (auto simp: execute_def split: option.splits if_splits)
  obtain v where v: "ended (tg_handler g) = HandlerEnded (Returned (Inr v))" "bound_output to_vec store v = Inr out"
    using e by (cases "ended (tg_handler g)") (auto simp: rbind_Inr elim: run_handler.elims)
  have "g \<in> set gs \<and> td_id (tg_definition g) = i" using g(1) spec(2) by (auto dest: map_of_SomeD)
  then show ?thesis using spec(1) g(2) v by (auto simp: registrable_def list_all_iff comp_def)
qed

definition sample_registration :: "unit ToolRegistration" where
  "sample_registration = \<lparr>tg_definition = sample_tool ''a'', tg_handler = ()\<rparr>"

theorem execute_spec_witness:
  "\<exists>x out. ToolExecutor_new [sample_registration] = Inr x
     \<and> execute (\<lambda>_. Inr []) undefined x (str ''a'') False (\<lambda>_. HandlerEnded (Returned (Inr JNull))) = Inr out
     \<and> bound_output (\<lambda>_. Inr []) undefined JNull = Inr out"
proof -
  obtain x :: "unit ToolExecutor" where x: "ToolExecutor_new [sample_registration] = Inr x" "map_of (registrations x) (str ''a'') = Some sample_registration"
    using sample_registrable by (simp add: ToolExecutor_new_def sample_registration_def register_cases sample_tool_def)
  obtain out where o: "execute (\<lambda>_. Inr []) undefined x (str ''a'') False (\<lambda>_. HandlerEnded (Returned (Inr JNull))) = Inr out"
    using x(2) by (simp add: execute_def bound_output_def Let_def)
  show ?thesis using execute_spec [OF x(1) o] x(1) o by auto
qed

section \<open>The gates\<close>

text \<open>C25. Mutual exclusion of tool calls, in every reachable state of the gates, whatever the interleaving of starts, lock
  acquisitions, returns, timeouts and cancellations: while an exclusive tool runs no other tool runs, and two serial-write
  tools never run at the same time.\<close>

theorem tool_calls_exclusion:
  assumes "gates_reachable g" "i < length (calls g)" "j < length (calls g)" "i \<noteq> j"
    and "calls g ! i = (p, InHandler)" "calls g ! j = (q, InHandler)"
  shows "p \<noteq> Exclusive \<and> \<not> (p = SerialWrite \<and> q = SerialWrite)"
proof -
  have ok: "gates_ok g" using reachable_ok [OF assms(1)] .
  have "p \<noteq> Exclusive"
  proof
    assume p: "p = Exclusive"
    then have w: "exclusive_writer g" using holding_gate(1) [OF ok assms(2)] assms(5) by (simp add: holds_defs)
    then have "exclusive_readers g = 0" using ok unfolding gates_ok_def by blast
    then have "q = Exclusive" using holding_readers [OF ok assms(3)] assms(6) by auto
    then have "2 \<le> holders holds_exclusive (calls g)" using holders_two [OF assms(2-4)] assms(5,6) p by (simp add: holds_defs)
    then show False using ok w by (simp add: gates_ok_def)
  qed
  moreover have "\<not> (p = SerialWrite \<and> q = SerialWrite)"
  proof
    assume "p = SerialWrite \<and> q = SerialWrite"
    then have "2 \<le> holders holds_write (calls g)" using holders_two [OF assms(2-4)] assms(5,6) by (simp add: holds_defs)
    then show False using ok by (cases "write_locked g") (simp_all add: gates_ok_def)
  qed
  ultimately show ?thesis by blast
qed

text \<open>Two parallel reads in their handlers.\<close>

definition two_readers :: gates where
  "two_readers = \<lparr>exclusive_readers = 2, exclusive_writer = False, write_locked = False,
     calls = [(ParallelRead, InHandler), (ParallelRead, InHandler)]\<rparr>"

lemma two_readers_reachable: "gates_reachable two_readers"
proof -
  let ?g = "\<lambda>n cs. \<lparr>exclusive_readers = n, exclusive_writer = False, write_locked = False, calls = cs\<rparr>"
  let ?w = "(ParallelRead, Waiting)" and ?h = "(ParallelRead, InHandler)"
  have "gate_step (?g 0 []) (?g 0 [?w])" using gate_step.start [of "?g 0 []" ParallelRead] by simp
  moreover have "gate_step (?g 0 [?w]) (?g 0 [?w, ?w])" using gate_step.start [of "?g 0 [?w]" ParallelRead] by simp
  moreover have "gate_step (?g 0 [?w, ?w]) (?g 1 [?h, ?w])" using gate_step.shared [of 0 "?g 0 [?w, ?w]" ParallelRead] by simp
  moreover have "gate_step (?g 1 [?h, ?w]) (?g 2 [?h, ?h])" using gate_step.shared [of 1 "?g 1 [?h, ?w]" ParallelRead] by (simp add: numeral_2_eq_2)
  ultimately show ?thesis using gates_reachable.intros unfolding gates_new_def two_readers_def by metis
qed

theorem tool_calls_exclusion_witness:
  "calls two_readers ! 0 = (ParallelRead, InHandler) \<and> calls two_readers ! 1 = (ParallelRead, InHandler) \<and> ParallelRead \<noteq> Exclusive"
  using tool_calls_exclusion [OF two_readers_reachable, of 0 1 ParallelRead ParallelRead] by (simp add: two_readers_def)

text \<open>The gates never block for good: in every reachable state in which some call waits for a gate and no handler is
  running, a step is possible by which a waiting call takes its next gate.\<close>

theorem tool_calls_progress:
  assumes "gates_reachable g" "i < length (calls g)" "snd (calls g ! i) \<in> {Waiting, SharedHeld}"
    and "\<forall>c \<in> set (calls g). snd c \<noteq> InHandler"
  shows "\<exists>j h. gate_step g h \<and> j < length (calls g) \<and> snd (calls g ! j) \<in> {Waiting, SharedHeld}
     \<and> calls h ! j \<noteq> calls g ! j \<and> snd (calls h ! j) \<noteq> Left"
  by (rule gates_progress [OF reachable_ok [OF assms(1)] assms(2-4)])

theorem tool_calls_progress_witness:
  "\<exists>h. gate_step (gates_new\<lparr>calls := [(Exclusive, Waiting)]\<rparr>) h \<and> calls h ! 0 \<noteq> (Exclusive, Waiting)"
proof -
  have "gates_reachable (gates_new\<lparr>calls := [(Exclusive, Waiting)]\<rparr>)"
    using gates_reachable.step [OF gates_reachable.init gate_step.start [of gates_new Exclusive]] by (simp add: gates_new_def)
  then show ?thesis using tool_calls_progress [of "gates_new\<lparr>calls := [(Exclusive, Waiting)]\<rparr>" 0] by auto
qed

section \<open>Permissions\<close>

text \<open>C24. If, after any sequence of policy operations on a fresh policy, a request is allowed automatically, then no deny rule
  matches it, a dangerous request is allowed only while dangerous tools are enabled, and unless the tool is an automatic,
  read-only one there is a consent in force for it: the user allowed a request whose rule matches this one, or such a rule was
  loaded from storage, and since then the rule was not revoked, consent for one call was not used, neither that nor consent for
  the session saw the session end, and persistent consent was not replaced by loading the stored rules again.\<close>

theorem no_execution_without_consent:
  assumes "evaluate_request req (foldl policy_step PermissionPolicy_new ops) = (AllowAutomatic, p')"
  shows "(\<forall>rule \<in> set (all_rules (foldl policy_step PermissionPolicy_new ops)). ru_effect rule = RuleDeny \<longrightarrow> \<not> rule_matches rule req)
    \<and> (pr_risk req = Dangerous \<longrightarrow> dangerous_enabled (foldl policy_step PermissionPolicy_new ops))
    \<and> (pr_risk req = Automatic \<and> pr_read_only req
       \<or> (\<exists>rule k. rule_matches rule req \<and> ru_effect rule = RuleAllow \<and> in_force k rule (history PermissionPolicy_new ops)))"
proof -
  let ?p = "foldl policy_step PermissionPolicy_new ops"
  have d: "find_rule ?p req RuleDeny = None" and r: "pr_risk req = Dangerous \<longrightarrow> dangerous_enabled ?p"
    and a: "(\<exists>rule. find_rule ?p req RuleAllow = Some rule) \<or> pr_risk req = Automatic \<and> pr_read_only req"
    using assms by (auto simp: evaluate_request_def is_read_only_def split: option.splits if_splits)
  show ?thesis using d r a find_rule_Some [of ?p req RuleAllow] run_consented [of _ ops] unfolding find_rule_None by metis
qed

definition sample_request :: PermissionRequest where
  "sample_request = \<lparr>pr_permission_id = [], pr_tool_id = str ''a'', pr_tool_version = \<lparr>tv_major = 1, tv_minor = 0, tv_patch = 0\<rparr>,
     pr_source = Builtin, pr_action = Execute, pr_risk = ConfirmationRequired, pr_read_only = False, pr_arguments = JNull\<rparr>"

text \<open>A session ends and the user allows the request again.\<close>

definition sample_ops :: "policy_op list" where
  "sample_ops = [OpResolve [1] sample_request AllowSession (Exact JNull), OpClearSession, OpResolve [2] sample_request AllowOnce (Exact JNull)]"

theorem no_execution_without_consent_witness:
  "\<exists>rule k. rule_matches rule sample_request \<and> in_force k rule (history PermissionPolicy_new sample_ops)"
proof -
  obtain p' where "evaluate_request sample_request (foldl policy_step PermissionPolicy_new sample_ops) = (AllowAutomatic, p')"
    by (simp add: sample_ops_def evaluate_request_def PermissionPolicy_new_def resolve_with_scope_def clear_session_def find_rule_def all_rules_def
        for_request_def rule_matches_def sample_request_def)
  from no_execution_without_consent [OF this] show ?thesis by (auto simp: sample_request_def)
qed

text \<open>A decision for one call is used once: after the user allows a request once (or denies it), on a policy with no
  rule for the request, the next evaluation of the same request returns that decision and leaves the policy exactly as it
  was before the decision.\<close>

theorem once_decision_is_consumed:
  assumes "find_rule p req RuleDeny = None" "find_rule p req RuleAllow = None" "fresh \<notin> ru_id ` set (once_rules p)"
    and "pr_risk req = Dangerous \<longrightarrow> dangerous_enabled p"
  shows "evaluate_request req (snd (resolve fresh req AllowOnce p)) = (AllowAutomatic, p)
    \<and> evaluate_request req (snd (resolve fresh req Deny p)) = (PolicyDeny (ExplicitRule fresh), p)"
proof -
  let ?rule = "for_request fresh req (Exact (pr_arguments req))"
  let ?after = "\<lambda>eff. p\<lparr>once_rules := once_rules p @ [?rule eff]\<rparr>"
  have id: "ru_id (?rule eff) = fresh" "ru_effect (?rule eff) = eff" for eff by (simp_all add: for_request_def)
  have r: "snd (resolve fresh req AllowOnce p) = ?after RuleAllow" "snd (resolve fresh req Deny p) = ?after RuleDeny"
    by (simp_all add: resolve_def resolve_with_scope_def)
  have a: "find_rule (?after RuleAllow) req RuleAllow = Some (?rule RuleAllow)"
    "find_rule (?after RuleAllow) req RuleDeny = None" "find_rule (?after RuleDeny) req RuleDeny = Some (?rule RuleDeny)"
    using once_rule_found [OF _ assms(2) _ _ refl] once_rule_found [OF _ assms(1) _ _ refl]
      once_rule_other [of "?rule RuleAllow" RuleDeny _ p req] id assms(1) by simp_all
  have "consume_once fresh (?after eff) = p" for eff by (rule consume_new [OF assms(3) id(1)])
  then show ?thesis unfolding r using a assms(4) id by (auto simp: evaluate_request_def)
qed

theorem once_decision_is_consumed_witness:
  "evaluate_request sample_request (snd (resolve [1] sample_request AllowOnce PermissionPolicy_new)) = (AllowAutomatic, PermissionPolicy_new)"
  using once_decision_is_consumed [of PermissionPolicy_new sample_request "[1]"]
  by (simp add: find_rule_def all_rules_def PermissionPolicy_new_def sample_request_def)

end
