(* ===== verification/Chat_Budget.thy ===== *)
theory Chat_Budget
  imports Context_Budget Chat_Message
begin

text \<open>
  The provider-facing view of a conversation (\<open>agent/loop_helpers.rs\<close>, \<open>budget_chat_messages\<close>): which messages of the
  history are sent to the model under its input limit.  The serialised tool payload is an argument.  Sums of token
  estimates are natural numbers (the code's \<open>usize\<close> sums do not overflow for a history that fits in memory).
\<close>

definition role_system :: rstr where "role_system = str ''system''"
definition role_tool :: rstr where "role_tool = str ''tool''"
definition role_assistant :: rstr where "role_assistant = str ''assistant''"

lemma roles_distinct [simp]:
  "role_system \<noteq> role_tool" "role_tool \<noteq> role_system" "role_system \<noteq> role_assistant" "role_assistant \<noteq> role_system"
  "role_tool \<noteq> role_assistant" "role_assistant \<noteq> role_tool"
  by (simp_all add: role_system_def role_tool_def role_assistant_def)

definition sat_mul :: "nat \<Rightarrow> nat \<Rightarrow> nat" where
  "sat_mul a b = min (a * b) usize_max"

text \<open>The text after the content, and the whole text of a message.\<close>

definition message_suffix :: "chat_message \<Rightarrow> rstr" where
  "message_suffix m = (case cm_reasoning_content m of None \<Rightarrow> [] | Some r \<Rightarrow> r)
     @ concat (map (\<lambda>c. ct_id c @ ct_name c @ ct_arguments c) (cm_tool_calls m))
     @ (case cm_tool_call_id m of None \<Rightarrow> [] | Some i \<Rightarrow> i)"

definition estimate_chat_message_tokens :: "chat_message \<Rightarrow> nat" where
  "estimate_chat_message_tokens m =
     sat_add (sat_add (sat_add (estimate_tokens (cm_role m @ cm_content m @ message_suffix m)) 16)
       (sat_mul (length (cm_tool_calls m)) 32)) (sat_mul (length (cm_images m)) 4096)"

abbreviation chat_tokens :: "chat_message list \<Rightarrow> nat" where
  "chat_tokens ms \<equiv> \<Sum>m \<leftarrow> ms. estimate_chat_message_tokens m"

fun back_tools :: "chat_message list \<Rightarrow> nat \<Rightarrow> nat" where
  "back_tools ms 0 = 0"
| "back_tools ms (Suc n) = (if cm_role (ms ! n) = role_tool then back_tools ms n else Suc n)"

definition calls_tools :: "chat_message \<Rightarrow> bool" where
  "calls_tools m \<longleftrightarrow> cm_role m = role_assistant \<and> cm_tool_calls m \<noteq> []"

definition message_block_start :: "chat_message list \<Rightarrow> nat \<Rightarrow> nat" where
  "message_block_start ms e =
     (let start = e - 1 in
      if cm_role (ms ! start) = role_tool then
        (let start = back_tools ms start in
         if 0 < start \<and> calls_tools (ms ! (start - 1)) then start - 1 else start)
      else start)"

definition block_is_tool_call_block :: "chat_message list \<Rightarrow> bool" where
  "block_is_tool_call_block block = list_ex (\<lambda>m. cm_role m = role_tool \<or> calls_tools m) block"

section \<open>Compacting a tool block\<close>

definition TRUNCATION_MARKER :: rstr where
  "TRUNCATION_MARKER = 10 # str ''[tool output truncated to fit context budget]''"

function trim_preview :: "chat_message \<Rightarrow> rstr \<Rightarrow> nat \<Rightarrow> chat_message option" where
  "trim_preview m preview remaining =
     (let compact = m\<lparr>cm_content := preview @ TRUNCATION_MARKER\<rparr> in
      if remaining < estimate_chat_message_tokens compact then
        (if estimate_tokens preview = 0 then None
         else trim_preview m (truncate_to_tokens preview (estimate_tokens preview - 1)) remaining)
      else Some compact)"
  by pat_completeness auto

lemma truncate_shrinks: "0 < estimate_tokens s \<Longrightarrow> estimate_tokens (truncate_to_tokens s (estimate_tokens s - Suc 0)) < estimate_tokens s"
  using truncate_bound [of s "estimate_tokens s - 1"] by simp

termination trim_preview
  by (relation "measure (\<lambda>(m, preview, remaining). estimate_tokens preview)") (auto intro: truncate_shrinks)

declare trim_preview.simps [simp del]

definition compact_message :: "chat_message \<Rightarrow> nat \<Rightarrow> chat_message option" where
  "compact_message m remaining =
     (if cm_role m = role_tool \<and> remaining < estimate_chat_message_tokens m then
        (let empty = m\<lparr>cm_content := []\<rparr>; overhead = estimate_chat_message_tokens empty;
             marker_tokens = estimate_tokens TRUNCATION_MARKER in
         if remaining \<le> overhead then None
         else if remaining \<le> sat_add overhead marker_tokens then None
         else trim_preview empty (truncate_to_tokens (cm_content m) (remaining - overhead - marker_tokens)) remaining)
      else Some m)"

fun compact_tool_block :: "chat_message list \<Rightarrow> nat \<Rightarrow> chat_message list option" where
  "compact_tool_block [] remaining = Some []"
| "compact_tool_block (m # ms) remaining =
     (case compact_message m remaining of
        None \<Rightarrow> None
      | Some compact \<Rightarrow>
          (let cost = estimate_chat_message_tokens compact in
           if remaining < cost then None
           else map_option ((#) compact) (compact_tool_block ms (remaining - cost))))"

section \<open>Selecting messages\<close>

type_synonym selection = "(nat \<times> chat_message) list"

fun select_system :: "nat \<Rightarrow> nat \<Rightarrow> chat_message list \<Rightarrow> nat \<Rightarrow> selection \<Rightarrow> (ContextBudgetError, selection \<times> nat) result" where
  "select_system limit i [] remaining selected = Inr (selected, remaining)"
| "select_system limit i (m # ms) remaining selected =
     (if cm_role m = role_system then
        (let cost = estimate_chat_message_tokens m in
         if remaining < cost then Inl (MessageBlockExceedsLimit cost limit)
         else select_system limit (Suc i) ms (remaining - cost) (selected @ [(i, m)]))
      else select_system limit (Suc i) ms remaining selected)"

lemma back_tools_le: "back_tools ms n \<le> n"
  by (induction ms n rule: back_tools.induct) auto

lemma message_block_start_less: "0 < e \<Longrightarrow> message_block_start ms e < e"
  using back_tools_le [of ms "e - 1"] by (auto simp: message_block_start_def Let_def)

function select_blocks ::
  "chat_message list \<Rightarrow> nat \<Rightarrow> nat \<Rightarrow> nat \<Rightarrow> selection \<Rightarrow> (ContextBudgetError, selection) result" where
  "select_blocks ms limit e remaining selected =
     (if e = 0 then Inr selected
      else
        (let start = message_block_start ms e; block = drop start (take e ms) in
         if list_all (\<lambda>m. cm_role m = role_system) block then select_blocks ms limit start remaining selected
         else
           (let cost = chat_tokens block in
            if cost \<le> remaining then
              select_blocks ms limit start (remaining - cost)
                (selected @ filter (\<lambda>x. fst x \<notin> fst ` set selected) (zip [start..<e] block))
            else if e = length ms \<and> block_is_tool_call_block block \<or> selected = [] \<or> e = length ms \<and> \<not> block_is_tool_call_block block then
              (if block_is_tool_call_block block then
                 (case compact_tool_block block remaining of
                    None \<Rightarrow> Inl (MessageBlockExceedsLimit cost limit)
                  | Some compacted \<Rightarrow>
                      select_blocks ms limit start (remaining - chat_tokens compacted) (selected @ zip [start..<e] compacted))
               else if remaining = 0 then Inl (MessageBlockExceedsLimit cost limit)
               else
                 (let m = (ms ! (e - 1))\<lparr>cm_content := []\<rparr>; overhead = estimate_chat_message_tokens m in
                  if remaining \<le> overhead then Inl (MessageBlockExceedsLimit cost limit)
                  else Inr (selected @
                    [(e - 1, m\<lparr>cm_content := truncate_to_tokens (cm_content (ms ! (e - 1))) (remaining - overhead)\<rparr>)])))
            else select_blocks ms limit start remaining selected)))"
  by pat_completeness auto

termination select_blocks
  by (relation "measure (\<lambda>(ms, limit, e, remaining, selected). e)") (auto intro: message_block_start_less)

declare select_blocks.simps [simp del]

definition budget_chat_messages ::
  "chat_message list \<Rightarrow> nat option \<Rightarrow> nat \<Rightarrow> nat \<Rightarrow> rstr option \<Rightarrow> (ContextBudgetError, chat_message list) result" where
  "budget_chat_messages ms model_limit output_reservation reasoning_reservation tools =
     (let model_limit = (case model_limit of None \<Rightarrow> DEFAULT_MODEL_LIMIT | Some l \<Rightarrow> l);
          completion = sat_add output_reservation reasoning_reservation in
      if model_limit < completion
      then Inl (CompletionReservationExceedsModelLimit output_reservation reasoning_reservation model_limit)
      else
        (let input_limit = model_limit - completion;
             tool_tokens = (case tools of None \<Rightarrow> 0 | Some t \<Rightarrow> estimate_tokens t) in
         if input_limit < tool_tokens then Inl (ToolSchemaExceedsLimit tool_tokens input_limit model_limit)
         else
           (let message_limit = input_limit - tool_tokens in
            if chat_tokens ms \<le> message_limit then Inr ms
            else
              rbind (select_system message_limit 0 ms message_limit []) (\<lambda>(selected, remaining).
              rbind (select_blocks ms message_limit (length ms) remaining selected) (\<lambda>selected.
              Inr (map snd (sort_by (\<lambda>x y. fst x \<le> fst y) selected)))))))"

section \<open>The token estimate of a concatenation\<close>

text \<open>The estimate without saturation, from a run of \<open>r\<close> word characters; only \<open>r\<close> modulo three matters.\<close>

fun raw_tokens :: "nat \<Rightarrow> rstr \<Rightarrow> nat" where
  "raw_tokens r [] = 0"
| "raw_tokens r (c # cs) = (case next_token_cost c r of (k, r') \<Rightarrow> k + raw_tokens r' cs)"

fun run_after :: "nat \<Rightarrow> rstr \<Rightarrow> nat" where
  "run_after r [] = r"
| "run_after r (c # cs) = run_after (snd (next_token_cost c r)) cs"

lemma token_loop_raw: "t \<le> usize_max \<Longrightarrow> token_loop t r s = min usize_max (t + raw_tokens r s)"
proof (induction s arbitrary: t r)
  case (Cons c s)
  obtain k r' where k: "next_token_cost c r = (k, r')" by fastforce
  have "sat_add t k \<le> usize_max" by (simp add: sat_add_min)
  then have "token_loop (sat_add t k) r' s = min usize_max (sat_add t k + raw_tokens r' s)" by (rule Cons.IH)
  then show ?case using k by (simp add: sat_add_min)
qed simp

lemma estimate_raw: "estimate_tokens s = min usize_max (raw_tokens 0 s)"
  by (simp add: estimate_tokens_def token_loop_raw)

lemma raw_tokens_append: "raw_tokens r (s @ t) = raw_tokens r s + raw_tokens (run_after r s) t"
  by (induction s arbitrary: r) (auto split: prod.split)

lemma run_after_bound: "run_after r s \<le> r + length s"
proof (induction s arbitrary: r)
  case (Cons c s)
  have "snd (next_token_cost c r) \<le> Suc r" by (simp add: next_token_cost_def sat_add_min)
  then show ?case using Cons.IH [of "snd (next_token_cost c r)"] by simp
qed simp

abbreviation free_chars :: "nat \<Rightarrow> nat" where
  "free_chars r \<equiv> (2 * r) mod 3"

lemma mod3_cases: "r mod 3 = 0 \<and> free_chars r = 0 \<and> free_chars (Suc r) = 2
    \<or> r mod 3 \<noteq> 0 \<and> 0 < free_chars r \<and> free_chars (Suc r) = free_chars r - 1"
  by presburger

text \<open>With more free characters in the current token the rest of a text costs less, but by at most one token.\<close>

lemma raw_tokens_free:
  "r + length s \<le> usize_max \<Longrightarrow> q + length s \<le> usize_max \<Longrightarrow> free_chars q \<le> free_chars r \<Longrightarrow>
     raw_tokens r s \<le> raw_tokens q s \<and> raw_tokens q s \<le> raw_tokens r s + 1"
proof (induction s arbitrary: r q)
  case (Cons c s)
  show ?case
  proof (cases "is_ascii_alphanumeric c \<or> c = 95")
    case True
    have n: "next_token_cost c x = ((if x mod 3 = 0 then 1 else 0), Suc x)" if "x + length (c # s) \<le> usize_max" for x
      using True that by (simp add: next_token_cost_def ASCII_CHARS_PER_TOKEN_def sat_add_min)
    have l: "Suc r + length s \<le> usize_max" "Suc q + length s \<le> usize_max" using Cons.prems by simp_all
    have cost: "raw_tokens x (c # s) = of_bool (x mod 3 = 0) + raw_tokens (Suc x) s" if "x + length (c # s) \<le> usize_max" for x
      using n [OF that] by simp
    consider "free_chars q = free_chars r" | "free_chars q < free_chars r" "free_chars q = 0" | "free_chars q < free_chars r" "0 < free_chars q"
      using Cons.prems(3) by linarith
    then show ?thesis
    proof cases
      case 1
      then have "free_chars (Suc q) = free_chars (Suc r)" "(q mod 3 = 0) = (r mod 3 = 0)"
        using mod3_cases [of q] mod3_cases [of r] by auto
      then show ?thesis using Cons.IH [OF l] cost [OF Cons.prems(1)] cost [OF Cons.prems(2)] by simp
    next
      case 2
      then have "free_chars (Suc r) \<le> free_chars (Suc q)" "q mod 3 = 0" "r mod 3 \<noteq> 0"
        using mod3_cases [of q] mod3_cases [of r] by auto
      then show ?thesis using Cons.IH [OF l(2,1)] cost [OF Cons.prems(1)] cost [OF Cons.prems(2)] by simp
    next
      case 3
      then have "free_chars (Suc q) \<le> free_chars (Suc r)" "q mod 3 \<noteq> 0" "r mod 3 \<noteq> 0"
        using mod3_cases [of q] mod3_cases [of r] by auto
      then show ?thesis using Cons.IH [OF l] cost [OF Cons.prems(1)] cost [OF Cons.prems(2)] by simp
    qed
  qed (use Cons in \<open>simp add: next_token_cost_def\<close>)
qed simp

lemma raw_tokens_from_run: "r + length s \<le> usize_max \<Longrightarrow> raw_tokens r s \<le> raw_tokens 0 s"
  using raw_tokens_free [of r s 0] by simp

text \<open>Inserting a text after a prefix that ends at a token boundary, or at the end of the text.\<close>

lemma estimate_insert:
  assumes "length (a @ c @ b) \<le> usize_max" and "run_after 0 a mod 3 = 0 \<or> b = []"
  shows "estimate_tokens (a @ c @ b) \<le> estimate_tokens (a @ b) + estimate_tokens c"
proof -
  let ?r = "run_after 0 a"
  have r: "?r + length (c @ b) \<le> usize_max" using run_after_bound [of 0 a] assms(1) by simp
  have c: "raw_tokens ?r c \<le> raw_tokens 0 c" using raw_tokens_from_run r by simp
  have b: "raw_tokens (run_after ?r c) b \<le> raw_tokens ?r b"
  proof (cases "b = []")
    case False
    then have z: "?r mod 3 = 0" using assms(2) by blast
    have "run_after ?r c + length b \<le> usize_max" using run_after_bound [of ?r c] r by simp
    moreover have "free_chars ?r \<le> free_chars (run_after ?r c)" using z by presburger
    ultimately show ?thesis using raw_tokens_free [of "run_after ?r c" b ?r] r by simp
  qed simp
  have "raw_tokens 0 (a @ c @ b) \<le> raw_tokens 0 (a @ b) + raw_tokens 0 c"
    using c b by (simp add: raw_tokens_append)
  then show ?thesis unfolding estimate_raw by linarith
qed

section \<open>Estimates of messages\<close>

text \<open>The messages the program builds: tool results, assistant messages, and messages with no text after their content.\<close>

definition built_message :: "chat_message \<Rightarrow> bool" where
  "built_message m \<longleftrightarrow> (cm_role m = role_tool \<or> cm_role m = role_assistant \<or> message_suffix m = [])
     \<and> length (cm_role m @ cm_content m @ message_suffix m) \<le> usize_max"

lemma suffix_content [simp]: "message_suffix (m\<lparr>cm_content := c\<rparr>) = message_suffix m"
  by (simp add: message_suffix_def)

lemma assistant_run: "run_after 0 role_assistant = 9"
  by (simp add: role_assistant_def str_def next_token_cost_def ascii_defs sat_add_min usize_max_def)

lemma estimate_with_content:
  assumes "built_message m" "prefix c (cm_content m)" "cm_role m \<noteq> role_tool"
  shows "estimate_chat_message_tokens (m\<lparr>cm_content := c\<rparr>) \<le> estimate_chat_message_tokens (m\<lparr>cm_content := []\<rparr>) + estimate_tokens c"
proof -
  have "length c \<le> length (cm_content m)" using assms(2) by (rule prefix_length_le)
  then have "length (cm_role m @ c @ message_suffix m) \<le> usize_max" using assms(1) by (simp add: built_message_def)
  moreover have "run_after 0 (cm_role m) mod 3 = 0 \<or> message_suffix m = []"
    using assms(1,3) assistant_run by (auto simp: built_message_def)
  ultimately have "estimate_tokens (cm_role m @ c @ message_suffix m)
      \<le> estimate_tokens (cm_role m @ message_suffix m) + estimate_tokens c" by (rule estimate_insert)
  then show ?thesis by (simp add: estimate_chat_message_tokens_def sat_add_min)
qed

lemma trim_preview_Some: "trim_preview m p r = Some c \<Longrightarrow> estimate_chat_message_tokens c \<le> r \<and> (\<exists>x. c = m\<lparr>cm_content := x\<rparr>)"
proof (induction m p r rule: trim_preview.induct)
  case (1 m p r)
  show ?case
  proof (cases "r < estimate_chat_message_tokens (m\<lparr>cm_content := p @ TRUNCATION_MARKER\<rparr>)")
    case True
    then show ?thesis using 1 by (subst (asm) (2) trim_preview.simps) (auto simp: Let_def split: if_splits)
  next
    case False
    then show ?thesis using "1.prems" by (subst (asm) trim_preview.simps) (auto simp: Let_def)
  qed
qed

definition same_but_content :: "chat_message \<Rightarrow> chat_message \<Rightarrow> bool" where
  "same_but_content m c \<longleftrightarrow> (\<exists>x. c = m\<lparr>cm_content := x\<rparr>)"

lemma same_but_content_refl [simp]: "same_but_content m m"
  unfolding same_but_content_def by (rule exI [of _ "cm_content m"]) simp

lemma compact_message_Some: "compact_message m r = Some c \<Longrightarrow> same_but_content m c"
proof (cases "cm_role m = role_tool \<and> r < estimate_chat_message_tokens m")
  case True
  moreover assume "compact_message m r = Some c"
  ultimately obtain p where "trim_preview (m\<lparr>cm_content := []\<rparr>) p r = Some c"
    by (auto simp: compact_message_def Let_def split: if_splits)
  then show ?thesis using trim_preview_Some [of "m\<lparr>cm_content := []\<rparr>" p r c] by (auto simp: same_but_content_def)
qed (auto simp: compact_message_def)

lemma compact_tool_block_Some:
  "compact_tool_block ms r = Some out \<Longrightarrow> chat_tokens out \<le> r \<and> list_all2 same_but_content ms out"
proof (induction ms r arbitrary: out rule: compact_tool_block.induct)
  case (2 m ms r)
  then obtain c rest where c: "compact_message m r = Some c" "estimate_chat_message_tokens c \<le> r"
    and rest: "compact_tool_block ms (r - estimate_chat_message_tokens c) = Some rest" "out = c # rest"
    by (auto simp: Let_def split: option.splits if_splits)
  have "chat_tokens rest \<le> r - estimate_chat_message_tokens c \<and> list_all2 same_but_content ms rest"
    using "2.IH" [OF c(1) refl] c(2) rest(1) by simp
  then have "estimate_chat_message_tokens c + chat_tokens rest \<le> r" "list_all2 same_but_content ms rest" using c(2) by linarith+
  then show ?case using compact_message_Some [OF c(1)] rest(2) by simp
qed simp

section \<open>Blocks\<close>

text \<open>A tool result is glued to the message before it when that is a tool result or the assistant message that made the
  calls; blocks never separate glued messages.\<close>

abbreviation is_system :: "chat_message \<Rightarrow> bool" where
  "is_system m \<equiv> cm_role m = role_system"

definition glued :: "chat_message list \<Rightarrow> nat \<Rightarrow> bool" where
  "glued ms i \<longleftrightarrow> Suc i < length ms \<and> cm_role (ms ! Suc i) = role_tool \<and> (cm_role (ms ! i) = role_tool \<or> calls_tools (ms ! i))"

lemma back_tools_range: "back_tools ms n \<le> i \<Longrightarrow> i < n \<Longrightarrow> cm_role (ms ! i) = role_tool"
  by (induction ms n rule: back_tools.induct) (auto simp: less_Suc_eq split: if_splits)

lemma back_tools_stop: "0 < back_tools ms n \<Longrightarrow> cm_role (ms ! (back_tools ms n - 1)) \<noteq> role_tool"
  by (induction ms n rule: back_tools.induct) auto

lemma calls_tools_role: "calls_tools m \<Longrightarrow> cm_role m \<noteq> role_tool \<and> cm_role m \<noteq> role_system"
  by (auto simp: calls_tools_def)

lemma block_start_not_glued:
  assumes "0 < e" "0 < message_block_start ms e"
  shows "\<not> glued ms (message_block_start ms e - 1)"
proof -
  let ?s = "message_block_start ms e" and ?b = "back_tools ms (e - 1)"
  have s: "Suc (?s - 1) = ?s" using assms(2) by simp
  show ?thesis
  proof (cases "cm_role (ms ! (e - 1)) = role_tool")
    case False
    then have "?s = e - 1" by (simp add: message_block_start_def Let_def)
    then show ?thesis using False unfolding glued_def s by simp
  next
    case True
    show ?thesis
    proof (cases "0 < ?b \<and> calls_tools (ms ! (?b - 1))")
      case c: True
      then have "?s = ?b - 1" using True by (simp add: message_block_start_def Let_def)
      then show ?thesis using c calls_tools_role [of "ms ! (?b - 1)"] unfolding glued_def s by simp
    next
      case n: False
      then have "?s = ?b" using True by (auto simp: message_block_start_def Let_def)
      then show ?thesis using assms(2) n back_tools_stop [of ms "e - 1"] unfolding glued_def s by simp
    qed
  qed
qed

text \<open>A block is one message, or holds no system message.\<close>

lemma block_system:
  assumes "0 < e" "message_block_start ms e \<le> i" "i < e" "is_system (ms ! i)"
  shows "i = e - 1 \<and> message_block_start ms e = e - 1"
proof (cases "cm_role (ms ! (e - 1)) = role_tool")
  case False
  then have "message_block_start ms e = e - 1" by (simp add: message_block_start_def Let_def)
  then show ?thesis using assms by simp
next
  case True
  let ?b = "back_tools ms (e - 1)"
  have "cm_role (ms ! j) = role_tool" if "?b \<le> j" "j < e" for j
    using back_tools_range [of ms "e - 1" j] True that by (cases "j = e - 1") auto
  then have "i < ?b" using assms(3,4) roles_distinct(1) by (metis not_less)
  moreover have start: "message_block_start ms e = (if 0 < ?b \<and> calls_tools (ms ! (?b - 1)) then ?b - 1 else ?b)"
    using True by (simp add: message_block_start_def Let_def)
  ultimately have "calls_tools (ms ! (?b - 1))" "i = ?b - 1" using assms(2) by (simp_all split: if_splits)
  then show ?thesis using calls_tools_role assms(4) by blast
qed

section \<open>The invariant of the selection\<close>

abbreviation idx :: "selection \<Rightarrow> nat set" where
  "idx sel \<equiv> fst ` set sel"

text \<open>What holds of the selection itself: distinct positions, each message as in the history up to its content, contents
  changed only in the last block, every system message, the tokens within the limit.\<close>

definition entries_ok :: "chat_message list \<Rightarrow> selection \<Rightarrow> bool" where
  "entries_ok ms sel \<longleftrightarrow> distinct (map fst sel) \<and> (\<forall>(i, m) \<in> set sel. i < length ms \<and> same_but_content (ms ! i) m
       \<and> (m = ms ! i \<or> message_block_start ms (length ms) \<le> i))
     \<and> (\<forall>i < length ms. is_system (ms ! i) \<longrightarrow> (i, ms ! i) \<in> set sel)"

text \<open>What holds between the messages before position \<open>e\<close>, still to be visited, and those after it.\<close>

definition frontier_ok :: "chat_message list \<Rightarrow> nat \<Rightarrow> selection \<Rightarrow> bool" where
  "frontier_ok ms e sel \<longleftrightarrow> e \<le> length ms \<and> (\<forall>i < e. i \<in> idx sel \<longrightarrow> is_system (ms ! i))
     \<and> (\<forall>i. glued ms i \<and> e \<le> i \<longrightarrow> (i \<in> idx sel \<longleftrightarrow> Suc i \<in> idx sel))
     \<and> (0 < e \<longrightarrow> \<not> glued ms (e - 1))
     \<and> (e < length ms \<longrightarrow> length ms - 1 \<in> idx sel)"

definition selection_ok :: "chat_message list \<Rightarrow> nat \<Rightarrow> selection \<Rightarrow> bool" where
  "selection_ok ms limit sel \<longleftrightarrow> entries_ok ms sel \<and> chat_tokens (map snd sel) \<le> limit
     \<and> (\<forall>i. glued ms i \<longrightarrow> (i \<in> idx sel \<longleftrightarrow> Suc i \<in> idx sel)) \<and> (ms \<noteq> [] \<longrightarrow> length ms - 1 \<in> idx sel)"

lemma glued_not_system: "glued ms i \<Longrightarrow> \<not> is_system (ms ! i) \<and> \<not> is_system (ms ! Suc i)"
  by (auto simp: glued_def calls_tools_def)

lemma frontier_skip:
  assumes f: "frontier_ok ms e sel" and e: "0 < e" and l: "e < length ms \<or> length ms - 1 \<in> idx sel"
  shows "frontier_ok ms (message_block_start ms e) sel"
proof -
  let ?s = "message_block_start ms e"
  have s: "?s < e" using e by (rule message_block_start_less)
  have "i \<in> idx sel \<longleftrightarrow> Suc i \<in> idx sel" if g: "glued ms i" and i: "?s \<le> i" for i
  proof (cases "e \<le> i")
    case True
    then show ?thesis using f g unfolding frontier_ok_def by blast
  next
    case False
    moreover have "i \<noteq> e - 1" using f e g unfolding frontier_ok_def by blast
    ultimately have "i < e" "Suc i < e" using e by auto
    then show ?thesis using f glued_not_system [OF g] unfolding frontier_ok_def by blast
  qed
  moreover have "length ms - 1 \<in> idx sel" using f l unfolding frontier_ok_def by blast
  moreover have "0 < ?s \<longrightarrow> \<not> glued ms (?s - 1)" using block_start_not_glued [OF e] by blast
  ultimately show ?thesis using f s unfolding frontier_ok_def by (meson le_trans less_imp_le order.strict_trans)
qed

lemma zip_block:
  assumes "s \<le> e" "e \<le> length ms" "list_all2 same_but_content (drop s (take e ms)) new"
  shows "idx (zip [s..<e] new) = {s..<e}" "map snd (zip [s..<e] new) = new" "map fst (zip [s..<e] new) = [s..<e]"
    "\<forall>(i, m) \<in> set (zip [s..<e] new). i < length ms \<and> same_but_content (ms ! i) m"
proof -
  have len: "length new = e - s" using assms list_all2_lengthD [OF assms(3)] by simp
  then show f: "map fst (zip [s..<e] new) = [s..<e]" "map snd (zip [s..<e] new) = new" by simp_all
  show "idx (zip [s..<e] new) = {s..<e}" using f(1) by (metis list.set_map set_upt)
  show "\<forall>(i, m) \<in> set (zip [s..<e] new). i < length ms \<and> same_but_content (ms ! i) m"
    using assms len by (auto simp: in_set_zip list_all2_conv_all_nth)
qed

lemma frontier_take:
  assumes f: "frontier_ok ms e sel" and e: "0 < e"
    and new: "list_all2 same_but_content (drop (message_block_start ms e) (take e ms)) new"
  shows "frontier_ok ms (message_block_start ms e) (sel @ zip [message_block_start ms e..<e] new)"
proof -
  let ?s = "message_block_start ms e"
  have s: "?s < e" using e by (rule message_block_start_less)
  have el: "e \<le> length ms" using f by (simp add: frontier_ok_def)
  have idx: "idx (sel @ zip [?s..<e] new) = idx sel \<union> {?s..<e}" using zip_block(1) [OF less_imp_le [OF s] el new] by auto
  have "i \<in> idx sel \<union> {?s..<e} \<longleftrightarrow> Suc i \<in> idx sel \<union> {?s..<e}" if g: "glued ms i" and i: "?s \<le> i" for i
  proof (cases "e \<le> i")
    case True
    then show ?thesis using f g unfolding frontier_ok_def by auto
  next
    case False
    moreover have "i \<noteq> e - 1" using f e g unfolding frontier_ok_def by blast
    ultimately show ?thesis using i by auto
  qed
  moreover have "length ms - 1 \<in> idx sel \<union> {?s..<e}"
    using f s el unfolding frontier_ok_def by (cases "e = length ms") auto
  moreover have "0 < ?s \<longrightarrow> \<not> glued ms (?s - 1)" using block_start_not_glued [OF e] by blast
  moreover have "\<forall>i < ?s. i \<in> idx sel \<union> {?s..<e} \<longrightarrow> is_system (ms ! i)" using f s unfolding frontier_ok_def by auto
  ultimately show ?thesis using s el unfolding frontier_ok_def idx by simp
qed

lemma entries_take:
  assumes ok: "entries_ok ms sel" and f: "frontier_ok ms e sel" and e: "0 < e"
    and new: "list_all2 same_but_content (drop (message_block_start ms e) (take e ms)) new"
    and ns: "\<forall>i. message_block_start ms e \<le> i \<and> i < e \<longrightarrow> \<not> is_system (ms ! i)"
    and same: "new = drop (message_block_start ms e) (take e ms) \<or> e = length ms"
  shows "entries_ok ms (sel @ zip [message_block_start ms e..<e] new)"
proof -
  let ?s = "message_block_start ms e"
  have s: "?s \<le> e" using message_block_start_less [OF e, of ms] by simp
  have el: "e \<le> length ms" using f by (simp add: frontier_ok_def)
  note z = zip_block [OF s el new]
  have "i \<notin> {?s..<e}" if "i \<in> idx sel" for i using f ns that unfolding frontier_ok_def by (metis atLeastLessThan_iff)
  then have "idx sel \<inter> {?s..<e} = {}" by blast
  then have "distinct (map fst (sel @ zip [?s..<e] new))" using ok z(3) by (simp add: entries_ok_def)
  moreover have "m = ms ! i \<or> message_block_start ms (length ms) \<le> i" if "(i, m) \<in> set (zip [?s..<e] new)" for i m
    using same
  proof
    assume "new = drop ?s (take e ms)"
    then show ?thesis using that s el by (auto simp: in_set_zip)
  next
    assume "e = length ms"
    then show ?thesis using that by (auto dest: set_zip_leftD)
  qed
  ultimately show ?thesis using ok z(4) unfolding entries_ok_def by auto
qed

lemma drop_take_last: "0 < e \<Longrightarrow> e \<le> length xs \<Longrightarrow> drop (e - 1) (take e xs) = [xs ! (e - 1)]"
  by (rule nth_equalityI) auto

lemma block_no_system:
  assumes "0 < e" "e \<le> length ms" "\<not> list_all is_system (drop (message_block_start ms e) (take e ms))"
  shows "\<forall>i. message_block_start ms e \<le> i \<and> i < e \<longrightarrow> \<not> is_system (ms ! i)"
proof (intro allI impI notI)
  fix i assume i: "message_block_start ms e \<le> i \<and> i < e" "is_system (ms ! i)"
  then have b: "i = e - 1" "message_block_start ms e = e - 1" using block_system [OF assms(1)] by blast+
  then have "drop (message_block_start ms e) (take e ms) = [ms ! i]"
    using drop_take_last [OF assms(1,2)] by simp
  then show False using i(2) assms(3) by simp
qed

lemma same_but_content_block [simp]: "list_all2 same_but_content ms ms"
  by (simp add: list_all2_same)

lemma finish_selection:
  assumes "entries_ok ms sel" "frontier_ok ms 0 sel" "chat_tokens (map snd sel) \<le> limit"
  shows "selection_ok ms limit sel"
  using assms by (auto simp: selection_ok_def frontier_ok_def)

text \<open>The truncated last message.\<close>

lemma last_message_ok:
  assumes ok: "entries_ok ms sel" and f: "frontier_ok ms (length ms) sel" and ne: "ms \<noteq> []"
    and ns: "\<forall>i. message_block_start ms (length ms) \<le> i \<and> i < length ms \<longrightarrow> \<not> is_system (ms ! i)"
    and single: "\<not> block_is_tool_call_block (drop (message_block_start ms (length ms)) ms)"
    and m: "same_but_content (ms ! (length ms - 1)) m" and tokens: "chat_tokens (map snd sel) + estimate_chat_message_tokens m \<le> limit"
  shows "selection_ok ms limit (sel @ [(length ms - 1, m)])"
proof -
  let ?n = "length ms" and ?s = "message_block_start ms (length ms)"
  have n: "0 < ?n" "?n - 1 < ?n" using ne by auto
  have s: "?s < ?n" using message_block_start_less n(1) by blast
  have role: "cm_role (ms ! (?n - 1)) \<noteq> role_tool" "cm_role (ms ! (?n - 1)) \<noteq> role_tool \<Longrightarrow> ?s = ?n - 1"
  proof -
    have "ms ! (?n - 1) \<in> set (drop ?s ms)" using s by (metis last_conv_nth last_drop last_in_set ne drop_eq_Nil not_le)
    then show "cm_role (ms ! (?n - 1)) \<noteq> role_tool" using single by (auto simp: block_is_tool_call_block_def list_ex_iff)
  qed (simp add: message_block_start_def Let_def)
  then have start: "?s = ?n - 1" by blast
  have new: "list_all2 same_but_content (drop ?s (take ?n ms)) [m]"
    using m drop_take_last [OF n(1) le_refl] unfolding start by (simp only: list_all2_Cons list_all2_Nil2 simp_thms)
  have zip: "zip [?s..<?n] [m] = [(?n - 1, m)]" using start n(1) by (cases ?n) auto
  have "entries_ok ms (sel @ [(?n - 1, m)])"
    using entries_take [OF ok f n(1) new ns] zip by simp
  moreover have "frontier_ok ms ?s (sel @ [(?n - 1, m)])" using frontier_take [OF f n(1) new] zip by simp
  moreover have "i \<in> idx (sel @ [(?n - 1, m)]) \<longleftrightarrow> Suc i \<in> idx (sel @ [(?n - 1, m)])" if g: "glued ms i" for i
  proof (cases "?s \<le> i")
    case False
    then have "i \<noteq> ?n - 1" "Suc i \<noteq> ?n - 1" "Suc i < ?n" using start role(1) g by (auto simp: glued_def)
    moreover have "j \<notin> idx sel" if "j < ?n" "\<not> is_system (ms ! j)" for j using f that unfolding frontier_ok_def by blast
    ultimately show ?thesis using glued_not_system [OF g] by simp
  next
    case True
    then show ?thesis using g \<open>frontier_ok ms ?s (sel @ [(?n - 1, m)])\<close> unfolding frontier_ok_def by blast
  qed
  ultimately show ?thesis using tokens by (auto simp: selection_ok_def)
qed

text \<open>The four ways a step of the loop goes on.\<close>

lemma select_blocks_cases:
  assumes r: "select_blocks ms limit e remaining sel = Inr out" and e: "0 < e" "e \<le> length ms"
  defines "s \<equiv> message_block_start ms e"
  obtains
    (skip) "list_all is_system (drop s (take e ms)) \<or> e < length ms" "select_blocks ms limit s remaining sel = Inr out"
  | (whole) "\<not> list_all is_system (drop s (take e ms))" "chat_tokens (drop s (take e ms)) \<le> remaining"
      "select_blocks ms limit s (remaining - chat_tokens (drop s (take e ms)))
        (sel @ filter (\<lambda>x. fst x \<notin> idx sel) (zip [s..<e] (drop s (take e ms)))) = Inr out"
  | (compact) new where "\<not> list_all is_system (drop s (take e ms))" "e = length ms \<or> sel = []"
      "compact_tool_block (drop s (take e ms)) remaining = Some new"
      "select_blocks ms limit s (remaining - chat_tokens new) (sel @ zip [s..<e] new) = Inr out"
  | (cut) m where "\<not> list_all is_system (drop s (take e ms))" "e = length ms \<or> sel = []"
      "\<not> block_is_tool_call_block (drop s (take e ms))" "m = (ms ! (e - 1))\<lparr>cm_content := []\<rparr>"
      "estimate_chat_message_tokens m < remaining"
      "out = sel @ [(e - 1, m\<lparr>cm_content := truncate_to_tokens (cm_content (ms ! (e - 1))) (remaining - estimate_chat_message_tokens m)\<rparr>)]"
proof -
  let ?b = "drop s (take e ms)"
  note eq = r [unfolded select_blocks.simps [of ms limit e] Let_def, folded s_def]
  show thesis
  proof (cases "list_all is_system ?b")
    case True
    then show thesis using eq e by (intro skip) auto
  next
    case ns: False
    show thesis
    proof (cases "chat_tokens ?b \<le> remaining")
      case True
      then show thesis using eq e ns by (intro whole) auto
    next
      case big: False
      show thesis
      proof (cases "e = length ms \<or> sel = []")
        case False
        then show thesis using eq e ns big by (intro skip) auto
      next
        case last: True
        show thesis
        proof (cases "block_is_tool_call_block ?b")
          case True
          then show thesis using eq e ns big last by (cases "compact_tool_block ?b remaining") (auto intro: compact)
        next
          case False
          then show thesis using eq e ns big last by (intro cut [OF ns last False refl]) (auto split: if_splits)
        qed
      qed
    qed
  qed
qed

lemma select_blocks_ok:
  "select_blocks ms limit e remaining sel = Inr out \<Longrightarrow> entries_ok ms sel \<Longrightarrow> frontier_ok ms e sel \<Longrightarrow>
    chat_tokens (map snd sel) + remaining \<le> limit \<Longrightarrow>
    \<exists>l. selection_ok ms l out \<and> (ms \<noteq> [] \<and> built_message (last ms) \<longrightarrow> l = limit)"
proof (induction e arbitrary: remaining sel rule: less_induct)
  case (less e)
  note r = less.prems(1) and ok = less.prems(2) and f = less.prems(3) and sum = less.prems(4)
  show ?case
  proof (cases "e = 0")
    case True
    then show ?thesis using less.prems finish_selection [of ms sel limit] by (auto simp: select_blocks.simps)
  next
    case False
    then have e: "0 < e" "e \<le> length ms" using f by (simp_all add: frontier_ok_def)
    let ?s = "message_block_start ms e" and ?b = "drop (message_block_start ms e) (take e ms)"
    have s: "?s < e" using e(1) by (rule message_block_start_less)
    have last: "e = length ms" if "e = length ms \<or> sel = []" using that f e unfolding frontier_ok_def by auto
    from r e show ?thesis
    proof (cases rule: select_blocks_cases)
      case skip
      have "e < length ms \<or> length ms - 1 \<in> idx sel"
      proof (cases "e < length ms")
        case False
        have "ms ! (e - 1) \<in> set ?b" using s e by (auto simp: in_set_conv_nth intro!: exI [of _ "e - 1 - ?s"])
        then have "is_system (ms ! (e - 1))" using skip(1) False by (auto simp: list_all_iff)
        then show ?thesis using ok e False unfolding entries_ok_def by (metis diff_less fst_conv imageI le_neq_implies_less zero_less_one order.strict_trans2)
      qed simp
      then show ?thesis using less.IH [OF s skip(2) ok frontier_skip [OF f e(1)] sum] by blast
    next
      case whole
      note ns = block_no_system [OF e whole(1)]
      have z: "idx (zip [?s..<e] ?b) = {?s..<e}" "map snd (zip [?s..<e] ?b) = ?b"
        using zip_block [OF less_imp_le [OF s] e(2) same_but_content_block] by blast+
      have "x \<notin> idx sel" if "x \<in> {?s..<e}" for x using f ns that unfolding frontier_ok_def by (metis atLeastLessThan_iff)
      then have "filter (\<lambda>x. fst x \<notin> idx sel) (zip [?s..<e] ?b) = zip [?s..<e] ?b" using z(1) by (intro filter_True) blast
      then have "select_blocks ms limit ?s (remaining - chat_tokens ?b) (sel @ zip [?s..<e] ?b) = Inr out" using whole(3) by simp
      moreover have "chat_tokens (map snd (sel @ zip [?s..<e] ?b)) + (remaining - chat_tokens ?b) \<le> limit"
        unfolding map_append z(2) sum_list_append using sum whole(2) by linarith
      ultimately show ?thesis
        using less.IH [OF s] entries_take [OF ok f e(1) same_but_content_block ns] frontier_take [OF f e(1) same_but_content_block] by blast
    next
      case (compact new)
      note c = compact_tool_block_Some [OF compact(3)]
      have z: "map snd (zip [?s..<e] new) = new" using zip_block(2) [OF less_imp_le [OF s] e(2)] c by blast
      have "chat_tokens (map snd (sel @ zip [?s..<e] new)) + (remaining - chat_tokens new) \<le> limit"
        unfolding map_append z sum_list_append using sum c by linarith
      then show ?thesis
        using less.IH [OF s compact(4)] entries_take [OF ok f e(1) _ block_no_system [OF e compact(1)]] frontier_take [OF f e(1)]
          last [OF compact(2)] c by blast
    next
      case (cut m)
      have n: "e = length ms" using last [OF cut(2)] .
      define t where "t = truncate_to_tokens (cm_content (ms ! (e - 1))) (remaining - estimate_chat_message_tokens m)"
      define l where "l = (if built_message (last ms) then limit else chat_tokens (map snd sel) + estimate_chat_message_tokens (m\<lparr>cm_content := t\<rparr>))"
      have le: "last ms = ms ! (e - 1)" using e n by (metis last_conv_nth length_greater_0_conv)
      have "ms ! (e - 1) \<in> set ?b" using s e by (auto simp: in_set_conv_nth intro!: exI [of _ "e - 1 - ?s"])
      then have nt: "cm_role (ms ! (e - 1)) \<noteq> role_tool" using cut(3) by (auto simp: block_is_tool_call_block_def list_ex_iff)
      have "chat_tokens (map snd sel) + estimate_chat_message_tokens (m\<lparr>cm_content := t\<rparr>) \<le> l"
      proof (cases "built_message (last ms)")
        case True
        have "estimate_chat_message_tokens (m\<lparr>cm_content := t\<rparr>) \<le> estimate_chat_message_tokens m + estimate_tokens t"
          using estimate_with_content [OF True [unfolded le] _ nt, of t] truncate_prefix unfolding cut(4) t_def by simp
        also have "estimate_tokens t \<le> remaining - estimate_chat_message_tokens m" unfolding t_def by (rule truncate_bound)
        finally show ?thesis using cut(5) sum True by (simp add: l_def)
      qed (simp add: l_def)
      moreover have "same_but_content (ms ! (length ms - 1)) (m\<lparr>cm_content := t\<rparr>)" unfolding cut(4) n same_but_content_def by auto
      moreover have "ms \<noteq> []" using e by auto
      moreover have "\<not> block_is_tool_call_block (drop (message_block_start ms (length ms)) ms)" using cut(3) n by simp
      moreover have "out = sel @ [(length ms - 1, m\<lparr>cm_content := t\<rparr>)]" unfolding cut(6) t_def n ..
      ultimately have "selection_ok ms l out"
        using last_message_ok [OF ok f [unfolded n]] block_no_system [OF e cut(1), unfolded n] by blast
      then show ?thesis by (auto simp: l_def)
    qed
  qed
qed

section \<open>The whole function\<close>

abbreviation indexed :: "nat \<Rightarrow> chat_message list \<Rightarrow> selection" where
  "indexed i xs \<equiv> zip [i..<i + length xs] xs"

lemma indexed_Cons: "indexed i (x # xs) = (i, x) # indexed (Suc i) xs"
proof -
  have "[i..<i + length (x # xs)] = i # [Suc i..<Suc i + length xs]" using upt_conv_Cons [of i "i + length (x # xs)"] by simp
  then show ?thesis by (simp only: zip_Cons_Cons)
qed

lemma select_system_spec:
  "select_system limit i xs remaining sel = Inr (sel', remaining') \<Longrightarrow>
     sel' = sel @ filter (\<lambda>x. is_system (snd x)) (indexed i xs)
     \<and> chat_tokens (map snd sel') + remaining' = chat_tokens (map snd sel) + remaining"
proof (induction xs arbitrary: i remaining sel)
  case (Cons m ms)
  show ?case
  proof (cases "is_system m")
    case True
    then have c: "estimate_chat_message_tokens m \<le> remaining"
      "select_system limit (Suc i) ms (remaining - estimate_chat_message_tokens m) (sel @ [(i, m)]) = Inr (sel', remaining')"
      using Cons.prems by (auto simp: Let_def split: if_splits)
    have "sel' = sel @ (i, m) # filter (\<lambda>x. is_system (snd x)) (indexed (Suc i) ms)" using Cons.IH [OF c(2)] by simp
    moreover have "chat_tokens (map snd sel') + remaining' = chat_tokens (map snd sel) + remaining"
      using conjunct2 [OF Cons.IH [OF c(2)]] c(1) by simp
    ultimately show ?thesis unfolding indexed_Cons using True by simp
  next
    case False
    then have "select_system limit (Suc i) ms remaining sel = Inr (sel', remaining')" using Cons.prems by simp
    note IH = Cons.IH [OF this]
    have "filter (\<lambda>x. is_system (snd x)) (indexed i (m # ms)) = filter (\<lambda>x. is_system (snd x)) (indexed (Suc i) ms)"
      unfolding indexed_Cons using False by (simp only: filter.simps snd_conv if_False simp_thms)
    then show ?thesis using IH by argo
  qed
qed simp

lemma indexed_member: "(i, m) \<in> set (zip [0..<length ms] ms) \<longleftrightarrow> i < length ms \<and> m = ms ! i"
  by (auto simp: in_set_zip intro!: exI [of _ i])

lemma system_selection:
  "distinct (map fst (filter (\<lambda>x. is_system (snd x)) (zip [0..<length ms] ms)))"
  "(i, m) \<in> set (filter (\<lambda>x. is_system (snd x)) (zip [0..<length ms] ms)) \<longleftrightarrow> i < length ms \<and> m = ms ! i \<and> is_system m"
proof -
  have "distinct (map fst (zip [0..<length ms] ms))" by simp
  then show "distinct (map fst (filter (\<lambda>x. is_system (snd x)) (zip [0..<length ms] ms)))" by (rule distinct_map_filter)
qed (auto simp: indexed_member)

lemma initial_selection:
  assumes "sel = filter (\<lambda>x. is_system (snd x)) (zip [0..<length ms] ms)"
  shows "entries_ok ms sel \<and> frontier_ok ms (length ms) sel"
proof -
  have m: "(i, m) \<in> set sel \<longleftrightarrow> i < length ms \<and> m = ms ! i \<and> is_system m" for i m
    unfolding assms by (rule system_selection(2))
  have "entries_ok ms sel" unfolding entries_ok_def using system_selection(1) [of ms] m by (auto simp: assms)
  moreover have "frontier_ok ms (length ms) sel" unfolding frontier_ok_def using m by (auto simp: glued_def)
  ultimately show ?thesis by blast
qed

lemma all_selected: "chat_tokens ms \<le> limit \<Longrightarrow> selection_ok ms limit (zip [0..<length ms] ms)"
proof -
  assume l: "chat_tokens ms \<le> limit"
  have z: "idx (zip [0..<length ms] ms) = {0..<length ms}" by (simp flip: set_map)
  have "entries_ok ms (zip [0..<length ms] ms)" by (auto simp: entries_ok_def indexed_member)
  then show ?thesis using l unfolding selection_ok_def z by (auto simp: glued_def)
qed

text \<open>The messages sent, with their positions in the history.\<close>

lemma budget_chat_messages_selection:
  assumes "budget_chat_messages ms model_limit outp reas tools = Inr out"
  obtains sel l where "out = map snd sel" "sorted_wrt (<) (map fst sel)" "selection_ok ms l sel"
    "ms \<noteq> [] \<longrightarrow> built_message (last ms) \<Longrightarrow> l = (case model_limit of None \<Rightarrow> DEFAULT_MODEL_LIMIT | Some l \<Rightarrow> l) - sat_add outp reas
        - (case tools of None \<Rightarrow> 0 | Some t \<Rightarrow> estimate_tokens t)"
proof -
  define limit where "limit = (case model_limit of None \<Rightarrow> DEFAULT_MODEL_LIMIT | Some l \<Rightarrow> l) - sat_add outp reas
    - (case tools of None \<Rightarrow> 0 | Some t \<Rightarrow> estimate_tokens t)"
  show thesis
  proof (cases "chat_tokens ms \<le> limit")
    case True
    then have "out = map snd (zip [0..<length ms] ms)"
      using assms(1) unfolding budget_chat_messages_def limit_def by (auto simp: Let_def split: if_splits)
    then show thesis using that [of "zip [0..<length ms] ms" limit] all_selected [OF True] by (simp add: limit_def)
  next
    case False
    then obtain sel remaining sel' where s: "select_system limit 0 ms limit [] = Inr (sel, remaining)"
      and b: "select_blocks ms limit (length ms) remaining sel = Inr sel'"
      and out: "out = map snd (sort_by (\<lambda>x y. fst x \<le> fst y) sel')"
      using assms(1) unfolding budget_chat_messages_def limit_def by (auto simp: Let_def rbind_Inr split: if_splits)
    have "sel = filter (\<lambda>x. is_system (snd x)) (zip [0..<length ms] ms)" "chat_tokens (map snd sel) + remaining \<le> limit"
      using select_system_spec [OF s] by (simp, metis add_0 le_refl list.simps(8) sum_list.Nil)
    then obtain l where ok: "selection_ok ms l sel'" and l: "ms \<noteq> [] \<and> built_message (last ms) \<longrightarrow> l = limit"
      using select_blocks_ok [OF b] initial_selection by blast
    have ne: "ms \<noteq> []" using False by auto
    let ?t = "sort_by (\<lambda>x y. fst x \<le> fst y) sel'"
    have m: "mset ?t = mset sel'" by simp
    have "selection_ok ms l ?t"
      using ok mset_eq_setD [OF m] m unfolding selection_ok_def entries_ok_def
      by (metis (no_types, lifting) mset_map mset_eq_imp_distinct_iff sum_mset_sum_list)
    moreover have "sorted_wrt (<) (map fst ?t)"
    proof -
      have "sorted_wrt (\<lambda>x y. fst x \<le> fst y) ?t" by (rule sorted_sort_by) (auto simp: total_preorder_def)
      then have "sorted (map fst ?t)" by (simp add: sorted_map)
      moreover have "distinct (map fst ?t)" using \<open>selection_ok ms l ?t\<close> by (simp add: selection_ok_def entries_ok_def)
      ultimately show ?thesis by (simp only: strict_sorted_iff simp_thms)
    qed
    ultimately show thesis using that [of ?t l] out l ne by (simp add: limit_def)
  qed
qed

end
