(* ===== verification/Loop_Helpers.thy ===== *)
theory Loop_Helpers
  imports Chat_Budget Agent_Protocol
begin

text \<open>
  Further helpers of the agent loop (\<open>agent/loop_helpers.rs\<close>, \<open>agent/loop_run.rs\<close>): the citation check of an answer,
  usage totals, checkpoint copies of messages, the queue of user input and the effective context window.
\<close>

section \<open>Citations\<close>

text \<open>\<open>find('[')\<close>, then \<open>find(']')\<close> in the rest; the text between is parsed as a \<open>u32\<close>.\<close>

function bracketed_numbers :: "rstr \<Rightarrow> nat list" where
  "bracketed_numbers rest =
     (case dropWhile (\<lambda>c. c \<noteq> 91) rest of
        [] \<Rightarrow> []
      | _ # after \<Rightarrow>
          (case dropWhile (\<lambda>c. c \<noteq> 93) after of
             [] \<Rightarrow> []
           | _ # rest' \<Rightarrow>
               (case parse_uint u32_max (trim (takeWhile (\<lambda>c. c \<noteq> 93) after)) of Some n \<Rightarrow> [n] | None \<Rightarrow> [])
               @ bracketed_numbers rest'))"
  by pat_completeness auto

termination bracketed_numbers
proof (relation "measure length")
  fix rest after rest' :: rstr and x y
  assume a: "dropWhile (\<lambda>c. c \<noteq> 91) rest = x # after" "dropWhile (\<lambda>c. c \<noteq> 93) after = y # rest'"
  then have "length (x # after) \<le> length rest" "length (y # rest') \<le> length after" by (metis length_dropWhile_le)+
  then show "(rest', rest) \<in> measure length" by simp
qed simp

declare bracketed_numbers.simps [simp del]

record EvidenceAttachment =
  evidence_pack_id :: uuid
  ev_citation_numbers :: "nat list"

datatype CitationError = Citation rstr

definition validate_citations :: "rstr \<Rightarrow> EvidenceAttachment option \<Rightarrow> (CitationError, unit) result" where
  "validate_citations answer evidence =
     (case evidence of
        None \<Rightarrow> Inr ()
      | Some ev \<Rightarrow>
          for_each (\<lambda>citation. ensure (citation \<in> set (ev_citation_numbers ev))
             (Citation (str ''answer cites unavailable evidence ['' @ show_nat citation @ str '']''))) (bracketed_numbers answer))"

section \<open>Usage, checkpoints, context window\<close>

record chat_usage =
  u_prompt_tokens :: nat
  u_completion_tokens :: nat
  u_total_tokens :: nat
  u_cache_read_tokens :: nat
  u_reasoning_tokens :: nat

definition default_usage :: chat_usage where
  "default_usage = \<lparr>u_prompt_tokens = 0, u_completion_tokens = 0, u_total_tokens = 0, u_cache_read_tokens = 0, u_reasoning_tokens = 0\<rparr>"

definition sat_u64 :: "nat \<Rightarrow> nat \<Rightarrow> nat" where
  "sat_u64 a b = min (a + b) u64_max"

definition add_usage :: "chat_usage option \<Rightarrow> chat_usage \<Rightarrow> chat_usage" where
  "add_usage prev cur =
     (let total = (case prev of None \<Rightarrow> default_usage | Some u \<Rightarrow> u) in
      \<lparr>u_prompt_tokens = sat_u64 (u_prompt_tokens total) (u_prompt_tokens cur),
       u_completion_tokens = sat_u64 (u_completion_tokens total) (u_completion_tokens cur),
       u_total_tokens = sat_u64 (u_total_tokens total) (u_total_tokens cur),
       u_cache_read_tokens = sat_u64 (u_cache_read_tokens total) (u_cache_read_tokens cur),
       u_reasoning_tokens = sat_u64 (u_reasoning_tokens total) (u_reasoning_tokens cur)\<rparr>)"

definition checkpoint_messages :: "chat_message list \<Rightarrow> chat_message list" where
  "checkpoint_messages ms = map (\<lambda>m. m\<lparr>cm_images := []\<rparr>) ms"

definition effective_context_window :: "nat option \<Rightarrow> nat option \<Rightarrow> nat option" where
  "effective_context_window configured model =
     (case (configured, model) of (Some c, Some m) \<Rightarrow> Some (min c m) | (Some c, None) \<Rightarrow> Some c | (None, m) \<Rightarrow> m)"

section \<open>Limits\<close>

record AgentLoopLimits =
  max_model_calls :: "nat option"
  max_tool_calls :: "nat option"
  max_tool_rounds :: "nat option"
  max_recovery_attempts :: nat
  max_network_retries :: nat
  model_request_timeout_ms :: nat
  context_budget :: "nat option"
  model_temperature :: nat
  model_max_tokens :: "nat option"
  save_checkpoints :: bool
  stream_output :: bool
  context_checkpoint_timeout_ms :: nat
  deadline_ms :: "nat option"

definition AgentLoopLimits_default :: AgentLoopLimits where
  "AgentLoopLimits_default = \<lparr>max_model_calls = None, max_tool_calls = None, max_tool_rounds = None, max_recovery_attempts = 2,
     max_network_retries = 2, model_request_timeout_ms = 120000, context_budget = None, model_temperature = 200,
     model_max_tokens = None, save_checkpoints = True, stream_output = True, context_checkpoint_timeout_ms = 300000, deadline_ms = None\<rparr>"

definition AgentLoopLimits_validate :: "AgentLoopLimits \<Rightarrow> (string, unit) result" where
  "AgentLoopLimits_validate l =
     (if 10 < max_network_retries l \<or> model_request_timeout_ms l = 0 then Inl ''invalid model retry or request timeout policy''
      else if max_model_calls l = Some 0 then Inl ''max_model_calls must be greater than zero''
      else if max_tool_calls l = Some 0 then Inl ''max_tool_calls must be greater than zero''
      else if max_tool_rounds l = Some 0 then Inl ''max_tool_rounds must be greater than zero''
      else if context_budget l = Some 0 then Inl ''context_budget must be greater than zero''
      else if context_checkpoint_timeout_ms l = 0 then Inl ''context_checkpoint_timeout_ms must be greater than zero''
      else if deadline_ms l = Some 0 then Inl ''deadline_ms must be greater than zero''
      else Inr ())"

lemma default_limits_valid: "AgentLoopLimits_validate AgentLoopLimits_default = Inr ()"
  by (simp add: AgentLoopLimits_validate_def AgentLoopLimits_default_def)

section \<open>The input queue\<close>

record ContextEntry =
  ce_item :: ContextItem
  ce_role :: AgentMessageRole

definition ContextEntry_new :: "ContextItem \<Rightarrow> ContextEntry" where
  "ContextEntry_new item =
     \<lparr>ce_item = item, ce_role = (case ci_source item of CurrentRequest \<Rightarrow> User | RecentTurn _ \<Rightarrow> User | _ \<Rightarrow> AgentMessageRole.System)\<rparr>"

datatype AgentInputKind = Steering | FollowUp

datatype AgentInputQueueMode = AllAtOnce | OneAtATime

text \<open>\<open>poisoned\<close>: a holder of the queue's mutex has panicked.\<close>

record AgentInputQueue =
  q_poisoned :: bool
  q_steering :: "ContextEntry list"
  q_follow_up :: "ContextEntry list"
  q_steering_mode :: AgentInputQueueMode
  q_follow_up_mode :: AgentInputQueueMode

definition AgentInputQueue_default :: AgentInputQueue where
  "AgentInputQueue_default =
     \<lparr>q_poisoned = False, q_steering = [], q_follow_up = [], q_steering_mode = AllAtOnce, q_follow_up_mode = AllAtOnce\<rparr>"

type_synonym 'a queue_io = "AgentInputQueue \<Rightarrow> (string, 'a) result \<times> AgentInputQueue"

definition with_queue :: "(AgentInputQueue \<Rightarrow> 'a \<times> AgentInputQueue) \<Rightarrow> 'a queue_io" where
  "with_queue f q = (if q_poisoned q then (Inl ''agent input queue is poisoned'', q) else (case f q of (x, q') \<Rightarrow> (Inr x, q')))"

definition enqueue :: "AgentInputKind \<Rightarrow> ContextEntry \<Rightarrow> unit queue_io" where
  "enqueue kind entry = with_queue (\<lambda>q.
     ((), case kind of Steering \<Rightarrow> q\<lparr>q_steering := q_steering q @ [entry]\<rparr> | FollowUp \<Rightarrow> q\<lparr>q_follow_up := q_follow_up q @ [entry]\<rparr>))"

definition set_modes :: "AgentInputQueueMode \<Rightarrow> AgentInputQueueMode \<Rightarrow> unit queue_io" where
  "set_modes steering follow_up = with_queue (\<lambda>q. ((), q\<lparr>q_steering_mode := steering, q_follow_up_mode := follow_up\<rparr>))"

definition queue_of :: "AgentInputKind \<Rightarrow> AgentInputQueue \<Rightarrow> ContextEntry list" where
  "queue_of kind q = (case kind of Steering \<Rightarrow> q_steering q | FollowUp \<Rightarrow> q_follow_up q)"

definition set_queue :: "AgentInputKind \<Rightarrow> ContextEntry list \<Rightarrow> AgentInputQueue \<Rightarrow> AgentInputQueue" where
  "set_queue kind xs q = (case kind of Steering \<Rightarrow> q\<lparr>q_steering := xs\<rparr> | FollowUp \<Rightarrow> q\<lparr>q_follow_up := xs\<rparr>)"

definition take_input :: "AgentInputKind \<Rightarrow> ContextEntry list queue_io" where
  "take_input kind = with_queue (\<lambda>q.
     let mode = (case kind of Steering \<Rightarrow> q_steering_mode q | FollowUp \<Rightarrow> q_follow_up_mode q); queue = queue_of kind q in
     if mode = OneAtATime then (take 1 queue, set_queue kind (drop 1 queue) q) else (queue, set_queue kind [] q))"

definition clear_input :: "unit queue_io" where
  "clear_input = with_queue (\<lambda>q. ((), q\<lparr>q_steering := [], q_follow_up := []\<rparr>))"

definition input_is_empty :: "bool queue_io" where
  "input_is_empty = with_queue (\<lambda>q. (q_steering q = [] \<and> q_follow_up q = [], q))"

section \<open>Rendering\<close>

fun role_text :: "AgentMessageRole \<Rightarrow> rstr" where
  "role_text User = str ''user''"
| "role_text Assistant = str ''assistant''"
| "role_text Tool = str ''tool''"
| "role_text AgentMessageRole.System = str ''system''"

definition append_input_messages :: "chat_message list \<Rightarrow> ContextEntry list \<Rightarrow> chat_message list" where
  "append_input_messages ms entries = ms @ map (\<lambda>e. ChatMessage_new (role_text (ce_role e)) (ci_content (ce_item e))) entries"

record AgentLoopAttachment =
  at_data :: rstr
  at_mime :: rstr
  at_name :: rstr
  at_path :: "rstr option"

text \<open>The Chinese texts of the notes, as scalar values.\<close>

definition NOTE_PATH_BEFORE :: rstr where
  "NOTE_PATH_BEFORE = [38468, 20214, 24050, 30331, 35760, 22312, 26412, 22320, 36335, 24452, 65306]"

definition NOTE_PATH_AFTER :: rstr where
  "NOTE_PATH_AFTER = [12290, 22914, 38656, 35835, 21462, 65292, 35831, 20351, 29992, 21463, 32, 65, 103, 101, 110, 116, 32, 26435,
     38480, 32422, 26463, 30340, 25991, 20214, 24037, 20855, 12290]"

definition NOTE_CONTENT :: rstr where
  "NOTE_CONTENT = [38468, 20214, 20869, 23481, 65306, 10]"

definition NOTE_BINARY :: rstr where
  "NOTE_BINARY = [20108, 36827, 21046, 38468, 20214, 24050, 28155, 21152, 12290, 35831, 20351, 29992, 21487, 29992, 30340,
     25991, 29486, 25110, 25991, 20214, 24037, 20855, 35835, 21462, 23427, 12290]"

definition NOTE_OPAQUE :: rstr where
  "NOTE_OPAQUE = [38468, 20214, 20869, 23481, 26080, 27861, 30452, 25509, 39044, 35272, 65292, 35831, 20351, 29992, 21487,
     29992, 30340, 25991, 29486, 25110, 25991, 20214, 24037, 20855, 35835, 21462, 23427, 12290]"

definition ATTACHMENT_HEAD :: rstr where
  "ATTACHMENT_HEAD = [10, 10, 91, 38468, 20214, 65306]"

definition ATTACHMENT_TYPE :: rstr where
  "ATTACHMENT_TYPE = [65292, 31867, 22411, 65306]"

text \<open>\<open>base64\<close> decoding is a parameter, \<open>from_utf8\<close> the decoding of UTF-8.\<close>

definition content_note :: "(rstr \<Rightarrow> nat list option) \<Rightarrow> (nat list \<Rightarrow> rstr option) \<Rightarrow> AgentLoopAttachment \<Rightarrow> rstr" where
  "content_note decode from_utf8 a =
     (case decode (at_data a) of
        None \<Rightarrow> NOTE_OPAQUE
      | Some bytes \<Rightarrow>
          (case from_utf8 bytes of
             Some txt \<Rightarrow> if trim txt \<noteq> [] then NOTE_CONTENT @ take 120000 txt else NOTE_BINARY
           | None \<Rightarrow> NOTE_BINARY))"

definition attachment_note :: "(rstr \<Rightarrow> nat list option) \<Rightarrow> (nat list \<Rightarrow> rstr option) \<Rightarrow> AgentLoopAttachment \<Rightarrow> rstr" where
  "attachment_note decode from_utf8 a =
     (case at_path a of
        Some path \<Rightarrow> if trim path \<noteq> [] then NOTE_PATH_BEFORE @ path @ NOTE_PATH_AFTER else content_note decode from_utf8 a
      | None \<Rightarrow> content_note decode from_utf8 a)"

definition is_image :: "AgentLoopAttachment \<Rightarrow> bool" where
  "is_image a \<longleftrightarrow> starts_with (str ''image/'') (to_ascii_lowercase (at_mime a))"

definition request_message ::
  "(rstr \<Rightarrow> nat list option) \<Rightarrow> (nat list \<Rightarrow> rstr option) \<Rightarrow> ContextEntry \<Rightarrow> AgentLoopAttachment list \<Rightarrow> chat_message" where
  "request_message decode from_utf8 e attachments =
     (let images = map (\<lambda>a. (at_data a, at_mime a)) (filter is_image attachments);
          content = ci_content (ce_item e) @ concat (map (\<lambda>a. ATTACHMENT_HEAD @ at_name a @ ATTACHMENT_TYPE @ at_mime a @ str '']'' @ [10]
            @ attachment_note decode from_utf8 a) (filter (\<lambda>a. \<not> is_image a) attachments)) in
      if images = [] then ChatMessage_new (role_text (ce_role e)) content
      else ChatMessage_with_images (role_text (ce_role e)) content images)"

definition render_entry :: "ContextEntry \<Rightarrow> chat_message" where
  "render_entry e = ChatMessage_new (role_text (ce_role e)) (ci_content (ce_item e))"

definition recent_rank :: "ContextEntry \<Rightarrow> nat option" where
  "recent_rank e = (case ci_source (ce_item e) of RecentTurn k \<Rightarrow> Some k | _ \<Rightarrow> None)"

definition render_context_messages ::
  "(rstr \<Rightarrow> nat list option) \<Rightarrow> (nat list \<Rightarrow> rstr option) \<Rightarrow> ContextReport \<Rightarrow> ContextEntry list \<Rightarrow> AgentLoopAttachment list
     \<Rightarrow> chat_message list" where
  "render_context_messages decode from_utf8 report entries attachments =
     (let selected = List.map_filter (\<lambda>item. map_option (\<lambda>e. e\<lparr>ce_item := item\<rparr>) (find (\<lambda>e. ci_id (ce_item e) = ci_id item) entries))
            (rp_included_items report);
          head = map render_entry (filter (\<lambda>e. recent_rank e = None \<and> ci_source (ce_item e) \<noteq> CurrentRequest) selected);
          recent = sort_by (\<lambda>x y. the (recent_rank y) \<le> the (recent_rank x)) (filter (\<lambda>e. recent_rank e \<noteq> None) selected);
          request = (case find (\<lambda>e. ci_source (ce_item e) = CurrentRequest) selected of
             None \<Rightarrow> [] | Some e \<Rightarrow> [request_message decode from_utf8 e attachments]) in
      head @ map render_entry recent @ request)"

end
