(* ===== verification/Loop_Properties.thy ===== *)
theory Loop_Properties
  imports Loop_Helpers
begin

text \<open>
  The properties of the agent loop's helpers: the view of the history that is sent to the model, the citation check and
  the input queue.
\<close>

section \<open>The provider-facing history\<close>

text \<open>C27. Whenever a request view is produced, the estimated tokens of its messages, of the tool payload and of the
  completion reservation together stay within the model's limit.  Only the last message is assumed to be one that the program
  builds: a tool result, an assistant message, or a message without reasoning, calls and call id.\<close>

theorem budget_chat_messages_bound:
  assumes "budget_chat_messages ms model_limit output_reservation reasoning_reservation tools = Inr out"
    and "ms \<noteq> [] \<longrightarrow> built_message (last ms)"
  shows "chat_tokens out + (case tools of None \<Rightarrow> 0 | Some t \<Rightarrow> estimate_tokens t) + sat_add output_reservation reasoning_reservation
    \<le> (case model_limit of None \<Rightarrow> 8192 | Some l \<Rightarrow> l)"
proof -
  obtain sel where sel: "out = map snd sel"
    "selection_ok ms ((case model_limit of None \<Rightarrow> DEFAULT_MODEL_LIMIT | Some l \<Rightarrow> l) - sat_add output_reservation reasoning_reservation
        - (case tools of None \<Rightarrow> 0 | Some t \<Rightarrow> estimate_tokens t)) sel"
    using budget_chat_messages_selection [OF assms(1)] assms(2) by metis
  let ?m = "case model_limit of None \<Rightarrow> DEFAULT_MODEL_LIMIT | Some l \<Rightarrow> l" and ?c = "sat_add output_reservation reasoning_reservation"
  let ?t = "case tools of None \<Rightarrow> 0 | Some t \<Rightarrow> estimate_tokens t"
  have "?c \<le> ?m" "?t \<le> ?m - ?c"
    using assms(1) unfolding budget_chat_messages_def Let_def by (meson Inl_Inr_False not_le)+
  moreover have "chat_tokens out \<le> ?m - ?c - ?t" using sel unfolding selection_ok_def by simp
  ultimately have "chat_tokens out + ?t + ?c \<le> ?m" by linarith
  then show ?thesis unfolding DEFAULT_MODEL_LIMIT_def .
qed

text \<open>C28. The request view is the history with whole messages left out: the messages sent are those at strictly increasing
  positions of the history, unchanged except for the content of messages of the last block; every system message is sent as
  it is; the last message is never left out; and a tool result is sent exactly when the tool result or the tool call before
  it is, so calls and results are never separated.\<close>

theorem budget_chat_messages_structure:
  assumes "budget_chat_messages ms model_limit output_reservation reasoning_reservation tools = Inr out"
  shows "\<exists>positions. sorted_wrt (<) positions
    \<and> list_all2 (\<lambda>i m. i < length ms \<and> same_but_content (ms ! i) m \<and> (is_system (ms ! i) \<longrightarrow> m = ms ! i)
         \<and> (m = ms ! i \<or> message_block_start ms (length ms) \<le> i)) positions out
    \<and> (\<forall>i < length ms. is_system (ms ! i) \<longrightarrow> i \<in> set positions)
    \<and> (ms \<noteq> [] \<longrightarrow> length ms - 1 \<in> set positions)
    \<and> (\<forall>i. glued ms i \<longrightarrow> (i \<in> set positions \<longleftrightarrow> Suc i \<in> set positions))"
proof -
  obtain sel limit where sel: "out = map snd sel" "sorted_wrt (<) (map fst sel)" "selection_ok ms limit sel"
    using budget_chat_messages_selection [OF assms] .
  have e: "entries_ok ms sel" using sel(3) by (simp add: selection_ok_def)
  have sys: "(i, ms ! i) \<in> set sel" if "i < length ms" "is_system (ms ! i)" for i using e that unfolding entries_ok_def by blast
  have d: "distinct (map fst sel)" using e by (simp add: entries_ok_def)
  have entry: "i < length ms \<and> same_but_content (ms ! i) m \<and> (is_system (ms ! i) \<longrightarrow> m = ms ! i)
      \<and> (m = ms ! i \<or> message_block_start ms (length ms) \<le> i)" if "(i, m) \<in> set sel" for i m
  proof -
    have m: "i < length ms" "same_but_content (ms ! i) m" "m = ms ! i \<or> message_block_start ms (length ms) \<le> i"
      using e that unfolding entries_ok_def by auto
    moreover have "m = ms ! i" if "is_system (ms ! i)" using eq_key_imp_eq_value [OF d \<open>(i, m) \<in> set sel\<close> sys [OF m(1) that]] .
    ultimately show ?thesis by blast
  qed
  have "list_all2 (\<lambda>i m. i < length ms \<and> same_but_content (ms ! i) m \<and> (is_system (ms ! i) \<longrightarrow> m = ms ! i)
      \<and> (m = ms ! i \<or> message_block_start ms (length ms) \<le> i)) (map fst sel) out"
    unfolding sel(1) list_all2_map1 list_all2_map2 list_all2_same using entry by (metis prod.collapse)
  moreover have "\<forall>i < length ms. is_system (ms ! i) \<longrightarrow> i \<in> idx sel" using sys by force
  ultimately show ?thesis
    using sel(2,3) unfolding selection_ok_def by (intro exI [of _ "map fst sel"]) (simp only: list.set_map simp_thms, blast)
qed

text \<open>A history with a tool call and its result: the older question does not fit and is left out.\<close>

definition sample_call :: chat_message where
  "sample_call = (ChatMessage_new role_assistant [])\<lparr>cm_tool_calls := [\<lparr>ct_id = str ''k'', ct_name = str ''now'', ct_arguments = []\<rparr>]\<rparr>"

definition sample_result :: chat_message where
  "sample_result = (ChatMessage_new role_tool (str ''noon''))\<lparr>cm_tool_call_id := Some (str ''k'')\<rparr>"

definition sample_history :: "chat_message list" where
  "sample_history = [ChatMessage_new role_system (str ''s''), ChatMessage_new (str ''user'') (str ''whattimeisit''), sample_call, sample_result]"

lemmas sample_defs = sample_history_def sample_call_def sample_result_def ChatMessage_new_def role_system_def role_tool_def role_assistant_def

lemma sample_history_built: "sample_history \<noteq> [] \<longrightarrow> built_message (last sample_history)"
  by (simp add: sample_defs built_message_def message_suffix_def usize_max_def)

abbreviation sample_system :: chat_message where
  "sample_system \<equiv> ChatMessage_new role_system (str ''s'')"

abbreviation sample_question :: chat_message where
  "sample_question \<equiv> ChatMessage_new (str ''user'') (str ''whattimeisit'')"

lemma word_cost:
  "is_ascii_alphanumeric c \<or> c = 95 \<Longrightarrow> r < 1000 \<Longrightarrow> raw_tokens r (c # s) = of_bool (r mod 3 = 0) + raw_tokens (Suc r) s"
  by (simp add: next_token_cost_def ASCII_CHARS_PER_TOKEN_def sat_add_def usize_max_def)

lemma sample_costs:
  "estimate_chat_message_tokens sample_system = 19" "estimate_chat_message_tokens sample_question = 22"
  "estimate_chat_message_tokens sample_call = 53" "estimate_chat_message_tokens sample_result = 19"
proof -
  have t: "estimate_tokens (str ''systems'') = 3" "estimate_tokens (str ''userwhattimeisit'') = 6"
    "estimate_tokens (str ''assistantknow'') = 5" "estimate_tokens (str ''toolnoonk'') = 3"
    unfolding estimate_raw by (simp_all add: str_def word_cost ascii_defs usize_max_def del: raw_tokens.simps(2))
  show "estimate_chat_message_tokens sample_system = 19" "estimate_chat_message_tokens sample_question = 22"
    "estimate_chat_message_tokens sample_call = 53" "estimate_chat_message_tokens sample_result = 19"
    using t by (simp_all add: sample_defs estimate_chat_message_tokens_def message_suffix_def sat_add_def sat_mul_def usize_max_def flip: str_append)
qed

lemma sample_roles [simp]:
  "cm_role sample_system = role_system" "cm_role sample_question = str ''user''" "cm_role sample_call = role_assistant"
  "cm_role sample_result = role_tool" "calls_tools sample_call" "str ''user'' \<noteq> role_system" "str ''user'' \<noteq> role_tool"
  by (simp_all add: sample_defs calls_tools_def)

lemma sample_blocks:
  "message_block_start sample_history 4 = 2" "message_block_start sample_history 2 = 1" "message_block_start sample_history (Suc 0) = 0"
  by (simp_all add: message_block_start_def sample_history_def numeral_eq_Suc)

lemma sample_history_view:
  "budget_chat_messages sample_history (Some 110) 10 0 None = Inr [sample_system, sample_call, sample_result]"
proof -
  have sys: "select_system 100 0 sample_history 100 [] = Inr ([(0, sample_system)], 81)"
    by (simp add: sample_history_def sample_costs)
  have b: "drop 2 (take 4 sample_history) = [sample_call, sample_result]" "drop 1 (take 2 sample_history) = [sample_question]"
    "drop 0 (take (Suc 0) sample_history) = [sample_system]" "length sample_history = 4"
    by (simp_all add: sample_history_def numeral_eq_Suc)
  have z: "zip [2..<4] [sample_call, sample_result] = [(2, sample_call), (3, sample_result)]"
    by (simp add: numeral_eq_Suc)
  let ?sel = "[(0, sample_system), (2, sample_call), (3, sample_result)]"
  have "select_blocks sample_history 100 (Suc 0) 9 ?sel = Inr ?sel"
    using b(3) select_blocks.simps [of sample_history 100 0 9 ?sel] by (subst select_blocks.simps) (simp add: sample_blocks)
  then have "select_blocks sample_history 100 2 9 ?sel = Inr ?sel"
    using b by (subst select_blocks.simps) (simp add: sample_blocks sample_costs)
  then have blocks: "select_blocks sample_history 100 4 81 [(0, sample_system)] = Inr ?sel"
    using b z by (subst select_blocks.simps) (simp add: sample_blocks sample_costs)
  have "\<not> chat_tokens sample_history \<le> 100" by (simp add: sample_history_def sample_costs)
  moreover have "sort_by (\<lambda>x y. fst x \<le> fst y) [(0, sample_system), (2, sample_call), (3 :: nat, sample_result)]
      = [(0, sample_system), (2, sample_call), (3, sample_result)]"
    by (rule sort_by_sorted) simp
  ultimately show ?thesis using sys blocks b(4) by (simp add: budget_chat_messages_def sat_add_def usize_max_def Let_def)
qed

theorem budget_chat_messages_bound_witness:
  "chat_tokens [sample_system, sample_call, sample_result] + sat_add 10 0 \<le> 110"
  using budget_chat_messages_bound [OF sample_history_view sample_history_built] by simp

theorem budget_chat_messages_structure_witness:
  "glued sample_history 2 \<and> (\<exists>positions. sorted_wrt (<) positions \<and> length positions = 3 \<and> (2 :: nat) \<in> set positions \<and> 3 \<in> set positions)"
proof -
  have g: "glued sample_history 2" by (simp add: glued_def sample_defs calls_tools_def)
  have n: "length sample_history = 4" "sample_history \<noteq> []" by (simp_all add: sample_history_def)
  obtain positions where p: "sorted_wrt (<) positions" "length sample_history - 1 \<in> set positions"
    "2 \<in> set positions \<longleftrightarrow> Suc 2 \<in> set positions" "length positions = length [sample_system, sample_call, sample_result]"
    using budget_chat_messages_structure [OF sample_history_view] n(2) g list_all2_lengthD by blast
  then show ?thesis using g n(1) by (intro conjI exI [of _ positions]) simp_all
qed

section \<open>Citations\<close>

text \<open>A text cites \<open>n\<close> when it contains a bracket pair, with no bracket inside, around a decimal \<open>u32\<close> that denotes \<open>n\<close>.\<close>

definition cites :: "rstr \<Rightarrow> nat \<Rightarrow> bool" where
  "cites s n \<longleftrightarrow> (\<exists>a b c. s = a @ 91 # b @ 93 # c \<and> 91 \<notin> set b \<and> 93 \<notin> set b \<and> parse_uint u32_max (trim b) = Some n)"

text \<open>No opening bracket stands between an opening bracket and the next closing one.\<close>

definition unnested :: "rstr \<Rightarrow> bool" where
  "unnested s \<longleftrightarrow> (\<forall>a b c. s = a @ 91 # b @ 93 # c \<and> 93 \<notin> set b \<longrightarrow> 91 \<notin> set b)"

lemma unnested_suffix: "unnested (p @ s) \<Longrightarrow> unnested s"
  unfolding unnested_def by (metis append.assoc)

lemma dropWhile_split: "dropWhile (\<lambda>c. c \<noteq> d) s = x # t \<Longrightarrow> x = d \<and> s = takeWhile (\<lambda>c. c \<noteq> d) s @ d # t"
  using hd_dropWhile [of "\<lambda>c. c \<noteq> d" s] takeWhile_dropWhile_id [of "\<lambda>c. c \<noteq> d" s] by auto

lemma takeWhile_no: "d \<notin> set (takeWhile (\<lambda>c. c \<noteq> d) s)"
  by (auto dest: set_takeWhileD)

lemma dropWhile_found: "d \<notin> set b \<Longrightarrow> dropWhile (\<lambda>c. c \<noteq> d) (b @ d # c) = d # c \<and> takeWhile (\<lambda>c. c \<noteq> d) (b @ d # c) = b"
  by (induction b) auto

lemma bracketed_step:
  assumes "91 \<notin> set p" "93 \<notin> set b"
  shows "bracketed_numbers (p @ 91 # b @ 93 # r) =
    (case parse_uint u32_max (trim b) of Some n \<Rightarrow> [n] | None \<Rightarrow> []) @ bracketed_numbers r"
  using dropWhile_found [OF assms(1), of "b @ 93 # r"] dropWhile_found [OF assms(2), of r]
  by (subst bracketed_numbers.simps) (simp split: option.split)

lemma bracketed_stop:
  "91 \<notin> set s \<Longrightarrow> bracketed_numbers s = []" "91 \<notin> set p \<Longrightarrow> 93 \<notin> set t \<Longrightarrow> bracketed_numbers (p @ 91 # t) = []"
proof -
  have e: "dropWhile (\<lambda>c. c \<noteq> d) t = []" if "d \<notin> set t" for d and t :: rstr using that by (auto simp: dropWhile_eq_Nil_conv)
  show "91 \<notin> set s \<Longrightarrow> bracketed_numbers s = []" by (subst bracketed_numbers.simps) (simp add: e)
  assume "91 \<notin> set p" "93 \<notin> set t"
  then show "bracketed_numbers (p @ 91 # t) = []"
    using dropWhile_found [of 91 p t] by (subst bracketed_numbers.simps) (simp add: e)
qed

lemma bracketed_cases:
  obtains (none) "91 \<notin> set s" | (unclosed) p t where "s = p @ 91 # t" "91 \<notin> set p" "93 \<notin> set t"
  | (pair) p b r where "s = p @ 91 # b @ 93 # r" "91 \<notin> set p" "93 \<notin> set b"
  by (metis split_list_first)

text \<open>Where two decompositions at a bracket meet.\<close>

lemma append_bracket_eq:
  assumes "p @ 91 # t = a @ 91 # u" "(91 :: nat) \<notin> set p"
  shows "(a = p \<and> u = t) \<or> (\<exists>a'. a = p @ 91 # a' \<and> t = a' @ 91 # u)"
  using assms by (auto simp: append_eq_append_conv2 Cons_eq_append_conv append_eq_Cons_conv)

lemma cites_first:
  assumes s: "s = p @ 91 # b @ 93 # r" "91 \<notin> set p" "93 \<notin> set b" and u: "unnested s"
  shows "cites s n \<longleftrightarrow> parse_uint u32_max (trim b) = Some n \<or> cites r n"
proof
  have nb: "91 \<notin> set b" using u s unfolding unnested_def by blast
  { assume "cites s n"
    then obtain a x c where c: "s = a @ 91 # x @ 93 # c" "91 \<notin> set x" "93 \<notin> set x" "parse_uint u32_max (trim x) = Some n"
      unfolding cites_def by blast
    consider "x @ 93 # c = b @ 93 # r" | a' where "b @ 93 # r = a' @ 91 # x @ 93 # c"
      using append_bracket_eq [of p "b @ 93 # r" a "x @ 93 # c"] s(1,2) c(1) by auto
    then show "parse_uint u32_max (trim b) = Some n \<or> cites r n"
    proof cases
      case 1
      then have "x = b" using dropWhile_found [OF c(3), of c] dropWhile_found [OF s(3), of r] by metis
      then show ?thesis using c(4) by blast
    next
      case 2
      then obtain a'' where "r = a'' @ 91 # x @ 93 # c"
        using nb by (auto simp: append_eq_append_conv2 Cons_eq_append_conv append_eq_Cons_conv)
      then show ?thesis using c unfolding cites_def by blast
    qed }
  assume "parse_uint u32_max (trim b) = Some n \<or> cites r n"
  then show "cites s n"
  proof
    assume "cites r n"
    then obtain a x c where "r = a @ 91 # x @ 93 # c" "91 \<notin> set x" "93 \<notin> set x" "parse_uint u32_max (trim x) = Some n"
      unfolding cites_def by blast
    moreover from this have "s = (p @ 91 # b @ 93 # a) @ 91 # x @ 93 # c" using s(1) by simp
    ultimately show ?thesis unfolding cites_def by blast
  qed (use s nb in \<open>auto simp: cites_def\<close>)
qed

lemma bracketed_exact: "unnested s \<Longrightarrow> n \<in> set (bracketed_numbers s) \<longleftrightarrow> cites s n"
proof (induction s rule: length_induct)
  case (1 s)
  show ?case
  proof (cases s rule: bracketed_cases)
    case none
    then show ?thesis by (auto simp: bracketed_stop cites_def)
  next
    case (unclosed p t)
    have "\<not> cites s n"
    proof
      assume "cites s n"
      then obtain a b c where "s = a @ 91 # b @ 93 # c" unfolding cites_def by blast
      then show False using append_bracket_eq [of p t a "b @ 93 # c"] unclosed by auto
    qed
    then show ?thesis using bracketed_stop(2) [OF unclosed(2,3)] unclosed(1) by simp
  next
    case (pair p b r)
    have "unnested r" using unnested_suffix [of "p @ 91 # b @ [93]" r] "1.prems" pair(1) by simp
    moreover have "length r < length s" using pair(1) by simp
    ultimately have "n \<in> set (bracketed_numbers r) \<longleftrightarrow> cites r n" using "1.IH" by blast
    then show ?thesis using cites_first [OF pair "1.prems"] bracketed_step [OF pair(2,3), of r] pair(1)
      by (auto split: option.splits)
  qed
qed

text \<open>C29. On an answer without nested brackets the citation check accepts exactly when every number the answer cites is among
  the evidence's citation numbers.  With an unmatched opening bracket before it a citation is overlooked.\<close>

theorem validate_citations_exact:
  "(unnested answer \<longrightarrow> (validate_citations answer (Some ev) = Inr () \<longleftrightarrow> (\<forall>n. cites answer n \<longrightarrow> n \<in> set (ev_citation_numbers ev))))
   \<and> cites (str ''[x [9]'') 9 \<and> validate_citations (str ''[x [9]'') (Some ev) = Inr ()"
proof (intro conjI impI)
  assume "unnested answer"
  then show "validate_citations answer (Some ev) = Inr () \<longleftrightarrow> (\<forall>n. cites answer n \<longrightarrow> n \<in> set (ev_citation_numbers ev))"
    using bracketed_exact [of answer] by (auto simp: validate_citations_def for_each_Inr)
next
  have t: "trim [57] = [57]" by (simp add: trim_def trim_start_def trim_end_def is_whitespace_def)
  have "str ''[x [9]'' = [91, 120, 32] @ 91 # [57] @ 93 # []" by (simp add: str_def)
  then show "cites (str ''[x [9]'') 9" unfolding cites_def
    by (intro exI [of _ "[91, 120, 32]"] exI [of _ "[57]"] exI [of _ "[]"])
      (simp add: t parse_uint_def ascii_defs digits_value_def u32_max_def)
next
  have "trim [120, 32, 91, 57] = [120, 32, 91, 57]" by (simp add: trim_def trim_start_def trim_end_def is_whitespace_def)
  then have "bracketed_numbers (str ''[x [9]'') = []"
    using bracketed_step [of "[]" "[120, 32, 91, 57]" "[]"] bracketed_stop(1) [of "[]"]
    by (simp add: str_def parse_uint_def ascii_defs)
  then show "validate_citations (str ''[x [9]'') (Some ev) = Inr ()" by (simp add: validate_citations_def)
qed

text \<open>An answer that cites the second of one piece of evidence.\<close>

theorem validate_citations_exact_witness:
  "validate_citations (str ''see [2]'') (Some \<lparr>evidence_pack_id = [], ev_citation_numbers = [1]\<rparr>) \<noteq> Inr ()"
proof -
  have t: "trim [50] = [50]" by (simp add: trim_def trim_start_def trim_end_def is_whitespace_def)
  have "str ''see [2]'' = [115, 101, 101, 32] @ 91 # [50] @ 93 # []" by (simp add: str_def)
  then have "cites (str ''see [2]'') 2" unfolding cites_def
    by (intro exI [of _ "[115, 101, 101, 32]"] exI [of _ "[50]"] exI [of _ "[]"])
      (simp add: t parse_uint_def ascii_defs digits_value_def u32_max_def)
  moreover have "unnested (str ''see [2]'')" by (auto simp: unnested_def str_def Cons_eq_append_conv)
  ultimately show ?thesis
    using validate_citations_exact [of "str ''see [2]''" "\<lparr>evidence_pack_id = [], ev_citation_numbers = [1]\<rparr>"] by fastforce
qed

section \<open>The input queue\<close>

datatype queue_op = OpEnqueue AgentInputKind ContextEntry | OpTake AgentInputKind | OpModes AgentInputQueueMode AgentInputQueueMode | OpIsEmpty

text \<open>A queue with, for each kind, what has been taken from it and what has been put into it.\<close>

type_synonym traced_queue = "AgentInputQueue \<times> (AgentInputKind \<Rightarrow> ContextEntry list) \<times> (AgentInputKind \<Rightarrow> ContextEntry list)"

fun queue_step :: "traced_queue \<Rightarrow> queue_op \<Rightarrow> traced_queue" where
  "queue_step (q, taken, put) (OpEnqueue kind e) =
     (case enqueue kind e q of (Inr _, q') \<Rightarrow> (q', taken, put(kind := put kind @ [e])) | (Inl _, q') \<Rightarrow> (q', taken, put))"
| "queue_step (q, taken, put) (OpTake kind) =
     (case take_input kind q of (Inr es, q') \<Rightarrow> (q', taken(kind := taken kind @ es), put) | (Inl _, q') \<Rightarrow> (q', taken, put))"
| "queue_step (q, taken, put) (OpModes a b) = (snd (set_modes a b q), taken, put)"
| "queue_step (q, taken, put) OpIsEmpty = (snd (input_is_empty q), taken, put)"

definition queue_ok :: "traced_queue \<Rightarrow> bool" where
  "queue_ok s = (case s of (q, taken, put) \<Rightarrow> \<forall>kind. taken kind @ queue_of kind q = put kind)"

lemma queue_step_ok: "queue_ok s \<Longrightarrow> queue_ok (queue_step s a)"
proof -
  assume ok: "queue_ok s"
  obtain q taken put where s: "s = (q, taken, put)" by (cases s)
  note defs = queue_ok_def with_queue_def queue_of_def set_queue_def Let_def
  show ?thesis
  proof (cases a)
    case (OpEnqueue kind e)
    then show ?thesis using ok s by (cases kind) (auto simp: defs enqueue_def split: AgentInputKind.splits)
  next
    case (OpTake kind)
    then show ?thesis using ok s
      by (cases kind) (auto simp: defs take_input_def take_Suc neq_Nil_conv split: AgentInputKind.splits list.splits)
  qed (use ok s in \<open>auto simp: defs set_modes_def input_is_empty_def split: AgentInputKind.splits\<close>)
qed

interpretation input_queue: invariant_system queue_step queue_ok "\<lambda>_. True"
  by unfold_locales (rule queue_step_ok)

text \<open>The input queue loses, repeats and reorders nothing: after any sequence of enqueues, takes (of all entries or one
  at a time) and mode changes, the entries of a kind that were taken, in order, followed by those still queued, are the
  entries of that kind that were put in, in order.\<close>

theorem input_queue_fifo:
  "case foldl queue_step (AgentInputQueue_default, \<lambda>_. [], \<lambda>_. []) ops of
     (q, taken, put) \<Rightarrow> taken kind @ queue_of kind q = put kind"
proof -
  have "queue_ok (AgentInputQueue_default, \<lambda>_. [], \<lambda>_. [])"
    by (simp add: queue_ok_def AgentInputQueue_default_def queue_of_def split: AgentInputKind.split)
  then have "queue_ok (foldl queue_step (AgentInputQueue_default, \<lambda>_. [], \<lambda>_. []) ops)"
    by (rule input_queue.inv_run) (simp add: list_all_iff)
  then show ?thesis by (auto simp: queue_ok_def split: prod.splits)
qed

end
