(* ===== verification/Task_Delivery.thy ===== *)
theory Task_Delivery
  imports Task_Model Agent_Protocol
begin

text \<open>
  Results of background tasks on their way back to the agent run that started them (\<open>tasks/agent_delivery.rs\<close>): the
  delivery, its text for the model, and the bounds on what a delivery carries.  \<open>Value::to_string\<close> is the parameter
  \<open>display\<close>.
\<close>

record TaskDelivery =
  dl_task_id :: uuid
  dl_run_id :: uuid
  dl_tool_call_id :: uuid
  dl_kind :: rstr
  dl_state :: TaskState
  dl_progress :: nat
  dl_error_code :: "rstr option"
  dl_result :: json

text \<open>The Chinese text of the instruction, as scalar values.\<close>

definition DELIVERY_INSTRUCTION :: rstr where
  "DELIVERY_INSTRUCTION = [36825, 26159, 21018, 25165, 25552, 20132, 30340, 21518, 21488, 20219, 21153, 30340, 26368, 32456, 32467, 26524, 12290,
     32487, 32493, 21407, 29992, 25143, 35831, 27714, 65292, 22522, 20110, 32467, 26524, 23436, 25104, 20998, 26512, 21644,
     21518, 32493, 27493, 39588, 12290, 22833, 36133, 12289, 26242, 20572, 25110, 21462, 28040, 26102, 35831, 26126, 30830,
     21453, 39304, 65292, 19981, 35201, 25226, 23427, 24403, 25104, 25104, 21151, 12290]"

fun json_of_option :: "rstr option \<Rightarrow> json" where
  "json_of_option None = JNull"
| "json_of_option (Some s) = JString s"

text \<open>The object of \<open>json!\<close>, its keys in the order of the map.\<close>

definition delivery_value :: "TaskDelivery \<Rightarrow> json" where
  "delivery_value d = JObject
     [(str ''background_task_id'', JString (dl_task_id d)),
      (str ''error_code'', json_of_option (dl_error_code d)),
      (str ''instruction'', JString DELIVERY_INSTRUCTION),
      (str ''kind'', JString (dl_kind d)),
      (str ''progress'', JNumber (PosInt (dl_progress d))),
      (str ''result'', dl_result d),
      (str ''source_run_id'', JString (dl_run_id d)),
      (str ''source_tool_call_id'', JString (dl_tool_call_id d)),
      (str ''state'', JString (as_str (dl_state d))),
      (str ''success'', JBool (dl_state d = TaskState.Completed))]"

definition delivery_message :: "(json \<Rightarrow> rstr) \<Rightarrow> TaskDelivery \<Rightarrow> rstr" where
  "delivery_message display d = display (delivery_value d)"

definition delivery_terminal :: "TaskState \<Rightarrow> bool" where
  "delivery_terminal s \<longleftrightarrow> s \<in> {TaskState.Completed, TaskState.Failed, TaskState.Cancelled, TaskState.Interrupted, TaskState.Paused}"

text \<open>The state of a progress event is the task state read back from its JSON name.\<close>

fun progress_state :: "TaskState \<Rightarrow> TaskProgressState" where
  "progress_state Queued = TpQueued"
| "progress_state Running = TpRunning"
| "progress_state WaitingExternal = TpWaitingExternal"
| "progress_state Paused = TpPaused"
| "progress_state TaskState.Completed = TpCompleted"
| "progress_state TaskState.Failed = TpFailed"
| "progress_state TaskState.Cancelled = TpCancelled"
| "progress_state TaskState.Interrupted = TpInterrupted"

section \<open>The bounds of a delivery\<close>

lemma size_taken [termination_simp]: "(x :: json) \<in> set (take n vs) \<Longrightarrow> size x < Suc (size_list size vs)"
  using array_elem_size [OF in_set_takeD, of x n vs] by simp

text \<open>\<open>compact_result\<close>; the second component is whether \<open>summary_only\<close> is raised.\<close>

fun compact_result :: "json \<Rightarrow> json \<times> bool" where
  "compact_result (JObject fs) =
     (let kept = map (\<lambda>(k, v). (k, compact_result v)) (filter (\<lambda>(k, v). \<not> ends_with (str ''_base64'') k) fs) in
      (JObject (map (\<lambda>(k, r). (k, fst r)) kept), list_ex (\<lambda>(k, r). snd r) kept))"
| "compact_result (JArray vs) =
     (let kept = map compact_result (take 100 vs) in (JArray (map fst kept), 100 < length vs \<or> list_ex snd kept))"
| "compact_result (JString s) = (if 16000 < str_len s then (JString (take 8000 s), True) else (JString s, False))"
| "compact_result v = (v, False)"

definition priority_keys :: "rstr list" where
  "priority_keys = map str [''state'', ''metrics'', ''warnings'', ''validation'', ''algorithm'', ''method'', ''predictions'', ''recommendations'']"

definition key_rank :: "rstr \<Rightarrow> nat" where
  "key_rank k = length (takeWhile (\<lambda>name. name \<noteq> k) priority_keys)"

text \<open>The loop over the fields: what is kept and the keys left out.\<close>

fun pick_fields :: "(json \<Rightarrow> rstr) \<Rightarrow> nat \<Rightarrow> (rstr \<times> json) list \<Rightarrow> (rstr, json) btree \<Rightarrow> (rstr, json) btree \<times> rstr list" where
  "pick_fields display used [] summary = (summary, [])"
| "pick_fields display used ((k, v) # fs) summary =
     (let bytes = str_len (display v) + str_len k + 8 in
      if used + bytes < 22 * 1024 then pick_fields display (used + bytes) fs (btree_insert k v summary)
      else (case pick_fields display used fs summary of (summary', omitted) \<Rightarrow> (summary', k # omitted)))"

definition bounded_result :: "(json \<Rightarrow> rstr) \<Rightarrow> json \<Rightarrow> uuid \<Rightarrow> bool \<Rightarrow> json" where
  "bounded_result display result task_id summary_only =
     (let mark = (\<lambda>fs. btree_insert (str ''full_result_task_id'') (JString task_id)
            (btree_insert (str ''delivery_summary_only'') (JBool True) fs)) in
      if str_len (display result) \<le> 24 * 1024
      then (case result of JObject fs \<Rightarrow> if summary_only then JObject (mark fs) else result | _ \<Rightarrow> result)
      else
        (let fs = (case result of JObject fs \<Rightarrow> sort_by (\<lambda>x y. key_rank (fst x) \<le> key_rank (fst y)) fs | _ \<Rightarrow> []) in
         case pick_fields display 512 fs (mark []) of (summary, omitted) \<Rightarrow>
           JObject (btree_insert (str ''omitted_fields'') (JArray (map JString (take 30 omitted)))
             (btree_insert (str ''omitted_field_count'') (JNumber (PosInt (length omitted))) summary))))"

end
