(* ===== verification/Tool_Repair.thy ===== *)
theory Tool_Repair
  imports Agent_Protocol
begin

text \<open>
  Validation of the tool calls a model emits (\<open>agent/tool_repair.rs\<close>): the envelope, the two syntax repairs, the choice of
  the tool, and the check of the arguments against the tool's input schema.  \<open>serde_json::from_str\<close> is the parameter
  \<open>from_str\<close>.
\<close>

definition MAX_REPAIR_RETRIES :: nat where
  "MAX_REPAIR_RETRIES = 2"

record ToolSpec =
  sp_id :: rstr
  sp_name :: rstr
  sp_input_schema :: json
  sp_risk :: PermissionRisk

datatype SyntaxRepair = RemovedJsonFence | RemovedTrailingCommas

record RepairedToolCall =
  rt_tool_id :: rstr
  rt_tool_name :: rstr
  rt_arguments :: json
  rt_risk :: PermissionRisk
  rt_syntax_repairs :: "SyntaxRepair list"

record RepairFeedback =
  fb_attempt :: nat
  fb_code :: rstr
  fb_message :: rstr
  fb_path :: "rstr option"

datatype ToolRepairError =
    InvalidJson rstr
  | InvalidEnvelope rstr
  | MissingToolName
  | MissingArguments
  | InvalidArguments rstr
  | UnknownTool rstr
  | AmbiguousTool rstr
  | AmbiguousArguments rstr "rstr option"
  | InvalidSchema rstr
  | RequiredArgumentMissing rstr
  | TypeMismatch rstr rstr rstr
  | UnknownArgument rstr
  | ConstraintViolation rstr rstr
  | RetryExhausted nat ToolRepairError

fun repair_error_code :: "ToolRepairError \<Rightarrow> rstr" where
  "repair_error_code (InvalidJson _) = str ''invalid_json''"
| "repair_error_code (InvalidEnvelope _) = str ''invalid_tool_call_envelope''"
| "repair_error_code MissingToolName = str ''missing_tool_name''"
| "repair_error_code MissingArguments = str ''missing_arguments''"
| "repair_error_code (InvalidArguments _) = str ''invalid_arguments''"
| "repair_error_code (UnknownTool _) = str ''unknown_tool''"
| "repair_error_code (AmbiguousTool _) = str ''ambiguous_tool''"
| "repair_error_code (AmbiguousArguments _ _) = str ''ambiguous_arguments''"
| "repair_error_code (InvalidSchema _) = str ''schema_invalid''"
| "repair_error_code (RequiredArgumentMissing _) = str ''schema_required_missing''"
| "repair_error_code (TypeMismatch _ _ _) = str ''schema_type_mismatch''"
| "repair_error_code (UnknownArgument _) = str ''schema_unknown_argument''"
| "repair_error_code (ConstraintViolation _ _) = str ''schema_constraint_failed''"
| "repair_error_code (RetryExhausted _ _) = str ''repair_retry_exhausted''"

fun repair_error_path :: "ToolRepairError \<Rightarrow> rstr option" where
  "repair_error_path (AmbiguousArguments _ p) = p"
| "repair_error_path (RequiredArgumentMissing p) = Some p"
| "repair_error_path (TypeMismatch p _ _) = Some p"
| "repair_error_path (UnknownArgument p) = Some p"
| "repair_error_path (ConstraintViolation p _) = Some p"
| "repair_error_path (RetryExhausted _ e) = repair_error_path e"
| "repair_error_path _ = None"

text \<open>The message, and with the code in front of it the \<open>Display\<close> text.\<close>

fun repair_error_message :: "ToolRepairError \<Rightarrow> rstr" where
  "repair_error_message (InvalidJson m) = str ''tool call is not valid JSON: '' @ m"
| "repair_error_message (InvalidEnvelope m) = m"
| "repair_error_message MissingToolName = str ''tool call must contain an explicit tool name''"
| "repair_error_message MissingArguments = str ''tool call must contain explicit arguments''"
| "repair_error_message (InvalidArguments m) = m"
| "repair_error_message (UnknownTool n) = str ''tool is not registered: '' @ n"
| "repair_error_message (AmbiguousTool n) = str ''tool name resolves to multiple tools: '' @ n"
| "repair_error_message (AmbiguousArguments m _) = m"
| "repair_error_message (InvalidSchema m) = str ''tool input schema is invalid: '' @ m"
| "repair_error_message (RequiredArgumentMissing p) = str ''required argument '' @ p @ str '' is missing''"
| "repair_error_message (TypeMismatch p e a) = str ''argument '' @ p @ str '' expected '' @ e @ str '', got '' @ a"
| "repair_error_message (UnknownArgument p) = str ''argument '' @ p @ str '' is not allowed by the schema''"
| "repair_error_message (ConstraintViolation p m) = str ''argument '' @ p @ str '' '' @ m"
| "repair_error_message (RetryExhausted n e) =
     str ''tool call repair failed after '' @ show_nat n @ str '' attempts: ''
     @ repair_error_code e @ str '': '' @ repair_error_message e"

definition repair_error_display :: "ToolRepairError \<Rightarrow> rstr" where
  "repair_error_display e = repair_error_code e @ str '': '' @ repair_error_message e"

section \<open>Syntax\<close>

definition FENCE :: rstr where
  "FENCE = [96, 96, 96]"

text \<open>\<open>str::find\<close> and \<open>str::rfind\<close> of a substring, as the text before and after the occurrence.\<close>

fun split_first :: "rstr \<Rightarrow> rstr \<Rightarrow> (rstr \<times> rstr) option" where
  "split_first p [] = (if p = [] then Some ([], []) else None)"
| "split_first p (c # cs) =
     (if starts_with p (c # cs) then Some ([], drop (length p) (c # cs))
      else map_option (\<lambda>(a, b). (c # a, b)) (split_first p cs))"

definition split_last :: "rstr \<Rightarrow> rstr \<Rightarrow> (rstr \<times> rstr) option" where
  "split_last p s = map_option (\<lambda>(a, b). (rev b, rev a)) (split_first (rev p) (rev s))"

definition strip_json_fence :: "rstr \<Rightarrow> (ToolRepairError, rstr \<times> bool) result" where
  "strip_json_fence raw =
     (let trimmed = trim raw in
      if \<not> starts_with FENCE trimmed then Inr (trimmed, False)
      else
        (case split_first [10] trimmed of
           None \<Rightarrow> Inl (InvalidJson (str ''unterminated JSON code fence''))
         | Some (head, body) \<Rightarrow>
             (let language = trim (drop 3 head) in
              if language \<noteq> [] \<and> to_ascii_lowercase language \<noteq> str ''json''
              then Inl (InvalidJson (str ''unsupported code fence language: '' @ language))
              else
                (case split_last FENCE body of
                   None \<Rightarrow> Inl (InvalidJson (str ''unterminated JSON code fence''))
                 | Some (inner, rest) \<Rightarrow>
                     if trim rest \<noteq> [] then Inl (InvalidJson (str ''text after JSON code fence is not allowed''))
                     else Inr (trim inner, True)))))"

text \<open>The scan of \<open>remove_trailing_commas\<close>: whether it is inside a string, and after a backslash there.\<close>

fun comma_scan :: "bool \<Rightarrow> bool \<Rightarrow> rstr \<Rightarrow> rstr \<times> bool" where
  "comma_scan in_string escaped [] = ([], False)"
| "comma_scan in_string escaped (c # cs) =
     (if in_string then
        (case comma_scan (escaped \<or> c = 92 \<or> c \<noteq> 34) (\<not> escaped \<and> c = 92) cs of (out, removed) \<Rightarrow> (c # out, removed))
      else if c = 34 then (case comma_scan True escaped cs of (out, removed) \<Rightarrow> (c # out, removed))
      else if c = 44 \<and> find (\<lambda>d. \<not> is_whitespace d) cs \<in> {Some 125, Some 93}
      then (case comma_scan False escaped cs of (out, removed) \<Rightarrow> (out, True))
      else (case comma_scan False escaped cs of (out, removed) \<Rightarrow> (c # out, removed)))"

definition remove_trailing_commas :: "rstr \<Rightarrow> rstr \<times> bool" where
  "remove_trailing_commas input = comma_scan False False input"

definition parse_json_document ::
  "(rstr \<Rightarrow> (rstr, json) result) \<Rightarrow> rstr \<Rightarrow> (ToolRepairError, json \<times> SyntaxRepair list) result" where
  "parse_json_document from_str raw =
     rbind (strip_json_fence raw) (\<lambda>(body, fenced).
     case remove_trailing_commas body of (normalized, trailing_commas) \<Rightarrow>
     rbind (map_err InvalidJson (from_str normalized)) (\<lambda>v.
     Inr (v, (if fenced then [RemovedJsonFence] else []) @ (if trailing_commas then [RemovedTrailingCommas] else []))))"

section \<open>The envelope\<close>

definition permission_keys :: "rstr list" where
  "permission_keys = map str [''permission'', ''permission_intent'', ''risk'', ''allow'', ''dangerous'']"

definition collect_name :: "(rstr \<times> json) list \<Rightarrow> rstr \<Rightarrow> rstr list \<Rightarrow> (ToolRepairError, rstr list) result" where
  "collect_name object key names =
     (case obj_get key object of
        None \<Rightarrow> Inr names
      | Some v \<Rightarrow>
          (case json_as_str v of
             None \<Rightarrow> Inl (InvalidEnvelope (str ''tool name field '' @ key @ str '' must be a string''))
           | Some s \<Rightarrow> if trim s = [] then Inl MissingToolName else Inr (names @ [trim s])))"

definition collect_argument :: "(rstr \<times> json) list \<Rightarrow> rstr \<Rightarrow> json list \<Rightarrow> json list" where
  "collect_argument object key arguments = (case obj_get key object of None \<Rightarrow> arguments | Some v \<Rightarrow> arguments @ [v])"

definition unique_name :: "rstr list \<Rightarrow> (ToolRepairError, rstr) result" where
  "unique_name names =
     (case names of
        [] \<Rightarrow> Inl MissingToolName
      | first # _ \<Rightarrow>
          if list_ex (\<lambda>n. n \<noteq> first) names
          then Inl (AmbiguousArguments (str ''tool call contains conflicting tool names'') (Some (str ''$.name'')))
          else Inr first)"

definition unique_value :: "json list \<Rightarrow> (ToolRepairError, json option) result" where
  "unique_value values =
     (case values of
        [] \<Rightarrow> Inr None
      | first # _ \<Rightarrow>
          if list_ex (\<lambda>v. \<not> json_eq v first) values
          then Inl (AmbiguousArguments (str ''tool call contains conflicting argument objects'') (Some (str ''$.arguments'')))
          else Inr (Some first))"

text \<open>\<open>for key in [...] { collect_name(object, key, &mut names)?; }\<close>\<close>

fun collect_names :: "(rstr \<times> json) list \<Rightarrow> rstr list \<Rightarrow> rstr list \<Rightarrow> (ToolRepairError, rstr list) result" where
  "collect_names object [] names = Inr names"
| "collect_names object (k # ks) names = rbind (collect_name object k names) (collect_names object ks)"

definition collect_function :: "(rstr \<times> json) list \<Rightarrow> (ToolRepairError, rstr list \<times> json list) result" where
  "collect_function object =
     (case obj_get (str ''function'') object of
        None \<Rightarrow> Inr ([], [])
      | Some v \<Rightarrow>
          (case as_object v of
             None \<Rightarrow> Inl (InvalidEnvelope (str ''function must be a JSON object''))
           | Some function \<Rightarrow>
               rbind (collect_name function (str ''name'') []) (\<lambda>names.
               Inr (names, collect_argument function (str ''arguments'') []))))"

definition extract_call_parts :: "json \<Rightarrow> (ToolRepairError, rstr \<times> json) result" where
  "extract_call_parts v =
     (case as_object v of
        None \<Rightarrow> Inl (InvalidEnvelope (str ''tool call envelope must be a JSON object''))
      | Some object \<Rightarrow>
          rbind (for_each (\<lambda>key. ensure (obj_get key object = None)
            (AmbiguousArguments (str ''tool call cannot declare permission intent in field '' @ key) (Some (str ''$.'' @ key)))) permission_keys) (\<lambda>_.
          rbind (collect_function object) (\<lambda>(names, arguments).
          rbind (collect_names object (map str [''name'', ''tool'', ''tool_name'']) names) (\<lambda>names.
          let arguments = foldl (\<lambda>args key. collect_argument object key args) arguments
            (map str [''arguments'', ''parameters'', ''input'']) in
          rbind (unique_name names) (\<lambda>name.
          rbind (unique_value arguments) (\<lambda>raw.
          rbind (ok_or MissingArguments raw) (\<lambda>raw_arguments.
          Inr (name, raw_arguments))))))))"

definition parse_arguments ::
  "(rstr \<Rightarrow> (rstr, json) result) \<Rightarrow> json \<Rightarrow> SyntaxRepair list \<Rightarrow> (ToolRepairError, json \<times> SyntaxRepair list) result" where
  "parse_arguments from_str v syntax_repairs =
     (case v of
        JObject fs \<Rightarrow> Inr (v, syntax_repairs)
      | JString raw \<Rightarrow>
          rbind (parse_json_document from_str raw) (\<lambda>(w, repairs).
          case as_object w of
            Some _ \<Rightarrow> Inr (w, syntax_repairs @ repairs)
          | None \<Rightarrow> Inl (InvalidArguments (str ''arguments must decode to a JSON object'')))
      | _ \<Rightarrow> Inl (InvalidArguments (str ''arguments must be a JSON object or an encoded JSON object'')))"

definition has_key :: "string \<Rightarrow> (rstr \<times> json) list \<Rightarrow> bool" where
  "has_key k fs \<longleftrightarrow> obj_get (str k) fs \<noteq> None"

definition reject_parameter_aliases :: "json \<Rightarrow> json \<Rightarrow> (ToolRepairError, unit) result" where
  "reject_parameter_aliases arguments schema =
     (case (as_object arguments, Option.bind (as_object schema) (\<lambda>s. Option.bind (obj_get (str ''properties'') s) as_object)) of
        (Some args, Some properties) \<Rightarrow>
          rbind (ensure (\<not> (has_key ''path'' properties \<and> has_key ''path'' args
              \<and> list_ex (\<lambda>a. has_key a args) [''file'', ''file_path'', ''filepath'']))
            (AmbiguousArguments (str ''path and a path alias were supplied; no path can be inferred'') (Some (str ''$.path'')))) (\<lambda>_.
          ensure (\<not> (has_key ''command'' properties \<and> has_key ''command'' args
              \<and> list_ex (\<lambda>a. has_key a args) [''cmd'', ''shell_command'']))
            (AmbiguousArguments (str ''command and a command alias were supplied; no command can be inferred'') (Some (str ''$.command''))))
      | _ \<Rightarrow> Inr ())"

section \<open>Schemas\<close>

fun as_u64 :: "json \<Rightarrow> nat option" where
  "as_u64 (JNumber (PosInt n)) = Some n"
| "as_u64 _ = None"

fun is_integer :: "json \<Rightarrow> bool" where
  "is_integer (JNumber (PosInt n)) = True"
| "is_integer (JNumber (NegInt n)) = True"
| "is_integer _ = False"

fun is_number :: "json \<Rightarrow> bool" where
  "is_number (JNumber n) = True"
| "is_number _ = False"

definition type_test :: "rstr \<Rightarrow> (json \<Rightarrow> bool) option" where
  "type_test t =
     (if t = str ''null'' then Some (\<lambda>v. v = JNull)
      else if t = str ''boolean'' then Some is_boolean
      else if t = str ''number'' then Some is_number
      else if t = str ''integer'' then Some is_integer
      else if t = str ''string'' then Some (\<lambda>v. json_as_str v \<noteq> None)
      else if t = str ''array'' then Some is_array
      else if t = str ''object'' then Some (\<lambda>v. as_object v \<noteq> None)
      else None)"

text \<open>\<open>matches_type\<close>, with the \<open>try_fold\<close> over an array of types: a type after the first match is not looked at.\<close>

fun matches_type :: "json \<Rightarrow> json \<Rightarrow> (ToolRepairError, bool) result"
  and matches_fold :: "json \<Rightarrow> bool \<Rightarrow> json list \<Rightarrow> (ToolRepairError, bool) result" where
  "matches_type v (JString t) =
     (case type_test t of
        Some test \<Rightarrow> Inr (test v)
      | None \<Rightarrow> Inl (InvalidSchema (str ''unsupported JSON Schema type: '' @ t)))"
| "matches_type v (JArray ts) =
     (if ts = [] then Inl (InvalidSchema (str ''type array cannot be empty'')) else matches_fold v False ts)"
| "matches_type v _ = Inl (InvalidSchema (str ''type must be a string or an array''))"
| "matches_fold v matched [] = Inr matched"
| "matches_fold v matched (t # ts) = rbind (if matched then Inr True else matches_type v t) (\<lambda>m. matches_fold v m ts)"

fun expected_type_name :: "json \<Rightarrow> rstr" where
  "expected_type_name (JString t) = t"
| "expected_type_name (JArray ts) = join (str '' or '') (List.map_filter json_as_str ts)"
| "expected_type_name _ = str ''valid JSON type''"

fun value_type_name :: "json \<Rightarrow> rstr" where
  "value_type_name JNull = str ''null''"
| "value_type_name (JBool _) = str ''boolean''"
| "value_type_name (JNumber (Float _)) = str ''number''"
| "value_type_name (JNumber _) = str ''integer''"
| "value_type_name (JString _) = str ''string''"
| "value_type_name (JArray _) = str ''array''"
| "value_type_name (JObject _) = str ''object''"

definition join_path :: "rstr \<Rightarrow> rstr \<Rightarrow> rstr" where
  "join_path parent field = (if parent = str ''$'' then str ''$.'' @ field else parent @ str ''.'' @ field)"

definition validate_string :: "rstr \<Rightarrow> (rstr \<times> json) list \<Rightarrow> rstr \<Rightarrow> (ToolRepairError, unit) result" where
  "validate_string s schema path =
     rbind (if_some (\<lambda>minimum. ensure (\<not> length s < minimum)
       (ConstraintViolation path (str ''must contain at least '' @ show_nat minimum @ str '' characters'')))
       (Option.bind (obj_get (str ''minLength'') schema) as_u64)) (\<lambda>_.
     if_some (\<lambda>maximum. ensure (\<not> maximum < length s)
       (ConstraintViolation path (str ''must contain at most '' @ show_nat maximum @ str '' characters'')))
       (Option.bind (obj_get (str ''maxLength'') schema) as_u64))"

text \<open>The head of a schema: its \<open>type\<close> and \<open>enum\<close>.\<close>

definition validate_head :: "json \<Rightarrow> (rstr \<times> json) list \<Rightarrow> rstr \<Rightarrow> (ToolRepairError, unit) result" where
  "validate_head v schema path =
     rbind (if_some (\<lambda>expected. rbind (matches_type v expected) (\<lambda>b.
       ensure b (TypeMismatch path (expected_type_name expected) (value_type_name v)))) (obj_get (str ''type'') schema)) (\<lambda>_.
     if_some (\<lambda>enum_values.
       case as_array enum_values of
         None \<Rightarrow> Inl (InvalidSchema (str ''enum must be an array''))
       | Some candidates \<Rightarrow> ensure (list_ex (\<lambda>candidate. json_eq candidate v) candidates)
           (ConstraintViolation path (str ''is not one of the permitted values''))) (obj_get (str ''enum'') schema))"

definition schema_properties :: "(rstr \<times> json) list \<Rightarrow> (ToolRepairError, (rstr \<times> json) list) result" where
  "schema_properties schema =
     (case obj_get (str ''properties'') schema of
        None \<Rightarrow> Inr []
      | Some v \<Rightarrow> ok_or (InvalidSchema (str ''properties must be an object'')) (as_object v))"

text \<open>What \<open>validate_object\<close> checks before it descends: \<open>required\<close> and \<open>additionalProperties\<close>.\<close>

definition validate_keys :: "(rstr \<times> json) list \<Rightarrow> (rstr \<times> json) list \<Rightarrow> (rstr \<times> json) list \<Rightarrow> rstr \<Rightarrow> (ToolRepairError, unit) result" where
  "validate_keys fs schema properties path =
     rbind (if_some (\<lambda>required.
       case as_array required of
         None \<Rightarrow> Inl (InvalidSchema (str ''required must be an array''))
       | Some names \<Rightarrow> for_each (\<lambda>field.
           case json_as_str field of
             None \<Rightarrow> Inl (InvalidSchema (str ''required entries must be strings''))
           | Some k \<Rightarrow> ensure (obj_get k fs \<noteq> None) (RequiredArgumentMissing (join_path path k))) names)
       (obj_get (str ''required'') schema)) (\<lambda>_.
     if obj_get (str ''additionalProperties'') schema = Some (JBool False)
     then for_each (\<lambda>k. ensure (obj_get k properties \<noteq> None) (UnknownArgument (join_path path k))) (map fst fs)
     else Inr ())"

definition validate_length :: "json list \<Rightarrow> (rstr \<times> json) list \<Rightarrow> rstr \<Rightarrow> (ToolRepairError, unit) result" where
  "validate_length vs schema path =
     rbind (if_some (\<lambda>minimum. ensure (\<not> length vs < minimum)
       (ConstraintViolation path (str ''must contain at least '' @ show_nat minimum @ str '' items'')))
       (Option.bind (obj_get (str ''minItems'') schema) as_u64)) (\<lambda>_.
     if_some (\<lambda>maximum. ensure (\<not> maximum < length vs)
       (ConstraintViolation path (str ''must contain at most '' @ show_nat maximum @ str '' items'')))
       (Option.bind (obj_get (str ''maxItems'') schema) as_u64))"

function validate_value :: "json \<Rightarrow> json \<Rightarrow> rstr \<Rightarrow> (ToolRepairError, unit) result" where
  "validate_value v schema path =
     (case as_object schema of
        None \<Rightarrow> Inl (InvalidSchema (str ''schema must be a JSON object''))
      | Some schema \<Rightarrow>
          rbind (validate_head v schema path) (\<lambda>_.
          case v of
            JObject fs \<Rightarrow>
              rbind (schema_properties schema) (\<lambda>properties.
              rbind (validate_keys fs schema properties path) (\<lambda>_.
              for_each (\<lambda>(field, w). if_some (\<lambda>field_schema. validate_value w field_schema (join_path path field))
                (obj_get field properties)) fs))
          | JArray vs \<Rightarrow>
              rbind (if_some (\<lambda>items. for_each (\<lambda>(index, w).
                validate_value w items (path @ str ''['' @ show_nat index @ str '']'')) (enumerate 0 vs))
                (obj_get (str ''items'') schema)) (\<lambda>_.
              validate_length vs schema path)
          | JString s \<Rightarrow> validate_string s schema path
          | _ \<Rightarrow> Inr ()))"
  by pat_completeness auto

termination validate_value
  by (relation "measure (\<lambda>(v, schema, path). size v)")
     (auto dest!: size_snd_field dest: array_elem_size [OF nth_mem] simp: less_Suc_eq_le in_set_enumerate_eq)

declare validate_value.simps [simp del]

section \<open>The repair\<close>

definition validate_arguments :: "ToolSpec \<Rightarrow> json \<Rightarrow> (ToolRepairError, unit) result" where
  "validate_arguments tool arguments = validate_value arguments (sp_input_schema tool) (str ''arguments'')"

definition choose_tool :: "rstr \<Rightarrow> ToolSpec list \<Rightarrow> (ToolRepairError, ToolSpec) result" where
  "choose_tool tool_name tools =
     (case filter (\<lambda>tool. sp_name tool = tool_name) tools of
        [] \<Rightarrow> Inl (UnknownTool tool_name)
      | [tool] \<Rightarrow> Inr tool
      | _ \<Rightarrow> Inl (AmbiguousTool tool_name))"

definition repair_tool_call ::
  "(rstr \<Rightarrow> (rstr, json) result) \<Rightarrow> rstr \<Rightarrow> ToolSpec list \<Rightarrow> (ToolRepairError, RepairedToolCall) result" where
  "repair_tool_call from_str raw tools =
     rbind (parse_json_document from_str raw) (\<lambda>(envelope, syntax_repairs).
     rbind (extract_call_parts envelope) (\<lambda>(tool_name, raw_arguments).
     rbind (choose_tool tool_name tools) (\<lambda>tool.
     rbind (parse_arguments from_str raw_arguments syntax_repairs) (\<lambda>(arguments, syntax_repairs).
     rbind (reject_parameter_aliases arguments (sp_input_schema tool)) (\<lambda>_.
     rbind (validate_value arguments (sp_input_schema tool) (str ''$'')) (\<lambda>_.
     Inr \<lparr>rt_tool_id = sp_id tool, rt_tool_name = sp_name tool, rt_arguments = arguments, rt_risk = sp_risk tool,
          rt_syntax_repairs = syntax_repairs\<rparr>))))))"

text \<open>\<open>retry\<close> is the caller's closure, with its captured state passed along.\<close>

function repair_loop ::
  "(rstr \<Rightarrow> (rstr, json) result) \<Rightarrow> ToolSpec list \<Rightarrow> (RepairFeedback \<Rightarrow> 's \<Rightarrow> rstr option \<times> 's) \<Rightarrow> rstr \<Rightarrow> nat \<Rightarrow> 's
     \<Rightarrow> (ToolRepairError, RepairedToolCall) result \<times> 's" where
  "repair_loop from_str tools retry raw retries s =
     (case repair_tool_call from_str raw tools of
        Inr repaired \<Rightarrow> (Inr repaired, s)
      | Inl error \<Rightarrow>
          if MAX_REPAIR_RETRIES \<le> retries then (Inl (RetryExhausted (retries + 1) error), s)
          else
            (case retry \<lparr>fb_attempt = retries + 1, fb_code = repair_error_code error, fb_message = repair_error_display error,
                         fb_path = repair_error_path error\<rparr> s of
               (None, s') \<Rightarrow> (Inl error, s')
             | (Some next, s') \<Rightarrow> repair_loop from_str tools retry next (retries + 1) s'))"
  by pat_completeness auto

termination repair_loop
  by (relation "measure (\<lambda>(from_str, tools, retry, raw, retries, s). MAX_REPAIR_RETRIES - retries)") auto

declare repair_loop.simps [simp del]

definition repair_tool_call_with_retries ::
  "(rstr \<Rightarrow> (rstr, json) result) \<Rightarrow> rstr \<Rightarrow> ToolSpec list \<Rightarrow> (RepairFeedback \<Rightarrow> 's \<Rightarrow> rstr option \<times> 's) \<Rightarrow> 's
     \<Rightarrow> (ToolRepairError, RepairedToolCall) result \<times> 's" where
  "repair_tool_call_with_retries from_str initial tools retry s = repair_loop from_str tools retry initial 0 s"

text \<open>\<open>ToolSpec::validate_schema\<close>: what a registration requires of the input schema.\<close>

definition spec_validate_schema :: "ToolSpec \<Rightarrow> (rstr, unit) result" where
  "spec_validate_schema tool =
     (let err = (\<lambda>m. str ''tool '' @ sp_id tool @ str '' input schema '' @ m) in
      case as_object (sp_input_schema tool) of
        None \<Rightarrow> Inl (err (str ''must be an object''))
      | Some schema \<Rightarrow>
          rbind (ensure (Option.bind (obj_get (str ''type'') schema) json_as_str = Some (str ''object''))
            (err (str ''must declare \"type\": \"object\"''))) (\<lambda>_.
          rbind (if_some (\<lambda>properties. ensure (as_object properties \<noteq> None) (err (str ''properties must be an object'')))
            (obj_get (str ''properties'') schema)) (\<lambda>_.
          if_some (\<lambda>required.
            rbind (ok_or (err (str ''required must be an array'')) (as_array required)) (\<lambda>names.
            ensure (list_all (\<lambda>n. json_as_str n \<noteq> None) names) (err (str ''required must list property names''))))
            (obj_get (str ''required'') schema))))"

section \<open>What a schema accepts\<close>

text \<open>The bound a keyword sets on a length.\<close>

definition in_bounds :: "nat \<Rightarrow> string \<Rightarrow> string \<Rightarrow> (rstr \<times> json) list \<Rightarrow> bool" where
  "in_bounds n lower upper S \<longleftrightarrow> (\<forall>m. Option.bind (obj_get (str lower) S) as_u64 = Some m \<longrightarrow> m \<le> n)
     \<and> (\<forall>m. Option.bind (obj_get (str upper) S) as_u64 = Some m \<longrightarrow> n \<le> m)"

text \<open>The keys of an object: the required ones are there, and no others where none are allowed.\<close>

definition keys_accepted :: "(rstr \<times> json) list \<Rightarrow> (rstr \<times> json) list \<Rightarrow> (rstr \<times> json) list \<Rightarrow> bool" where
  "keys_accepted fs S properties \<longleftrightarrow>
     (\<forall>r. obj_get (str ''required'') S = Some r \<longrightarrow> (\<exists>names. r = JArray names \<and> (\<forall>n \<in> set names. \<exists>k. n = JString k \<and> obj_get k fs \<noteq> None)))
     \<and> (obj_get (str ''additionalProperties'') S = Some (JBool False) \<longrightarrow> (\<forall>k \<in> fst ` set fs. obj_get k properties \<noteq> None))"

text \<open>The types of JSON Schema.  A list of types admits a value of any of them, unless a type before that one is not known.\<close>

inductive known_type :: "json \<Rightarrow> bool" where
  known_name: "t \<in> str ` {''null'', ''boolean'', ''number'', ''integer'', ''string'', ''array'', ''object''} \<Longrightarrow> known_type (JString t)"
| known_union: "ts \<noteq> [] \<Longrightarrow> \<forall>t \<in> set ts. known_type t \<Longrightarrow> known_type (JArray ts)"

inductive_simps known_type_simps [simp]: "known_type (JString t)" "known_type (JArray ts)" "known_type JNull" "known_type (JBool b)" "known_type (JNumber n)" "known_type (JObject fs)"

inductive of_type :: "json \<Rightarrow> json \<Rightarrow> bool" where
  of_null: "of_type JNull (JString (str ''null''))"
| of_boolean: "of_type (JBool b) (JString (str ''boolean''))"
| of_number: "of_type (JNumber n) (JString (str ''number''))"
| of_positive: "of_type (JNumber (PosInt n)) (JString (str ''integer''))"
| of_negative: "of_type (JNumber (NegInt i)) (JString (str ''integer''))"
| of_string: "of_type (JString s) (JString (str ''string''))"
| of_array: "of_type (JArray vs) (JString (str ''array''))"
| of_object: "of_type (JObject fs) (JString (str ''object''))"
| of_union: "of_type v t \<Longrightarrow> \<forall>u \<in> set before. known_type u \<Longrightarrow> of_type v (JArray (before @ t # after))"

inductive_simps of_type_simps: "of_type v (JString t)" "of_type v (JArray ts)" "of_type v JNull" "of_type v (JBool b)" "of_type v (JNumber n)" "of_type v (JObject fs)"

lemma type_test_iff: "type_test t = Some test \<Longrightarrow> test v \<longleftrightarrow> of_type v (JString t)"
  unfolding type_test_def of_type_simps
  by (cases v rule: is_integer.cases) (auto simp: str_def split: if_splits)

lemma type_test_known: "type_test t = None \<longleftrightarrow> \<not> known_type (JString t)"
  by (auto simp: type_test_def split: if_splits)

lemma split_first: "(\<exists>before u after. t # ts = before @ u # after \<and> P u \<and> (\<forall>x \<in> set before. Q x)) \<longleftrightarrow>
    P t \<or> Q t \<and> (\<exists>before u after. ts = before @ u # after \<and> P u \<and> (\<forall>x \<in> set before. Q x))"
proof (intro iffI, elim exE conjE)
  fix before u after assume h: "t # ts = before @ u # after" "P u" "\<forall>x \<in> set before. Q x"
  then show "P t \<or> Q t \<and> (\<exists>before u after. ts = before @ u # after \<and> P u \<and> (\<forall>x \<in> set before. Q x))" by (cases before) auto
next
  assume "P t \<or> Q t \<and> (\<exists>before u after. ts = before @ u # after \<and> P u \<and> (\<forall>x \<in> set before. Q x))"
  then show "\<exists>before u after. t # ts = before @ u # after \<and> P u \<and> (\<forall>x \<in> set before. Q x)"
    by (metis append_Cons append_Nil empty_iff list.set(1) set_ConsD)
qed

text \<open>Once a type has matched, the rest of a list is not looked at; until then every type has to be known.\<close>

lemma matched_fold: "matches_fold v True ts = Inr True"
  by (induction ts) simp_all

lemma matches_type_iff:
  "(matches_type v t = Inr True \<longleftrightarrow> of_type v t) \<and> (matches_type v t = Inr False \<longrightarrow> known_type t) \<and> (known_type t \<longrightarrow> (\<exists>b. matches_type v t = Inr b))"
  "\<not> m \<Longrightarrow> (matches_fold v m ts = Inr True \<longleftrightarrow> (\<exists>before u after. ts = before @ u # after \<and> of_type v u \<and> (\<forall>t \<in> set before. known_type t)))
    \<and> (matches_fold v m ts = Inr False \<longrightarrow> (\<forall>t \<in> set ts. known_type t)) \<and> ((\<forall>t \<in> set ts. known_type t) \<longrightarrow> (\<exists>b. matches_fold v m ts = Inr b))"
proof (induction v t and v m ts rule: matches_type_matches_fold.induct)
  case (1 v t)
  then show ?case using type_test_iff [of t _ v] type_test_known [of t] by (cases "type_test t") (auto simp: of_type_simps(1))
next
  case (2 v ts)
  then show ?case by (cases "ts = []") (auto simp: of_type_simps)
next
  case (5 v m t ts)
  show ?case
  proof (cases "matches_type v t")
    case (Inr b)
    have t: "of_type v t \<longleftrightarrow> b" and k: "\<not> b \<Longrightarrow> known_type t" using 5(1) [OF 5(3)] Inr by simp_all
    have f: "matches_fold v m (t # ts) = matches_fold v b ts" using 5(3) Inr by simp
    show ?thesis
    proof (cases b)
      case True
      then show ?thesis unfolding f split_first using t by (simp add: matched_fold) blast
    next
      case False
      then show ?thesis unfolding f split_first using t k 5(2) [of b] 5(3) Inr by simp
    qed
  next
    case (Inl e)
    then have "\<not> of_type v t" "\<not> known_type t" using 5(1) [OF 5(3)] by auto
    then show ?thesis unfolding split_first using Inl 5(3) by simp
  qed
qed (auto simp: of_type_simps intro: exI [of _ False])

lemma matches_type_ok: "matches_type v t = Inr True \<longleftrightarrow> of_type v t"
  using matches_type_iff(1) by blast

text \<open>The properties a schema declares: none, or those of an object.\<close>

definition declares :: "(rstr \<times> json) list \<Rightarrow> (rstr \<times> json) list \<Rightarrow> bool" where
  "declares S properties \<longleftrightarrow> (case obj_get (str ''properties'') S of None \<Rightarrow> properties = [] | Some p \<Rightarrow> p = JObject properties)"

lemma schema_properties_ok: "schema_properties S = Inr properties \<longleftrightarrow> declares S properties"
  by (auto simp: schema_properties_def declares_def ok_or_def split: option.split elim: as_object.elims)

definition head_accepted :: "json \<Rightarrow> (rstr \<times> json) list \<Rightarrow> bool" where
  "head_accepted v S \<longleftrightarrow> (\<forall>t. obj_get (str ''type'') S = Some t \<longrightarrow> of_type v t)
     \<and> (\<forall>e. obj_get (str ''enum'') S = Some e \<longrightarrow> (\<exists>cs. e = JArray cs \<and> (\<exists>c \<in> set cs. json_eq c v)))"

inductive conforms :: "json \<Rightarrow> json \<Rightarrow> bool" where
  "head_accepted v S
     \<Longrightarrow> (\<forall>fs. v = JObject fs \<longrightarrow> (\<exists>properties. declares S properties \<and> keys_accepted fs S properties
           \<and> (\<forall>x \<in> set fs. \<forall>sub. obj_get (fst x) properties = Some sub \<longrightarrow> conforms (snd x) sub)))
     \<Longrightarrow> (\<forall>vs. v = JArray vs \<longrightarrow> in_bounds (length vs) ''minItems'' ''maxItems'' S
           \<and> (\<forall>items. obj_get (str ''items'') S = Some items \<longrightarrow> (\<forall>w \<in> set vs. conforms w items)))
     \<Longrightarrow> (\<forall>s. v = JString s \<longrightarrow> in_bounds (length s) ''minLength'' ''maxLength'' S)
     \<Longrightarrow> conforms v (JObject S)"

inductive_simps conforms_iff: "conforms v schema"

lemma validate_head_ok: "validate_head v S path = Inr () \<longleftrightarrow> head_accepted v S"
proof -
  have "rbind (matches_type v t) (\<lambda>b. ensure b e) = Inr () \<longleftrightarrow> matches_type v t = Inr True" for t e
    by (cases "matches_type v t") (auto simp: ensure_def)
  moreover have "(case as_array x of None \<Rightarrow> Inl e | Some cs \<Rightarrow> ensure (list_ex (\<lambda>c. json_eq c v) cs) e') = Inr ()
      \<longleftrightarrow> (\<exists>cs. x = JArray cs \<and> (\<exists>c \<in> set cs. json_eq c v))" for x and e e' :: ToolRepairError
    by (cases x) (auto simp: ensure_def list_ex_iff)
  ultimately show ?thesis unfolding validate_head_def head_accepted_def by (simp add: rbind_Inr if_some_Inr matches_type_ok)
qed

lemma validate_string_ok: "validate_string s S path = Inr () \<longleftrightarrow> in_bounds (length s) ''minLength'' ''maxLength'' S"
  by (auto simp: validate_string_def in_bounds_def rbind_Inr if_some_Inr ensure_def not_less)

lemma validate_length_ok: "validate_length vs S path = Inr () \<longleftrightarrow> in_bounds (length vs) ''minItems'' ''maxItems'' S"
  by (auto simp: validate_length_def in_bounds_def rbind_Inr if_some_Inr ensure_def not_less)

lemma validate_keys_ok: "validate_keys fs S properties path = Inr () \<longleftrightarrow> keys_accepted fs S properties"
proof -
  have "(case json_as_str n of None \<Rightarrow> Inl e | Some k \<Rightarrow> ensure (obj_get k fs \<noteq> None) (g k)) = Inr ()
      \<longleftrightarrow> (\<exists>k. n = JString k \<and> obj_get k fs \<noteq> None)" for n and e :: ToolRepairError and g
    by (cases n) auto
  then have "(case as_array r of None \<Rightarrow> Inl e | Some names \<Rightarrow> for_each (\<lambda>n. case json_as_str n of None \<Rightarrow> Inl e'
        | Some k \<Rightarrow> ensure (obj_get k fs \<noteq> None) (g k)) names) = Inr ()
      \<longleftrightarrow> (\<exists>names. r = JArray names \<and> (\<forall>n \<in> set names. \<exists>k. n = JString k \<and> obj_get k fs \<noteq> None))" for r and e e' :: ToolRepairError and g
    by (cases r) (auto simp: for_each_Inr)
  then show ?thesis unfolding validate_keys_def keys_accepted_def by (simp add: rbind_Inr if_some_Inr for_each_Inr)
qed

lemma validate_value_iff: "validate_value v schema path = Inr () \<longleftrightarrow> conforms v schema"
proof (induction v schema path rule: validate_value.induct)
  case (1 v schema path)
  note IH = 1
  show ?case
  proof (cases schema)
    case (JObject S)
    have obj: "as_object schema = Some S" by (simp add: JObject)
    show ?thesis
    proof (cases v)
      case (JObject fs)
      have "(\<forall>x \<in> set fs. (case x of (field, w) \<Rightarrow> if_some (\<lambda>sub. validate_value w sub (join_path path field)) (obj_get field properties)) = Inr ())
          \<longleftrightarrow> (\<forall>x \<in> set fs. \<forall>sub. obj_get (fst x) properties = Some sub \<longrightarrow> conforms (snd x) sub)"
        if "validate_head v S path = Inr ()" "schema_properties S = Inr properties" "validate_keys fs S properties path = Inr ()" for properties
      proof (rule ball_cong [OF refl], goal_cases)
        case (1 x)
        show ?case using IH(2) [OF obj that(1) JObject that(2,3) 1] by (cases x) (auto simp: if_some_Inr)
      qed
      then show ?thesis
        unfolding validate_value.simps [of v schema path] obj conforms_iff [of v schema]
        by (auto simp: \<open>schema = JObject S\<close> JObject rbind_Inr for_each_Inr validate_head_ok validate_keys_ok schema_properties_ok)
    next
      case (JArray vs)
      have "(\<forall>x \<in> set (enumerate 0 vs). (case x of (i, w) \<Rightarrow> validate_value w items (path @ str ''['' @ show_nat i @ str '']'')) = Inr ())
          \<longleftrightarrow> (\<forall>w \<in> set vs. conforms w items)"
        if "validate_head v S path = Inr ()" "obj_get (str ''items'') S = Some items" for items
      proof -
        have "(case x of (i, w) \<Rightarrow> validate_value w items (path @ str ''['' @ show_nat i @ str '']'')) = Inr () \<longleftrightarrow> conforms (snd x) items"
          if "x \<in> set (enumerate 0 vs)" for x
          using IH(1) [OF obj \<open>validate_head v S path = Inr ()\<close> JArray \<open>obj_get _ S = Some items\<close> that] by (cases x) auto
        moreover have "set vs = snd ` set (enumerate 0 vs)" by (metis list.set_map map_snd_enumerate)
        ultimately show ?thesis by auto
      qed
      then show ?thesis
        unfolding validate_value.simps [of v schema path] obj conforms_iff [of v schema]
        by (auto simp: \<open>schema = JObject S\<close> JArray rbind_Inr for_each_Inr if_some_Inr validate_head_ok validate_length_ok)
    next
      case (JString s)
      then show ?thesis unfolding validate_value.simps [of v schema path] obj conforms_iff [of v schema]
        by (auto simp: \<open>schema = JObject S\<close> rbind_Inr validate_head_ok validate_string_ok)
    qed (unfold validate_value.simps [of v schema path] obj conforms_iff [of v schema],
      auto simp: \<open>schema = JObject S\<close> rbind_Inr validate_head_ok)
  qed (unfold validate_value.simps [of v schema path] conforms_iff [of v schema], auto)
qed

section \<open>What a repaired call is\<close>

lemma choose_tool_Inr: "choose_tool n tools = Inr t \<longleftrightarrow> filter (\<lambda>u. sp_name u = n) tools = [t]"
  by (auto simp: choose_tool_def split: list.splits)

lemma choose_tool_member: "choose_tool n tools = Inr t \<Longrightarrow> t \<in> set tools \<and> sp_name t = n"
  using filter_set [of "\<lambda>u. sp_name u = n" tools] unfolding choose_tool_Inr by auto

lemma parse_arguments_object: "parse_arguments parse v rs = Inr (a, rs') \<Longrightarrow> \<exists>fs. a = JObject fs"
  unfolding parse_arguments_def by (cases v) (auto simp: rbind_Inr split: option.splits)

lemma repair_tool_call_Inr:
  assumes "repair_tool_call parse raw tools = Inr r"
  obtains envelope repairs n raw_arguments tool repairs'
  where "parse_json_document parse raw = Inr (envelope, repairs)" "extract_call_parts envelope = Inr (n, raw_arguments)"
    "choose_tool n tools = Inr tool" "parse_arguments parse raw_arguments repairs = Inr (rt_arguments r, repairs')"
    "reject_parameter_aliases (rt_arguments r) (sp_input_schema tool) = Inr ()"
    "validate_value (rt_arguments r) (sp_input_schema tool) (str ''$'') = Inr ()"
    "rt_tool_id r = sp_id tool" "rt_tool_name r = sp_name tool" "rt_risk r = sp_risk tool" "rt_syntax_repairs r = repairs'"
  using assms unfolding repair_tool_call_def by (auto simp: rbind_Inr)

end
