(* ===== verification/Loop_Types.thy ===== *)
theory Loop_Types
  imports Task_Delivery Run_State Tool_Registry Tool_Output Tool_Repair Loop_Helpers
begin

text \<open>
  The types of the agent loop (\<open>agent/loop_types.rs\<close>, \<open>providers/capabilities.rs\<close>, \<open>providers/http.rs\<close>) and the way its
  effects are modelled.  Everything the loop reaches through a trait object or a callback, the event sink, the model, the
  tools, the permission resolver, the hooks, the clock and the caller's cancellation flag, is an operation of the
  environment record \<open>loop_env\<close> on a world of any type.  A computation maps the loop's state (its mutable locals, the
  world, and a trace of the calls it made) to an outcome and the state after it: a value, a thrown \<open>AgentLoopError\<close> (the
  \<open>?\<close> operator), or \<open>Unfinished\<close> when the fuel of an unbounded loop runs out.
\<close>

section \<open>Errors\<close>

datatype ProviderErrorCode =
    PeNetwork | PeAuthentication | PeQuota | PeTimeout | PeProviderResponse | PeContextLimit | PeCancelled | PeUnsupportedCapability

fun provider_code_text :: "ProviderErrorCode \<Rightarrow> rstr" where
  "provider_code_text PeNetwork = str ''network''"
| "provider_code_text PeAuthentication = str ''authentication''"
| "provider_code_text PeQuota = str ''quota''"
| "provider_code_text PeTimeout = str ''timeout''"
| "provider_code_text PeProviderResponse = str ''provider_response''"
| "provider_code_text PeContextLimit = str ''context_limit''"
| "provider_code_text PeCancelled = str ''cancelled''"
| "provider_code_text PeUnsupportedCapability = str ''unsupported_capability''"

record ProviderError =
  pe_code :: ProviderErrorCode
  pe_status :: "nat option"
  pe_message :: rstr
  pe_retry_after_seconds :: "nat option"
  pe_request_id :: "rstr option"

definition ProviderError_new :: "ProviderErrorCode \<Rightarrow> nat option \<Rightarrow> rstr \<Rightarrow> ProviderError" where
  "ProviderError_new code status message = \<lparr>pe_code = code, pe_status = status, pe_message = message,
     pe_retry_after_seconds = None, pe_request_id = None\<rparr>"

definition ProviderError_cancelled :: ProviderError where
  "ProviderError_cancelled = ProviderError_new PeCancelled None (str ''provider request cancelled'')"

definition provider_details :: "ProviderError \<Rightarrow> json option" where
  "provider_details e =
     (let put = (\<lambda>k v fs. case v of None \<Rightarrow> fs | Some x \<Rightarrow> btree_insert (str k) x fs);
          details = put ''retry_after_seconds'' (map_option (\<lambda>n. JNumber (PosInt n)) (pe_retry_after_seconds e))
            (put ''request_id'' (map_option JString (pe_request_id e))
            (put ''status'' (map_option (\<lambda>n. JNumber (PosInt n)) (pe_status e)) [])) in
      if details = [] then None else Some (JObject details))"

definition provider_error_display :: "ProviderError \<Rightarrow> rstr" where
  "provider_error_display e = provider_code_text (pe_code e) @ str '': '' @ pe_message e"

fun context_error_display :: "ContextBudgetError \<Rightarrow> rstr" where
  "context_error_display MissingCurrentRequest = str ''current request is required''"
| "context_error_display EmptyCurrentRequest = str ''current request cannot be empty''"
| "context_error_display (MultipleCurrentRequests n) = str ''exactly one current request is required, found '' @ show_nat n"
| "context_error_display (DuplicateItemId i) = str ''duplicate context item id: '' @ i"
| "context_error_display (DuplicateRecentTurnRank r) = str ''duplicate recent turn rank: '' @ show_nat r"
| "context_error_display (CompletionReservationExceedsModelLimit out reasoning limit) =
     str ''output reservation '' @ show_nat out @ str '' plus reasoning reservation '' @ show_nat reasoning
     @ str '' exceeds model limit '' @ show_nat limit"
| "context_error_display (RequiredContentExceedsLimit n input limit) =
     str ''required context needs '' @ show_nat n @ str '' tokens, input limit is '' @ show_nat input
     @ str '', model limit is '' @ show_nat limit"
| "context_error_display (ToolSchemaExceedsLimit n input limit) =
     str ''tool schema needs '' @ show_nat n @ str '' tokens, input limit is '' @ show_nat input
     @ str '', model limit is '' @ show_nat limit"
| "context_error_display (MessageBlockExceedsLimit n input) =
     str ''message block needs '' @ show_nat n @ str '' tokens, input limit is '' @ show_nat input"

datatype AgentLoopError =
    LeContext ContextBudgetError
  | LeProvider ProviderError
  | LeCapability rstr
  | LeToolRepair ToolRepairError
  | LeTool rstr
  | LeCitation rstr
  | LeLimit rstr nat nat
  | LeCheckpointTimeout nat nat
  | LeEventSink rstr
  | LeInternal rstr

fun loop_error_display :: "AgentLoopError \<Rightarrow> rstr" where
  "loop_error_display (LeContext e) = str ''context: '' @ context_error_display e"
| "loop_error_display (LeProvider e) = str ''provider: '' @ provider_error_display e"
| "loop_error_display (LeCapability m) = m"
| "loop_error_display (LeTool m) = m"
| "loop_error_display (LeCitation m) = m"
| "loop_error_display (LeEventSink m) = m"
| "loop_error_display (LeInternal m) = m"
| "loop_error_display (LeLimit kind limit observed) =
     str ''agent loop limit exceeded: '' @ kind @ str '' observed '' @ show_nat observed @ str '', limit '' @ show_nat limit"
| "loop_error_display (LeCheckpointTimeout limit elapsed) =
     str ''agent checkpoint exceeded '' @ show_nat limit @ str ''ms (took '' @ show_nat elapsed @ str ''ms)''"
| "loop_error_display (LeToolRepair e) = str ''tool repair: '' @ repair_error_display e"

fun provider_category :: "ProviderErrorCode \<Rightarrow> AgentErrorCategory" where
  "provider_category PeAuthentication = Authentication"
| "provider_category PeQuota = Quota"
| "provider_category PeNetwork = Network"
| "provider_category PeTimeout = Network"
| "provider_category PeContextLimit = ModelCapability"
| "provider_category PeUnsupportedCapability = ModelCapability"
| "provider_category PeCancelled = Network"
| "provider_category PeProviderResponse = AgentErrorCategory.Internal"

fun error_class :: "AgentLoopError \<Rightarrow> AgentErrorCategory \<times> rstr \<times> bool" where
  "error_class (LeContext _) = (ModelCapability, str ''context_budget_exceeded'', False)"
| "error_class (LeProvider e) =
     (provider_category (pe_code e), str ''provider_'' @ provider_code_text (pe_code e), pe_code e \<in> {PeNetwork, PeTimeout})"
| "error_class (LeToolRepair e) = (ToolPermission, repair_error_code e, False)"
| "error_class (LeCitation _) = (Indexing, str ''citation_invalid'', False)"
| "error_class (LeCapability _) = (ModelCapability, str ''provider_capability_missing'', False)"
| "error_class (LeLimit _ _ _) = (AgentErrorCategory.Internal, str ''agent_loop_limit_exceeded'', False)"
| "error_class (LeCheckpointTimeout _ _) = (Database, str ''agent_checkpoint_timeout'', True)"
| "error_class (LeTool _) = (ToolPermission, str ''tool_failed'', False)"
| "error_class (LeEventSink _) = (AgentErrorCategory.Internal, str ''agent_runtime_failed'', False)"
| "error_class (LeInternal _) = (AgentErrorCategory.Internal, str ''agent_runtime_failed'', False)"

definition to_agent_error :: "AgentLoopError \<Rightarrow> agent_error" where
  "to_agent_error error =
     (case error_class error of (category, code, retryable) \<Rightarrow>
      \<lparr>ae_code = code, ae_category = category, ae_message = loop_error_display error, ae_retryable = retryable,
       ae_details = (case error of LeProvider provider \<Rightarrow> provider_details provider | _ \<Rightarrow> None)\<rparr>)"

text \<open>The \<open>Display\<close> of a refused transition, with the \<open>Debug\<close> names of the states.\<close>

fun state_debug :: "AgentRunState \<Rightarrow> rstr" where
  "state_debug Created = str ''Created''"
| "state_debug Preparing = str ''Preparing''"
| "state_debug Generating = str ''Generating''"
| "state_debug AwaitingPermission = str ''AwaitingPermission''"
| "state_debug ExecutingTools = str ''ExecutingTools''"
| "state_debug Verifying = str ''Verifying''"
| "state_debug Completing = str ''Completing''"
| "state_debug AgentRunState.Completed = str ''Completed''"
| "state_debug AgentRunState.Cancelled = str ''Cancelled''"
| "state_debug AgentRunState.Failed = str ''Failed''"
| "state_debug AgentRunState.Interrupted = str ''Interrupted''"

definition transition_error_display :: "InvalidRunTransition \<Rightarrow> rstr" where
  "transition_error_display e = str ''invalid_run_transition: '' @ state_debug (it_previous e) @ str '' -> ''
     @ state_debug (it_target e) @ str '': '' @ str (it_reason e)"

section \<open>Models\<close>

datatype ProviderCapability = Chat | Embedding | Rerank | DocumentParser

record ProviderCapabilities =
  pc_model_id :: rstr
  pc_capabilities :: "ProviderCapability list"
  pc_context_window :: "nat option"
  pc_tool_calls :: bool

fun capability_text :: "ProviderCapability \<Rightarrow> rstr" where
  "capability_text Chat = str ''chat''"
| "capability_text Embedding = str ''embedding''"
| "capability_text Rerank = str ''rerank''"
| "capability_text DocumentParser = str ''document_parser''"

definition require_capability :: "ProviderCapabilities \<Rightarrow> ProviderCapability \<Rightarrow> (ProviderError, unit) result" where
  "require_capability c capability =
     ensure (capability \<in> set (pc_capabilities c)) (ProviderError_new PeUnsupportedCapability None
       (str ''model '' @ pc_model_id c @ str '' does not support '' @ capability_text capability))"

text \<open>\<open>temperature\<close> in thousandths; \<open>response_format\<close>, \<open>reasoning_effort\<close> and \<open>stop\<close> are \<open>None\<close> in every request of the loop.\<close>

record ChatRequest =
  cq_messages :: "chat_message list"
  cq_temperature :: nat
  cq_tools :: "json option"
  cq_max_tokens :: "nat option"

datatype ChatEvent =
    TextDelta rstr
  | ReasoningPart rstr
  | ToolCallDelta nat "rstr option" "rstr option" rstr
  | Usage chat_usage

record ChatResponse =
  rp_text :: rstr
  rp_reasoning :: rstr
  rp_tool_calls :: "chat_tool_call list"
  rp_usage :: "chat_usage option"
  rp_finish_reason :: "rstr option"
  rp_cancelled :: bool

definition ChatResponse_default :: ChatResponse where
  "ChatResponse_default = \<lparr>rp_text = [], rp_reasoning = [], rp_tool_calls = [], rp_usage = None, rp_finish_reason = None, rp_cancelled = False\<rparr>"

text \<open>How the \<open>select!\<close> around a model request ends: the request itself, its timer, or the cancellation poll.\<close>

datatype generation_end = GenReturned "(ProviderError, ChatResponse) result" | GenTimedOut | GenCancelled

section \<open>Tools, permissions, hooks\<close>

record ToolExecutionError =
  xe_code :: rstr
  xe_message :: rstr
  xe_cancelled :: bool
  xe_details :: "json option"

definition ToolExecutionError_new :: "rstr \<Rightarrow> rstr \<Rightarrow> ToolExecutionError" where
  "ToolExecutionError_new code message = \<lparr>xe_code = code, xe_message = message, xe_cancelled = False, xe_details = None\<rparr>"

text \<open>A registration without its handler, which is the environment's \<open>le_execute\<close>; durations in nanoseconds.\<close>

record LoopToolRegistration =
  lr_spec :: ToolSpec
  lr_read_only :: bool
  lr_version :: ToolVersion
  lr_source :: ToolSource
  lr_concurrency :: ConcurrencyPolicy
  lr_timeout :: nat
  lr_idempotent :: bool
  lr_retryable :: bool

record ToolInvocation =
  iv_tool_call_id :: uuid
  iv_tool_id :: rstr
  iv_tool_name :: rstr
  iv_arguments :: json

record PreparedToolCall =
  pt_model_call_id :: rstr
  pt_tool_call_id :: uuid
  pt_tool_id :: rstr
  pt_tool_name :: rstr
  pt_arguments :: json
  pt_risk :: PermissionRisk
  pt_concurrency :: ConcurrencyPolicy
  pt_timeout :: nat

definition invocation_of :: "PreparedToolCall \<Rightarrow> ToolInvocation" where
  "invocation_of c = \<lparr>iv_tool_call_id = pt_tool_call_id c, iv_tool_id = pt_tool_id c, iv_tool_name = pt_tool_name c,
     iv_arguments = pt_arguments c\<rparr>"

record LoopPermissionRequest =
  lp_permission_id :: uuid
  lp_tool_call_id :: uuid
  lp_tool_id :: rstr
  lp_tool_name :: rstr
  lp_risk :: PermissionRisk
  lp_arguments :: json

datatype HookDecision = Continue | Replace json | Block rstr

datatype tool_end = ToolReturned "(ToolExecutionError, json) result" | ToolTimedOut

section \<open>Requests and checkpoints\<close>

record ResumableToolCall =
  rm_tool_call_id :: uuid
  rm_tool_id :: rstr
  rm_tool_name :: rstr
  rm_arguments :: json
  rm_permission_id :: "uuid option"
  rm_decision :: "PermissionDecision option"

record AgentLoopResume =
  re_checkpoint :: AgentContextCheckpoint
  re_state :: AgentRunState
  re_assistant_result_recorded :: bool
  re_pending_tools :: "ResumableToolCall list"

record AgentLoopRequest =
  rq_assistant_message_id :: uuid
  rq_context :: "ContextEntry list"
  rq_output_reservation :: nat
  rq_reasoning_reservation :: nat
  rq_evidence :: "EvidenceAttachment option"
  rq_attachments :: "AgentLoopAttachment list"
  rq_limits :: AgentLoopLimits
  rq_resume :: "AgentLoopResume option"

record AgentLoopResult =
  lo_outcome :: RunOutcome
  lo_answer :: rstr
  lo_reasoning :: rstr
  lo_reasoning_ms :: nat
  lo_usage :: "chat_usage option"
  lo_context :: ContextReport

end
