(* ===== verification/Loop_Monad.thy ===== *)
theory Loop_Monad
  imports Loop_Types
begin

text \<open>
  The environment and the state of the agent loop, computations over them, and triples about computations.
\<close>

section \<open>The environment\<close>

text \<open>\<open>le_background_tasks\<close> to \<open>le_checkpoint\<close> are the event sink; \<open>le_cancelled\<close> is the flag of the caller's
  cancellation token, \<open>le_now\<close> the clock in nanoseconds, \<open>le_wakeups\<close> how often a wait of so many milliseconds wakes up.
  \<open>le_generate\<close> yields the events a model request streams and how it ends.\<close>

record 'w loop_env =
  le_capabilities :: ProviderCapabilities
  le_registrations :: "LoopToolRegistration list"
  le_from_str :: "rstr \<Rightarrow> (rstr, json) result"
  le_to_string :: "json \<Rightarrow> (rstr, rstr) result"
  le_to_vec :: "json \<Rightarrow> (rstr, nat list) result"
  le_display :: "json \<Rightarrow> rstr"
  le_file_name :: "rstr \<Rightarrow> rstr option"
  le_base64 :: "rstr \<Rightarrow> nat list option"
  le_utf8 :: "nat list \<Rightarrow> rstr option"
  le_background_tasks :: "'w \<Rightarrow> (rstr, TaskDelivery list) result \<times> 'w"
  le_record :: "AgentEventData \<Rightarrow> 'w \<Rightarrow> (rstr, unit) result \<times> 'w"
  le_transition :: "run_state_changed \<Rightarrow> 'w \<Rightarrow> (rstr, unit) result \<times> 'w"
  le_finish :: "run_state_changed \<Rightarrow> RunOutcome \<Rightarrow> uuid option \<Rightarrow> 'w \<Rightarrow> (rstr, unit) result \<times> 'w"
  le_checkpoint :: "AgentContextCheckpoint \<Rightarrow> 'w \<Rightarrow> (rstr, unit) result \<times> 'w"
  le_generate :: "ChatRequest \<Rightarrow> 'w \<Rightarrow> (ChatEvent list \<times> generation_end) \<times> 'w"
  le_execute :: "ToolInvocation \<Rightarrow> 'w \<Rightarrow> tool_end \<times> 'w"
  le_decide :: "LoopPermissionRequest \<Rightarrow> 'w \<Rightarrow> PermissionDecision \<times> 'w"
  le_before_model :: "'w \<Rightarrow> chat_message option \<times> 'w"
  le_after_tool_round :: "rstr list \<Rightarrow> 'w \<Rightarrow> unit \<times> 'w"
  le_pre_tool_use :: "ToolInvocation \<Rightarrow> 'w \<Rightarrow> (rstr, HookDecision) result \<times> 'w"
  le_post_tool_use :: "ToolInvocation \<Rightarrow> (ToolExecutionError, json) result \<Rightarrow> 'w \<Rightarrow> (rstr, HookDecision) result \<times> 'w"
  le_artifact_store :: "'w \<Rightarrow> (nat list \<Rightarrow> (ToolError, ArtifactRef) result) option \<times> 'w"
  le_take_input :: "AgentInputKind \<Rightarrow> 'w \<Rightarrow> (rstr, ContextEntry list) result \<times> 'w"
  le_new_uuid :: "'w \<Rightarrow> uuid \<times> 'w"
  le_cancelled :: "'w \<Rightarrow> bool \<times> 'w"
  le_now :: "'w \<Rightarrow> nat \<times> 'w"
  le_wakeups :: "nat \<Rightarrow> 'w \<Rightarrow> nat \<times> 'w"

text \<open>The calls of the loop that the properties speak about, in the order they are made.\<close>

datatype action =
    AtRecord AgentEventData
  | AtTransition run_state_changed
  | AtFinish run_state_changed RunOutcome
  | AtCheckpoint AgentContextCheckpoint
  | AtGenerate ChatRequest
  | AtDecide LoopPermissionRequest PermissionDecision
  | AtExecute ToolInvocation

section \<open>The state\<close>

text \<open>The mutable locals of \<open>AgentLoop::run\<close>; \<open>ls_deadline\<close> is the instant of the run's cancellation token and
  \<open>ls_partial\<close> the response a model request has streamed so far.\<close>

record 'w loop_state =
  ls_world :: 'w
  ls_trace :: "action list"
  ls_deadline :: "nat option"
  ls_machine :: AgentRunState
  ls_messages :: "chat_message list"
  ls_natural_stop :: bool
  ls_answer :: rstr
  ls_reasoning :: rstr
  ls_reasoning_ms :: nat
  ls_usage :: "chat_usage option"
  ls_tool_round :: nat
  ls_model_calls :: nat
  ls_tool_calls :: nat
  ls_resumable :: "ResumableToolCall list"
  ls_partial :: ChatResponse

definition initial_loop_state :: "'w \<Rightarrow> 'w loop_state" where
  "initial_loop_state w = \<lparr>ls_world = w, ls_trace = [], ls_deadline = None, ls_machine = Created, ls_messages = [],
     ls_natural_stop = False, ls_answer = [], ls_reasoning = [], ls_reasoning_ms = 0, ls_usage = None, ls_tool_round = 0,
     ls_model_calls = 0, ls_tool_calls = 0, ls_resumable = [], ls_partial = ChatResponse_default\<rparr>"

section \<open>Computations\<close>

datatype 'a exec = Done 'a | Threw AgentLoopError | Unfinished

type_synonym ('w, 'a) loop_m = "'w loop_state \<Rightarrow> 'a exec \<times> 'w loop_state"

definition mret :: "'a \<Rightarrow> ('w, 'a) loop_m" where
  "mret x s = (Done x, s)"

definition mthrow :: "AgentLoopError \<Rightarrow> ('w, 'a) loop_m" where
  "mthrow e s = (Threw e, s)"

definition mstuck :: "('w, 'a) loop_m" where
  "mstuck s = (Unfinished, s)"

definition mbind :: "('w, 'a) loop_m \<Rightarrow> ('a \<Rightarrow> ('w, 'b) loop_m) \<Rightarrow> ('w, 'b) loop_m" where
  "mbind m f s = (case m s of (Done x, s') \<Rightarrow> f x s' | (Threw e, s') \<Rightarrow> (Threw e, s') | (Unfinished, s') \<Rightarrow> (Unfinished, s'))"

text \<open>Matching on the \<open>Result\<close> of a call instead of propagating its error.\<close>

definition mtry :: "('w, 'a) loop_m \<Rightarrow> ('w, (AgentLoopError, 'a) result) loop_m" where
  "mtry m s = (case m s of (Done x, s') \<Rightarrow> (Done (Inr x), s') | (Threw e, s') \<Rightarrow> (Done (Inl e), s') | (Unfinished, s') \<Rightarrow> (Unfinished, s'))"

definition mget :: "('w loop_state \<Rightarrow> 'a) \<Rightarrow> ('w, 'a) loop_m" where
  "mget f s = (Done (f s), s)"

definition mset_state :: "('w loop_state \<Rightarrow> 'w loop_state) \<Rightarrow> ('w, unit) loop_m" where
  "mset_state f s = (Done (), f s)"

definition mcall :: "('w \<Rightarrow> 'a \<times> 'w) \<Rightarrow> ('w, 'a) loop_m" where
  "mcall op s = (case op (ls_world s) of (x, w) \<Rightarrow> (Done x, s\<lparr>ls_world := w\<rparr>))"

definition mnote :: "action \<Rightarrow> ('w, unit) loop_m" where
  "mnote a s = (Done (), s\<lparr>ls_trace := ls_trace s @ [a]\<rparr>)"

definition mresult :: "(AgentLoopError, 'a) result \<Rightarrow> ('w, 'a) loop_m" where
  "mresult r = (case r of Inl e \<Rightarrow> mthrow e | Inr x \<Rightarrow> mret x)"

fun mfor :: "('a \<Rightarrow> ('w, 'b) loop_m) \<Rightarrow> 'a list \<Rightarrow> ('w, 'b list) loop_m" where
  "mfor f [] = mret []"
| "mfor f (x # xs) = mbind (f x) (\<lambda>y. mbind (mfor f xs) (\<lambda>ys. mret (y # ys)))"

lemma mbind_cong [fundef_cong]: "m = m' \<Longrightarrow> (\<And>x. f x = g x) \<Longrightarrow> mbind m f = mbind m' g"
  using ext [of f g] by metis

section \<open>Triples\<close>

text \<open>From a state with \<open>P\<close>, a value is returned in a state with \<open>Q\<close>, and an error is thrown, or the fuel runs out, in a
  state with \<open>E\<close>.\<close>

definition triple :: "('w loop_state \<Rightarrow> bool) \<Rightarrow> ('w, 'a) loop_m \<Rightarrow> ('a \<Rightarrow> 'w loop_state \<Rightarrow> bool)
     \<Rightarrow> (AgentLoopError option \<Rightarrow> 'w loop_state \<Rightarrow> bool) \<Rightarrow> bool" where
  "triple P m Q E \<longleftrightarrow>
     (\<forall>s. P s \<longrightarrow> (case m s of (Done x, s') \<Rightarrow> Q x s' | (Threw e, s') \<Rightarrow> E (Some e) s' | (Unfinished, s') \<Rightarrow> E None s'))"

named_theorems triple_rules \<open>syntax-directed rules for triples\<close>

lemma triple_bind [triple_rules]:
  "triple P m R E \<Longrightarrow> (\<And>x. triple (R x) (f x) Q E) \<Longrightarrow> triple P (mbind m f) Q E"
  unfolding triple_def mbind_def by (fastforce split: prod.splits exec.splits)

lemma triple_weaken:
  "triple P' m Q' E' \<Longrightarrow> (\<And>s. P s \<Longrightarrow> P' s) \<Longrightarrow> (\<And>x s. Q' x s \<Longrightarrow> Q x s) \<Longrightarrow> (\<And>e s. E' e s \<Longrightarrow> E e s) \<Longrightarrow> triple P m Q E"
  unfolding triple_def by (fastforce split: prod.splits exec.splits)

lemma triple_conseq: "triple P m Q E \<Longrightarrow> (\<And>s. P' s \<Longrightarrow> P s) \<Longrightarrow> triple P' m Q E"
  by (erule triple_weaken) auto

lemma triple_ret: "(\<And>s. P s \<Longrightarrow> Q x s) \<Longrightarrow> triple P (mret x) Q E"
  by (simp add: triple_def mret_def)

lemma triple_throw: "(\<And>s. P s \<Longrightarrow> E (Some e) s) \<Longrightarrow> triple P (mthrow e) Q E"
  by (simp add: triple_def mthrow_def)

lemma triple_stuck: "(\<And>s. P s \<Longrightarrow> E None s) \<Longrightarrow> triple P mstuck Q E"
  by (simp add: triple_def mstuck_def)

lemma triple_get: "(\<And>s. P s \<Longrightarrow> Q (f s) s) \<Longrightarrow> triple P (mget f) Q E"
  by (simp add: triple_def mget_def)

lemma triple_set: "(\<And>s. P s \<Longrightarrow> Q () (f s)) \<Longrightarrow> triple P (mset_state f) Q E"
  by (simp add: triple_def mset_state_def)

lemma triple_note: "(\<And>s. P s \<Longrightarrow> Q () (s\<lparr>ls_trace := ls_trace s @ [a]\<rparr>)) \<Longrightarrow> triple P (mnote a) Q E"
  by (simp add: triple_def mnote_def)

lemma triple_call: "(\<And>s x w. P s \<Longrightarrow> Q x (s\<lparr>ls_world := w\<rparr>)) \<Longrightarrow> triple P (mcall op) Q E"
  by (simp add: triple_def mcall_def split: prod.split)

lemma triple_result:
  "(\<And>e s. r = Inl e \<Longrightarrow> P s \<Longrightarrow> E (Some e) s) \<Longrightarrow> (\<And>x s. r = Inr x \<Longrightarrow> P s \<Longrightarrow> Q x s) \<Longrightarrow> triple P (mresult r) Q E"
  by (cases r) (auto simp: triple_def mresult_def mthrow_def mret_def)

lemma triple_try:
  "triple P m (\<lambda>x. Q (Inr x)) (\<lambda>e. case e of Some e' \<Rightarrow> Q (Inl e') | None \<Rightarrow> E None) \<Longrightarrow> triple P (mtry m) Q E"
  unfolding triple_def mtry_def by (fastforce split: prod.splits exec.splits)

lemma triple_if [triple_rules]:
  "(b \<Longrightarrow> triple P m Q E) \<Longrightarrow> (\<not> b \<Longrightarrow> triple P n Q E) \<Longrightarrow> triple P (if b then m else n) Q E"
  by simp

lemma triple_case_option [triple_rules]:
  "(v = None \<Longrightarrow> triple P m Q E) \<Longrightarrow> (\<And>x. v = Some x \<Longrightarrow> triple P (f x) Q E) \<Longrightarrow> triple P (case v of None \<Rightarrow> m | Some x \<Rightarrow> f x) Q E"
  by (cases v) auto

lemma triple_case_sum [triple_rules]:
  "(\<And>x. v = Inl x \<Longrightarrow> triple P (f x) Q E) \<Longrightarrow> (\<And>x. v = Inr x \<Longrightarrow> triple P (g x) Q E)
     \<Longrightarrow> triple P (case v of Inl x \<Rightarrow> f x | Inr x \<Rightarrow> g x) Q E"
  by (cases v) auto

lemma triple_case_prod [triple_rules]:
  "(\<And>x y. v = (x, y) \<Longrightarrow> triple P (f x y) Q E) \<Longrightarrow> triple P (case v of (x, y) \<Rightarrow> f x y) Q E"
  by (cases v) auto

lemma triple_case_hook [triple_rules]:
  "(v = Continue \<Longrightarrow> triple P m Q E) \<Longrightarrow> (\<And>x. v = Replace x \<Longrightarrow> triple P (f x) Q E) \<Longrightarrow> (\<And>x. v = Block x \<Longrightarrow> triple P (g x) Q E)
     \<Longrightarrow> triple P (case v of Continue \<Rightarrow> m | Replace x \<Rightarrow> f x | Block x \<Rightarrow> g x) Q E"
  by (cases v) auto

lemma triple_let [triple_rules]: "(\<And>x. x = v \<Longrightarrow> triple P (f x) Q E) \<Longrightarrow> triple P (let x = v in f x) Q E"
  by (simp add: Let_def)

lemma tripleD:
  assumes "triple P m Q E" "P s" "m s = (r, s')"
  shows "(\<forall>x. r = Done x \<longrightarrow> Q x s') \<and> (\<forall>e. r = Threw e \<longrightarrow> E (Some e) s') \<and> (r = Unfinished \<longrightarrow> E None s')"
  using assms unfolding triple_def by (auto split: exec.splits)

end
