(* ===== verification/Loop_Operations.thy ===== *)
theory Loop_Operations
  imports Loop_Monad
begin

text \<open>
  The operations the agent loop is made of (\<open>agent/runtime/loop/operations.rs\<close>, \<open>background.rs\<close>, \<open>generation.rs\<close> and the
  effectful helpers of \<open>agent/loop_helpers.rs\<close>).
\<close>

section \<open>The event sink, the clock and cancellation\<close>

definition sink_record :: "'w loop_env \<Rightarrow> AgentEventData \<Rightarrow> ('w, (rstr, unit) result) loop_m" where
  "sink_record env ev = mbind (mnote (AtRecord ev)) (\<lambda>_. mcall (le_record env ev))"

text \<open>\<open>sink.record(...).map_err(AgentLoopError::EventSink)?\<close>\<close>

definition record_event :: "'w loop_env \<Rightarrow> AgentEventData \<Rightarrow> ('w, unit) loop_m" where
  "record_event env ev = mbind (sink_record env ev) (\<lambda>r. mresult (map_err LeEventSink r))"

text \<open>\<open>CancellationToken::is_cancelled\<close> and \<open>deadline_exceeded\<close> of the run's token.\<close>

definition deadline_exceeded :: "'w loop_env \<Rightarrow> ('w, bool) loop_m" where
  "deadline_exceeded env =
     mbind (mget ls_deadline) (\<lambda>d. case d of None \<Rightarrow> mret False | Some t \<Rightarrow> mbind (mcall (le_now env)) (\<lambda>now. mret (t \<le> now)))"

definition is_cancelled :: "'w loop_env \<Rightarrow> ('w, bool) loop_m" where
  "is_cancelled env = mbind (mcall (le_cancelled env)) (\<lambda>b. if b then mret True else deadline_exceeded env)"

definition elapsed_ms :: "nat \<Rightarrow> nat \<Rightarrow> nat" where
  "elapsed_ms started now = min ((now - started) div 1000000) u64_max"

definition change_state_with_guards :: "'w loop_env \<Rightarrow> AgentRunState \<Rightarrow> RunGuards \<Rightarrow> ('w, unit) loop_m" where
  "change_state_with_guards env target guards =
     mbind (mget ls_machine) (\<lambda>p.
     case run_transition p target guards of (r, p') \<Rightarrow>
     mbind (mset_state (\<lambda>s. s\<lparr>ls_machine := p'\<rparr>)) (\<lambda>_.
     mbind (mresult (map_err (\<lambda>e. LeInternal (transition_error_display e)) r)) (\<lambda>changed.
     mbind (mnote (AtTransition changed)) (\<lambda>_.
     mbind (mcall (le_transition env changed)) (\<lambda>q. mresult (map_err LeEventSink q))))))"

definition change_state :: "'w loop_env \<Rightarrow> AgentRunState \<Rightarrow> ('w, unit) loop_m" where
  "change_state env target = change_state_with_guards env target idle_guards"

definition save_checkpoint :: "'w loop_env \<Rightarrow> AgentContextCheckpoint \<Rightarrow> nat \<Rightarrow> ('w, unit) loop_m" where
  "save_checkpoint env checkpoint timeout_ms =
     mbind (mcall (le_now env)) (\<lambda>started.
     mbind (mnote (AtCheckpoint checkpoint)) (\<lambda>_.
     mbind (mcall (le_checkpoint env checkpoint)) (\<lambda>r.
     mbind (mresult (map_err LeEventSink r)) (\<lambda>_.
     mbind (mcall (le_now env)) (\<lambda>now.
     if timeout_ms < elapsed_ms started now then mthrow (LeCheckpointTimeout timeout_ms (elapsed_ms started now)) else mret ())))))"

text \<open>\<open>sink.finish(changed, outcome, Some(message_id))\<close>\<close>

definition sink_finish :: "'w loop_env \<Rightarrow> run_state_changed \<Rightarrow> RunOutcome \<Rightarrow> uuid \<Rightarrow> ('w, unit) loop_m" where
  "sink_finish env changed oc message_id =
     mbind (mnote (AtFinish changed oc)) (\<lambda>_.
     mbind (mcall (le_finish env changed oc (Some message_id))) (\<lambda>q. mresult (map_err LeEventSink q)))"

definition finish :: "'w loop_env \<Rightarrow> AgentRunState \<Rightarrow> RunOutcome \<Rightarrow> uuid \<Rightarrow> ('w, unit) loop_m" where
  "finish env target oc message_id =
     mbind (mget ls_machine) (\<lambda>p.
     case run_transition p target idle_guards of (r, p') \<Rightarrow>
     mbind (mset_state (\<lambda>s. s\<lparr>ls_machine := p'\<rparr>)) (\<lambda>_.
     mbind (mresult (map_err (\<lambda>e. LeInternal (transition_error_display e)) r)) (\<lambda>changed.
     sink_finish env changed oc message_id)))"

text \<open>\<open>fail\<close> works on a machine of its own, restored in the given state.\<close>

definition fail :: "'w loop_env \<Rightarrow> AgentRunState \<Rightarrow> uuid \<Rightarrow> AgentLoopError \<Rightarrow> ('w, 'a) loop_m" where
  "fail env state message_id error =
     mbind (record_event env (ErrorRaised (to_agent_error error) True)) (\<lambda>_.
     mbind (mresult (map_err (\<lambda>e. LeInternal (transition_error_display e))
       (fst (run_transition state AgentRunState.Failed idle_guards)))) (\<lambda>changed.
     mbind (sink_finish env changed OutcomeFailed message_id) (\<lambda>_.
     mthrow error)))"

text \<open>\<open>self.fail(sink, machine.state(), ...)\<close>\<close>

definition fail_here :: "'w loop_env \<Rightarrow> uuid \<Rightarrow> AgentLoopError \<Rightarrow> ('w, 'a) loop_m" where
  "fail_here env message_id error = mbind (mget ls_machine) (\<lambda>p. fail env p message_id error)"

definition cancel :: "'w loop_env \<Rightarrow> uuid \<Rightarrow> ContextReport \<Rightarrow> ('w, AgentLoopResult) loop_m" where
  "cancel env message_id context =
     mbind (mget ls_answer) (\<lambda>answer.
     mbind (if answer \<noteq> [] then record_event env (MessageCompleted message_id Assistant answer True) else mret ()) (\<lambda>_.
     mbind (finish env AgentRunState.Cancelled OutcomeCancelled message_id) (\<lambda>_.
     mret \<lparr>lo_outcome = OutcomeCancelled, lo_answer = answer, lo_reasoning = [], lo_reasoning_ms = 0, lo_usage = None,
           lo_context = context\<rparr>)))"

definition cancel_or_timeout :: "'w loop_env \<Rightarrow> uuid \<Rightarrow> ContextReport \<Rightarrow> ('w, AgentLoopResult) loop_m" where
  "cancel_or_timeout env message_id context =
     mbind (deadline_exceeded env) (\<lambda>late.
     if late then
       mbind (mget ls_answer) (\<lambda>answer.
       mbind (if answer \<noteq> [] then record_event env (MessageCompleted message_id Assistant answer True) else mret ()) (\<lambda>_.
       fail_here env message_id (LeProvider (ProviderError_new PeTimeout None (str ''Agent total run deadline exceeded'')))))
     else cancel env message_id context)"

section \<open>Background results\<close>

text \<open>The loop over the tasks: a progress event for every task whose state or progress is new to \<open>progress\<close>.\<close>

fun report_progress ::
  "'w loop_env \<Rightarrow> TaskDelivery list \<Rightarrow> (uuid \<rightharpoonup> TaskState \<times> nat) \<Rightarrow> ('w, uuid \<rightharpoonup> TaskState \<times> nat) loop_m" where
  "report_progress env [] progress = mret progress"
| "report_progress env (t # ts) progress =
     (let current_state = (dl_state t, dl_progress t) in
      mbind (if progress (dl_task_id t) \<noteq> Some current_state
             then record_event env (TaskProgress (dl_task_id t) (dl_kind t) (progress_state (dl_state t)) (dl_progress t))
             else mret ()) (\<lambda>_.
      report_progress env ts (progress(dl_task_id t \<mapsto> current_state))))"

fun await_background ::
  "nat \<Rightarrow> 'w loop_env \<Rightarrow> bool \<Rightarrow> (uuid \<rightharpoonup> TaskState \<times> nat) \<Rightarrow> ('w, chat_message list) loop_m" where
  "await_background 0 env wait progress = mstuck"
| "await_background (Suc fuel) env wait progress =
     mbind (is_cancelled env) (\<lambda>cancelled.
     if cancelled then mthrow (LeProvider ProviderError_cancelled)
     else
       mbind (mcall (le_background_tasks env)) (\<lambda>r.
       mbind (mresult (map_err LeEventSink r)) (\<lambda>tasks.
       mbind (report_progress env tasks progress) (\<lambda>progress.
       let ready = map (\<lambda>t. ChatMessage_new (str ''user'') (delivery_message (le_display env) t))
             (filter (\<lambda>t. delivery_terminal (dl_state t)) tasks) in
       if ready \<noteq> [] \<or> tasks = [] \<or> \<not> wait then mret ready
       else await_background fuel env wait progress))))"

definition await_background_results :: "nat \<Rightarrow> 'w loop_env \<Rightarrow> bool \<Rightarrow> ('w, chat_message list) loop_m" where
  "await_background_results fuel env wait = await_background fuel env wait (\<lambda>_. None)"

section \<open>One model request\<close>

text \<open>The captured variables of the callback \<open>on_event\<close>.\<close>

record stream_state =
  ss_emitted :: bool
  ss_started :: "nat option"
  ss_completed :: bool
  ss_duration :: nat
  ss_sink_error :: "rstr option"

definition stream_init :: stream_state where
  "stream_init = \<lparr>ss_emitted = False, ss_started = None, ss_completed = False, ss_duration = 0, ss_sink_error = None\<rparr>"

text \<open>\<open>if sink_error.is_none() { if let Err(error) = sink.record(..) { sink_error = Some(error) } }\<close>\<close>

definition stream_record :: "'w loop_env \<Rightarrow> AgentEventData \<Rightarrow> stream_state \<Rightarrow> ('w, stream_state) loop_m" where
  "stream_record env ev g =
     (if ss_sink_error g \<noteq> None then mret g
      else mbind (sink_record env ev) (\<lambda>r. case r of Inl e \<Rightarrow> mret (g\<lparr>ss_sink_error := Some e\<rparr>) | Inr _ \<Rightarrow> mret g))"

text \<open>\<open>reasoning_started_at.take()\<close> and the \<open>ReasoningCompleted\<close> event.\<close>

definition complete_reasoning :: "'w loop_env \<Rightarrow> uuid \<Rightarrow> stream_state \<Rightarrow> ('w, stream_state) loop_m" where
  "complete_reasoning env message_id g =
     (case ss_started g of
        None \<Rightarrow> mret g
      | Some started \<Rightarrow>
          mbind (mcall (le_now env)) (\<lambda>now.
          let g = g\<lparr>ss_started := None, ss_duration := elapsed_ms started now\<rparr> in
          stream_record env (ReasoningCompleted message_id (ss_duration g)) g))"

definition set_partial :: "(ChatResponse \<Rightarrow> ChatResponse) \<Rightarrow> ('w, unit) loop_m" where
  "set_partial f = mset_state (\<lambda>s. s\<lparr>ls_partial := f (ls_partial s)\<rparr>)"

definition usage_event :: "chat_usage \<Rightarrow> AgentEventData" where
  "usage_event u = UsageUpdated (u_prompt_tokens u) (u_completion_tokens u) (u_total_tokens u) (u_cache_read_tokens u) (u_reasoning_tokens u)"

definition some_text :: "rstr option \<Rightarrow> bool" where
  "some_text v \<longleftrightarrow> (case v of None \<Rightarrow> False | Some t \<Rightarrow> t \<noteq> [])"

fun on_event :: "'w loop_env \<Rightarrow> uuid \<Rightarrow> bool \<Rightarrow> stream_state \<Rightarrow> ChatEvent \<Rightarrow> ('w, stream_state) loop_m" where
  "on_event env message_id stream g (TextDelta delta) =
     (let g = g\<lparr>ss_emitted := ss_emitted g \<or> delta \<noteq> []\<rparr> in
      mbind (if ss_completed g then mret g
             else mbind (complete_reasoning env message_id g) (\<lambda>g. mret (g\<lparr>ss_completed := True\<rparr>))) (\<lambda>g.
      mbind (set_partial (\<lambda>r. r\<lparr>rp_text := rp_text r @ delta\<rparr>)) (\<lambda>_.
      if stream then stream_record env (MessageDelta message_id Assistant delta) g else mret g)))"
| "on_event env message_id stream g (ReasoningPart delta) =
     (if delta = [] then mret g
      else
        mbind (set_partial (\<lambda>r. r\<lparr>rp_reasoning := rp_reasoning r @ delta\<rparr>)) (\<lambda>_.
        mbind (if ss_started g = None then mbind (mcall (le_now env)) (\<lambda>now. mret (g\<lparr>ss_emitted := True, ss_started := Some now\<rparr>))
               else mret (g\<lparr>ss_emitted := True\<rparr>)) (\<lambda>g.
        if stream then stream_record env (ReasoningDelta message_id delta) g else mret g)))"
| "on_event env message_id stream g (Usage u) =
     mbind (set_partial (\<lambda>r. r\<lparr>rp_usage := Some u\<rparr>)) (\<lambda>_. stream_record env (usage_event u) g)"
| "on_event env message_id stream g (ToolCallDelta index i n arguments) =
     mret (g\<lparr>ss_emitted := ss_emitted g \<or> arguments \<noteq> [] \<or> some_text i \<or> some_text n\<rparr>)"

fun on_events :: "'w loop_env \<Rightarrow> uuid \<Rightarrow> bool \<Rightarrow> stream_state \<Rightarrow> ChatEvent list \<Rightarrow> ('w, stream_state) loop_m" where
  "on_events env message_id stream g [] = mret g"
| "on_events env message_id stream g (e # es) = mbind (on_event env message_id stream g e) (\<lambda>g. on_events env message_id stream g es)"

definition generation_result :: "generation_end \<Rightarrow> (ProviderError, ChatResponse) result" where
  "generation_result e =
     (case e of
        GenReturned r \<Rightarrow> r
      | GenTimedOut \<Rightarrow> Inl (ProviderError_new PeTimeout None (str ''single model request timed out''))
      | GenCancelled \<Rightarrow> Inl ProviderError_cancelled)"

text \<open>\<open>generate\<close>: the out-parameter \<open>emitted\<close> and the \<open>Result\<close>.\<close>

definition generate ::
  "'w loop_env \<Rightarrow> ChatRequest \<Rightarrow> uuid \<Rightarrow> bool \<Rightarrow> ('w, bool \<times> (AgentLoopError, ChatResponse \<times> rstr \<times> nat) result) loop_m" where
  "generate env request message_id stream =
     mbind (set_partial (\<lambda>_. ChatResponse_default)) (\<lambda>_.
     mbind (mnote (AtGenerate request)) (\<lambda>_.
     mbind (mcall (le_generate env request)) (\<lambda>(events, ended).
     mbind (on_events env message_id stream stream_init events) (\<lambda>g.
     mbind (if ss_completed g then mret g else complete_reasoning env message_id g) (\<lambda>g.
     mbind (mget ls_partial) (\<lambda>partial.
     mret (ss_emitted g,
       case ss_sink_error g of
         Some e \<Rightarrow> Inl (LeEventSink e)
       | None \<Rightarrow> rbind (map_err LeProvider (generation_result ended)) (\<lambda>response. Inr (response, rp_text partial, ss_duration g)))))))))"

text \<open>The wait of the backoff: cancellation is polled each time it wakes up.\<close>

fun poll_cancellation :: "nat \<Rightarrow> 'w loop_env \<Rightarrow> ('w, unit) loop_m" where
  "poll_cancellation 0 env = mret ()"
| "poll_cancellation (Suc n) env =
     mbind (is_cancelled env) (\<lambda>b. if b then mthrow (LeProvider ProviderError_cancelled) else poll_cancellation n env)"

definition back_off :: "'w loop_env \<Rightarrow> nat \<Rightarrow> ('w, unit) loop_m" where
  "back_off env ms = mbind (mcall (le_wakeups env ms)) (\<lambda>n. poll_cancellation n env)"

fun provider_failure :: "AgentLoopError \<Rightarrow> ProviderErrorCode option" where
  "provider_failure (LeProvider e) = Some (pe_code e)"
| "provider_failure _ = None"

definition retry_window :: "'w loop_env \<Rightarrow> AgentLoopLimits \<Rightarrow> nat" where
  "retry_window env limits =
     (let window = (case effective_context_window (context_budget limits) (pc_context_window (le_capabilities env)) of
        None \<Rightarrow> DEFAULT_MODEL_LIMIT | Some w \<Rightarrow> w) in
      sat_mul window 3 div 4)"

function generate_loop ::
  "'w loop_env \<Rightarrow> uuid \<Rightarrow> AgentLoopLimits \<Rightarrow> nat \<times> nat \<Rightarrow> ChatRequest \<Rightarrow> nat \<Rightarrow> bool \<Rightarrow> ('w, ChatResponse \<times> rstr \<times> nat) loop_m" where
  "generate_loop env message_id limits reservations request retries context_retry =
     mbind (generate env request message_id (stream_output limits)) (\<lambda>(emitted, r).
     case r of
       Inr x \<Rightarrow> mret x
     | Inl error \<Rightarrow>
         if provider_failure error = Some PeContextLimit \<and> \<not> context_retry \<and> \<not> emitted then
           mbind (mresult (map_err LeContext (budget_chat_messages (cq_messages request) (Some (retry_window env limits))
             (fst reservations) (snd reservations) (map_option (le_display env) (cq_tools request))))) (\<lambda>messages.
           generate_loop env message_id limits reservations (request\<lparr>cq_messages := messages\<rparr>) retries True)
         else if retries < max_network_retries limits \<and> \<not> emitted \<and> provider_failure error \<in> {Some PeNetwork, Some PeTimeout} then
           mbind (is_cancelled env) (\<lambda>cancelled.
           if cancelled then mthrow error
           else
             mbind (back_off env (250 * 2 ^ min retries 5)) (\<lambda>_.
             generate_loop env message_id limits reservations request (retries + 1) context_retry))
         else mthrow error)"
  by pat_completeness auto

termination generate_loop
  by (relation "measures [\<lambda>(env, message_id, limits, reservations, request, retries, context_retry). max_network_retries limits - retries,
        \<lambda>(env, message_id, limits, reservations, request, retries, context_retry). if context_retry then 0 else 1]") auto

declare generate_loop.simps [simp del]

definition generate_with_recovery ::
  "'w loop_env \<Rightarrow> ChatRequest \<Rightarrow> uuid \<Rightarrow> AgentLoopLimits \<Rightarrow> nat \<times> nat \<Rightarrow> ('w, ChatResponse \<times> rstr \<times> nat) loop_m" where
  "generate_with_recovery env request message_id limits reservations = generate_loop env message_id limits reservations request 0 False"

end
