(* ===== verification/Loop_Tools.thy ===== *)
theory Loop_Tools
  imports Loop_Operations
begin

text \<open>
  The tool side of the agent loop (\<open>agent/loop_helpers.rs\<close>, \<open>agent/loop_types.rs\<close>, \<open>agent/runtime/loop/operations.rs\<close>,
  \<open>generation.rs\<close>): the immutable snapshot of a turn, preparation and repair of the calls of a model, hooks, execution of a
  batch and the recording of results.
\<close>

section \<open>Messages\<close>

definition assistant_tool_calls_with_reasoning :: "chat_tool_call list \<Rightarrow> rstr \<Rightarrow> chat_message" where
  "assistant_tool_calls_with_reasoning calls reasoning =
     (ChatMessage_new (str ''assistant'') [])\<lparr>cm_reasoning_content := (if reasoning = [] then None else Some reasoning), cm_tool_calls := calls\<rparr>"

definition tool_result :: "rstr \<Rightarrow> rstr \<Rightarrow> chat_message" where
  "tool_result i content = (ChatMessage_new (str ''tool'') content)\<lparr>cm_tool_call_id := Some i\<rparr>"

section \<open>The snapshot of a turn\<close>

definition registration_definition :: "LoopToolRegistration \<Rightarrow> (rstr, ToolDefinition) result" where
  "registration_definition g =
     rbind (map_err (\<lambda>e. str ''invalid tool id '' @ sp_id (lr_spec g)
       @ str '': tool id must use lowercase stable segments separated by dots'') (ToolId_new (sp_id (lr_spec g)))) (\<lambda>i.
     Inr \<lparr>td_id = i, td_version = lr_version g, td_name = sp_name (lr_spec g), td_description = str ''Suna tool '' @ sp_name (lr_spec g),
          td_input_schema = sp_input_schema (lr_spec g), td_output_schema = JObject [(str ''type'', JString (str ''object''))],
          td_risk = sp_risk (lr_spec g), td_read_only = lr_read_only g, td_concurrency = lr_concurrency g,
          td_timeout = lr_timeout g, td_source = lr_source g, td_domains = []\<rparr>)"

fun registry_error_display :: "RegistryError \<Rightarrow> rstr" where
  "registry_error_display (DuplicateId i) = str ''tool id is already registered: '' @ i"
| "registry_error_display (UnknownId i) = str ''tool id is not registered: '' @ i"
| "registry_error_display (InvalidDefinition f m) = str ''invalid tool '' @ f @ str '': '' @ m"
| "registry_error_display (RegistryError.InvalidSchema f m) = str ''invalid tool '' @ f @ str '': '' @ m"

definition registration_validate :: "LoopToolRegistration \<Rightarrow> (rstr, unit) result" where
  "registration_validate g =
     rbind (spec_validate_schema (lr_spec g)) (\<lambda>_.
     rbind (registration_definition g) (\<lambda>d.
     map_err registry_error_display (fst (register d ToolRegistry_new))))"

fun capture_check :: "rstr set \<Rightarrow> LoopToolRegistration list \<Rightarrow> (rstr, unit) result" where
  "capture_check ids [] = Inr ()"
| "capture_check ids (g # gs) =
     rbind (registration_validate g) (\<lambda>_.
     if sp_id (lr_spec g) \<in> ids then Inl (str ''tool id is already registered: '' @ sp_id (lr_spec g))
     else capture_check (insert (sp_id (lr_spec g)) ids) gs)"

definition snapshot_capture :: "LoopToolRegistration list \<Rightarrow> (rstr, LoopToolRegistration list) result" where
  "snapshot_capture gs =
     rbind (capture_check {} gs) (\<lambda>_.
     Inr (sort_by (\<lambda>x y. (sp_id (lr_spec x), sp_name (lr_spec x)) \<le> (sp_id (lr_spec y), sp_name (lr_spec y))) gs))"

text \<open>The Chinese descriptions, as scalar values.\<close>

definition TOOL_DESCRIPTIONS :: "(rstr \<times> rstr) list" where
  "TOOL_DESCRIPTIONS =
    [(str ''search_literature'',
      [28151, 21512, 26816, 32034, 26412, 22320, 30693, 35782, 24211, 20013, 30340, 25991, 29486, 29255, 27573, 12289,
      32467, 35770, 12289, 25991, 29486, 37197, 22270, 21644, 37329, 30456, 29031, 29255, 65307, 20248, 20808, 36208,
      26412, 22320, 32, 104, 121, 98, 114, 105, 100, 32, 82, 65, 71, 65292, 24517, 35201, 26102, 38477, 32423, 21040,
      32, 70, 84, 83, 12290]),
     (str ''read_literature_section'',
      [35835, 21462, 26412, 22320, 30693, 35782, 24211, 20013, 24050, 35299, 26512, 25991, 26723, 30340, 30446, 24405,
      12289, 25688, 35201, 12289, 21442, 32771, 25991, 29486, 25110, 25351, 23450, 31456, 33410, 21407, 25991, 12290]),
     (str ''query_production_data'',
      [26597, 35810, 26412, 22320, 23548, 20837, 30340, 29983, 20135, 25968, 25454, 38598, 65292, 21253, 21547, 38050,
      21367, 25209, 27425, 12289, 23454, 27979, 25104, 20998, 12289, 23454, 27979, 21147, 23398, 24615, 33021, 21644,
      23454, 38469, 24037, 33402, 21442, 25968, 65307, 36825, 19981, 26159, 26631, 20934, 26597, 35810, 12290]),
     (str ''query_composition_standard'',
      [26597, 35810, 26412, 22320, 30693, 35782, 24211, 20013, 30340, 25104, 20998, 26631, 20934, 65292, 20363, 22914,
      38050, 32423, 12289, 29260, 21495, 12289, 20986, 38050, 35760, 21495, 23545, 24212, 30340, 20803, 32032, 21547,
      37327, 33539, 22260, 12290]),
     (str ''query_process_standard'',
      [26597, 35810, 26412, 22320, 30693, 35782, 24211, 20013, 30340, 24037, 33402, 26631, 20934, 65292, 20363, 22914,
      36711, 21046, 28201, 24230, 12289, 21367, 21462, 28201, 24230, 12289, 20919, 21364, 21046, 24230, 31561, 26631,
      20934, 24037, 33402, 21442, 25968, 33539, 22260, 12290]),
     (str ''ask_llm_with_context'',
      [25972, 29702, 24403, 21069, 35777, 25454, 32473, 26412, 22320, 32, 65, 103, 101, 110, 116, 76, 111, 111, 112, 32,
      32487, 32493, 21512, 25104, 26368, 32456, 20013, 25991, 22238, 31572, 65307, 19981, 35201, 22312, 24037, 20855,
      20869, 37096, 36882, 24402, 35843, 29992, 27169, 22411, 12290]),
     (str ''predict_performance'',
      [22522, 20110, 32, 83, 117, 110, 97, 32, 26412, 22320, 24050, 23436, 25104, 35757, 32451, 30340, 27169, 22411, 39044,
      27979, 21147, 23398, 24615, 33021, 65307, 38656, 35201, 26412, 22320, 32, 100, 97, 116, 97, 115, 101, 116, 73,
      100, 12289, 116, 114, 97, 105, 110, 105, 110, 103, 84, 97, 115, 107, 73, 100, 32, 21644, 32, 102, 101, 97, 116,
      117, 114, 101, 86, 97, 108, 117, 101, 115, 65292, 19981, 33021, 35843, 29992, 32, 87, 101, 98, 32, 20113, 27169,
      22411, 12290]),
     (str ''optimize_process'',
      [22522, 20110, 32, 83, 117, 110, 97, 32, 26412, 22320, 24050, 23436, 25104, 35757, 32451, 30340, 27169, 22411, 25191,
      34892, 24037, 33402, 47, 21442, 25968, 23547, 20248, 65307, 38656, 35201, 29992, 25143, 30830, 35748, 65292,
      19981, 33021, 35843, 29992, 32, 87, 101, 98, 32, 20113, 20248, 21270, 26381, 21153, 12290]),
     (str ''match_coil'',
      [25353, 30446, 26631, 23624, 26381, 24378, 24230, 12289, 25239, 25289, 24378, 24230, 25110, 24310, 20280, 29575,
      65292, 22312, 26412, 22320, 29983, 20135, 25968, 25454, 20013, 21305, 37197, 24615, 33021, 30456, 36817, 30340,
      21382, 21490, 38050, 21367, 12290]),
     (str ''get_model_status'',
      [26597, 30475, 26412, 22320, 24050, 27880, 20876, 30340, 38050, 38081, 27169, 22411, 12289, 29256, 26412, 21644,
      28608, 27963, 29366, 24577, 65307, 21482, 35835, 65292, 19981, 20570, 39044, 27979, 12289, 19981, 35757, 32451,
      12289, 19981, 20248, 21270, 12290]),
     (str ''start_training'',
      [21551, 21160, 26412, 22320, 27169, 22411, 35757, 32451, 20219, 21153, 65307, 39640, 39118, 38505, 25805, 20316,
      65292, 21482, 26377, 29992, 25143, 26126, 30830, 35201, 27714, 35757, 32451, 47, 37325, 26032, 35757, 32451, 47,
      26356, 26032, 27169, 22411, 26102, 25165, 35843, 29992, 12290]),
     (str ''process_literature'',
      [25226, 26412, 22320, 32, 80, 68, 70, 12289, 77, 97, 114, 107, 100, 111, 119, 110, 12289, 79, 102, 102, 105, 99, 101,
      32, 25991, 26723, 21152, 20837, 32, 83, 117, 110, 97, 32, 30693, 35782, 24211, 65307, 38656, 35201, 29992,
      25143, 30830, 35748, 65292, 24182, 20351, 29992, 26412, 22320, 37197, 32622, 30340, 32, 77, 105, 110, 101, 114,
      85, 47, 69, 109, 98, 101, 100, 100, 105, 110, 103, 32, 112, 114, 111, 118, 105, 100, 101, 114, 12290]),
     (str ''export_data'',
      [35782, 21035, 23548, 20986, 24847, 22270, 24182, 25552, 31034, 29992, 25143, 22312, 32467, 26524, 21306, 25163,
      21160, 23548, 20986, 65292, 36991, 20813, 32, 65, 103, 101, 110, 116, 32, 21518, 21488, 33258, 21160, 20889,
      25991, 20214, 12290]),
     (str ''remember_memory'',
      [20445, 23384, 29992, 25143, 30830, 35748, 30340, 38271, 26399, 20559, 22909, 12289, 31283, 23450, 20107, 23454,
      12289, 20219, 21153, 29366, 24577, 25110, 32416, 27491, 12290]),
     (str ''read_memory'',
      [25353, 35760, 24518, 32, 73, 68, 32, 35835, 21462, 24403, 21069, 26412, 22320, 24037, 20316, 21306, 30340, 19968,
      26465, 38271, 26399, 35760, 24518, 12290]),
     (str ''search_memory'',
      [25628, 32034, 24403, 21069, 26412, 22320, 24037, 20316, 21306, 30340, 38271, 26399, 35760, 24518, 25688, 35201,
      12290]),
     (str ''list_memory'',
      [21015, 20986, 24403, 21069, 26412, 22320, 24037, 20316, 21306, 30340, 38271, 26399, 35760, 24518, 65292, 21487,
      25353, 31867, 22411, 25110, 20851, 38190, 35789, 36807, 28388, 12290]),
     (str ''forget_memory'',
      [35753, 19968, 26465, 38271, 26399, 35760, 24518, 19981, 20877, 34987, 21484, 22238, 65307, 38656, 35201, 29992,
      25143, 30830, 35748, 12290])]"

definition tool_description :: "rstr \<Rightarrow> rstr" where
  "tool_description name = (case map_of TOOL_DESCRIPTIONS name of Some d \<Rightarrow> d | None \<Rightarrow> str ''Suna tool '' @ name)"

definition tool_definitions :: "LoopToolRegistration list \<Rightarrow> json" where
  "tool_definitions gs = JArray (map (\<lambda>g. JObject
     [(str ''function'', JObject [(str ''description'', JString (tool_description (sp_name (lr_spec g)))),
         (str ''name'', JString (sp_name (lr_spec g))), (str ''parameters'', sp_input_schema (lr_spec g))]),
      (str ''type'', JString (str ''function''))]) gs)"

section \<open>Preparing the calls of a model\<close>

definition call_envelope :: "chat_tool_call \<Rightarrow> json" where
  "call_envelope c = JObject [(str ''arguments'', JString (ct_arguments c)), (str ''name'', JString (ct_name c))]"

fun prepare_tool_calls ::
  "'w loop_env \<Rightarrow> LoopToolRegistration list \<Rightarrow> chat_tool_call list \<Rightarrow> ('w, (ToolRepairError, PreparedToolCall list) result) loop_m" where
  "prepare_tool_calls env regs [] = mret (Inr [])"
| "prepare_tool_calls env regs (c # cs) =
     (case rbind (map_err InvalidJson (le_to_string env (call_envelope c))) (\<lambda>raw.
           rbind (repair_tool_call (le_from_str env) raw (map lr_spec regs)) (\<lambda>repaired.
           rbind (ok_or (UnknownTool (rt_tool_name repaired)) (find (\<lambda>g. sp_id (lr_spec g) = rt_tool_id repaired) regs)) (\<lambda>g.
           Inr (repaired, g)))) of
        Inl e \<Rightarrow> mret (Inl e)
      | Inr (repaired, g) \<Rightarrow>
          mbind (if trim (ct_id c) = [] then mbind (mcall (le_new_uuid env)) (\<lambda>u. mret (str ''tool-'' @ u)) else mret (ct_id c)) (\<lambda>model_call_id.
          mbind (mcall (le_new_uuid env)) (\<lambda>tool_call_id.
          mbind (prepare_tool_calls env regs cs) (\<lambda>rest.
          mret (rbind rest (\<lambda>prepared. Inr
            (\<lparr>pt_model_call_id = model_call_id, pt_tool_call_id = tool_call_id, pt_tool_id = rt_tool_id repaired,
              pt_tool_name = rt_tool_name repaired, pt_arguments = rt_arguments repaired, pt_risk = rt_risk repaired,
              pt_concurrency = lr_concurrency g, pt_timeout = lr_timeout g\<rparr> # prepared)))))))"

text \<open>A limit that \<open>n\<close> would exceed.\<close>

definition over_limit :: "nat option \<Rightarrow> nat \<Rightarrow> nat option" where
  "over_limit limit n = (case limit of None \<Rightarrow> None | Some l \<Rightarrow> if l < n then Some l else None)"

text \<open>The rounds of \<open>repair_tool_calls\<close>: \<open>left\<close> repairs remain.\<close>

fun repair_rounds ::
  "nat \<Rightarrow> 'w loop_env \<Rightarrow> LoopToolRegistration list \<Rightarrow> json option \<Rightarrow> uuid \<Rightarrow> AgentLoopLimits \<Rightarrow> nat option
     \<Rightarrow> chat_tool_call list \<Rightarrow> ('w, chat_tool_call list \<times> PreparedToolCall list) loop_m" where
  "repair_rounds left env regs payload message_id limits max_tokens model_calls =
     mbind (prepare_tool_calls env regs model_calls) (\<lambda>r.
     case r of
       Inr calls \<Rightarrow> mret (model_calls, calls)
     | Inl error \<Rightarrow>
         (case left of
            0 \<Rightarrow> mthrow (LeToolRepair (RetryExhausted (MAX_REPAIR_RETRIES + 1) error))
          | Suc left' \<Rightarrow>
              mbind (mget ls_model_calls) (\<lambda>n.
              case over_limit (max_model_calls limits) (n + 1) of
                Some limit \<Rightarrow> mthrow (LeLimit (str ''model_calls'') limit (n + 1))
              | None \<Rightarrow>
                  mbind (mset_state (\<lambda>s. s\<lparr>ls_model_calls := n + 1\<rparr>)) (\<lambda>_.
                  mbind (mget ls_messages) (\<lambda>messages.
                  mbind (generate_with_recovery env
                    \<lparr>cq_messages = messages @ [ChatMessage_new (str ''system'') (str ''The previous tool call failed validation: ''
                       @ repair_error_display error @ str ''. Return corrected tool calls only.'')],
                     cq_temperature = 0, cq_tools = payload, cq_max_tokens = max_tokens\<rparr>
                    message_id limits (case max_tokens of None \<Rightarrow> 0 | Some n \<Rightarrow> n, 0)) (\<lambda>(response, _, _).
                  mbind (if rp_cancelled response then mret True else is_cancelled env) (\<lambda>cancelled.
                  if cancelled then mthrow (LeProvider ProviderError_cancelled)
                  else repair_rounds left' env regs payload message_id limits max_tokens (rp_tool_calls response))))))))"

declare repair_rounds.simps [simp del]

definition repair_tool_calls ::
  "'w loop_env \<Rightarrow> LoopToolRegistration list \<Rightarrow> json option \<Rightarrow> uuid \<Rightarrow> AgentLoopLimits \<Rightarrow> nat option \<Rightarrow> chat_tool_call list
     \<Rightarrow> ('w, chat_tool_call list \<times> PreparedToolCall list) loop_m" where
  "repair_tool_calls env regs payload message_id limits max_tokens initial =
     repair_rounds MAX_REPAIR_RETRIES env regs payload message_id limits max_tokens initial"

section \<open>Hooks\<close>

text \<open>The hooks before the tools run: the calls, arguments replaced, and the blocked ids with their reasons.\<close>

definition check_replacement :: "LoopToolRegistration list \<Rightarrow> rstr \<Rightarrow> PreparedToolCall \<Rightarrow> json \<Rightarrow> (rstr, unit) result" where
  "check_replacement regs missing call arguments =
     rbind (ok_or missing (find (\<lambda>g. sp_id (lr_spec g) = pt_tool_id call) regs)) (\<lambda>g.
     map_err (\<lambda>e. str ''invalid hook replacement: '' @ repair_error_display e) (validate_arguments (lr_spec g) arguments))"

fun pre_hooks ::
  "'w loop_env \<Rightarrow> LoopToolRegistration list \<Rightarrow> rstr \<Rightarrow> PreparedToolCall list \<Rightarrow> ('w, PreparedToolCall list \<times> (uuid \<times> rstr) list) loop_m" where
  "pre_hooks env regs missing [] = mret ([], [])"
| "pre_hooks env regs missing (c # cs) =
     mbind (mcall (le_pre_tool_use env (invocation_of c))) (\<lambda>r.
     let (c', blocked) =
       (case r of
          Inl e \<Rightarrow> (c, [(pt_tool_call_id c, str ''pre-tool hook failed: '' @ e)])
        | Inr Continue \<Rightarrow> (c, [])
        | Inr (Replace arguments) \<Rightarrow>
            (case check_replacement regs missing c arguments of
               Inr _ \<Rightarrow> (c\<lparr>pt_arguments := arguments\<rparr>, [])
             | Inl e \<Rightarrow> (c, [(pt_tool_call_id c, e)]))
        | Inr (Block message) \<Rightarrow> (c, [(pt_tool_call_id c, message)])) in
     mbind (pre_hooks env regs missing cs) (\<lambda>(cs', more). mret (c' # cs', blocked @ more)))"

definition apply_post_hook ::
  "'w loop_env \<Rightarrow> PreparedToolCall \<Rightarrow> (ToolExecutionError, json) result \<Rightarrow> ('w, (ToolExecutionError, json) result) loop_m" where
  "apply_post_hook env call r =
     mbind (mcall (le_post_tool_use env (invocation_of call) r)) (\<lambda>d.
     mret (case d of
             Inr Continue \<Rightarrow> r
           | Inr (Replace out) \<Rightarrow> Inr out
           | Inr (Block message) \<Rightarrow> Inl (ToolExecutionError_new (str ''hook_blocked'') message)
           | Inl e \<Rightarrow> Inl (ToolExecutionError_new (str ''hook_execution'') (str ''post-tool hook failed: '' @ e))))"

section \<open>Results\<close>

definition MAX_TOOL_OUTPUT_BYTES :: nat where
  "MAX_TOOL_OUTPUT_BYTES = 32 * 1024"

definition ARTIFACT_MESSAGE :: rstr where
  "ARTIFACT_MESSAGE = [23436, 25972, 24037, 20855, 32467, 26524, 24050, 25345, 20037, 21270, 65292, 21487, 25353, 32, 112, 97, 116, 104, 32, 35835,
     21462]"

text \<open>The longest prefix of at most \<open>limit\<close> bytes that ends at a character boundary.\<close>

fun truncate_utf8 :: "rstr \<Rightarrow> nat \<Rightarrow> rstr" where
  "truncate_utf8 [] limit = []"
| "truncate_utf8 (c # cs) limit = (if len_utf8 c \<le> limit then c # truncate_utf8 cs (limit - len_utf8 c) else [])"

definition tool_error_display :: "ToolError \<Rightarrow> rstr" where
  "tool_error_display e = ToolError.te_code e @ str '': '' @ ToolError.te_message e"

definition bounded_tool_output :: "'w loop_env \<Rightarrow> json \<Rightarrow> ('w, json \<times> rstr) loop_m" where
  "bounded_tool_output env v =
     (let v = redact_sensitive_value v in
      mbind (mresult (map_err (\<lambda>e. LeTool (str ''tool output serialization failed: '' @ e)) (le_to_string env v))) (\<lambda>serialized.
      if str_len serialized \<le> MAX_TOOL_OUTPUT_BYTES then mret (v, serialized)
      else
        mbind (mcall (le_artifact_store env)) (\<lambda>store.
        case store of
          Some st \<Rightarrow>
            mbind (mresult (map_err (\<lambda>e. LeTool (tool_error_display e)) (bound_output (le_to_vec env) st v))) (\<lambda>out.
            case artifact out of
              None \<Rightarrow> mret (model_output out, serialized)
            | Some a \<Rightarrow>
                mbind (mresult (ok_or (LeTool (str ''tool artifact path is invalid'')) (le_file_name env (ar_path a)))) (\<lambda>file_name.
                let bounded = JObject [(str ''artifact_id'', JString (ar_id a)), (str ''bytes'', JNumber (PosInt (str_len serialized))),
                      (str ''message'', JString ARTIFACT_MESSAGE), (str ''path'', JString (str ''.agent/artifacts/'' @ file_name)),
                      (str ''truncated'', JBool True)] in
                mbind (mresult (map_err (\<lambda>e. LeTool (str ''bounded tool output failed: '' @ e)) (le_to_string env bounded))) (\<lambda>observation.
                mret (model_output out, observation))))
        | None \<Rightarrow>
            let bounded = JObject [(str ''bytes'', JNumber (PosInt (str_len serialized))),
                  (str ''preview'', JString (truncate_utf8 serialized MAX_TOOL_OUTPUT_BYTES)), (str ''truncated'', JBool True)] in
            mbind (mresult (map_err (\<lambda>e. LeTool (str ''bounded tool output failed: '' @ e)) (le_to_string env bounded))) (\<lambda>observation.
            mret (bounded, observation)))))"

definition record_tool_result ::
  "'w loop_env \<Rightarrow> PreparedToolCall \<Rightarrow> (ToolExecutionError, json) result \<Rightarrow> ('w, chat_message) loop_m" where
  "record_tool_result env call r =
     (case r of
        Inr v \<Rightarrow>
          mbind (bounded_tool_output env v) (\<lambda>(out, observation).
          mbind (record_event env (ToolCompleted \<lparr>tc_tool_call_id = pt_tool_call_id call, tc_outcome = Succeeded,
            tc_output = Some out, tc_error = None\<rparr>)) (\<lambda>_.
          mret (tool_result (pt_model_call_id call) observation)))
      | Inl error \<Rightarrow>
          mbind (record_event env (ToolCompleted \<lparr>tc_tool_call_id = pt_tool_call_id call,
            tc_outcome = (if xe_cancelled error then ToolCancelled else ToolFailed), tc_output = None,
            tc_error = Some \<lparr>ae_code = str ''tool_'' @ xe_code error, ae_category = ToolPermission, ae_message = xe_message error,
              ae_retryable = False, ae_details = map_option redact_sensitive_value (xe_details error)\<rparr>\<rparr>)) (\<lambda>_.
          mret (tool_result (pt_model_call_id call)
            (str ''tool '' @ pt_tool_name call @ str '' failed: '' @ xe_message error))))"

definition denied_observation :: "'w loop_env \<Rightarrow> PreparedToolCall \<times> rstr option \<Rightarrow> ('w, chat_message) loop_m" where
  "denied_observation env d =
     (case d of (call, why) \<Rightarrow>
      let message = (case why of Some m \<Rightarrow> m | None \<Rightarrow> str ''permission denied for tool '' @ pt_tool_name call) in
      mbind (record_event env (ToolCompleted \<lparr>tc_tool_call_id = pt_tool_call_id call, tc_outcome = ToolFailed, tc_output = None,
        tc_error = Some \<lparr>ae_code = str ''permission_denied'', ae_category = ToolPermission, ae_message = message,
          ae_retryable = False, ae_details = None\<rparr>\<rparr>)) (\<lambda>_.
      mret (tool_result (pt_model_call_id call)
        (str ''tool '' @ pt_tool_name call @ str '' was denied: '' @ message))))"

definition denied_observations :: "'w loop_env \<Rightarrow> (PreparedToolCall \<times> rstr option) list \<Rightarrow> ('w, chat_message list) loop_m" where
  "denied_observations env denied = mfor (denied_observation env) denied"

section \<open>Execution\<close>

definition execute_tool ::
  "'w loop_env \<Rightarrow> LoopToolRegistration list \<Rightarrow> PreparedToolCall \<Rightarrow> ('w, (ToolExecutionError, json) result) loop_m" where
  "execute_tool env regs call =
     (case find (\<lambda>g. sp_id (lr_spec g) = pt_tool_id call \<and> sp_name (lr_spec g) = pt_tool_name call) regs of
        None \<Rightarrow> mret (Inl (ToolExecutionError_new (str ''tool_snapshot_mismatch'') (str ''tool is not present in the immutable turn snapshot'')))
      | Some _ \<Rightarrow>
          mbind (mnote (AtExecute (invocation_of call))) (\<lambda>_.
          mbind (mcall (le_execute env (invocation_of call))) (\<lambda>e.
          mret (case e of
                  ToolReturned r \<Rightarrow> r
                | ToolTimedOut \<Rightarrow> Inl (ToolExecutionError_new (str ''timeout'') (str ''tool execution exceeded its timeout''))))))"

definition settle :: "'w loop_env \<Rightarrow> PreparedToolCall \<times> (ToolExecutionError, json) result \<Rightarrow> ('w, chat_message) loop_m" where
  "settle env x = (case x of (call, r) \<Rightarrow> mbind (apply_post_hook env call r) (record_tool_result env call))"

definition start_tool :: "'w loop_env \<Rightarrow> PreparedToolCall \<Rightarrow> ('w, unit) loop_m" where
  "start_tool env call = record_event env (ToolStarted (pt_tool_call_id call))"

abbreviation parallel :: "PreparedToolCall \<Rightarrow> bool" where
  "parallel c \<equiv> pt_concurrency c = ParallelRead"

text \<open>A maximal block of parallel reads is started, joined and settled as one; any other call runs alone.\<close>

function execute_tool_batch ::
  "'w loop_env \<Rightarrow> LoopToolRegistration list \<Rightarrow> PreparedToolCall list \<Rightarrow> ('w, chat_message list) loop_m" where
  "execute_tool_batch env regs [] = mret []"
| "execute_tool_batch env regs (c # cs) =
     mbind (is_cancelled env) (\<lambda>cancelled.
     if cancelled then mret []
     else
       let block = (if parallel c then c # takeWhile parallel cs else [c]);
           rest = (if parallel c then dropWhile parallel cs else cs) in
       mbind (mfor (start_tool env) block) (\<lambda>_.
       mbind (mfor (execute_tool env regs) block) (\<lambda>results.
       mbind (mfor (settle env) (zip block results)) (\<lambda>observations.
       mbind (execute_tool_batch env regs rest) (\<lambda>more.
       mret (observations @ more))))))"
  by pat_completeness auto

termination execute_tool_batch
  by (relation "measure (\<lambda>(env, regs, cs). length cs)") (auto simp: less_Suc_eq_le length_dropWhile_le)

declare execute_tool_batch.simps [simp del]

section \<open>Usage and text of a response\<close>

definition record_usage :: "'w loop_env \<Rightarrow> chat_usage \<Rightarrow> ('w, unit) loop_m" where
  "record_usage env u = record_event env (usage_event u)"

definition append_response_text :: "'w loop_env \<Rightarrow> rstr \<Rightarrow> ChatResponse \<Rightarrow> rstr \<Rightarrow> uuid \<Rightarrow> ('w, rstr) loop_m" where
  "append_response_text env answer response streamed_text message_id =
     (let trailing = (if starts_with streamed_text (rp_text response) then drop (length streamed_text) (rp_text response)
                      else rp_text response) in
      mbind (if trailing \<noteq> [] then record_event env (MessageDelta message_id Assistant trailing) else mret ()) (\<lambda>_.
      mret (answer @ rp_text response)))"

end
