(* ===== verification/Agent_Loop.thy ===== *)
theory Agent_Loop
  imports Loop_Tools
begin

text \<open>
  The agent loop (\<open>agent/loop_run.rs\<close>: \<open>AgentLoop::run\<close>, and \<open>resume_tool_batch\<close> of \<open>agent/runtime/loop/operations.rs\<close>).
  The body of the loop is split where the code has its sections; \<open>None\<close> is \<open>continue\<close>, \<open>Some\<close> the value of a \<open>return Ok\<close>.
\<close>

text \<open>What \<open>run\<close> computes once, before the loop.\<close>

record loop_config =
  lc_request :: AgentLoopRequest
  lc_context :: ContextReport
  lc_window :: "nat option"
  lc_tools :: "LoopToolRegistration list"
  lc_payload :: "json option"
  lc_recovery_attempt :: nat

abbreviation lc_limits :: "loop_config \<Rightarrow> AgentLoopLimits" where
  "lc_limits cfg \<equiv> rq_limits (lc_request cfg)"

abbreviation lc_message_id :: "loop_config \<Rightarrow> uuid" where
  "lc_message_id cfg \<equiv> rq_assistant_message_id (lc_request cfg)"

definition completion_tokens :: "AgentLoopRequest \<Rightarrow> nat option" where
  "completion_tokens r =
     (let n = sat_add (rq_output_reservation r) (rq_reasoning_reservation r) in if 0 < n then Some n else None)"

definition stop_cancelled :: "'w loop_env \<Rightarrow> loop_config \<Rightarrow> ('w, AgentLoopResult option) loop_m" where
  "stop_cancelled env cfg = mbind (cancel_or_timeout env (lc_message_id cfg) (lc_context cfg)) (\<lambda>r. mret (Some r))"

definition checkpoint_now :: "'w loop_env \<Rightarrow> loop_config \<Rightarrow> CheckpointReason \<Rightarrow> chat_message list \<Rightarrow> ('w, unit) loop_m" where
  "checkpoint_now env cfg why messages =
     mbind (mget (\<lambda>s. \<lparr>ck_reason = why, ck_model_call_index = ls_model_calls s - 1, ck_model_calls = ls_model_calls s,
       ck_tool_calls = ls_tool_calls s, ck_tool_round = ls_tool_round s, ck_recovery_attempt = lc_recovery_attempt cfg,
       ck_messages = checkpoint_messages messages\<rparr>)) (\<lambda>c.
     save_checkpoint env c (context_checkpoint_timeout_ms (lc_limits cfg)))"

definition push_messages :: "chat_message list \<Rightarrow> ('w, unit) loop_m" where
  "push_messages ms = mset_state (\<lambda>s. s\<lparr>ls_messages := ls_messages s @ ms\<rparr>)"

definition take_queued :: "'w loop_env \<Rightarrow> AgentInputKind \<Rightarrow> ('w, ContextEntry list) loop_m" where
  "take_queued env kind = mbind (mcall (le_take_input env kind)) (\<lambda>r. mresult (map_err LeInternal r))"

definition push_input :: "ContextEntry list \<Rightarrow> ('w, unit) loop_m" where
  "push_input entries = mset_state (\<lambda>s. s\<lparr>ls_messages := append_input_messages (ls_messages s) entries\<rparr>)"

section \<open>Background results at the head of an iteration\<close>

definition receive_background :: "'w loop_env \<Rightarrow> loop_config \<Rightarrow> chat_message list \<Rightarrow> ('w, unit) loop_m" where
  "receive_background env cfg background =
     (if background = [] then mret ()
      else
        mbind (push_messages background) (\<lambda>_.
        mbind (mget ls_messages) (\<lambda>messages.
        mbind (checkpoint_now env cfg ModelCall messages) (\<lambda>_.
        mbind (mset_state (\<lambda>s. s\<lparr>ls_natural_stop := False\<rparr>)) (\<lambda>_.
        mbind (mget ls_machine) (\<lambda>p.
        if p = Verifying then change_state env Generating else mret ()))))))"

section \<open>Verification of an answer\<close>

text \<open>The citation check and the queued input; the result is whether the loop goes on with new input.\<close>

definition check_answer :: "'w loop_env \<Rightarrow> loop_config \<Rightarrow> ('w, bool) loop_m" where
  "check_answer env cfg =
     mbind (mget ls_answer) (\<lambda>answer.
     case validate_citations answer (rq_evidence (lc_request cfg)) of
       Inl (Citation m) \<Rightarrow> fail_here env (lc_message_id cfg) (LeCitation m)
     | Inr _ \<Rightarrow>
         mbind (take_queued env Steering) (\<lambda>steering.
         mbind (if steering = [] then take_queued env FollowUp else mret steering) (\<lambda>queued.
         if queued \<noteq> [] then
           mbind (push_input queued) (\<lambda>_.
           mbind (change_state env Generating) (\<lambda>_. mret True))
         else mbind (change_state env Completing) (\<lambda>_. mret False))))"

definition complete_run :: "'w loop_env \<Rightarrow> loop_config \<Rightarrow> ('w, AgentLoopResult option) loop_m" where
  "complete_run env cfg =
     mbind (finish env AgentRunState.Completed OutcomeCompleted (lc_message_id cfg)) (\<lambda>_.
     mget (\<lambda>s. Some \<lparr>lo_outcome = OutcomeCompleted, lo_answer = ls_answer s, lo_reasoning = ls_reasoning s,
       lo_reasoning_ms = ls_reasoning_ms s, lo_usage = ls_usage s, lo_context = lc_context cfg\<rparr>))"

text \<open>The natural stop of a resumed run; \<open>None\<close> falls through to the rest of the iteration.\<close>

definition stop_naturally :: "'w loop_env \<Rightarrow> loop_config \<Rightarrow> ('w, AgentLoopResult option option) loop_m" where
  "stop_naturally env cfg =
     mbind (mget ls_answer) (\<lambda>answer.
     mbind (if (case rq_resume (lc_request cfg) of None \<Rightarrow> False | Some r \<Rightarrow> re_assistant_result_recorded r) then mret ()
            else record_event env (MessageCompleted (lc_message_id cfg) Assistant answer False)) (\<lambda>_.
     mbind (mget ls_machine) (\<lambda>p.
     mbind (if p = Generating then change_state env Verifying else mret ()) (\<lambda>_.
     mbind (mget ls_machine) (\<lambda>p.
     mbind (if p = Verifying then check_answer env cfg else mret False) (\<lambda>again.
     if again then mret (Some None)
     else
       mbind (mget ls_machine) (\<lambda>p.
       if p = Completing then mbind (complete_run env cfg) (\<lambda>r. mret (Some r)) else mret None)))))))"

definition natural_stop :: "'w loop_env \<Rightarrow> loop_config \<Rightarrow> ('w, AgentLoopResult option option) loop_m" where
  "natural_stop env cfg =
     mbind (mget ls_natural_stop) (\<lambda>stop.
     if \<not> stop then mret None
     else mbind (mset_state (\<lambda>s. s\<lparr>ls_natural_stop := False\<rparr>)) (\<lambda>_. stop_naturally env cfg))"

section \<open>Tool calls pending from before a restart\<close>

fun resume_decisions ::
  "'w loop_env \<Rightarrow> (uuid \<times> rstr) list \<Rightarrow> (PreparedToolCall \<times> ResumableToolCall) list
     \<Rightarrow> ('w, PreparedToolCall list \<times> (PreparedToolCall \<times> rstr option) list) loop_m" where
  "resume_decisions env blocked [] = mret ([], [])"
| "resume_decisions env blocked ((call, persisted) # rest) =
     mbind (case map_of blocked (pt_tool_call_id call) of
              Some message \<Rightarrow> mret ([], [(call, Some message)])
            | None \<Rightarrow>
                if pt_risk call = Automatic then mret ([call], [])
                else
                  mbind (mresult (ok_or (LeInternal (str ''resumed permission is missing its user decision'')) (rm_decision persisted))) (\<lambda>decision.
                  mbind (mresult (ok_or (LeInternal (str ''resumed permission ID is missing'')) (rm_permission_id persisted))) (\<lambda>permission_id.
                  mbind (record_event env (PermissionResolved permission_id decision)) (\<lambda>_.
                  mret (if decision = Deny then ([], [(call, None)]) else ([call], [])))))) (\<lambda>(approved, denied).
     mbind (resume_decisions env blocked rest) (\<lambda>(more_approved, more_denied).
     mret (approved @ more_approved, denied @ more_denied)))"

definition resume_approved :: "'w loop_env \<Rightarrow> loop_config \<Rightarrow> PreparedToolCall list \<Rightarrow> ('w, chat_message list) loop_m" where
  "resume_approved env cfg approved =
     mbind (mget ls_machine) (\<lambda>p.
     if approved = [] then
       mbind (if p = AwaitingPermission then change_state_with_guards env Generating idle_guards else mret ()) (\<lambda>_. mret [])
     else
       mbind (if p = AwaitingPermission then change_state_with_guards env ExecutingTools
                \<lparr>unresolved_tool_calls = length approved, unresolved_permissions = 0, executable_tool_calls = length approved\<rparr>
              else mret ()) (\<lambda>_.
       mbind (execute_tool_batch env (lc_tools cfg) approved) (\<lambda>executed.
       mbind (is_cancelled env) (\<lambda>cancelled.
       if cancelled then mthrow (LeProvider ProviderError_cancelled)
       else mbind (change_state env Generating) (\<lambda>_. mret executed)))))"

definition resume_tool_batch :: "'w loop_env \<Rightarrow> loop_config \<Rightarrow> ResumableToolCall list \<Rightarrow> ('w, chat_message list) loop_m" where
  "resume_tool_batch env cfg pending =
     (if pending = [] then mret []
      else
        mbind (mresult (try_map (\<lambda>call. rbind (map_err LeInternal (le_to_string env (rm_arguments call))) (\<lambda>arguments.
          Inr \<lparr>ct_id = rm_tool_call_id call, ct_name = rm_tool_name call, ct_arguments = arguments\<rparr>)) pending)) (\<lambda>model_calls.
        mbind (prepare_tool_calls env (lc_tools cfg) model_calls) (\<lambda>r.
        mbind (mresult (map_err LeToolRepair r)) (\<lambda>prepared.
        if length prepared \<noteq> length pending then mthrow (LeInternal (str ''resumed tool batch changed its call count''))
        else
          let prepared = map (\<lambda>(call, persisted). call\<lparr>pt_tool_call_id := rm_tool_call_id persisted\<rparr>) (zip prepared pending) in
          mbind (pre_hooks env (lc_tools cfg) (str ''resumed tool is not registered'') prepared) (\<lambda>(calls, blocked).
          mbind (resume_decisions env blocked (zip calls pending)) (\<lambda>(approved, denied).
          mbind (is_cancelled env) (\<lambda>cancelled.
          if cancelled then mthrow (LeProvider ProviderError_cancelled)
          else
            mbind (denied_observations env denied) (\<lambda>observations.
            mbind (mcall (le_after_tool_round env (map rm_tool_name pending))) (\<lambda>_.
            mbind (resume_approved env cfg approved) (\<lambda>executed.
            mret (observations @ executed)))))))))))"

text \<open>The limit checks of a round.\<close>

definition check_limit :: "'w loop_env \<Rightarrow> loop_config \<Rightarrow> string \<Rightarrow> nat option \<Rightarrow> nat \<Rightarrow> ('w, unit) loop_m" where
  "check_limit env cfg kind limit observed =
     (case over_limit limit observed of
        Some l \<Rightarrow> fail_here env (lc_message_id cfg) (LeLimit (str kind) l observed)
      | None \<Rightarrow> mret ())"

text \<open>The pending calls of a round that is counted.\<close>

definition resume_pending :: "'w loop_env \<Rightarrow> loop_config \<Rightarrow> ResumableToolCall list \<Rightarrow> ('w, AgentLoopResult option) loop_m" where
  "resume_pending env cfg pending =
     mbind (push_messages [assistant_tool_calls_with_reasoning
       (map (\<lambda>call. \<lparr>ct_id = rm_tool_call_id call, ct_name = rm_tool_name call,
          ct_arguments = (case le_to_string env (rm_arguments call) of Inl _ \<Rightarrow> [] | Inr t \<Rightarrow> t)\<rparr>) pending) []]) (\<lambda>_.
     mbind (mtry (resume_tool_batch env cfg pending)) (\<lambda>r.
     case r of
       Inl error \<Rightarrow> mbind (is_cancelled env) (\<lambda>cancelled. if cancelled then stop_cancelled env cfg else fail_here env (lc_message_id cfg) error)
     | Inr observations \<Rightarrow>
         mbind (push_messages observations) (\<lambda>_.
         mbind (take_queued env Steering) (\<lambda>queued.
         mbind (push_input queued) (\<lambda>_. mret None)))))"

definition resume_round :: "'w loop_env \<Rightarrow> loop_config \<Rightarrow> ResumableToolCall list \<Rightarrow> ('w, AgentLoopResult option) loop_m" where
  "resume_round env cfg pending =
     mbind (mget ls_tool_round) (\<lambda>n.
     mbind (check_limit env cfg ''tool_rounds'' (max_tool_rounds (lc_limits cfg)) (n + 1)) (\<lambda>_.
     mbind (mget (\<lambda>s. sat_add (ls_tool_calls s) (length pending))) (\<lambda>observed.
     mbind (check_limit env cfg ''tool_calls'' (max_tool_calls (lc_limits cfg)) observed) (\<lambda>_.
     mbind (mset_state (\<lambda>s. s\<lparr>ls_tool_round := n + 1, ls_tool_calls := observed, ls_resumable := []\<rparr>)) (\<lambda>_.
     resume_pending env cfg pending)))))"

section \<open>A failed generation\<close>

definition join_reasoning :: "rstr \<Rightarrow> rstr \<Rightarrow> rstr" where
  "join_reasoning old extra = (if extra = [] then old else if old = [] then extra else old @ [10, 10] @ extra)"

definition absorb_partial :: "('w, ChatResponse) loop_m" where
  "absorb_partial =
     mbind (mget ls_partial) (\<lambda>partial.
     mbind (mset_state (\<lambda>s. s\<lparr>ls_answer := ls_answer s @ rp_text partial,
       ls_reasoning := join_reasoning (ls_reasoning s) (rp_reasoning partial)\<rparr>)) (\<lambda>_.
     mret partial))"

definition partial_messages :: "ChatResponse \<Rightarrow> chat_message list" where
  "partial_messages partial =
     (if rp_text partial = [] \<and> rp_reasoning partial = [] then []
      else [(ChatMessage_new (str ''assistant'') (rp_text partial))\<lparr>cm_reasoning_content :=
        (if rp_reasoning partial = [] then None else Some (rp_reasoning partial))\<rparr>])"

definition abandon :: "'w loop_env \<Rightarrow> loop_config \<Rightarrow> AgentLoopError \<Rightarrow> ('w, AgentLoopResult option) loop_m" where
  "abandon env cfg error =
     mbind (is_cancelled env) (\<lambda>cancelled.
     if cancelled then
       mbind (cancel_or_timeout env (lc_message_id cfg) (lc_context cfg)) (\<lambda>r.
       mget (\<lambda>s. Some (r\<lparr>lo_reasoning := ls_reasoning s, lo_reasoning_ms := ls_reasoning_ms s\<rparr>)))
     else
       mbind (mget ls_answer) (\<lambda>answer.
       mbind (if answer \<noteq> [] then record_event env (MessageCompleted (lc_message_id cfg) Assistant answer True) else mret ()) (\<lambda>_.
       fail_here env (lc_message_id cfg) error)))"

section \<open>A final answer\<close>

definition finish_answer :: "nat \<Rightarrow> 'w loop_env \<Rightarrow> loop_config \<Rightarrow> chat_message list \<Rightarrow> ('w, AgentLoopResult option) loop_m" where
  "finish_answer fuel env cfg assistant_checkpoint =
     mbind (mset_state (\<lambda>s. s\<lparr>ls_messages := assistant_checkpoint\<rparr>)) (\<lambda>_.
     mbind (mtry (await_background_results fuel env True)) (\<lambda>r.
     case r of
       Inl error \<Rightarrow> mbind (is_cancelled env) (\<lambda>cancelled. if cancelled then stop_cancelled env cfg else fail_here env (lc_message_id cfg) error)
     | Inr background \<Rightarrow>
         if background \<noteq> [] then
           mbind (push_messages background) (\<lambda>_.
           mbind (mget ls_messages) (\<lambda>messages.
           mbind (checkpoint_now env cfg ModelCall messages) (\<lambda>_. mret None)))
         else
           mbind (if save_checkpoints (lc_limits cfg) then checkpoint_now env cfg AssistantResult assistant_checkpoint else mret ()) (\<lambda>_.
           mbind (mget ls_answer) (\<lambda>answer.
           mbind (record_event env (MessageCompleted (lc_message_id cfg) Assistant answer False)) (\<lambda>_.
           mbind (change_state env Verifying) (\<lambda>_.
           mbind (check_answer env cfg) (\<lambda>again.
           if again then mret None else complete_run env cfg)))))))"

section \<open>A round of tool calls\<close>

fun decide_calls ::
  "'w loop_env \<Rightarrow> (uuid \<times> rstr) list \<Rightarrow> PreparedToolCall list \<Rightarrow> ('w, PreparedToolCall list \<times> (PreparedToolCall \<times> rstr option) list) loop_m" where
  "decide_calls env blocked [] = mret ([], [])"
| "decide_calls env blocked (call # calls) =
     mbind (case map_of blocked (pt_tool_call_id call) of
              Some message \<Rightarrow> mret ([], [(call, Some message)])
            | None \<Rightarrow>
                if pt_risk call = Automatic then mret ([call], [])
                else
                  mbind (mcall (le_new_uuid env)) (\<lambda>permission_id.
                  mbind (record_event env (PermissionRequested \<lparr>pq_permission_id = permission_id, pq_tool_call_id = pt_tool_call_id call,
                    pq_risk = pt_risk call, pq_reason = str ''This tool is outside the automatic read-only boundary.'',
                    pq_summary = str ''Run '' @ pt_tool_name call\<rparr>)) (\<lambda>_.
                  let request = \<lparr>lp_permission_id = permission_id, lp_tool_call_id = pt_tool_call_id call, lp_tool_id = pt_tool_id call,
                        lp_tool_name = pt_tool_name call, lp_risk = pt_risk call, lp_arguments = pt_arguments call\<rparr> in
                  mbind (mcall (le_decide env request)) (\<lambda>decision.
                  mbind (mnote (AtDecide request decision)) (\<lambda>_.
                  mbind (record_event env (PermissionResolved permission_id decision)) (\<lambda>_.
                  mret (if decision = Deny then ([], [(call, None)]) else ([call], [])))))))) (\<lambda>(approved, denied).
     mbind (decide_calls env blocked calls) (\<lambda>(more_approved, more_denied).
     mret (approved @ more_approved, denied @ more_denied)))"

definition requested :: "PreparedToolCall \<Rightarrow> AgentEventData" where
  "requested call = ToolRequested \<lparr>tq_tool_call_id = pt_tool_call_id call, tq_tool_id = pt_tool_id call,
     tq_tool_name = pt_tool_name call, tq_arguments = pt_arguments call\<rparr>"

text \<open>The approved calls run, and the machine returns to generation; \<open>None\<close> when the run is cancelled.\<close>

definition run_approved :: "'w loop_env \<Rightarrow> loop_config \<Rightarrow> nat \<Rightarrow> PreparedToolCall list \<Rightarrow> ('w, chat_message list option) loop_m" where
  "run_approved env cfg pending_permissions approved =
     (if approved = [] then
        mbind (if 0 < pending_permissions then change_state_with_guards env Generating idle_guards else mret ()) (\<lambda>_. mret (Some []))
      else
        mbind (change_state_with_guards env ExecutingTools
          \<lparr>unresolved_tool_calls = length approved, unresolved_permissions = 0, executable_tool_calls = length approved\<rparr>) (\<lambda>_.
        mbind (execute_tool_batch env (lc_tools cfg) approved) (\<lambda>executed.
        mbind (is_cancelled env) (\<lambda>cancelled.
        if cancelled then mret None
        else mbind (change_state env Generating) (\<lambda>_. mret (Some executed))))))"

text \<open>From the permissions to the end of the round.\<close>

definition run_decided ::
  "'w loop_env \<Rightarrow> loop_config \<Rightarrow> nat \<Rightarrow> (uuid \<times> rstr) list \<Rightarrow> PreparedToolCall list \<Rightarrow> ('w, AgentLoopResult option) loop_m" where
  "run_decided env cfg pending_permissions blocked calls =
     mbind (decide_calls env blocked calls) (\<lambda>(approved, denied).
     mbind (is_cancelled env) (\<lambda>cancelled.
     if cancelled then stop_cancelled env cfg
     else
       mbind (denied_observations env denied) (\<lambda>observations.
       mbind (mcall (le_after_tool_round env (map pt_tool_name calls))) (\<lambda>_.
       mbind (run_approved env cfg pending_permissions approved) (\<lambda>executed.
       case executed of
         None \<Rightarrow> stop_cancelled env cfg
       | Some executed \<Rightarrow>
           mbind (push_messages (observations @ executed)) (\<lambda>_.
           mbind (take_queued env Steering) (\<lambda>queued.
           mbind (push_input queued) (\<lambda>_. mret None))))))))"

text \<open>From the prepared calls.\<close>

definition run_tools :: "'w loop_env \<Rightarrow> loop_config \<Rightarrow> chat_tool_call list \<Rightarrow> PreparedToolCall list \<Rightarrow> rstr \<Rightarrow> ('w, AgentLoopResult option) loop_m" where
  "run_tools env cfg model_calls calls reasoning =
     mbind (pre_hooks env (lc_tools cfg) (str ''hook tool is not registered'') calls) (\<lambda>(calls, blocked).
     mbind (push_messages [assistant_tool_calls_with_reasoning model_calls reasoning]) (\<lambda>_.
     mbind (mfor (\<lambda>call. record_event env (requested call)) calls) (\<lambda>_.
     let pending_permissions = length (filter (\<lambda>call. pt_risk call \<noteq> Automatic) calls) in
     mbind (if 0 < pending_permissions then change_state_with_guards env AwaitingPermission
              \<lparr>unresolved_tool_calls = length calls, unresolved_permissions = pending_permissions, executable_tool_calls = 0\<rparr>
            else mret ()) (\<lambda>_.
     run_decided env cfg pending_permissions blocked calls))))"

definition tool_turn :: "'w loop_env \<Rightarrow> loop_config \<Rightarrow> ChatResponse \<Rightarrow> chat_message list \<Rightarrow> ('w, AgentLoopResult option) loop_m" where
  "tool_turn env cfg response assistant_checkpoint =
     mbind (mget ls_tool_round) (\<lambda>n.
     mbind (check_limit env cfg ''tool_rounds'' (max_tool_rounds (lc_limits cfg)) (n + 1)) (\<lambda>_.
     mbind (mset_state (\<lambda>s. s\<lparr>ls_tool_round := n + 1, ls_partial := ChatResponse_default\<rparr>)) (\<lambda>_.
     mbind (mtry (repair_tool_calls env (lc_tools cfg) (lc_payload cfg) (lc_message_id cfg) (lc_limits cfg)
       (completion_tokens (lc_request cfg)) (rp_tool_calls response))) (\<lambda>r.
     case r of
       Inl error \<Rightarrow>
         mbind absorb_partial (\<lambda>partial.
         mbind (if save_checkpoints (lc_limits cfg) \<and> partial_messages partial \<noteq> []
                then checkpoint_now env cfg AssistantError (assistant_checkpoint @ partial_messages partial) else mret ()) (\<lambda>_.
         abandon env cfg error))
     | Inr (model_calls, calls) \<Rightarrow>
         mbind (mget (\<lambda>s. sat_add (ls_tool_calls s) (length calls))) (\<lambda>observed.
         mbind (check_limit env cfg ''tool_calls'' (max_tool_calls (lc_limits cfg)) observed) (\<lambda>_.
         mbind (mset_state (\<lambda>s. s\<lparr>ls_tool_calls := observed\<rparr>)) (\<lambda>_.
         run_tools env cfg model_calls calls (rp_reasoning response))))))))"

section \<open>A model call\<close>

definition chat_request :: "loop_config \<Rightarrow> chat_message list \<Rightarrow> ChatRequest" where
  "chat_request cfg messages =
     \<lparr>cq_messages = messages, cq_temperature = model_temperature (lc_limits cfg), cq_tools = lc_payload cfg,
      cq_max_tokens = (case model_max_tokens (lc_limits cfg) of Some n \<Rightarrow> Some n | None \<Rightarrow> completion_tokens (lc_request cfg))\<rparr>"

text \<open>What a response adds to the answer, the reasoning and the usage.\<close>

definition absorb_response :: "'w loop_env \<Rightarrow> loop_config \<Rightarrow> ChatResponse \<Rightarrow> rstr \<Rightarrow> nat \<Rightarrow> ('w, unit) loop_m" where
  "absorb_response env cfg response streamed_text ms =
     mbind (mset_state (\<lambda>s. s\<lparr>ls_reasoning := join_reasoning (ls_reasoning s) (rp_reasoning response),
       ls_reasoning_ms := sat_u64 (ls_reasoning_ms s) ms\<rparr>)) (\<lambda>_.
     mbind (mget ls_answer) (\<lambda>answer.
     mbind (append_response_text env answer response streamed_text (lc_message_id cfg)) (\<lambda>answer.
     mbind (mset_state (\<lambda>s. s\<lparr>ls_answer := answer\<rparr>)) (\<lambda>_.
     case rp_usage response of
       None \<Rightarrow> mret ()
     | Some u \<Rightarrow> mbind (record_usage env u) (\<lambda>_. mset_state (\<lambda>s. s\<lparr>ls_usage := Some (add_usage (ls_usage s) u)\<rparr>))))))"

definition assistant_message :: "ChatResponse \<Rightarrow> chat_message" where
  "assistant_message response = \<lparr>cm_role = str ''assistant'', cm_content = rp_text response, cm_images = [],
     cm_reasoning_content = (if rp_reasoning response = [] then None else Some (rp_reasoning response)), cm_tool_call_id = None,
     cm_tool_calls = rp_tool_calls response\<rparr>"

text \<open>A model call that is counted: the request within its budget, the response, and what it asks for.\<close>

definition model_call :: "nat \<Rightarrow> 'w loop_env \<Rightarrow> loop_config \<Rightarrow> ('w, AgentLoopResult option) loop_m" where
  "model_call fuel env cfg =
     mbind (mget ls_messages) (\<lambda>messages.
     mbind (mcall (le_before_model env)) (\<lambda>hook.
     case budget_chat_messages (messages @ (case hook of None \<Rightarrow> [] | Some m \<Rightarrow> [m])) (lc_window cfg)
            (rq_output_reservation (lc_request cfg)) (rq_reasoning_reservation (lc_request cfg))
            (map_option (le_display env) (lc_payload cfg)) of
       Inl error \<Rightarrow> fail_here env (lc_message_id cfg) (LeContext error)
     | Inr request_messages \<Rightarrow>
         mbind (if save_checkpoints (lc_limits cfg) then checkpoint_now env cfg ModelCall request_messages else mret ()) (\<lambda>_.
         mbind (set_partial (\<lambda>_. ChatResponse_default)) (\<lambda>_.
         mbind (mtry (generate_with_recovery env (chat_request cfg request_messages) (lc_message_id cfg) (lc_limits cfg)
           (rq_output_reservation (lc_request cfg), rq_reasoning_reservation (lc_request cfg)))) (\<lambda>r.
         case r of
           Inl error \<Rightarrow>
             mbind absorb_partial (\<lambda>partial.
             mbind (if save_checkpoints (lc_limits cfg)
                    then checkpoint_now env cfg AssistantError (request_messages @ partial_messages partial) else mret ()) (\<lambda>_.
             abandon env cfg error))
         | Inr (response, streamed_text, ms) \<Rightarrow>
             mbind (absorb_response env cfg response streamed_text ms) (\<lambda>_.
             mbind (if rp_cancelled response then mret True else is_cancelled env) (\<lambda>cancelled.
             if cancelled then stop_cancelled env cfg
             else if rp_tool_calls response = [] then finish_answer fuel env cfg (request_messages @ [assistant_message response])
             else tool_turn env cfg response (request_messages @ [assistant_message response]))))))))"

definition model_round :: "nat \<Rightarrow> 'w loop_env \<Rightarrow> loop_config \<Rightarrow> ('w, AgentLoopResult option) loop_m" where
  "model_round fuel env cfg =
     mbind (is_cancelled env) (\<lambda>cancelled.
     if cancelled then stop_cancelled env cfg
     else
       mbind (mget ls_model_calls) (\<lambda>n.
       mbind (check_limit env cfg ''model_calls'' (max_model_calls (lc_limits cfg)) (n + 1)) (\<lambda>_.
       mbind (mset_state (\<lambda>s. s\<lparr>ls_model_calls := n + 1\<rparr>)) (\<lambda>_. model_call fuel env cfg))))"

section \<open>The loop and its prologue\<close>

definition loop_iteration :: "nat \<Rightarrow> 'w loop_env \<Rightarrow> loop_config \<Rightarrow> ('w, AgentLoopResult option) loop_m" where
  "loop_iteration fuel env cfg =
     mbind (mget ls_natural_stop) (\<lambda>wait.
     mbind (mtry (await_background_results fuel env wait)) (\<lambda>r.
     case r of
       Inl error \<Rightarrow> mbind (is_cancelled env) (\<lambda>cancelled. if cancelled then stop_cancelled env cfg else fail_here env (lc_message_id cfg) error)
     | Inr background \<Rightarrow>
         mbind (receive_background env cfg background) (\<lambda>_.
         mbind (natural_stop env cfg) (\<lambda>stopped.
         case stopped of
           Some out \<Rightarrow> mret out
         | None \<Rightarrow>
             mbind (mget ls_resumable) (\<lambda>pending.
             if pending \<noteq> [] then resume_round env cfg pending else model_round fuel env cfg)))))"

fun loop_run :: "nat \<Rightarrow> nat \<Rightarrow> 'w loop_env \<Rightarrow> loop_config \<Rightarrow> ('w, AgentLoopResult) loop_m" where
  "loop_run 0 fuel env cfg = mstuck"
| "loop_run (Suc n) fuel env cfg =
     mbind (loop_iteration fuel env cfg) (\<lambda>r. case r of Some out \<Rightarrow> mret out | None \<Rightarrow> loop_run n fuel env cfg)"

text \<open>The checks on a resumed run; the recovery attempt it counts as.\<close>

definition resume_attempt :: "AgentLoopRequest \<Rightarrow> (AgentLoopError, nat) result" where
  "resume_attempt request =
     (case rq_resume request of
        None \<Rightarrow> Inr 0
      | Some r \<Rightarrow>
          if is_terminal (re_state r) then Inl (LeInternal (str ''cannot resume an agent loop from a terminal state''))
          else
            let attempt = sat_add (ck_recovery_attempt (re_checkpoint r)) 1 in
            if max_recovery_attempts (rq_limits request) < attempt then Inl (LeInternal (str ''agent recovery attempt limit exceeded''))
            else Inr attempt)"

definition set_deadline :: "'w loop_env \<Rightarrow> nat option \<Rightarrow> ('w, unit) loop_m" where
  "set_deadline env limit =
     (case limit of
        None \<Rightarrow> mret ()
      | Some ms \<Rightarrow> mbind (mcall (le_now env)) (\<lambda>now. mset_state (\<lambda>s. s\<lparr>ls_deadline := Some (now + ms * 1000000)\<rparr>)))"

text \<open>The state changes before the loop; \<open>Some\<close> is the result of a run cancelled while it prepares.\<close>

definition enter_loop :: "'w loop_env \<Rightarrow> AgentLoopRequest \<Rightarrow> ContextReport \<Rightarrow> ('w, AgentLoopResult option) loop_m" where
  "enter_loop env request context =
     (case rq_resume request of
        None \<Rightarrow>
          mbind (change_state env Preparing) (\<lambda>_.
          mbind (is_cancelled env) (\<lambda>cancelled.
          if cancelled then mbind (cancel_or_timeout env (rq_assistant_message_id request) context) (\<lambda>r. mret (Some r))
          else
            mbind (change_state env Generating) (\<lambda>_.
            case rq_evidence request of
              None \<Rightarrow> mret None
            | Some e \<Rightarrow> mbind (record_event env (EvidenceAttached (evidence_pack_id e) (ev_citation_numbers e))) (\<lambda>_. mret None))))
      | Some r \<Rightarrow>
          mbind (mset_state (\<lambda>s. s\<lparr>ls_machine := re_state r\<rparr>)) (\<lambda>_.
          if re_state r = Preparing then mbind (change_state env Generating) (\<lambda>_. mret None) else mret None))"

text \<open>The mutable locals at the start of the loop.\<close>

definition load_locals :: "'w loop_env \<Rightarrow> AgentLoopRequest \<Rightarrow> ContextReport \<Rightarrow> ('w, unit) loop_m" where
  "load_locals env request context =
     (case rq_resume request of
        None \<Rightarrow> mset_state (\<lambda>s. s\<lparr>ls_messages := render_context_messages (le_base64 env) (le_utf8 env) context (rq_context request)
                  (rq_attachments request)\<rparr>)
      | Some r \<Rightarrow>
          (let c = re_checkpoint r; stop = (ck_reason c = AssistantResult);
               last_assistant = find (\<lambda>m. cm_role m = str ''assistant'') (rev (ck_messages c)) in
           mset_state (\<lambda>s. s\<lparr>ls_messages := ck_messages c, ls_natural_stop := stop,
             ls_answer := (if stop then (case last_assistant of None \<Rightarrow> [] | Some m \<Rightarrow> cm_content m) else []),
             ls_reasoning := (if stop then (case last_assistant of None \<Rightarrow> []
                | Some m \<Rightarrow> (case cm_reasoning_content m of None \<Rightarrow> [] | Some t \<Rightarrow> t)) else []),
             ls_tool_round := ck_tool_round c, ls_model_calls := ck_model_calls c, ls_tool_calls := ck_tool_calls c,
             ls_resumable := re_pending_tools r\<rparr>)))"

definition tool_payload :: "'w loop_env \<Rightarrow> AgentLoopRequest \<Rightarrow> LoopToolRegistration list \<Rightarrow> ('w, json option) loop_m" where
  "tool_payload env request regs =
     (if regs = [] then mret None
      else if \<not> pc_tool_calls (le_capabilities env)
      then fail_here env (rq_assistant_message_id request) (LeCapability (str ''configured model does not support tool calls''))
      else mret (Some (tool_definitions regs)))"

definition agent_run :: "nat \<Rightarrow> nat \<Rightarrow> 'w loop_env \<Rightarrow> AgentLoopRequest \<Rightarrow> ('w, AgentLoopResult) loop_m" where
  "agent_run n fuel env request =
     mbind (mresult (map_err (\<lambda>m. LeInternal (str m)) (AgentLoopLimits_validate (rq_limits request)))) (\<lambda>_.
     mbind (mresult (resume_attempt request)) (\<lambda>recovery_attempt.
     mbind (set_deadline env (deadline_ms (rq_limits request))) (\<lambda>_.
     mbind (mresult (map_err (\<lambda>e. LeCapability (provider_error_display e)) (require_capability (le_capabilities env) Chat))) (\<lambda>_.
     let window = effective_context_window (context_budget (rq_limits request)) (pc_context_window (le_capabilities env)) in
     case budget_context (map ce_item (rq_context request)) window (rq_output_reservation request) (rq_reasoning_reservation request) of
       Inl error \<Rightarrow> fail env Created (rq_assistant_message_id request) (LeContext error)
     | Inr context \<Rightarrow>
         mbind (enter_loop env request context) (\<lambda>entered.
         case entered of
           Some out \<Rightarrow> mret out
         | None \<Rightarrow>
             mbind (load_locals env request context) (\<lambda>_.
             mbind (mresult (map_err LeInternal (snapshot_capture (le_registrations env)))) (\<lambda>regs.
             mbind (tool_payload env request regs) (\<lambda>payload.
             loop_run n fuel env \<lparr>lc_request = request, lc_context = context, lc_window = window, lc_tools = regs, lc_payload = payload,
               lc_recovery_attempt = recovery_attempt\<rparr>))))))))"

end
