(* ===== verification/Loop_Steady.thy ===== *)
theory Loop_Steady
  imports Agent_Loop
begin

text \<open>
  Assertions that most calls of the loop do not touch.  The locale \<open>stable_assertion\<close> fixes an assertion and the actions
  that keep it; inside, every operation of the loop that performs only such actions is shown to keep it, also when it
  throws.
\<close>

text \<open>The part of the state the assertions are about.\<close>

definition same_core :: "'w loop_state \<Rightarrow> 'w loop_state \<Rightarrow> bool" where
  "same_core s t \<longleftrightarrow> ls_trace s = ls_trace t \<and> ls_machine s = ls_machine t \<and> ls_model_calls s = ls_model_calls t
     \<and> ls_tool_calls s = ls_tool_calls t \<and> ls_tool_round s = ls_tool_round t \<and> ls_resumable s = ls_resumable t
     \<and> ls_natural_stop s = ls_natural_stop t"

abbreviation noted :: "action \<Rightarrow> 'w loop_state \<Rightarrow> 'w loop_state" where
  "noted a s \<equiv> s\<lparr>ls_trace := ls_trace s @ [a]\<rparr>"

fun starts_tool :: "AgentEventData \<Rightarrow> bool" where
  "starts_tool (ToolStarted i) = True"
| "starts_tool _ = False"

lemma triple_true: "triple P m (\<lambda>_ _. True) (\<lambda>_ _. True)"
  by (simp add: triple_def split: prod.splits exec.splits)

lemma triple_conj:
  "triple P m Q E \<Longrightarrow> triple P' m Q' E' \<Longrightarrow> triple (\<lambda>s. P s \<and> P' s) m (\<lambda>x s. Q x s \<and> Q' x s) (\<lambda>e s. E e s \<and> E' e s)"
  unfolding triple_def by (fastforce split: prod.splits exec.splits)

lemma triple_pure:
  "(b \<Longrightarrow> triple P m Q E) \<Longrightarrow> triple (\<lambda>s. P s \<and> b) m Q E"
  by (auto simp: triple_def)

locale stable_assertion =
  fixes env :: "'w loop_env" and P :: "'w loop_state \<Rightarrow> bool" and A :: "action \<Rightarrow> bool"
  assumes core: "same_core s s' \<Longrightarrow> P s \<Longrightarrow> P s'"
    and keeps: "A a \<Longrightarrow> P s \<Longrightarrow> P (noted a s)"
    and events: "\<not> starts_tool ev \<Longrightarrow> A (AtRecord ev)"
    and saves: "A (AtCheckpoint c)"
begin

definition steady :: "('w, 'a) loop_m \<Rightarrow> bool" where
  "steady c \<longleftrightarrow> triple P c (\<lambda>_. P) (\<lambda>_. P)"

lemma steady_bind: "steady c \<Longrightarrow> (\<And>x. steady (f x)) \<Longrightarrow> steady (mbind c f)"
  unfolding steady_def by (rule triple_bind)

lemma steady_ret: "steady (mret x)"
  unfolding steady_def by (auto intro: triple_ret)

lemma steady_throw: "steady (mthrow e)"
  unfolding steady_def by (auto intro: triple_throw)

lemma steady_stuck: "steady mstuck"
  unfolding steady_def by (auto intro: triple_stuck)

lemma steady_get: "steady (mget f)"
  unfolding steady_def by (auto intro: triple_get)

lemma steady_call: "steady (mcall op)"
  unfolding steady_def by (auto intro!: triple_call elim: core [rotated] simp: same_core_def)

lemma steady_set: "(\<And>s. same_core s (f s)) \<Longrightarrow> steady (mset_state f)"
  unfolding steady_def by (auto intro!: triple_set elim: core [rotated])

lemma steady_note: "A a \<Longrightarrow> steady (mnote a)"
  unfolding steady_def by (auto intro!: triple_note keeps)

lemma steady_result: "steady (mresult r)"
  unfolding steady_def by (auto intro!: triple_result)

lemma steady_if: "(b \<Longrightarrow> steady c) \<Longrightarrow> (\<not> b \<Longrightarrow> steady d) \<Longrightarrow> steady (if b then c else d)"
  by simp

lemma steady_option: "steady c \<Longrightarrow> (\<And>x. steady (f x)) \<Longrightarrow> steady (case v of None \<Rightarrow> c | Some x \<Rightarrow> f x)"
  by (cases v) auto

lemma steady_sum: "(\<And>x. steady (f x)) \<Longrightarrow> (\<And>x. steady (g x)) \<Longrightarrow> steady (case v of Inl x \<Rightarrow> f x | Inr x \<Rightarrow> g x)"
  by (cases v) auto

lemma steady_prod: "(\<And>x y. steady (f x y)) \<Longrightarrow> steady (case v of (x, y) \<Rightarrow> f x y)"
  by (cases v) auto

lemma steady_let: "(\<And>x. steady (f x)) \<Longrightarrow> steady (let x = v in f x)"
  by (simp add: Let_def)

lemma steady_for: "(\<And>x. steady (f x)) \<Longrightarrow> steady (mfor f xs)"
  by (induction xs) (auto intro!: steady_bind steady_ret)

lemmas steady_core = steady_bind steady_ret steady_throw steady_stuck steady_get steady_call steady_result steady_if steady_option
  steady_sum steady_prod steady_let steady_for

lemma steady_record_raw: "A (AtRecord ev) \<Longrightarrow> steady (sink_record env ev)"
  unfolding sink_record_def by (intro steady_core steady_note)

lemma steady_record: "A (AtRecord ev) \<Longrightarrow> steady (record_event env ev)"
  unfolding record_event_def by (intro steady_core steady_record_raw)

lemma steady_event: "\<not> starts_tool ev \<Longrightarrow> steady (record_event env ev)"
  by (rule steady_record [OF events])

lemma steady_deadline: "steady (deadline_exceeded env)"
  unfolding deadline_exceeded_def by (intro steady_core)

lemma steady_cancelled: "steady (is_cancelled env)"
  unfolding is_cancelled_def by (intro steady_core steady_deadline)

lemma steady_save: "steady (save_checkpoint env c n)"
  unfolding save_checkpoint_def by (intro steady_core steady_note saves)

lemma steady_progress: "steady (report_progress env ts p)"
proof (induction ts arbitrary: p)
  case (Cons t ts)
  then show ?case unfolding report_progress.simps by (intro steady_core steady_event) simp_all
qed (simp add: steady_ret)

lemma steady_await: "steady (await_background n env w p)"
proof (induction n arbitrary: p)
  case (Suc n)
  then show ?case unfolding await_background.simps by (intro steady_core steady_cancelled steady_progress) simp
qed (simp add: steady_stuck)

section \<open>Model requests\<close>

lemma steady_partial: "steady (set_partial f)"
  unfolding set_partial_def by (rule steady_set) (simp add: same_core_def)

lemma steady_stream_record: "\<not> starts_tool ev \<Longrightarrow> steady (stream_record env ev g)"
  unfolding stream_record_def by (intro steady_core steady_record_raw events)

lemma steady_reasoning: "steady (complete_reasoning env i g)"
  unfolding complete_reasoning_def by (intro steady_core steady_stream_record) simp

lemma steady_on_event: "steady (on_event env i b g e)"
proof (cases e)
  case (TextDelta d)
  show ?thesis unfolding TextDelta on_event.simps by (intro steady_core steady_partial steady_reasoning steady_stream_record) simp
next
  case (ReasoningPart d)
  show ?thesis unfolding ReasoningPart on_event.simps by (intro steady_core steady_partial steady_stream_record) simp
next
  case (ToolCallDelta i a b c)
  show ?thesis unfolding ToolCallDelta on_event.simps by (intro steady_core)
next
  case (Usage u)
  show ?thesis unfolding Usage on_event.simps by (intro steady_core steady_partial steady_stream_record) (simp add: usage_event_def)
qed

lemma steady_on_events: "steady (on_events env i b g es)"
  by (induction es arbitrary: g) (auto intro!: steady_core steady_on_event)

lemma steady_generate: "(\<And>rq. A (AtGenerate rq)) \<Longrightarrow> steady (generate env rq i b)"
  unfolding generate_def by (intro steady_core steady_partial steady_note steady_on_events steady_reasoning)

lemma steady_poll: "steady (poll_cancellation n env)"
  by (induction n) (auto intro!: steady_core steady_cancelled)

lemma steady_back_off: "steady (back_off env ms)"
  unfolding back_off_def by (intro steady_core steady_poll)

lemma steady_generate_loop:
  assumes g: "\<And>rq. A (AtGenerate rq)"
  shows "steady (generate_loop env i lim rv rq n c)"
proof (induction "2 * (max_network_retries lim - n) + (if c then 0 else 1)" arbitrary: rq n c rule: less_induct)
  case less
  have again: "steady (generate_loop env i lim rv rq' n True)" if "\<not> c" for rq'
    using that by (intro less) simp
  have later: "steady (generate_loop env i lim rv rq (n + 1) c)" if "n < max_network_retries lim"
    using that by (intro less) simp
  show ?case unfolding generate_loop.simps [of env i lim rv rq n c]
    by (intro steady_core steady_generate g steady_cancelled steady_back_off again later) simp_all
qed

section \<open>Tools\<close>

lemma steady_prepare: "steady (prepare_tool_calls env rs cs)"
proof (induction cs)
  case (Cons c cs)
  then show ?case unfolding prepare_tool_calls.simps by (intro steady_core)
qed (simp add: steady_ret)

lemma steady_pre_hooks: "steady (pre_hooks env rs missing cs)"
proof (induction cs)
  case (Cons c cs)
  then show ?case unfolding pre_hooks.simps by (intro steady_core)
qed (simp add: steady_ret)

lemma steady_bounded: "steady (bounded_tool_output env v)"
  unfolding bounded_tool_output_def by (intro steady_core)

lemma steady_denied: "steady (denied_observations env ds)"
  unfolding denied_observations_def denied_observation_def by (intro steady_core steady_event) simp

lemma steady_post_hook: "steady (apply_post_hook env c r)"
  unfolding apply_post_hook_def by (intro steady_core)

lemma steady_tool_result: "steady (record_tool_result env c r)"
  unfolding record_tool_result_def by (intro steady_core steady_bounded steady_event) simp_all

lemma steady_settle: "steady (settle env x)"
  unfolding settle_def by (intro steady_core steady_post_hook steady_tool_result)

lemma steady_execute_tool: "A (AtExecute (invocation_of c)) \<Longrightarrow> steady (execute_tool env rs c)"
  unfolding execute_tool_def by (intro steady_core steady_note)

lemma steady_batch:
  assumes "\<And>i. A (AtExecute i)" "\<And>i. A (AtRecord (ToolStarted i))"
  shows "steady (execute_tool_batch env rs cs)"
proof (induction cs rule: length_induct)
  case (1 cs)
  show ?case
  proof (cases cs)
    case (Cons c ds)
    have r: "steady (execute_tool_batch env rs (if parallel c then dropWhile parallel ds else ds))"
      using 1 Cons length_dropWhile_le [of parallel ds] by (auto simp: less_Suc_eq_le)
    show ?thesis unfolding Cons execute_tool_batch.simps start_tool_def Let_def
      by (intro steady_core steady_cancelled steady_settle steady_execute_tool steady_record assms r)
  qed (simp add: execute_tool_batch.simps steady_ret)
qed

lemma steady_decide:
  assumes "\<And>rq d. A (AtDecide rq d)"
  shows "steady (decide_calls env blocked cs)"
proof (induction cs)
  case (Cons c cs)
  then show ?case unfolding decide_calls.simps by (intro steady_core steady_event steady_note assms) simp_all
qed (simp add: steady_ret)

lemma steady_resume: "steady (resume_decisions env blocked xs)"
proof (induction xs)
  case (Cons x xs)
  obtain c p where x: "x = (c, p)" by fastforce
  show ?case unfolding x resume_decisions.simps by (intro steady_core steady_event Cons.IH) simp
qed (simp add: steady_ret)

end

text \<open>An assertion that does not look at the run's state machine.\<close>

locale machine_free = stable_assertion +
  assumes machine: "P s \<Longrightarrow> P (s\<lparr>ls_machine := p\<rparr>)"
    and transitions: "A (AtTransition c)" "A (AtFinish c oc)"
begin

lemma steady_machine: "steady (mset_state (\<lambda>s. s\<lparr>ls_machine := p\<rparr>))"
  unfolding steady_def by (auto intro!: triple_set machine)

lemma steady_change: "steady (change_state_with_guards env t g)"
  unfolding change_state_with_guards_def by (intro steady_core steady_machine steady_note transitions)

lemma steady_sink_finish: "steady (sink_finish env c oc i)"
  unfolding sink_finish_def by (intro steady_core steady_note transitions)

lemma steady_finish: "steady (finish env t oc i)"
  unfolding finish_def by (intro steady_core steady_machine steady_sink_finish)

lemma fail_elsewhere: "triple P (fail env p i e) (\<lambda>_ _. False) (\<lambda>_. P)"
proof -
  have "triple P (record_event env (ErrorRaised (to_agent_error e) True)) (\<lambda>_. P) (\<lambda>_. P)"
    using steady_event [of "ErrorRaised (to_agent_error e) True"] by (simp add: steady_def)
  note r = triple_bind [OF this]
  show ?thesis unfolding fail_def
    by (rule r, rule triple_bind [OF steady_result [unfolded steady_def]], rule triple_bind [OF steady_sink_finish [unfolded steady_def]],
        rule triple_throw)
qed

lemma fail_never_returns: "triple P (fail_here env i e) (\<lambda>_ _. False) (\<lambda>_. P)"
  unfolding fail_here_def by (rule triple_bind [OF steady_get [unfolded steady_def]], rule fail_elsewhere)

text \<open>A resumed run enters its loop without an early return.\<close>

lemma enter_resumed:
  assumes "rq_resume request = Some rr"
  shows "triple P (enter_loop env request ctx) (\<lambda>entered s. entered = None \<and> P s) (\<lambda>_. P)"
  unfolding enter_loop_def assms option.case change_state_def
  by (rule triple_bind [OF steady_machine [unfolded steady_def]], rule triple_if, rule triple_bind [OF steady_change [unfolded steady_def]])
    (auto intro: triple_ret)

end

end
