(* ===== verification/Loop_Contract.thy ===== *)
theory Loop_Contract
  imports Loop_Steady
begin

text \<open>
  What holds throughout a run.  The locale \<open>loop_contract\<close> states, for an assertion about the loop's state, what each
  kind of call must keep of it; inside the locale the assertion is shown to hold along the whole loop, once for every
  instance.  The assertion has a mode, for the stretches of an iteration in which a call is announced but not yet made:
  a model call (\<open>Calling\<close>), a batch of tool calls that is counted (\<open>Reserved\<close>), and a batch whose permissions are settled
  (\<open>Cleared\<close>).
\<close>

datatype mode = Idle | Calling | Reserved nat | Cleared "PreparedToolCall list"

text \<open>Arguments that the schema of a registered tool accepts, and a prepared call that carries the identity and the risk of a
  registered tool.\<close>

definition fits :: "LoopToolRegistration list \<Rightarrow> rstr \<Rightarrow> json \<Rightarrow> bool" where
  "fits regs tool_id arguments \<longleftrightarrow> (\<exists>g \<in> set regs. sp_id (lr_spec g) = tool_id \<and> conforms arguments (sp_input_schema (lr_spec g)))"

definition identified :: "LoopToolRegistration list \<Rightarrow> PreparedToolCall \<Rightarrow> bool" where
  "identified regs c \<longleftrightarrow> (\<exists>g \<in> set regs. sp_id (lr_spec g) = pt_tool_id c \<and> sp_name (lr_spec g) = pt_tool_name c
     \<and> sp_risk (lr_spec g) = pt_risk c)"

definition genuine :: "LoopToolRegistration list \<Rightarrow> PreparedToolCall \<Rightarrow> bool" where
  "genuine regs c \<longleftrightarrow> identified regs c \<and> fits regs (pt_tool_id c) (pt_arguments c)"

text \<open>A prepared call is paired with the persisted call it continues.\<close>

definition continues :: "ResumableToolCall list \<Rightarrow> PreparedToolCall \<times> ResumableToolCall \<Rightarrow> bool" where
  "continues pend x \<longleftrightarrow> snd x \<in> set pend \<and> pt_tool_call_id (fst x) = rm_tool_call_id (snd x)"

text \<open>\<open>fail\<close> never returns, so its type does not matter.\<close>

lemma fail_any_type:
  assumes "triple P (fail_here env i e :: ('w, unit) loop_m) (\<lambda>_ _. False) X"
  shows "triple P (fail_here env i e :: ('w, 'b) loop_m) Q X"
  using assms unfolding triple_def fail_here_def fail_def mbind_def mthrow_def mget_def
  by (auto split: prod.splits exec.splits)

text \<open>The calls that reach execution carry the identity of a registered tool.\<close>

lemma repaired_registered:
  assumes "repair_tool_call parse raw (map lr_spec rs) = Inr r"
  shows "\<exists>h \<in> set rs. sp_id (lr_spec h) = rt_tool_id r \<and> sp_name (lr_spec h) = rt_tool_name r \<and> sp_risk (lr_spec h) = rt_risk r
     \<and> conforms (rt_arguments r) (sp_input_schema (lr_spec h))"
proof -
  obtain n tool where t: "choose_tool n (map lr_spec rs) = Inr tool" "rt_tool_id r = sp_id tool"
      "rt_tool_name r = sp_name tool" "rt_risk r = sp_risk tool" "validate_value (rt_arguments r) (sp_input_schema tool) (str ''$'') = Inr ()"
    using assms by (rule repair_tool_call_Inr)
  then have "tool \<in> lr_spec ` set rs" using choose_tool_member [OF t(1)] by simp
  then show ?thesis using t(2-5) by (auto simp: validate_value_iff)
qed

lemma prepared_genuine:
  "triple P (prepare_tool_calls env rs cs) (\<lambda>r _. \<forall>calls. r = Inr calls \<longrightarrow> list_all (genuine rs) calls) (\<lambda>_ _. True)"
proof (induction cs arbitrary: P)
  case (Cons c cs)
  show ?case unfolding prepare_tool_calls.simps
  proof (rule triple_case_sum, goal_cases)
    case (2 x)
    then obtain r g where x: "x = (r, g)" "\<exists>raw. repair_tool_call (le_from_str env) raw (map lr_spec rs) = Inr r"
      by (cases x) (auto simp: rbind_Inr ok_or_Inr)
    from x(2) obtain raw where raw: "repair_tool_call (le_from_str env) raw (map lr_spec rs) = Inr r" by blast
    note h = repaired_registered [OF raw]
    show ?case unfolding x(1) prod.case
      by (rule triple_bind [OF triple_true], rule triple_bind [OF triple_true], rule triple_bind [OF Cons.IH], rule triple_ret)
        (use h in \<open>auto simp: rbind_Inr genuine_def identified_def fits_def\<close>)
  qed (auto intro: triple_ret)
qed (auto intro: triple_ret)

text \<open>The hooks change arguments only, and only to others that the schema accepts.\<close>

definition bare :: "PreparedToolCall \<Rightarrow> PreparedToolCall" where
  "bare c = c\<lparr>pt_arguments := JNull\<rparr>"

lemma bare_fields:
  "bare c = bare d \<Longrightarrow> pt_tool_call_id c = pt_tool_call_id d \<and> pt_tool_id c = pt_tool_id d \<and> pt_tool_name c = pt_tool_name d
     \<and> pt_risk c = pt_risk d \<and> pt_model_call_id c = pt_model_call_id d \<and> pt_concurrency c = pt_concurrency d"
  by (cases c; cases d) (simp add: bare_def)

lemma bare_set [simp]: "bare (c\<lparr>pt_arguments := a\<rparr>) = bare c"
  by (simp add: bare_def)

lemma pre_hooks_bare:
  "triple P (pre_hooks env rs missing cs) (\<lambda>r _. map bare (fst r) = map bare cs) (\<lambda>_ _. True)"
proof (induction cs arbitrary: P)
  case (Cons c cs)
  show ?case unfolding pre_hooks.simps Let_def
    by (rule triple_bind [OF triple_true], rule triple_case_prod, rule triple_bind [OF Cons.IH], rule triple_case_prod, rule triple_ret)
      (auto split: sum.splits HookDecision.splits)
qed (auto intro: triple_ret)

lemma replacement_fits: "check_replacement rs missing c arguments = Inr () \<Longrightarrow> fits rs (pt_tool_id c) arguments"
  by (auto simp: check_replacement_def rbind_Inr ok_or_Inr validate_arguments_def validate_value_iff fits_def find_Some_iff)

lemma pre_hooks_fit:
  "list_all (\<lambda>c. fits rs (pt_tool_id c) (pt_arguments c)) cs \<Longrightarrow>
   triple P (pre_hooks env rs missing cs) (\<lambda>r _. list_all (\<lambda>c. fits rs (pt_tool_id c) (pt_arguments c)) (fst r)) (\<lambda>_ _. True)"
proof (induction cs arbitrary: P)
  case (Cons c cs)
  then have IH: "triple P (pre_hooks env rs missing cs) (\<lambda>r _. list_all (\<lambda>c. fits rs (pt_tool_id c) (pt_arguments c)) (fst r)) (\<lambda>_ _. True)" for P
    by simp
  show ?case unfolding pre_hooks.simps Let_def
    by (rule triple_bind [OF triple_true], rule triple_case_prod, rule triple_bind [OF IH], rule triple_case_prod, rule triple_ret)
      (use Cons.prems in \<open>auto split: sum.splits HookDecision.splits dest!: replacement_fits\<close>)
qed (auto intro: triple_ret)

lemma identified_bare: "map bare cs = map bare ds \<Longrightarrow> list_all (identified rs) cs = list_all (identified rs) ds"
proof (induction cs arbitrary: ds)
  case (Cons c cs)
  then obtain d ds' where d: "ds = d # ds'" "bare c = bare d" "map bare cs = map bare ds'" by (cases ds) auto
  then show ?case using Cons.IH bare_fields [OF d(2)] by (simp add: identified_def)
qed simp

lemma pre_hooks_genuine:
  assumes "list_all (genuine rs) cs"
  shows "triple P (pre_hooks env rs missing cs) (\<lambda>r _. map bare (fst r) = map bare cs \<and> list_all (genuine rs) (fst r)) (\<lambda>_ _. True)"
proof -
  have i: "list_all (identified rs) cs" and f: "list_all (\<lambda>c. fits rs (pt_tool_id c) (pt_arguments c)) cs" using assms by (auto simp: genuine_def list_all_iff)
  from i have "map bare (fst r) = map bare cs \<and> list_all (\<lambda>c. fits rs (pt_tool_id c) (pt_arguments c)) (fst r) \<Longrightarrow> list_all (genuine rs) (fst r)" for r :: "_ \<times> (uuid \<times> rstr) list"
    using identified_bare [of "fst r" cs rs] by (auto simp: genuine_def list_all_iff)
  then show ?thesis
    by (rule_tac triple_weaken [OF triple_conj [OF pre_hooks_bare pre_hooks_fit [OF f]]]) auto
qed

text \<open>The prepared calls of a resumed batch, under the identifiers of the persisted ones.\<close>

abbreviation resumed_calls :: "PreparedToolCall list \<Rightarrow> ResumableToolCall list \<Rightarrow> PreparedToolCall list" where
  "resumed_calls prepared persisted \<equiv> map (\<lambda>(call, p). call\<lparr>pt_tool_call_id := rm_tool_call_id p\<rparr>) (zip prepared persisted)"

lemma resumed_genuine:
  assumes "list_all (genuine rs) prepared"
  shows "list_all (genuine rs) (resumed_calls prepared persisted)"
  unfolding list_all_iff
proof
  fix c assume "c \<in> set (resumed_calls prepared persisted)"
  then obtain d p where "(d, p) \<in> set (zip prepared persisted)" "c = d\<lparr>pt_tool_call_id := rm_tool_call_id p\<rparr>" by auto
  then show "genuine rs c" using assms set_zip_leftD [of d p] by (auto simp: list_all_iff genuine_def identified_def)
qed

lemma resumed_continue:
  assumes b: "map bare cs = map bare (resumed_calls prepared persisted)" and n: "length prepared = length persisted"
    and p: "set persisted \<subseteq> set pend"
  shows "list_all (continues pend) (zip cs persisted)"
  unfolding list_all_iff
proof
  fix x assume "x \<in> set (zip cs persisted)"
  then obtain i where i: "i < length cs" "i < length persisted" "x = (cs ! i, persisted ! i)" by (auto simp: set_zip)
  have "map bare cs ! i = map bare (resumed_calls prepared persisted) ! i" using b by simp
  then have "bare (cs ! i) = bare ((prepared ! i)\<lparr>pt_tool_call_id := rm_tool_call_id (persisted ! i)\<rparr>)" using i n by simp
  then have "pt_tool_call_id (cs ! i) = pt_tool_call_id ((prepared ! i)\<lparr>pt_tool_call_id := rm_tool_call_id (persisted ! i)\<rparr>)"
    by (rule bare_fields [THEN conjunct1])
  then have "pt_tool_call_id (cs ! i) = rm_tool_call_id (persisted ! i)" by simp
  moreover have "persisted ! i \<in> set pend" using i p nth_mem by blast
  ultimately show "continues pend x" using i(3) by (simp add: continues_def)
qed

text \<open>The context of a request within its budget, the first thing a run computes.\<close>

definition budgeted_context :: "'w loop_env \<Rightarrow> AgentLoopRequest \<Rightarrow> (ContextBudgetError, ContextReport) result" where
  "budgeted_context env request = budget_context (map ce_item (rq_context request))
     (effective_context_window (context_budget (rq_limits request)) (pc_context_window (le_capabilities env)))
     (rq_output_reservation request) (rq_reasoning_reservation request)"

locale loop_contract =
  fixes env :: "'w loop_env" and limits :: AgentLoopLimits and regs :: "LoopToolRegistration list"
    and pend :: "ResumableToolCall list"
    and I :: "mode \<Rightarrow> 'w loop_state \<Rightarrow> bool" and E :: "'w loop_state \<Rightarrow> bool"
  assumes frame: "same_core s s' \<Longrightarrow> I m s \<Longrightarrow> I m s'"
    and idle: "I m s \<Longrightarrow> I Idle s"
    and ended: "I Idle s \<Longrightarrow> E s"
    and recorded: "\<not> starts_tool ev \<Longrightarrow> I m s \<Longrightarrow> I m (noted (AtRecord ev) s)"
    and saved: "I m s \<Longrightarrow> I m (noted (AtCheckpoint c) s)"
    and changes: "triple (I m) (change_state_with_guards env t g) (\<lambda>_. I m) (\<lambda>_. I Idle)"
    and finishes: "triple (I m) (finish env t oc i) (\<lambda>_. I m) (\<lambda>_. I Idle)"
    and fails: "triple (I Idle) (fail_here env i err) (\<lambda>(_ :: unit) _. False) (\<lambda>_. E)"
    and calls_model: "I Idle s \<Longrightarrow> over_limit (max_model_calls limits) (ls_model_calls s + 1) = None
       \<Longrightarrow> I Calling (s\<lparr>ls_model_calls := ls_model_calls s + 1\<rparr>)"
    and generates: "triple (I Calling) (generate_with_recovery env rq i limits rs) (\<lambda>_. I Idle) (\<lambda>_. I Idle)"
    and counts_round: "I Idle s \<Longrightarrow> over_limit (max_tool_rounds limits) (ls_tool_round s + 1) = None
       \<Longrightarrow> I Idle (s\<lparr>ls_tool_round := ls_tool_round s + 1\<rparr>)"
    and reserves: "I Idle s \<Longrightarrow> over_limit (max_tool_calls limits) (sat_add (ls_tool_calls s) n) = None
       \<Longrightarrow> I (Reserved n) (s\<lparr>ls_tool_calls := sat_add (ls_tool_calls s) n\<rparr>)"
    and pending: "I Idle s \<Longrightarrow> set (ls_resumable s) \<subseteq> set pend"
    and takes_pending: "I m s \<Longrightarrow> I m (s\<lparr>ls_resumable := []\<rparr>)"
    and restarts: "I m s \<Longrightarrow> I m (s\<lparr>ls_natural_stop := False\<rparr>)"
    and decides: "list_all (genuine regs) cs \<Longrightarrow>
       triple (I (Reserved (length cs))) (decide_calls env blocked cs) (\<lambda>(approved, denied). I (Cleared approved)) (\<lambda>_. I Idle)"
    and resumes: "list_all (genuine regs) (map fst xs) \<Longrightarrow> list_all (continues pend) xs \<Longrightarrow>
       triple (I (Reserved (length xs))) (resume_decisions env blocked xs) (\<lambda>(approved, denied). I (Cleared approved)) (\<lambda>_. I Idle)"
    and executes: "triple (I (Cleared cs)) (execute_tool_batch env regs cs) (\<lambda>_. I Idle) (\<lambda>_. I Idle)"
begin

definition quiet :: "('w, 'a) loop_m \<Rightarrow> bool" where
  "quiet c \<longleftrightarrow> (\<forall>m. triple (I m) c (\<lambda>_. I m) (\<lambda>_. I Idle))"

lemma quietD: "quiet c \<Longrightarrow> triple (I m) c (\<lambda>_. I m) (\<lambda>_. I Idle)"
  by (simp add: quiet_def)

lemma quiet_ends: "quiet c \<Longrightarrow> triple (I m) c (\<lambda>_. I m) (\<lambda>_. E)"
  by (rule triple_weaken [OF quietD]) (auto intro: ended)

lemma quiet_idle: "quiet c \<Longrightarrow> triple (I m) c (\<lambda>_. I Idle) (\<lambda>_. I Idle)"
  by (rule triple_weaken [OF quietD]) (auto intro: idle)

lemma quiet_bind: "quiet c \<Longrightarrow> (\<And>x. quiet (f x)) \<Longrightarrow> quiet (mbind c f)"
  unfolding quiet_def by (blast intro: triple_bind)

lemma quiet_ret: "quiet (mret x)"
  unfolding quiet_def by (auto intro: triple_ret)

lemma quiet_throw: "quiet (mthrow e)"
  unfolding quiet_def by (auto intro: triple_throw idle)

lemma quiet_stuck: "quiet mstuck"
  unfolding quiet_def by (auto intro: triple_stuck idle)

lemma quiet_get: "quiet (mget f)"
  unfolding quiet_def by (auto intro: triple_get)

lemma quiet_call: "quiet (mcall op)"
  unfolding quiet_def by (auto intro!: triple_call elim: frame [rotated] simp: same_core_def)

lemma quiet_set: "(\<And>s. same_core s (f s)) \<Longrightarrow> quiet (mset_state f)"
  unfolding quiet_def by (auto intro!: triple_set elim: frame [rotated])

lemma quiet_result: "quiet (mresult r)"
  unfolding quiet_def by (auto intro!: triple_result intro: idle)

lemma quiet_if: "quiet c \<Longrightarrow> quiet d \<Longrightarrow> quiet (if b then c else d)"
  by simp

lemma quiet_option: "quiet c \<Longrightarrow> (\<And>x. quiet (f x)) \<Longrightarrow> quiet (case v of None \<Rightarrow> c | Some x \<Rightarrow> f x)"
  by (cases v) auto

lemma quiet_sum: "(\<And>x. quiet (f x)) \<Longrightarrow> (\<And>x. quiet (g x)) \<Longrightarrow> quiet (case v of Inl x \<Rightarrow> f x | Inr x \<Rightarrow> g x)"
  by (cases v) auto

lemma quiet_prod: "(\<And>x y. quiet (f x y)) \<Longrightarrow> quiet (case v of (x, y) \<Rightarrow> f x y)"
  by (cases v) auto

lemma quiet_let: "(\<And>x. quiet (f x)) \<Longrightarrow> quiet (let x = v in f x)"
  by (simp add: Let_def)

lemma quiet_for: "(\<And>x. quiet (f x)) \<Longrightarrow> quiet (mfor f xs)"
  by (induction xs) (auto intro!: quiet_bind quiet_ret)

lemmas quiet_core = quiet_bind quiet_ret quiet_throw quiet_stuck quiet_get quiet_call quiet_result quiet_if quiet_option
  quiet_sum quiet_prod quiet_let quiet_for

text \<open>The assertion is stable in every mode.\<close>

fun quiet_action :: "action \<Rightarrow> bool" where
  "quiet_action (AtRecord ev) = (\<not> starts_tool ev)"
| "quiet_action (AtCheckpoint c) = True"
| "quiet_action _ = False"

lemma stable_mode: "stable_assertion (I m) quiet_action"
proof
  fix a s assume "quiet_action a" "I m s"
  then show "I m (noted a s)" by (cases a) (auto intro: recorded saved)
qed (auto intro: frame)

lemma quiet_steady: "(\<And>m. stable_assertion.steady (I m) c) \<Longrightarrow> quiet c"
  unfolding quiet_def stable_assertion.steady_def [OF stable_mode] by (blast intro: triple_weaken idle)

lemmas quiet_record = quiet_steady [OF stable_assertion.steady_event [OF stable_mode]]
lemmas quiet_deadline = quiet_steady [OF stable_assertion.steady_deadline [OF stable_mode]]
lemmas quiet_cancelled = quiet_steady [OF stable_assertion.steady_cancelled [OF stable_mode]]
lemmas quiet_save = quiet_steady [OF stable_assertion.steady_save [OF stable_mode]]
lemmas quiet_await = quiet_steady [OF stable_assertion.steady_await [OF stable_mode]]
lemmas quiet_prepare = quiet_steady [OF stable_assertion.steady_prepare [OF stable_mode]]
lemmas quiet_pre_hooks = quiet_steady [OF stable_assertion.steady_pre_hooks [OF stable_mode]]
lemmas quiet_denied = quiet_steady [OF stable_assertion.steady_denied [OF stable_mode]]
lemmas quiet_partial = quiet_steady [OF stable_assertion.steady_partial [OF stable_mode]]

lemma quiet_change_guards: "quiet (change_state_with_guards env t g)"
  unfolding quiet_def using changes by blast

lemma quiet_change: "quiet (change_state env t)"
  unfolding change_state_def by (rule quiet_change_guards)

lemma quiet_finish: "quiet (finish env t oc i)"
  unfolding quiet_def using finishes by blast

lemma quiet_await_results: "quiet (await_background_results n env w)"
  unfolding await_background_results_def by (rule quiet_await)

lemma quiet_cancel: "quiet (cancel env i c)"
  unfolding cancel_def by (intro quiet_core quiet_record quiet_finish) simp

lemma quiet_checkpoint_now: "quiet (checkpoint_now env cfg why ms)"
  unfolding checkpoint_now_def by (intro quiet_core quiet_save)

lemma quiet_push: "quiet (push_messages ms)"
  unfolding push_messages_def by (rule quiet_set) (simp add: same_core_def)

lemma quiet_push_input: "quiet (push_input es)"
  unfolding push_input_def by (rule quiet_set) (simp add: same_core_def)

lemma quiet_take_queued: "quiet (take_queued env k)"
  unfolding take_queued_def by (intro quiet_core)

lemma quiet_clear_stop: "quiet (mset_state (\<lambda>s. s\<lparr>ls_natural_stop := False\<rparr>))"
  unfolding quiet_def by (auto intro!: triple_set restarts)

lemma quiet_absorb_partial: "quiet absorb_partial"
  unfolding absorb_partial_def by (intro quiet_core quiet_set) (simp add: same_core_def)

lemma quiet_receive: "quiet (receive_background env cfg bs)"
  unfolding receive_background_def by (intro quiet_core quiet_push quiet_checkpoint_now quiet_clear_stop quiet_change)

lemma quiet_usage: "quiet (record_usage env u)"
  unfolding record_usage_def usage_event_def by (rule quiet_record) simp

lemma quiet_append_text: "quiet (append_response_text env a r t i)"
  unfolding append_response_text_def by (intro quiet_core quiet_record) simp

lemma quiet_absorb_response: "quiet (absorb_response env cfg r t n)"
  unfolding absorb_response_def
  by (intro quiet_core quiet_append_text quiet_usage quiet_set) (simp_all add: same_core_def)

lemma quiet_complete: "quiet (complete_run env cfg)"
  unfolding complete_run_def by (intro quiet_core quiet_finish)

lemmas quiet_ops = quiet_core quiet_cancelled quiet_await_results quiet_denied quiet_prepare quiet_pre_hooks quiet_checkpoint_now
  quiet_push quiet_push_input quiet_take_queued quiet_clear_stop quiet_partial quiet_absorb_partial quiet_receive
  quiet_absorb_response quiet_complete quiet_change quiet_change_guards

lemma fails_any: "triple (I Idle) (fail_here env i err) Q (\<lambda>_. E)"
  by (rule fail_any_type [OF fails])

lemma ends_bind: "quiet c \<Longrightarrow> (\<And>x. triple (I m) (f x) Q (\<lambda>_. E)) \<Longrightarrow> triple (I m) (mbind c f) Q (\<lambda>_. E)"
  by (rule triple_bind) (auto intro: quiet_ends)

text \<open>\<open>mtry\<close> of a quiet computation.\<close>

lemma try_ends:
  "triple P c (\<lambda>_. I Idle) (\<lambda>_. I Idle) \<Longrightarrow> (\<And>s. P s \<Longrightarrow> P s) \<Longrightarrow> triple P (mtry c) (\<lambda>_. I Idle) (\<lambda>_. E)"
  by (rule triple_try) (auto elim!: triple_weaken intro: ended split: option.splits)

lemma quiet_stop: "triple (I Idle) (cancel_or_timeout env i c) (\<lambda>_. I Idle) (\<lambda>_. E)"
  unfolding cancel_or_timeout_def
proof (rule ends_bind [OF quiet_deadline], rule triple_if)
  show "triple (I Idle) (mbind (mget ls_answer) (\<lambda>answer. mbind (if answer \<noteq> [] then record_event env
      (MessageCompleted i Assistant answer True) else mret ()) (\<lambda>_. fail_here env i err))) (\<lambda>_. I Idle) (\<lambda>_. E)" for err
    by (intro ends_bind quiet_core quiet_record fails_any) simp
  show "triple (I Idle) (cancel env i c) (\<lambda>_. I Idle) (\<lambda>_. E)"
    by (rule quiet_ends [OF quiet_cancel])
qed

lemma stop_ends: "triple (I Idle) (stop_cancelled env cfg) (\<lambda>_. I Idle) (\<lambda>_. E)"
  unfolding stop_cancelled_def by (rule triple_bind [OF quiet_stop]) (rule quiet_ends [OF quiet_ret])

lemma limit_ends:
  assumes "\<And>s. P s \<Longrightarrow> I Idle s"
  shows "triple P (check_limit env cfg k lim n) (\<lambda>_ s. P s \<and> over_limit lim n = None) (\<lambda>_. E)"
  unfolding check_limit_def
  by (rule triple_case_option) (auto intro: triple_ret triple_conseq [OF fails_any] assms)

lemma abandon_ends: "triple (I Idle) (abandon env cfg e) (\<lambda>_. I Idle) (\<lambda>_. E)"
  unfolding abandon_def
  by (rule ends_bind [OF quiet_cancelled], rule triple_if)
    (auto intro!: triple_bind [OF quiet_stop] ends_bind quiet_core quiet_record fails_any quiet_ends [OF quiet_get])

lemma citation_ends:
  "quiet c \<Longrightarrow> triple (I Idle) (case v of Inl (Citation m) \<Rightarrow> fail_here env i (LeCitation m) | Inr _ \<Rightarrow> c) (\<lambda>_. I Idle) (\<lambda>_. E)"
  by (cases v) (auto split: CitationError.split intro: fails_any quiet_ends)

lemma check_answer_ends: "triple (I Idle) (check_answer env cfg) (\<lambda>_. I Idle) (\<lambda>_. E)"
  unfolding check_answer_def by (intro ends_bind quiet_get citation_ends quiet_ops)

lemma stop_naturally_ends: "triple (I Idle) (stop_naturally env cfg) (\<lambda>_. I Idle) (\<lambda>_. E)"
proof -
  have a: "triple (I Idle) (if p then check_answer env cfg else mret False) (\<lambda>_. I Idle) (\<lambda>_. E)" for p
    by (auto intro: check_answer_ends quiet_ends quiet_ret)
  show ?thesis unfolding stop_naturally_def
    by (intro ends_bind quiet_core quiet_record quiet_change triple_bind [OF a] quiet_ends quiet_complete) simp
qed

lemma natural_stop_ends: "triple (I Idle) (natural_stop env cfg) (\<lambda>_. I Idle) (\<lambda>_. E)"
  unfolding natural_stop_def
  by (rule ends_bind [OF quiet_get], rule triple_if, rule quiet_ends [OF quiet_ret], rule ends_bind [OF quiet_clear_stop], rule stop_naturally_ends)

lemma finish_answer_ends: "triple (I Idle) (finish_answer n env cfg ms) (\<lambda>_. I Idle) (\<lambda>_. E)"
proof -
  have s: "quiet (mset_state (\<lambda>s. s\<lparr>ls_messages := ms\<rparr>))" by (rule quiet_set) (simp add: same_core_def)
  have t: "triple (I Idle) (mtry (await_background_results n env True)) (\<lambda>_. I Idle) (\<lambda>_. E)"
    by (rule try_ends [OF quietD [OF quiet_await_results]])
  show ?thesis unfolding finish_answer_def
    by (rule ends_bind [OF s], rule triple_bind [OF t], rule triple_case_sum)
      (intro triple_if ends_bind quiet_ops quiet_record stop_ends fails_any triple_bind [OF check_answer_ends] quiet_ends; simp)+
qed

lemma prepare_idle:
  "triple (I m) (prepare_tool_calls env rs cs) (\<lambda>r s. I m s \<and> (\<forall>calls. r = Inr calls \<longrightarrow> list_all (genuine rs) calls)) (\<lambda>_. I Idle)"
  using triple_conj [OF quietD [OF quiet_prepare] prepared_genuine] by (rule triple_weaken) auto

text \<open>Announcing a model call.\<close>

lemma announce: "over_limit (max_model_calls limits) (n + 1) = None \<Longrightarrow>
   triple (\<lambda>s. I Idle s \<and> ls_model_calls s = n) (mset_state (\<lambda>s. s\<lparr>ls_model_calls := n + 1\<rparr>)) (\<lambda>_. I Calling) X"
  by (rule triple_set) (auto dest: calls_model)

lemma repair_rounds_idle:
  "triple (I Idle) (repair_rounds k env rs payload i limits mt cs) (\<lambda>r s. I Idle s \<and> list_all (genuine rs) (snd r)) (\<lambda>_. I Idle)"
proof (induction k arbitrary: cs)
  case (0 cs)
  show ?case unfolding repair_rounds.simps [of 0]
    by (rule triple_bind [OF prepare_idle], rule triple_case_sum) (auto intro: triple_ret triple_throw)
next
  case (Suc k cs)
  have g: "triple (\<lambda>s. I Idle s \<and> ls_model_calls s = n) (case over_limit (max_model_calls limits) (n + 1) of
      Some limit \<Rightarrow> mthrow (LeLimit (str ''model_calls'') limit (n + 1))
    | None \<Rightarrow> mbind (mset_state (\<lambda>s. s\<lparr>ls_model_calls := n + 1\<rparr>)) (\<lambda>_. mbind (mget ls_messages) (\<lambda>messages.
        mbind (generate_with_recovery env (f messages) i limits rv) (\<lambda>(response, _, _).
        mbind (if rp_cancelled response then mret True else is_cancelled env) (\<lambda>cancelled.
        if cancelled then mthrow (LeProvider ProviderError_cancelled)
        else repair_rounds k env rs payload i limits mt (rp_tool_calls response))))))
    (\<lambda>r s. I Idle s \<and> list_all (genuine rs) (snd r)) (\<lambda>_. I Idle)" for n f rv
    apply (rule triple_case_option)
     apply (rule triple_bind [OF announce], assumption)
     apply (rule triple_bind [OF quietD [OF quiet_get]], rule triple_bind [OF generates])
     apply (rule triple_case_prod, rule triple_case_prod, rule triple_bind [OF quietD])
      apply (intro quiet_ops)
     apply (auto intro!: triple_throw Suc.IH)
    done
  have n: "triple (I Idle) (mget ls_model_calls) (\<lambda>n s. I Idle s \<and> ls_model_calls s = n) (\<lambda>_. I Idle)"
    by (rule triple_get) simp
  show ?case unfolding repair_rounds.simps [of "Suc k"]
    apply (rule triple_bind [OF prepare_idle], rule triple_case_sum)
     apply (simp only: nat.case)
     apply (rule triple_conseq)
      apply (rule triple_bind [OF n], rule g)
     apply (auto intro: triple_ret)
    done
qed

lemma repair_idle:
  "triple (I Idle) (repair_tool_calls env rs payload i limits mt cs) (\<lambda>r s. I Idle s \<and> list_all (genuine rs) (snd r)) (\<lambda>_. I Idle)"
  unfolding repair_tool_calls_def by (rule repair_rounds_idle)

lemma pre_hooks_reserved:
  assumes "list_all (genuine rs) cs"
  shows "triple (I m) (pre_hooks env rs missing cs) (\<lambda>r s. I m s \<and> map bare (fst r) = map bare cs \<and> list_all (genuine rs) (fst r)) (\<lambda>_. I Idle)"
  using triple_conj [OF quietD [OF quiet_pre_hooks] pre_hooks_genuine [OF assms]] by (rule triple_weaken) auto

lemma ended_weaken: "triple P c Q (\<lambda>_. I Idle) \<Longrightarrow> triple P c Q (\<lambda>_. E)"
  by (erule triple_weaken) (auto intro: ended)

lemma run_approved_idle:
  assumes "lc_tools cfg = regs"
  shows "triple (I (Cleared approved)) (run_approved env cfg n approved) (\<lambda>_. I Idle) (\<lambda>_. I Idle)"
  unfolding run_approved_def assms
  by (rule triple_if, (intro quiet_idle quiet_ops), rule triple_bind [OF changes], rule triple_bind [OF executes], rule quietD)
    (intro quiet_ops)

lemma run_decided_ends:
  assumes c: "lc_tools cfg = regs" and g: "list_all (genuine regs) calls"
  shows "triple (I (Reserved (length calls))) (run_decided env cfg n blocked calls) (\<lambda>_. I Idle) (\<lambda>_. E)"
  unfolding run_decided_def
proof (rule triple_bind [OF ended_weaken [OF decides [OF g]]], rule triple_case_prod, simp only: prod.case, goal_cases)
  case (1 r approved denied)
  have a: "triple (I Idle) (case executed of None \<Rightarrow> stop_cancelled env cfg | Some executed \<Rightarrow>
      mbind (push_messages (obs @ executed)) (\<lambda>_. mbind (take_queued env Steering) (\<lambda>queued. mbind (push_input queued) (\<lambda>_. mret None))))
      (\<lambda>_. I Idle) (\<lambda>_. E)" for executed obs
    by (rule triple_case_option) (intro stop_ends quiet_ends quiet_ops)+
  have s: "triple (I (Cleared approved)) (stop_cancelled env cfg) (\<lambda>_. I Idle) (\<lambda>_. E)"
    by (rule triple_conseq [OF stop_ends]) (erule idle)
  show ?case
    by (rule ends_bind [OF quiet_cancelled], rule triple_if, rule s, rule ends_bind [OF quiet_denied], rule ends_bind [OF quiet_call],
        rule triple_bind [OF ended_weaken [OF run_approved_idle [OF c]]], rule a)
qed

lemma run_tools_ends:
  assumes c: "lc_tools cfg = regs" and g: "list_all (genuine regs) calls"
  shows "triple (I (Reserved (length calls))) (run_tools env cfg mcs calls rt) (\<lambda>_. I Idle) (\<lambda>_. E)"
  unfolding run_tools_def c
proof (rule triple_bind [OF ended_weaken [OF pre_hooks_reserved [OF g]]], rule triple_case_prod, simp only: fst_conv, rule triple_pure, goal_cases)
  case (1 r calls' blocked)
  have n: "length calls = length calls'" using 1(2) by (metis length_map)
  have g': "list_all (genuine regs) calls'" using 1(2) by blast
  show ?case unfolding Let_def n
    by (rule ends_bind [OF quiet_push], rule ends_bind [OF quiet_for], rule quiet_record, simp add: requested_def,
        rule ends_bind, (intro quiet_ops), rule run_decided_ends [OF c g'])
qed

lemma resume_approved_idle:
  assumes "lc_tools cfg = regs"
  shows "triple (I (Cleared approved)) (resume_approved env cfg approved) (\<lambda>_. I Idle) (\<lambda>_. I Idle)"
  unfolding resume_approved_def assms
  by (rule triple_bind [OF quietD [OF quiet_get]], rule triple_if, (intro quiet_idle quiet_ops), rule triple_bind [OF quietD],
      (intro quiet_ops), rule triple_bind [OF executes], rule quietD) (intro quiet_ops)

lemma resume_batch_idle:
  assumes c: "lc_tools cfg = regs" and p: "set persisted \<subseteq> set pend"
  shows "triple (I (Reserved (length persisted))) (resume_tool_batch env cfg persisted) (\<lambda>_. I Idle) (\<lambda>_. I Idle)"
  unfolding resume_tool_batch_def c
proof (rule triple_if, rule quiet_idle [OF quiet_ret], rule triple_bind [OF quietD [OF quiet_result]], rule triple_bind [OF prepare_idle], goal_cases)
  case (1 mcs r)
  have r: "triple (\<lambda>s. I (Reserved n) s \<and> (\<forall>calls. r = Inr calls \<longrightarrow> list_all (genuine regs) calls)) (mresult (map_err LeToolRepair r))
     (\<lambda>prepared s. I (Reserved n) s \<and> list_all (genuine regs) prepared) (\<lambda>_. I Idle)" for n
    by (rule triple_result) (auto intro: idle)
  show ?case
  proof (rule triple_bind [OF r], rule triple_pure, rule triple_if, (intro quiet_idle quiet_ops),
      simp only: Let_def, rule triple_bind [OF pre_hooks_reserved [OF resumed_genuine]], assumption, rule triple_case_prod, simp only: fst_conv,
      rule triple_pure, goal_cases)
    case (1 prepared x calls blocked)
    let ?xs = "zip calls persisted"
    have b: "map bare calls = map bare (resumed_calls prepared persisted)" using 1(4) by blast
    then have n: "length calls = length persisted" using 1(2) by (metis length_map length_zip min.idem)
    have f: "map fst ?xs = calls" "length persisted = length ?xs" using n by simp_all
    have g: "list_all (genuine regs) (map fst ?xs)" unfolding f(1) using 1(4) by blast
    have k: "list_all (continues pend) ?xs" by (rule resumed_continue [OF b _ p]) (use 1(2) in simp)
    show ?case unfolding f(2)
    proof (rule triple_bind [OF resumes [OF g k]], rule triple_case_prod, simp only: prod.case, rule triple_bind [OF quietD [OF quiet_cancelled]], goal_cases)
      case (1 d approved denied cancelled)
      show ?case
        by (rule triple_if, (intro quiet_idle quiet_ops), rule triple_bind [OF quietD [OF quiet_denied]], rule triple_bind [OF quietD [OF quiet_call]],
            rule triple_bind [OF resume_approved_idle [OF c]], rule quietD [OF quiet_ret])
    qed
  qed
qed

lemma get_value: "triple P (mget f) (\<lambda>x s. P s \<and> f s = x) X"
  by (rule triple_get) simp

text \<open>What follows a failed call: cancellation, or failure.\<close>

lemma broken_ends:
  "triple (I Idle) (mbind (is_cancelled env) (\<lambda>b. if b then stop_cancelled env cfg else fail_here env i e)) (\<lambda>_. I Idle) (\<lambda>_. E)"
  by (intro ends_bind quiet_cancelled triple_if stop_ends fails_any)

lemma limit_value: "triple (\<lambda>s. I Idle s \<and> F s) (check_limit env cfg k lim n) (\<lambda>_ s. (I Idle s \<and> F s) \<and> over_limit lim n = None) (\<lambda>_. E)"
  by (rule limit_ends) simp

lemma take_round:
  assumes "over_limit (max_tool_rounds limits) (n + 1) = None" "over_limit (max_tool_calls limits) k = None"
  shows "triple (\<lambda>s. I Idle s \<and> ls_tool_round s = n \<and> sat_add (ls_tool_calls s) j = k)
    (mset_state (\<lambda>s. s\<lparr>ls_tool_round := n + 1, ls_tool_calls := k, ls_resumable := []\<rparr>)) (\<lambda>_. I (Reserved j)) X"
proof (rule triple_set)
  fix s assume s: "I Idle s \<and> ls_tool_round s = n \<and> sat_add (ls_tool_calls s) j = k"
  then have "I Idle (s\<lparr>ls_tool_round := n + 1\<rparr>)" using counts_round [of s] assms(1) by auto
  then have "I (Reserved j) (s\<lparr>ls_tool_round := n + 1, ls_tool_calls := k\<rparr>)"
    using reserves [of "s\<lparr>ls_tool_round := n + 1\<rparr>" j] assms(2) s by auto
  then show "I (Reserved j) (s\<lparr>ls_tool_round := n + 1, ls_tool_calls := k, ls_resumable := []\<rparr>)"
    using takes_pending by blast
qed

lemma resume_pending_ends:
  assumes c: "lc_tools cfg = regs" and p: "set persisted \<subseteq> set pend"
  shows "triple (I (Reserved (length persisted))) (resume_pending env cfg persisted) (\<lambda>_. I Idle) (\<lambda>_. E)"
proof -
  have t: "triple (I (Reserved (length persisted))) (mtry (resume_tool_batch env cfg persisted)) (\<lambda>_. I Idle) (\<lambda>_. E)"
    by (rule try_ends [OF resume_batch_idle [OF c p]])
  show ?thesis unfolding resume_pending_def
    by (rule ends_bind [OF quiet_push], rule triple_bind [OF t], rule triple_case_sum, rule broken_ends, rule quiet_ends) (intro quiet_ops)
qed

lemma resume_round_ends:
  assumes c: "lc_tools cfg = regs" "rq_limits (lc_request cfg) = limits" and p: "set persisted \<subseteq> set pend"
  shows "triple (I Idle) (resume_round env cfg persisted) (\<lambda>_. I Idle) (\<lambda>_. E)"
  unfolding resume_round_def c
proof (rule triple_bind [OF get_value], rule triple_bind [OF limit_value], rule triple_pure, rule triple_bind [OF get_value], goal_cases)
  case (1 n u k)
  show ?case
    by (rule triple_conseq [where P = "\<lambda>s. I Idle s \<and> ls_tool_round s = n \<and> sat_add (ls_tool_calls s) (length persisted) = k"],
      rule triple_bind [OF limit_value], rule triple_pure, rule triple_bind [OF take_round [OF 1]], assumption,
      rule resume_pending_ends [OF c(1) p]) simp
qed

lemma tool_turn_ends:
  assumes c: "lc_tools cfg = regs" "rq_limits (lc_request cfg) = limits"
  shows "triple (I Idle) (tool_turn env cfg response ms) (\<lambda>_. I Idle) (\<lambda>_. E)"
  unfolding tool_turn_def c
proof (rule triple_bind [OF get_value], rule triple_bind [OF limit_value], rule triple_pure, goal_cases)
  case (1 n u)
  have s: "triple (\<lambda>s. I Idle s \<and> ls_tool_round s = n) (mset_state (\<lambda>s. s\<lparr>ls_tool_round := n + 1, ls_partial := r\<rparr>)) (\<lambda>_. I Idle) (\<lambda>_. E)" for r
  proof (rule triple_set)
    fix s assume "I Idle s \<and> ls_tool_round s = n"
    then have "I Idle (s\<lparr>ls_tool_round := n + 1\<rparr>)" using counts_round [of s] 1 by simp
    then show "I Idle (s\<lparr>ls_tool_round := n + 1, ls_partial := r\<rparr>)" by (rule frame [rotated]) (simp add: same_core_def)
  qed
  have t: "triple (I Idle) (mtry (repair_tool_calls env regs payload i limits mt cs))
     (\<lambda>r s. I Idle s \<and> (\<forall>x. r = Inr x \<longrightarrow> list_all (genuine regs) (snd x))) (\<lambda>_. E)" for payload i mt cs
    by (rule triple_try, rule triple_weaken [OF repair_idle]) (auto intro: ended split: option.splits)
  have e: "triple (I Idle) (mbind absorb_partial (\<lambda>partial. mbind (f partial) (\<lambda>_. abandon env cfg error))) (\<lambda>_. I Idle) (\<lambda>_. E)"
    if "\<And>x. quiet (f x)" for f and error
    by (rule ends_bind [OF quiet_absorb_partial], rule ends_bind [OF that], rule abandon_ends)
  have k: "triple (\<lambda>s. I Idle s \<and> sat_add (ls_tool_calls s) j = k) (mset_state (\<lambda>s. s\<lparr>ls_tool_calls := k\<rparr>)) (\<lambda>_. I (Reserved j)) (\<lambda>_. E)"
    if "over_limit (max_tool_calls limits) k = None" for j k
    by (rule triple_set) (use reserves that in auto)
  show ?case
  proof (rule triple_bind [OF s], rule triple_bind [OF t], rule triple_case_sum, goal_cases)
    case (1 u r error)
    show ?case by (rule triple_conseq [OF e]) (auto intro!: quiet_ops)
  next
    case (2 u r x)
    show ?case unfolding 2
      apply (rule triple_case_prod)
      apply (rule triple_conseq, rule_tac b = "list_all (genuine regs) (snd x)" in triple_pure)
       apply (rule triple_bind [OF get_value], rule triple_bind [OF limit_value], rule triple_pure, rule triple_bind [OF k], assumption)
       apply (rule run_tools_ends [OF c(1)])
       apply auto
      done
  qed
qed

lemma model_call_ends:
  assumes c: "lc_tools cfg = regs" "rq_limits (lc_request cfg) = limits"
  shows "triple (I Calling) (model_call fuel env cfg) (\<lambda>_. I Idle) (\<lambda>_. E)"
  unfolding model_call_def c
proof (rule ends_bind [OF quiet_get], rule ends_bind [OF quiet_call], rule triple_case_sum, goal_cases)
  case (1 ms hook e)
  show ?case by (rule triple_conseq [OF fails_any]) (erule idle)
next
  case (2 ms hook request_messages)
  have t: "triple (I Calling) (mtry (generate_with_recovery env rq i limits rv)) (\<lambda>_. I Idle) (\<lambda>_. E)" for rq i rv
    by (rule try_ends [OF generates])
  show ?case
  proof (rule ends_bind, (intro quiet_ops), rule ends_bind [OF quiet_partial], rule triple_bind [OF t], rule triple_case_sum, goal_cases)
    case (1 u u' r e)
    show ?case by (rule ends_bind [OF quiet_absorb_partial], rule ends_bind, (intro quiet_ops), rule abandon_ends)
  next
    case (2 u u' r x)
    show ?case
      by (rule triple_case_prod, rule triple_case_prod, rule ends_bind [OF quiet_absorb_response], rule ends_bind, (intro quiet_ops))
        (intro triple_if stop_ends finish_answer_ends tool_turn_ends [OF c])
  qed
qed

lemma model_round_ends:
  assumes c: "lc_tools cfg = regs" "rq_limits (lc_request cfg) = limits"
  shows "triple (I Idle) (model_round fuel env cfg) (\<lambda>_. I Idle) (\<lambda>_. E)"
  unfolding model_round_def c
  by (rule ends_bind [OF quiet_cancelled], rule triple_if, rule stop_ends, rule triple_bind [OF get_value], rule triple_bind [OF limit_value],
    rule triple_pure, rule triple_bind [OF announce], assumption, rule model_call_ends [OF c])

lemma iteration_ends:
  assumes c: "lc_tools cfg = regs" "rq_limits (lc_request cfg) = limits"
  shows "triple (I Idle) (loop_iteration fuel env cfg) (\<lambda>_. I Idle) (\<lambda>_. E)"
  unfolding loop_iteration_def
proof (rule ends_bind [OF quiet_get], rule triple_bind [OF try_ends [OF quietD [OF quiet_await_results]]], assumption, rule triple_case_sum,
    rule broken_ends, rule ends_bind [OF quiet_receive], rule triple_bind [OF natural_stop_ends], rule triple_case_option, goal_cases)
  case (1 w r bg u st)
  show ?case
  proof (rule triple_bind [OF get_value], rule triple_if, goal_cases)
    case (1 p)
    have "triple (\<lambda>s. I Idle s \<and> set p \<subseteq> set pend) (resume_round env cfg p) (\<lambda>_. I Idle) (\<lambda>_. E)"
      by (rule triple_pure) (rule resume_round_ends [OF c])
    then show ?case by (rule triple_conseq) (use pending in auto)
  next
    case (2 p)
    show ?case by (rule triple_conseq [OF model_round_ends [OF c]]) simp
  qed
qed (rule quiet_ends [OF quiet_ret])

lemma loop_ends:
  assumes c: "lc_tools cfg = regs" "rq_limits (lc_request cfg) = limits"
  shows "triple (I Idle) (loop_run n fuel env cfg) (\<lambda>_. I Idle) (\<lambda>_. E)"
proof (induction n)
  case 0
  show ?case by (simp add: quiet_ends [OF quiet_stuck])
next
  case (Suc n)
  then show ?case unfolding loop_run.simps
    by (intro triple_bind [OF iteration_ends [OF c]] triple_case_option quiet_ends [OF quiet_ret])
qed

lemma payload_ends: "triple (I Idle) (tool_payload env request rs) (\<lambda>_. I Idle) (\<lambda>_. E)"
  unfolding tool_payload_def by (intro triple_if quiet_ends [OF quiet_ret] fails_any)

text \<open>The loop with what precedes it once the locals are loaded.\<close>

lemma body_ends:
  assumes r: "\<And>rs. snapshot_capture (le_registrations env) = Inr rs \<Longrightarrow> rs = regs" and l: "rq_limits request = limits"
  shows "triple (I Idle) (mbind (mresult (map_err LeInternal (snapshot_capture (le_registrations env)))) (\<lambda>rs.
     mbind (tool_payload env request rs) (\<lambda>payload.
     loop_run n fuel env \<lparr>lc_request = request, lc_context = ctx, lc_window = window, lc_tools = rs, lc_payload = payload,
       lc_recovery_attempt = attempt\<rparr>))) (\<lambda>_. I Idle) (\<lambda>_. E)"
proof (rule triple_bind [where R = "\<lambda>rs s. I Idle s \<and> rs = regs"])
  show "triple (I Idle) (mresult (map_err LeInternal (snapshot_capture (le_registrations env)))) (\<lambda>rs s. I Idle s \<and> rs = regs) (\<lambda>_. E)"
    by (rule triple_result) (auto intro: ended dest: r)
  show "triple (\<lambda>s. I Idle s \<and> rs = regs) (mbind (tool_payload env request rs) (\<lambda>payload.
     loop_run n fuel env \<lparr>lc_request = request, lc_context = ctx, lc_window = window, lc_tools = rs, lc_payload = payload,
       lc_recovery_attempt = attempt\<rparr>)) (\<lambda>_. I Idle) (\<lambda>_. E)" for rs
    by (rule triple_pure) (auto intro!: triple_bind [OF payload_ends] loop_ends simp: l)
qed

lemma fail_created: "triple (\<lambda>s. I Idle s \<and> ls_machine s = Created) (fail env Created i e) Q (\<lambda>_. E)"
proof -
  have "triple (I Idle) (fail_here env i e) Q (\<lambda>_. E)" by (rule fails_any)
  then show ?thesis unfolding triple_def fail_here_def mbind_def mget_def by fastforce
qed

lemma created_result:
  "triple (\<lambda>s. I Idle s \<and> ls_machine s = Created) (mresult v) (\<lambda>_ s. I Idle s \<and> ls_machine s = Created) (\<lambda>_. E)"
  by (rule triple_result) (auto intro: ended)

text \<open>A fresh run.\<close>

theorem fresh_run_ends:
  assumes r: "\<And>rs. snapshot_capture (le_registrations env) = Inr rs \<Longrightarrow> rs = regs" and l: "rq_limits request = limits"
    and f: "rq_resume request = None"
  shows "triple (\<lambda>s. I Idle s \<and> ls_machine s = Created) (agent_run n fuel env request) (\<lambda>_. I Idle) (\<lambda>_. E)"
proof -
  let ?P = "\<lambda>s. I Idle s \<and> ls_machine s = Created"
  have dl: "triple ?P (set_deadline env d) (\<lambda>_. ?P) (\<lambda>_. E)" for d
    unfolding set_deadline_def
    by (rule triple_case_option, rule triple_ret, assumption, rule triple_bind [where R = "\<lambda>_. ?P"], rule triple_call)
      (auto intro!: triple_set elim: frame [rotated] simp: same_core_def)
  have en: "triple (I Idle) (enter_loop env request ctx) (\<lambda>_. I Idle) (\<lambda>_. E)" for ctx
    unfolding enter_loop_def f option.case
    by (rule ends_bind [OF quiet_change], rule ends_bind [OF quiet_cancelled], rule triple_if, rule triple_bind [OF quiet_stop],
        rule quiet_ends [OF quiet_ret], rule quiet_ends) (intro quiet_ops quiet_record; simp)
  have ld: "quiet (load_locals env request ctx)" for ctx
    unfolding load_locals_def f option.case by (rule quiet_set) (simp add: same_core_def)
  have body: "triple ?P (mbind (enter_loop env request ctx) (\<lambda>entered. case entered of Some out \<Rightarrow> mret out | None \<Rightarrow>
      mbind (load_locals env request ctx) (\<lambda>_. mbind (mresult (map_err LeInternal (snapshot_capture (le_registrations env)))) (\<lambda>rs.
      mbind (tool_payload env request rs) (\<lambda>payload. loop_run n fuel env \<lparr>lc_request = request, lc_context = ctx, lc_window = window,
        lc_tools = rs, lc_payload = payload, lc_recovery_attempt = attempt\<rparr>))))) (\<lambda>_. I Idle) (\<lambda>_. E)" for ctx window attempt
    by (rule triple_conseq [where P = "I Idle"], rule triple_bind [OF en], rule triple_case_option, rule ends_bind [OF ld],
        rule body_ends [OF r l], assumption, rule quiet_ends [OF quiet_ret]) simp
  show ?thesis unfolding agent_run_def Let_def
    by (rule triple_bind [OF created_result], rule triple_bind [OF created_result], rule triple_bind [OF dl],
        rule triple_bind [OF created_result], rule triple_case_sum, rule fail_created, rule body)
qed

text \<open>A resumed run: what holds once the machine is restored has to give the assertion for the restored counters, and \<open>F\<close> is
  what an error leaves, also one that is thrown before they are restored.\<close>

theorem resumed_run_ends:
  assumes r: "\<And>rs. snapshot_capture (le_registrations env) = Inr rs \<Longrightarrow> rs = regs" and l: "rq_limits request = limits"
    and f: "rq_resume request = Some rr"
    and refused: "\<And>e. budgeted_context env request = Inl e \<Longrightarrow>
       triple (\<lambda>s. ls_trace s = [] \<and> ls_resumable s = []) (fail env Created (rq_assistant_message_id request) (LeContext e)) (\<lambda>(_ :: AgentLoopResult) _. False) (\<lambda>_. F)"
    and enters: "\<And>ctx. triple (\<lambda>s. ls_trace s = [] \<and> ls_resumable s = []) (enter_loop env request ctx) (\<lambda>entered s. entered = None \<and> J s) (\<lambda>_. F)"
    and early: "\<And>s. ls_trace s = [] \<Longrightarrow> F s" "\<And>s. E s \<Longrightarrow> F s"
    and loads: "\<And>s. J s \<Longrightarrow> I Idle (s\<lparr>ls_natural_stop := (ck_reason (re_checkpoint rr) = AssistantResult),
       ls_tool_round := ck_tool_round (re_checkpoint rr), ls_model_calls := ck_model_calls (re_checkpoint rr),
       ls_tool_calls := ck_tool_calls (re_checkpoint rr), ls_resumable := re_pending_tools rr\<rparr>)"
  shows "triple (\<lambda>s. ls_trace s = [] \<and> ls_resumable s = []) (agent_run n fuel env request) (\<lambda>_. I Idle) (\<lambda>_. F)"
proof -
  let ?P = "\<lambda>s. ls_trace s = [] \<and> ls_resumable s = []"
  have dl: "triple ?P (set_deadline env d) (\<lambda>_. ?P) (\<lambda>_. F)" for d
    unfolding set_deadline_def
    by (rule triple_case_option, rule triple_ret, assumption, rule triple_bind [where R = "\<lambda>_. ?P"], rule triple_call)
      (auto intro!: triple_set)
  have ld: "triple J (load_locals env request ctx) (\<lambda>_. I Idle) (\<lambda>_. E)" for ctx
    unfolding load_locals_def f option.case Let_def
    by (rule triple_set, drule loads, erule frame [rotated]) (simp add: same_core_def)
  have body: "triple ?P (mbind (enter_loop env request ctx) (\<lambda>entered. case entered of Some out \<Rightarrow> mret out | None \<Rightarrow>
      mbind (load_locals env request ctx) (\<lambda>_. mbind (mresult (map_err LeInternal (snapshot_capture (le_registrations env)))) (\<lambda>rs.
      mbind (tool_payload env request rs) (\<lambda>payload. loop_run n fuel env \<lparr>lc_request = request, lc_context = ctx, lc_window = window,
        lc_tools = rs, lc_payload = payload, lc_recovery_attempt = attempt\<rparr>))))) (\<lambda>_. I Idle) (\<lambda>_. F)" for ctx window attempt
  proof (rule triple_bind [OF enters], rule triple_case_option, goal_cases)
    case (1 x)
    show ?case by (rule triple_weaken [OF triple_bind [OF ld body_ends [OF r l]]]) (simp_all add: early)
  qed (auto intro: triple_ret)
  have fl: "triple ?P (fail env Created (rq_assistant_message_id request) (LeContext e)) (\<lambda>_ :: AgentLoopResult. I Idle) (\<lambda>_. F)"
    if "budgeted_context env request = Inl e" for e
    by (rule triple_weaken [OF refused [OF that]]) auto
  show ?thesis unfolding agent_run_def Let_def budgeted_context_def [symmetric]
    by (rule triple_bind, rule triple_result [where Q = "\<lambda>_. ?P"], (simp_all add: early)[2],
        rule triple_bind, rule triple_result [where Q = "\<lambda>_. ?P"], (simp_all add: early)[2],
        rule triple_bind [OF dl], rule triple_bind, rule triple_result [where Q = "\<lambda>_. ?P"], (simp_all add: early)[2],
        rule triple_case_sum, rule fl, assumption, rule body)
qed

end

text \<open>An assertion that does not look at the run's state machine and that a failure keeps: the laws about events, checkpoints,
  transitions and failures follow.\<close>

locale loop_ledger =
  fixes env :: "'w loop_env" and limits :: AgentLoopLimits and regs :: "LoopToolRegistration list"
    and pend :: "ResumableToolCall list" and I :: "mode \<Rightarrow> 'w loop_state \<Rightarrow> bool" and A :: "action \<Rightarrow> bool"
  assumes free: "machine_free (I m) A"
    and idle: "I m s \<Longrightarrow> I Idle s"
    and calls_model: "I Idle s \<Longrightarrow> over_limit (max_model_calls limits) (ls_model_calls s + 1) = None
       \<Longrightarrow> I Calling (s\<lparr>ls_model_calls := ls_model_calls s + 1\<rparr>)"
    and generates: "triple (I Calling) (generate_with_recovery env rq i limits rs) (\<lambda>_. I Idle) (\<lambda>_. I Idle)"
    and counts_round: "I Idle s \<Longrightarrow> I Idle (s\<lparr>ls_tool_round := n\<rparr>)"
    and reserves: "I Idle s \<Longrightarrow> over_limit (max_tool_calls limits) (sat_add (ls_tool_calls s) n) = None
       \<Longrightarrow> I (Reserved n) (s\<lparr>ls_tool_calls := sat_add (ls_tool_calls s) n\<rparr>)"
    and pending: "I Idle s \<Longrightarrow> set (ls_resumable s) \<subseteq> set pend"
    and takes_pending: "I m s \<Longrightarrow> I m (s\<lparr>ls_resumable := []\<rparr>)"
    and restarts: "I m s \<Longrightarrow> I m (s\<lparr>ls_natural_stop := False\<rparr>)"
    and decides: "list_all (genuine regs) cs \<Longrightarrow>
       triple (I (Reserved (length cs))) (decide_calls env blocked cs) (\<lambda>(approved, denied). I (Cleared approved)) (\<lambda>_. I Idle)"
    and resumes: "list_all (genuine regs) (map fst xs) \<Longrightarrow> list_all (continues pend) xs \<Longrightarrow>
       triple (I (Reserved (length xs))) (resume_decisions env blocked xs) (\<lambda>(approved, denied). I (Cleared approved)) (\<lambda>_. I Idle)"
    and executes: "triple (I (Cleared cs)) (execute_tool_batch env regs cs) (\<lambda>_. I Idle) (\<lambda>_. I Idle)"
begin

lemma stable: "stable_assertion (I m) A"
  using free machine_free.axioms(1) by blast

lemma kept: "stable_assertion.steady (I m) c \<Longrightarrow> triple (I m) c (\<lambda>_. I m) (\<lambda>_. I Idle)"
  unfolding stable_assertion.steady_def [OF stable] by (erule triple_weaken) (auto intro: idle)

end

sublocale loop_ledger \<subseteq> contract: loop_contract env limits regs pend I "I Idle"
proof
  show "triple (I m) (change_state_with_guards env t g) (\<lambda>_. I m) (\<lambda>_. I Idle)" for m t g
    by (rule kept [OF machine_free.steady_change [OF free]])
  show "triple (I m) (finish env t oc i) (\<lambda>_. I m) (\<lambda>_. I Idle)" for m t oc i
    by (rule kept [OF machine_free.steady_finish [OF free]])
  show "triple (I Idle) (fail_here env i e) (\<lambda>(_ :: unit) _. False) (\<lambda>_. I Idle)" for i e
    by (rule machine_free.fail_never_returns [OF free])
  show "I m (noted (AtRecord ev) s)" if "\<not> starts_tool ev" "I m s" for m ev s
    using that stable_assertion.keeps [OF stable] stable_assertion.events [OF stable] by blast
  show "I m (noted (AtCheckpoint c) s)" if "I m s" for m c s
    using that stable_assertion.keeps [OF stable] stable_assertion.saves [OF stable] by blast
qed (fact idle calls_model generates reserves pending takes_pending restarts decides resumes executes
  | blast intro: idle counts_round stable_assertion.core [OF stable])+

context loop_ledger
begin

text \<open>Fresh and resumed runs at once: \<open>J\<close> holds until the counters of a resumed run are restored, \<open>F\<close> is what both leave.\<close>

theorem run_ends:
  assumes r: "\<And>rs. snapshot_capture (le_registrations env) = Inr rs \<Longrightarrow> rs = regs" and l: "rq_limits request = limits"
    and fresh: "rq_resume request = None \<Longrightarrow> I Idle (initial_loop_state w)"
    and J: "machine_free J B" "\<And>s. ls_trace s = [] \<Longrightarrow> J s"
    and loads: "\<And>rr s. rq_resume request = Some rr \<Longrightarrow> J s \<Longrightarrow> I Idle (s\<lparr>ls_natural_stop := (ck_reason (re_checkpoint rr) = AssistantResult),
       ls_tool_round := ck_tool_round (re_checkpoint rr), ls_model_calls := ck_model_calls (re_checkpoint rr),
       ls_tool_calls := ck_tool_calls (re_checkpoint rr), ls_resumable := re_pending_tools rr\<rparr>)"
    and final: "\<And>s. I Idle s \<Longrightarrow> F s" "\<And>s. J s \<Longrightarrow> F s"
  shows "triple (\<lambda>s. s = initial_loop_state w) (agent_run n fuel env request) (\<lambda>_. F) (\<lambda>_. F)"
proof (cases "rq_resume request")
  case None
  show ?thesis
    by (rule triple_weaken [OF contract.fresh_run_ends [OF r l None]]) (use fresh [OF None] final in \<open>auto simp: initial_loop_state_def\<close>)
next
  case (Some rr)
  have "triple (\<lambda>s. ls_trace s = [] \<and> ls_resumable s = []) (agent_run n fuel env request) (\<lambda>_. I Idle) (\<lambda>_. F)"
  proof (rule contract.resumed_run_ends [OF r l Some, where J = J])
    show "triple (\<lambda>s. ls_trace s = [] \<and> ls_resumable s = []) (fail env Created i e) (\<lambda>_ _. False) (\<lambda>_. F)" for i e
      by (rule triple_weaken [OF machine_free.fail_elsewhere [OF J(1)]]) (auto intro: J(2) final)
    show "triple (\<lambda>s. ls_trace s = [] \<and> ls_resumable s = []) (enter_loop env request ctx) (\<lambda>entered s. entered = None \<and> J s) (\<lambda>_. F)" for ctx
      by (rule triple_weaken [OF machine_free.enter_resumed [OF J(1) Some]]) (auto intro: J(2) final)
  qed (auto intro: loads [OF Some] J(2) final)
  then show ?thesis by (rule triple_weaken) (auto intro: final simp: initial_loop_state_def)
qed

end

end
