(* ===== verification/Loop_Failure.thy ===== *)
theory Loop_Failure
  imports Loop_Contract
begin

text \<open>
  How a run ends with an error.  \<open>tame W c\<close> says that whatever \<open>c\<close> throws, or running out of fuel, satisfies \<open>W\<close>.  Most
  operations throw only the errors of the event sink, of the artifact store or of the run's own consistency checks
  (\<open>silent_errors\<close>); the errors of the model, the budget, the repair of tool calls, the citations and the limits are caught
  and reported before they are thrown again (\<open>reporting\<close>).
\<close>

lemma map_err_Inl: "map_err f m = Inl e \<longleftrightarrow> (\<exists>x. m = Inl x \<and> e = f x)"
  by (cases m) auto

definition tame :: "(AgentLoopError option \<Rightarrow> 'w loop_state \<Rightarrow> bool) \<Rightarrow> ('w, 'a) loop_m \<Rightarrow> bool" where
  "tame W c \<longleftrightarrow> triple (\<lambda>_. True) c (\<lambda>_ _. True) W"

lemma tame_bind: "tame W c \<Longrightarrow> (\<And>x. tame W (f x)) \<Longrightarrow> tame W (mbind c f)"
  unfolding tame_def by (rule triple_bind)

lemma tame_ret: "tame W (mret x)"
  unfolding tame_def by (rule triple_ret) simp

lemma tame_get: "tame W (mget f)"
  unfolding tame_def by (rule triple_get) simp

lemma tame_set: "tame W (mset_state f)"
  unfolding tame_def by (rule triple_set) simp

lemma tame_call: "tame W (mcall f)"
  unfolding tame_def by (rule triple_call) simp

lemma tame_note: "tame W (mnote a)"
  unfolding tame_def by (rule triple_note) simp

lemma tame_if: "(b \<Longrightarrow> tame W c) \<Longrightarrow> (\<not> b \<Longrightarrow> tame W d) \<Longrightarrow> tame W (if b then c else d)"
  by simp

lemma tame_option: "tame W c \<Longrightarrow> (\<And>x. tame W (f x)) \<Longrightarrow> tame W (case v of None \<Rightarrow> c | Some x \<Rightarrow> f x)"
  by (cases v) auto

lemma tame_sum: "(\<And>x. tame W (f x)) \<Longrightarrow> (\<And>x. tame W (g x)) \<Longrightarrow> tame W (case v of Inl x \<Rightarrow> f x | Inr x \<Rightarrow> g x)"
  by (cases v) auto

lemma tame_prod: "(\<And>x y. tame W (f x y)) \<Longrightarrow> tame W (case v of (x, y) \<Rightarrow> f x y)"
  by (cases v) auto

lemma tame_let: "(\<And>x. tame W (f x)) \<Longrightarrow> tame W (let x = v in f x)"
  by (simp add: Let_def)

lemma tame_for: "(\<And>x. tame W (f x)) \<Longrightarrow> tame W (mfor f xs)"
  by (induction xs) (auto intro!: tame_bind tame_ret)

lemma tame_throw: "(\<And>s. W (Some e) s) \<Longrightarrow> tame W (mthrow e)"
  unfolding tame_def by (rule triple_throw) simp

lemma tame_stuck: "(\<And>s. W None s) \<Longrightarrow> tame W mstuck"
  unfolding tame_def by (rule triple_stuck) simp

lemma tame_result: "(\<And>e s. r = Inl e \<Longrightarrow> W (Some e) s) \<Longrightarrow> tame W (mresult r)"
  unfolding tame_def by (rule triple_result) auto

lemma tame_try: "tame (\<lambda>e s. e = None \<longrightarrow> W None s) c \<Longrightarrow> tame W (mtry c)"
  unfolding tame_def by (rule triple_try) (auto elim!: triple_weaken split: option.splits)

lemma tame_map_err: "(\<And>e s. W (Some (f e)) s) \<Longrightarrow> tame W (mresult (map_err f r))"
  by (rule tame_result) (cases r; auto)

lemmas tame_core = tame_bind tame_ret tame_get tame_set tame_call tame_note tame_if tame_option tame_sum tame_prod tame_let tame_for

section \<open>Errors that are thrown as they are\<close>

locale silent_errors =
  fixes env :: "'w loop_env" and W :: "AgentLoopError option \<Rightarrow> 'w loop_state \<Rightarrow> bool"
  assumes sink: "W (Some (LeEventSink m)) s" and internal: "W (Some (LeInternal m)) s" and tool: "W (Some (LeTool m)) s"
    and slow: "W (Some (LeCheckpointTimeout a b)) s" and capability: "W (Some (LeCapability m)) s"
begin

lemma tame_sink_record: "tame W (sink_record env ev)"
  unfolding sink_record_def by (intro tame_core)

lemma tame_record: "tame W (record_event env ev)"
  unfolding record_event_def by (intro tame_core tame_sink_record tame_map_err sink)

lemma tame_cancelled: "tame W (is_cancelled env)"
  unfolding is_cancelled_def deadline_exceeded_def by (intro tame_core)

lemma tame_deadline: "tame W (deadline_exceeded env)"
  unfolding deadline_exceeded_def by (intro tame_core)

lemma tame_change_guards: "tame W (change_state_with_guards env t g)"
  unfolding change_state_with_guards_def by (intro tame_core tame_map_err sink internal)

lemma tame_change: "tame W (change_state env t)"
  unfolding change_state_def by (rule tame_change_guards)

lemma tame_save: "tame W (save_checkpoint env c n)"
  unfolding save_checkpoint_def by (intro tame_core tame_map_err sink tame_throw slow)

lemma tame_checkpoint: "tame W (checkpoint_now env cfg r ms)"
  unfolding checkpoint_now_def by (intro tame_core tame_save)

lemma tame_finish: "tame W (finish env t oc i)"
  unfolding finish_def sink_finish_def by (intro tame_core tame_map_err sink internal)

lemma tame_cancel: "tame W (cancel env i c)"
  unfolding cancel_def by (intro tame_core tame_record tame_finish)

lemma tame_take: "tame W (take_queued env k)"
  unfolding take_queued_def by (intro tame_core tame_map_err internal)

lemma tame_bounded: "tame W (bounded_tool_output env v)"
  unfolding bounded_tool_output_def by (intro tame_core tame_map_err tool tame_result) (auto simp: ok_or_def tool split: option.splits)

lemma tame_tool_result: "tame W (record_tool_result env c r)"
  unfolding record_tool_result_def by (intro tame_core tame_record tame_bounded)

lemma tame_settle: "tame W (settle env x)"
  unfolding settle_def apply_post_hook_def by (intro tame_core tame_tool_result)

lemma tame_denied: "tame W (denied_observations env ds)"
  unfolding denied_observations_def denied_observation_def by (intro tame_core tame_record)

lemma tame_batch: "tame W (execute_tool_batch env rs cs)"
proof (induction cs rule: length_induct)
  case (1 cs)
  show ?case
  proof (cases cs)
    case (Cons c ds)
    have r: "tame W (execute_tool_batch env rs (if parallel c then dropWhile parallel ds else ds))"
      using 1 Cons length_dropWhile_le [of parallel ds] by (auto simp: less_Suc_eq_le)
    show ?thesis unfolding Cons execute_tool_batch.simps start_tool_def execute_tool_def Let_def
      by (intro tame_core tame_cancelled tame_settle tame_record r)
  qed (simp add: execute_tool_batch.simps tame_ret)
qed

lemma tame_decide: "tame W (decide_calls env blocked cs)"
proof (induction cs)
  case (Cons c cs)
  then show ?case unfolding decide_calls.simps by (intro tame_core tame_record)
qed (simp add: tame_ret)

lemma tame_pre_hooks: "tame W (pre_hooks env rs missing cs)"
proof (induction cs)
  case (Cons c cs)
  then show ?case unfolding pre_hooks.simps by (intro tame_core)
qed (simp add: tame_ret)

lemma tame_prepare: "tame W (prepare_tool_calls env rs cs)"
proof (induction cs)
  case (Cons c cs)
  then show ?case unfolding prepare_tool_calls.simps by (intro tame_core)
qed (simp add: tame_ret)

lemma tame_absorb_response: "tame W (absorb_response env cfg r t n)"
  unfolding absorb_response_def append_response_text_def record_usage_def by (intro tame_core tame_record)

lemma tame_receive: "tame W (receive_background env cfg bs)"
  unfolding receive_background_def push_messages_def by (intro tame_core tame_checkpoint tame_change)

lemma tame_complete: "tame W (complete_run env cfg)"
  unfolding complete_run_def by (intro tame_core tame_finish)

lemma tame_approved: "tame W (run_approved env cfg n cs)"
  unfolding run_approved_def by (intro tame_core tame_change_guards tame_change tame_batch tame_cancelled)

lemmas tame_ops = tame_core tame_record tame_cancelled tame_deadline tame_change_guards tame_change tame_checkpoint tame_cancel tame_take
  tame_denied tame_decide tame_pre_hooks tame_absorb_response tame_receive tame_complete tame_approved

end

section \<open>Computations whose errors are caught\<close>

locale any_error = silent_errors +
  assumes anyway: "W (Some e) s"
begin

lemma tame_any: "tame W (mresult r)"
  by (rule tame_result) (rule anyway)

lemma tame_progress: "tame W (report_progress env ts p)"
proof (induction ts arbitrary: p)
  case (Cons t ts)
  then show ?case unfolding report_progress.simps by (intro tame_ops)
qed (simp add: tame_ret)

lemma tame_stream_record: "tame W (stream_record env ev g)"
  unfolding stream_record_def by (intro tame_core tame_sink_record)

lemma tame_reasoning: "tame W (complete_reasoning env i g)"
  unfolding complete_reasoning_def by (intro tame_core tame_stream_record)

lemma tame_on_event: "tame W (on_event env i b g e)"
  unfolding set_partial_def [abs_def] by (cases e) (auto simp: set_partial_def intro!: tame_core tame_stream_record tame_reasoning)

lemma tame_on_events: "tame W (on_events env i b g es)"
  by (induction es arbitrary: g) (auto intro!: tame_core tame_on_event)

lemma tame_generate: "tame W (generate env rq i b)"
  unfolding generate_def set_partial_def by (intro tame_core tame_on_events tame_reasoning)

lemma tame_back_off: "tame W (back_off env ms)"
proof -
  have "tame W (poll_cancellation n env)" for n
    by (induction n) (auto intro!: tame_ops tame_throw anyway)
  then show ?thesis unfolding back_off_def by (intro tame_core)
qed

lemma tame_generate_loop: "tame W (generate_loop env i lim rv rq n c)"
proof (induction "2 * (max_network_retries lim - n) + (if c then 0 else 1)" arbitrary: rq n c rule: less_induct)
  case less
  have again: "tame W (generate_loop env i lim rv rq' n True)" if "\<not> c" for rq'
    using that by (intro less) simp
  have later: "tame W (generate_loop env i lim rv rq (n + 1) c)" if "n < max_network_retries lim"
    using that by (intro less) simp
  show ?case unfolding generate_loop.simps [of env i lim rv rq n c]
    by (intro tame_ops tame_generate tame_any tame_throw anyway tame_back_off again later) simp_all
qed

lemma tame_generation: "tame W (generate_with_recovery env rq i lim rv)"
  unfolding generate_with_recovery_def by (rule tame_generate_loop)

lemma tame_repair: "tame W (repair_tool_calls env rs payload i lim mt cs)"
proof -
  have "tame W (repair_rounds k env rs payload i lim mt cs)" for k
  proof (induction k arbitrary: cs)
    case (0 cs)
    show ?case unfolding repair_rounds.simps [of 0] by (auto intro!: tame_ops tame_prepare tame_throw anyway)
  next
    case (Suc k cs)
    show ?case unfolding repair_rounds.simps [of "Suc k"] nat.case by (intro tame_ops tame_prepare tame_throw anyway tame_generation Suc)
  qed
  then show ?thesis unfolding repair_tool_calls_def .
qed

lemma tame_resume_batch: "tame W (resume_tool_batch env cfg ps)"
proof -
  have "tame W (resume_decisions env blocked xs)" for blocked xs
  proof (induction xs)
    case (Cons x xs)
    then show ?case by (cases x) (auto intro!: tame_ops tame_any)
  qed (simp add: tame_ret)
  then show ?thesis unfolding resume_tool_batch_def resume_approved_def
    by (intro tame_ops tame_prepare tame_any tame_throw anyway tame_batch)
qed

end

section \<open>Errors that are reported\<close>

fun reported :: "AgentLoopError option \<Rightarrow> 'w loop_state \<Rightarrow> bool" where
  "reported None s = False"
| "reported (Some e) s = (\<exists>tr p. ls_trace s = tr @ [AtRecord (ErrorRaised (to_agent_error e) True),
     AtFinish \<lparr>previous = p, current = AgentRunState.Failed, reason = None\<rparr> OutcomeFailed])"

locale reporting = silent_errors +
  fixes fuel :: nat
  assumes report: "reported e s \<Longrightarrow> W e s"
    and waits: "tame (\<lambda>e s. e = None \<longrightarrow> W None s) (await_background_results fuel env b)"
begin

lemma tame_fail: "tame W (fail env p i e)"
proof -
  let ?R = "\<lambda>s. \<exists>tr. ls_trace s = tr @ [AtRecord (ErrorRaised (to_agent_error e) True)]"
  let ?F = "reported (Some e)"
  let ?C = "\<lambda>c. c = \<lparr>previous = p, current = AgentRunState.Failed, reason = None\<rparr>"
  have r: "triple (\<lambda>_. True) (record_event env (ErrorRaised (to_agent_error e) True)) (\<lambda>_. ?R) W"
    unfolding record_event_def sink_record_def
    by (rule triple_bind [OF triple_bind [OF triple_note [where Q = "\<lambda>_. ?R"]]], simp, rule triple_call [where Q = "\<lambda>_. ?R"], simp,
        rule triple_result) (auto simp: sink map_err_Inl)
  have t: "triple ?R (mresult (map_err (\<lambda>e. LeInternal (transition_error_display e)) (fst (run_transition p AgentRunState.Failed idle_guards))))
      (\<lambda>c s. ?R s \<and> ?C c) W"
    by (rule triple_result) (auto simp: internal map_err_Inl run_transition_def split: if_splits)
  have f: "triple (\<lambda>s. ?R s \<and> ?C c) (sink_finish env c OutcomeFailed i) (\<lambda>_. ?F) W" for c
    unfolding sink_finish_def
    by (rule triple_bind [OF triple_note [where Q = "\<lambda>_. ?F"]], force, rule triple_bind [OF triple_call [where Q = "\<lambda>_. ?F"]], simp,
        rule triple_result) (auto simp: sink map_err_Inl)
  show ?thesis unfolding tame_def fail_def
    by (rule triple_bind [OF r], rule triple_bind [OF t], rule triple_bind [OF f], rule triple_throw) (rule report)
qed

lemma tame_fail_here: "tame W (fail_here env i e)"
  unfolding fail_here_def by (intro tame_core tame_fail)

lemma tame_cancel_or_timeout: "tame W (cancel_or_timeout env i c)"
  unfolding cancel_or_timeout_def by (intro tame_ops tame_fail_here)

lemma tame_stop: "tame W (stop_cancelled env cfg)"
  unfolding stop_cancelled_def by (intro tame_core tame_cancel_or_timeout)

lemma tame_limit: "tame W (check_limit env cfg k lim n)"
  unfolding check_limit_def by (intro tame_core tame_fail_here)

lemma tame_abandon: "tame W (abandon env cfg e)"
  unfolding abandon_def by (intro tame_ops tame_fail_here tame_cancel_or_timeout)

lemma tame_check_answer: "tame W (check_answer env cfg)"
  unfolding check_answer_def push_input_def by (auto intro!: tame_ops tame_fail_here split: sum.splits CitationError.splits)

lemma tame_natural_stop: "tame W (natural_stop env cfg)"
  unfolding natural_stop_def stop_naturally_def by (intro tame_ops tame_check_answer)

lemma tame_broken: "tame W (mbind (is_cancelled env) (\<lambda>b. if b then stop_cancelled env cfg else fail_here env i e))"
  by (intro tame_ops tame_stop tame_fail_here)

end

sublocale reporting \<subseteq> caught: any_error env "\<lambda>e s. e = None \<longrightarrow> W None s"
  by unfold_locales simp_all

context reporting
begin

lemma tame_finish_answer: "tame W (finish_answer fuel env cfg ms)"
  unfolding finish_answer_def push_messages_def
  by (intro tame_ops tame_try waits tame_broken tame_check_answer)

lemma tame_run_decided: "tame W (run_decided env cfg n blocked cs)"
  unfolding run_decided_def push_messages_def push_input_def by (intro tame_ops tame_stop)

lemma tame_tool_turn: "tame W (tool_turn env cfg r ms)"
  unfolding tool_turn_def run_tools_def absorb_partial_def push_messages_def
  by (intro tame_ops tame_try caught.tame_repair tame_limit tame_abandon tame_run_decided)

lemma tame_resume_round: "tame W (resume_round env cfg ps)"
  unfolding resume_round_def resume_pending_def push_messages_def push_input_def
  by (intro tame_ops tame_try caught.tame_resume_batch tame_limit tame_broken)

lemma tame_model_call: "tame W (model_call fuel env cfg)"
  unfolding model_call_def absorb_partial_def set_partial_def
  by (intro tame_ops tame_try caught.tame_generation tame_fail_here tame_abandon tame_stop tame_finish_answer tame_tool_turn)

lemma tame_model_round: "tame W (model_round fuel env cfg)"
  unfolding model_round_def by (intro tame_ops tame_stop tame_limit tame_model_call)

lemma tame_iteration: "tame W (loop_iteration fuel env cfg)"
  unfolding loop_iteration_def
  by (intro tame_ops tame_try waits tame_broken tame_natural_stop tame_resume_round tame_model_round)

lemma tame_enter: "tame W (enter_loop env request ctx)"
  unfolding enter_loop_def by (intro tame_ops tame_cancel_or_timeout)

text \<open>The run, once its loop is accounted for.\<close>

lemma tame_run:
  assumes "\<And>cfg. lc_request cfg = request \<Longrightarrow> tame W (loop_run n fuel env cfg)"
  shows "tame W (agent_run n fuel env request)"
  unfolding agent_run_def set_deadline_def load_locals_def tool_payload_def resume_attempt_def
  by (intro tame_ops tame_map_err internal capability tame_fail tame_enter tame_fail_here assms tame_result)
    (auto simp: Let_def internal split: option.splits if_splits)

lemma tame_loop:
  assumes "\<And>s. W None s"
  shows "tame W (loop_run n fuel env cfg)"
  by (induction n) (auto intro!: tame_ops tame_iteration tame_stuck assms)

end

end
