(* ===== verification/Loop_Termination.thy ===== *)
theory Loop_Termination
  imports Loop_Failure
begin

text \<open>
  The loop ends: with a limit on the model calls, an iteration that goes on has used up a model call, the pending tool calls
  or the natural stop of a resumed run.
\<close>

definition remaining :: "nat \<Rightarrow> 'w loop_state \<Rightarrow> nat" where
  "remaining l s = (if ls_natural_stop s then 1 else 0) + (if ls_resumable s = [] then 0 else 1) + (l - ls_model_calls s)"

definition progress_inv :: "nat \<Rightarrow> ResumableToolCall list \<Rightarrow> nat \<Rightarrow> 'w loop_state \<Rightarrow> bool" where
  "progress_inv l pend k s \<longleftrightarrow> remaining l s \<le> k \<and> set (ls_resumable s) \<subseteq> set pend"

interpretation progress: machine_free env "progress_inv l pend k" "\<lambda>_. True" for env l pend k
  by unfold_locales (auto simp: progress_inv_def remaining_def same_core_def)

lemma kept_progress:
  "stable_assertion.steady (progress_inv l pend k) c \<Longrightarrow> triple (progress_inv l pend k) c (\<lambda>_. progress_inv l pend k) (\<lambda>_. progress_inv l pend k)"
  by (simp add: progress.steady_def)

interpretation progress_loop: loop_ledger env limits regs pend "\<lambda>_. progress_inv l pend k" "\<lambda>_. True" for env limits regs pend l k
proof (rule loop_ledger.intro)
  show "machine_free (progress_inv l pend k) (\<lambda>_. True)" by (rule progress.machine_free_axioms)
  show "triple (progress_inv l pend k) (generate_with_recovery env rq i limits rs) (\<lambda>_. progress_inv l pend k) (\<lambda>_. progress_inv l pend k)" for rq i rs
    unfolding generate_with_recovery_def by (rule kept_progress [OF progress.steady_generate_loop]) simp
  show "triple (progress_inv l pend k) (decide_calls env blocked cs) (\<lambda>(a, d). progress_inv l pend k) (\<lambda>_. progress_inv l pend k)" for cs blocked
    unfolding case_prod_unfold by (rule kept_progress [OF progress.steady_decide]) simp
  show "triple (progress_inv l pend k) (resume_decisions env blocked xs) (\<lambda>(a, d). progress_inv l pend k) (\<lambda>_. progress_inv l pend k)" for xs blocked
    unfolding case_prod_unfold by (rule kept_progress [OF progress.steady_resume])
  show "triple (progress_inv l pend k) (execute_tool_batch env regs cs) (\<lambda>_. progress_inv l pend k) (\<lambda>_. progress_inv l pend k)" for cs
    by (rule kept_progress [OF progress.steady_batch]) simp_all
qed (auto simp: progress_inv_def remaining_def split: if_splits)

text \<open>What a computation leaves when its errors do not matter.\<close>

lemma error_free: "triple P c Q E \<Longrightarrow> triple P c Q (\<lambda>_ _. True)"
  by (erule triple_weaken) simp_all

lemma fail_never: "triple P (fail_here env i e) Q (\<lambda>_ _. True)"
  unfolding fail_here_def fail_def by (intro triple_bind [OF triple_true] triple_throw) simp

lemma stop_returns: "triple P (stop_cancelled env cfg) (\<lambda>r _. r \<noteq> None) (\<lambda>_ _. True)"
  unfolding stop_cancelled_def by (rule triple_bind [OF triple_true], rule triple_ret) simp

lemma broken_returns:
  "triple P (mbind (is_cancelled env) (\<lambda>b. if b then stop_cancelled env cfg else fail_here env i e)) (\<lambda>r _. r \<noteq> None) (\<lambda>_ _. True)"
  by (rule triple_bind [OF triple_true]) (intro triple_if stop_returns fail_never)

lemma limit_passes: "triple P (check_limit env cfg k lim n) (\<lambda>_ s. P s \<and> over_limit lim n = None) (\<lambda>_ _. True)"
  unfolding check_limit_def by (rule triple_case_option) (auto intro: triple_ret fail_never)

abbreviation used_up :: "nat \<Rightarrow> ResumableToolCall list \<Rightarrow> nat \<Rightarrow> 'a option \<Rightarrow> 'w loop_state \<Rightarrow> bool" where
  "used_up l pend k r s \<equiv> r = None \<longrightarrow> (\<exists>j < k. progress_inv l pend j s)"

lemma natural_stop_progress:
  "triple (progress_inv l pend k) (natural_stop env cfg)
     (\<lambda>r s. (r = None \<longrightarrow> progress_inv l pend k s) \<and> (\<forall>out. r = Some out \<longrightarrow> used_up l pend k out s)) (\<lambda>_ _. True)"
  unfolding natural_stop_def
proof (rule triple_bind [OF triple_get [where Q = "\<lambda>b s. progress_inv l pend k s \<and> ls_natural_stop s = b"]], simp, rule triple_if, goal_cases)
  case (2 b)
  show ?case
  proof (cases k)
    case 0
    then show ?thesis using 2 by (auto simp: triple_def progress_inv_def remaining_def)
  next
    case (Suc j)
    have "triple (\<lambda>s. progress_inv l pend k s \<and> ls_natural_stop s = b) (mset_state (\<lambda>s. s\<lparr>ls_natural_stop := False\<rparr>)) (\<lambda>_. progress_inv l pend j) (\<lambda>_ _. True)"
      by (rule triple_set) (use 2 Suc in \<open>auto simp: progress_inv_def remaining_def\<close>)
    note clear = triple_bind [OF this]
    show ?thesis
      by (rule clear, rule triple_weaken [OF progress_loop.contract.stop_naturally_ends])
        (use Suc in \<open>auto simp: progress_inv_def\<close>)
  qed
qed (auto intro: triple_ret)

lemma resume_progress:
  assumes "rs \<noteq> []" "set rs \<subseteq> set pend"
  shows "triple (\<lambda>s. progress_inv l pend k s \<and> ls_resumable s = rs) (resume_round env cfg rs) (used_up l pend k) (\<lambda>_ _. True)"
proof -
  let ?P = "\<lambda>s. progress_inv l pend k s \<and> ls_resumable s = rs"
  have keep: "triple ?P (mget f) (\<lambda>_. ?P) X" for f :: "_ \<Rightarrow> nat" and X by (rule triple_get) simp
  have lim: "triple ?P (check_limit env cfg kind lim n) (\<lambda>_. ?P) (\<lambda>_ _. True)" for kind lim n
    by (rule triple_weaken [OF limit_passes [where P = ?P]]) auto
  show ?thesis
  proof (cases k)
    case 0
    then show ?thesis using assms by (auto simp: triple_def progress_inv_def remaining_def)
  next
    case (Suc j)
    have "triple ?P (mset_state (\<lambda>s. s\<lparr>ls_tool_round := n, ls_tool_calls := m, ls_resumable := []\<rparr>)) (\<lambda>_. progress_inv l pend j) (\<lambda>_ _. True)" for n m
      by (rule triple_set) (use assms Suc in \<open>auto simp: progress_inv_def remaining_def\<close>)
    note clear = triple_bind [OF this]
    have "triple (progress_inv l pend j) (resume_pending env cfg rs) (used_up l pend k) (\<lambda>_ _. True)"
      by (rule triple_weaken [OF progress_loop.contract.resume_pending_ends [OF refl assms(2)]]) (use Suc in auto)
    then show ?thesis unfolding resume_round_def
      by (intro triple_bind [OF keep] triple_bind [OF lim] clear)
  qed
qed

lemma model_progress:
  assumes l: "max_model_calls (rq_limits (lc_request cfg)) = Some l"
  shows "triple (progress_inv l pend k) (model_round fuel env cfg) (used_up l pend k) (\<lambda>_ _. True)"
  unfolding model_round_def l
proof (rule triple_bind [OF error_free [OF kept_progress [OF progress.steady_cancelled]]], rule triple_if,
    rule triple_weaken [OF stop_returns [where P = "\<lambda>_. True"]], (auto)[3],
    rule triple_bind [OF triple_get [where Q = "\<lambda>n s. progress_inv l pend k s \<and> ls_model_calls s = n"]], simp,
    rule triple_bind [OF limit_passes], rule triple_pure, goal_cases)
  case (1 b n u)
  then have n: "n < l" by (auto simp: over_limit_def split: if_splits)
  show ?case
  proof (cases k)
    case 0
    then show ?thesis using n by (auto simp: triple_def progress_inv_def remaining_def)
  next
    case (Suc j)
    have "triple (\<lambda>s. progress_inv l pend k s \<and> ls_model_calls s = n) (mset_state (\<lambda>s. s\<lparr>ls_model_calls := n + 1\<rparr>)) (\<lambda>_. progress_inv l pend j) (\<lambda>_ _. True)"
      by (rule triple_set) (use n Suc in \<open>auto simp: progress_inv_def remaining_def split: if_splits\<close>)
    note count = triple_bind [OF this]
    show ?thesis
      by (rule count, rule triple_weaken [OF progress_loop.contract.model_call_ends [OF refl refl]]) (use Suc in auto)
  qed
qed

lemmas await = progress_loop.contract.try_ends [OF progress_loop.contract.quietD [OF progress_loop.contract.quiet_await_results]]

lemma iteration_progress:
  assumes l: "max_model_calls (rq_limits (lc_request cfg)) = Some l"
  shows "triple (progress_inv l pend k) (loop_iteration fuel env cfg) (used_up l pend k) (\<lambda>_ _. True)"
  unfolding loop_iteration_def
proof (rule triple_bind [where R = "\<lambda>_. progress_inv l pend k"], rule triple_get, assumption, rule triple_bind [OF error_free [OF await]], assumption, goal_cases)
  case (1 wait r)
  show ?case
  proof (rule triple_case_sum, rule triple_weaken [OF broken_returns [where P = "\<lambda>_. True"]], (auto)[3],
      rule triple_bind [OF error_free [OF progress_loop.contract.quietD [OF progress_loop.contract.quiet_receive]]],
      rule triple_bind [OF natural_stop_progress], rule triple_case_option, goal_cases)
    case (1 bg u st)
    show ?case
    proof (rule triple_bind [OF triple_get [where Q = "\<lambda>rs s. progress_inv l pend k s \<and> ls_resumable s = rs"]], simp add: 1, rule triple_if, goal_cases)
      case (1 rs)
      have "triple (\<lambda>s. (progress_inv l pend k s \<and> ls_resumable s = rs) \<and> set rs \<subseteq> set pend) (resume_round env cfg rs) (used_up l pend k) (\<lambda>_ _. True)"
        by (rule triple_pure) (rule resume_progress [OF 1])
      then show ?case by (rule triple_conseq) (auto simp: progress_inv_def)
    next
      case (2 rs)
      show ?case by (rule triple_conseq [OF model_progress [OF l]]) simp
    qed
  next
    case (2 bg u st x)
    then show ?case by (intro triple_ret) auto
  qed
qed

definition waits_end :: "nat \<Rightarrow> 'w loop_env \<Rightarrow> bool" where
  "waits_end fuel env \<longleftrightarrow> (\<forall>b s. fst (await_background_results fuel env b s) \<noteq> Unfinished)"

lemma settling: "waits_end fuel env \<Longrightarrow> reporting env (\<lambda>e _. e \<noteq> None) fuel"
proof unfold_locales
  show "tame (\<lambda>e s. e = None \<longrightarrow> None \<noteq> None) (await_background_results fuel env b)" if "waits_end fuel env" for b
    using that unfolding tame_def triple_def waits_end_def by (auto split: prod.splits exec.splits) (metis fst_conv)
qed (auto elim: reported.elims)

lemma loop_settles:
  assumes l: "max_model_calls (rq_limits (lc_request cfg)) = Some l" and w: "waits_end fuel env" and n: "k < n"
  shows "triple (progress_inv l pend k) (loop_run n fuel env cfg) (\<lambda>_ _. True) (\<lambda>e _. e \<noteq> None)"
  using n
proof (induction n arbitrary: k)
  case (Suc n)
  have it: "triple (progress_inv l pend k) (loop_iteration fuel env cfg) (used_up l pend k) (\<lambda>e _. e \<noteq> None)"
    using triple_conj [OF iteration_progress [OF l] reporting.tame_iteration [OF settling [OF w], unfolded tame_def]]
    by (rule triple_weaken) auto
  have go: "triple (\<lambda>s. \<exists>j < k. progress_inv l pend j s) (loop_run n fuel env cfg) (\<lambda>_ _. True) (\<lambda>e _. e \<noteq> None)"
  proof (cases k)
    case (Suc j)
    show ?thesis by (rule triple_conseq [OF Suc.IH [of j]]) (use Suc Suc.prems in \<open>auto simp: progress_inv_def\<close>)
  qed (simp add: triple_def)
  show ?case unfolding loop_run.simps
    by (rule triple_bind [OF it], rule triple_case_option, rule triple_conseq [OF go], simp, rule triple_ret, simp)
qed simp

text \<open>At most one iteration for each model call, one for the pending calls, one for the natural stop, and the one that ends.\<close>

lemma loop_run_settles:
  fixes env :: "'a loop_env"
  assumes "max_model_calls (rq_limits (lc_request cfg)) = Some l" "waits_end fuel env" "l + 2 < n"
  shows "tame (\<lambda>e _. e \<noteq> None) (loop_run n fuel env cfg)"
proof -
  have p: "progress_inv l (ls_resumable s) (l + 2) s" for s :: "'a loop_state" by (auto simp: progress_inv_def remaining_def)
  show ?thesis using loop_settles [OF assms] p unfolding tame_def triple_def by meson
qed

lemma run_settles:
  assumes l: "max_model_calls (rq_limits request) = Some l" and w: "waits_end fuel env" and n: "l + 2 < n"
  shows "fst (agent_run n fuel env request s) \<noteq> Unfinished"
proof -
  have "tame (\<lambda>e _. e \<noteq> None) (agent_run n fuel env request)"
    by (rule reporting.tame_run [OF settling [OF w]], rule loop_run_settles [OF _ w n]) (simp add: l)
  then show ?thesis unfolding tame_def triple_def
    by (cases "agent_run n fuel env request s") (auto split: exec.splits prod.splits)
qed

end
