(* ===== verification/Loop_Outcome.thy ===== *)
theory Loop_Outcome
  imports Loop_Termination
begin

text \<open>
  What a run that returns has done: a completed run has recorded its answer, checked its citations and finished as completed;
  any other run that returns has finished as cancelled.
\<close>

definition finished_as :: "AgentRunState \<Rightarrow> RunOutcome \<Rightarrow> 'w loop_state \<Rightarrow> bool" where
  "finished_as t oc s \<longleftrightarrow> (\<exists>tr p. ls_trace s = tr @ [AtFinish \<lparr>previous = p, current = t, reason = None\<rparr> oc])"

definition answered :: "AgentLoopRequest \<Rightarrow> AgentLoopResult \<Rightarrow> 'w loop_state \<Rightarrow> bool" where
  "answered request x s \<longleftrightarrow>
     (if lo_outcome x = OutcomeCompleted
      then validate_citations (lo_answer x) (rq_evidence request) = Inr ()
        \<and> AtRecord (MessageCompleted (rq_assistant_message_id request) Assistant (lo_answer x) False) \<in> set (ls_trace s)
        \<and> finished_as AgentRunState.Completed OutcomeCompleted s
      else lo_outcome x = OutcomeCancelled \<and> finished_as AgentRunState.Cancelled OutcomeCancelled s)"

text \<open>The answer is fixed and recorded.\<close>

definition recorded_answer :: "uuid \<Rightarrow> rstr \<Rightarrow> 'w loop_state \<Rightarrow> bool" where
  "recorded_answer i a s \<longleftrightarrow> ls_answer s = a \<and> AtRecord (MessageCompleted i Assistant a False) \<in> set (ls_trace s)"

definition keeps_answer :: "uuid \<Rightarrow> rstr \<Rightarrow> ('w, 'a) loop_m \<Rightarrow> bool" where
  "keeps_answer i a c \<longleftrightarrow> triple (recorded_answer i a) c (\<lambda>_. recorded_answer i a) (\<lambda>_ _. True)"

lemma keeps_bind: "keeps_answer i a c \<Longrightarrow> (\<And>x. keeps_answer i a (f x)) \<Longrightarrow> keeps_answer i a (mbind c f)"
  unfolding keeps_answer_def by (rule triple_bind)

lemma keeps_basic:
  "keeps_answer i a (mret x)" "keeps_answer i a (mget f)" "keeps_answer i a (mcall op)" "keeps_answer i a (mnote b)" "keeps_answer i a (mresult r)"
  "keeps_answer i a (mset_state (\<lambda>s. s\<lparr>ls_machine := p\<rparr>))"
  unfolding keeps_answer_def recorded_answer_def by (auto intro!: triple_ret triple_get triple_call triple_note triple_result triple_set)

lemma keeps_prod: "(\<And>x y. keeps_answer i a (f x y)) \<Longrightarrow> keeps_answer i a (case v of (x, y) \<Rightarrow> f x y)"
  by (cases v) auto

lemmas keeps_core = keeps_bind keeps_basic keeps_prod

lemma keeps_change: "keeps_answer i a (change_state env t)"
  unfolding change_state_def change_state_with_guards_def by (intro keeps_core)

lemma keeps_take: "keeps_answer i a (take_queued env k)"
  unfolding take_queued_def by (intro keeps_core)

section \<open>Finishing\<close>

lemma finish_seals: "triple P (finish env t oc i) (\<lambda>_. finished_as t oc) (\<lambda>_ _. True)"
proof -
  have r: "triple (\<lambda>_. True) (mresult (map_err f r)) (\<lambda>c _. c = \<lparr>previous = p, current = t, reason = None\<rparr>) (\<lambda>_ _. True)"
    if "run_transition p t idle_guards = (r, p')" for p p' r f
    using that by (intro triple_result) (auto simp: run_transition_def split: if_splits)
  have f: "triple (\<lambda>_. c = \<lparr>previous = p, current = t, reason = None\<rparr>) (sink_finish env c oc i) (\<lambda>_. finished_as t oc) (\<lambda>_ _. True)" for c p
    unfolding sink_finish_def
    by (rule triple_bind [OF triple_note [where Q = "\<lambda>_. finished_as t oc"]], force simp: finished_as_def,
        rule triple_bind [OF triple_call [where Q = "\<lambda>_. finished_as t oc"]], simp add: finished_as_def,
        rule triple_result) auto
  show ?thesis unfolding finish_def
    by (rule triple_bind [OF triple_true], rule triple_case_prod, rule triple_bind [OF triple_true], rule triple_bind [OF r], assumption, rule f)
qed

lemma keeps_finish: "keeps_answer j a (finish env t oc i)"
  unfolding finish_def sink_finish_def by (intro keeps_core)

lemma cancel_cancels:
  "triple P (cancel env i c) (\<lambda>x s. lo_outcome x = OutcomeCancelled \<and> finished_as AgentRunState.Cancelled OutcomeCancelled s) (\<lambda>_ _. True)"
  unfolding cancel_def
  by (rule triple_bind [OF triple_true], rule triple_bind [OF triple_true], rule triple_bind [OF finish_seals], rule triple_ret) simp

lemma stop_cancels:
  "triple P (cancel_or_timeout env i c) (\<lambda>x s. lo_outcome x = OutcomeCancelled \<and> finished_as AgentRunState.Cancelled OutcomeCancelled s) (\<lambda>_ _. True)"
  unfolding cancel_or_timeout_def
  by (rule triple_bind [OF triple_true]) (intro triple_if cancel_cancels triple_bind [OF triple_true] fail_never)

abbreviation settled_result :: "AgentLoopRequest \<Rightarrow> AgentLoopResult option \<Rightarrow> 'w loop_state \<Rightarrow> bool" where
  "settled_result request r s \<equiv> \<forall>x. r = Some x \<longrightarrow> answered request x s"

lemma stop_settled: "triple P (stop_cancelled env cfg) (settled_result request) (\<lambda>_ _. True)"
  unfolding stop_cancelled_def by (rule triple_bind [OF stop_cancels], rule triple_ret) (simp add: answered_def)

lemma broken_settled:
  "triple P (mbind (is_cancelled env) (\<lambda>b. if b then stop_cancelled env cfg else fail_here env i e)) (settled_result request) (\<lambda>_ _. True)"
  by (rule triple_bind [OF triple_true]) (intro triple_if stop_settled fail_never)

lemma abandon_settled: "triple P (abandon env cfg e) (settled_result request) (\<lambda>_ _. True)"
proof -
  have g: "triple (\<lambda>s. lo_outcome x = OutcomeCancelled \<and> finished_as AgentRunState.Cancelled OutcomeCancelled s)
      (mget (\<lambda>s. Some (x\<lparr>lo_reasoning := ls_reasoning s, lo_reasoning_ms := ls_reasoning_ms s\<rparr>))) (settled_result request) (\<lambda>_ _. True)" for x
    by (rule triple_get) (simp add: answered_def)
  show ?thesis unfolding abandon_def
    by (rule triple_bind [OF triple_true], rule triple_if, rule triple_bind [OF stop_cancels g])
      (intro triple_bind [OF triple_true] fail_never)
qed

section \<open>A checked answer\<close>

lemma check_answer_checks:
  "triple (recorded_answer i a) (check_answer env cfg)
     (\<lambda>again s. again \<or> recorded_answer i a s \<and> validate_citations a (rq_evidence (lc_request cfg)) = Inr ()) (\<lambda>_ _. True)"
proof -
  let ?V = "validate_citations a (rq_evidence (lc_request cfg))"
  have fin: "keeps_answer i a (mbind (change_state env Completing) (\<lambda>_. mret False))" by (intro keeps_core keeps_change)
  have more: "triple P (mbind (push_input q) (\<lambda>_. mbind (change_state env Generating) (\<lambda>_. mret True))) (\<lambda>again s. again \<or> R s) (\<lambda>_ _. True)" for P q R
    by (rule triple_bind [OF triple_true], rule triple_bind [OF triple_true], rule triple_ret) simp
  have last: "triple (recorded_answer i a) (mbind (change_state env Completing) (\<lambda>_. mret False)) (\<lambda>again s. again \<or> recorded_answer i a s \<and> ?V = Inr ()) (\<lambda>_ _. True)"
    if "?V = Inr ()" by (rule triple_weaken [OF fin [unfolded keeps_answer_def]]) (use that in auto)
  have second: "triple (recorded_answer i a) (if steering = [] then take_queued env FollowUp else mret steering) (\<lambda>_. recorded_answer i a) (\<lambda>_ _. True)" for steering
    using keeps_take [of i a env FollowUp] by (auto simp: keeps_answer_def intro: triple_ret)
  show ?thesis unfolding check_answer_def
  proof (rule triple_bind [OF triple_get [where Q = "\<lambda>b s. recorded_answer i a s \<and> b = a"]], simp add: recorded_answer_def, rule triple_pure, goal_cases)
    case (1 b)
    show ?case unfolding 1
    proof (rule triple_case_sum, goal_cases)
      case (1 e)
      then show ?case by (cases e) (simp add: fail_never)
    next
      case (2 u)
      then show ?case
        by (intro triple_bind [OF keeps_take [unfolded keeps_answer_def]] triple_bind [OF second] triple_if more last) simp
    qed
  qed
qed

lemma complete_answers:
  assumes "validate_citations a (rq_evidence (lc_request cfg)) = Inr ()"
  shows "triple (recorded_answer (lc_message_id cfg) a) (complete_run env cfg) (settled_result (lc_request cfg)) (\<lambda>_ _. True)"
proof -
  have f: "triple (recorded_answer (lc_message_id cfg) a) (finish env t oc i) (\<lambda>_ s. recorded_answer (lc_message_id cfg) a s \<and> finished_as t oc s) (\<lambda>_ _. True)"
    for t oc i
    using triple_conj [OF keeps_finish [unfolded keeps_answer_def] finish_seals [where P = "\<lambda>_. True"]] by (rule triple_weaken) simp_all
  show ?thesis unfolding complete_run_def
    by (rule triple_bind [OF f], rule triple_get) (use assms in \<open>auto simp: answered_def recorded_answer_def\<close>)
qed

lemma record_answer:
  "triple (\<lambda>s. ls_answer s = a) (record_event env (MessageCompleted i Assistant a False)) (\<lambda>_. recorded_answer i a) (\<lambda>_ _. True)"
  unfolding record_event_def sink_record_def
  by (rule triple_bind [OF triple_bind [OF triple_note [where Q = "\<lambda>_. recorded_answer i a"]]], simp add: recorded_answer_def,
      rule keeps_basic(3) [unfolded keeps_answer_def], rule keeps_basic(5) [unfolded keeps_answer_def])

lemma finish_answer_settled: "triple P (finish_answer fuel env cfg ms) (settled_result (lc_request cfg)) (\<lambda>_ _. True)"
proof -
  have goes: "triple P (mbind c (\<lambda>_. mret None)) (settled_result request) (\<lambda>_ _. True)" for P request and c :: "('c, unit) loop_m"
    by (rule triple_bind [OF triple_true], rule triple_ret) simp
  have fin: "triple (\<lambda>s. again \<or> recorded_answer (lc_message_id cfg) a s \<and> validate_citations a (rq_evidence (lc_request cfg)) = Inr ())
      (if again then mret None else complete_run env cfg) (settled_result (lc_request cfg)) (\<lambda>_ _. True)" for again a
  proof (cases again)
    case False
    have "triple (\<lambda>s. recorded_answer (lc_message_id cfg) a s \<and> validate_citations a (rq_evidence (lc_request cfg)) = Inr ()) (complete_run env cfg)
      (settled_result (lc_request cfg)) (\<lambda>_ _. True)" by (rule triple_pure) (rule complete_answers)
    then show ?thesis using False by simp
  qed (auto intro: triple_ret)
  show ?thesis unfolding finish_answer_def
    by (rule triple_bind [OF triple_true], rule triple_bind [OF triple_true], rule triple_case_sum, rule broken_settled, rule triple_if,
        intro triple_bind [OF triple_true] goes, rule triple_bind [OF triple_true],
        rule triple_bind [OF triple_get [where Q = "\<lambda>a s. ls_answer s = a"]], simp, rule triple_bind [OF record_answer],
        rule triple_bind [OF keeps_change [unfolded keeps_answer_def]], rule triple_bind [OF check_answer_checks], rule fin)
qed

section \<open>The rest of the loop\<close>

lemma run_tools_settled: "triple P (run_tools env cfg mcs calls rt) (settled_result request) (\<lambda>_ _. True)"
proof -
  have goes: "triple P (mbind c (\<lambda>_. mret None)) (settled_result request) (\<lambda>_ _. True)" for P and c :: "('a, unit) loop_m"
    by (rule triple_bind [OF triple_true], rule triple_ret) simp
  show ?thesis unfolding run_tools_def run_decided_def Let_def
    by (intro triple_bind [OF triple_true] triple_case_prod triple_if stop_settled triple_case_option goes)
qed

lemma tool_turn_settled: "triple P (tool_turn env cfg r ms) (settled_result request) (\<lambda>_ _. True)"
  unfolding tool_turn_def by (intro triple_bind [OF triple_true] triple_case_sum triple_case_prod abandon_settled run_tools_settled)

lemma resume_round_settled: "triple P (resume_round env cfg ps) (settled_result request) (\<lambda>_ _. True)"
  unfolding resume_round_def resume_pending_def
  by (intro triple_bind [OF triple_true] triple_case_sum broken_settled triple_ret) simp

lemma model_round_settled: "triple P (model_round fuel env cfg) (settled_result (lc_request cfg)) (\<lambda>_ _. True)"
  unfolding model_round_def model_call_def
  by (intro triple_bind [OF triple_true] triple_if triple_case_sum triple_case_prod stop_settled fail_never abandon_settled
      finish_answer_settled tool_turn_settled)

text \<open>A fresh run never takes the natural stop of a resumed one.\<close>

definition going :: "'w loop_state \<Rightarrow> bool" where
  "going s \<longleftrightarrow> \<not> ls_natural_stop s \<and> ls_resumable s = []"

interpretation goes: machine_free env going "\<lambda>_. True" for env
  by unfold_locales (auto simp: going_def same_core_def)

lemma kept_going: "stable_assertion.steady going c \<Longrightarrow> triple going c (\<lambda>_. going) (\<lambda>_. going)"
  by (simp add: goes.steady_def)

interpretation going_loop: loop_ledger env limits regs "[]" "\<lambda>_. going" "\<lambda>_. True" for env limits regs
proof (rule loop_ledger.intro)
  show "machine_free going (\<lambda>_. True)" by (rule goes.machine_free_axioms)
  show "triple going (generate_with_recovery env rq i limits rs) (\<lambda>_. going) (\<lambda>_. going)" for rq i rs
    unfolding generate_with_recovery_def by (rule kept_going [OF goes.steady_generate_loop]) simp
  show "triple going (decide_calls env blocked cs) (\<lambda>(a, d). going) (\<lambda>_. going)" for cs blocked
    unfolding case_prod_unfold by (rule kept_going [OF goes.steady_decide]) simp
  show "triple going (resume_decisions env blocked xs) (\<lambda>(a, d). going) (\<lambda>_. going)" for xs blocked
    unfolding case_prod_unfold by (rule kept_going [OF goes.steady_resume])
  show "triple going (execute_tool_batch env regs cs) (\<lambda>_. going) (\<lambda>_. going)" for cs
    by (rule kept_going [OF goes.steady_batch]) simp_all
qed (auto simp: going_def)

lemma natural_stop_going: "triple going (natural_stop env cfg) (\<lambda>r _. r = None) (\<lambda>_ _. True)"
  unfolding natural_stop_def
  by (rule triple_bind [OF triple_get [where Q = "\<lambda>b _. \<not> b"]], simp add: going_def) (auto simp: triple_def mret_def)

lemma iteration_settled: "triple going (loop_iteration fuel env cfg) (\<lambda>r s. going s \<and> settled_result (lc_request cfg) r s) (\<lambda>_ _. True)"
proof -
  have await: "triple going (mtry (await_background_results fuel env b)) (\<lambda>_. going) (\<lambda>_ _. True)" for b
    by (rule error_free [OF going_loop.contract.try_ends [OF going_loop.contract.quietD [OF going_loop.contract.quiet_await_results]]])
  have rec: "triple going (receive_background env cfg bs) (\<lambda>_. going) (\<lambda>_ _. True)" for bs
    by (rule error_free [OF going_loop.contract.quietD [OF going_loop.contract.quiet_receive]])
  have "triple going (loop_iteration fuel env cfg) (settled_result (lc_request cfg)) (\<lambda>_ _. True)"
    unfolding loop_iteration_def
  proof (rule triple_bind [where R = "\<lambda>_. going"], rule triple_get, assumption, rule triple_bind [OF await], rule triple_case_sum,
      rule broken_settled, rule triple_bind [OF rec], rule triple_bind [OF natural_stop_going], rule triple_case_option)
    show "triple (\<lambda>_. st = None) (mret out) (settled_result (lc_request cfg)) (\<lambda>_ _. True)" if "st = Some out" for st out
      using that by (simp add: triple_def)
  qed (intro triple_bind [OF triple_true] triple_if resume_round_settled model_round_settled)
  moreover have "triple going (loop_iteration fuel env cfg) (\<lambda>_. going) (\<lambda>_. going)"
    by (rule going_loop.contract.iteration_ends [OF refl refl])
  ultimately show ?thesis by (rule triple_weaken [OF triple_conj]) auto
qed

lemma loop_settled: "triple going (loop_run n fuel env cfg) (answered (lc_request cfg)) (\<lambda>_ _. True)"
proof (induction n)
  case (Suc n)
  show ?case unfolding loop_run.simps
    by (rule triple_bind [OF iteration_settled], rule triple_case_option, rule triple_conseq [OF Suc], simp, rule triple_ret, simp)
qed (auto intro: triple_stuck)

lemma going_ops:
  "triple going (mresult v) (\<lambda>_. going) (\<lambda>_ _. True)"
  "triple going (change_state env t) (\<lambda>_. going) (\<lambda>_ _. True)"
  "triple going (is_cancelled env) (\<lambda>_. going) (\<lambda>_ _. True)"
  "\<not> starts_tool ev \<Longrightarrow> triple going (record_event env ev) (\<lambda>_. going) (\<lambda>_ _. True)"
  unfolding change_state_def
  by (rule error_free [OF kept_going], intro goes.steady_core goes.steady_change goes.steady_cancelled goes.steady_event; assumption)+

lemma enter_settled:
  assumes "rq_resume request = None"
  shows "triple going (enter_loop env request ctx) (\<lambda>r s. (r = None \<longrightarrow> going s) \<and> settled_result request r s) (\<lambda>_ _. True)"
proof -
  let ?Q = "\<lambda>r s. (r = None \<longrightarrow> going s) \<and> settled_result request r s"
  have stop: "triple going (mbind (cancel_or_timeout env i ctx) (\<lambda>r. mret (Some r))) ?Q (\<lambda>_ _. True)" for i
    by (rule triple_bind [OF stop_cancels], rule triple_ret) (simp add: answered_def)
  show ?thesis unfolding enter_loop_def assms option.case
    by (rule triple_bind [OF going_ops(2)], rule triple_bind [OF going_ops(3)], rule triple_if, rule stop, rule triple_bind [OF going_ops(2)],
        rule triple_case_option, rule triple_ret, simp, rule triple_bind [OF going_ops(4)], simp, rule triple_ret, simp)
qed

lemma run_settled:
  assumes r: "rq_resume request = None"
  shows "triple going (agent_run n fuel env request) (answered request) (\<lambda>_ _. True)"
proof -
  have dl: "triple going (set_deadline env d) (\<lambda>_. going) (\<lambda>_ _. True)" for d
    unfolding set_deadline_def
    by (rule triple_case_option, rule triple_ret, assumption, rule triple_bind [where R = "\<lambda>_. going"], rule triple_call)
      (auto intro!: triple_set simp: going_def)
  have fc: "triple P (fail env p i e) (answered request) (\<lambda>_ _. True)" for P p i e
    unfolding fail_def by (intro triple_bind [OF triple_true] triple_throw) simp
  have ld: "triple going (load_locals env request ctx) (\<lambda>_. going) (\<lambda>_ _. True)" for ctx
    unfolding load_locals_def r option.case by (rule triple_set) (simp add: going_def)
  have pl: "triple going (tool_payload env request rs) (\<lambda>_. going) (\<lambda>_ _. True)" for rs
    unfolding tool_payload_def by (auto intro!: triple_ret fail_never)
  have loop: "triple (\<lambda>s. (x = None \<longrightarrow> going s) \<and> settled_result request x s) (case x of Some out \<Rightarrow> mret out
      | None \<Rightarrow> mbind (load_locals env request ctx) (\<lambda>_. mbind (mresult (map_err LeInternal (snapshot_capture (le_registrations env)))) (\<lambda>regs.
        mbind (tool_payload env request regs) (\<lambda>payload. loop_run n fuel env \<lparr>lc_request = request, lc_context = ctx, lc_window = window,
          lc_tools = regs, lc_payload = payload, lc_recovery_attempt = attempt\<rparr>)))) (answered request) (\<lambda>_ _. True)" for x ctx window attempt
  proof (rule triple_case_option, rule triple_conseq [where P = going], goal_cases)
    case 1
    show ?case by (rule triple_bind [OF ld], rule triple_bind [OF going_ops(1)], rule triple_bind [OF pl], rule triple_weaken [OF loop_settled])
      simp_all
  qed (auto intro: triple_ret)
  show ?thesis unfolding agent_run_def Let_def
    by (rule triple_bind [OF going_ops(1)], rule triple_bind [OF going_ops(1)], rule triple_bind [OF dl], rule triple_bind [OF going_ops(1)],
        rule triple_case_sum, rule fc, rule triple_bind [OF enter_settled [OF r]], rule loop)
qed

end
