(* ===== verification/Loop_Limits.thy ===== *)
theory Loop_Limits
  imports Loop_Contract
begin

text \<open>
  The limits of a run: how often the model is asked and how many tools run, counted in the trace against the loop's own
  counters.  The count of an action is kept below an allowance of the state, with a slack that the calls spend.
\<close>

definition count_actions :: "(action \<Rightarrow> bool) \<Rightarrow> action list \<Rightarrow> nat" where
  "count_actions f tr = length (filter f tr)"

fun is_generate :: "action \<Rightarrow> bool" where
  "is_generate (AtGenerate rq) = True"
| "is_generate _ = False"

fun is_execute :: "action \<Rightarrow> bool" where
  "is_execute (AtExecute i) = True"
| "is_execute _ = False"

lemma count_actions_simps [simp]:
  "count_actions f [] = 0"
  "count_actions f (tr @ [a]) = count_actions f tr + (if f a then 1 else 0)"
  by (simp_all add: count_actions_def)

definition slack :: "(action \<Rightarrow> bool) \<Rightarrow> ('w loop_state \<Rightarrow> nat) \<Rightarrow> nat \<Rightarrow> 'w loop_state \<Rightarrow> bool" where
  "slack f g k s \<longleftrightarrow> count_actions f (ls_trace s) + k \<le> g s"

lemma slack_less: "slack f g k s \<Longrightarrow> j \<le> k \<Longrightarrow> slack f g j s"
  by (simp add: slack_def)

text \<open>What the allowance may depend on.\<close>

definition allowance :: "('w loop_state \<Rightarrow> nat) \<Rightarrow> bool" where
  "allowance g \<longleftrightarrow> (\<forall>s s'. ls_model_calls s = ls_model_calls s' \<and> ls_tool_calls s = ls_tool_calls s' \<longrightarrow> g s = g s')"

locale counted =
  fixes env :: "'w loop_env" and f :: "action \<Rightarrow> bool" and g :: "'w loop_state \<Rightarrow> nat" and K :: "'w loop_state \<Rightarrow> bool"
  assumes g: "allowance g"
    and f: "\<not> f (AtRecord ev)" "\<not> f (AtCheckpoint c)" "\<not> f (AtTransition t)" "\<not> f (AtFinish t oc)" "\<not> f (AtDecide rq d)"
    and K: "\<And>s s'. ls_model_calls s = ls_model_calls s' \<Longrightarrow> ls_tool_calls s = ls_tool_calls s' \<Longrightarrow> ls_resumable s = ls_resumable s' \<Longrightarrow> K s = K s'"
begin

definition within :: "nat \<Rightarrow> 'w loop_state \<Rightarrow> bool" where
  "within k s \<longleftrightarrow> slack f g k s \<and> K s"

lemma g_eq: "ls_model_calls s = ls_model_calls s' \<Longrightarrow> ls_tool_calls s = ls_tool_calls s' \<Longrightarrow> g s = g s'"
  using g unfolding allowance_def by blast

lemma within_less: "within k s \<Longrightarrow> j \<le> k \<Longrightarrow> within j s"
  by (auto simp: within_def elim: slack_less)

lemma within_noted: "within (if f a then Suc k else k) s \<Longrightarrow> within k (noted a s)"
  using g_eq [of "noted a s" s] K [of "noted a s" s] by (auto simp: within_def slack_def split: if_splits)

end

sublocale counted \<subseteq> machine_free env "within k" "\<lambda>a. \<not> f a" for k
proof unfold_locales
  show "within k s'" if "same_core s s'" "within k s" for s s'
    using that g_eq [of s s'] K [of s s'] by (simp add: same_core_def within_def slack_def)
  show "within k (s\<lparr>ls_machine := p\<rparr>)" if "within k s" for s p
    using that g_eq [of "s\<lparr>ls_machine := p\<rparr>" s] K [of "s\<lparr>ls_machine := p\<rparr>" s] by (simp add: within_def slack_def)
  show "within k (noted a s)" if "\<not> f a" "within k s" for a s
    using that within_noted [of a k s] by simp
qed (simp_all add: f)

context counted
begin

lemma spend: "f a \<Longrightarrow> triple (within (Suc k)) (mnote a) (\<lambda>_. within k) X"
  by (rule triple_note) (use within_noted [of a k] in simp)

lemma spare: "stable_assertion.steady (within k) c \<Longrightarrow> triple (within k) c (\<lambda>_. within k) (\<lambda>_. within 0)"
  unfolding steady_def by (erule triple_weaken) (auto elim: within_less)

lemma spare_bind:
  "stable_assertion.steady (within k) c \<Longrightarrow> (\<And>x. triple (within k) (h x) Q (\<lambda>_. within 0)) \<Longrightarrow> triple (within k) (mbind c h) Q (\<lambda>_. within 0)"
  by (rule triple_bind [OF spare])

lemma spare_throw: "triple (within k) (mthrow e) Q (\<lambda>_. within 0)"
  by (rule triple_throw) (erule within_less, simp)

text \<open>One model request spends one; the recovery loop what its retries allow.\<close>

lemma generate_spends:
  assumes "\<And>rq. f (AtGenerate rq)"
  shows "triple (within (Suc k)) (generate env rq i b) (\<lambda>_. within k) (\<lambda>_. within 0)"
  unfolding generate_def
  by (rule spare_bind [OF steady_partial], rule triple_bind [OF spend [OF assms]], rule spare)
    (intro steady_core steady_on_events steady_reasoning)

lemma generate_loop_spends:
  assumes a: "\<And>rq. f (AtGenerate rq)"
  shows "triple (within (Suc (max_network_retries lim - n) + (if c then 0 else 1))) (generate_loop env i lim rv rq n c) (\<lambda>_. within 0) (\<lambda>_. within 0)"
proof (induction "2 * (max_network_retries lim - n) + (if c then 0 else 1)" arbitrary: rq n c rule: less_induct)
  case less
  let ?k = "\<lambda>n c. (max_network_retries lim - n) + (if c then 0 else 1 :: nat)"
  have again: "triple (within (?k n c)) (generate_loop env i lim rv rq' n True) (\<lambda>_. within 0) (\<lambda>_. within 0)" if "\<not> c" for rq'
    using less [of n True rq'] that by simp
  have later: "triple (within (?k n c)) (generate_loop env i lim rv rq (n + 1) c) (\<lambda>_. within 0) (\<lambda>_. within 0)" if "n < max_network_retries lim"
  proof -
    have "?k n c = Suc (max_network_retries lim - (n + 1)) + (if c then 0 else 1)" using that by simp
    then show ?thesis using less [of "n + 1" c rq] that by simp
  qed
  have fin: "triple (within k) (mret x) (\<lambda>_. within 0) (\<lambda>_. within 0)" for k and x :: "ChatResponse \<times> rstr \<times> nat"
    by (rule triple_ret) (erule within_less, simp)
  show ?case unfolding generate_loop.simps [of env i lim rv rq n c] add_Suc
    by (rule triple_bind [OF generate_spends [OF a]], rule triple_case_prod, rule triple_case_sum)
      (intro triple_if spare_bind steady_result steady_cancelled steady_back_off spare_throw again later fin; simp)+
qed

lemma generation_spends:
  assumes a: "\<And>rq. f (AtGenerate rq)"
  shows "triple (within (max_network_retries lim + 2)) (generate_with_recovery env rq i lim rv) (\<lambda>_. within 0) (\<lambda>_. within 0)"
  using generate_loop_spends [OF a, of lim 0 False] unfolding generate_with_recovery_def by simp

text \<open>A batch spends one for each of its calls.\<close>

lemma for_spends:
  assumes "\<And>x k. triple (within (Suc k)) (h x) (\<lambda>_. within k) (\<lambda>_. within 0)"
  shows "triple (within (length xs + k)) (mfor h xs) (\<lambda>_. within k) (\<lambda>_. within 0)"
proof (induction xs)
  case (Cons x xs)
  show ?case unfolding mfor.simps list.size add_Suc add_0_right
    by (simp, rule triple_bind [OF assms], rule triple_bind [OF Cons.IH], rule triple_ret)
qed (simp add: triple_ret)

lemma execute_tool_spends:
  assumes "\<And>i. f (AtExecute i)"
  shows "triple (within (Suc k)) (execute_tool env rs c) (\<lambda>_. within k) (\<lambda>_. within 0)"
  unfolding execute_tool_def
proof (rule triple_case_option, goal_cases)
  case 1
  show ?case by (rule triple_ret) (erule within_less, simp)
next
  case (2 x)
  show ?case by (rule triple_bind [OF spend [OF assms]], rule spare) (intro steady_core)
qed

lemma batch_spends:
  assumes a: "\<And>i. f (AtExecute i)"
  shows "triple (within (length cs)) (execute_tool_batch env rs cs) (\<lambda>_. within 0) (\<lambda>_. within 0)"
proof (induction cs rule: length_induct)
  case (1 cs)
  have fin: "triple (within k) (mret x) (\<lambda>_. within 0) (\<lambda>_. within 0)" for k and x :: "chat_message list"
    by (rule triple_ret) (erule within_less, simp)
  show ?case
  proof (cases cs)
    case (Cons c ds)
    let ?block = "if parallel c then c # takeWhile parallel ds else [c]" and ?rest = "if parallel c then dropWhile parallel ds else ds"
    have len: "length cs = length ?block + length ?rest"
      by (simp add: Cons flip: length_append)
    have r: "triple (within (length ?rest)) (execute_tool_batch env rs ?rest) (\<lambda>_. within 0) (\<lambda>_. within 0)"
      using 1 Cons length_dropWhile_le [of parallel ds] by (auto simp: less_Suc_eq_le)
    show ?thesis unfolding len unfolding Cons execute_tool_batch.simps start_tool_def Let_def
      by (rule spare_bind [OF steady_cancelled], rule triple_if, rule fin, rule spare_bind, intro steady_core steady_record f(1),
          rule triple_bind [OF for_spends [OF execute_tool_spends [OF a]]], rule spare_bind, intro steady_core steady_settle,
          rule triple_bind [OF r fin])
  qed (simp add: execute_tool_batch.simps triple_ret)
qed

end

section \<open>Requests to the model\<close>

text \<open>\<open>base\<close> model calls were counted before the run was resumed; each further call makes at most \<open>max_network_retries + 2\<close>
  requests.\<close>

definition per_call :: "AgentLoopLimits \<Rightarrow> nat" where
  "per_call limits = max_network_retries limits + 2"

definition calls_allowed :: "AgentLoopLimits \<Rightarrow> nat \<Rightarrow> 'w loop_state \<Rightarrow> nat" where
  "calls_allowed limits base s = per_call limits * (ls_model_calls s - base)"

definition calls_counted :: "AgentLoopLimits \<Rightarrow> nat \<Rightarrow> ResumableToolCall list \<Rightarrow> 'w loop_state \<Rightarrow> bool" where
  "calls_counted limits base pend s \<longleftrightarrow> base \<le> ls_model_calls s \<and> set (ls_resumable s) \<subseteq> set pend
     \<and> (ls_model_calls s = base \<or> over_limit (max_model_calls limits) (ls_model_calls s) = None)"

interpretation requests: counted env is_generate "calls_allowed limits base" "calls_counted limits base pend" for env limits base pend
  by unfold_locales (auto simp: allowance_def calls_allowed_def calls_counted_def)

fun calls_slack :: "AgentLoopLimits \<Rightarrow> mode \<Rightarrow> nat" where
  "calls_slack limits Calling = per_call limits"
| "calls_slack limits _ = 0"

abbreviation requests_inv :: "AgentLoopLimits \<Rightarrow> nat \<Rightarrow> ResumableToolCall list \<Rightarrow> mode \<Rightarrow> 'w loop_state \<Rightarrow> bool" where
  "requests_inv limits base pend m \<equiv> requests.within limits base pend (calls_slack limits m)"

lemma requests_unfold:
  "requests.within limits base pend k s \<longleftrightarrow> count_actions is_generate (ls_trace s) + k \<le> calls_allowed limits base s \<and> calls_counted limits base pend s"
  by (simp add: requests.within_def slack_def)

lemma next_call:
  assumes "requests.within limits base pend 0 s" "over_limit (max_model_calls limits) (ls_model_calls s + 1) = None"
  shows "requests.within limits base pend (per_call limits) (s\<lparr>ls_model_calls := ls_model_calls s + 1\<rparr>)"
  using assms by (auto simp: requests_unfold calls_allowed_def calls_counted_def Suc_diff_le)

lemma calls_untouched:
  assumes "ls_model_calls s = ls_model_calls s'" "ls_trace s = ls_trace s'" "set (ls_resumable s') \<subseteq> set (ls_resumable s)"
    and "requests.within limits base pend k s"
  shows "requests.within limits base pend k s'"
  using assms by (auto simp: requests_unfold calls_allowed_def calls_counted_def)

interpretation requests_loop: loop_ledger env limits regs pend "requests_inv limits base pend" "\<lambda>a. \<not> is_generate a"
  for env limits regs pend base
proof (rule loop_ledger.intro)
  let ?I = "requests_inv limits base pend"
  have spare: "triple (?I m) c (\<lambda>_. ?I Idle) (\<lambda>_. ?I Idle)" if "stable_assertion.steady (?I m) c" for m c
    using requests.spare [OF that] by (rule triple_weaken) (auto elim: requests.within_less)
  show "machine_free (?I m) (\<lambda>a. \<not> is_generate a)" for m by (rule requests.machine_free_axioms)
  show "?I m s \<Longrightarrow> ?I Idle s" for m s by (auto elim: requests.within_less)
  show "triple (?I Calling) (generate_with_recovery env rq i limits rs) (\<lambda>_. ?I Idle) (\<lambda>_. ?I Idle)" for rq i rs
    using requests.generation_spends [of limits base pend limits env rq i rs] by (simp add: per_call_def)
  show "?I Calling (s\<lparr>ls_model_calls := ls_model_calls s + 1\<rparr>)"
    if "?I Idle s" "over_limit (max_model_calls limits) (ls_model_calls s + 1) = None" for s
    using that next_call [of limits base pend s] by simp
  show "?I Idle (s\<lparr>ls_tool_round := n\<rparr>)" if "?I Idle s" for s n
    using that by (auto elim: calls_untouched [rotated 3])
  show "?I (Reserved n) (s\<lparr>ls_tool_calls := sat_add (ls_tool_calls s) n\<rparr>)" if "?I Idle s" for s n
    using that by (auto elim: calls_untouched [rotated 3])
  show "set (ls_resumable s) \<subseteq> set pend" if "?I Idle s" for s
    using that by (simp add: requests_unfold calls_counted_def)
  show "?I m (s\<lparr>ls_resumable := []\<rparr>)" if "?I m s" for m s
    using that by (auto elim: calls_untouched [rotated 3])
  show "?I m (s\<lparr>ls_natural_stop := False\<rparr>)" if "?I m s" for m s
    using that by (auto elim: calls_untouched [rotated 3])
  show "triple (?I (Reserved (length cs))) (decide_calls env blocked cs) (\<lambda>(a, d). ?I (Cleared a)) (\<lambda>_. ?I Idle)" for cs blocked
    using spare [OF requests.steady_decide, of "Reserved (length cs)"] by (simp add: case_prod_unfold)
  show "triple (?I (Reserved (length xs))) (resume_decisions env blocked xs) (\<lambda>(a, d). ?I (Cleared a)) (\<lambda>_. ?I Idle)" for xs blocked
    using spare [OF requests.steady_resume, of "Reserved (length xs)"] by (simp add: case_prod_unfold)
  show "triple (?I (Cleared cs)) (execute_tool_batch env regs cs) (\<lambda>_. ?I Idle) (\<lambda>_. ?I Idle)" for cs
    by (rule spare [OF requests.steady_batch]) simp_all
qed

section \<open>Tool executions\<close>

text \<open>A limit below the largest \<open>usize\<close>, the bound at which the counter saturates.\<close>

definition capped :: "AgentLoopLimits \<Rightarrow> bool" where
  "capped limits \<longleftrightarrow> (case max_tool_calls limits of None \<Rightarrow> False | Some l \<Rightarrow> l < usize_max)"

definition capped_execution :: "AgentLoopLimits \<Rightarrow> action \<Rightarrow> bool" where
  "capped_execution limits a \<longleftrightarrow> capped limits \<and> is_execute a"

definition tools_allowed :: "nat \<Rightarrow> 'w loop_state \<Rightarrow> nat" where
  "tools_allowed base s = ls_tool_calls s - base"

definition tools_counted :: "AgentLoopLimits \<Rightarrow> nat \<Rightarrow> ResumableToolCall list \<Rightarrow> 'w loop_state \<Rightarrow> bool" where
  "tools_counted limits base pend s \<longleftrightarrow> set (ls_resumable s) \<subseteq> set pend
     \<and> (capped limits \<longrightarrow> base \<le> ls_tool_calls s \<and> (ls_tool_calls s = base \<or> over_limit (max_tool_calls limits) (ls_tool_calls s) = None))"

interpretation executions: counted env "capped_execution limits" "tools_allowed base" "tools_counted limits base pend" for env limits base pend
  by unfold_locales (auto simp: allowance_def tools_allowed_def tools_counted_def capped_execution_def)

fun tools_slack :: "AgentLoopLimits \<Rightarrow> mode \<Rightarrow> nat" where
  "tools_slack limits (Reserved n) = (if capped limits then n else 0)"
| "tools_slack limits (Cleared cs) = (if capped limits then length cs else 0)"
| "tools_slack limits _ = 0"

abbreviation executions_inv :: "AgentLoopLimits \<Rightarrow> nat \<Rightarrow> ResumableToolCall list \<Rightarrow> mode \<Rightarrow> 'w loop_state \<Rightarrow> bool" where
  "executions_inv limits base pend m \<equiv> executions.within limits base pend (tools_slack limits m)"

lemma executions_unfold:
  "executions.within limits base pend k s \<longleftrightarrow>
     count_actions (capped_execution limits) (ls_trace s) + k \<le> tools_allowed base s \<and> tools_counted limits base pend s"
  by (simp add: executions.within_def slack_def)

lemma tools_untouched:
  assumes "ls_tool_calls s = ls_tool_calls s'" "ls_trace s = ls_trace s'" "set (ls_resumable s') \<subseteq> set (ls_resumable s)"
    and "executions.within limits base pend k s"
  shows "executions.within limits base pend k s'"
  using assms by (auto simp: executions_unfold tools_allowed_def tools_counted_def)

lemma next_batch:
  assumes "executions.within limits base pend 0 s" "over_limit (max_tool_calls limits) (sat_add (ls_tool_calls s) n) = None"
  shows "executions.within limits base pend (if capped limits then n else 0) (s\<lparr>ls_tool_calls := sat_add (ls_tool_calls s) n\<rparr>)"
proof (cases "capped limits")
  case True
  then have "sat_add (ls_tool_calls s) n = ls_tool_calls s + n"
    using assms(2) by (auto simp: capped_def over_limit_def sat_add_def min_def split: option.splits if_splits)
  then show ?thesis using assms True by (auto simp: executions_unfold tools_allowed_def tools_counted_def)
next
  case False
  then have "count_actions (capped_execution limits) tr = 0" for tr by (simp add: count_actions_def capped_execution_def)
  then show ?thesis using assms False by (auto simp: executions_unfold tools_counted_def)
qed

text \<open>A decided batch is put together call by call.\<close>

lemma joined:
  assumes "triple P c (\<lambda>(a, d). R a) E" "\<And>a. triple (R a) r (\<lambda>(a', d'). S (a @ a')) E"
  shows "triple P (mbind c (\<lambda>(a, d). mbind r (\<lambda>(a', d'). mret (a @ a', d @ d')))) (\<lambda>(a, d). S a) E"
proof (rule triple_bind [OF assms(1)])
  show "triple (case x of (a, d) \<Rightarrow> R a) (case x of (a, d) \<Rightarrow> mbind r (\<lambda>(a', d'). mret (a @ a', d @ d'))) (\<lambda>(a, d). S a) E" for x
    by (cases x) (auto intro!: triple_bind [OF assms(2)] triple_ret)
qed

lemma triple_fact: "(b \<Longrightarrow> triple (\<lambda>_. True) m Q E) \<Longrightarrow> triple (\<lambda>_. b) m Q E"
  by (auto simp: triple_def)

text \<open>No more calls are approved than were made.\<close>

lemma decide_fewer: "triple P (decide_calls env blocked cs) (\<lambda>(a, d) _. length a \<le> length cs) (\<lambda>_ _. True)"
proof (induction cs arbitrary: P)
  case (Cons c cs)
  have rest: "triple (\<lambda>_. length a \<le> 1) (decide_calls env blocked cs) (\<lambda>(a', d') _. length (a @ a') \<le> length (c # cs)) (\<lambda>_ _. True)"
    for a :: "PreparedToolCall list"
    by (rule triple_fact, rule triple_weaken [OF Cons.IH]) auto
  show ?case unfolding decide_calls.simps Let_def
    by (rule joined [OF _ rest], intro triple_case_option triple_if triple_bind [OF triple_true] triple_ret) (auto split: if_splits)
qed (auto intro: triple_ret)

lemma resume_fewer: "triple P (resume_decisions env blocked xs) (\<lambda>(a, d) _. length a \<le> length xs) (\<lambda>_ _. True)"
proof (induction xs arbitrary: P)
  case (Cons x xs)
  obtain c p where x: "x = (c, p)" by fastforce
  have rest: "triple (\<lambda>_. length a \<le> 1) (resume_decisions env blocked xs) (\<lambda>(a', d') _. length (a @ a') \<le> length ((c, p) # xs)) (\<lambda>_ _. True)"
    for a :: "PreparedToolCall list"
    by (rule triple_fact, rule triple_weaken [OF Cons.IH]) auto
  show ?case unfolding x resume_decisions.simps
    by (rule joined [OF _ rest], intro triple_case_option triple_if triple_bind [OF triple_true] triple_ret) (auto split: if_splits)
qed (auto intro: triple_ret)

interpretation executions_loop: loop_ledger env limits regs pend "executions_inv limits base pend" "\<lambda>a. \<not> capped_execution limits a"
  for env limits regs pend base
proof (rule loop_ledger.intro)
  let ?I = "executions_inv limits base pend"
  have spare: "triple (?I m) c (\<lambda>_. ?I m) (\<lambda>_. ?I Idle)" if "stable_assertion.steady (?I m) c" for m c
    using executions.spare [OF that] by (rule triple_weaken) (auto elim: executions.within_less)
  have fewer: "?I (Reserved n) s \<Longrightarrow> length a \<le> n \<Longrightarrow> ?I (Cleared a) s" for n s and a :: "PreparedToolCall list"
    by (auto elim!: executions.within_less)
  show "machine_free (?I m) (\<lambda>a. \<not> capped_execution limits a)" for m by (rule executions.machine_free_axioms)
  show "?I m s \<Longrightarrow> ?I Idle s" for m s by (auto elim: executions.within_less)
  show "triple (?I Calling) (generate_with_recovery env rq i limits rs) (\<lambda>_. ?I Idle) (\<lambda>_. ?I Idle)" for rq i rs
    using spare [OF executions.steady_generate_loop, of Calling] by (simp add: generate_with_recovery_def capped_execution_def)
  show "?I Calling (s\<lparr>ls_model_calls := ls_model_calls s + 1\<rparr>)" if "?I Idle s" for s
    using that by (auto elim: tools_untouched [rotated 3])
  show "?I Idle (s\<lparr>ls_tool_round := n\<rparr>)" if "?I Idle s" for s n
    using that by (auto elim: tools_untouched [rotated 3])
  show "?I (Reserved n) (s\<lparr>ls_tool_calls := sat_add (ls_tool_calls s) n\<rparr>)"
    if "?I Idle s" "over_limit (max_tool_calls limits) (sat_add (ls_tool_calls s) n) = None" for s n
    using that next_batch [of limits base pend s n] by simp
  show "set (ls_resumable s) \<subseteq> set pend" if "?I Idle s" for s
    using that by (simp add: executions_unfold tools_counted_def)
  show "?I m (s\<lparr>ls_resumable := []\<rparr>)" if "?I m s" for m s
    using that by (auto elim: tools_untouched [rotated 3])
  show "?I m (s\<lparr>ls_natural_stop := False\<rparr>)" if "?I m s" for m s
    using that by (auto elim: tools_untouched [rotated 3])
  show "triple (?I (Reserved (length cs))) (decide_calls env blocked cs) (\<lambda>(a, d). ?I (Cleared a)) (\<lambda>_. ?I Idle)" for cs blocked
    by (rule triple_weaken [OF triple_conj [OF spare [OF executions.steady_decide] decide_fewer]])
      (auto simp: capped_execution_def simp del: tools_slack.simps intro: fewer)
  show "triple (?I (Reserved (length xs))) (resume_decisions env blocked xs) (\<lambda>(a, d). ?I (Cleared a)) (\<lambda>_. ?I Idle)" for xs blocked
    by (rule triple_weaken [OF triple_conj [OF spare [OF executions.steady_resume] resume_fewer]]) (auto simp del: tools_slack.simps intro: fewer)
  show "triple (?I (Cleared cs)) (execute_tool_batch env regs cs) (\<lambda>_. ?I Idle) (\<lambda>_. ?I Idle)" for cs
  proof (cases "capped limits")
    case True
    then show ?thesis using executions.batch_spends [of limits base pend cs env regs] by (simp add: capped_execution_def)
  next
    case False
    then show ?thesis using spare [OF executions.steady_batch, of "Cleared cs"] by (simp add: capped_execution_def)
  qed
qed

end
