(* ===== verification/Loop_Consent.thy ===== *)
theory Loop_Consent
  imports Loop_Limits
begin

text \<open>
  No tool runs without consent: an execution is of a tool registered as automatic, or the permission resolver has allowed
  this very call, or the user's decision was persisted before the run was resumed.  The event that announces the call
  precedes it, and the schema of the tool accepts the arguments.
\<close>

definition automatic_tool :: "LoopToolRegistration list \<Rightarrow> ToolInvocation \<Rightarrow> bool" where
  "automatic_tool regs call \<longleftrightarrow>
     (\<exists>g \<in> set regs. sp_id (lr_spec g) = iv_tool_id call \<and> sp_name (lr_spec g) = iv_tool_name call \<and> sp_risk (lr_spec g) = Automatic)"

definition allows :: "ToolInvocation \<Rightarrow> action \<Rightarrow> bool" where
  "allows call a \<longleftrightarrow> (case a of AtDecide rq d \<Rightarrow> d \<noteq> Deny \<and> lp_tool_call_id rq = iv_tool_call_id call \<and> lp_tool_id rq = iv_tool_id call
     \<and> lp_tool_name rq = iv_tool_name call \<and> lp_arguments rq = iv_arguments call | _ \<Rightarrow> False)"

definition persisted_consent :: "ResumableToolCall list \<Rightarrow> ToolInvocation \<Rightarrow> bool" where
  "persisted_consent pend call \<longleftrightarrow>
     (\<exists>p \<in> set pend. rm_tool_call_id p = iv_tool_call_id call \<and> rm_decision p \<noteq> None \<and> rm_decision p \<noteq> Some Deny)"

definition consent :: "LoopToolRegistration list \<Rightarrow> ResumableToolCall list \<Rightarrow> action list \<Rightarrow> ToolInvocation \<Rightarrow> bool" where
  "consent regs pend before call \<longleftrightarrow> automatic_tool regs call \<or> list_ex (allows call) before \<or> persisted_consent pend call"

definition announced :: "action list \<Rightarrow> uuid \<Rightarrow> bool" where
  "announced before i \<longleftrightarrow> AtRecord (ToolStarted i) \<in> set before"

fun fair_step :: "LoopToolRegistration list \<Rightarrow> ResumableToolCall list \<Rightarrow> action list \<Rightarrow> action \<Rightarrow> bool" where
  "fair_step regs pend before (AtExecute call) =
     (consent regs pend before call \<and> announced before (iv_tool_call_id call) \<and> fits regs (iv_tool_id call) (iv_arguments call))"
| "fair_step regs pend before _ = True"

definition consented :: "LoopToolRegistration list \<Rightarrow> ResumableToolCall list \<Rightarrow> action list \<Rightarrow> bool" where
  "consented regs pend tr \<longleftrightarrow> (\<forall>i < length tr. fair_step regs pend (take i tr) (tr ! i))"

lemma consented_simps [simp]:
  "consented regs pend []"
  "consented regs pend (tr @ [a]) \<longleftrightarrow> consented regs pend tr \<and> fair_step regs pend tr a"
  by (simp_all add: consented_def All_less_Suc nth_append conj_commute cong: conj_cong)

definition consent_inv :: "LoopToolRegistration list \<Rightarrow> ResumableToolCall list \<Rightarrow> PreparedToolCall list \<Rightarrow> PreparedToolCall list
     \<Rightarrow> 'w loop_state \<Rightarrow> bool" where
  "consent_inv regs pend cleared started s \<longleftrightarrow> consented regs pend (ls_trace s) \<and> set (ls_resumable s) \<subseteq> set pend
     \<and> list_all (\<lambda>c. consent regs pend (ls_trace s) (invocation_of c) \<and> fits regs (pt_tool_id c) (pt_arguments c)) cleared
     \<and> list_all (\<lambda>c. announced (ls_trace s) (pt_tool_call_id c)) started"

definition harmless :: "action \<Rightarrow> bool" where
  "harmless a \<longleftrightarrow> \<not> is_execute a"

lemma consent_more: "consent regs pend tr call \<Longrightarrow> consent regs pend (tr @ [a]) call"
  by (auto simp: consent_def)

lemma announced_more: "announced tr i \<Longrightarrow> announced (tr @ [a]) i"
  by (simp add: announced_def)

lemma harmless_fair: "harmless a \<Longrightarrow> fair_step regs pend tr a"
  by (cases a) (simp_all add: harmless_def)

lemma consent_noted: "consent_inv regs pend xs ys s \<Longrightarrow> fair_step regs pend (ls_trace s) a \<Longrightarrow> consent_inv regs pend xs ys (noted a s)"
  by (auto simp: consent_inv_def list_all_iff intro: consent_more announced_more)

lemma consent_inv_less:
  "consent_inv regs pend xs ys s \<Longrightarrow> set xs' \<subseteq> set xs \<Longrightarrow> set ys' \<subseteq> set ys \<Longrightarrow> consent_inv regs pend xs' ys' s"
  by (auto simp: consent_inv_def list_all_iff)

interpretation consents: machine_free env "consent_inv regs pend xs ys" harmless for env regs pend xs ys
proof unfold_locales
  show "consent_inv regs pend xs ys (noted a s)" if "harmless a" "consent_inv regs pend xs ys s" for a s
    using consent_noted [OF that(2) harmless_fair [OF that(1)]] .
qed (auto simp: consent_inv_def same_core_def harmless_def)

abbreviation steady_consent :: "LoopToolRegistration list \<Rightarrow> ResumableToolCall list \<Rightarrow> PreparedToolCall list \<Rightarrow> PreparedToolCall list
     \<Rightarrow> ('w, 'a) loop_m \<Rightarrow> bool" where
  "steady_consent regs pend xs ys c \<equiv> triple (consent_inv regs pend xs ys) c (\<lambda>_. consent_inv regs pend xs ys) (\<lambda>_. consent_inv regs pend [] [])"

lemma kept_consent: "stable_assertion.steady (consent_inv regs pend xs ys) c \<Longrightarrow> steady_consent regs pend xs ys c"
  unfolding consents.steady_def by (erule triple_weaken) (auto elim: consent_inv_less)

section \<open>Decisions\<close>

lemma automatic_consent:
  assumes "genuine regs c" "pt_risk c = Automatic" "consent_inv regs pend xs [] s"
  shows "consent_inv regs pend (xs @ [c]) [] s"
  using assms by (auto simp: consent_inv_def consent_def genuine_def identified_def automatic_tool_def invocation_of_def)

lemma decision_consent:
  assumes "consent_inv regs pend xs [] s" "lp_tool_call_id rq = pt_tool_call_id c" "lp_tool_id rq = pt_tool_id c"
    "lp_tool_name rq = pt_tool_name c" "lp_arguments rq = pt_arguments c" "genuine regs c"
  shows "consent_inv regs pend (xs @ (if d = Deny then [] else [c])) [] (noted (AtDecide rq d) s)"
  using consent_noted [OF assms(1), of "AtDecide rq d"] assms(2-)
  by (auto simp: consent_inv_def consent_def allows_def invocation_of_def genuine_def)

lemma persisted_decision_consent:
  assumes "consent_inv regs pend xs [] s" "continues pend (c, p)" "rm_decision p = Some d" "genuine regs c"
  shows "consent_inv regs pend (xs @ (if d = Deny then [] else [c])) [] s"
  using assms by (auto simp: consent_inv_def consent_def persisted_consent_def continues_def invocation_of_def genuine_def)

lemma consent_ret: "consent_inv regs pend (xs @ fst r) [] = Q \<Longrightarrow> triple Q (mret r) (\<lambda>(a, d). consent_inv regs pend (xs @ a) []) E"
  by (rule triple_ret) (auto simp: case_prod_unfold)

lemma decide_consents:
  assumes "list_all (genuine regs) cs"
  shows "triple (consent_inv regs pend xs []) (decide_calls env blocked cs) (\<lambda>(a, d). consent_inv regs pend (xs @ a) [])
    (\<lambda>_. consent_inv regs pend [] [])"
  using assms
proof (induction cs arbitrary: xs)
  case (Cons c cs)
  let ?I = "\<lambda>a. consent_inv regs pend (xs @ a) []" and ?E = "\<lambda>_ :: AgentLoopError option. consent_inv regs pend [] []"
  have auto: "triple (consent_inv regs pend xs []) (mret ([c], [])) (\<lambda>(a, d). ?I a) ?E" if "pt_risk c = Automatic"
    by (rule triple_ret) (use that Cons.prems automatic_consent in auto)
  have gc: "genuine regs c" using Cons.prems by simp
  have asked: "triple (consent_inv regs pend xs []) (mbind (mnote (AtDecide rq d)) (\<lambda>_. mbind (record_event env (PermissionResolved i d)) (\<lambda>_.
      mret (if d = Deny then ([], [(c, None)]) else ([c], []))))) (\<lambda>(a, d). ?I a) ?E"
    if "lp_tool_call_id rq = pt_tool_call_id c" "lp_tool_id rq = pt_tool_id c" "lp_tool_name rq = pt_tool_name c"
      "lp_arguments rq = pt_arguments c" for rq d i
  proof (rule triple_bind [OF triple_note [where Q = "\<lambda>_. ?I (if d = Deny then [] else [c])"]], rule decision_consent [OF _ that gc])
    show "triple (?I (if d = Deny then [] else [c])) (mbind (record_event env (PermissionResolved i d)) (\<lambda>_.
      mret (if d = Deny then ([], [(c, None)]) else ([c], [])))) (\<lambda>(a, d). ?I a) ?E"
      by (rule triple_bind [OF kept_consent [OF consents.steady_event]]) (auto intro!: triple_ret)
  qed
  show ?case unfolding decide_calls.simps Let_def
  proof (rule joined [where R = ?I], rule triple_case_option, rule triple_if, erule auto,
      rule triple_bind [OF kept_consent [OF consents.steady_call]], rule triple_bind [OF kept_consent [OF consents.steady_event]], simp,
      rule triple_bind [OF kept_consent [OF consents.steady_call]], rule asked)
    show "triple (?I a) (decide_calls env blocked cs) (\<lambda>(a', d'). ?I (a @ a')) ?E" for a
      using Cons.IH [of "xs @ a"] Cons.prems by simp
  qed (auto intro: triple_ret)
qed (auto intro: triple_ret)

lemma resume_consents:
  assumes "list_all (genuine regs) (map fst ps)" "list_all (continues pend) ps"
  shows "triple (consent_inv regs pend xs []) (resume_decisions env blocked ps) (\<lambda>(a, d). consent_inv regs pend (xs @ a) [])
    (\<lambda>_. consent_inv regs pend [] [])"
  using assms
proof (induction ps arbitrary: xs)
  case (Cons x ps)
  obtain c p where x: "x = (c, p)" by fastforce
  let ?I = "\<lambda>a. consent_inv regs pend (xs @ a) []" and ?E = "\<lambda>_ :: AgentLoopError option. consent_inv regs pend [] []"
  have auto: "triple (consent_inv regs pend xs []) (mret ([c], [])) (\<lambda>(a, d). ?I a) ?E" if "pt_risk c = Automatic"
    by (rule triple_ret) (use that Cons.prems x automatic_consent in auto)
  have known: "triple (consent_inv regs pend xs []) (mresult (ok_or e (rm_decision p))) (\<lambda>d. ?I (if d = Deny then [] else [c])) ?E" for e
  proof (rule triple_result)
    fix d s assume "ok_or e (rm_decision p) = Inr d" "consent_inv regs pend xs [] s"
    then show "?I (if d = Deny then [] else [c]) s"
      using Cons.prems x by (intro persisted_decision_consent [of _ _ _ _ _ p]) (simp_all add: ok_or_Inr)
  qed (auto elim: consent_inv_less)
  have rest: "triple (?I (if d = Deny then [] else [c])) (mbind (mresult r) (\<lambda>i. mbind (record_event env (PermissionResolved i d)) (\<lambda>_.
      mret (if d = Deny then ([], [(c, None)]) else ([c], []))))) (\<lambda>(a, d). ?I a) ?E" for d r
    by (rule triple_bind [OF kept_consent [OF consents.steady_result]], rule triple_bind [OF kept_consent [OF consents.steady_event]])
      (auto intro!: triple_ret)
  show ?case unfolding x resume_decisions.simps
  proof (rule joined [where R = ?I], rule triple_case_option, rule triple_if, erule auto, rule triple_bind [OF known], rule rest)
    show "triple (?I a) (resume_decisions env blocked ps) (\<lambda>(a', d'). ?I (a @ a')) ?E" for a
      using Cons.IH [of "xs @ a"] Cons.prems by simp
  qed (auto intro: triple_ret)
qed (auto intro: triple_ret)

section \<open>Execution\<close>

lemma start_consents:
  "triple (consent_inv regs pend xs ys) (mfor (start_tool env) cs) (\<lambda>_. consent_inv regs pend xs (ys @ cs)) (\<lambda>_. consent_inv regs pend [] [])"
proof (induction cs arbitrary: ys)
  case (Cons c cs)
  have one: "triple (consent_inv regs pend xs ys) (start_tool env c) (\<lambda>_. consent_inv regs pend xs (ys @ [c])) (\<lambda>_. consent_inv regs pend [] [])"
    unfolding start_tool_def record_event_def sink_record_def
  proof (rule triple_bind [OF triple_bind [OF triple_note [where Q = "\<lambda>_. consent_inv regs pend xs (ys @ [c])"]]])
    show "consent_inv regs pend xs (ys @ [c]) (noted (AtRecord (ToolStarted (pt_tool_call_id c))) s)" if "consent_inv regs pend xs ys s" for s
      using consent_noted [OF that, of "AtRecord (ToolStarted (pt_tool_call_id c))"] by (simp add: consent_inv_def announced_def)
  qed (rule kept_consent, rule consents.steady_core)+
  show ?case unfolding mfor.simps
    using Cons.IH [of "ys @ [c]"] by (auto intro!: triple_bind [OF one] triple_bind triple_ret)
qed (auto intro: triple_ret)

lemma execute_consents:
  assumes "c \<in> set xs" "c \<in> set ys"
  shows "steady_consent regs pend xs ys (execute_tool env rs c)"
  unfolding execute_tool_def
proof (rule triple_case_option, rule kept_consent [OF consents.steady_ret],
    rule triple_bind [OF triple_note [where Q = "\<lambda>_. consent_inv regs pend xs ys"]])
  show "consent_inv regs pend xs ys (noted (AtExecute (invocation_of c)) s)" if "consent_inv regs pend xs ys s" for s
    by (rule consent_noted [OF that]) (use that assms in \<open>auto simp: consent_inv_def list_all_iff invocation_of_def\<close>)
  show "steady_consent regs pend xs ys (mbind (mcall op) (\<lambda>e. mret (h e)))" for op h
    by (rule kept_consent) (intro consents.steady_core)
qed

lemma execute_all_consents:
  "set cs \<subseteq> set xs \<Longrightarrow> set cs \<subseteq> set ys \<Longrightarrow> steady_consent regs pend xs ys (mfor (execute_tool env rs) cs)"
proof (induction cs)
  case (Cons c cs)
  then have "steady_consent regs pend xs ys (execute_tool env rs c)" "steady_consent regs pend xs ys (mfor (execute_tool env rs) cs)"
    by (auto intro!: execute_consents)
  then show ?case unfolding mfor.simps by (intro triple_bind [rotated] triple_ret)
qed (simp add: triple_ret)

lemma batch_consents:
  "triple (consent_inv regs pend cs []) (execute_tool_batch env rs cs) (\<lambda>_. consent_inv regs pend [] []) (\<lambda>_. consent_inv regs pend [] [])"
proof (induction cs rule: length_induct)
  case (1 cs)
  have fin: "triple (consent_inv regs pend xs ys) (mret x) (\<lambda>_. consent_inv regs pend [] []) (\<lambda>_. consent_inv regs pend [] [])"
    for xs ys and x :: "chat_message list"
    by (rule triple_ret) (erule consent_inv_less; simp)
  show ?case
  proof (cases cs)
    case (Cons c ds)
    let ?block = "if parallel c then c # takeWhile parallel ds else [c]" and ?rest = "if parallel c then dropWhile parallel ds else ds"
    have block: "set ?block \<subseteq> set cs" "set ?rest \<subseteq> set cs"
      using set_takeWhileD [of _ parallel ds] set_dropWhileD [of _ parallel ds] by (auto simp: Cons)
    have r: "triple (consent_inv regs pend ?rest []) (execute_tool_batch env rs ?rest) (\<lambda>_. consent_inv regs pend [] []) (\<lambda>_. consent_inv regs pend [] [])"
      using 1 Cons length_dropWhile_le [of parallel ds] by (auto simp: less_Suc_eq_le)
    have r': "triple (consent_inv regs pend cs ?block) (execute_tool_batch env rs ?rest) (\<lambda>_. consent_inv regs pend [] []) (\<lambda>_. consent_inv regs pend [] [])"
      by (rule triple_conseq [OF r], erule consent_inv_less) (use block in simp_all)
    have settle: "steady_consent regs pend cs ?block (mfor (settle env) zs)" for zs
      by (rule kept_consent) (intro consents.steady_core consents.steady_settle)
    have head: "triple (consent_inv regs pend cs []) (mbind (mfor (start_tool env) ?block) (\<lambda>_. mbind (mfor (execute_tool env rs) ?block) (\<lambda>results.
        mbind (mfor (settle env) (zip ?block results)) (\<lambda>observations. mbind (execute_tool_batch env rs ?rest) (\<lambda>more. mret (observations @ more))))))
        (\<lambda>_. consent_inv regs pend [] []) (\<lambda>_. consent_inv regs pend [] [])"
      by (rule triple_bind [OF start_consents], unfold append_Nil, rule triple_bind [OF execute_all_consents [OF block(1) subset_refl]],
          rule triple_bind [OF settle], rule triple_bind [OF r' fin])
    show ?thesis unfolding Cons execute_tool_batch.simps Let_def unfolding Cons [symmetric]
      by (rule triple_bind [OF kept_consent [OF consents.steady_cancelled]], rule triple_if, rule fin, rule head)
  qed (simp add: execute_tool_batch.simps triple_ret)
qed

fun cleared :: "mode \<Rightarrow> PreparedToolCall list" where
  "cleared (Cleared cs) = cs"
| "cleared _ = []"

interpretation consent_loop: loop_ledger env limits regs pend "\<lambda>m. consent_inv regs pend (cleared m) []" harmless for env limits regs pend
proof (rule loop_ledger.intro)
  let ?I = "\<lambda>m. consent_inv regs pend (cleared m) []"
  show "machine_free (?I m) harmless" for m by (rule consents.machine_free_axioms)
  show "?I m s \<Longrightarrow> ?I Idle s" for m s by (auto elim: consent_inv_less)
  show "triple (?I Calling) (generate_with_recovery env rq i limits rs) (\<lambda>_. ?I Idle) (\<lambda>_. ?I Idle)" for rq i rs
    unfolding generate_with_recovery_def cleared.simps
    by (rule kept_consent [OF consents.steady_generate_loop]) (simp add: harmless_def)
  show "triple (?I (Reserved (length cs))) (decide_calls env blocked cs) (\<lambda>(a, d). ?I (Cleared a)) (\<lambda>_. ?I Idle)"
    if "list_all (genuine regs) cs" for cs blocked
    using decide_consents [OF that, of pend "[]"] by simp
  show "triple (?I (Reserved (length xs))) (resume_decisions env blocked xs) (\<lambda>(a, d). ?I (Cleared a)) (\<lambda>_. ?I Idle)"
    if "list_all (genuine regs) (map fst xs)" "list_all (continues pend) xs" for xs blocked
    using resume_consents [OF that, of "[]"] by simp
  show "triple (?I (Cleared cs)) (execute_tool_batch env regs cs) (\<lambda>_. ?I Idle) (\<lambda>_. ?I Idle)" for cs
    using batch_consents by simp
qed (auto simp: consent_inv_def)

end
