(* ===== verification/Loop_Safety.thy ===== *)
theory Loop_Safety
  imports Loop_Contract
begin

text \<open>
  The state changes that a run of the agent loop reports to its event sink form a path of the run's state machine: an
  instance of \<open>loop_contract\<close>.
\<close>

section \<open>The reported state changes\<close>

fun change_of :: "action \<Rightarrow> run_state_changed option" where
  "change_of (AtTransition c) = Some c"
| "change_of (AtFinish c oc) = Some c"
| "change_of _ = None"

definition changes_of :: "action list \<Rightarrow> run_state_changed list" where
  "changes_of tr = List.map_filter change_of tr"

text \<open>Every change starts in the state the one before it reached and is a step of the machine.\<close>

inductive lawful :: "AgentRunState \<Rightarrow> run_state_changed list \<Rightarrow> AgentRunState \<Rightarrow> bool" where
  nil: "lawful p [] p"
| snoc: "lawful p cs q \<Longrightarrow> run_step q g r \<Longrightarrow> previous c = q \<Longrightarrow> current c = r \<Longrightarrow> lawful p (cs @ [c]) r"

lemma changes_of_simps [simp]:
  "changes_of [] = []" "changes_of (xs @ ys) = changes_of xs @ changes_of ys"
  "changes_of [a] = (case change_of a of None \<Rightarrow> [] | Some c \<Rightarrow> [c])"
  by (simp_all add: changes_of_def List.map_filter_def split: option.splits)

lemma run_transition_cases:
  "(\<exists>e. run_transition p t g = (Inl e, p)) \<or> (run_transition p t g = (Inr \<lparr>previous = p, current = t, reason = None\<rparr>, t) \<and> run_step p g t)"
  using run_transition_ok [of p t g] run_transition_err [of p t g] run_step_iff_allowed [of p g t] by (cases "run_allowed p t g") auto

abbreviation open_calls :: "ResumableToolCall list \<Rightarrow> 'w loop_state \<Rightarrow> bool" where
  "open_calls pend s \<equiv> set (ls_resumable s) \<subseteq> set pend"

definition path_inv :: "AgentRunState \<Rightarrow> ResumableToolCall list \<Rightarrow> 'w loop_state \<Rightarrow> bool" where
  "path_inv p pend s \<longleftrightarrow> lawful p (changes_of (ls_trace s)) (ls_machine s) \<and> open_calls pend s"

definition path_end :: "AgentRunState \<Rightarrow> 'w loop_state \<Rightarrow> bool" where
  "path_end p s \<longleftrightarrow> (\<exists>q. lawful p (changes_of (ls_trace s)) q)"

definition unmoved :: "action \<Rightarrow> bool" where
  "unmoved a \<longleftrightarrow> change_of a = None"

lemma path_stable: "stable_assertion (path_inv p pend) unmoved"
  by unfold_locales (auto simp: path_inv_def unmoved_def same_core_def)

lemma lawful_step: "lawful p cs q \<Longrightarrow> run_step q g t \<Longrightarrow> lawful p (cs @ [\<lparr>previous = q, current = t, reason = w\<rparr>]) t"
  by (rule lawful.snoc) simp_all

text \<open>Moving the machine and reporting the change.\<close>

lemma path_step:
  assumes tr: "run_transition q t g = (v, q')" and a: "\<And>c. change_of (a c) = Some c"
  shows "triple (\<lambda>s. path_inv p pend s \<and> ls_machine s = q)
    (mbind (mset_state (\<lambda>s. s\<lparr>ls_machine := q'\<rparr>)) (\<lambda>_. mbind (mresult (map_err f v)) (\<lambda>c. mbind (mnote (a c)) (\<lambda>_.
      mbind (mcall (op c)) (\<lambda>r. mresult (h r))))))
    (\<lambda>_. path_inv p pend) (\<lambda>_. path_inv p pend)"
proof -
  note st = stable_assertion.steady_def [OF path_stable]
  have call: "triple (path_inv p pend) (mbind (mcall (op c)) (\<lambda>r. mresult (h r))) (\<lambda>_. path_inv p pend) (\<lambda>_. path_inv p pend)" for c
    by (rule triple_bind [OF stable_assertion.steady_call [OF path_stable, unfolded st] stable_assertion.steady_result [OF path_stable, unfolded st]])
  consider e where "v = Inl e" "q' = q" | "v = Inr \<lparr>previous = q, current = t, reason = None\<rparr>" "q' = t" "run_step q g t"
    using run_transition_cases [of q t g] tr by auto
  then show ?thesis
  proof cases
    case 1
    have "triple (\<lambda>s. path_inv p pend s \<and> ls_machine s = q) (mset_state (\<lambda>s. s\<lparr>ls_machine := q\<rparr>)) (\<lambda>_. path_inv p pend) (\<lambda>_. path_inv p pend)"
      by (rule triple_set) (auto simp: path_inv_def)
    then show ?thesis unfolding 1 mresult_def
      by (rule triple_bind) (auto simp: triple_def mbind_def mthrow_def)
  next
    case 2
    let ?c = "\<lparr>previous = q, current = t, reason = None\<rparr>"
    let ?W = "\<lambda>s. lawful p (changes_of (ls_trace s)) q \<and> ls_machine s = t \<and> open_calls pend s"
    have w: "triple (\<lambda>s. path_inv p pend s \<and> ls_machine s = q) (mset_state (\<lambda>s. s\<lparr>ls_machine := t\<rparr>)) (\<lambda>_. ?W) (\<lambda>_. path_inv p pend)"
      by (rule triple_set) (auto simp: path_inv_def)
    have n: "triple (\<lambda>s. ?W s \<and> c = ?c) (mnote (a c)) (\<lambda>_. path_inv p pend) (\<lambda>_. path_inv p pend)" for c
      by (rule triple_note) (simp add: path_inv_def a lawful_step [OF _ 2(3)])
    have r: "triple ?W (mresult (map_err f v)) (\<lambda>c s. ?W s \<and> c = ?c) (\<lambda>_. path_inv p pend)"
      unfolding 2 by (rule triple_result) auto
    show ?thesis unfolding 2(2) by (rule triple_bind [OF w], rule triple_bind [OF r], rule triple_bind [OF n], rule call)
  qed
qed

lemma path_change: "triple (path_inv p pend) (change_state_with_guards env t g) (\<lambda>_. path_inv p pend) (\<lambda>_. path_inv p pend)"
  unfolding change_state_with_guards_def
  by (rule triple_bind [OF triple_get [where Q = "\<lambda>q s. path_inv p pend s \<and> ls_machine s = q"]], simp, rule triple_case_prod, rule path_step)
    simp_all

lemma path_finish: "triple (path_inv p pend) (finish env t oc i) (\<lambda>_. path_inv p pend) (\<lambda>_. path_inv p pend)"
  unfolding finish_def sink_finish_def
  by (rule triple_bind [OF triple_get [where Q = "\<lambda>q s. path_inv p pend s \<and> ls_machine s = q"]], simp, rule triple_case_prod, rule path_step)
    simp_all

lemma path_end_stable: "stable_assertion (path_end p) unmoved"
  by unfold_locales (auto simp: path_end_def unmoved_def same_core_def)

lemma path_fail:
  fixes env :: "'w loop_env"
  shows "triple (path_inv p pend) (fail_here env i e) (\<lambda>_ _. False) (\<lambda>_. path_end p)"
proof -
  let ?P = "\<lambda>q (s :: 'w loop_state). lawful p (changes_of (ls_trace s)) q"
  have st: "stable_assertion (?P q) unmoved" for q :: AgentRunState
    by unfold_locales (auto simp: unmoved_def same_core_def)
  note P_steady = stable_assertion.steady_def [OF st] and E_steady = stable_assertion.steady_def [OF path_end_stable]
  have weak: "?P q s \<Longrightarrow> path_end p s" for q s by (auto simp: path_end_def)
  have g: "triple (path_inv p pend) (mget ls_machine) ?P (\<lambda>_. path_end p)" by (rule triple_get) (simp add: path_inv_def)
  have r: "triple (?P q) (record_event env (ErrorRaised (to_agent_error e) True)) (\<lambda>_. ?P q) (\<lambda>_. path_end p)" for q
    using stable_assertion.steady_event [OF st, of "ErrorRaised (to_agent_error e) True"] unfolding P_steady
    by (rule triple_weaken) (auto intro: weak)
  have t: "triple (?P q) (mresult (map_err f (fst (run_transition q AgentRunState.Failed idle_guards))))
      (\<lambda>c s. ?P q s \<and> previous c = q \<and> run_step q idle_guards (current c)) (\<lambda>_. path_end p)" for q f
    using run_transition_cases [of q AgentRunState.Failed idle_guards] by (intro triple_result) (auto intro: weak)
  have n: "triple (\<lambda>s. ?P q s \<and> previous c = q \<and> run_step q idle_guards (current c)) (mnote (AtFinish c oc)) (\<lambda>_. path_end p) (\<lambda>_. path_end p)"
    for q c oc
    by (rule triple_note) (auto simp: path_end_def intro: lawful.snoc)
  have c: "triple (path_end p) (mcall op) (\<lambda>_. path_end p) (\<lambda>_. path_end p)" for op :: "'w \<Rightarrow> (rstr, unit) result \<times> 'w"
    using stable_assertion.steady_call [OF path_end_stable] unfolding E_steady .
  have z: "triple (path_end p) (mresult x) (\<lambda>_. path_end p) (\<lambda>_. path_end p)" for x :: "(AgentLoopError, unit) result"
    using stable_assertion.steady_result [OF path_end_stable] unfolding E_steady .
  have f: "triple (\<lambda>s. ?P q s \<and> previous c = q \<and> run_step q idle_guards (current c)) (sink_finish env c OutcomeFailed i)
      (\<lambda>_. path_end p) (\<lambda>_. path_end p)" for q c
    unfolding sink_finish_def by (rule triple_bind [OF n], rule triple_bind [OF c z])
  show ?thesis unfolding fail_here_def fail_def
    by (rule triple_bind [OF g], rule triple_bind [OF r], rule triple_bind [OF t], rule triple_bind [OF f], rule triple_throw)
qed

text \<open>An assertion without modes is shown for the two halves of a decided batch alike.\<close>

lemma triple_pair: "triple P c (\<lambda>_. Q) E \<Longrightarrow> triple P c (\<lambda>(a, d). Q) E"
  by (simp add: case_prod_unfold)

interpretation path: loop_contract env limits regs pend "\<lambda>_. path_inv p pend" "path_end p" for env limits regs pend p
proof -
  note st = stable_assertion.steady_def [OF path_stable]
  have "triple (path_inv p pend) (generate_with_recovery env rq i limits rs) (\<lambda>_. path_inv p pend) (\<lambda>_. path_inv p pend)" for rq i rs
    using stable_assertion.steady_generate_loop [OF path_stable] unfolding generate_with_recovery_def st by (simp add: unmoved_def)
  moreover have "triple (path_inv p pend) (decide_calls env blocked cs) (\<lambda>(a, d). path_inv p pend) (\<lambda>_. path_inv p pend)" for blocked cs
    using stable_assertion.steady_decide [OF path_stable] unfolding st by (intro triple_pair) (simp add: unmoved_def)
  moreover have "triple (path_inv p pend) (resume_decisions env blocked xs) (\<lambda>(a, d). path_inv p pend) (\<lambda>_. path_inv p pend)" for blocked xs
    using stable_assertion.steady_resume [OF path_stable] unfolding st by (intro triple_pair) blast
  moreover have "triple (path_inv p pend) (execute_tool_batch env regs cs) (\<lambda>_. path_inv p pend) (\<lambda>_. path_inv p pend)" for cs
    using stable_assertion.steady_batch [OF path_stable] unfolding st by (simp add: unmoved_def)
  ultimately show "loop_contract env limits regs pend (\<lambda>_. path_inv p pend) (path_end p)"
    by unfold_locales (auto simp: path_inv_def path_end_def same_core_def path_change path_finish path_fail elim: triple_weaken)
qed

end
