(* ===== verification/Loop_Example.thy ===== *)
theory Loop_Example
  imports Agent_Loop Run_State
begin

text \<open>
  A concrete run: an environment whose model replies from a script and whose other operations succeed, a request with one
  item, and the evaluation of the run that answers it.
\<close>

abbreviation noted_in :: "action \<Rightarrow> 'w loop_state \<Rightarrow> 'w loop_state" where
  "noted_in a s \<equiv> s\<lparr>ls_trace := ls_trace s @ [a]\<rparr>"

definition demo_env :: "(ChatEvent list \<times> generation_end) list loop_env" where
  "demo_env = \<lparr>le_capabilities = \<lparr>pc_model_id = str ''m'', pc_capabilities = [Chat], pc_context_window = None, pc_tool_calls = True\<rparr>,
     le_registrations = [], le_from_str = (\<lambda>_. Inl []), le_to_string = (\<lambda>_. Inr (str ''{}'')), le_to_vec = (\<lambda>_. Inr []),
     le_display = (\<lambda>_. str ''{}''), le_file_name = (\<lambda>_. None), le_base64 = (\<lambda>_. None), le_utf8 = (\<lambda>_. None),
     le_background_tasks = (\<lambda>w. (Inr [], w)), le_record = (\<lambda>_ w. (Inr (), w)), le_transition = (\<lambda>_ w. (Inr (), w)),
     le_finish = (\<lambda>_ _ _ w. (Inr (), w)), le_checkpoint = (\<lambda>_ w. (Inr (), w)),
     le_generate = (\<lambda>_ w. case w of [] \<Rightarrow> (([], GenTimedOut), []) | g # gs \<Rightarrow> (g, gs)),
     le_execute = (\<lambda>_ w. (ToolTimedOut, w)), le_decide = (\<lambda>_ w. (Deny, w)), le_before_model = (\<lambda>w. (None, w)),
     le_after_tool_round = (\<lambda>_ w. ((), w)), le_pre_tool_use = (\<lambda>_ w. (Inr Continue, w)), le_post_tool_use = (\<lambda>_ _ w. (Inr Continue, w)),
     le_artifact_store = (\<lambda>w. (None, w)), le_take_input = (\<lambda>_ w. (Inr [], w)), le_new_uuid = (\<lambda>w. (str ''u'', w)),
     le_cancelled = (\<lambda>w. (False, w)), le_now = (\<lambda>w. (0, w)), le_wakeups = (\<lambda>_ w. (0, w))\<rparr>"



definition demo_item :: ContextItem where
  "demo_item = \<lparr>ci_id = str ''r'', ci_source = CurrentRequest, ci_content = str ''why''\<rparr>"

definition demo_limits :: AgentLoopLimits where
  "demo_limits = AgentLoopLimits_default\<lparr>max_model_calls := Some 2, max_tool_calls := Some 3, context_budget := Some 100, save_checkpoints := False\<rparr>"

definition demo_request :: AgentLoopRequest where
  "demo_request = \<lparr>rq_assistant_message_id = str ''a'', rq_context = [ContextEntry_new demo_item],
     rq_output_reservation = 0, rq_reasoning_reservation = 0, rq_evidence = None, rq_attachments = [],
     rq_limits = demo_limits, rq_resume = None\<rparr>"

definition demo_report :: ContextReport where
  "demo_report = \<lparr>rp_model_limit = 100, rp_input_limit = 100, rp_output_reservation = 0, rp_reasoning_reservation = 0, rp_completion_reservation = 0,
     rp_estimated_included_tokens = 1, rp_included_ids = [str ''r''], rp_omitted_ids = [], rp_included_items = [demo_item],
     rp_item_token_estimates = [\<lparr>tr_id = str ''r'', tr_original_tokens = 1, tr_included_tokens = 1\<rparr>], rp_truncations = []\<rparr>"

lemma why_tokens: "estimate_tokens (str ''why'') = 1" "trim (str ''why'') \<noteq> []"
  by (simp_all add: estimate_tokens_def next_token_cost_def ascii_defs ASCII_CHARS_PER_TOKEN_def sat_add_def usize_max_def
  len_utf8_def str_def trim_def trim_start_def trim_end_def is_whitespace_def cong: prod.case_cong_weak)

lemma demo_context: "budget_context [demo_item] (Some 100) 0 0 = Inr demo_report"
proof -
  have s: "selection_order [demo_item] = [0]" by (simp add: selection_order_def demo_item_def upt_rec sort_by_def)
  have r: "required_tokens [demo_item] = 1" by (simp add: required_tokens_def demo_item_def is_required_def why_tokens sat_add_def usize_max_def)
  have f: "filter (\<lambda>x. ci_source x = CurrentRequest) [demo_item] = [demo_item]" by (simp add: demo_item_def)
  have v: "validate_items [] [demo_item] = Inr ()" by (simp add: demo_item_def)
  have b: "budget_step 100 [demo_item] s 0 = include_item demo_item 1 0 s" for s
    by (simp add: budget_step_def demo_item_def is_required_def why_tokens Let_def)
  have c: "ci_content demo_item = str ''why''" "ci_id demo_item = str ''r''" by (simp_all add: demo_item_def)
  have z: "sat_add 0 0 = 0" "sat_add 0 1 = 1" by (simp_all add: sat_add_def usize_max_def)
  show ?thesis unfolding budget_context_def f v s r
    by (simp add: why_tokens b c z demo_report_def include_item_def budget_init_def upt_rec [of 0] Let_def del: One_nat_def)
qed

lemma demo_messages: "render_context_messages d u demo_report [ContextEntry_new demo_item] [] = [ChatMessage_new (str ''user'') (str ''why'')]"
  by (simp add: render_context_messages_def demo_report_def ContextEntry_new_def demo_item_def List.map_filter_def recent_rank_def
     request_message_def sort_by_def)

lemma demo_history: "budget_chat_messages [ChatMessage_new (str ''user'') (str ''why'')] (Some 100) 0 0 None = Inr [ChatMessage_new (str ''user'') (str ''why'')]"
proof -
  have "estimate_tokens (str ''userwhy'') = 3"
    by (simp add: estimate_tokens_def next_token_cost_def ascii_defs ASCII_CHARS_PER_TOKEN_def sat_add_def usize_max_def
        str_def cong: prod.case_cong_weak)
  then have "chat_tokens [ChatMessage_new (str ''user'') (str ''why'')] = 19"
    by (simp add: estimate_chat_message_tokens_def ChatMessage_new_def message_suffix_def role_system_def
        sat_add_def sat_mul_def usize_max_def flip: str_append)
  then show ?thesis by (simp add: budget_chat_messages_def sat_add_def usize_max_def Let_def)
qed


lemmas run_eval = mbind_def mret_def mthrow_def mget_def mset_state_def mcall_def mnote_def mresult_def mtry_def

lemma demo_env_simps [simp]:
  "le_capabilities demo_env = \<lparr>pc_model_id = str ''m'', pc_capabilities = [Chat], pc_context_window = None, pc_tool_calls = True\<rparr>"
  "le_registrations demo_env = []"
  "le_background_tasks demo_env w = (Inr [], w)" "le_record demo_env ev w = (Inr (), w)" "le_transition demo_env c w = (Inr (), w)"
  "le_finish demo_env c oc i w = (Inr (), w)" "le_checkpoint demo_env k w = (Inr (), w)"
  "le_generate demo_env rq w = (case w of [] \<Rightarrow> (([], GenTimedOut), []) | g # gs \<Rightarrow> (g, gs))"
  "le_before_model demo_env w = (None, w)" "le_take_input demo_env kind w = (Inr [], w)"
  "le_cancelled demo_env w = (False, w)" "le_now demo_env w = (0, w)"
  by (simp_all add: demo_env_def)

definition demo_reply :: "(ChatEvent list \<times> generation_end) list" where
  "demo_reply = [([TextDelta (str ''ok'')], GenReturned (Inr (ChatResponse_default\<lparr>rp_text := str ''ok''\<rparr>)))]"

lemma demo_request_simps [simp]: 
  "rq_assistant_message_id demo_request = str ''a''" "rq_context demo_request = [ContextEntry_new demo_item]"
  "rq_output_reservation demo_request = 0" "rq_reasoning_reservation demo_request = 0" "rq_evidence demo_request = None" "rq_attachments demo_request = []"
  "rq_limits demo_request = demo_limits" "rq_resume demo_request = None" "ce_item (ContextEntry_new demo_item) = demo_item"
  "max_model_calls demo_limits = Some 2" "max_network_retries demo_limits = max_network_retries AgentLoopLimits_default" "context_budget demo_limits = Some 100" "save_checkpoints demo_limits = False" "stream_output demo_limits = True"
  "deadline_ms demo_limits = None" "AgentLoopLimits_validate demo_limits = Inr ()"
  by (simp_all add: demo_request_def demo_limits_def AgentLoopLimits_default_def AgentLoopLimits_validate_def ContextEntry_new_def)

lemma demo_window: "effective_context_window (Some 100) None = Some 100"
  by (simp add: effective_context_window_def)

lemmas sink_eval = sink_record_def record_event_def deadline_exceeded_def is_cancelled_def change_state_with_guards_def change_state_def sink_finish_def
  finish_def run_transition_def


lemma demo_ops:
  "record_event demo_env ev s = (Done (), noted_in (AtRecord ev) s)"
  "is_cancelled demo_env s = (case ls_deadline s of None \<Rightarrow> (Done False, s) | Some t \<Rightarrow> (Done (t \<le> 0), s))"
  by (simp_all add: record_event_def sink_record_def is_cancelled_def deadline_exceeded_def run_eval split: option.split)

lemma demo_change:
  "run_transition (ls_machine s) t g = (Inr c, q) \<Longrightarrow> change_state_with_guards demo_env t g s = (Done (), s\<lparr>ls_machine := q, ls_trace := ls_trace s @ [AtTransition c]\<rparr>)"
  "run_transition (ls_machine s) t idle_guards = (Inr c, q) \<Longrightarrow> change_state demo_env t s = (Done (), s\<lparr>ls_machine := q, ls_trace := ls_trace s @ [AtTransition c]\<rparr>)"
  "run_transition (ls_machine s) t idle_guards = (Inr c, q) \<Longrightarrow> finish demo_env t oc i s = (Done (), s\<lparr>ls_machine := q, ls_trace := ls_trace s @ [AtFinish c oc]\<rparr>)"
  by (simp_all add: change_state_with_guards_def change_state_def finish_def sink_finish_def run_eval)

lemma demo_edges:
  "run_transition Created Preparing idle_guards = (Inr \<lparr>previous = Created, current = Preparing, reason = None\<rparr>, Preparing)"
  "run_transition Preparing Generating idle_guards = (Inr \<lparr>previous = Preparing, current = Generating, reason = None\<rparr>, Generating)"
  "run_transition Generating Verifying idle_guards = (Inr \<lparr>previous = Generating, current = Verifying, reason = None\<rparr>, Verifying)"
  "run_transition Verifying Completing idle_guards = (Inr \<lparr>previous = Verifying, current = Completing, reason = None\<rparr>, Completing)"
  "run_transition Completing AgentRunState.Completed idle_guards = (Inr \<lparr>previous = Completing, current = AgentRunState.Completed, reason = None\<rparr>, AgentRunState.Completed)"
  by (simp_all add: run_transition_def legal_edge_def)

lemma demo_await: "ls_deadline s = None \<Longrightarrow> await_background_results 1 demo_env b s = (Done [], s)"
  by (simp add: await_background_results_def numeral_nat demo_ops run_eval)

lemma demo_generation: 
  "generate_with_recovery demo_env rq i demo_limits rv (s\<lparr>ls_world := demo_reply\<rparr>) = (Done (ChatResponse_default\<lparr>rp_text := str ''ok''\<rparr>, str ''ok'', 0), 
    s\<lparr>ls_world := [], ls_partial := ChatResponse_default\<lparr>rp_text := str ''ok''\<rparr>, ls_trace := ls_trace s @ [AtGenerate rq, AtRecord (MessageDelta i Assistant (str ''ok''))]\<rparr>)"
  by (simp add: generate_with_recovery_def generate_loop.simps generate_def set_partial_def demo_reply_def stream_init_def stream_record_def sink_record_def
    complete_reasoning_def run_eval Let_def ChatResponse_default_def generation_result_def)


definition demo_cfg :: loop_config where
  "demo_cfg = \<lparr>lc_request = demo_request, lc_context = demo_report, lc_window = Some 100, lc_tools = [], lc_payload = None, lc_recovery_attempt = 0\<rparr>"

definition demo_loaded :: "'w \<Rightarrow> 'w loop_state" where
  "demo_loaded w = (initial_loop_state w)\<lparr>ls_machine := Generating, ls_messages := [ChatMessage_new (str ''user'') (str ''why'')],
     ls_trace := [AtTransition \<lparr>previous = Created, current = Preparing, reason = None\<rparr>, AtTransition \<lparr>previous = Preparing, current = Generating, reason = None\<rparr>]\<rparr>"

lemma demo_start: "agent_run n fuel demo_env demo_request (initial_loop_state w) = loop_run n fuel demo_env demo_cfg (demo_loaded w)"
  by (simp add: agent_run_def resume_attempt_def set_deadline_def require_capability_def demo_window demo_context enter_loop_def run_eval demo_ops demo_change demo_edges
    initial_loop_state_def load_locals_def demo_messages snapshot_capture_def tool_payload_def sort_by_def demo_cfg_def demo_loaded_def)

lemma demo_generated:
  assumes "ls_world s = demo_reply"
  shows "generate_with_recovery demo_env rq i demo_limits rv s = (Done (ChatResponse_default\<lparr>rp_text := str ''ok''\<rparr>, str ''ok'', 0), 
    s\<lparr>ls_world := [], ls_partial := ChatResponse_default\<lparr>rp_text := str ''ok''\<rparr>, ls_trace := ls_trace s @ [AtGenerate rq, AtRecord (MessageDelta i Assistant (str ''ok''))]\<rparr>)"
proof -
  have "s\<lparr>ls_world := demo_reply\<rparr> = s" using assms by simp
  then show ?thesis using demo_generation [of rq i rv s] by simp
qed

lemma demo_cfg_simps [simp]: "lc_request demo_cfg = demo_request" "lc_context demo_cfg = demo_report" "lc_window demo_cfg = Some 100" "lc_tools demo_cfg = []" "lc_payload demo_cfg = None"
  by (simp_all add: demo_cfg_def)

lemma demo_loaded_simps [simp]: "ls_world (demo_loaded w) = w" "ls_deadline (demo_loaded w) = None" "ls_natural_stop (demo_loaded w) = False" "ls_resumable (demo_loaded w) = []"
   "ls_model_calls (demo_loaded w) = 0" "ls_messages (demo_loaded w) = [ChatMessage_new (str ''user'') (str ''why'')]" "ls_machine (demo_loaded w) = Generating" "ls_answer (demo_loaded w) = []"
   "ls_reasoning (demo_loaded w) = []" "ls_reasoning_ms (demo_loaded w) = 0" "ls_usage (demo_loaded w) = None"
  by (simp_all add: demo_loaded_def initial_loop_state_def)

lemma demo_texts: "starts_with (str ''ok'') (str ''ok'')" "validate_citations a None = Inr ()" "sat_u64 0 0 = 0"
  by (simp_all add: str_def validate_citations_def sat_u64_def)

definition demo_result :: AgentLoopResult where
  "demo_result = \<lparr>lo_outcome = OutcomeCompleted, lo_answer = str ''ok'', lo_reasoning = [], lo_reasoning_ms = 0, lo_usage = None,
     lo_context = demo_report\<rparr>"

lemma demo_iteration: "\<exists>s. loop_iteration 1 demo_env demo_cfg (demo_loaded demo_reply) = (Done (Some demo_result), s)"
  apply (simp add: loop_iteration_def demo_await [simplified] run_eval receive_background_def natural_stop_def model_round_def demo_ops check_limit_def over_limit_def
     model_call_def demo_history set_partial_def chat_request_def completion_tokens_def demo_generated)
  apply (simp add: absorb_response_def append_response_text_def run_eval ChatResponse_default_def finish_answer_def demo_await [simplified] demo_ops demo_change demo_edges check_answer_def
    take_queued_def join_reasoning_def complete_run_def demo_texts demo_result_def)
  done

lemma demo_run: "\<exists>s. agent_run 1 1 demo_env demo_request (initial_loop_state demo_reply) = (Done demo_result, s)"
  using demo_iteration unfolding demo_start One_nat_def loop_run.simps by (auto simp: mbind_def mret_def)

end
