(* ===== verification/Loop_Findings.thy ===== *)
theory Loop_Findings
  imports Loop_Failure Loop_Limits Run_Store
begin

text \<open>
  Two ways in which a run of the agent loop ends without being finished in the store.
\<close>

section \<open>A resumed run that does not fit its budget\<close>

definition finishes_created :: "action \<Rightarrow> bool" where
  "finishes_created a \<longleftrightarrow> (case a of AtFinish c oc \<Rightarrow> previous c = Created \<and> current c = AgentRunState.Failed \<and> oc = OutcomeFailed | _ \<Rightarrow> True)"

definition refused_trace :: "'w loop_state \<Rightarrow> bool" where
  "refused_trace s \<longleftrightarrow> list_all finishes_created (ls_trace s)"

interpretation refusal: stable_assertion env refused_trace finishes_created for env
  by unfold_locales (auto simp: refused_trace_def same_core_def finishes_created_def)

lemma kept_refusal: "stable_assertion.steady refused_trace c \<Longrightarrow> triple refused_trace c (\<lambda>_. refused_trace) (\<lambda>_. refused_trace)"
  by (simp add: refusal.steady_def)

lemma fail_from_created: "triple refused_trace (fail env Created i e) (\<lambda>_ _. False) (\<lambda>_. refused_trace)"
proof -
  have r: "triple refused_trace (record_event env (ErrorRaised (to_agent_error e) True)) (\<lambda>_. refused_trace) (\<lambda>_. refused_trace)"
    by (rule kept_refusal [OF refusal.steady_event]) simp
  have t: "triple refused_trace (mresult (map_err f (fst (run_transition Created AgentRunState.Failed idle_guards))))
      (\<lambda>c s. refused_trace s \<and> finishes_created (AtFinish c OutcomeFailed)) (\<lambda>_. refused_trace)" for f
    by (rule triple_result) (auto simp: finishes_created_def run_transition_def split: if_splits)
  have f: "triple (\<lambda>s. refused_trace s \<and> finishes_created (AtFinish c OutcomeFailed)) (sink_finish env c OutcomeFailed i) (\<lambda>_. refused_trace) (\<lambda>_. refused_trace)" for c
    unfolding sink_finish_def
    by (rule triple_pure) (intro kept_refusal refusal.steady_core refusal.steady_note; simp)
  show ?thesis unfolding fail_def
    by (rule triple_bind [OF r], rule triple_bind [OF t], rule triple_bind [OF f], rule triple_throw)
qed

lemma refused_run:
  assumes "budgeted_context env request = Inl e"
  shows "triple refused_trace (agent_run n fuel env request) (\<lambda>_. refused_trace) (\<lambda>_. refused_trace)"
proof -
  have dl: "triple refused_trace (set_deadline env d) (\<lambda>_. refused_trace) (\<lambda>_. refused_trace)" for d
    unfolding set_deadline_def by (rule kept_refusal) (intro refusal.steady_core refusal.steady_set; simp add: same_core_def)
  note res = kept_refusal [OF refusal.steady_result]
  show ?thesis unfolding agent_run_def Let_def budgeted_context_def [symmetric] assms sum.case
    by (rule triple_bind [OF res], rule triple_bind [OF res], rule triple_bind [OF dl], rule triple_bind [OF res],
        rule triple_weaken [OF fail_from_created]) simp_all
qed

lemma finish_from_wrong_state:
  assumes "read_run L ''agent_run_not_found'' ws rid db = Inr run" "ar_state run \<noteq> Created" "finishes_created (AtFinish c oc)"
    and "validate_workspace ws = Inr ()"
  shows "run_store_finish L ws rid c oc amid t e1 e2 db = (Inl (StorageError ''agent_run_state_conflict''), db)"
  using assms by (simp add: run_store_finish_def in_transaction_def run_finish_tx_def finishes_created_def ensure_def)

section \<open>An output that cannot be stored\<close>

fun is_finish :: "action \<Rightarrow> bool" where
  "is_finish (AtFinish c oc) = True"
| "is_finish _ = False"

definition finishes :: "nat \<Rightarrow> 'w loop_state \<Rightarrow> bool" where
  "finishes k s \<longleftrightarrow> count_actions is_finish (ls_trace s) = k"

interpretation finishing: stable_assertion env "finishes k" "\<lambda>a. \<not> is_finish a" for env k
  by unfold_locales (auto simp: finishes_def same_core_def)

abbreviation open_after :: "nat \<Rightarrow> AgentLoopError option \<Rightarrow> 'w loop_state \<Rightarrow> bool" where
  "open_after k e s \<equiv> (\<exists>m. e = Some (LeTool m)) \<longrightarrow> finishes k s"

lemma kept_open: "stable_assertion.steady (finishes k) c \<Longrightarrow> triple (finishes k) c (\<lambda>_. finishes k) (open_after k)"
  unfolding finishing.steady_def by (erule triple_weaken) auto

lemma steady_change_open: "stable_assertion.steady (finishes k) (change_state_with_guards env t g)"
proof -
  have "stable_assertion.steady (finishes k) (mset_state (\<lambda>s. s\<lparr>ls_machine := p\<rparr>))" for p
    unfolding finishing.steady_def by (rule triple_set) (simp add: finishes_def)
  then show ?thesis unfolding change_state_with_guards_def by (intro finishing.steady_core finishing.steady_note) simp_all
qed

text \<open>Stopping a run never fails for the tools.\<close>

lemma stop_no_tool_error: "tame (\<lambda>e _. \<forall>m. e \<noteq> Some (LeTool m)) (stop_cancelled env cfg)"
  unfolding stop_cancelled_def cancel_or_timeout_def deadline_exceeded_def cancel_def finish_def sink_finish_def fail_here_def fail_def
    record_event_def sink_record_def
  by (intro tame_core tame_map_err tame_throw) simp_all

lemma stop_open: "triple P (stop_cancelled env cfg) (\<lambda>_ _. True) (open_after k)"
  using stop_no_tool_error [unfolded tame_def] by (rule triple_weaken) auto

lemma run_approved_open: "triple (finishes k) (run_approved env cfg n cs) (\<lambda>_. finishes k) (open_after k)"
  unfolding run_approved_def change_state_def
  by (rule kept_open) (intro finishing.steady_core steady_change_open finishing.steady_batch finishing.steady_cancelled; simp)

lemma run_tools_open: "triple (finishes k) (run_tools env cfg mcs calls rt) (\<lambda>_ _. True) (open_after k)"
proof -
  have rest: "triple (finishes k) (case ex of None \<Rightarrow> stop_cancelled env cfg | Some executed \<Rightarrow> mbind (push_messages (obs @ executed)) (\<lambda>_.
      mbind (take_queued env Steering) (\<lambda>queued. mbind (push_input queued) (\<lambda>_. mret None)))) (\<lambda>_ _. True) (open_after k)" for ex obs
    by (rule triple_case_option, rule stop_open, rule triple_weaken [OF kept_open])
      (auto intro!: finishing.steady_core finishing.steady_set simp: push_messages_def take_queued_def push_input_def same_core_def)
  have ev: "stable_assertion.steady (finishes k) (mfor (\<lambda>call. record_event env (requested call)) cs)" for cs
    by (intro finishing.steady_core finishing.steady_event) (simp add: requested_def)
  have pushes: "stable_assertion.steady (finishes k) (push_messages ms)" for ms
    unfolding push_messages_def by (rule finishing.steady_set) (simp add: same_core_def)
  have guard: "stable_assertion.steady (finishes k) (if b then change_state_with_guards env t g else mret ())" for b t g
    by (intro finishing.steady_core steady_change_open)
  show ?thesis unfolding run_tools_def run_decided_def Let_def
    by (rule triple_bind [OF kept_open [OF finishing.steady_pre_hooks]], rule triple_case_prod, rule triple_bind [OF kept_open [OF pushes]],
        rule triple_bind [OF kept_open [OF ev]], rule triple_bind [OF kept_open [OF guard]],
        rule triple_bind [OF kept_open [OF finishing.steady_decide]], simp, rule triple_case_prod,
        rule triple_bind [OF kept_open [OF finishing.steady_cancelled]], rule triple_if, rule stop_open,
        rule triple_bind [OF kept_open [OF finishing.steady_denied]], rule triple_bind [OF kept_open [OF finishing.steady_call]],
        rule triple_bind [OF run_approved_open], rule rest)
qed

end
