(* ===== verification/Agent_Loop_Properties.thy ===== *)
theory Agent_Loop_Properties
  imports Loop_Outcome Loop_Consent Loop_Safety Loop_Example Loop_Findings
begin

text \<open>
  Properties of whole runs of the agent loop, fresh or resumed, whatever the model, the tools, the hooks and the event sink
  do.
\<close>

section \<open>From triples to runs\<close>

text \<open>What was counted before a run was resumed.\<close>

definition calls_before :: "AgentLoopRequest \<Rightarrow> nat" where
  "calls_before request = (case rq_resume request of None \<Rightarrow> 0 | Some rr \<Rightarrow> ck_model_calls (re_checkpoint rr))"

definition tools_before :: "AgentLoopRequest \<Rightarrow> nat" where
  "tools_before request = (case rq_resume request of None \<Rightarrow> 0 | Some rr \<Rightarrow> ck_tool_calls (re_checkpoint rr))"

definition pending_before :: "AgentLoopRequest \<Rightarrow> ResumableToolCall list" where
  "pending_before request = (case rq_resume request of None \<Rightarrow> [] | Some rr \<Rightarrow> re_pending_tools rr)"

definition start_state :: "AgentLoopRequest \<Rightarrow> AgentRunState" where
  "start_state request = (case rq_resume request of None \<Rightarrow> Created | Some rr \<Rightarrow> re_state rr)"

definition turn_snapshot :: "'w loop_env \<Rightarrow> LoopToolRegistration list" where
  "turn_snapshot env = (case snapshot_capture (le_registrations env) of Inl _ \<Rightarrow> [] | Inr rs \<Rightarrow> rs)"

lemma turn_snapshot: "snapshot_capture (le_registrations env) = Inr rs \<Longrightarrow> rs = turn_snapshot env"
  by (simp add: turn_snapshot_def)

lemma run_result:
  assumes "triple P c (\<lambda>_. Q) (\<lambda>_. Q)" "P s" "c s = (r, s')"
  shows "Q s'"
  using tripleD [OF assms] by (cases r) auto

lemma unused_free:
  assumes "\<And>ev. \<not> f (AtRecord ev)" "\<And>c. \<not> f (AtCheckpoint c)" "\<And>t. \<not> f (AtTransition t)" "\<And>t oc. \<not> f (AtFinish t oc)"
  shows "machine_free (\<lambda>s. count_actions f (ls_trace s) = 0) (\<lambda>a. \<not> f a)"
  by unfold_locales (auto simp: same_core_def assms)

lemma initial_trace [simp]: "ls_trace (initial_loop_state w) = []" "ls_machine (initial_loop_state w) = Created"
    "ls_resumable (initial_loop_state w) = []" "ls_model_calls (initial_loop_state w) = 0" "ls_tool_calls (initial_loop_state w) = 0"
    "ls_natural_stop (initial_loop_state w) = False"
  by (simp_all add: initial_loop_state_def)

section \<open>Requests\<close>

lemma requests_bound:
  assumes l: "max_model_calls limits = Some l" and w: "requests.within limits base pend k s"
  shows "count_actions is_generate (ls_trace s) \<le> per_call limits * (l - base)"
proof -
  have "ls_model_calls s - base \<le> l - base" using assms by (auto simp: requests_unfold calls_counted_def over_limit_def split: if_splits)
  then have "calls_allowed limits base s \<le> per_call limits * (l - base)" by (simp add: calls_allowed_def)
  then show ?thesis using w by (simp add: requests_unfold)
qed

lemma requests_run:
  assumes l: "max_model_calls (rq_limits request) = Some l"
  shows "triple (\<lambda>s. s = initial_loop_state w) (agent_run n fuel env request)
     (\<lambda>_ s. count_actions is_generate (ls_trace s) \<le> per_call (rq_limits request) * (l - calls_before request))
     (\<lambda>_ s. count_actions is_generate (ls_trace s) \<le> per_call (rq_limits request) * (l - calls_before request))"
proof (rule requests_loop.run_ends [OF turn_snapshot refl, where base = "calls_before request" and pend = "pending_before request"])
  show "machine_free (\<lambda>s. count_actions is_generate (ls_trace s) = 0) (\<lambda>a. \<not> is_generate a)" by (rule unused_free) simp_all
  show "requests_inv (rq_limits request) (calls_before request) (pending_before request) Idle s \<Longrightarrow>
      count_actions is_generate (ls_trace s) \<le> per_call (rq_limits request) * (l - calls_before request)" for s
    by (rule requests_bound [OF l])
qed (auto simp: requests_unfold calls_allowed_def calls_counted_def calls_before_def pending_before_def)

lemma executions_bound:
  assumes l: "max_tool_calls limits = Some l" "l < usize_max" and w: "executions.within limits base pend k s"
  shows "count_actions is_execute (ls_trace s) \<le> l - base"
proof -
  have c: "capped limits" using l by (simp add: capped_def)
  then have "ls_tool_calls s - base \<le> l - base" using assms by (auto simp: executions_unfold tools_counted_def over_limit_def split: if_splits)
  moreover have "capped_execution limits = is_execute" using c by (auto simp: capped_execution_def)
  ultimately show ?thesis using w [unfolded executions_unfold] by (simp add: tools_allowed_def)
qed

lemma executions_run:
  assumes l: "max_tool_calls (rq_limits request) = Some l" "l < usize_max"
  shows "triple (\<lambda>s. s = initial_loop_state w) (agent_run n fuel env request)
     (\<lambda>_ s. count_actions is_execute (ls_trace s) \<le> l - tools_before request)
     (\<lambda>_ s. count_actions is_execute (ls_trace s) \<le> l - tools_before request)"
proof (rule executions_loop.run_ends [OF turn_snapshot refl, where base = "tools_before request" and pend = "pending_before request"])
  have c: "capped_execution (rq_limits request) = is_execute" using l by (auto simp: capped_execution_def capped_def)
  show "machine_free (\<lambda>s. count_actions is_execute (ls_trace s) = 0) (\<lambda>a. \<not> is_execute a)" by (rule unused_free) simp_all
  show "executions_inv (rq_limits request) (tools_before request) (pending_before request) Idle
      (s\<lparr>ls_natural_stop := (ck_reason (re_checkpoint rr) = AssistantResult),
       ls_tool_round := ck_tool_round (re_checkpoint rr), ls_model_calls := ck_model_calls (re_checkpoint rr),
       ls_tool_calls := ck_tool_calls (re_checkpoint rr), ls_resumable := re_pending_tools rr\<rparr>)"
    if "rq_resume request = Some rr" "count_actions is_execute (ls_trace s) = 0" for rr s
    using that unfolding executions_unfold unfolding c by (simp add: tools_allowed_def tools_counted_def tools_before_def pending_before_def)
  show "executions_inv (rq_limits request) (tools_before request) (pending_before request) Idle s \<Longrightarrow>
      count_actions is_execute (ls_trace s) \<le> l - tools_before request" for s
    by (rule executions_bound [OF l])
qed (auto simp: executions_unfold tools_allowed_def tools_counted_def tools_before_def)

lemma consent_run:
  "triple (\<lambda>s. s = initial_loop_state w) (agent_run n fuel env request)
     (\<lambda>_ s. consented (turn_snapshot env) (pending_before request) (ls_trace s)) (\<lambda>_ s. consented (turn_snapshot env) (pending_before request) (ls_trace s))"
proof (rule consent_loop.run_ends [OF turn_snapshot refl, where pend = "pending_before request"])
  show "machine_free (\<lambda>s. consented (turn_snapshot env) (pending_before request) (ls_trace s)) harmless"
    by unfold_locales (auto simp: same_core_def harmless_fair harmless_def)
qed (auto simp: consent_inv_def pending_before_def)

lemma path_run:
  assumes "rq_resume request = None \<or> (\<exists>ctx. budgeted_context env request = Inr ctx)"
  shows "triple (\<lambda>s. s = initial_loop_state w) (agent_run n fuel env request) (\<lambda>_. path_end (start_state request)) (\<lambda>_. path_end (start_state request))"
proof (cases "rq_resume request")
  case None
  show ?thesis
    by (rule triple_weaken [OF path.fresh_run_ends [OF turn_snapshot refl None, where p = Created and pend = "[]"]])
      (auto simp: path_inv_def path_end_def start_state_def None intro: lawful.nil)
next
  case (Some rr)
  let ?J = "path_inv (re_state rr) (re_pending_tools rr)"
  have s: "start_state request = re_state rr" by (simp add: start_state_def Some)
  have enter: "triple (\<lambda>s. ls_trace s = [] \<and> ls_resumable s = []) (enter_loop env request ctx)
      (\<lambda>entered s. entered = None \<and> path_inv (re_state rr) [] s) (\<lambda>_. path_end (re_state rr))" for ctx
    unfolding enter_loop_def Some option.case change_state_def
    by (rule triple_bind [OF triple_set [where Q = "\<lambda>_. path_inv (re_state rr) []"]], simp add: path_inv_def lawful.nil, rule triple_if,
        rule triple_bind [OF triple_weaken [OF path_change]], assumption, assumption, simp add: path_inv_def path_end_def, blast)
      (auto intro: triple_ret)
  have "triple (\<lambda>s. ls_trace s = [] \<and> ls_resumable s = []) (agent_run n fuel env request) (\<lambda>_. ?J) (\<lambda>_. path_end (re_state rr))"
    by (rule path.resumed_run_ends [OF turn_snapshot refl Some _ enter]) (use assms Some in \<open>auto simp: path_inv_def path_end_def intro: lawful.nil\<close>)
  then show ?thesis unfolding s by (rule triple_weaken) (auto simp: path_inv_def path_end_def)
qed

text \<open>A run whose context does not fit reports its failure from \<open>Created\<close>.\<close>

abbreviation at_start :: "'w loop_state \<Rightarrow> bool" where
  "at_start s \<equiv> path_inv Created [] s \<and> ls_machine s = Created"

lemma fail_at_start: "triple at_start (fail env Created i e :: ('w, 'a) loop_m) (\<lambda>_ _. False) (\<lambda>_. path_end Created)"
proof -
  have "(fail env Created i e :: ('w, 'a) loop_m) s = fail_here env i e s" if "at_start s" for s using that by (simp add: fail_here_def mbind_def mget_def)
  then show ?thesis using path_fail [of Created "[]" env i e, where 'a = 'a] by (simp add: triple_def)
qed

lemma refused_path:
  assumes "budgeted_context env request = Inl e"
  shows "triple (\<lambda>s. s = initial_loop_state w) (agent_run n fuel env request) (\<lambda>_. path_end Created) (\<lambda>_. path_end Created)"
proof -
  have st: "stable_assertion at_start unmoved" by unfold_locales (auto simp: path_inv_def unmoved_def same_core_def)
  have kept: "stable_assertion.steady at_start c \<Longrightarrow> triple at_start c (\<lambda>_. at_start) (\<lambda>_. path_end Created)" for c :: "('w, 'b) loop_m"
    unfolding stable_assertion.steady_def [OF st] by (erule triple_weaken) (auto simp: path_inv_def path_end_def)
  have dl: "triple at_start (set_deadline env d) (\<lambda>_. at_start) (\<lambda>_. path_end Created)" for d
    unfolding set_deadline_def
    by (rule kept) (intro stable_assertion.steady_core [OF st] stable_assertion.steady_set [OF st]; simp add: same_core_def)
  note res = kept [OF stable_assertion.steady_result [OF st]]
  have "triple at_start (agent_run n fuel env request) (\<lambda>_. path_end Created) (\<lambda>_. path_end Created)"
    by (unfold agent_run_def Let_def budgeted_context_def [symmetric] assms sum.case,
        rule triple_bind [OF res], rule triple_bind [OF res], rule triple_bind [OF dl], rule triple_bind [OF res],
        rule triple_weaken [OF fail_at_start]) simp_all
  then show ?thesis by (rule triple_conseq) (simp_all add: path_inv_def initial_loop_state_def changes_of_def lawful.nil)
qed

section \<open>Properties\<close>

abbreviation final_trace :: "nat \<Rightarrow> nat \<Rightarrow> 'w loop_env \<Rightarrow> AgentLoopRequest \<Rightarrow> 'w \<Rightarrow> action list" where
  "final_trace n fuel env request w \<equiv> ls_trace (snd (agent_run n fuel env request (initial_loop_state w)))"

lemma run_leaves:
  assumes "triple (\<lambda>s. s = initial_loop_state w) (agent_run n fuel env request) (\<lambda>_. Q) (\<lambda>_. Q)"
  shows "Q (snd (agent_run n fuel env request (initial_loop_state w)))"
  using run_result [OF assms refl] by (metis surjective_pairing)

text \<open>C1. No tool runs without consent, and none with arguments its schema does not accept.  In the trace of any run of the
  loop, fresh or resumed, finished or not, whatever the model, the tools, the hooks and the event sink answer: every
  execution of a tool is of a tool that the captured snapshot registers as automatic, or a permission request for this very
  call (its id, its tool, its arguments) was answered before with a decision other than a denial, or such a decision was
  persisted before the run was resumed; the event that the tool starts was recorded before; and the arguments conform to
  the input schema of a registered tool with this id.\<close>

theorem agent_run_consented: "consented (turn_snapshot env) (pending_before request) (final_trace n fuel env request w)"
  by (rule run_leaves [OF consent_run])

text \<open>C12. The state changes that any run reports to its event sink, the final one included, form a path of the run's state
  machine: each leaves the state its predecessor reached and is a legal edge under some guards.  The path begins in the state
  in which the run was created or resumed, except when the context of the run does not fit its budget: such a run reports
  its failure from \<open>Created\<close>, also when it was resumed in another state (see below).\<close>

theorem agent_run_lawful:
  "\<exists>p. lawful (if \<exists>e. budgeted_context env request = Inl e then Created else start_state request)
     (changes_of (final_trace n fuel env request w)) p"
proof (cases "budgeted_context env request")
  case (Inl e)
  then show ?thesis using run_leaves [OF refused_path [OF Inl]] unfolding path_end_def by simp
next
  case (Inr ctx)
  then show ?thesis using run_leaves [OF path_run [of request env]] unfolding path_end_def by simp
qed

text \<open>C5. With a limit of \<open>l\<close> model calls, a run sends at most \<open>l\<close> minus the calls counted before it was resumed, times
  \<open>max_network_retries + 2\<close>, requests to the model: each counted call, a repair of its tool calls included, is sent once
  and again at most once per allowed retry.\<close>

theorem agent_run_request_bound:
  assumes "max_model_calls (rq_limits request) = Some l"
  shows "count_actions is_generate (final_trace n fuel env request w) \<le> (max_network_retries (rq_limits request) + 2) * (l - calls_before request)"
  using run_leaves [OF requests_run [OF assms]] unfolding per_call_def .

theorem agent_run_request_bound_witness:
  "count_actions is_generate (final_trace 9 1 demo_env demo_request []) \<le> (max_network_retries demo_limits + 2) * 2"
  using agent_run_request_bound [of demo_request 2] by (simp add: calls_before_def)

text \<open>C11. With a limit of \<open>l\<close> tool calls, below the largest \<open>usize\<close>, a run starts at most \<open>l\<close> minus the tools counted before it was
  resumed: executions in every round, of a resumed round too, are counted before the first of the round starts.\<close>

theorem agent_run_tool_bound:
  assumes "max_tool_calls (rq_limits request) = Some l" "l < usize_max"
  shows "count_actions is_execute (final_trace n fuel env request w) \<le> l - tools_before request"
  by (rule run_leaves [OF executions_run [OF assms]])

theorem agent_run_tool_bound_witness: "count_actions is_execute (final_trace 9 1 demo_env demo_request []) \<le> 3"
proof -
  have "max_tool_calls (rq_limits demo_request) = Some 3" by (simp add: demo_limits_def)
  moreover have "(3 :: nat) < usize_max" by (simp add: usize_max_def)
  ultimately show ?thesis using agent_run_tool_bound [of demo_request 3 9 1 demo_env "[]"] by (simp add: tools_before_def)
qed

text \<open>C2. A run that returns has settled.  If its outcome is completion, the answer it returns passes the citation check
  against the request's evidence, was recorded as the completed message of the assistant, and the last thing the run did was
  to finish as completed; otherwise its outcome is cancellation and the last thing it did was to finish as cancelled.\<close>

theorem agent_run_answered:
  assumes "rq_resume request = None" "agent_run n fuel env request (initial_loop_state w) = (Done x, s)"
  shows "answered request x s"
  using tripleD [OF run_settled [OF assms(1)] _ assms(2)] by (simp add: going_def)

theorem agent_run_answered_witness:
  "\<exists>s. agent_run 1 1 demo_env demo_request (initial_loop_state demo_reply) = (Done demo_result, s) \<and> answered demo_request demo_result s"
proof -
  obtain s where "agent_run 1 1 demo_env demo_request (initial_loop_state demo_reply) = (Done demo_result, s)" using demo_run by blast
  then show ?thesis using agent_run_answered [of demo_request 1 1 demo_env demo_reply demo_result s] by simp
qed

text \<open>C13. A run that ends with an error reports it: the error was recorded as an event and the run was finished as failed
  afterwards, unless the error is one of the event sink, an internal one, an unsupported capability, a checkpoint
  timeout, or a failure of the tool boundary.\<close>

fun silent :: "AgentLoopError \<Rightarrow> bool" where
  "silent (LeEventSink m) = True"
| "silent (LeInternal m) = True"
| "silent (LeTool m) = True"
| "silent (LeCapability m) = True"
| "silent (LeCheckpointTimeout a b) = True"
| "silent _ = False"

interpretation reports: reporting env "\<lambda>e s. (case e of None \<Rightarrow> True | Some x \<Rightarrow> silent x) \<or> reported e s" fuel for env fuel
  by unfold_locales (simp_all add: tame_def triple_true)

theorem agent_run_reports:
  assumes "agent_run n fuel env request s = (Threw e, s')" "\<not> silent e"
  shows "reported (Some e) s'"
proof -
  have "tame (\<lambda>e s. (case e of None \<Rightarrow> True | Some x \<Rightarrow> silent x) \<or> reported e s) (agent_run n fuel env request)"
    by (rule reports.tame_run, rule reports.tame_loop) simp
  from tripleD [OF this [unfolded tame_def] TrueI assms(1)] show ?thesis using assms(2) by simp
qed

definition empty_request :: AgentLoopRequest where
  "empty_request = demo_request\<lparr>rq_context := []\<rparr>"

theorem agent_run_reports_witness:
  "\<exists>s. agent_run 0 0 demo_env empty_request (initial_loop_state []) = (Threw (LeContext MissingCurrentRequest), s)
     \<and> reported (Some (LeContext MissingCurrentRequest)) s"
proof -
  have "budget_context [] m a b = Inl MissingCurrentRequest" for m a b by (simp add: budget_context_def)
  then have "\<exists>s. agent_run 0 0 demo_env empty_request (initial_loop_state []) = (Threw (LeContext MissingCurrentRequest), s)"
    by (simp add: agent_run_def empty_request_def resume_attempt_def set_deadline_def require_capability_def run_eval fail_def demo_ops
      run_transition_def legal_edge_def sink_finish_def Let_def)
  then show ?thesis using agent_run_reports [of 0 0 demo_env empty_request "initial_loop_state []"] by fastforce
qed

text \<open>C4. A run with a limit of \<open>l\<close> model calls ends, with a result or an error, within \<open>l + 3\<close> rounds of its loop, if every wait
  for background tasks ends within the given number of polls.\<close>

theorem agent_run_terminates:
  assumes "max_model_calls (rq_limits request) = Some l" "waits_end fuel env" "l + 2 < n"
  shows "fst (agent_run n fuel env request s) \<noteq> Unfinished"
  by (rule run_settles [OF assms])

lemma demo_waits: "waits_end (Suc 0) demo_env"
  unfolding waits_end_def await_background_results_def by (simp add: run_eval is_cancelled_def deadline_exceeded_def split: option.split)

theorem agent_run_terminates_witness: "fst (agent_run 5 (Suc 0) demo_env demo_request (initial_loop_state [])) \<noteq> Unfinished"
  using agent_run_terminates [OF _ demo_waits, of demo_request 2 5] by simp

text \<open>A run that is resumed but whose context no longer fits its budget is never finished.  The only finishing change such a run
  reports leaves the state \<open>Created\<close>, whereas the stored run is in the state it was resumed in, so the store rejects it with
  a state conflict and stays as it is.\<close>

theorem resumed_budget_failure_conflicts:
  assumes "rq_resume request = Some rr" "budgeted_context env request = Inl e"
    and "AtFinish c oc \<in> set (final_trace n fuel env request w)"
    and "validate_workspace ws = Inr ()" "read_run L ''agent_run_not_found'' ws rid db = Inr run" "ar_state run = re_state rr" "re_state rr \<noteq> Created"
  shows "run_store_finish L ws rid c oc amid t e1 e2 db = (Inl (StorageError ''agent_run_state_conflict''), db)"
proof -
  have "triple (\<lambda>s. s = initial_loop_state w) (agent_run n fuel env request) (\<lambda>_. refused_trace) (\<lambda>_. refused_trace)"
    by (rule triple_conseq [OF refused_run [OF assms(2)]]) (simp add: refused_trace_def)
  from run_leaves [OF this] have "finishes_created (AtFinish c oc)"
    using assms(3) by (auto simp: refused_trace_def list_all_iff)
  then show ?thesis using finish_from_wrong_state [OF assms(5)] assms(4,6,7) by simp
qed

definition lost_resume :: AgentLoopResume where
  "lost_resume = \<lparr>re_checkpoint = \<lparr>ck_reason = ModelCall, ck_model_call_index = 0, ck_model_calls = 1, ck_tool_calls = 0,
     ck_tool_round = 0, ck_recovery_attempt = 0, ck_messages = []\<rparr>, re_state = Generating, re_assistant_result_recorded = False, re_pending_tools = []\<rparr>"

definition lost_request :: AgentLoopRequest where
  "lost_request = empty_request\<lparr>rq_resume := Some lost_resume\<rparr>"

definition lost_lib :: run_lib where
  "lost_lib = \<lparr>rl_uuid = Some, rl_time = (\<lambda>_. Some 0), rl_text = (\<lambda>_. str ''t''), rl_encode = (\<lambda>_. None), rl_decode = (\<lambda>_. None)\<rparr>"

definition lost_db :: run_db where
  "lost_db = \<lparr>conversations = [], messages = [], agent_runs = [\<lparr>rr_id = str ''r'', rr_workspace_id = str ''local'', rr_conversation_id = str ''c'',
     rr_user_message_id = str ''m'', rr_state = state_text Generating, rr_next_sequence = 1, rr_created_at = str ''t'', rr_updated_at = str ''t'',
     rr_completed_at = None\<rparr>], agent_run_events = []\<rparr>"

definition lost_change :: run_state_changed where
  "lost_change = \<lparr>previous = Created, current = AgentRunState.Failed, reason = None\<rparr>"

lemma lost_parts:
  "budgeted_context demo_env lost_request = Inl MissingCurrentRequest" "validate_workspace (str ''local'') = Inr ()"
  "\<exists>run. read_run lost_lib ''agent_run_not_found'' (str ''local'') (str ''r'') lost_db = Inr run \<and> ar_state run = Generating"
  "AtFinish lost_change OutcomeFailed \<in> set (final_trace 0 0 demo_env lost_request [])"
proof -
  show b: "budgeted_context demo_env lost_request = Inl MissingCurrentRequest"
    by (simp add: budgeted_context_def lost_request_def empty_request_def budget_context_def)
  show "validate_workspace (str ''local'') = Inr ()"
    by (simp add: validate_workspace_def trim_def trim_start_def trim_end_def str_def is_whitespace_def)
  show "\<exists>run. read_run lost_lib ''agent_run_not_found'' (str ''local'') (str ''r'') lost_db = Inr run \<and> ar_state run = Generating"
    by (simp add: read_run_def run_read_def lost_db_def is_run_def decode_run_def lost_lib_def parse_timestamp_def parse_state_def ok_or_def)
  have l: "resume_attempt lost_request = Inr 1" "rq_limits lost_request = demo_limits" "deadline_ms demo_limits = None"
    by (simp_all add: resume_attempt_def lost_request_def lost_resume_def empty_request_def demo_limits_def AgentLoopLimits_default_def sat_add_def usize_max_def)
  show "AtFinish lost_change OutcomeFailed \<in> set (final_trace 0 0 demo_env lost_request [])"
    unfolding agent_run_def budgeted_context_def [symmetric] b Let_def
    by (simp add: l set_deadline_def require_capability_def run_eval fail_def demo_ops run_transition_def legal_edge_def sink_finish_def Let_def lost_change_def)
qed

theorem resumed_budget_failure_conflicts_witness:
  "run_store_finish lost_lib (str ''local'') (str ''r'') lost_change OutcomeFailed None 0 (str ''e1'') (str ''e2'') lost_db
     = (Inl (StorageError ''agent_run_state_conflict''), lost_db)"
proof -
  obtain run where "read_run lost_lib ''agent_run_not_found'' (str ''local'') (str ''r'') lost_db = Inr run" "ar_state run = Generating"
    using lost_parts(3) by blast
  then show ?thesis
    by (intro resumed_budget_failure_conflicts [where rr = lost_resume, OF _ lost_parts(1) lost_parts(4) lost_parts(2)])
      (simp_all add: lost_request_def lost_resume_def)
qed

text \<open>When a round of tool calls ends with an error of the tool boundary, such as an output that cannot be serialised, the
  error leaves the loop and the round has not finished the run: no finishing change was reported.\<close>

theorem tool_failure_leaves_run_open:
  assumes "run_tools env cfg mcs calls rt s = (Threw (LeTool m), s')"
  shows "count_actions is_finish (ls_trace s') = count_actions is_finish (ls_trace s)"
  using tripleD [OF run_tools_open [of "count_actions is_finish (ls_trace s)"] _ assms] by (simp add: finishes_def)

definition lookup_tool :: LoopToolRegistration where
  "lookup_tool = \<lparr>lr_spec = \<lparr>sp_id = str ''demo.lookup'', sp_name = str ''lookup'', sp_input_schema = JObject [(str ''type'', JString (str ''object''))], sp_risk = Automatic\<rparr>,
     lr_read_only = True, lr_version = \<lparr>tv_major = 1, tv_minor = 0, tv_patch = 0\<rparr>, lr_source = Builtin, lr_concurrency = Exclusive, lr_timeout = 1, lr_idempotent = True, lr_retryable = False\<rparr>"

definition lookup_call :: PreparedToolCall where
  "lookup_call = \<lparr>pt_model_call_id = str ''m'', pt_tool_call_id = str ''c'', pt_tool_id = str ''demo.lookup'', pt_tool_name = str ''lookup'',
     pt_arguments = JObject [], pt_risk = Automatic, pt_concurrency = Exclusive, pt_timeout = 1\<rparr>"

definition broken_env :: "(ChatEvent list \<times> generation_end) list loop_env" where
  "broken_env = demo_env\<lparr>le_execute := (\<lambda>_ w. (ToolReturned (Inr JNull), w)), le_to_string := (\<lambda>_. Inl (str ''disk full''))\<rparr>"

lemma broken_run:
  "\<exists>s m. run_tools broken_env (demo_cfg\<lparr>lc_tools := [lookup_tool]\<rparr>) [] [lookup_call] [] (demo_loaded []) = (Threw (LeTool m), s)"
  apply (simp add: run_tools_def run_eval broken_env_def demo_env_def lookup_call_def requested_def push_messages_def record_event_def sink_record_def run_decided_def
     is_cancelled_def deadline_exceeded_def denied_observations_def run_approved_def change_state_with_guards_def run_transition_def legal_edge_def Let_def
     execute_tool_batch.simps start_tool_def execute_tool_def lookup_tool_def settle_def apply_post_hook_def record_tool_result_def bounded_tool_output_def)
  done

theorem tool_failure_leaves_run_open_witness:
  "\<exists>m s. run_tools broken_env (demo_cfg\<lparr>lc_tools := [lookup_tool]\<rparr>) [] [lookup_call] [] (demo_loaded []) = (Threw (LeTool m), s)
     \<and> count_actions is_finish (ls_trace s) = 0"
proof -
  obtain m s where r: "run_tools broken_env (demo_cfg\<lparr>lc_tools := [lookup_tool]\<rparr>) [] [lookup_call] [] (demo_loaded []) = (Threw (LeTool m), s)"
    using broken_run by blast
  have "count_actions is_finish (ls_trace (demo_loaded ([] :: (ChatEvent list \<times> generation_end) list))) = 0"
    by (simp add: demo_loaded_def count_actions_def)
  then show ?thesis using tool_failure_leaves_run_open [OF r] r by auto
qed

text \<open>C15. A repaired tool call names exactly one registered tool and carries its id and its risk, and its arguments are an
  object that conforms to that tool's input schema, whatever text the model sent and however it is parsed.\<close>

theorem repaired_call_conforms:
  assumes "repair_tool_call parse raw tools = Inr r"
  shows "\<exists>tool fs. filter (\<lambda>t. sp_name t = rt_tool_name r) tools = [tool] \<and> rt_tool_id r = sp_id tool \<and> rt_risk r = sp_risk tool
     \<and> rt_arguments r = JObject fs \<and> conforms (rt_arguments r) (sp_input_schema tool)"
proof -
  obtain n tool repairs where t: "choose_tool n tools = Inr tool" "rt_tool_id r = sp_id tool" "rt_tool_name r = sp_name tool" "rt_risk r = sp_risk tool"
      "validate_value (rt_arguments r) (sp_input_schema tool) (str ''$'') = Inr ()" "\<exists>v rs. parse_arguments parse v rs = Inr (rt_arguments r, repairs)"
    using assms by (rule repair_tool_call_Inr) blast
  obtain fs where "rt_arguments r = JObject fs" using t(6) parse_arguments_object by blast
  moreover have "filter (\<lambda>t. sp_name t = rt_tool_name r) tools = [tool]"
    using t(1,3) choose_tool_member [OF t(1)] by (simp add: choose_tool_Inr)
  ultimately show ?thesis using t by (auto simp: validate_value_iff)
qed

definition lookup_envelope :: json where
  "lookup_envelope = JObject [(str ''arguments'', JObject []), (str ''name'', JString (str ''lookup''))]"

lemma lookup_parts:
  "parse_json_document (\<lambda>_. Inr lookup_envelope) [] = Inr (lookup_envelope, [])"
  "extract_call_parts lookup_envelope = Inr (str ''lookup'', JObject [])"
  "validate_value (JObject []) (sp_input_schema (lr_spec lookup_tool)) path = Inr ()"
proof -
  show "parse_json_document (\<lambda>_. Inr lookup_envelope) [] = Inr (lookup_envelope, [])"
    by (simp add: parse_json_document_def strip_json_fence_def remove_trailing_commas_def trim_def trim_start_def trim_end_def FENCE_def)
  have "trim (str ''lookup'') = str ''lookup''" "str ''lookup'' \<noteq> []" by (simp_all add: trim_def trim_start_def trim_end_def str_def is_whitespace_def)
  then show "extract_call_parts lookup_envelope = Inr (str ''lookup'', JObject [])"
    by (simp add: extract_call_parts_def lookup_envelope_def permission_keys_def collect_function_def collect_name_def collect_argument_def
      unique_name_def unique_value_def obj_get_def ok_or_def)
  show "validate_value (JObject []) (sp_input_schema (lr_spec lookup_tool)) path = Inr ()"
    by (simp add: validate_value.simps lookup_tool_def validate_head_def obj_get_def type_test_def schema_properties_def validate_keys_def)
qed

definition lookup_result :: RepairedToolCall where
  "lookup_result = \<lparr>rt_tool_id = str ''demo.lookup'', rt_tool_name = str ''lookup'', rt_arguments = JObject [], rt_risk = Automatic, rt_syntax_repairs = []\<rparr>"

lemma lookup_repaired: "repair_tool_call (\<lambda>_. Inr lookup_envelope) [] [lr_spec lookup_tool] = Inr lookup_result"
  by (simp add: repair_tool_call_def lookup_parts choose_tool_def parse_arguments_def reject_parameter_aliases_def lookup_result_def)
    (simp add: lookup_tool_def obj_get_def)

theorem repaired_call_conforms_witness: "conforms (rt_arguments lookup_result) (sp_input_schema (lr_spec lookup_tool))"
  using repaired_call_conforms [OF lookup_repaired] by (auto simp: lookup_result_def split: if_splits)

text \<open>C14. The validator of tool arguments is exact: for every value, schema and path it accepts the value if and only if the
  value conforms to the schema by the declarative rules (type, properties, required keys, additional properties, items,
  enumeration, bounds).\<close>

theorem argument_validation_exact: "validate_value v schema path = Inr () \<longleftrightarrow> conforms v schema"
  by (rule validate_value_iff)

end
