(* ===== verification/Utf8.thy ===== *)
theory Utf8
  imports Prelude
begin

text \<open>
  \<open>str::from_utf8\<close> and the encoding it inverts.  Bytes are natural numbers below 256; a Unicode scalar value is below
  \<open>0x110000\<close> and not a surrogate.
\<close>

type_synonym bytes = "nat list"

definition scalar :: "nat \<Rightarrow> bool" where
  "scalar c \<longleftrightarrow> c < 55296 \<or> (57344 \<le> c \<and> c < 1114112)"

definition cont :: "nat \<Rightarrow> bool" where
  "cont b \<longleftrightarrow> 128 \<le> b \<and> b < 192"

definition utf8_char :: "nat \<Rightarrow> bytes" where
  "utf8_char c =
     (if c < 128 then [c]
      else if c < 2048 then [192 + c div 64, 128 + c mod 64]
      else if c < 65536 then [224 + c div 4096, 128 + c div 64 mod 64, 128 + c mod 64]
      else [240 + c div 262144, 128 + c div 4096 mod 64, 128 + c div 64 mod 64, 128 + c mod 64])"

definition utf8_encode :: "rstr \<Rightarrow> bytes" where
  "utf8_encode s = concat (map utf8_char s)"

text \<open>The decoder: shortest forms only, no surrogates, nothing above \<open>0x10FFFF\<close>.\<close>

fun utf8_decode :: "bytes \<Rightarrow> rstr option" where
  "utf8_decode [] = Some []"
| "utf8_decode (a # r) =
     (if a < 128 then map_option ((#) a) (utf8_decode r)
      else if 194 \<le> a \<and> a < 224 then
        (case r of
           b # r \<Rightarrow> if cont b then map_option ((#) ((a - 192) * 64 + (b - 128))) (utf8_decode r) else None
         | _ \<Rightarrow> None)
      else if 224 \<le> a \<and> a < 240 then
        (case r of
           b # c # r \<Rightarrow>
             if cont b \<and> cont c \<and> (a = 224 \<longrightarrow> 160 \<le> b) \<and> (a = 237 \<longrightarrow> b < 160)
             then map_option ((#) ((a - 224) * 4096 + (b - 128) * 64 + (c - 128))) (utf8_decode r) else None
         | _ \<Rightarrow> None)
      else if 240 \<le> a \<and> a < 245 then
        (case r of
           b # c # d # r \<Rightarrow>
             if cont b \<and> cont c \<and> cont d \<and> (a = 240 \<longrightarrow> 144 \<le> b) \<and> (a = 244 \<longrightarrow> b < 144)
             then map_option ((#) ((a - 240) * 262144 + (b - 128) * 4096 + (c - 128) * 64 + (d - 128))) (utf8_decode r) else None
         | _ \<Rightarrow> None)
      else None)"

lemma utf8_encode_simps [simp]: "utf8_encode [] = []" "utf8_encode (c # s) = utf8_char c @ utf8_encode s" "utf8_encode (s @ t) = utf8_encode s @ utf8_encode t"
  by (simp_all add: utf8_encode_def)

lemma length_utf8_encode: "list_all scalar s \<Longrightarrow> length (utf8_encode s) = str_len s"
  by (induction s) (auto simp: utf8_char_def len_utf8_def)

text \<open>The digits of a scalar value, and the decoder on them.\<close>

lemma decode_two: "2 \<le> a \<Longrightarrow> a < 32 \<Longrightarrow> b < 64 \<Longrightarrow>
    utf8_decode ((192 + a) # (128 + b) # r) = map_option ((#) (a * 64 + b)) (utf8_decode r)"
  by (simp add: cont_def)

lemma decode_three: "a < 16 \<Longrightarrow> b < 64 \<Longrightarrow> c < 64 \<Longrightarrow> (a = 0 \<longrightarrow> 32 \<le> b) \<Longrightarrow> (a = 13 \<longrightarrow> b < 32) \<Longrightarrow>
    utf8_decode ((224 + a) # (128 + b) # (128 + c) # r) = map_option ((#) (a * 4096 + b * 64 + c)) (utf8_decode r)"
  by (simp add: cont_def)

lemma decode_four: "a < 5 \<Longrightarrow> b < 64 \<Longrightarrow> c < 64 \<Longrightarrow> d < 64 \<Longrightarrow> (a = 0 \<longrightarrow> 16 \<le> b) \<Longrightarrow> (a = 4 \<longrightarrow> b < 16) \<Longrightarrow>
    utf8_decode ((240 + a) # (128 + b) # (128 + c) # (128 + d) # r) = map_option ((#) (a * 262144 + b * 4096 + c * 64 + d)) (utf8_decode r)"
  by (simp add: cont_def)
declare utf8_decode.simps(2) [simp del]

lemma digits64: "(c :: nat) = c div 64 * 64 + c mod 64" "c mod 64 < 64"
  by simp_all

lemma decode_char: assumes "scalar c" shows "utf8_decode (utf8_char c @ r) = map_option ((#) c) (utf8_decode r)"
proof -
  define h d where "h = c div 64" and "d = c mod 64"
  define g b where "g = h div 64" and "b = h mod 64"
  define f a where "f = g div 64" and "a = g mod 64"
  have c: "c = h * 64 + d" "d < 64" using digits64 [of c] by (simp_all add: h_def d_def)
  have h: "h = g * 64 + b" "b < 64" using digits64 [of h] by (simp_all add: g_def b_def)
  have g: "g = f * 64 + a" "a < 64" using digits64 [of g] by (simp_all add: f_def a_def)
  have e: "c div 4096 = g" "c div 262144 = f" by (simp_all add: g_def h_def f_def flip: div_mult2_eq)
  have char: "utf8_char c = (if c < 128 then [c] else if c < 2048 then [192 + h, 128 + d] else if c < 65536 then [224 + g, 128 + b, 128 + d]
      else [240 + f, 128 + a, 128 + b, 128 + d])"
    unfolding utf8_char_def e by (simp add: h_def d_def b_def a_def)
  have s: "c < 55296 \<or> 57344 \<le> c \<and> c < 1114112" using assms by (simp add: scalar_def)
  consider (one) "c < 128" | (two) "128 \<le> c" "c < 2048" | (three) "2048 \<le> c" "c < 65536" | (four) "65536 \<le> c" by linarith
  then show ?thesis
  proof cases
    case two
    then have "2 \<le> h" "h < 32" using c by linarith+
    moreover have "utf8_char c = [192 + h, 128 + d]" using two by (simp add: char)
    ultimately show ?thesis using c(2) decode_two [of h d r] unfolding c(1) [symmetric] by simp
  next
    case three
    have "g < 16" "g = 0 \<longrightarrow> 32 \<le> b" "g = 13 \<longrightarrow> b < 32" using three c h s by linarith+
    moreover have v: "g * 4096 + b * 64 + d = c" using c h by linarith
    moreover have "utf8_char c = [224 + g, 128 + b, 128 + d]" using three by (simp add: char)
    ultimately show ?thesis using c(2) h(2) decode_three [of g b d r] unfolding v by simp
  next
    case four
    have "f < 5" "f = 0 \<longrightarrow> 16 \<le> a" "f = 4 \<longrightarrow> a < 16" using four c h g s by linarith+
    moreover have v: "f * 262144 + a * 4096 + b * 64 + d = c" using c h g by linarith
    moreover have "utf8_char c = [240 + f, 128 + a, 128 + b, 128 + d]" using four by (simp add: char)
    ultimately show ?thesis using c(2) h(2) g(2) decode_four [of f a b d r] unfolding v by simp
  qed (simp add: utf8_char_def utf8_decode.simps)
qed

lemma decode_encode: "list_all scalar s \<Longrightarrow> utf8_decode (utf8_encode s) = Some s"
  by (induction s) (auto simp: decode_char)

lemma newline_not_inside: "scalar c \<Longrightarrow> c \<noteq> 10 \<Longrightarrow> 10 \<notin> set (utf8_char c)"
  by (auto simp: utf8_char_def)

end
