(* ===== verification/Line_Stream.thy ===== *)
theory Line_Stream
  imports Utf8
begin

text \<open>
  Readers of a byte stream that arrives in chunks and is processed line by line, the pattern shared by the clients of the
  model providers and the transport of the Model Context Protocol: the bytes of a chunk are appended to a buffer and every
  complete line is drained from it and handled.
\<close>

section \<open>Draining the lines of a buffer\<close>

text \<open>\<open>buffer.iter().position(|byte| *byte == b'\n')\<close> and the \<open>drain(..=index)\<close> that follows.\<close>

definition take_line :: "bytes \<Rightarrow> (bytes \<times> bytes) option" where
  "take_line buf = (if 10 \<in> set buf then Some (takeWhile (\<lambda>b. b \<noteq> 10) buf, tl (dropWhile (\<lambda>b. b \<noteq> 10) buf)) else None)"

text \<open>A trailing carriage return is removed.\<close>

definition strip_cr :: "bytes \<Rightarrow> bytes" where
  "strip_cr line = (if line \<noteq> [] \<and> last line = 13 then butlast line else line)"

lemma take_line_append: "take_line a = Some (line, rest) \<Longrightarrow> take_line (a @ b) = Some (line, rest @ b)"
  by (auto simp: take_line_def takeWhile_tail takeWhile_append1 dropWhile_append1 dropWhile_eq_Nil_conv split: if_splits)

lemma take_line_length: "take_line a = Some (line, rest) \<Longrightarrow> length a = length line + Suc (length rest)"
proof -
  assume t: "take_line a = Some (line, rest)"
  have "length (takeWhile (\<lambda>b. b \<noteq> 10) a) + length (dropWhile (\<lambda>b. b \<noteq> 10) a) = length a"
    by (metis length_append takeWhile_dropWhile_id)
  moreover have "dropWhile (\<lambda>b. b \<noteq> 10) a \<noteq> []" using t by (auto simp: take_line_def dropWhile_eq_Nil_conv split: if_splits)
  ultimately show ?thesis using t by (cases "dropWhile (\<lambda>b. b \<noteq> 10) a") (auto simp: take_line_def split: if_splits)
qed

lemma take_line_None: "take_line a = None \<longleftrightarrow> 10 \<notin> set a"
  by (simp add: take_line_def)

text \<open>The loop: \<open>step\<close> handles a line and says whether to stop; what it has done so far survives an error.\<close>

function drain_lines :: "(bytes \<Rightarrow> 's \<Rightarrow> ('e, bool) result \<times> 's) \<Rightarrow> bytes \<Rightarrow> 's \<Rightarrow> ('e, bool) result \<times> bytes \<times> 's" where
  "drain_lines step buf s =
     (case take_line buf of
        None \<Rightarrow> (Inr False, buf, s)
      | Some (line, rest) \<Rightarrow>
          (case step (strip_cr line) s of
             (Inr False, s') \<Rightarrow> drain_lines step rest s'
           | (r, s') \<Rightarrow> (r, rest, s')))"
  by pat_completeness auto

termination drain_lines
  by (relation "measure (\<lambda>(step, buf, s). length buf)") (auto dest: take_line_length)

declare drain_lines.simps [simp del]

lemma drain_idle: "10 \<notin> set a \<Longrightarrow> drain_lines step a s = (Inr False, a, s)"
  by (simp add: drain_lines.simps take_line_def)

lemma drain_next: "take_line a = Some (line, rest) \<Longrightarrow> step (strip_cr line) s = (Inr False, s') \<Longrightarrow> drain_lines step a s = drain_lines step rest s'"
  by (simp add: drain_lines.simps [of step a])

lemma drain_end: "take_line a = Some (line, rest) \<Longrightarrow> step (strip_cr line) s = (r, s') \<Longrightarrow> r \<noteq> Inr False \<Longrightarrow> drain_lines step a s = (r, rest, s')"
  by (cases r) (simp_all add: drain_lines.simps [of step a])

text \<open>One line, and the lines after it.\<close>

lemma drain_cases:
  fixes step :: "bytes \<Rightarrow> 's \<Rightarrow> ('e, bool) result \<times> 's"
  obtains (idle) "10 \<notin> set a"
  | (next_line) line rest s' where "take_line a = Some (line, rest)" "step (strip_cr line) s = (Inr False, s')"
  | (last_line) line rest r s' where "take_line a = Some (line, rest)" "step (strip_cr line) s = (r, s')" "r \<noteq> Inr False"
proof (cases "take_line a")
  case None
  then show thesis using idle by (simp add: take_line_None)
next
  case (Some p)
  obtain line rest where p: "take_line a = Some (line, rest)" using Some by (cases p) auto
  obtain r s' where st: "step (strip_cr line) s = (r, s')" by (cases "step (strip_cr line) s")
  then show thesis using next_line last_line p by (cases "r = Inr False") auto
qed

definition resume_drain :: "(bytes \<Rightarrow> 's \<Rightarrow> ('e, bool) result \<times> 's) \<Rightarrow> bytes \<Rightarrow> ('e, bool) result \<times> bytes \<times> 's \<Rightarrow> ('e, bool) result \<times> bytes \<times> 's" where
  "resume_drain step b d = (case d of (r, rest, s') \<Rightarrow> if r = Inr False then drain_lines step (rest @ b) s' else (r, rest @ b, s'))"

lemma drain_append: "drain_lines step (a @ b) s = resume_drain step b (drain_lines step a s)"
proof (induction a arbitrary: s rule: measure_induct_rule [of length])
  case (less a)
  show ?case
  proof (cases rule: drain_cases [where a = a and step = step and s = s])
    case idle
    then show ?thesis by (simp add: drain_idle resume_drain_def)
  next
    case (next_line line rest s')
    then show ?thesis using less [of rest s'] take_line_length [OF next_line(1)]
      by (simp add: drain_next [where step = step, OF next_line] drain_next [where step = step, OF take_line_append [OF next_line(1)] next_line(2)])
  next
    case (last_line line rest r s')
    then show ?thesis
      by (simp add: drain_end [where step = step, OF last_line] drain_end [where step = step, OF take_line_append [OF last_line(1)] last_line(2,3)] resume_drain_def)
  qed
qed

lemma drain_rest: "drain_lines step a s = (Inr False, rest, s') \<Longrightarrow> 10 \<notin> set rest"
proof (induction a arbitrary: s rule: measure_induct_rule [of length])
  case (less a)
  show ?case
  proof (cases rule: drain_cases [where a = a and step = step and s = s])
    case (next_line line rest' s'')
    then show ?thesis using less.IH [of rest' s''] less.prems take_line_length [OF next_line(1)] by (simp add: drain_next [where step = step, OF next_line])
  next
    case (last_line line rest r s')
    then show ?thesis using less.prems by (simp add: drain_end [where step = step, OF last_line])
  qed (use less.prems in \<open>simp add: drain_idle\<close>)
qed

section \<open>Readers that do not see the chunks\<close>

text \<open>Feeding chunks one after the other, as long as the reader goes on.\<close>

fun feed :: "('c list \<Rightarrow> 's \<Rightarrow> 'r) \<Rightarrow> ('r \<Rightarrow> 's option) \<Rightarrow> 's \<Rightarrow> 'r \<Rightarrow> 'c list list \<Rightarrow> 'r" where
  "feed push goes_on s r [] = r"
| "feed push goes_on s r (c # cs) =
     (case goes_on (push c s) of None \<Rightarrow> push c s | Some s' \<Rightarrow> feed push goes_on s' (push c s) cs)"

text \<open>
  A reader is indifferent to the chunks if pushing two chunks at once is as good as pushing them in turn.  \<open>goes_on\<close> reads off
  the state to go on from, \<open>seen\<close> what the client observes of a result, \<open>accepts\<close> which input is within the reader's limits.
\<close>

locale chunk_reader =
  fixes push :: "'c list \<Rightarrow> 's \<Rightarrow> 'r" and goes_on :: "'r \<Rightarrow> 's option" and seen :: "'r \<Rightarrow> 'v" and accepts :: "'c list \<Rightarrow> 's \<Rightarrow> bool"
  assumes accepts_first: "accepts (a @ b) s \<Longrightarrow> accepts a s"
    and accepts_rest: "accepts (a @ b) s \<Longrightarrow> goes_on (push a s) = Some s' \<Longrightarrow> accepts b s'"
    and push_append: "accepts (a @ b) s \<Longrightarrow>
      seen (push (a @ b) s) = (case goes_on (push a s) of None \<Rightarrow> seen (push a s) | Some s' \<Rightarrow> seen (push b s'))"
begin

lemma feed_concat: "accepts (concat (c # cs)) s \<Longrightarrow> seen (feed push goes_on s r (c # cs)) = seen (push (concat (c # cs)) s)"
proof (induction cs arbitrary: c s r)
  case Nil
  then show ?case by (auto split: option.split)
next
  case (Cons d cs)
  have a: "accepts (c @ concat (d # cs)) s" using Cons.prems by simp
  show ?case
  proof (cases "goes_on (push c s)")
    case None
    then show ?thesis using push_append [OF a] by simp
  next
    case (Some s')
    have "seen (feed push goes_on s' (push c s) (d # cs)) = seen (push (concat (d # cs)) s')"
      by (rule Cons.IH [OF accepts_rest [OF a Some]])
    then show ?thesis using push_append [OF a] Some by simp
  qed
qed

lemma same_bytes_same_result:
  assumes "concat (c # cs) = concat (d # ds)" "accepts (concat (c # cs)) s"
  shows "seen (feed push goes_on s r (c # cs)) = seen (feed push goes_on s r' (d # ds))"
  using feed_concat [OF assms(2), of r] feed_concat [of d ds s r'] assms by simp

end

end
