(* ===== verification/Provider_Http.thy ===== *)
theory Provider_Http
  imports Loop_Types Line_Stream
begin

text \<open>
  What the clients of the model providers share (\<open>providers/http.rs\<close>, \<open>providers/profiles.rs\<close>): the classification of
  failed responses, the kinds of provider, indexing into JSON values, and how a response body arrives.  The JSON parser and
  printer, the lossy decoding of UTF-8 and the redaction of secrets are the parameter \<open>provider_lib\<close>.
\<close>

record provider_lib =
  pl_from_str :: "rstr \<Rightarrow> (rstr, json) result"
  pl_display :: "json \<Rightarrow> rstr"
  pl_redact_json :: "json \<Rightarrow> json"
  pl_redact_body :: "rstr \<Rightarrow> rstr"
  pl_lossy :: "bytes \<Rightarrow> rstr"

section \<open>Strings\<close>

text \<open>\<open>strip_prefix\<close>.\<close>

definition strip_prefix :: "rstr \<Rightarrow> rstr \<Rightarrow> rstr option" where
  "strip_prefix p s = (if starts_with p s then Some (drop (length p) s) else None)"

definition strip_space :: "rstr \<Rightarrow> rstr" where
  "strip_space s = (case strip_prefix [32] s of None \<Rightarrow> s | Some t \<Rightarrow> t)"

definition trim_end_slashes :: "rstr \<Rightarrow> rstr" where
  "trim_end_slashes s = rev (dropWhile (\<lambda>c. c = 47) (rev s))"

definition eq_ignore_ascii_case :: "rstr \<Rightarrow> rstr \<Rightarrow> bool" where
  "eq_ignore_ascii_case a b \<longleftrightarrow> to_ascii_lowercase a = to_ascii_lowercase b"

section \<open>JSON indexing\<close>

text \<open>\<open>value["key"]\<close> and \<open>value[n]\<close>: \<open>Null\<close> where there is nothing.\<close>

definition json_at :: "json \<Rightarrow> string \<Rightarrow> json" where
  "json_at v k = (case v of JObject fs \<Rightarrow> (case obj_get (str k) fs of None \<Rightarrow> JNull | Some w \<Rightarrow> w) | _ \<Rightarrow> JNull)"

definition json_nth :: "json \<Rightarrow> nat \<Rightarrow> json" where
  "json_nth v n = (case v of JArray vs \<Rightarrow> if n < length vs then vs ! n else JNull | _ \<Rightarrow> JNull)"

definition is_json_object :: "json \<Rightarrow> bool" where
  "is_json_object v \<longleftrightarrow> as_object v \<noteq> None"

definition u64_or_zero :: "json \<Rightarrow> nat" where
  "u64_or_zero v = (case as_u64 v of None \<Rightarrow> 0 | Some n \<Rightarrow> n)"

definition str_or_empty :: "json \<Rightarrow> rstr" where
  "str_or_empty v = (case json_as_str v of None \<Rightarrow> [] | Some s \<Rightarrow> s)"

text \<open>\<open>value == "text"\<close>\<close>

definition json_is :: "json \<Rightarrow> string \<Rightarrow> bool" where
  "json_is v t \<longleftrightarrow> json_as_str v = Some (str t)"

section \<open>Provider kinds\<close>

datatype ProviderKind = OpenAiCompatible | Anthropic | Qwen | DeepSeek | Ollama | SiliconFlow | MinerU

fun provider_kind_text :: "ProviderKind \<Rightarrow> rstr" where
  "provider_kind_text OpenAiCompatible = str ''open_ai_compatible''"
| "provider_kind_text Anthropic = str ''anthropic''"
| "provider_kind_text Qwen = str ''qwen''"
| "provider_kind_text DeepSeek = str ''deepseek''"
| "provider_kind_text Ollama = str ''ollama''"
| "provider_kind_text SiliconFlow = str ''siliconflow''"
| "provider_kind_text MinerU = str ''mineru''"

fun kind_supports :: "ProviderKind \<Rightarrow> ProviderCapability \<Rightarrow> bool" where
  "kind_supports DeepSeek c = (c = Chat)"
| "kind_supports SiliconFlow c = (c \<in> {Chat, Embedding, Rerank})"
| "kind_supports MinerU c = (c = DocumentParser)"
| "kind_supports _ c = (c \<in> {Chat, Embedding})"

definition parse_provider_kind :: "rstr \<Rightarrow> (rstr, ProviderKind) result" where
  "parse_provider_kind v =
     (if v = str ''open_ai_compatible'' then Inr OpenAiCompatible
      else if v = str ''anthropic'' then Inr Anthropic
      else if v = str ''qwen'' then Inr Qwen
      else if v = str ''deepseek'' then Inr DeepSeek
      else if v = str ''ollama'' then Inr Ollama
      else if v = str ''siliconflow'' then Inr SiliconFlow
      else if v = str ''mineru'' then Inr MinerU
      else Inl (str ''unsupported provider kind: '' @ v))"

lemma parse_provider_kind_text: "parse_provider_kind (provider_kind_text k) = Inr k"
  by (cases k) (simp_all add: parse_provider_kind_def)

section \<open>Failed responses\<close>

definition CONTEXT_LIMIT_NEEDLES :: "rstr list" where
  "CONTEXT_LIMIT_NEEDLES = map str [''context_length_exceeded'', ''context length'', ''maximum context'', ''prompt is too long'',
     ''input is too long'', ''too many tokens'', ''token limit'']"

definition is_context_limit :: "nat \<Rightarrow> rstr \<Rightarrow> bool" where
  "is_context_limit status body \<longleftrightarrow>
     status = 400 \<and> list_ex (\<lambda>needle. contains_str needle (to_ascii_lowercase body)) CONTEXT_LIMIT_NEEDLES"

text \<open>The headers of a response: the value of a name, if it is a string.\<close>

type_synonym header_map = "rstr \<Rightarrow> rstr option"

definition header_request_id :: "header_map \<Rightarrow> rstr option" where
  "header_request_id headers =
     (let id_of = (\<lambda>name. Option.bind (headers (str name)) (\<lambda>v. if trim v = [] then None else Some (take 256 (trim v)))) in
      case id_of ''x-deepseek-request-id'' of Some i \<Rightarrow> Some i | None \<Rightarrow> id_of ''x-request-id'')"

text \<open>\<open>rfc2822\<close> reads a date and gives the whole seconds until it, negative when it is past.\<close>

definition parse_retry_after_seconds :: "(rstr \<Rightarrow> int option) \<Rightarrow> rstr \<Rightarrow> nat option" where
  "parse_retry_after_seconds rfc2822 v =
     (case parse_uint u64_max (trim v) of
        Some n \<Rightarrow> Some n
      | None \<Rightarrow> Option.bind (rfc2822 (trim v)) (\<lambda>n. if 0 \<le> n then Some (nat n) else None))"

definition from_status_with_headers ::
  "provider_lib \<Rightarrow> (rstr \<Rightarrow> int option) \<Rightarrow> (nat \<Rightarrow> rstr option) \<Rightarrow> nat \<Rightarrow> header_map \<Rightarrow> rstr \<Rightarrow> ProviderError" where
  "from_status_with_headers L rfc2822 canonical_reason status headers body =
     (let message = pl_redact_body L body in
      \<lparr>pe_code = (if is_context_limit status body then PeContextLimit
         else if status = 401 \<or> status = 403 then PeAuthentication
         else if status = 429 then PeQuota else PeProviderResponse),
       pe_status = Some status,
       pe_message = (if trim message = [] then (case canonical_reason status of None \<Rightarrow> str ''provider request failed'' | Some r \<Rightarrow> r)
         else take 4096 message),
       pe_retry_after_seconds = Option.bind (headers (str ''retry-after'')) (parse_retry_after_seconds rfc2822),
       pe_request_id = header_request_id headers\<rparr>)"

section \<open>Bodies\<close>

definition response_error :: "rstr \<Rightarrow> ProviderError" where
  "response_error message = ProviderError_new PeProviderResponse None message"

definition MAX_RESPONSE_BODY_BYTES :: nat where
  "MAX_RESPONSE_BODY_BYTES = 16 * 1024 * 1024"

definition MAX_SSE_BUFFER_BYTES :: nat where
  "MAX_SSE_BUFFER_BYTES = 1024 * 1024"

definition size_limit_error :: ProviderError where
  "size_limit_error = ProviderError_new PeProviderResponse None (str ''provider response exceeded size limit'')"

definition append_bounded :: "bytes \<Rightarrow> bytes \<Rightarrow> nat \<Rightarrow> (ProviderError, bytes) result" where
  "append_bounded buffer bs limit = (if limit - length buffer < length bs then Inl size_limit_error else Inr (buffer @ bs))"

text \<open>
  One turn of a loop over \<open>stream.next()\<close>: the poll of the cancellation flag found it set, nothing arrived within the
  polling interval, a chunk arrived, or the connection failed.  The end of the list is the end of the stream.
\<close>

datatype arrival = PollCancelled | Waiting | Chunk bytes | Broken ProviderError

datatype body_read = Complete bytes | BodyCancelled

fun read_bounded_body :: "arrival list \<Rightarrow> bytes \<Rightarrow> (ProviderError, body_read) result" where
  "read_bounded_body [] body = Inr (Complete body)"
| "read_bounded_body (PollCancelled # as) body = Inr BodyCancelled"
| "read_bounded_body (Waiting # as) body = read_bounded_body as body"
| "read_bounded_body (Chunk c # as) body = rbind (append_bounded body c MAX_RESPONSE_BODY_BYTES) (read_bounded_body as)"
| "read_bounded_body (Broken e # as) body = Inl e"

text \<open>The bytes of a sequence of arrivals.\<close>

fun arrived :: "arrival list \<Rightarrow> bytes" where
  "arrived [] = []"
| "arrived (Chunk c # as) = c @ arrived as"
| "arrived (_ # as) = arrived as"

lemma append_bounded_Inr: "append_bounded buffer bs limit = Inr out \<longleftrightarrow> out = buffer @ bs \<and> \<not> limit - length buffer < length bs"
  by (auto simp: append_bounded_def)

lemma append_bounded_fits: "length buffer + length bs \<le> limit \<Longrightarrow> append_bounded buffer bs limit = Inr (buffer @ bs)"
  by (simp add: append_bounded_def)

lemma append_bounded_length: "append_bounded buffer bs limit = Inr out \<Longrightarrow> length buffer \<le> limit \<Longrightarrow> length out \<le> limit"
  by (auto simp: append_bounded_Inr)

lemma read_bounded_body_complete:
  assumes "read_bounded_body as body = Inr (Complete out)" "length body \<le> MAX_RESPONSE_BODY_BYTES"
  shows "out = body @ arrived as \<and> length out \<le> MAX_RESPONSE_BODY_BYTES"
  using assms
proof (induction as body rule: read_bounded_body.induct)
  case (4 c as body)
  obtain b where b: "append_bounded body c MAX_RESPONSE_BODY_BYTES = Inr b" "read_bounded_body as b = Inr (Complete out)"
    using "4.prems"(1) by (auto simp: rbind_Inr)
  then show ?case using "4.IH" [OF b] append_bounded_length [OF b(1) "4.prems"(2)] by (auto simp: append_bounded_Inr)
qed auto

text \<open>
  The request on its way: the cancellation poll found the flag set, the connection failed, or the response came.  A server is a
  function of the request.
\<close>

record http_response =
  hr_status :: nat
  hr_headers :: header_map
  hr_body :: "arrival list"

datatype sending = SendCancelled | SendFailed ProviderError | Answered http_response

definition is_success :: "nat \<Rightarrow> bool" where
  "is_success status \<longleftrightarrow> 200 \<le> status \<and> status < 300"

definition is_event_stream :: "header_map \<Rightarrow> bool" where
  "is_event_stream headers =
     (case headers (str ''content-type'') of None \<Rightarrow> False | Some v \<Rightarrow> contains_str (str ''text/event-stream'') (to_ascii_lowercase v))"

text \<open>A failed response is read for its message.\<close>

definition cancelled_response :: ChatResponse where
  "cancelled_response = ChatResponse_default\<lparr>rp_cancelled := True\<rparr>"

definition read_failure ::
  "provider_lib \<Rightarrow> (rstr \<Rightarrow> int option) \<Rightarrow> (nat \<Rightarrow> rstr option) \<Rightarrow> http_response \<Rightarrow> (ProviderError, ChatResponse) result" where
  "read_failure L rfc2822 canonical_reason h =
     rbind (read_bounded_body (hr_body h) []) (\<lambda>b. case b of
       BodyCancelled \<Rightarrow> Inr cancelled_response
     | Complete body \<Rightarrow> Inl (from_status_with_headers L rfc2822 canonical_reason (hr_status h) (hr_headers h) (pl_lossy L body)))"

section \<open>What a stream has told\<close>

text \<open>The text and the reasoning that the events of a stream carry.\<close>

definition text_of :: "ChatEvent list \<Rightarrow> rstr" where
  "text_of evs = concat (map (\<lambda>e. case e of TextDelta t \<Rightarrow> t | _ \<Rightarrow> []) evs)"

definition reasoning_of :: "ChatEvent list \<Rightarrow> rstr" where
  "reasoning_of evs = concat (map (\<lambda>e. case e of ReasoningPart t \<Rightarrow> t | _ \<Rightarrow> []) evs)"

text \<open>The last token count, and the tool calls the deltas add up to.\<close>

definition usage_of :: "ChatEvent list \<Rightarrow> chat_usage option" where
  "usage_of evs = foldl (\<lambda>u e. case e of Usage v \<Rightarrow> Some v | _ \<Rightarrow> u) None evs"

definition default_call :: chat_tool_call where
  "default_call = \<lparr>ct_id = [], ct_name = [], ct_arguments = []\<rparr>"

definition push_opt :: "rstr \<Rightarrow> rstr option \<Rightarrow> rstr" where
  "push_opt s t = (case t of None \<Rightarrow> s | Some u \<Rightarrow> s @ u)"

definition entry_or_default :: "nat \<Rightarrow> (nat, chat_tool_call) btree \<Rightarrow> chat_tool_call" where
  "entry_or_default i m = (case map_of m i of None \<Rightarrow> default_call | Some c \<Rightarrow> c)"

definition merge_delta :: "nat \<Rightarrow> rstr option \<Rightarrow> rstr option \<Rightarrow> rstr \<Rightarrow> (nat, chat_tool_call) btree \<Rightarrow> (nat, chat_tool_call) btree" where
  "merge_delta i cid name arguments m =
     (let c = entry_or_default i m in
      btree_insert i \<lparr>ct_id = push_opt (ct_id c) cid, ct_name = push_opt (ct_name c) name, ct_arguments = ct_arguments c @ arguments\<rparr> m)"

definition calls_of :: "ChatEvent list \<Rightarrow> (nat, chat_tool_call) btree" where
  "calls_of evs = foldl (\<lambda>m e. case e of ToolCallDelta i c n a \<Rightarrow> merge_delta i c n a m | _ \<Rightarrow> m) [] evs"

lemma told_simps [simp]:
  "text_of [] = []" "text_of (xs @ ys) = text_of xs @ text_of ys" "text_of (e # ys) = (case e of TextDelta t \<Rightarrow> t | _ \<Rightarrow> []) @ text_of ys"
  "reasoning_of [] = []" "reasoning_of (xs @ ys) = reasoning_of xs @ reasoning_of ys"
  "reasoning_of (e # ys) = (case e of ReasoningPart t \<Rightarrow> t | _ \<Rightarrow> []) @ reasoning_of ys"
  "usage_of [] = None" "usage_of (xs @ [e]) = (case e of Usage v \<Rightarrow> Some v | _ \<Rightarrow> usage_of xs)"
  "calls_of [] = []" "calls_of (xs @ [e]) = (case e of ToolCallDelta i c n a \<Rightarrow> merge_delta i c n a (calls_of xs) | _ \<Rightarrow> calls_of xs)"
  by (simp_all add: text_of_def reasoning_of_def usage_of_def calls_of_def split: ChatEvent.split)

end
