(* ===== verification/Sse_Client.thy ===== *)
theory Sse_Client
  imports Provider_Http
begin

text \<open>
  The loop in which both clients of the model providers read a response that is a stream of server-sent events
  (\<open>read_sse_response\<close> of \<open>providers/openai.rs\<close> and \<open>providers/anthropic.rs\<close>): the cancellation flag is polled before
  every chunk, the number of received bytes and the size of the line buffer are bounded, and every complete line goes to the
  client's \<open>step\<close>.  The clients differ in \<open>step\<close> and in what they do when the stream ends.
\<close>

section \<open>The loop\<close>

text \<open>\<open>process_sse_bytes\<close>: the chunk is appended to the line buffer and its complete lines are handled.\<close>

definition push_bytes ::
  "(bytes \<Rightarrow> 's \<Rightarrow> (ProviderError, bool) result \<times> 's) \<Rightarrow> bytes \<Rightarrow> bytes \<times> 's \<Rightarrow> (ProviderError, bool) result \<times> bytes \<times> 's" where
  "push_bytes step c st =
     (case st of (buf, s) \<Rightarrow>
        (case append_bounded buf c MAX_SSE_BUFFER_BYTES of Inl e \<Rightarrow> (Inl e, buf, s) | Inr buf' \<Rightarrow> drain_lines step buf' s))"

text \<open>How the loop is left: cancelled, the client's last event, an error, or the end of the stream.\<close>

datatype 's stream_end = StreamCancelled 's | StreamDone 's | StreamFailed ProviderError 's | StreamEnded bytes 's

fun read_chunks ::
  "(bytes \<Rightarrow> 's \<Rightarrow> (ProviderError, bool) result \<times> 's) \<Rightarrow> arrival list \<Rightarrow> nat \<Rightarrow> bytes \<times> 's \<Rightarrow> 's stream_end" where
  "read_chunks step [] received (buf, s) = StreamEnded buf s"
| "read_chunks step (PollCancelled # as) received (buf, s) = StreamCancelled s"
| "read_chunks step (Waiting # as) received (buf, s) = read_chunks step as received (buf, s)"
| "read_chunks step (Broken e # as) received (buf, s) = StreamFailed e s"
| "read_chunks step (Chunk c # as) received (buf, s) =
     (if MAX_RESPONSE_BODY_BYTES < received + length c then StreamFailed size_limit_error s
      else (case push_bytes step c (buf, s) of
              (Inl e, _, s') \<Rightarrow> StreamFailed e s'
            | (Inr True, _, s') \<Rightarrow> StreamDone s'
            | (Inr False, buf', s') \<Rightarrow> read_chunks step as (received + length c) (buf', s')))"

fun end_state :: "'s stream_end \<Rightarrow> 's" where
  "end_state (StreamCancelled s) = s"
| "end_state (StreamDone s) = s"
| "end_state (StreamFailed e s) = s"
| "end_state (StreamEnded buf s) = s"

section \<open>The loop does not see the chunks\<close>

definition goes_on_bytes :: "(ProviderError, bool) result \<times> bytes \<times> 's \<Rightarrow> (bytes \<times> 's) option" where
  "goes_on_bytes d = (case d of (Inr False, buf, s) \<Rightarrow> Some (buf, s) | _ \<Rightarrow> None)"

text \<open>Once the client has stopped nobody looks at the line buffer.\<close>

definition seen_bytes :: "(ProviderError, bool) result \<times> bytes \<times> 's \<Rightarrow> 's stream_end" where
  "seen_bytes d =
     (case d of (Inl e, _, s) \<Rightarrow> StreamFailed e s | (Inr True, _, s) \<Rightarrow> StreamDone s | (Inr False, buf, s) \<Rightarrow> StreamEnded buf s)"

lemma push_bytes_fits: "length buf + length c \<le> MAX_SSE_BUFFER_BYTES \<Longrightarrow> push_bytes step c (buf, s) = drain_lines step (buf @ c) s"
  by (simp add: push_bytes_def append_bounded_fits)

text \<open>What \<open>push_bytes\<close> does as long as the buffer does not overflow.\<close>

definition drain_bytes ::
  "(bytes \<Rightarrow> 's \<Rightarrow> (ProviderError, bool) result \<times> 's) \<Rightarrow> bytes \<Rightarrow> bytes \<times> 's \<Rightarrow> (ProviderError, bool) result \<times> bytes \<times> 's" where
  "drain_bytes step c st = (case st of (buf, s) \<Rightarrow> drain_lines step (buf @ c) s)"

lemma goes_on_bytes_Some: "goes_on_bytes d = Some (buf, s) \<longleftrightarrow> d = (Inr False, buf, s)"
  by (auto simp: goes_on_bytes_def split: prod.splits sum.splits bool.splits)

lemma goes_on_bytes_None: "goes_on_bytes d = None \<longleftrightarrow> fst d \<noteq> Inr False"
  by (auto simp: goes_on_bytes_def split: prod.splits sum.splits bool.splits)

interpretation sse: chunk_reader "drain_bytes step" goes_on_bytes seen_bytes "\<lambda>_ _. True"
  for step :: "bytes \<Rightarrow> 's \<Rightarrow> (ProviderError, bool) result \<times> 's"
proof unfold_locales
  fix a b :: bytes and st :: "bytes \<times> 's"
  obtain buf s where st: "st = (buf, s)" by (cases st)
  obtain r rest s' where d: "drain_lines step (buf @ a) s = (r, rest, s')" by (cases "drain_lines step (buf @ a) s")
  have push: "drain_bytes step a st = (r, rest, s')" "drain_bytes step (a @ b) st = resume_drain step b (r, rest, s')"
    using d drain_append [of step "buf @ a" b s] by (simp_all add: st drain_bytes_def)
  show "seen_bytes (drain_bytes step (a @ b) st) =
      (case goes_on_bytes (drain_bytes step a st) of None \<Rightarrow> seen_bytes (drain_bytes step a st) | Some s' \<Rightarrow> seen_bytes (drain_bytes step b s'))"
    unfolding push by (cases "r = Inr False") (auto simp: drain_bytes_def resume_drain_def goes_on_bytes_def seen_bytes_def split: sum.splits bool.splits)
qed simp_all

text \<open>The line that is not complete yet, and chunks none of which overflows the buffer that holds this line.\<close>

definition open_line :: "bytes \<Rightarrow> bytes" where
  "open_line bs = rev (takeWhile (\<lambda>b. b \<noteq> 10) (rev bs))"

fun fits_buffer :: "bytes \<Rightarrow> bytes list \<Rightarrow> bool" where
  "fits_buffer buf [] = True"
| "fits_buffer buf (c # cs) = (length buf + length c \<le> MAX_SSE_BUFFER_BYTES \<and> fits_buffer (open_line (buf @ c)) cs)"

lemma open_line_idle: "10 \<notin> set a \<Longrightarrow> open_line a = a"
proof -
  assume "10 \<notin> set a"
  then have "takeWhile (\<lambda>b. b \<noteq> 10) (rev a) = rev a" by (intro takeWhile_eq_all_conv [THEN iffD2]) auto
  then show ?thesis unfolding open_line_def by (simp only: rev_rev_ident)
qed

lemma open_line_next: "take_line a = Some (line, rest) \<Longrightarrow> open_line a = open_line rest"
proof -
  assume t: "take_line a = Some (line, rest)"
  then have m: "10 \<in> set a" by (simp add: take_line_def split: if_splits)
  then obtain x xs where d: "dropWhile (\<lambda>b. b \<noteq> 10) a = x # xs" by (cases "dropWhile (\<lambda>b. b \<noteq> 10) a") (auto simp: dropWhile_eq_Nil_conv)
  then have "x = 10" using hd_dropWhile [of "\<lambda>b. b \<noteq> 10" a] by simp
  moreover have "rest = xs" using t m d by (simp add: take_line_def)
  ultimately have "a = takeWhile (\<lambda>b. b \<noteq> 10) a @ 10 # rest" using d by (metis takeWhile_dropWhile_id)
  then have "rev a = rev rest @ 10 # rev (takeWhile (\<lambda>b. b \<noteq> 10) a)" by (metis append_Cons append_Nil append_assoc rev.simps(2) rev_append)
  then show ?thesis by (simp add: open_line_def takeWhile_tail)
qed

lemma drain_leaves: "drain_lines step a s = (Inr False, rest, s') \<Longrightarrow> rest = open_line a"
proof (induction a arbitrary: s rule: measure_induct_rule [of length])
  case (less a)
  show ?case
  proof (cases rule: drain_cases [where a = a and step = step and s = s])
    case (next_line line rest' s'')
    then show ?thesis using less.IH [of rest' s''] less.prems take_line_length [OF next_line(1)]
      by (simp add: drain_next [where step = step, OF next_line] open_line_next)
  next
    case (last_line line rest r s')
    then show ?thesis using less.prems by (simp add: drain_end [where step = step, OF last_line])
  qed (use less.prems in \<open>simp add: drain_idle open_line_idle\<close>)
qed

text \<open>A sequence of arrivals that is neither cancelled nor broken off, and its chunks.\<close>

definition undisturbed :: "arrival list \<Rightarrow> bool" where
  "undisturbed as \<longleftrightarrow> list_all (\<lambda>a. case a of Waiting \<Rightarrow> True | Chunk c \<Rightarrow> True | _ \<Rightarrow> False) as"

fun chunks :: "arrival list \<Rightarrow> bytes list" where
  "chunks [] = []"
| "chunks (Chunk c # as) = c # chunks as"
| "chunks (_ # as) = chunks as"

lemma concat_chunks: "concat (chunks as) = arrived as"
  by (induction as rule: chunks.induct) auto

lemma read_chunks_feed:
  assumes "undisturbed as" "received + length (arrived as) \<le> MAX_RESPONSE_BODY_BYTES" "fits_buffer buf (chunks as)"
  shows "read_chunks step as received (buf, s) = seen_bytes (feed (drain_bytes step) goes_on_bytes (buf, s) (Inr False, buf, s) (chunks as))"
  using assms
proof (induction step as received "(buf, s)" arbitrary: buf s rule: read_chunks.induct)
  case (5 step c as received buf s)
  obtain r rest s' where d: "drain_lines step (buf @ c) s = (r, rest, s')" by (cases "drain_lines step (buf @ c) s")
  have p: "push_bytes step c (buf, s) = (r, rest, s')" using d "5.prems"(3) by (simp add: push_bytes_fits)
  have b: "\<not> MAX_RESPONSE_BODY_BYTES < received + length c" using "5.prems"(2) by simp
  show ?case
  proof (cases "r = Inr False")
    case True
    have "fits_buffer rest (chunks as)" using "5.prems"(3) drain_leaves [of step "buf @ c" s rest s'] d True by simp
    then have "read_chunks step as (received + length c) (rest, s') = seen_bytes (feed (drain_bytes step) goes_on_bytes (rest, s') (Inr False, rest, s') (chunks as))"
      using "5.hyps" [OF b, of "Inr False" "(rest, s')" False rest s'] p True "5.prems"(1,2) by (simp add: undisturbed_def)
    then show ?thesis using b p d True by (simp add: goes_on_bytes_def drain_bytes_def)
  qed (use b p d in \<open>auto simp: goes_on_bytes_def seen_bytes_def drain_bytes_def split: sum.splits bool.splits\<close>)
qed (simp_all add: undisturbed_def seen_bytes_def)

text \<open>The loop on a stream within the limits: what one drain of all its bytes gives.\<close>

definition within_limits :: "arrival list \<Rightarrow> bool" where
  "within_limits as \<longleftrightarrow> length (arrived as) \<le> MAX_RESPONSE_BODY_BYTES \<and> fits_buffer [] (chunks as)"

lemma read_chunks_whole:
  assumes "undisturbed as" "within_limits as"
  shows "read_chunks step as 0 ([], s) = seen_bytes (drain_lines step (arrived as) s)"
proof -
  have f: "read_chunks step as 0 ([], s) = seen_bytes (feed (drain_bytes step) goes_on_bytes ([], s) (Inr False, [], s) (chunks as))"
    using read_chunks_feed [OF assms(1), of 0 "[]"] assms(2) by (simp add: within_limits_def)
  show ?thesis
  proof (cases "chunks as")
    case Nil
    then have "arrived as = []" by (simp flip: concat_chunks)
    then show ?thesis using f Nil by (simp add: drain_idle)
  next
    case (Cons c cs)
    have "concat (c # cs) = arrived as" using Cons concat_chunks [of as] by simp
    with sse.feed_concat [OF TrueI, of step "([], s)" _ c cs] show ?thesis using f Cons by (simp add: drain_bytes_def)
  qed
qed

section \<open>Clients that tell what they accumulate\<close>

text \<open>
  The contract of a client's \<open>step\<close>: an agreement between what it has accumulated and what it has told its listener, kept by
  every line, whatever the line brings.  The loop keeps it on every way out, errors and cancellation included.
\<close>

locale telling_client =
  fixes step :: "bytes \<Rightarrow> 's \<Rightarrow> (ProviderError, bool) result \<times> 's" and agrees :: "'s \<Rightarrow> bool"
  assumes step_agrees: "agrees s \<Longrightarrow> step line s = (r, s') \<Longrightarrow> agrees s'"
begin

lemma drain_agrees: "agrees s \<Longrightarrow> drain_lines step a s = (r, rest, s') \<Longrightarrow> agrees s'"
proof (induction a arbitrary: s rule: measure_induct_rule [of length])
  case (less a)
  show ?case
  proof (cases rule: drain_cases [where a = a and step = step and s = s])
    case (next_line line rest' s'')
    then show ?thesis using less.IH [of rest' s''] less.prems take_line_length [OF next_line(1)] step_agrees [OF less.prems(1) next_line(2)]
      by (simp add: drain_next [where step = step, OF next_line])
  next
    case (last_line line rest r s')
    then show ?thesis using less.prems step_agrees [OF less.prems(1) last_line(2)] by (simp add: drain_end [where step = step, OF last_line])
  qed (use less.prems in \<open>simp add: drain_idle\<close>)
qed

lemma push_agrees: "agrees s \<Longrightarrow> push_bytes step c (buf, s) = (r, rest, s') \<Longrightarrow> agrees s'"
  by (auto simp: push_bytes_def split: sum.splits dest: drain_agrees)

lemma read_chunks_agrees: "agrees s \<Longrightarrow> agrees (end_state (read_chunks step as received (buf, s)))"
proof (induction as arbitrary: received buf s)
  case (Cons a as)
  show ?case
  proof (cases a)
    case (Chunk c)
    obtain r rest s' where p: "push_bytes step c (buf, s) = (r, rest, s')" by (cases "push_bytes step c (buf, s)")
    then have "agrees s'" using push_agrees Cons.prems by blast
    then show ?thesis using Chunk p Cons by (auto split: sum.splits bool.splits)
  qed (use Cons in auto)
qed simp

end

end
