(* ===== verification/Provider_Openai.thy ===== *)
theory Provider_Openai
  imports Sse_Client
begin

text \<open>
  The client of OpenAI-compatible providers (\<open>providers/openai.rs\<close>): the request it sends, the accumulator into which a
  streamed or a plain response is read, and the events its listener is told meanwhile.
\<close>

section \<open>The accumulator\<close>

record ChatAccumulator =
  ca_text :: rstr
  ca_reasoning :: rstr
  ca_tool_calls :: "(nat, chat_tool_call) btree"
  ca_usage :: "chat_usage option"
  ca_finish_reason :: "rstr option"

definition ChatAccumulator_default :: ChatAccumulator where
  "ChatAccumulator_default = \<lparr>ca_text = [], ca_reasoning = [], ca_tool_calls = [], ca_usage = None, ca_finish_reason = None\<rparr>"

definition accumulator_response :: "ChatAccumulator \<Rightarrow> bool \<Rightarrow> ChatResponse" where
  "accumulator_response a cancelled =
     \<lparr>rp_text = ca_text a, rp_reasoning = ca_reasoning a, rp_tool_calls = map snd (ca_tool_calls a), rp_usage = ca_usage a,
      rp_finish_reason = ca_finish_reason a, rp_cancelled = cancelled\<rparr>"

text \<open>The mutable state of a reader: the data lines of the event under way, the accumulator, the events told.\<close>

record sse_state =
  ss_data :: "rstr list"
  ss_acc :: ChatAccumulator
  ss_told :: "ChatEvent list"

definition sse_start :: sse_state where
  "sse_start = \<lparr>ss_data = [], ss_acc = ChatAccumulator_default, ss_told = []\<rparr>"

definition tell :: "ChatEvent \<Rightarrow> sse_state \<Rightarrow> sse_state" where
  "tell e s = s\<lparr>ss_told := ss_told s @ [e]\<rparr>"

definition update_acc :: "(ChatAccumulator \<Rightarrow> ChatAccumulator) \<Rightarrow> sse_state \<Rightarrow> sse_state" where
  "update_acc f s = s\<lparr>ss_acc := f (ss_acc s)\<rparr>"

section \<open>One value of a response\<close>

definition openai_delta :: "json \<Rightarrow> json" where
  "openai_delta choice = (if is_json_object (json_at choice ''delta'') then json_at choice ''delta'' else json_at choice ''message'')"

definition apply_content :: "json \<Rightarrow> json \<Rightarrow> sse_state \<Rightarrow> sse_state" where
  "apply_content delta choice s =
     (case (case json_as_str (json_at delta ''content'') of Some c \<Rightarrow> Some c | None \<Rightarrow> json_as_str (json_at choice ''text'')) of
        None \<Rightarrow> s
      | Some content \<Rightarrow> tell (TextDelta content) (update_acc (\<lambda>a. a\<lparr>ca_text := ca_text a @ content\<rparr>) s))"

definition apply_reasoning :: "json \<Rightarrow> sse_state \<Rightarrow> sse_state" where
  "apply_reasoning delta s =
     (case json_as_str (json_at delta ''reasoning_content'') of
        None \<Rightarrow> s
      | Some r \<Rightarrow>
          (let s = update_acc (\<lambda>a. a\<lparr>ca_reasoning := ca_reasoning a @ r\<rparr>) s in
           if r = [] then s else tell (ReasoningPart r) s))"

definition apply_tool_call :: "nat \<Rightarrow> json \<Rightarrow> sse_state \<Rightarrow> sse_state" where
  "apply_tool_call position call s =
     (let index = (case as_u64 (json_at call ''index'') of None \<Rightarrow> position | Some i \<Rightarrow> i);
          cid = json_as_str (json_at call ''id'');
          name = json_as_str (json_at (json_at call ''function'') ''name'');
          arguments = str_or_empty (json_at (json_at call ''function'') ''arguments'') in
      tell (ToolCallDelta index cid name arguments)
        (update_acc (\<lambda>a. a\<lparr>ca_tool_calls := merge_delta index cid name arguments (ca_tool_calls a)\<rparr>) s))"

definition apply_tool_calls :: "json \<Rightarrow> sse_state \<Rightarrow> sse_state" where
  "apply_tool_calls delta s =
     (case as_array (json_at delta ''tool_calls'') of
        None \<Rightarrow> s
      | Some calls \<Rightarrow> foldl (\<lambda>s (position, call). apply_tool_call position call s) s (enumerate 0 calls))"

definition apply_finish :: "json \<Rightarrow> sse_state \<Rightarrow> sse_state" where
  "apply_finish choice s =
     (case json_as_str (json_at choice ''finish_reason'') of None \<Rightarrow> s | Some r \<Rightarrow> update_acc (\<lambda>a. a\<lparr>ca_finish_reason := Some r\<rparr>) s)"

definition openai_usage :: "json \<Rightarrow> chat_usage" where
  "openai_usage usage =
     (let prompt_tokens = u64_or_zero (json_at usage ''prompt_tokens'');
          completion_tokens = u64_or_zero (json_at usage ''completion_tokens'') in
      \<lparr>u_prompt_tokens = prompt_tokens, u_completion_tokens = completion_tokens,
       u_total_tokens = sat_u64 prompt_tokens completion_tokens,
       u_cache_read_tokens = (case as_u64 (json_at (json_at usage ''prompt_tokens_details'') ''cached_tokens'') of
          Some n \<Rightarrow> n | None \<Rightarrow> u64_or_zero (json_at usage ''prompt_cache_hit_tokens'')),
       u_reasoning_tokens = u64_or_zero (json_at (json_at usage ''completion_tokens_details'') ''reasoning_tokens'')\<rparr>)"

definition apply_usage :: "json \<Rightarrow> sse_state \<Rightarrow> sse_state" where
  "apply_usage value s =
     (if is_json_object (json_at value ''usage'')
      then (let usage = openai_usage (json_at value ''usage'') in tell (Usage usage) (update_acc (\<lambda>a. a\<lparr>ca_usage := Some usage\<rparr>) s))
      else s)"

definition apply_openai_value :: "provider_lib \<Rightarrow> json \<Rightarrow> sse_state \<Rightarrow> (ProviderError, unit) result \<times> sse_state" where
  "apply_openai_value L value s =
     (if json_at value ''error'' \<noteq> JNull
      then (Inl (response_error (pl_display L (pl_redact_json L (json_at value ''error'')))), s)
      else
        (let choice = json_nth (json_at value ''choices'') 0; delta = openai_delta choice in
         (Inr (), apply_usage value (apply_finish choice (apply_tool_calls delta (apply_reasoning delta (apply_content delta choice s)))))))"

section \<open>Server-sent events\<close>

definition process_sse_event :: "provider_lib \<Rightarrow> bool \<Rightarrow> sse_state \<Rightarrow> (ProviderError, bool) result \<times> sse_state" where
  "process_sse_event L strict s =
     (if ss_data s = [] then (Inr False, s)
      else
        (let payload = trim (join [10] (ss_data s)); s = s\<lparr>ss_data := []\<rparr> in
         if payload = [] then (Inr False, s)
         else if payload = str ''[DONE]'' then (Inr True, s)
         else (case pl_from_str L payload of
                 Inl error \<Rightarrow>
                   if strict then (Inl (response_error (str ''provider returned malformed SSE JSON: '' @ error)), s) else (Inr False, s)
               | Inr value \<Rightarrow>
                   (case apply_openai_value L value s of (Inl e, s') \<Rightarrow> (Inl e, s') | (Inr _, s') \<Rightarrow> (Inr False, s')))))"

text \<open>The body of the loop over lines; a line that is not UTF-8 is skipped.\<close>

definition openai_line :: "provider_lib \<Rightarrow> bool \<Rightarrow> bytes \<Rightarrow> sse_state \<Rightarrow> (ProviderError, bool) result \<times> sse_state" where
  "openai_line L strict line s =
     (case utf8_decode line of
        None \<Rightarrow> (Inr False, s)
      | Some text \<Rightarrow>
          if text = [] then process_sse_event L strict s
          else (case strip_prefix (str ''data:'') text of
                  None \<Rightarrow> (Inr False, s)
                | Some payload \<Rightarrow> (Inr False, s\<lparr>ss_data := ss_data s @ [strip_space payload]\<rparr>)))"

definition process_sse_bytes_with_mode ::
  "provider_lib \<Rightarrow> bool \<Rightarrow> bytes \<Rightarrow> bytes \<times> sse_state \<Rightarrow> (ProviderError, bool) result \<times> bytes \<times> sse_state" where
  "process_sse_bytes_with_mode L strict = push_bytes (openai_line L strict)"

text \<open>After the end of the stream: the unterminated line, the unterminated event, and whether the response is complete.\<close>

definition openai_flush :: "provider_lib \<Rightarrow> bool \<Rightarrow> bytes \<Rightarrow> sse_state \<Rightarrow> (ProviderError, ChatResponse) result \<times> sse_state" where
  "openai_flush L strict buf s =
     (case (if buf = [] then (Inr False, [], s) else process_sse_bytes_with_mode L strict [10] (buf, s)) of
        (Inl e, _, s) \<Rightarrow> (Inl e, s)
      | (Inr True, _, s) \<Rightarrow> (Inr (accumulator_response (ss_acc s) False), s)
      | (Inr False, _, s) \<Rightarrow>
          (case (if ss_data s = [] then (Inr False, s) else process_sse_event L strict s) of
             (Inl e, s) \<Rightarrow> (Inl e, s)
           | (Inr True, s) \<Rightarrow> (Inr (accumulator_response (ss_acc s) False), s)
           | (Inr False, s) \<Rightarrow>
               (if \<not> strict \<and> ca_finish_reason (ss_acc s) \<noteq> None then (Inr (accumulator_response (ss_acc s) False), s)
                else (Inl (response_error (str ''provider SSE stream ended before completion'')), s))))"

definition read_sse_response :: "provider_lib \<Rightarrow> bool \<Rightarrow> arrival list \<Rightarrow> (ProviderError, ChatResponse) result \<times> sse_state" where
  "read_sse_response L strict as =
     (case read_chunks (openai_line L strict) as 0 ([], sse_start) of
        StreamCancelled s \<Rightarrow> (Inr (accumulator_response (ss_acc s) True), s)
      | StreamDone s \<Rightarrow> (Inr (accumulator_response (ss_acc s) False), s)
      | StreamFailed e s \<Rightarrow> (Inl e, s)
      | StreamEnded buf s \<Rightarrow> openai_flush L strict buf s)"

section \<open>A response in one piece\<close>

definition read_json_response :: "provider_lib \<Rightarrow> rstr \<Rightarrow> (ProviderError, ChatResponse) result \<times> sse_state" where
  "read_json_response L body =
     (case pl_from_str L body of
        Inl _ \<Rightarrow> (Inl (response_error (str ''provider returned invalid JSON'')), sse_start)
      | Inr value \<Rightarrow>
          (case apply_openai_value L value sse_start of
             (Inl e, s) \<Rightarrow> (Inl e, s)
           | (Inr _, s) \<Rightarrow> (Inr (accumulator_response (ss_acc s) False), s)))"

definition normalize_usage :: "ProviderKind \<Rightarrow> ChatResponse \<Rightarrow> ChatResponse" where
  "normalize_usage kind response =
     (if kind = DeepSeek
      then (case rp_usage response of
              None \<Rightarrow> response
            | Some u \<Rightarrow>
                (let prompt = u_prompt_tokens u - u_cache_read_tokens u in
                 response\<lparr>rp_usage := Some (u\<lparr>u_prompt_tokens := prompt, u_total_tokens := sat_u64 prompt (u_completion_tokens u)\<rparr>)\<rparr>))
      else response)"

section \<open>The request\<close>

record openai_chat_message =
  om_role :: rstr
  om_content :: json
  om_reasoning_content :: "rstr option"
  om_tool_call_id :: "rstr option"
  om_tool_calls :: "chat_tool_call list"

definition text_part :: "rstr \<Rightarrow> json" where
  "text_part t = JObject [(str ''text'', JString t), (str ''type'', JString (str ''text''))]"

definition openai_image :: "rstr \<times> rstr \<Rightarrow> json" where
  "openai_image im =
     JObject [(str ''image_url'', JObject [(str ''url'', JString (str ''data:'' @ snd im @ str '';base64,'' @ fst im))]),
       (str ''type'', JString (str ''image_url''))]"

definition openai_message_content :: "chat_message \<Rightarrow> json" where
  "openai_message_content m =
     (if cm_images m = [] then JString (cm_content m)
      else JArray ((if cm_content m = [] then [] else [text_part (cm_content m)]) @ map openai_image (cm_images m)))"

definition openai_message :: "chat_message \<Rightarrow> openai_chat_message" where
  "openai_message m =
     \<lparr>om_role = cm_role m, om_content = openai_message_content m,
      om_reasoning_content = Option.bind (cm_reasoning_content m) (\<lambda>v. if v \<noteq> [] \<and> cm_tool_calls m \<noteq> [] then Some v else None),
      om_tool_call_id = cm_tool_call_id m, om_tool_calls = cm_tool_calls m\<rparr>"

definition unsupported_effort :: "rstr \<Rightarrow> ProviderError" where
  "unsupported_effort v = ProviderError_new PeUnsupportedCapability None (str ''unsupported DeepSeek reasoning effort: '' @ v)"

definition effort_or_high :: "rstr option \<Rightarrow> rstr" where
  "effort_or_high effort = (case effort of None \<Rightarrow> str ''high'' | Some v \<Rightarrow> v)"

definition deepseek_thinking :: "ProviderKind \<Rightarrow> rstr option \<Rightarrow> (ProviderError, json option) result" where
  "deepseek_thinking kind effort =
     (if kind \<noteq> DeepSeek then Inr None
      else (let v = effort_or_high effort in
            if v = str ''off'' then Inr (Some (JObject [(str ''type'', JString (str ''disabled''))]))
            else if v = str ''high'' \<or> v = str ''max'' then Inr (Some (JObject [(str ''type'', JString (str ''enabled''))]))
            else Inl (unsupported_effort v)))"

definition deepseek_reasoning_effort :: "ProviderKind \<Rightarrow> rstr option \<Rightarrow> (ProviderError, rstr option) result" where
  "deepseek_reasoning_effort kind effort =
     (if kind \<noteq> DeepSeek then Inr None
      else (let v = effort_or_high effort in
            if v = str ''off'' then Inr None
            else if v = str ''high'' \<or> v = str ''max'' then Inr (Some v)
            else Inl (unsupported_effort v)))"

text \<open>The fields of a request that the loop leaves empty.\<close>

record request_options =
  ro_response_format :: "json option"
  ro_reasoning_effort :: "rstr option"
  ro_stop :: "rstr list option"

record openai_request =
  or_model :: rstr
  or_messages :: "openai_chat_message list"
  or_stream :: bool
  or_temperature :: nat
  or_stream_options :: json
  or_thinking :: "json option"
  or_reasoning_effort :: "rstr option"
  or_max_tokens :: "nat option"
  or_stop :: "rstr list option"
  or_tools :: "json option"
  or_response_format :: "json option"

definition openai_request_body :: "ProviderKind \<Rightarrow> ProviderCapabilities \<Rightarrow> ChatRequest \<Rightarrow> request_options \<Rightarrow> (ProviderError, openai_request) result" where
  "openai_request_body kind caps q options =
     rbind (deepseek_thinking kind (ro_reasoning_effort options)) (\<lambda>thinking.
     rbind (deepseek_reasoning_effort kind (ro_reasoning_effort options)) (\<lambda>effort.
     Inr \<lparr>or_model = pc_model_id caps, or_messages = map openai_message (cq_messages q), or_stream = True,
       or_temperature = cq_temperature q, or_stream_options = JObject [(str ''include_usage'', JBool True)],
       or_thinking = thinking, or_reasoning_effort = effort, or_max_tokens = cq_max_tokens q, or_stop = ro_stop options,
       or_tools = cq_tools q, or_response_format = ro_response_format options\<rparr>))"

text \<open>\<open>chat\<close>: the result, and the events the listener was told on the way to it.\<close>

definition openai_read :: "provider_lib \<Rightarrow> (rstr \<Rightarrow> int option) \<Rightarrow> (nat \<Rightarrow> rstr option) \<Rightarrow> ProviderKind \<Rightarrow> http_response
    \<Rightarrow> (ProviderError, ChatResponse) result \<times> ChatEvent list" where
  "openai_read L rfc2822 canonical_reason kind h =
     (let normalized = (\<lambda>(r, s). (rbind r (\<lambda>p. Inr (normalize_usage kind p)), ss_told s)) in
      if \<not> is_success (hr_status h) then (read_failure L rfc2822 canonical_reason h, [])
      else if is_event_stream (hr_headers h) then normalized (read_sse_response L (kind = DeepSeek) (hr_body h))
      else (case read_bounded_body (hr_body h) [] of
              Inl e \<Rightarrow> (Inl e, [])
            | Inr BodyCancelled \<Rightarrow> (Inr cancelled_response, [])
            | Inr (Complete body) \<Rightarrow>
                (case utf8_decode body of
                   None \<Rightarrow> (Inl (response_error (str ''provider returned non-UTF-8 JSON'')), [])
                 | Some text \<Rightarrow> normalized (read_json_response L text))))"

definition openai_chat :: "provider_lib \<Rightarrow> (rstr \<Rightarrow> int option) \<Rightarrow> (nat \<Rightarrow> rstr option) \<Rightarrow> ProviderKind \<Rightarrow> ProviderCapabilities
    \<Rightarrow> (openai_request \<Rightarrow> sending) \<Rightarrow> bool \<Rightarrow> ChatRequest \<Rightarrow> request_options \<Rightarrow> (ProviderError, ChatResponse) result \<times> ChatEvent list" where
  "openai_chat L rfc2822 canonical_reason kind caps server cancelled q options =
     (case require_capability caps Chat of
        Inl e \<Rightarrow> (Inl e, [])
      | Inr _ \<Rightarrow>
          if cancelled then (Inr cancelled_response, [])
          else if kind = DeepSeek \<and> list_ex (\<lambda>m. cm_images m \<noteq> []) (cq_messages q)
          then (Inl (ProviderError_new PeUnsupportedCapability None (str ''DeepSeek chat-completions does not support image content'')), [])
          else (case openai_request_body kind caps q options of
                  Inl e \<Rightarrow> (Inl e, [])
                | Inr body \<Rightarrow>
                    (case server body of
                       SendCancelled \<Rightarrow> (Inr cancelled_response, [])
                     | SendFailed e \<Rightarrow> (Inl e, [])
                     | Answered h \<Rightarrow> openai_read L rfc2822 canonical_reason kind h)))"

section \<open>Endpoints\<close>

definition normalize_openai_chat_url :: "rstr \<Rightarrow> rstr" where
  "normalize_openai_chat_url base_url =
     (let base = trim_end_slashes (trim base_url) in
      if ends_with (str ''/chat/completions'') base then base else base @ str ''/chat/completions'')"

definition default_openai_base_url :: "rstr \<Rightarrow> rstr option" where
  "default_openai_base_url provider =
     (let provider = trim provider in
      if eq_ignore_ascii_case provider (str ''deepseek'') then Some (str ''https://api.deepseek.com'')
      else if eq_ignore_ascii_case provider (str ''anthropic'') then Some (str ''https://api.anthropic.com/v1'')
      else if eq_ignore_ascii_case provider (str ''qwen'') then Some (str ''https://dashscope.aliyuncs.com/compatible-mode/v1'')
      else if eq_ignore_ascii_case provider (str ''openai'') then Some (str ''https://api.openai.com/v1'')
      else None)"

section \<open>What is told is what is accumulated\<close>

definition openai_agrees :: "sse_state \<Rightarrow> bool" where
  "openai_agrees s \<longleftrightarrow> ca_text (ss_acc s) = text_of (ss_told s) \<and> ca_reasoning (ss_acc s) = reasoning_of (ss_told s)
     \<and> ca_tool_calls (ss_acc s) = calls_of (ss_told s) \<and> ca_usage (ss_acc s) = usage_of (ss_told s)"

lemmas agree_defs = openai_agrees_def tell_def update_acc_def

lemma agrees_start: "openai_agrees sse_start"
  by (simp add: openai_agrees_def sse_start_def ChatAccumulator_default_def)

lemma agrees_data [simp]: "openai_agrees (s\<lparr>ss_data := d\<rparr>) = openai_agrees s"
  by (simp add: openai_agrees_def)

lemma agrees_content: "openai_agrees s \<Longrightarrow> openai_agrees (apply_content delta choice s)"
  by (auto simp: apply_content_def agree_defs split: option.split)

lemma agrees_reasoning: "openai_agrees s \<Longrightarrow> openai_agrees (apply_reasoning delta s)"
  by (auto simp: apply_reasoning_def agree_defs Let_def split: option.split)

lemma agrees_tool_call: "openai_agrees s \<Longrightarrow> openai_agrees (apply_tool_call p call s)"
  by (simp add: apply_tool_call_def agree_defs Let_def)

lemma agrees_tool_calls: "openai_agrees s \<Longrightarrow> openai_agrees (apply_tool_calls delta s)"
proof -
  have "openai_agrees s \<Longrightarrow> openai_agrees (foldl (\<lambda>s (p, call). apply_tool_call p call s) s ps)" for ps s
    by (induction ps arbitrary: s) (auto simp: agrees_tool_call)
  then show "openai_agrees s \<Longrightarrow> openai_agrees (apply_tool_calls delta s)" by (auto simp: apply_tool_calls_def split: option.split)
qed

lemma agrees_finish: "openai_agrees s \<Longrightarrow> openai_agrees (apply_finish choice s)"
  by (auto simp: apply_finish_def agree_defs split: option.split)

lemma agrees_usage: "openai_agrees s \<Longrightarrow> openai_agrees (apply_usage value s)"
  by (auto simp: apply_usage_def agree_defs Let_def)

lemma agrees_value: "openai_agrees s \<Longrightarrow> openai_agrees (snd (apply_openai_value L value s))"
  by (simp add: apply_openai_value_def Let_def agrees_content agrees_reasoning agrees_tool_calls agrees_finish agrees_usage)

lemma agrees_event: "openai_agrees s \<Longrightarrow> openai_agrees (snd (process_sse_event L strict s))"
proof -
  assume a: "openai_agrees s"
  have v: "openai_agrees (snd (apply_openai_value L v (s\<lparr>ss_data := []\<rparr>)))" for v using a by (simp add: agrees_value)
  have w: "openai_agrees (snd (case apply_openai_value L v (s\<lparr>ss_data := []\<rparr>) of (Inl e, s') \<Rightarrow> (Inl e, s') | (Inr _, s') \<Rightarrow> (Inr False, s')))" for v
    using v [of v] by (auto split: prod.split sum.split)
  show ?thesis using a w by (simp add: process_sse_event_def Let_def split: sum.split)
qed

lemma agrees_line: "openai_agrees s \<Longrightarrow> openai_agrees (snd (openai_line L strict line s))"
  by (auto simp: openai_line_def agrees_event split: option.split)

interpretation openai: telling_client "openai_line L strict" openai_agrees for L strict
  by unfold_locales (metis agrees_line snd_conv)

lemma agrees_flush: "openai_agrees s \<Longrightarrow> openai_agrees (snd (openai_flush L strict buf s))"
proof -
  assume a: "openai_agrees s"
  obtain r rest s' where p: "(if buf = [] then (Inr False, [], s) else process_sse_bytes_with_mode L strict [10] (buf, s)) = (r, rest, s')"
    by (metis prod_cases3)
  have a': "openai_agrees s'"
    using p a openai.push_agrees [OF a] by (auto simp: process_sse_bytes_with_mode_def split: if_splits)
  obtain r' s'' where q: "(if ss_data s' = [] then (Inr False, s') else process_sse_event L strict s') = (r', s'')" by force
  have "openai_agrees s''" using q a' agrees_event [OF a', of L strict] by (auto split: if_splits)
  then show ?thesis using p q a' unfolding openai_flush_def by (auto split: sum.splits bool.splits)
qed

lemma response_told:
  "openai_agrees s \<Longrightarrow> rp_text (accumulator_response (ss_acc s) c) = text_of (ss_told s)"
  "openai_agrees s \<Longrightarrow> rp_reasoning (accumulator_response (ss_acc s) c) = reasoning_of (ss_told s)"
  "openai_agrees s \<Longrightarrow> rp_tool_calls (accumulator_response (ss_acc s) c) = map snd (calls_of (ss_told s))"
  "openai_agrees s \<Longrightarrow> rp_usage (accumulator_response (ss_acc s) c) = usage_of (ss_told s)"
  by (simp_all add: openai_agrees_def accumulator_response_def)

text \<open>Every response that a reader returns is its accumulator.\<close>

lemma flush_response: "openai_flush L strict buf s = (Inr p, s') \<Longrightarrow> \<exists>c. p = accumulator_response (ss_acc s') c"
  by (auto simp: openai_flush_def split: prod.splits sum.splits bool.splits if_splits)

lemma read_sse_told:
  "read_sse_response L strict as = (Inr p, s) \<Longrightarrow> openai_agrees s \<and> (\<exists>c. p = accumulator_response (ss_acc s) c)"
proof -
  assume r: "read_sse_response L strict as = (Inr p, s)"
  let ?e = "read_chunks (openai_line L strict) as 0 ([], sse_start)"
  have a: "openai_agrees (end_state ?e)" by (rule openai.read_chunks_agrees [OF agrees_start])
  show ?thesis
  proof (cases ?e)
    case (StreamEnded buf s')
    then show ?thesis using r a agrees_flush [of s' L strict buf] by (auto simp: read_sse_response_def dest: flush_response)
  qed (use r a in \<open>auto simp: read_sse_response_def\<close>)
qed

lemma read_json_told:
  "read_json_response L body = (Inr p, s) \<Longrightarrow> openai_agrees s \<and> (\<exists>c. p = accumulator_response (ss_acc s) c)"
proof -
  assume r: "read_json_response L body = (Inr p, s)"
  then obtain v where v: "pl_from_str L body = Inr v" by (cases "pl_from_str L body") (simp_all add: read_json_response_def)
  obtain x t where x: "apply_openai_value L v sse_start = (x, t)" by force
  then have "openai_agrees t" using agrees_value [OF agrees_start, of L v] by simp
  moreover have "x = Inr () \<and> t = s \<and> p = accumulator_response (ss_acc s) False"
    using r v x by (cases x) (auto simp: read_json_response_def)
  ultimately show ?thesis by blast
qed

lemma normalize_usage_keeps [simp]:
  "rp_text (normalize_usage kind p) = rp_text p" "rp_reasoning (normalize_usage kind p) = rp_reasoning p"
  "rp_tool_calls (normalize_usage kind p) = rp_tool_calls p" "rp_cancelled (normalize_usage kind p) = rp_cancelled p"
  by (auto simp: normalize_usage_def Let_def split: option.split)

definition told_response :: "ChatResponse \<Rightarrow> ChatEvent list \<Rightarrow> bool" where
  "told_response p evs \<longleftrightarrow> rp_text p = text_of evs \<and> rp_reasoning p = reasoning_of evs \<and> rp_tool_calls p = map snd (calls_of evs)"

lemma told_cancelled: "told_response cancelled_response []"
  by (simp add: told_response_def cancelled_response_def ChatResponse_default_def)

lemma read_failure_response: "read_failure L d c h = Inr p \<Longrightarrow> p = cancelled_response"
  by (cases "read_bounded_body (hr_body h) []") (auto simp: read_failure_def split: body_read.splits)

lemma normalized_told:
  "openai_agrees s \<and> (\<exists>c. q = accumulator_response (ss_acc s) c) \<Longrightarrow> told_response (normalize_usage kind q) (ss_told s)"
  by (auto simp: told_response_def response_told)

lemma openai_read_told:
  assumes "openai_read L d c kind h = (Inr p, evs)"
  shows "told_response p evs"
proof -
  consider (failed) "\<not> is_success (hr_status h)" | (stream) "is_success (hr_status h)" "is_event_stream (hr_headers h)"
    | (plain) "is_success (hr_status h)" "\<not> is_event_stream (hr_headers h)" by blast
  then show ?thesis
  proof cases
    case failed
    then show ?thesis using assms read_failure_response [of L d c h] told_cancelled by (auto simp: openai_read_def)
  next
    case stream
    obtain r s where "read_sse_response L (kind = DeepSeek) (hr_body h) = (r, s)" by force
    then show ?thesis using assms stream read_sse_told normalized_told by (cases r) (auto simp: openai_read_def)
  next
    case plain
    then consider (cancelled) "p = cancelled_response" "evs = []"
      | (whole) body r s where "read_json_response L body = (Inr r, s)" "p = normalize_usage kind r" "evs = ss_told s"
      using assms by (auto simp: openai_read_def rbind_Inr split: sum.splits body_read.splits option.splits prod.splits)
    then show ?thesis using told_cancelled read_json_told normalized_told by cases auto
  qed
qed

lemma openai_chat_told: "openai_chat L d c kind caps server x q opts = (Inr p, evs) \<Longrightarrow> told_response p evs"
  unfolding openai_chat_def
  by (auto split: sum.splits if_splits sending.splits simp: told_cancelled dest: openai_read_told)

section \<open>The chunks of a stream do not matter\<close>

lemma read_sse_whole:
  assumes "undisturbed as" "within_limits as"
  shows "read_sse_response L strict as =
    (case seen_bytes (drain_lines (openai_line L strict) (arrived as) sse_start) of
        StreamCancelled s \<Rightarrow> (Inr (accumulator_response (ss_acc s) True), s)
      | StreamDone s \<Rightarrow> (Inr (accumulator_response (ss_acc s) False), s)
      | StreamFailed e s \<Rightarrow> (Inl e, s)
      | StreamEnded buf s \<Rightarrow> openai_flush L strict buf s)"
  unfolding read_sse_response_def read_chunks_whole [OF assms] ..

end
