(* ===== verification/Provider_Anthropic.thy ===== *)
theory Provider_Anthropic
  imports Provider_Openai Loop_Tools
begin

text \<open>
  The client of the Anthropic Messages API (\<open>providers/anthropic.rs\<close>).  System prompts are a field of the request, tools
  are objects with an \<open>input_schema\<close>, tool results are blocks of a user message, and a stream is a sequence of typed events.
\<close>

section \<open>The request\<close>

record AnthropicMessage =
  am_role :: rstr
  am_content :: json

record AnthropicTool =
  at_name :: rstr
  at_description :: rstr
  at_input_schema :: json

definition anthropic_image :: "rstr \<times> rstr \<Rightarrow> json" where
  "anthropic_image im =
     JObject [(str ''source'', JObject [(str ''data'', JString (fst im)), (str ''media_type'', JString (snd im)), (str ''type'', JString (str ''base64''))]),
       (str ''type'', JString (str ''image''))]"

definition anthropic_user_content :: "chat_message \<Rightarrow> json" where
  "anthropic_user_content m =
     (if cm_images m = [] then JString (cm_content m)
      else JArray ((if cm_content m = [] then [] else [text_part (cm_content m)]) @ map anthropic_image (cm_images m)))"

definition tool_use_block :: "provider_lib \<Rightarrow> chat_tool_call \<Rightarrow> json" where
  "tool_use_block L call =
     JObject [(str ''id'', JString (ct_id call)),
       (str ''input'', case pl_from_str L (ct_arguments call) of Inl _ \<Rightarrow> JString (ct_arguments call) | Inr v \<Rightarrow> v),
       (str ''name'', JString (ct_name call)), (str ''type'', JString (str ''tool_use''))]"

definition tool_result_content :: "rstr \<Rightarrow> chat_message \<Rightarrow> json" where
  "tool_result_content call_id m =
     JArray [JObject [(str ''content'', JString (cm_content m)), (str ''tool_use_id'', JString call_id), (str ''type'', JString (str ''tool_result''))]]"

definition assistant_content :: "provider_lib \<Rightarrow> chat_message \<Rightarrow> json" where
  "assistant_content L m =
     (let blocks = (if cm_content m = [] then [] else [text_part (cm_content m)]) @ map (tool_use_block L) (cm_tool_calls m) in
      if blocks = [] then JString [] else JArray blocks)"

text \<open>One message: the system prompt it adds, or the message it becomes.\<close>

definition anthropic_message :: "provider_lib \<Rightarrow> chat_message \<Rightarrow> (ProviderError, rstr list \<times> AnthropicMessage list) result" where
  "anthropic_message L m =
     (if cm_role m = str ''system'' then Inr (if trim (cm_content m) = [] then [] else [cm_content m], [])
      else if cm_role m = str ''tool'' then
        rbind (ok_or (response_error (str ''Anthropic tool result is missing tool_use_id'')) (cm_tool_call_id m)) (\<lambda>call_id.
          Inr ([], [\<lparr>am_role = str ''user'', am_content = tool_result_content call_id m\<rparr>]))
      else if cm_role m = str ''assistant'' then Inr ([], [\<lparr>am_role = str ''assistant'', am_content = assistant_content L m\<rparr>])
      else if cm_role m = str ''user'' then Inr ([], [\<lparr>am_role = str ''user'', am_content = anthropic_user_content m\<rparr>])
      else Inl (response_error (str ''Anthropic Messages does not support role '' @ cm_role m)))"

definition anthropic_messages :: "provider_lib \<Rightarrow> chat_message list \<Rightarrow> (ProviderError, rstr option \<times> AnthropicMessage list) result" where
  "anthropic_messages L ms =
     rbind (try_map (anthropic_message L) ms) (\<lambda>parts.
       let system = concat (map fst parts) in
       Inr (if system = [] then None else Some (join [10, 10] system), concat (map snd parts)))"

definition anthropic_tool :: "json \<Rightarrow> (ProviderError, AnthropicTool) result" where
  "anthropic_tool tool =
     (let f = (if json_as_str (json_at tool ''type'') = Some (str ''function'') then json_at tool ''function'' else tool) in
      rbind (ok_or (response_error (str ''Anthropic tool name is required''))
        (Option.bind (json_as_str (json_at f ''name'')) (\<lambda>n. if trim n = [] then None else Some n))) (\<lambda>name.
      if \<not> is_json_object (json_at f ''parameters'') then Inl (response_error (str ''Anthropic tool input_schema must be an object''))
      else Inr \<lparr>at_name = name, at_description = str_or_empty (json_at f ''description''), at_input_schema = json_at f ''parameters''\<rparr>))"

definition anthropic_tools :: "json \<Rightarrow> (ProviderError, AnthropicTool list) result" where
  "anthropic_tools tools =
     (case as_array tools of
        None \<Rightarrow> Inl (response_error (str ''Anthropic tools must be an array''))
      | Some entries \<Rightarrow> try_map anthropic_tool entries)"

section \<open>The accumulator\<close>

record AnthropicAccumulator =
  aa_text :: rstr
  aa_tool_calls :: "(nat, chat_tool_call) btree"
  aa_usage :: "chat_usage option"
  aa_finish_reason :: "rstr option"

definition anthropic_response :: "AnthropicAccumulator \<Rightarrow> bool \<Rightarrow> ChatResponse" where
  "anthropic_response a cancelled =
     \<lparr>rp_text = aa_text a, rp_reasoning = [], rp_tool_calls = map snd (aa_tool_calls a), rp_usage = aa_usage a,
      rp_finish_reason = aa_finish_reason a, rp_cancelled = cancelled\<rparr>"

record anthropic_state =
  an_name :: rstr
  an_data :: "rstr list"
  an_acc :: AnthropicAccumulator
  an_told :: "ChatEvent list"

definition anthropic_start :: anthropic_state where
  "anthropic_start = \<lparr>an_name = [], an_data = [], an_acc = \<lparr>aa_text = [], aa_tool_calls = [], aa_usage = None, aa_finish_reason = None\<rparr>, an_told = []\<rparr>"

definition an_tell :: "ChatEvent \<Rightarrow> anthropic_state \<Rightarrow> anthropic_state" where
  "an_tell e s = s\<lparr>an_told := an_told s @ [e]\<rparr>"

definition an_update :: "(AnthropicAccumulator \<Rightarrow> AnthropicAccumulator) \<Rightarrow> anthropic_state \<Rightarrow> anthropic_state" where
  "an_update f s = s\<lparr>an_acc := f (an_acc s)\<rparr>"

definition usage_from :: "json \<Rightarrow> chat_usage option" where
  "usage_from v =
     Option.bind (as_u64 (json_at v ''input_tokens'')) (\<lambda>prompt.
       Some \<lparr>u_prompt_tokens = prompt, u_completion_tokens = 0, u_total_tokens = prompt,
         u_cache_read_tokens = u64_or_zero (json_at v ''cache_read_input_tokens''), u_reasoning_tokens = 0\<rparr>)"

section \<open>One event\<close>

definition an_text :: "rstr \<Rightarrow> anthropic_state \<Rightarrow> anthropic_state" where
  "an_text t s = an_tell (TextDelta t) (an_update (\<lambda>a. a\<lparr>aa_text := aa_text a @ t\<rparr>) s)"

definition an_usage :: "chat_usage \<Rightarrow> anthropic_state \<Rightarrow> anthropic_state" where
  "an_usage u s = an_tell (Usage u) (an_update (\<lambda>a. a\<lparr>aa_usage := Some u\<rparr>) s)"

definition some_nonempty :: "rstr \<Rightarrow> rstr option" where
  "some_nonempty s = (if s = [] then None else Some s)"

definition content_block_start :: "json \<Rightarrow> anthropic_state \<Rightarrow> anthropic_state" where
  "content_block_start v s =
     (let index = u64_or_zero (json_at v ''index''); block = json_at v ''content_block'' in
      if json_is (json_at block ''type'') ''tool_use'' then
        (let call = \<lparr>ct_id = str_or_empty (json_at block ''id''), ct_name = str_or_empty (json_at block ''name''), ct_arguments = []\<rparr> in
         an_tell (ToolCallDelta index (some_nonempty (ct_id call)) (some_nonempty (ct_name call)) [])
           (an_update (\<lambda>a. a\<lparr>aa_tool_calls := btree_insert index call (aa_tool_calls a)\<rparr>) s))
      else if json_is (json_at block ''type'') ''text'' then
        (case json_as_str (json_at block ''text'') of None \<Rightarrow> s | Some t \<Rightarrow> if t = [] then s else an_text t s)
      else s)"

definition content_block_delta :: "json \<Rightarrow> anthropic_state \<Rightarrow> anthropic_state" where
  "content_block_delta v s =
     (let index = u64_or_zero (json_at v ''index''); delta = json_at v ''delta'' in
      if json_is (json_at delta ''type'') ''text_delta'' then
        (case json_as_str (json_at delta ''text'') of None \<Rightarrow> s | Some t \<Rightarrow> an_text t s)
      else if json_is (json_at delta ''type'') ''input_json_delta'' then
        (let arguments = str_or_empty (json_at delta ''partial_json'') in
         an_tell (ToolCallDelta index None None arguments)
           (an_update (\<lambda>a. a\<lparr>aa_tool_calls := merge_delta index None None arguments (aa_tool_calls a)\<rparr>) s))
      else s)"

definition message_delta :: "json \<Rightarrow> anthropic_state \<Rightarrow> anthropic_state" where
  "message_delta v s =
     (let s = (case json_as_str (json_at (json_at v ''delta'') ''stop_reason'') of
                 None \<Rightarrow> s | Some r \<Rightarrow> an_update (\<lambda>a. a\<lparr>aa_finish_reason := Some r\<rparr>) s) in
      case as_u64 (json_at (json_at v ''usage'') ''output_tokens'') of
        None \<Rightarrow> s
      | Some output \<Rightarrow>
          (let usage = (case aa_usage (an_acc s) of None \<Rightarrow> default_usage | Some u \<Rightarrow> u) in
           an_usage (usage\<lparr>u_completion_tokens := output, u_total_tokens := sat_u64 (u_prompt_tokens usage) output\<rparr>) s))"

definition anthropic_error :: "provider_lib \<Rightarrow> json \<Rightarrow> ProviderError" where
  "anthropic_error L v = response_error (pl_display L (pl_redact_json L (json_at v ''error'')))"

definition apply_anthropic_value :: "provider_lib \<Rightarrow> rstr \<Rightarrow> json \<Rightarrow> anthropic_state \<Rightarrow> (ProviderError, unit) result \<times> anthropic_state" where
  "apply_anthropic_value L event_name v s =
     (if json_is (json_at v ''type'') ''error'' \<or> event_name = str ''error'' then (Inl (anthropic_error L v), s)
      else
        (let kind = (case json_as_str (json_at v ''type'') of None \<Rightarrow> event_name | Some t \<Rightarrow> t) in
         (Inr (),
          if kind = str ''message_start'' then
            (case usage_from (json_at (json_at v ''message'') ''usage'') of None \<Rightarrow> s | Some u \<Rightarrow> an_usage u s)
          else if kind = str ''content_block_start'' then content_block_start v s
          else if kind = str ''content_block_delta'' then content_block_delta v s
          else if kind = str ''message_delta'' then message_delta v s
          else s)))"

section \<open>Server-sent events\<close>

definition an_process_event :: "provider_lib \<Rightarrow> anthropic_state \<Rightarrow> (ProviderError, bool) result \<times> anthropic_state" where
  "an_process_event L s =
     (if an_data s = [] then (Inr False, s\<lparr>an_name := []\<rparr>)
      else
        (let payload = trim (join [10] (an_data s)); name = an_name s; s = s\<lparr>an_data := [], an_name := []\<rparr> in
         if payload = [] then (Inr False, s)
         else (case pl_from_str L payload of
                 Inl error \<Rightarrow> (Inl (response_error (str ''provider returned malformed Anthropic SSE JSON: '' @ error)), s)
               | Inr v \<Rightarrow>
                   (case apply_anthropic_value L name v s of
                      (Inl e, s') \<Rightarrow> (Inl e, s')
                    | (Inr _, s') \<Rightarrow> (Inr (name = str ''message_stop'' \<or> json_is (json_at v ''type'') ''message_stop''), s')))))"

definition anthropic_line :: "provider_lib \<Rightarrow> bytes \<Rightarrow> anthropic_state \<Rightarrow> (ProviderError, bool) result \<times> anthropic_state" where
  "anthropic_line L line s =
     (case utf8_decode line of
        None \<Rightarrow> (Inr False, s)
      | Some t \<Rightarrow>
          if t = [] then an_process_event L s
          else (case strip_prefix (str ''event:'') t of
                  Some v \<Rightarrow> (Inr False, s\<lparr>an_name := trim v\<rparr>)
                | None \<Rightarrow>
                    (case strip_prefix (str ''data:'') t of
                       Some v \<Rightarrow> (Inr False, s\<lparr>an_data := an_data s @ [strip_space v]\<rparr>)
                     | None \<Rightarrow> (Inr False, s))))"

definition an_process_bytes :: "provider_lib \<Rightarrow> bytes \<Rightarrow> bytes \<times> anthropic_state \<Rightarrow> (ProviderError, bool) result \<times> bytes \<times> anthropic_state" where
  "an_process_bytes L = push_bytes (anthropic_line L)"

text \<open>After the end of the stream; whether the unterminated line was the last event is not looked at.\<close>

definition anthropic_flush :: "provider_lib \<Rightarrow> bytes \<Rightarrow> anthropic_state \<Rightarrow> (ProviderError, ChatResponse) result \<times> anthropic_state" where
  "anthropic_flush L buf s =
     (case (if buf = [] then (Inr False, [], s) else an_process_bytes L [10] (buf, s)) of
        (Inl e, _, s) \<Rightarrow> (Inl e, s)
      | (Inr _, _, s) \<Rightarrow>
          (case (if an_data s = [] then (Inr False, s) else an_process_event L s) of
             (Inl e, s) \<Rightarrow> (Inl e, s)
           | (Inr True, s) \<Rightarrow> (Inr (anthropic_response (an_acc s) False), s)
           | (Inr False, s) \<Rightarrow>
               (if aa_finish_reason (an_acc s) \<noteq> None then (Inr (anthropic_response (an_acc s) False), s)
                else (Inl (response_error (str ''provider SSE stream ended before completion'')), s))))"

definition an_read_sse_response :: "provider_lib \<Rightarrow> arrival list \<Rightarrow> (ProviderError, ChatResponse) result \<times> anthropic_state" where
  "an_read_sse_response L as =
     (case read_chunks (anthropic_line L) as 0 ([], anthropic_start) of
        StreamCancelled s \<Rightarrow> (Inr (anthropic_response (an_acc s) True), s)
      | StreamDone s \<Rightarrow> (Inr (anthropic_response (an_acc s) False), s)
      | StreamFailed e s \<Rightarrow> (Inl e, s)
      | StreamEnded buf s \<Rightarrow> anthropic_flush L buf s)"

section \<open>A response in one piece\<close>

definition json_block :: "provider_lib \<Rightarrow> nat \<Rightarrow> json \<Rightarrow> anthropic_state \<Rightarrow> anthropic_state" where
  "json_block L index block s =
     (if json_is (json_at block ''type'') ''text'' then
        (case json_as_str (json_at block ''text'') of None \<Rightarrow> s | Some t \<Rightarrow> an_text t s)
      else if json_is (json_at block ''type'') ''tool_use'' then
        (let call = \<lparr>ct_id = str_or_empty (json_at block ''id''), ct_name = str_or_empty (json_at block ''name''),
               ct_arguments = pl_display L (json_at block ''input'')\<rparr> in
         an_update (\<lambda>a. a\<lparr>aa_tool_calls := btree_insert index call (aa_tool_calls a)\<rparr>)
           (an_tell (ToolCallDelta index (Some (ct_id call)) (Some (ct_name call)) (ct_arguments call)) s))
      else s)"

definition an_read_json_response :: "provider_lib \<Rightarrow> rstr \<Rightarrow> (ProviderError, ChatResponse) result \<times> anthropic_state" where
  "an_read_json_response L body =
     (case pl_from_str L body of
        Inl _ \<Rightarrow> (Inl (response_error (str ''provider returned invalid JSON'')), anthropic_start)
      | Inr v \<Rightarrow>
          if json_is (json_at v ''type'') ''error'' then (Inl (anthropic_error L v), anthropic_start)
          else
            (let blocks = (case as_array (json_at v ''content'') of None \<Rightarrow> [] | Some bs \<Rightarrow> bs);
                 s = foldl (\<lambda>s (index, block). json_block L index block s) anthropic_start (enumerate 0 blocks);
                 s = an_update (\<lambda>a. a\<lparr>aa_finish_reason := json_as_str (json_at v ''stop_reason''), aa_usage := usage_from (json_at v ''usage'')\<rparr>) s;
                 s = (case aa_usage (an_acc s) of None \<Rightarrow> s | Some u \<Rightarrow> an_tell (Usage u) s) in
             (Inr (anthropic_response (an_acc s) False), s)))"

section \<open>The call\<close>

definition DEFAULT_MAX_TOKENS :: nat where
  "DEFAULT_MAX_TOKENS = 4096"

record anthropic_request =
  ar_model :: rstr
  ar_messages :: "AnthropicMessage list"
  ar_max_tokens :: nat
  ar_stream :: bool
  ar_temperature :: nat
  ar_system :: "rstr option"
  ar_tools :: "AnthropicTool list"
  ar_stop_sequences :: "rstr list option"

definition anthropic_request_body :: "provider_lib \<Rightarrow> ProviderCapabilities \<Rightarrow> ChatRequest \<Rightarrow> request_options \<Rightarrow> (ProviderError, anthropic_request) result" where
  "anthropic_request_body L caps q options =
     rbind (anthropic_messages L (cq_messages q)) (\<lambda>(system, messages).
     rbind (case cq_tools q of None \<Rightarrow> Inr [] | Some tools \<Rightarrow> anthropic_tools tools) (\<lambda>tools.
     Inr \<lparr>ar_model = pc_model_id caps, ar_messages = messages,
       ar_max_tokens = (case cq_max_tokens q of None \<Rightarrow> DEFAULT_MAX_TOKENS | Some n \<Rightarrow> n), ar_stream = True,
       ar_temperature = cq_temperature q, ar_system = system, ar_tools = tools, ar_stop_sequences = ro_stop options\<rparr>))"

definition anthropic_read :: "provider_lib \<Rightarrow> (rstr \<Rightarrow> int option) \<Rightarrow> (nat \<Rightarrow> rstr option) \<Rightarrow> http_response
    \<Rightarrow> (ProviderError, ChatResponse) result \<times> ChatEvent list" where
  "anthropic_read L rfc2822 canonical_reason h =
     (let with_events = (\<lambda>(r, s). (r, an_told s)) in
      if \<not> is_success (hr_status h) then (read_failure L rfc2822 canonical_reason h, [])
      else if is_event_stream (hr_headers h) then with_events (an_read_sse_response L (hr_body h))
      else (case read_bounded_body (hr_body h) [] of
              Inl e \<Rightarrow> (Inl e, [])
            | Inr BodyCancelled \<Rightarrow> (Inr cancelled_response, [])
            | Inr (Complete body) \<Rightarrow>
                (case utf8_decode body of
                   None \<Rightarrow> (Inl (response_error (str ''provider returned non-UTF-8 JSON'')), [])
                 | Some t \<Rightarrow> with_events (an_read_json_response L t))))"

definition anthropic_chat :: "provider_lib \<Rightarrow> (rstr \<Rightarrow> int option) \<Rightarrow> (nat \<Rightarrow> rstr option) \<Rightarrow> ProviderCapabilities
    \<Rightarrow> (anthropic_request \<Rightarrow> sending) \<Rightarrow> bool \<Rightarrow> ChatRequest \<Rightarrow> request_options \<Rightarrow> (ProviderError, ChatResponse) result \<times> ChatEvent list" where
  "anthropic_chat L rfc2822 canonical_reason caps server cancelled q options =
     (case require_capability caps Chat of
        Inl e \<Rightarrow> (Inl e, [])
      | Inr _ \<Rightarrow>
          if ro_response_format options \<noteq> None
          then (Inl (ProviderError_new PeUnsupportedCapability None (str ''Anthropic Messages does not support response_format'')), [])
          else if cancelled then (Inr cancelled_response, [])
          else (case anthropic_request_body L caps q options of
                  Inl e \<Rightarrow> (Inl e, [])
                | Inr body \<Rightarrow>
                    (case server body of
                       SendCancelled \<Rightarrow> (Inr cancelled_response, [])
                     | SendFailed e \<Rightarrow> (Inl e, [])
                     | Answered h \<Rightarrow> anthropic_read L rfc2822 canonical_reason h)))"

definition normalize_anthropic_messages_url :: "rstr \<Rightarrow> rstr" where
  "normalize_anthropic_messages_url base_url =
     (let base = trim_end_slashes (trim base_url) in
      if ends_with (str ''/messages'') base then base
      else if ends_with (str ''/v1'') base then base @ str ''/messages''
      else base @ str ''/v1/messages'')"

section \<open>What is told is what is accumulated\<close>

text \<open>The indices of the tool calls that a sequence of events mentions.\<close>

definition told_indices :: "ChatEvent list \<Rightarrow> nat set" where
  "told_indices evs = {i. \<exists>c n a. ToolCallDelta i c n a \<in> set evs}"

lemma told_indices_simps [simp]: "told_indices [] = {}"
  "told_indices (evs @ [e]) = (case e of ToolCallDelta i c n a \<Rightarrow> insert i (told_indices evs) | _ \<Rightarrow> told_indices evs)"
  by (auto simp: told_indices_def split: ChatEvent.split)

definition anthropic_agrees :: "anthropic_state \<Rightarrow> bool" where
  "anthropic_agrees s \<longleftrightarrow> aa_text (an_acc s) = text_of (an_told s) \<and> aa_usage (an_acc s) = usage_of (an_told s)
     \<and> fst ` set (aa_tool_calls (an_acc s)) = told_indices (an_told s) \<and> reasoning_of (an_told s) = []"

lemmas an_defs = anthropic_agrees_def an_tell_def an_update_def an_text_def an_usage_def

lemma an_agrees_start: "anthropic_agrees anthropic_start"
  by (simp add: anthropic_agrees_def anthropic_start_def)

lemma an_agrees_fields [simp]: "anthropic_agrees (s\<lparr>an_data := d\<rparr>) = anthropic_agrees s" "anthropic_agrees (s\<lparr>an_name := n\<rparr>) = anthropic_agrees s"
  "anthropic_agrees (s\<lparr>an_data := d, an_name := n\<rparr>) = anthropic_agrees s"
  by (simp_all add: anthropic_agrees_def)

lemma an_agrees_text: "anthropic_agrees s \<Longrightarrow> anthropic_agrees (an_text t s)"
  by (simp add: an_defs)

lemma an_agrees_usage: "anthropic_agrees s \<Longrightarrow> anthropic_agrees (an_usage u s)"
  by (simp add: an_defs)

lemma merge_delta_keys: "fst ` set (merge_delta i c n a m) = insert i (fst ` set m)"
  by (simp add: merge_delta_def Let_def)

lemma an_agrees_start_block: "anthropic_agrees s \<Longrightarrow> anthropic_agrees (content_block_start v s)"
  by (auto simp: content_block_start_def Let_def an_agrees_text split: option.split) (simp_all add: an_defs)

lemma an_agrees_delta: "anthropic_agrees s \<Longrightarrow> anthropic_agrees (content_block_delta v s)"
  by (auto simp: content_block_delta_def Let_def an_agrees_text split: option.split) (simp_all add: an_defs merge_delta_keys)

lemma an_agrees_finish: "anthropic_agrees s \<Longrightarrow> anthropic_agrees (an_update (\<lambda>a. a\<lparr>aa_finish_reason := r\<rparr>) s)"
  by (simp add: an_defs)

lemma an_agrees_message_delta: "anthropic_agrees s \<Longrightarrow> anthropic_agrees (message_delta v s)"
  by (auto simp: message_delta_def Let_def an_agrees_usage an_agrees_finish split: option.split)

lemma an_agrees_value: "anthropic_agrees s \<Longrightarrow> anthropic_agrees (snd (apply_anthropic_value L n v s))"
  by (auto simp: apply_anthropic_value_def Let_def an_agrees_start_block an_agrees_delta an_agrees_message_delta an_agrees_usage split: option.split)

lemma an_agrees_event: "anthropic_agrees s \<Longrightarrow> anthropic_agrees (snd (an_process_event L s))"
proof -
  assume a: "anthropic_agrees s"
  have "anthropic_agrees (snd (apply_anthropic_value L n v (s\<lparr>an_data := [], an_name := []\<rparr>)))" for n v using a by (simp add: an_agrees_value)
  then have "anthropic_agrees (snd (case apply_anthropic_value L n v (s\<lparr>an_data := [], an_name := []\<rparr>) of (Inl e, s') \<Rightarrow> (Inl e, s') | (Inr _, s') \<Rightarrow> (Inr b, s')))" for n v b
    by (auto split: prod.split sum.split) (metis snd_conv)+
  then show ?thesis using a by (auto simp: an_process_event_def Let_def split: sum.split)
qed

lemma an_agrees_line: "anthropic_agrees s \<Longrightarrow> anthropic_agrees (snd (anthropic_line L line s))"
  by (simp add: anthropic_line_def an_agrees_event split: option.split)

interpretation anthropic: telling_client "anthropic_line L" anthropic_agrees for L
  by unfold_locales (metis an_agrees_line snd_conv)

lemma an_agrees_flush: "anthropic_agrees s \<Longrightarrow> anthropic_agrees (snd (anthropic_flush L buf s))"
proof -
  assume a: "anthropic_agrees s"
  obtain r rest s' where p: "(if buf = [] then (Inr False, [], s) else an_process_bytes L [10] (buf, s)) = (r, rest, s')"
    by (metis prod_cases3)
  have a': "anthropic_agrees s'"
    using p a anthropic.push_agrees [OF a] by (auto simp: an_process_bytes_def split: if_splits)
  obtain r' s'' where q: "(if an_data s' = [] then (Inr False, s') else an_process_event L s') = (r', s'')" by force
  have "anthropic_agrees s''" using q a' an_agrees_event [OF a', of L] by (auto split: if_splits)
  then show ?thesis using p q a' unfolding anthropic_flush_def by (auto split: sum.splits bool.splits)
qed

lemma an_flush_response: "anthropic_flush L buf s = (Inr p, s') \<Longrightarrow> \<exists>c. p = anthropic_response (an_acc s') c"
  by (auto simp: anthropic_flush_def split: prod.splits sum.splits bool.splits if_splits)

lemma an_read_sse_told:
  "an_read_sse_response L as = (Inr p, s) \<Longrightarrow> anthropic_agrees s \<and> (\<exists>c. p = anthropic_response (an_acc s) c)"
proof -
  assume r: "an_read_sse_response L as = (Inr p, s)"
  let ?e = "read_chunks (anthropic_line L) as 0 ([], anthropic_start)"
  have a: "anthropic_agrees (end_state ?e)" by (rule anthropic.read_chunks_agrees [OF an_agrees_start])
  show ?thesis
  proof (cases ?e)
    case (StreamEnded buf s')
    then show ?thesis using r a an_agrees_flush [of s' L buf] by (auto simp: an_read_sse_response_def dest: an_flush_response)
  qed (use r a in \<open>auto simp: an_read_sse_response_def\<close>)
qed

lemma json_blocks_agree:
  "anthropic_agrees s \<and> aa_usage (an_acc s) = None \<Longrightarrow>
    anthropic_agrees (foldl (\<lambda>s (i, b). json_block L i b s) s bs) \<and> aa_usage (an_acc (foldl (\<lambda>s (i, b). json_block L i b s) s bs)) = None"
proof (induction bs arbitrary: s)
  case (Cons b bs)
  have "anthropic_agrees (json_block L i c s) \<and> aa_usage (an_acc (json_block L i c s)) = None" for i c
    using Cons.prems by (auto simp: json_block_def an_defs Let_def split: option.split)
  then show ?case using Cons.IH by (cases b) simp
qed simp

lemma an_read_json_told:
  "an_read_json_response L body = (Inr p, s) \<Longrightarrow> anthropic_agrees s \<and> (\<exists>c. p = anthropic_response (an_acc s) c)"
proof -
  assume r: "an_read_json_response L body = (Inr p, s)"
  have start: "anthropic_agrees anthropic_start \<and> aa_usage (an_acc anthropic_start) = None" by (simp add: an_agrees_start) (simp add: anthropic_start_def)
  have u: "anthropic_agrees (case u of None \<Rightarrow> t' | Some w \<Rightarrow> an_tell (Usage w) t')"
    if "anthropic_agrees t \<and> aa_usage (an_acc t) = None" "t' = an_update (\<lambda>a. a\<lparr>aa_finish_reason := f, aa_usage := u\<rparr>) t" for t t' f u
    using that by (auto simp: an_defs split: option.split)
  have e: "aa_usage (an_acc (an_update (\<lambda>a. a\<lparr>aa_finish_reason := f, aa_usage := w\<rparr>) t)) = w" for f w t by (simp add: an_update_def)
  show ?thesis
    using r u [OF json_blocks_agree [OF start] refl] by (auto simp: an_read_json_response_def Let_def e split: sum.splits if_splits)
qed

text \<open>What a response of this client has told.\<close>

definition told_anthropic :: "ChatResponse \<Rightarrow> ChatEvent list \<Rightarrow> bool" where
  "told_anthropic p evs \<longleftrightarrow> rp_text p = text_of evs \<and> rp_reasoning p = reasoning_of evs \<and> rp_usage p = usage_of evs
     \<and> (rp_tool_calls p = [] \<longleftrightarrow> told_indices evs = {})"

lemma told_anthropic_state: "anthropic_agrees s \<and> (\<exists>c. p = anthropic_response (an_acc s) c) \<Longrightarrow> told_anthropic p (an_told s)"
  by (auto simp: anthropic_agrees_def told_anthropic_def anthropic_response_def)

lemma an_told_cancelled: "told_anthropic cancelled_response []"
  by (simp add: told_anthropic_def cancelled_response_def ChatResponse_default_def)

lemma anthropic_read_told:
  assumes "anthropic_read L d c h = (Inr p, evs)"
  shows "told_anthropic p evs"
proof -
  consider (failed) "\<not> is_success (hr_status h)" | (stream) "is_success (hr_status h)" "is_event_stream (hr_headers h)"
    | (plain) "is_success (hr_status h)" "\<not> is_event_stream (hr_headers h)" by blast
  then show ?thesis
  proof cases
    case failed
    then show ?thesis using assms read_failure_response [of L d c h] an_told_cancelled by (auto simp: anthropic_read_def)
  next
    case stream
    obtain r s where "an_read_sse_response L (hr_body h) = (r, s)" by force
    then show ?thesis using assms stream an_read_sse_told told_anthropic_state by (cases r) (auto simp: anthropic_read_def)
  next
    case plain
    then consider (cancelled) "p = cancelled_response" "evs = []"
      | (whole) body s where "an_read_json_response L body = (Inr p, s)" "evs = an_told s"
      using assms by (auto simp: anthropic_read_def split: sum.splits body_read.splits option.splits prod.splits)
    then show ?thesis using an_told_cancelled an_read_json_told told_anthropic_state by cases auto
  qed
qed

lemma anthropic_chat_told: "anthropic_chat L d c caps server x q opts = (Inr p, evs) \<Longrightarrow> told_anthropic p evs"
  unfolding anthropic_chat_def
  by (auto split: sum.splits if_splits sending.splits simp: an_told_cancelled dest: anthropic_read_told)

section \<open>The tools of the loop\<close>

lemma json_at_object: "json_at (JObject fs) k = (case map_of fs (str k) of None \<Rightarrow> JNull | Some v \<Rightarrow> v)"
  by (simp add: json_at_def obj_get_def)

lemma anthropic_tool_definition:
  assumes "trim (sp_name (lr_spec g)) \<noteq> []" "is_json_object (sp_input_schema (lr_spec g))"
  shows "anthropic_tool (JObject
     [(str ''function'', JObject [(str ''description'', JString (tool_description (sp_name (lr_spec g)))),
         (str ''name'', JString (sp_name (lr_spec g))), (str ''parameters'', sp_input_schema (lr_spec g))]),
      (str ''type'', JString (str ''function''))])
    = Inr \<lparr>at_name = sp_name (lr_spec g), at_description = tool_description (sp_name (lr_spec g)), at_input_schema = sp_input_schema (lr_spec g)\<rparr>"
  using assms by (simp add: anthropic_tool_def json_at_object Let_def ok_or_def str_or_empty_def)

lemma try_map_map: "(\<And>x. x \<in> set xs \<Longrightarrow> f (g x) = Inr (h x)) \<Longrightarrow> try_map f (map g xs) = Inr (map h xs)"
  by (induction xs) auto

text \<open>Every registered tool is offered, under its name, with its description and its schema.\<close>

lemma anthropic_tools_definitions:
  assumes "\<forall>g \<in> set gs. trim (sp_name (lr_spec g)) \<noteq> [] \<and> is_json_object (sp_input_schema (lr_spec g))"
  shows "anthropic_tools (tool_definitions gs) =
    Inr (map (\<lambda>g. \<lparr>at_name = sp_name (lr_spec g), at_description = tool_description (sp_name (lr_spec g)), at_input_schema = sp_input_schema (lr_spec g)\<rparr>) gs)"
  unfolding anthropic_tools_def tool_definitions_def as_array.simps option.case
  by (rule try_map_map) (use assms anthropic_tool_definition in blast)

end
