(* ===== verification/Loop_Streaming.thy ===== *)
theory Loop_Streaming
  imports Loop_Tools Provider_Anthropic
begin

text \<open>
  The agent loop on top of the provider clients: the text a request has streamed into the partial response is the text the
  client returns, and a request that streams has recorded exactly that text, so that all of it is recorded once and nothing a
  second time when the response arrives.
\<close>

section \<open>What a computation adds to the partial text\<close>

definition adds :: "rstr \<Rightarrow> ('w, 'a) loop_m \<Rightarrow> bool" where
  "adds t m \<longleftrightarrow> (\<forall>s x s'. m s = (Done x, s') \<longrightarrow> rp_text (ls_partial s') = rp_text (ls_partial s) @ t)"

lemma adds_bind: "adds t m \<Longrightarrow> (\<And>x. adds u (f x)) \<Longrightarrow> adds (t @ u) (mbind m f)"
  by (fastforce simp: adds_def mbind_def split: prod.splits exec.splits)

lemma adds_bind_none: "adds [] m \<Longrightarrow> (\<And>x. adds u (f x)) \<Longrightarrow> adds u (mbind m f)"
  using adds_bind [of "[]" m u f] by simp

lemma adds_ret: "adds [] (mret x)"
  by (simp add: adds_def mret_def)

lemma adds_call: "adds [] (mcall op)"
  by (auto simp: adds_def mcall_def split: prod.splits)

lemma adds_note: "adds [] (mnote a)"
  by (simp add: adds_def mnote_def)

lemma adds_get: "adds [] (mget f)"
  by (simp add: adds_def mget_def)

lemma adds_partial: "(\<And>r. rp_text (f r) = rp_text r @ t) \<Longrightarrow> adds t (set_partial f)"
  by (auto simp: adds_def set_partial_def mset_state_def)

lemma adds_if: "(b \<Longrightarrow> adds t m) \<Longrightarrow> (\<not> b \<Longrightarrow> adds t n) \<Longrightarrow> adds t (if b then m else n)"
  by simp

lemma adds_option: "adds t m \<Longrightarrow> (\<And>x. adds t (f x)) \<Longrightarrow> adds t (case v of None \<Rightarrow> m | Some x \<Rightarrow> f x)"
  by (cases v) simp_all

lemma adds_sum: "(\<And>x. adds t (f x)) \<Longrightarrow> (\<And>x. adds t (g x)) \<Longrightarrow> adds t (case v of Inl x \<Rightarrow> f x | Inr x \<Rightarrow> g x)"
  by (cases v) simp_all

lemma adds_let: "(\<And>x. adds t (f x)) \<Longrightarrow> adds t (let x = v in f x)"
  by (simp add: Let_def)

lemmas adds_core = adds_bind_none adds_ret adds_call adds_note adds_get adds_if adds_option adds_sum adds_let

lemma adds_stream_record: "adds [] (stream_record env ev g)"
  unfolding stream_record_def sink_record_def by (intro adds_core)

lemma adds_reasoning: "adds [] (complete_reasoning env i g)"
  unfolding complete_reasoning_def by (intro adds_core adds_stream_record)

lemma adds_on_event: "adds (text_of [e]) (on_event env i b g e)"
proof (cases e)
  case (TextDelta d)
  have tail: "adds (d @ []) (mbind (set_partial (\<lambda>r. r\<lparr>rp_text := rp_text r @ d\<rparr>)) (\<lambda>_. if b then stream_record env (MessageDelta i Assistant d) g else mret g))" for g
    by (rule adds_bind) (auto intro: adds_partial adds_core adds_stream_record)
  have head: "adds [] (if ss_completed g then mret g else mbind (complete_reasoning env i g) (\<lambda>g. mret (g\<lparr>ss_completed := True\<rparr>)))" for g
    by (intro adds_core adds_reasoning)
  have "text_of [TextDelta d] = d" by simp
  then show ?thesis unfolding TextDelta on_event.simps Let_def by (simp only:) (rule adds_bind_none [OF head tail [unfolded append_Nil2]])
next
  case (ReasoningPart d)
  have "adds [] (set_partial (\<lambda>r. r\<lparr>rp_reasoning := rp_reasoning r @ d\<rparr>))" by (rule adds_partial) simp
  then show ?thesis unfolding ReasoningPart on_event.simps by (auto intro!: adds_core adds_stream_record)
next
  case (ToolCallDelta a c n d)
  then show ?thesis by (simp add: adds_ret)
next
  case (Usage u)
  have "adds [] (set_partial (\<lambda>r. r\<lparr>rp_usage := Some u\<rparr>))" by (rule adds_partial) simp
  then show ?thesis unfolding Usage on_event.simps by (auto intro!: adds_core adds_stream_record)
qed

lemma adds_on_events: "adds (text_of evs) (on_events env i b g evs)"
proof (induction evs arbitrary: g)
  case (Cons e evs)
  have "adds (text_of [e] @ text_of evs) (mbind (on_event env i b g e) (\<lambda>g. on_events env i b g evs))"
    by (rule adds_bind [OF adds_on_event Cons.IH])
  then show ?case by simp
qed (simp add: adds_ret)

section \<open>What is recorded while the events arrive\<close>

text \<open>The text of a message in the events given to the sink: the deltas recorded for it, in order.\<close>

fun delta_text :: "uuid \<Rightarrow> action \<Rightarrow> rstr" where
  "delta_text i (AtRecord (MessageDelta j role d)) = (if j = i \<and> role = Assistant then d else [])"
| "delta_text i _ = []"

definition recorded_text :: "uuid \<Rightarrow> action list \<Rightarrow> rstr" where
  "recorded_text i tr = concat (map (delta_text i) tr)"

lemma recorded_text_snoc [simp]: "recorded_text i (tr @ [a]) = recorded_text i tr @ delta_text i a"
  by (simp add: recorded_text_def)

text \<open>A step of the stream that ends without an error of the sink has had none before, and has recorded \<open>t\<close>.\<close>

definition logs :: "uuid \<Rightarrow> rstr \<Rightarrow> stream_state \<Rightarrow> ('w, stream_state) loop_m \<Rightarrow> bool" where
  "logs i t g m \<longleftrightarrow> (\<forall>s g' s'. m s = (Done g', s') \<and> ss_sink_error g' = None \<longrightarrow>
     ss_sink_error g = None \<and> recorded_text i (ls_trace s') = recorded_text i (ls_trace s) @ t)"

lemma logs_bind: "logs i t g m \<Longrightarrow> (\<And>g'. logs i u g' (f g')) \<Longrightarrow> logs i (t @ u) g (mbind m f)"
  by (fastforce simp: logs_def mbind_def split: prod.splits exec.splits)

lemma logs_ret: "ss_sink_error g' = ss_sink_error g \<Longrightarrow> logs i [] g (mret g')"
  by (simp add: logs_def mret_def)

lemma logs_stream_record: "ss_sink_error g' = ss_sink_error g \<Longrightarrow> logs i (delta_text i (AtRecord ev)) g (stream_record env ev g')"
  by (auto simp: logs_def stream_record_def sink_record_def mbind_def mret_def mcall_def mnote_def split: prod.splits sum.splits if_splits)

lemma logs_before: "(\<And>s x s'. m s = (Done x, s') \<Longrightarrow> ls_trace s' = ls_trace s) \<Longrightarrow> (\<And>x. logs i t g (f x)) \<Longrightarrow> logs i t g (mbind m f)"
  by (fastforce simp: logs_def mbind_def split: prod.splits exec.splits)

lemma logs_call: "(\<And>x. logs i t g (f x)) \<Longrightarrow> logs i t g (mbind (mcall op) f)"
  by (rule logs_before) (auto simp: mcall_def split: prod.splits)

lemma logs_partial: "(\<And>x. logs i t g (f x)) \<Longrightarrow> logs i t g (mbind (set_partial h) f)"
  by (rule logs_before) (auto simp: set_partial_def mset_state_def)

lemma logs_reasoning: "ss_sink_error g' = ss_sink_error g \<Longrightarrow> logs i [] g (complete_reasoning env j g')"
proof -
  assume g: "ss_sink_error g' = ss_sink_error g"
  have "logs i [] g (stream_record env (ReasoningCompleted j (ss_duration h)) h)" if "ss_sink_error h = ss_sink_error g" for h
    using logs_stream_record [OF that, of i "ReasoningCompleted j (ss_duration h)" env] by simp
  from this [of "g'\<lparr>ss_started := None, ss_duration := n\<rparr>" for n] show ?thesis
    using g by (auto simp: complete_reasoning_def Let_def logs_ret split: option.split intro!: logs_call)
qed

lemma logs_on_event: "logs i (if b then text_of [e] else []) g (on_event env i b g e)"
proof (cases e)
  case (TextDelta d)
  have "logs i (if b then d else []) g' (if b then stream_record env (MessageDelta i Assistant d) g' else mret g')" for g'
    using logs_stream_record [of g' g' i "MessageDelta i Assistant d" env] by (simp add: logs_ret)
  then have tail: "logs i (if b then d else []) g' (mbind (set_partial h) (\<lambda>_. if b then stream_record env (MessageDelta i Assistant d) g' else mret g'))" for g' h
    by (rule logs_partial)
  have "logs i ([] @ []) g (mbind (complete_reasoning env i g') (\<lambda>g. mret (g\<lparr>ss_completed := True\<rparr>)))"
    if "ss_sink_error g' = ss_sink_error g" for g' using that by (intro logs_bind logs_reasoning logs_ret) simp_all
  then have head: "logs i [] g (if ss_completed g' then mret g' else mbind (complete_reasoning env i g') (\<lambda>g. mret (g\<lparr>ss_completed := True\<rparr>)))"
    if "ss_sink_error g' = ss_sink_error g" for g' using that by (simp add: logs_ret)
  have "(if b then text_of [TextDelta d] else []) = [] @ (if b then d else [])" by simp
  then show ?thesis unfolding TextDelta on_event.simps Let_def by (simp only:) (rule logs_bind [OF head tail], simp)
next
  case (ReasoningPart d)
  have tail: "logs i [] g' (if b then stream_record env (ReasoningDelta i d) g' else mret g')" for g'
    using logs_stream_record [of g' g' i "ReasoningDelta i d" env] by (simp add: logs_ret)
  have head: "logs i [] g (if ss_started g = None then mbind (mcall (le_now env)) (\<lambda>now. mret (g\<lparr>ss_emitted := True, ss_started := Some now\<rparr>))
               else mret (g\<lparr>ss_emitted := True\<rparr>))" by (auto intro!: logs_call logs_ret)
  show ?thesis unfolding ReasoningPart on_event.simps using logs_partial [OF logs_bind [OF head tail]] by (auto intro: logs_ret)
next
  case (Usage u)
  then show ?thesis using logs_stream_record [of g g i "usage_event u" env] by (auto simp: usage_event_def intro!: logs_partial)
qed (auto intro: logs_ret)

lemma logs_on_events: "logs i (if b then text_of evs else []) g (on_events env i b g evs)"
proof (induction evs arbitrary: g)
  case (Cons e evs)
  show ?case using logs_bind [OF logs_on_event [of i b e g env] Cons.IH] by (cases b) simp_all
qed (simp add: logs_ret)

section \<open>A request to a client\<close>

lemma mbind_Done: "mbind m f s = (Done y, s') \<longleftrightarrow> (\<exists>x s1. m s = (Done x, s1) \<and> f x s1 = (Done y, s'))"
  by (auto simp: mbind_def split: prod.splits exec.splits)

lemma generate_result:
  assumes run: "generate env q i b s = (Done (emitted, Inr (p, streamed, ms)), s')"
  obtains evs w where "fst (le_generate env q w) = (evs, GenReturned (Inr p))" "streamed = text_of evs"
    "recorded_text i (ls_trace s') = recorded_text i (ls_trace s) @ (if b then text_of evs else [])"
proof -
  let ?s0 = "s\<lparr>ls_partial := ChatResponse_default, ls_trace := ls_trace s @ [AtGenerate q]\<rparr>"
  obtain evs ended w where g: "le_generate env q (ls_world s) = ((evs, ended), w)" by (metis prod_cases3 surj_pair)
  obtain g1 s1 g2 s2 where on: "on_events env i b stream_init evs (?s0\<lparr>ls_world := w\<rparr>) = (Done g1, s1)"
    and fin: "(if ss_completed g1 then mret g1 else complete_reasoning env i g1) s1 = (Done g2, s2)"
    and res: "(case ss_sink_error g2 of Some e \<Rightarrow> Inl (LeEventSink e)
       | None \<Rightarrow> rbind (map_err LeProvider (generation_result ended)) (\<lambda>r. Inr (r, rp_text (ls_partial s2), ss_duration g2))) = Inr (p, streamed, ms)"
    and s': "s' = s2"
    using run g unfolding generate_def
    by (auto simp: mbind_Done set_partial_def mset_state_def mnote_def mcall_def mget_def mret_def)
  have "rp_text (ls_partial s1) = text_of evs" using adds_on_events [of evs env i b stream_init] on by (auto simp: adds_def ChatResponse_default_def)
  moreover have "adds [] (if ss_completed g1 then mret g1 else complete_reasoning env i g1)" by (intro adds_if adds_ret adds_reasoning)
  then have "rp_text (ls_partial s2) = rp_text (ls_partial s1)" using fin by (auto simp: adds_def)
  moreover have "streamed = rp_text (ls_partial s2)" "generation_result ended = Inr p" and ok: "ss_sink_error g2 = None"
    using res by (cases "generation_result ended"; auto split: option.splits)+
  moreover have "ended = GenReturned (Inr p)" using calculation by (cases ended) (auto simp: generation_result_def)
  moreover have "logs i [] g1 (if ss_completed g1 then mret g1 else complete_reasoning env i g1)" by (auto intro: logs_ret logs_reasoning)
  then have "ss_sink_error g1 = None" "recorded_text i (ls_trace s2) = recorded_text i (ls_trace s1)" using fin ok by (auto simp: logs_def)
  moreover from this have "recorded_text i (ls_trace s1) = recorded_text i (ls_trace s) @ (if b then text_of evs else [])"
    using logs_on_events [of i b evs stream_init env] on by (fastforce simp: logs_def)
  ultimately show thesis using that [of "ls_world s" evs] g s' by simp
qed

text \<open>Nothing is left to record.\<close>

lemma append_streamed: "append_response_text env answer p (rp_text p) i s = (Done (answer @ rp_text p), s)"
proof -
  have "starts_with (rp_text p) (rp_text p)" by (simp add: starts_with_iff)
  then show ?thesis by (simp add: append_response_text_def mbind_def mret_def)
qed

end
