(* ===== verification/Mcp_Sse.thy ===== *)
theory Mcp_Sse
  imports Provider_Http
begin

text \<open>
  The legacy server-sent-events transport of the Model Context Protocol (\<open>mcp/sse.rs\<close>): the retry policy, the event parser
  and the task that reads the stream.  Durations are nanoseconds.  URLs and JSON-RPC messages are opaque: the library that
  parses and joins URLs is the parameter \<open>url_lib\<close>, the message parser is \<open>parse\<close>, and \<open>receives\<close> says whether the
  receiver of the messages still takes one after those already sent.
\<close>

section \<open>Retries\<close>

definition NANOS_PER_SEC :: nat where
  "NANOS_PER_SEC = 1000000000"

definition MAX_RETRY_DELAY :: nat where
  "MAX_RETRY_DELAY = 60 * NANOS_PER_SEC"

definition MAX_EVENT_BYTES :: nat where
  "MAX_EVENT_BYTES = 16 * 1024 * 1024"

definition MAX_ENDPOINT_BYTES :: nat where
  "MAX_ENDPOINT_BYTES = 16 * 1024"

definition DURATION_MAX :: nat where
  "DURATION_MAX = u64_max * NANOS_PER_SEC + 999999999"

record McpSseConfig =
  mr_max_retries :: "nat option"
  mr_base_delay :: nat

definition McpSseConfig_default :: McpSseConfig where
  "McpSseConfig_default = \<lparr>mr_max_retries = Some 3, mr_base_delay = 250 * 1000000\<rparr>"

definition delay_for_attempt :: "McpSseConfig \<Rightarrow> nat \<Rightarrow> nat option" where
  "delay_for_attempt c attempt =
     (if (case mr_max_retries c of None \<Rightarrow> False | Some m \<Rightarrow> m \<le> attempt) then None
      else if 32 \<le> attempt then None
      else (let delay = mr_base_delay c * 2 ^ attempt in
            if DURATION_MAX < delay then None else if delay \<le> MAX_RETRY_DELAY then Some delay else None))"

definition validate_sse_config :: "McpSseConfig \<Rightarrow> (rstr, unit) result" where
  "validate_sse_config c =
     ensure (\<not> (mr_base_delay c = 0 \<or> MAX_RETRY_DELAY < mr_base_delay c)) (str ''MCP SSE base delay must be between 1ms and 60s'')"

section \<open>The parser\<close>

record SseEvent =
  ev_event :: "rstr option"
  ev_data :: rstr
  ev_id :: "rstr option"
  ev_retry :: "nat option"

record SseParser =
  sp_event_bytes :: nat
  sp_event :: "rstr option"
  sp_data :: "rstr list"
  sp_id :: "rstr option"
  sp_retry :: "nat option"

definition SseParser_default :: SseParser where
  "SseParser_default = \<lparr>sp_event_bytes = 0, sp_event = None, sp_data = [], sp_id = None, sp_retry = None\<rparr>"

definition oversized :: rstr where
  "oversized = str ''SSE event exceeded configured size''"

text \<open>The end of an event.\<close>

definition dispatch :: "SseParser \<times> SseEvent list \<Rightarrow> SseParser \<times> SseEvent list" where
  "dispatch st =
     (case st of (p, events) \<Rightarrow>
        (SseParser_default,
         if sp_event p \<noteq> None \<or> sp_data p \<noteq> [] \<or> sp_id p \<noteq> None \<or> sp_retry p \<noteq> None
         then events @ [\<lparr>ev_event = sp_event p, ev_data = join [10] (sp_data p), ev_id = sp_id p, ev_retry = sp_retry p\<rparr>]
         else events))"

text \<open>\<open>split_once(':')\<close>, and the field without the space after the colon.\<close>

definition split_field :: "rstr \<Rightarrow> rstr \<times> rstr" where
  "split_field line =
     (if 58 \<in> set line
      then (takeWhile (\<lambda>c. c \<noteq> 58) line, strip_space (tl (dropWhile (\<lambda>c. c \<noteq> 58) line)))
      else (line, []))"

definition set_field :: "rstr \<Rightarrow> rstr \<Rightarrow> SseParser \<Rightarrow> SseParser" where
  "set_field field v p =
     (if field = str ''event'' then p\<lparr>sp_event := Some v\<rparr>
      else if field = str ''data'' then p\<lparr>sp_data := sp_data p @ [v]\<rparr>
      else if field = str ''id'' \<and> 0 \<notin> set v then p\<lparr>sp_id := Some v\<rparr>
      else if field = str ''retry'' then
        (case parse_uint u64_max v of None \<Rightarrow> p | Some ms \<Rightarrow> p\<lparr>sp_retry := Some (min (ms * 1000000) MAX_RETRY_DELAY)\<rparr>)
      else p)"

text \<open>The body of the loop of \<open>push\<close>.\<close>

definition mcp_line :: "nat \<Rightarrow> bytes \<Rightarrow> SseParser \<times> SseEvent list \<Rightarrow> (rstr, bool) result \<times> (SseParser \<times> SseEvent list)" where
  "mcp_line max_event_bytes line st =
     (case st of (p, events) \<Rightarrow>
        (let p = p\<lparr>sp_event_bytes := sat_add (sp_event_bytes p) (length line + 1)\<rparr> in
         if max_event_bytes < sp_event_bytes p then (Inl oversized, (p, events))
         else if line = [] then (Inr False, dispatch (p, events))
         else if hd line = 58 then (Inr False, (p, events))
         else (case utf8_decode line of
                 None \<Rightarrow> (Inl (str ''SSE stream is not valid UTF-8''), (p, events))
               | Some t \<Rightarrow> (Inr False, (case split_field t of (field, v) \<Rightarrow> set_field field v p, events)))))"

text \<open>\<open>push\<close> on the line buffer and the fields of the event under way: the events that the chunk completes.\<close>

definition mcp_push :: "nat \<Rightarrow> bytes \<Rightarrow> bytes \<times> SseParser \<Rightarrow> (rstr, SseEvent list \<times> bytes \<times> SseParser) result" where
  "mcp_push max_event_bytes chunk st =
     (case st of (buf, p) \<Rightarrow>
        (case drain_lines (mcp_line max_event_bytes) (buf @ chunk) (p, []) of
           (Inl e, _, _) \<Rightarrow> Inl e
         | (Inr _, buf', (p', events)) \<Rightarrow> if max_event_bytes < length buf' then Inl oversized else Inr (events, buf', p')))"

definition mcp_finish :: "bytes \<times> SseParser \<Rightarrow> (rstr, SseEvent list) result" where
  "mcp_finish st = (if fst st = [] then Inr [] else Inl (str ''SSE stream ended mid-event''))"

section \<open>Endpoints\<close>

record 'u url_lib =
  ul_join :: "'u \<Rightarrow> rstr \<Rightarrow> 'u option"
  ul_scheme :: "'u \<Rightarrow> rstr"
  ul_host :: "'u \<Rightarrow> rstr option"
  ul_port :: "'u \<Rightarrow> nat option"
  ul_username :: "'u \<Rightarrow> rstr"
  ul_password :: "'u \<Rightarrow> rstr option"

definition same_origin :: "'u url_lib \<Rightarrow> 'u \<Rightarrow> 'u \<Rightarrow> bool" where
  "same_origin U l r \<longleftrightarrow> ul_scheme U l = ul_scheme U r \<and> ul_host U l = ul_host U r \<and> ul_port U l = ul_port U r"

definition resolve_endpoint :: "'u url_lib \<Rightarrow> 'u \<Rightarrow> rstr \<Rightarrow> (rstr, 'u) result" where
  "resolve_endpoint U base v =
     (if MAX_ENDPOINT_BYTES < str_len v \<or> trim v = [] then Inl (str ''MCP SSE endpoint is invalid'')
      else (case ul_join U base (trim v) of
              None \<Rightarrow> Inl (str ''MCP SSE endpoint is invalid'')
            | Some endpoint \<Rightarrow>
                if \<not> same_origin U base endpoint \<or> \<not> (ul_scheme U endpoint = str ''http'' \<or> ul_scheme U endpoint = str ''https'')
                   \<or> ul_username U endpoint \<noteq> [] \<or> ul_password U endpoint \<noteq> None
                then Inl (str ''MCP SSE endpoint must be same-origin and credential-free'')
                else Inr endpoint))"

definition resolve_message_url :: "'u url_lib \<Rightarrow> 'u \<Rightarrow> 'u \<Rightarrow> (rstr, 'u) result" where
  "resolve_message_url U base endpoint =
     (if \<not> same_origin U base endpoint then Inl (str ''MCP SSE endpoint origin changed'') else Inr endpoint)"

section \<open>The stream task\<close>

record ('u, 'm) LegacySseState =
  lg_endpoint :: "'u option"
  lg_last_event_id :: "rstr option"
  lg_error :: "rstr option"
  lg_closed :: bool
  lg_incoming :: "'m list"

definition LegacySseState_init :: "('u, 'm) LegacySseState" where
  "LegacySseState_init = \<lparr>lg_endpoint = None, lg_last_event_id = None, lg_error = None, lg_closed = False, lg_incoming = []\<rparr>"

definition set_stream_error :: "rstr \<Rightarrow> ('u, 'm) LegacySseState \<Rightarrow> ('u, 'm) LegacySseState" where
  "set_stream_error message s = s\<lparr>lg_closed := True, lg_error := Some message\<rparr>"

text \<open>The locals of the task that survive a reconnection.\<close>

record retry_state =
  rt_attempt :: nat
  rt_last_event_id :: "rstr option"
  rt_server_retry :: "nat option"

record ('u, 'm) mcp_env =
  me_config :: McpSseConfig
  me_max_event_bytes :: nat
  me_urls :: "'u url_lib"
  me_base_url :: 'u
  me_parse :: "rstr \<Rightarrow> 'm option"
  me_receives :: "'m list \<Rightarrow> bool"

text \<open>One event; the flag says whether the task goes on.\<close>

definition note_event :: "SseEvent \<Rightarrow> retry_state \<times> ('u, 'm) LegacySseState \<Rightarrow> retry_state \<times> ('u, 'm) LegacySseState" where
  "note_event e st =
     (case st of (r, s) \<Rightarrow>
        (let (r, s) = (case ev_id e of None \<Rightarrow> (r, s) | Some i \<Rightarrow> (r\<lparr>rt_last_event_id := Some i\<rparr>, s\<lparr>lg_last_event_id := Some i\<rparr>)) in
         (case ev_retry e of None \<Rightarrow> r | Some d \<Rightarrow> r\<lparr>rt_server_retry := Some d\<rparr>, s)))"

definition handle_event :: "('u, 'm) mcp_env \<Rightarrow> SseEvent \<Rightarrow> retry_state \<times> ('u, 'm) LegacySseState \<Rightarrow> bool \<times> retry_state \<times> ('u, 'm) LegacySseState" where
  "handle_event env e st =
     (case note_event e st of (r, s) \<Rightarrow>
        if (case ev_event e of None \<Rightarrow> False | Some kind \<Rightarrow> eq_ignore_ascii_case kind (str ''endpoint'')) then
          (case resolve_endpoint (me_urls env) (me_base_url env) (ev_data e) of
             Inr endpoint \<Rightarrow> (True, r, s\<lparr>lg_endpoint := Some endpoint\<rparr>)
           | Inl error \<Rightarrow> (False, r, set_stream_error error s))
        else if (case ev_event e of None \<Rightarrow> False | Some kind \<Rightarrow> kind \<noteq> [] \<and> kind \<noteq> str ''message'') then (True, r, s)
        else if trim (ev_data e) = [] then (True, r, s)
        else (case me_parse env (ev_data e) of
                None \<Rightarrow> (False, r, set_stream_error (str ''MCP SSE message is not valid JSON-RPC'') s)
              | Some m \<Rightarrow>
                  if me_receives env (lg_incoming s) then (True, r, s\<lparr>lg_incoming := lg_incoming s @ [m]\<rparr>) else (False, r, s)))"

fun handle_events :: "('u, 'm) mcp_env \<Rightarrow> SseEvent list \<Rightarrow> retry_state \<times> ('u, 'm) LegacySseState \<Rightarrow> bool \<times> retry_state \<times> ('u, 'm) LegacySseState" where
  "handle_events env [] st = (True, st)"
| "handle_events env (e # es) st = (case handle_event env e st of (True, st') \<Rightarrow> handle_events env es st' | (False, st') \<Rightarrow> (False, st'))"

text \<open>What the stream of one connection brings; the end of the list is the end of the stream.\<close>

datatype mcp_arrival = McpCancelled | McpChunk bytes | McpBroken

fun read_events :: "('u, 'm) mcp_env \<Rightarrow> mcp_arrival list \<Rightarrow> bytes \<times> SseParser \<Rightarrow> retry_state \<times> ('u, 'm) LegacySseState
    \<Rightarrow> bool \<times> retry_state \<times> ('u, 'm) LegacySseState" where
  "read_events env [] p (r, s) =
     (case mcp_finish p of Inl e \<Rightarrow> (False, r, set_stream_error e s) | Inr _ \<Rightarrow> (True, r, s))"
| "read_events env (McpCancelled # as) p st = (False, st)"
| "read_events env (McpBroken # as) p (r, s) =
     (case mcp_finish p of Inl e \<Rightarrow> (False, r, set_stream_error e s) | Inr _ \<Rightarrow> (True, r, s))"
| "read_events env (McpChunk c # as) p (r, s) =
     (case mcp_push (me_max_event_bytes env) c p of
        Inl e \<Rightarrow> (False, r, set_stream_error e s)
      | Inr (events, p') \<Rightarrow>
          (case handle_events env events (r, s) of (False, st) \<Rightarrow> (False, st) | (True, st) \<Rightarrow> read_events env as p' st))"

text \<open>
  One turn of the reconnection loop: how the request ended, what the stream brought, and whether the sleep before the next turn
  was left undisturbed.
\<close>

datatype connection = ConnCancelled | Unauthorized | Unreachable bool | Connected "mcp_arrival list" bool

definition wait_before_retry :: "McpSseConfig \<Rightarrow> bool \<Rightarrow> retry_state \<Rightarrow> bool \<times> retry_state" where
  "wait_before_retry c slept r =
     (case delay_for_attempt c (rt_attempt r) of None \<Rightarrow> (False, r) | Some d \<Rightarrow> (slept, r\<lparr>rt_attempt := sat_add (rt_attempt r) 1\<rparr>))"

definition stream_turn :: "('u, 'm) mcp_env \<Rightarrow> connection \<Rightarrow> retry_state \<times> ('u, 'm) LegacySseState \<Rightarrow> bool \<times> retry_state \<times> ('u, 'm) LegacySseState" where
  "stream_turn env c st =
     (case st of (r, s) \<Rightarrow>
        (case c of
           ConnCancelled \<Rightarrow> (False, r, s)
         | Unauthorized \<Rightarrow> (False, r, set_stream_error (str ''MCP SSE endpoint authorization failed'') s)
         | Unreachable slept \<Rightarrow>
             (case wait_before_retry (me_config env) slept r of
                (True, r) \<Rightarrow> (True, r, s)
              | (False, r) \<Rightarrow> (False, r, set_stream_error (str ''MCP SSE endpoint could not be reached'') s))
         | Connected as slept \<Rightarrow>
             (case read_events env as ([], SseParser_default) (r, s) of
                (False, st) \<Rightarrow> (False, st)
              | (True, r, s) \<Rightarrow>
                  (case delay_for_attempt (me_config env) (rt_attempt r) of
                     None \<Rightarrow> (False, r, set_stream_error (str ''MCP SSE stream retries exhausted'') s)
                   | Some delay \<Rightarrow> (slept, r\<lparr>rt_attempt := sat_add (rt_attempt r) 1, rt_server_retry := None\<rparr>, s)))))"

text \<open>The task, and the number of connections it has opened.\<close>

fun run_stream :: "('u, 'm) mcp_env \<Rightarrow> connection list \<Rightarrow> nat \<Rightarrow> retry_state \<times> ('u, 'm) LegacySseState \<Rightarrow> nat \<times> retry_state \<times> ('u, 'm) LegacySseState" where
  "run_stream env [] n st = (n, st)"
| "run_stream env (c # cs) n (r, s) =
     (if lg_closed s then (n, r, s)
      else (case stream_turn env c (r, s) of (True, st) \<Rightarrow> run_stream env cs (n + 1) st | (False, st) \<Rightarrow> (n + 1, st)))"

section \<open>The parser does not see the chunks\<close>

text \<open>The parser as a reader of chunks: the events of all chunks so far, or the first error.  Which of the events before an error were
  delivered depends on the chunks, since \<open>push\<close> returns the error instead of the events of its own chunk; they are not compared.\<close>

definition mcp_collect :: "nat \<Rightarrow> bytes \<Rightarrow> (bytes \<times> SseParser) \<times> SseEvent list \<Rightarrow> (rstr, (bytes \<times> SseParser) \<times> SseEvent list) result" where
  "mcp_collect limit c st =
     (case st of (p, events) \<Rightarrow> (case mcp_push limit c p of Inl e \<Rightarrow> Inl e | Inr (new, p') \<Rightarrow> Inr (p', events @ new)))"

definition goes_on_mcp :: "(rstr, 'a) result \<Rightarrow> 'a option" where
  "goes_on_mcp r = (case r of Inl _ \<Rightarrow> None | Inr s \<Rightarrow> Some s)"

text \<open>The limits that a validated configuration can have.\<close>

definition limit_ok :: "nat \<Rightarrow> 'c list \<Rightarrow> 's \<Rightarrow> bool" where
  "limit_ok limit c s \<longleftrightarrow> limit \<le> MAX_EVENT_BYTES"

text \<open>Events already collected are only appended to.\<close>

definition after :: "SseEvent list \<Rightarrow> SseParser \<times> SseEvent list \<Rightarrow> SseParser \<times> SseEvent list" where
  "after pre st = (fst st, pre @ snd st)"

lemma mcp_line_after: "mcp_line limit line (after pre st) = map_prod id (after pre) (mcp_line limit line st)"
  by (cases st) (auto simp: mcp_line_def after_def Let_def dispatch_def split: option.split prod.split)

lemma drain_after: "drain_lines (mcp_line limit) a (after pre st) = (case drain_lines (mcp_line limit) a st of (r, rest, st') \<Rightarrow> (r, rest, after pre st'))"
proof (induction a arbitrary: st rule: measure_induct_rule [of length])
  case (less a)
  show ?case
  proof (cases rule: drain_cases [where a = a and step = "mcp_line limit" and s = st])
    case idle
    then show ?thesis by (simp add: drain_idle)
  next
    case (next_line line rest st')
    then have "mcp_line limit (strip_cr line) (after pre st) = (Inr False, after pre st')" by (simp add: mcp_line_after)
    then show ?thesis using less [of rest st'] take_line_length [OF next_line(1)] next_line
      by (simp add: drain_next [where step = "mcp_line limit", OF next_line] drain_next [where step = "mcp_line limit", OF next_line(1)])
  next
    case (last_line line rest r st')
    then have "mcp_line limit (strip_cr line) (after pre st) = (r, after pre st')" by (simp add: mcp_line_after)
    then show ?thesis using last_line
      by (simp add: drain_end [where step = "mcp_line limit", OF last_line] drain_end [where step = "mcp_line limit", OF last_line(1)])
  qed
qed

lemma mcp_line_not_last: "mcp_line limit line st \<noteq> (Inr True, st')"
  by (auto simp: mcp_line_def Let_def split: option.splits prod.splits if_splits)

lemma drain_not_last: "fst (drain_lines (mcp_line limit) a st) \<noteq> Inr True"
proof (induction a arbitrary: st rule: measure_induct_rule [of length])
  case (less a)
  show ?case
  proof (cases rule: drain_cases [where a = a and step = "mcp_line limit" and s = st])
    case (next_line line rest st')
    then show ?thesis using less [of rest st'] take_line_length [OF next_line(1)] by (simp add: drain_next [where step = "mcp_line limit", OF next_line])
  next
    case (last_line line rest r st')
    then show ?thesis using mcp_line_not_last [of limit "strip_cr line" st st'] by (auto simp: drain_end [where step = "mcp_line limit", OF last_line])
  qed (simp add: drain_idle)
qed

text \<open>The collecting push as one drain.\<close>

definition settle_drain :: "nat \<Rightarrow> (rstr, bool) result \<times> bytes \<times> SseParser \<times> SseEvent list \<Rightarrow> (rstr, (bytes \<times> SseParser) \<times> SseEvent list) result" where
  "settle_drain limit d =
     (case d of
        (Inl e, _, _) \<Rightarrow> Inl e
      | (Inr _, buf, (p, events)) \<Rightarrow> if limit < length buf then Inl oversized else Inr ((buf, p), events))"

lemma mcp_collect_drain: "mcp_collect limit c ((buf, p), events) = settle_drain limit (drain_lines (mcp_line limit) (buf @ c) (p, events))"
proof -
  have "drain_lines (mcp_line limit) (buf @ c) (p, events) =
      (case drain_lines (mcp_line limit) (buf @ c) (p, []) of (r, rest, st') \<Rightarrow> (r, rest, after events st'))"
    using drain_after [of limit "buf @ c" events "(p, [])"] by (simp add: after_def)
  then show ?thesis
    by (auto simp: mcp_collect_def mcp_push_def settle_drain_def after_def split: prod.split sum.split)
qed

text \<open>A line too long for the limit is refused whether its end has arrived or not.\<close>

lemma take_line_prefix: "10 \<notin> set a \<Longrightarrow> take_line (a @ b) = Some (line, rest) \<Longrightarrow> length a \<le> length line"
proof -
  assume n: "10 \<notin> set a" and t: "take_line (a @ b) = Some (line, rest)"
  have "takeWhile (\<lambda>c. c \<noteq> 10) (a @ b) = a @ takeWhile (\<lambda>c. c \<noteq> 10) b" by (rule takeWhile_append2) (use n in auto)
  moreover have "line = takeWhile (\<lambda>c. c \<noteq> 10) (a @ b)" using t by (simp add: take_line_def split: if_splits)
  ultimately show ?thesis by simp
qed

lemma strip_cr_length: "length line \<le> length (strip_cr line) + 1"
  by (simp add: strip_cr_def)

lemma drain_oversized:
  assumes "limit \<le> MAX_EVENT_BYTES" "limit < length rest" "10 \<notin> set rest"
  shows "settle_drain limit (drain_lines (mcp_line limit) (rest @ b) st) = Inl oversized"
proof (cases "take_line (rest @ b)")
  case None
  then have "drain_lines (mcp_line limit) (rest @ b) st = (Inr False, rest @ b, st)" by (simp add: drain_idle take_line_None)
  then show ?thesis using assms(2) by (simp add: settle_drain_def split: prod.split)
next
  case (Some q)
  obtain line r where t: "take_line (rest @ b) = Some (line, r)" using Some by (cases q) auto
  have "limit < length (strip_cr line) + 1" using take_line_prefix [OF assms(3) t] strip_cr_length [of line] assms(2) by linarith
  moreover have "limit < usize_max" using assms(1) by (simp add: MAX_EVENT_BYTES_def usize_max_def)
  ultimately have "limit < sat_add n (length (strip_cr line) + 1)" for n by (simp add: sat_add_def)
  then obtain st' where l: "mcp_line limit (strip_cr line) st = (Inl oversized, st')" by (cases st) (simp add: mcp_line_def Let_def)
  show ?thesis using drain_end [where step = "mcp_line limit", OF t l] by (simp add: settle_drain_def)
qed

interpretation mcp: chunk_reader "mcp_collect limit" goes_on_mcp id "limit_ok limit" for limit
proof unfold_locales
  fix a b :: bytes and st :: "(bytes \<times> SseParser) \<times> SseEvent list"
  assume f: "limit_ok limit (a @ b) st"
  obtain buf p events where st: "st = ((buf, p), events)" by (metis prod_cases3 surj_pair)
  show "limit_ok limit a st" using f by (simp add: limit_ok_def)
  show "limit_ok limit b st'" if "goes_on_mcp (mcp_collect limit a st) = Some st'" for st' using f by (simp add: limit_ok_def)
  obtain r rest q where d: "drain_lines (mcp_line limit) (buf @ a) (p, events) = (r, rest, q)" by (metis prod_cases3)
  have whole: "mcp_collect limit (a @ b) st = settle_drain limit (resume_drain (mcp_line limit) b (r, rest, q))"
    using drain_append [of "mcp_line limit" "buf @ a" b "(p, events)"] by (simp add: st mcp_collect_drain d)
  have first: "mcp_collect limit a st = settle_drain limit (r, rest, q)" by (simp add: st mcp_collect_drain d)
  consider (failed) e where "r = Inl e" | (going) "r = Inr False" "length rest \<le> limit" | (long) "r = Inr False" "limit < length rest"
  proof (cases r)
    case (Inr b)
    then have "r = Inr False" using drain_not_last [of limit "buf @ a" "(p, events)"] d by (cases b) auto
    then show thesis using that(2,3) by (cases "length rest \<le> limit") auto
  qed (use that(1) in blast)
  then show "id (mcp_collect limit (a @ b) st) =
      (case goes_on_mcp (mcp_collect limit a st) of None \<Rightarrow> id (mcp_collect limit a st) | Some s' \<Rightarrow> id (mcp_collect limit b s'))"
  proof cases
    case failed
    then show ?thesis by (simp add: whole first resume_drain_def settle_drain_def goes_on_mcp_def)
  next
    case going
    then show ?thesis by (cases q) (simp add: whole first resume_drain_def settle_drain_def [of _ "(Inr False, rest, _)"] goes_on_mcp_def mcp_collect_drain)
  next
    case long
    have "10 \<notin> set rest" using drain_rest [where step = "mcp_line limit"] d long by blast
    then have "settle_drain limit (drain_lines (mcp_line limit) (rest @ b) q) = Inl oversized"
      using drain_oversized long f by (simp add: limit_ok_def)
    then show ?thesis using long by (cases q) (simp add: whole first resume_drain_def settle_drain_def [of _ "(Inr False, rest, _)"] goes_on_mcp_def)
  qed
qed

section \<open>Endpoints stay at their origin\<close>

definition endpoint_safe :: "('u, 'm) mcp_env \<Rightarrow> ('u, 'm) LegacySseState \<Rightarrow> bool" where
  "endpoint_safe env s \<longleftrightarrow>
     (case lg_endpoint s of
        None \<Rightarrow> True
      | Some u \<Rightarrow> same_origin (me_urls env) (me_base_url env) u \<and> ul_username (me_urls env) u = [] \<and> ul_password (me_urls env) u = None)"

lemma resolve_endpoint_safe:
  "resolve_endpoint U base v = Inr u \<Longrightarrow> same_origin U base u \<and> ul_username U u = [] \<and> ul_password U u = None"
  by (auto simp: resolve_endpoint_def split: if_splits option.splits)

lemma set_stream_error_safe [simp]: "endpoint_safe env (set_stream_error m s) = endpoint_safe env s"
  by (simp add: endpoint_safe_def set_stream_error_def)

lemma note_event_keeps: "note_event e (r, s) = (r', s') \<Longrightarrow> rt_attempt r' = rt_attempt r \<and> lg_endpoint s' = lg_endpoint s"
  by (auto simp: note_event_def split: option.splits)

text \<open>What every step of the task keeps: the origin of the endpoint, and the count of attempts except before a sleep.\<close>

definition keeps :: "('u, 'm) mcp_env \<Rightarrow> retry_state \<times> ('u, 'm) LegacySseState \<Rightarrow> bool \<times> retry_state \<times> ('u, 'm) LegacySseState \<Rightarrow> bool" where
  "keeps env st out \<longleftrightarrow> rt_attempt (fst (snd out)) = rt_attempt (fst st) \<and> (endpoint_safe env (snd st) \<longrightarrow> endpoint_safe env (snd (snd out)))"

lemma handle_event_keeps: "keeps env st (handle_event env e st)"
proof -
  obtain r s where st: "st = (r, s)" by (cases st)
  obtain r' s' where n: "note_event e (r, s) = (r', s')" by (cases "note_event e (r, s)")
  show ?thesis
    using note_event_keeps [OF n] resolve_endpoint_safe [of "me_urls env" "me_base_url env" "ev_data e"]
    by (auto simp: keeps_def st handle_event_def n endpoint_safe_def set_stream_error_def split: sum.split option.split)
qed

lemma handle_events_keeps: "keeps env st (handle_events env es st)"
proof (induction es arbitrary: st)
  case (Cons e es)
  obtain b st' where h: "handle_event env e st = (b, st')" by (cases "handle_event env e st")
  show ?case using handle_event_keeps [of env st e] Cons.IH [of st'] by (cases b) (auto simp: h keeps_def)
qed (simp add: keeps_def)

lemma read_events_keeps: "keeps env st (read_events env as p st)"
proof (induction as arbitrary: p st)
  case Nil
  then show ?case by (cases st) (simp add: keeps_def split: sum.split)
next
  case (Cons a as)
  obtain r s where st: "st = (r, s)" by (cases st)
  show ?case
  proof (cases a)
    case (McpChunk c)
    show ?thesis
    proof (cases "mcp_push (me_max_event_bytes env) c p")
      case (Inr q)
      obtain events p' where q: "q = (events, p')" by (cases q)
      obtain b st' where h: "handle_events env events (r, s) = (b, st')" by (cases "handle_events env events (r, s)")
      show ?thesis using handle_events_keeps [of env "(r, s)" events] Cons.IH [of st' p'] Inr q h McpChunk
        by (cases b) (auto simp: st keeps_def)
    qed (simp add: McpChunk st keeps_def)
  qed (simp_all add: st keeps_def split: sum.split)
qed

lemma delay_attempt_bound: "delay_for_attempt c n = Some d \<Longrightarrow> n < 32 \<and> (\<forall>m. mr_max_retries c = Some m \<longrightarrow> n < m) \<and> d \<le> MAX_RETRY_DELAY"
  by (auto simp: delay_for_attempt_def Let_def split: if_splits option.splits)

lemma small_sat_add: "n < 32 \<Longrightarrow> sat_add n 1 = n + 1"
  by (simp add: sat_add_def usize_max_def)

text \<open>A turn that goes on has counted an attempt that the policy allows.\<close>

lemma stream_turn_on:
  assumes "stream_turn env c (r, s) = (True, r', s')"
  shows "rt_attempt r' = rt_attempt r + 1 \<and> (\<exists>d. delay_for_attempt (me_config env) (rt_attempt r) = Some d)"
proof (cases c)
  case (Unreachable slept)
  then show ?thesis using assms by (auto simp: stream_turn_def wait_before_retry_def small_sat_add [simplified] dest: delay_attempt_bound split: option.splits bool.splits)
next
  case (Connected as slept)
  obtain b r1 s1 where h: "read_events env as ([], SseParser_default) (r, s) = (b, r1, s1)"
    by (cases "read_events env as ([], SseParser_default) (r, s)")
  have "rt_attempt r1 = rt_attempt r" using read_events_keeps [of env "(r, s)" as "([], SseParser_default)"] by (simp add: h keeps_def)
  then show ?thesis using assms h Connected by (cases b) (auto simp: stream_turn_def small_sat_add [simplified] dest: delay_attempt_bound split: option.splits)
qed (use assms in \<open>auto simp: stream_turn_def\<close>)

lemma stream_turn_safe: "endpoint_safe env s \<Longrightarrow> endpoint_safe env (snd (snd (stream_turn env c (r, s))))"
proof (cases c)
  case (Unreachable slept)
  assume "endpoint_safe env s"
  then show ?thesis using Unreachable by (auto simp: stream_turn_def split: prod.split bool.split)
next
  case (Connected as slept)
  assume a: "endpoint_safe env s"
  obtain b r1 s1 where h: "read_events env as ([], SseParser_default) (r, s) = (b, r1, s1)"
    by (cases "read_events env as ([], SseParser_default) (r, s)")
  have "endpoint_safe env s1" using read_events_keeps [of env "(r, s)" as "([], SseParser_default)"] a by (simp add: h keeps_def)
  then show ?thesis using h Connected by (cases b) (auto simp: stream_turn_def split: option.split)
qed (simp_all add: stream_turn_def)

lemma run_stream_safe: "endpoint_safe env s \<Longrightarrow> endpoint_safe env (snd (snd (run_stream env cs n (r, s))))"
proof (induction cs arbitrary: n r s)
  case (Cons c cs)
  obtain b r' s' where t: "stream_turn env c (r, s) = (b, r', s')" by (cases "stream_turn env c (r, s)")
  have "endpoint_safe env s'" using stream_turn_safe [OF Cons.prems, of c r] t by simp
  then show ?case using Cons t by (cases b) auto
qed simp

text \<open>The connections of a task: one more than the retries that the policy allows.\<close>

lemma run_stream_connections:
  assumes "\<forall>k d. delay_for_attempt (me_config env) k = Some d \<longrightarrow> k < limit"
  shows "fst (run_stream env cs n (r, s)) \<le> n + (limit - rt_attempt r) + 1"
proof (induction cs arbitrary: n r s)
  case (Cons c cs)
  obtain b r' s' where t: "stream_turn env c (r, s) = (b, r', s')" by (cases "stream_turn env c (r, s)")
  show ?case
  proof (cases b)
    case True
    have "rt_attempt r < limit" "rt_attempt r' = rt_attempt r + 1" using stream_turn_on [of env c r s r' s'] t assms True by auto
    moreover have "fst (run_stream env cs (n + 1) (r', s')) \<le> (n + 1) + (limit - rt_attempt r') + 1" by (rule Cons.IH)
    ultimately have "fst (run_stream env cs (n + 1) (r', s')) \<le> n + (limit - rt_attempt r) + 1" by linarith
    then show ?thesis using t True by auto
  qed (use t in simp)
qed simp

end
