(* ===== verification/Provider_Properties.thy ===== *)
theory Provider_Properties
  imports Loop_Streaming Agent_Loop_Properties Mcp_Sse
begin

text \<open>Properties of the clients of the model providers and of the event stream of the Model Context Protocol.\<close>

section \<open>Streams\<close>

text \<open>C31. Two cuts of the bytes of a stream of server-sent events into chunks, with any pauses, make the OpenAI client return the same
  response or the same error and tell its listener the same events, provided that the stream is not cancelled or broken off, has at most
  16 MiB, and in neither cut a chunk together with the incomplete line before it exceeds the line buffer of 1 MiB.\<close>

theorem openai_stream_chunking:
  assumes "undisturbed as" "undisturbed bs" "arrived as = arrived bs" "within_limits as" "within_limits bs"
  shows "read_sse_response L strict as = read_sse_response L strict bs"
  using read_sse_whole [OF assms(1,4)] read_sse_whole [OF assms(2,5)] assms(3) by simp

definition demo_lib :: provider_lib where
  "demo_lib = \<lparr>pl_from_str = (\<lambda>_. Inr (JObject [(str ''choices'', JArray [JObject [(str ''message'', JObject [(str ''content'', JString (str ''ok''))])]])])),
     pl_display = (\<lambda>_. []), pl_redact_json = (\<lambda>v. v), pl_redact_body = (\<lambda>s. s), pl_lossy = (\<lambda>s. s)\<rparr>"

theorem openai_stream_chunking_witness:
  "read_sse_response demo_lib True [Chunk (str ''data: 1''), Waiting, Chunk [10], Chunk [10]] = read_sse_response demo_lib True [Chunk (str ''data: 1'' @ [10, 10])]"
  by (rule openai_stream_chunking) (simp_all add: undisturbed_def str_def within_limits_def open_line_def MAX_SSE_BUFFER_BYTES_def MAX_RESPONSE_BODY_BYTES_def)

text \<open>The same for the Anthropic client.\<close>

theorem anthropic_stream_chunking:
  assumes "undisturbed as" "undisturbed bs" "arrived as = arrived bs" "within_limits as" "within_limits bs"
  shows "an_read_sse_response L as = an_read_sse_response L bs"
proof -
  have "read_chunks step as 0 ([], s) = read_chunks step bs 0 ([], s)" for step :: "bytes \<Rightarrow> anthropic_state \<Rightarrow> (ProviderError, bool) result \<times> anthropic_state" and s
    using read_chunks_whole [OF assms(1,4), of step s] read_chunks_whole [OF assms(2,5), of step s] assms(3) by simp
  then show ?thesis by (simp only: an_read_sse_response_def)
qed

theorem anthropic_stream_chunking_witness:
  "an_read_sse_response demo_lib [Chunk (str ''event: ping''), Chunk [10, 10]] = an_read_sse_response demo_lib [Waiting, Chunk (str ''event: ping'' @ [10]), Chunk [10]]"
  by (rule anthropic_stream_chunking) (simp_all add: undisturbed_def str_def within_limits_def open_line_def MAX_SSE_BUFFER_BYTES_def MAX_RESPONSE_BODY_BYTES_def)

text \<open>C7. Whatever a provider sends, a response of the OpenAI client is what its listener has been told: the text and the reasoning
  are the concatenation of the deltas, and the tool calls are the deltas of each index put together.\<close>

theorem openai_chat_tells:
  assumes "openai_chat L rfc2822 canonical_reason kind caps server cancelled q options = (Inr p, evs)"
  shows "rp_text p = text_of evs \<and> rp_reasoning p = reasoning_of evs \<and> rp_tool_calls p = map snd (calls_of evs)"
  using openai_chat_told [OF assms] by (simp add: told_response_def)

definition demo_server :: "'q \<Rightarrow> sending" where
  "demo_server q = Answered \<lparr>hr_status = 200, hr_headers = (\<lambda>_. None), hr_body = [Chunk (str ''body'')]\<rparr>"

definition demo_caps :: ProviderCapabilities where
  "demo_caps = \<lparr>pc_model_id = str ''m'', pc_capabilities = [Chat], pc_context_window = None, pc_tool_calls = True\<rparr>"

definition demo_question :: ChatRequest where
  "demo_question = \<lparr>cq_messages = [ChatMessage_new (str ''user'') (str ''why'')], cq_temperature = 0, cq_tools = None, cq_max_tokens = None\<rparr>"

definition demo_options :: request_options where
  "demo_options = \<lparr>ro_response_format = None, ro_reasoning_effort = None, ro_stop = None\<rparr>"

definition demo_answer :: ChatResponse where
  "demo_answer = ChatResponse_default\<lparr>rp_text := str ''ok''\<rparr>"

lemma demo_value: "json_at (JObject [(k, v)]) n = (if k = str n then v else JNull)" "json_at JNull n = JNull" "json_at (JString t) n = JNull"
  by (simp_all add: json_at_def obj_get_def)

lemma demo_body: "append_bounded [] (str ''body'') MAX_RESPONSE_BODY_BYTES = Inr (str ''body'')" "utf8_decode (str ''body'') = Some (str ''body'')"
  by (simp_all add: append_bounded_def MAX_RESPONSE_BODY_BYTES_def str_def utf8_decode.simps)

lemma demo_openai_chat:
  "openai_chat demo_lib d c OpenAiCompatible demo_caps demo_server False q demo_options = (Inr demo_answer, [TextDelta (str ''ok'')])"
  by (simp add: openai_chat_def require_capability_def demo_caps_def ensure_def openai_request_body_def deepseek_thinking_def
    deepseek_reasoning_effort_def demo_server_def openai_read_def is_success_def is_event_stream_def demo_body read_json_response_def demo_lib_def
    apply_openai_value_def demo_value json_nth_def openai_delta_def is_json_object_def apply_content_def apply_reasoning_def apply_tool_calls_def
    apply_finish_def apply_usage_def sse_start_def tell_def update_acc_def ChatAccumulator_default_def accumulator_response_def normalize_usage_def
    demo_answer_def ChatResponse_default_def Let_def)

theorem openai_chat_tells_witness:
  "rp_text demo_answer = text_of [TextDelta (str ''ok'')] \<and> rp_reasoning demo_answer = reasoning_of [TextDelta (str ''ok'')]
     \<and> rp_tool_calls demo_answer = map snd (calls_of [TextDelta (str ''ok'')])"
  by (rule openai_chat_tells [OF demo_openai_chat [of "\<lambda>_. None" "\<lambda>_. None" demo_question]])

text \<open>C30. The same for the Anthropic client, which never reports reasoning: its text is the deltas told, its token count the last one told,
  and it returns tool calls exactly if it has told some.\<close>

theorem anthropic_chat_tells:
  assumes "anthropic_chat L rfc2822 canonical_reason caps server cancelled q options = (Inr p, evs)"
  shows "rp_text p = text_of evs \<and> rp_reasoning p = reasoning_of evs \<and> rp_usage p = usage_of evs \<and> (rp_tool_calls p = [] \<longleftrightarrow> told_indices evs = {})"
  using anthropic_chat_told [OF assms] by (simp add: told_anthropic_def)

definition claude_lib :: provider_lib where
  "claude_lib = demo_lib\<lparr>pl_from_str := (\<lambda>_. Inr (JObject [(str ''content'', JArray [JObject [(str ''type'', JString (str ''text'')), (str ''text'', JString (str ''ok''))]])]))\<rparr>"

lemma demo_anthropic_chat:
  "anthropic_chat claude_lib d c demo_caps demo_server False demo_question demo_options = (Inr demo_answer, [TextDelta (str ''ok'')])"
  by (simp add: anthropic_chat_def require_capability_def demo_caps_def ensure_def demo_options_def anthropic_request_body_def anthropic_messages_def
    demo_question_def anthropic_message_def ChatMessage_new_def anthropic_read_def demo_server_def is_success_def is_event_stream_def demo_body
    an_read_json_response_def claude_lib_def demo_lib_def json_at_def obj_get_def json_is_def usage_from_def an_update_def an_tell_def anthropic_start_def
    anthropic_response_def json_block_def an_text_def demo_answer_def ChatResponse_default_def Let_def)

theorem anthropic_chat_tells_witness:
  "rp_text demo_answer = text_of [TextDelta (str ''ok'')] \<and> rp_reasoning demo_answer = reasoning_of [TextDelta (str ''ok'')]
     \<and> rp_usage demo_answer = usage_of [TextDelta (str ''ok'')] \<and> (rp_tool_calls demo_answer = [] \<longleftrightarrow> told_indices [TextDelta (str ''ok'')] = {})"
  by (rule anthropic_chat_tells [OF demo_anthropic_chat [of "\<lambda>_. None" "\<lambda>_. None"]])

text \<open>C32. Every registered tool of the loop is offered to an Anthropic model under its name, with its description and its schema.\<close>

theorem anthropic_offers_tools:
  assumes "\<forall>g \<in> set gs. trim (sp_name (lr_spec g)) \<noteq> [] \<and> is_json_object (sp_input_schema (lr_spec g))"
  shows "anthropic_tools (tool_definitions gs) =
    Inr (map (\<lambda>g. \<lparr>at_name = sp_name (lr_spec g), at_description = tool_description (sp_name (lr_spec g)), at_input_schema = sp_input_schema (lr_spec g)\<rparr>) gs)"
  by (rule anthropic_tools_definitions [OF assms])

theorem anthropic_offers_tools_witness:
  "anthropic_tools (tool_definitions [lookup_tool]) =
    Inr (map (\<lambda>g. \<lparr>at_name = sp_name (lr_spec g), at_description = tool_description (sp_name (lr_spec g)), at_input_schema = sp_input_schema (lr_spec g)\<rparr>) [lookup_tool])"
  by (rule anthropic_offers_tools) (simp add: lookup_tool_def is_json_object_def str_def trim_def trim_start_def trim_end_def is_whitespace_def)

text \<open>C3. When the agent loop runs on the OpenAI client - each request ends with what the client returned, with a timeout or with a
  cancellation - and a request returns a response, then the deltas of the answer's message recorded while the request was under way are,
  put together, exactly the text of the response if the run streams its output, and none otherwise; absorbing the response afterwards
  records no further delta and only extends the answer. So a streamed answer is recorded completely and once.\<close>

theorem streamed_answer_recorded_once:
  assumes client: "\<forall>q w evs r. fst (le_generate env q w) = (evs, GenReturned r) \<longrightarrow>
      (\<exists>server cancelled options. openai_chat L rfc2822 canonical_reason kind caps server cancelled q options = (r, evs))"
    and run: "generate env q i stream s = (Done (emitted, Inr (p, streamed, ms)), s')"
  shows "recorded_text i (ls_trace s') = recorded_text i (ls_trace s) @ (if stream then rp_text p else [])
    \<and> append_response_text env answer p streamed i s' = (Done (answer @ rp_text p), s')"
proof -
  from generate_result [OF run] obtain evs w where g: "fst (le_generate env q w) = (evs, GenReturned (Inr p))" "streamed = text_of evs"
    and r: "recorded_text i (ls_trace s') = recorded_text i (ls_trace s) @ (if stream then text_of evs else [])" by blast
  from client g(1) have "told_response p evs" by (blast dest: openai_chat_told)
  then have "rp_text p = text_of evs" by (simp add: told_response_def)
  then show ?thesis using g(2) r append_streamed [of env answer p i s'] by simp
qed

text \<open>A client whose requests time out as soon as the world has something left.\<close>

definition client_env :: "(ChatEvent list \<times> generation_end) list loop_env" where
  "client_env = demo_env\<lparr>le_generate := \<lambda>q w.
     (if w = [] then case openai_chat demo_lib (\<lambda>_. None) (\<lambda>_. None) OpenAiCompatible demo_caps demo_server False q demo_options of (r, evs) \<Rightarrow> (evs, GenReturned r)
      else ([], GenTimedOut), w)\<rparr>"

definition client_run :: "bool \<Rightarrow> (ChatEvent list \<times> generation_end) list loop_state" where
  "client_run stream = (initial_loop_state [])\<lparr>ls_trace := AtGenerate demo_question # (if stream then [AtRecord (MessageDelta (str ''a'') Assistant (str ''ok''))] else []),
     ls_partial := demo_answer\<rparr>"

lemma client_generation: "generate client_env demo_question (str ''a'') stream (initial_loop_state []) = (Done (True, Inr (demo_answer, str ''ok'', 0)), client_run stream)"
  by (simp add: generate_def client_env_def demo_openai_chat set_partial_def stream_init_def stream_record_def sink_record_def complete_reasoning_def run_eval
    Let_def generation_result_def initial_loop_state_def demo_answer_def ChatResponse_default_def client_run_def)

theorem streamed_answer_recorded_once_witness:
  "recorded_text (str ''a'') (ls_trace (client_run True)) = str ''ok'' \<and> recorded_text (str ''a'') (ls_trace (client_run False)) = []
     \<and> append_response_text client_env [] demo_answer (str ''ok'') (str ''a'') (client_run True) = (Done (str ''ok''), client_run True)"
proof -
  have client: "\<forall>q w evs r. fst (le_generate client_env q w) = (evs, GenReturned r) \<longrightarrow>
      (\<exists>server cancelled options. openai_chat demo_lib (\<lambda>_. None) (\<lambda>_. None) OpenAiCompatible demo_caps server cancelled q options = (r, evs))"
  proof (intro allI impI)
    fix q w evs r assume "fst (le_generate client_env q w) = (evs, GenReturned r)"
    then have "openai_chat demo_lib (\<lambda>_. None) (\<lambda>_. None) OpenAiCompatible demo_caps demo_server False q demo_options = (r, evs)"
      by (auto simp: client_env_def split: if_splits prod.splits)
    then show "\<exists>server cancelled options. openai_chat demo_lib (\<lambda>_. None) (\<lambda>_. None) OpenAiCompatible demo_caps server cancelled q options = (r, evs)" by blast
  qed
  have "recorded_text (str ''a'') (ls_trace (initial_loop_state [] :: (ChatEvent list \<times> generation_end) list loop_state)) = []"
    by (simp add: initial_loop_state_def recorded_text_def)
  then show ?thesis using streamed_answer_recorded_once [OF client client_generation [of True], of "[]"]
      streamed_answer_recorded_once [OF client client_generation [of False]] by (simp add: demo_answer_def)
qed

section \<open>The Model Context Protocol\<close>

text \<open>C34. The event parser of the transport does not see how the bytes of a stream are cut into chunks: it completes the same events or
  stops with the same error, oversized lines and invalid UTF-8 included, whatever the limit a valid configuration sets.\<close>

theorem mcp_parser_chunking:
  assumes "limit \<le> MAX_EVENT_BYTES" "concat (c # cs) = concat (d # ds)"
  shows "feed (mcp_collect limit) goes_on_mcp st r (c # cs) = feed (mcp_collect limit) goes_on_mcp st r' (d # ds)"
  using mcp.same_bytes_same_result [OF assms(2), of limit st r r'] assms(1) by (simp add: limit_ok_def)

theorem mcp_parser_chunking_witness:
  "feed (mcp_collect 64) goes_on_mcp (([], SseParser_default), []) (Inl []) [str ''data: 1'', [10], [10]]
     = feed (mcp_collect 64) goes_on_mcp (([], SseParser_default), []) (Inl []) [str ''data: 1'' @ [10, 10]]"
  by (rule mcp_parser_chunking) (simp_all add: MAX_EVENT_BYTES_def)

text \<open>C33. The task that reads the stream stops: with at most \<open>m\<close> retries configured it opens at most \<open>m + 1\<close> connections, and never more than 33,
  and the endpoint it hands out is always of the origin it was configured with and carries no credentials.\<close>

theorem mcp_stream_bounded:
  assumes "rt_attempt r = 0" "mr_max_retries (me_config env) = Some m"
  shows "fst (run_stream env cs 0 (r, LegacySseState_init)) \<le> min m 32 + 1
    \<and> endpoint_safe env (snd (snd (run_stream env cs 0 (r, LegacySseState_init))))"
proof
  have "\<forall>k d. delay_for_attempt (me_config env) k = Some d \<longrightarrow> k < min m 32" using delay_attempt_bound assms(2) by fastforce
  from run_stream_connections [OF this, of cs 0 r LegacySseState_init] show "fst (run_stream env cs 0 (r, LegacySseState_init)) \<le> min m 32 + 1"
    using assms(1) by simp
  show "endpoint_safe env (snd (snd (run_stream env cs 0 (r, LegacySseState_init))))"
    by (rule run_stream_safe) (simp add: endpoint_safe_def LegacySseState_init_def)
qed

definition demo_urls :: "rstr url_lib" where
  "demo_urls = \<lparr>ul_join = (\<lambda>b v. Some (b @ v)), ul_scheme = (\<lambda>_. str ''https''), ul_host = (\<lambda>_. Some (str ''h'')), ul_port = (\<lambda>_. Some 443),
     ul_username = (\<lambda>_. []), ul_password = (\<lambda>_. None)\<rparr>"

definition demo_mcp :: "(rstr, rstr) mcp_env" where
  "demo_mcp = \<lparr>me_config = McpSseConfig_default, me_max_event_bytes = 1024, me_urls = demo_urls, me_base_url = str ''https://h/'',
     me_parse = Some, me_receives = (\<lambda>_. True)\<rparr>"

definition fresh_retries :: retry_state where
  "fresh_retries = \<lparr>rt_attempt = 0, rt_last_event_id = None, rt_server_retry = None\<rparr>"

theorem mcp_stream_bounded_witness:
  "fst (run_stream demo_mcp [Connected [] True, Unreachable True] 0 (fresh_retries, LegacySseState_init)) \<le> min 3 32 + 1
    \<and> endpoint_safe demo_mcp (snd (snd (run_stream demo_mcp [Connected [] True, Unreachable True] 0 (fresh_retries, LegacySseState_init))))"
  by (rule mcp_stream_bounded) (simp_all add: demo_mcp_def McpSseConfig_default_def fresh_retries_def)

lemma default_delays: "delay_for_attempt McpSseConfig_default k = (if k < 3 then Some (250000000 * 2 ^ k) else None)"
proof -
  have "k < 3 \<Longrightarrow> k = 0 \<or> k = 1 \<or> k = 2" by linarith
  then show ?thesis
    by (auto simp: delay_for_attempt_def McpSseConfig_default_def DURATION_MAX_def MAX_RETRY_DELAY_def NANOS_PER_SEC_def u64_max_def Let_def)
qed

lemma clean_turn: "stream_turn demo_mcp (Connected [] True) (r, s) =
    (if rt_attempt r < 3 then (True, r\<lparr>rt_attempt := rt_attempt r + 1, rt_server_retry := None\<rparr>, s)
     else (False, r, set_stream_error (str ''MCP SSE stream retries exhausted'') s))"
  using small_sat_add [of "rt_attempt r"] by (simp add: stream_turn_def mcp_finish_def demo_mcp_def default_delays)

text \<open>The attempts are counted over the life of the task: under the default policy a server that
  closes its stream four times is given up, although every connection succeeded.\<close>

theorem mcp_healthy_streams_exhaust_retries:
  "lg_error (snd (snd (run_stream demo_mcp (replicate 4 (Connected [] True)) 0 (fresh_retries, LegacySseState_init))))
     = Some (str ''MCP SSE stream retries exhausted'')"
proof -
  have four: "replicate 4 c = [c, c, c, c]" for c :: connection by (simp add: eval_nat_numeral)
  show ?thesis unfolding four by (simp add: clean_turn fresh_retries_def LegacySseState_init_def set_stream_error_def)
qed

end
