(* ===== verification/Rag_Chunk.thy ===== *)
theory Rag_Chunk
  imports Utf8
begin

text \<open>
  Chunking of parsed documents for the retrieval index (\<open>rag/chunk/mod.rs\<close>, \<open>policy.rs\<close>, \<open>table.rs\<close>).  A position in a text
  is the number of characters before it; the source's byte offsets are all at character boundaries.  Rust's
  \<open>char::is_alphanumeric\<close>, the SHA-256 digest in hexadecimal and the JSON encoding of a source location are the parameter
  \<open>chunk_lib\<close>.  The loop of \<open>split_text\<close> does not end when its limit is 0: it is a partial function, \<open>None\<close> for not ending.
\<close>

section \<open>Data\<close>

text \<open>Coordinates are the bits of an \<open>f64\<close>.\<close>

datatype Rect = Rect "64 word" "64 word" "64 word" "64 word"

datatype SourceLocation =
    PdfPage nat "Rect option"
  | SheetRange rstr rstr
  | HeadingLocation "rstr list"
  | TextOffsets nat nat

datatype DocumentBlock =
    Heading nat rstr SourceLocation
  | Paragraph rstr SourceLocation
  | ListBlock bool "rstr list" SourceLocation
  | Table "rstr list list" SourceLocation
  | Formula rstr SourceLocation
  | Image rstr "nat option" SourceLocation

fun block_location :: "DocumentBlock \<Rightarrow> SourceLocation" where
  "block_location (Heading _ _ l) = l"
| "block_location (Paragraph _ l) = l"
| "block_location (ListBlock _ _ l) = l"
| "block_location (Table _ l) = l"
| "block_location (Formula _ l) = l"
| "block_location (Image _ _ l) = l"

record ChunkPolicy =
  cp_version :: rstr
  cp_target_tokens :: nat
  cp_max_tokens :: nat
  cp_overlap_tokens :: nat
  cp_table_header_rows :: nat

record DocumentChunk =
  dc_id :: rstr
  dc_ordinal :: nat
  dc_text :: rstr
  dc_source_location :: SourceLocation
  dc_content_sha256 :: rstr
  dc_token_count :: nat

record ChunkError =
  ch_code :: rstr
  ch_message :: rstr

record chunk_lib =
  cl_alphanumeric :: "nat \<Rightarrow> bool"
  cl_sha256 :: "bytes \<Rightarrow> rstr"
  cl_location :: "SourceLocation \<Rightarrow> bytes option"

definition ChunkPolicy_default :: ChunkPolicy where
  "ChunkPolicy_default = \<lparr>cp_version = str ''steel-v1'', cp_target_tokens = 384, cp_max_tokens = 512, cp_overlap_tokens = 64, cp_table_header_rows = 1\<rparr>"

text \<open>Characters of a policy version or a chunk ID.\<close>

definition id_byte :: "nat \<Rightarrow> bool" where
  "id_byte b \<longleftrightarrow> is_ascii_alphanumeric b \<or> b = 45 \<or> b = 95 \<or> b = 46"

definition ChunkPolicy_validate :: "ChunkPolicy \<Rightarrow> (ChunkError, unit) result" where
  "ChunkPolicy_validate p =
     (if trim (cp_version p) \<noteq> cp_version p \<or> cp_version p = [] \<or> 64 < str_len (cp_version p) \<or> \<not> bytes_all id_byte (cp_version p)
         \<or> cp_target_tokens p = 0 \<or> cp_max_tokens p < cp_target_tokens p \<or> cp_target_tokens p \<le> cp_overlap_tokens p \<or> cp_table_header_rows p = 0
      then Inl \<lparr>ch_code = str ''invalid_chunk_policy'', ch_message = str ''chunk policy is invalid or cannot make forward progress''\<rparr>
      else Inr ())"

definition ChunkId_new :: "rstr \<Rightarrow> (rstr, rstr) result" where
  "ChunkId_new v = (if trim v \<noteq> v \<or> v = [] \<or> 128 < str_len v \<or> \<not> bytes_all id_byte v then Inl (str ''invalid chunk ID'') else Inr v)"

section \<open>Tokens\<close>

definition is_cjk :: "nat \<Rightarrow> bool" where
  "is_cjk c \<longleftrightarrow> (13312 \<le> c \<and> c \<le> 19903) \<or> (19968 \<le> c \<and> c \<le> 40959) \<or> (12352 \<le> c \<and> c \<le> 12543) \<or> (44032 \<le> c \<and> c \<le> 55215) \<or> (63744 \<le> c \<and> c \<le> 64255)"

definition word_char :: "(nat \<Rightarrow> bool) \<Rightarrow> nat \<Rightarrow> bool" where
  "word_char alnum c \<longleftrightarrow> alnum c \<or> c = 95"

fun token_starts_from :: "(nat \<Rightarrow> bool) \<Rightarrow> nat \<Rightarrow> bool \<Rightarrow> rstr \<Rightarrow> nat list" where
  "token_starts_from alnum offset in_word [] = []"
| "token_starts_from alnum offset in_word (c # cs) =
     (if is_cjk c then offset # token_starts_from alnum (offset + 1) False cs
      else if word_char alnum c then
        (if in_word then token_starts_from alnum (offset + 1) True cs else offset # token_starts_from alnum (offset + 1) True cs)
      else token_starts_from alnum (offset + 1) False cs)"

definition token_starts :: "(nat \<Rightarrow> bool) \<Rightarrow> rstr \<Rightarrow> nat list" where
  "token_starts alnum t = token_starts_from alnum 0 False t"

definition count_tokens :: "(nat \<Rightarrow> bool) \<Rightarrow> rstr \<Rightarrow> nat" where
  "count_tokens alnum t = length (token_starts alnum t)"

text \<open>The slice of a text between two positions.\<close>

definition text_slice :: "rstr \<Rightarrow> nat \<Rightarrow> nat \<Rightarrow> rstr" where
  "text_slice t from to = take (to - from) (drop from t)"

partial_function (option) split_loop :: "rstr \<Rightarrow> nat list \<Rightarrow> nat \<Rightarrow> nat \<Rightarrow> nat \<Rightarrow> rstr list option" where
  "split_loop t starts limit overlap start_token =
     (if start_token < length starts then
        (let end_token = min (start_token + limit) (length starts);
             start_byte = (if start_token = 0 then 0 else starts ! start_token);
             end_byte = (if end_token < length starts then starts ! end_token else length t);
             part = text_slice t start_byte end_byte in
         if end_token = length starts then Some [part]
         else Option.bind (split_loop t starts limit overlap (end_token - min overlap (limit - 1))) (\<lambda>parts. Some (part # parts)))
      else Some [])"

definition split_text :: "(nat \<Rightarrow> bool) \<Rightarrow> rstr \<Rightarrow> nat \<Rightarrow> nat \<Rightarrow> rstr list option" where
  "split_text alnum t limit overlap =
     (let starts = token_starts alnum t in
      if length starts \<le> limit \<or> starts = [] then Some [t] else split_loop t starts limit overlap 0)"

definition split_block :: "(nat \<Rightarrow> bool) \<Rightarrow> rstr \<Rightarrow> nat \<Rightarrow> nat \<Rightarrow> ChunkPolicy \<Rightarrow> rstr list option" where
  "split_block alnum t target_tokens max_tokens policy =
     (let limit = max (min target_tokens max_tokens) 1; overlap = min (cp_overlap_tokens policy) (limit - 1) in
      map_option (\<lambda>parts. filter (\<lambda>v. v \<noteq> []) (map trim parts)) (split_text alnum t limit overlap))"

section \<open>Headings\<close>

definition render_context :: "(nat \<times> rstr) list \<Rightarrow> rstr" where
  "render_context path = join [10] (map (\<lambda>(level, t). replicate level 35 @ [32] @ t) path)"

text \<open>The longest suffix of the heading path that leaves room for a token.\<close>

fun bounded_context :: "(nat \<Rightarrow> bool) \<Rightarrow> (nat \<times> rstr) list \<Rightarrow> nat \<Rightarrow> rstr" where
  "bounded_context alnum [] max_tokens = []"
| "bounded_context alnum (h # path) max_tokens =
     (if count_tokens alnum (render_context (h # path)) < max_tokens then render_context (h # path) else bounded_context alnum path max_tokens)"

definition update_heading_path :: "(nat \<times> rstr) list \<Rightarrow> nat \<Rightarrow> rstr \<Rightarrow> (nat \<times> rstr) list" where
  "update_heading_path path level t =
     (let path = rev (dropWhile (\<lambda>(existing, _). level \<le> existing) (rev path)) in
      if trim t = [] then path else path @ [(level, trim t)])"

section \<open>Tables\<close>

text \<open>\<open>cell.replace('|', "\\|")\<close>\<close>

definition escape_pipes :: "rstr \<Rightarrow> rstr" where
  "escape_pipes cell = concat (map (\<lambda>c. if c = 124 then [92, 124] else [c]) cell)"

definition render_row :: "rstr list \<Rightarrow> rstr" where
  "render_row row = str ''| '' @ join (str '' | '') (map escape_pipes row) @ str '' |''"

definition render_rows :: "rstr list list \<Rightarrow> rstr" where
  "render_rows rows = join [10] (map render_row rows)"

text \<open>The loop over the data rows: the output, the window under way, and whether it has a data row.\<close>

fun table_loop :: "(nat \<Rightarrow> bool) \<Rightarrow> rstr \<Rightarrow> nat \<Rightarrow> nat \<Rightarrow> rstr list list \<Rightarrow> rstr list \<Rightarrow> rstr \<Rightarrow> bool \<Rightarrow> rstr list option" where
  "table_loop alnum header target_tokens max_tokens [] output window has_data =
     Some (if has_data \<or> output = [] then output @ [window] else output)"
| "table_loop alnum header target_tokens max_tokens (r # rows) output window has_data =
     (let row = render_row r;
          full = has_data \<and> target_tokens < count_tokens alnum (window @ [10] @ row);
          output = (if full then output @ [window] else output);
          window = (if full then header else window);
          has_data = (if full then False else has_data);
          candidate = window @ [10] @ row in
      if count_tokens alnum candidate \<le> max_tokens then table_loop alnum header target_tokens max_tokens rows output candidate True
      else
        (let output = (if has_data then output @ [window] else output);
             row_budget = max (max_tokens - count_tokens alnum header) 1 in
         Option.bind (split_text alnum row row_budget 0) (\<lambda>parts.
           table_loop alnum header target_tokens max_tokens rows (output @ map (\<lambda>part. header @ [10] @ part) parts) header False)))"

definition table_windows :: "(nat \<Rightarrow> bool) \<Rightarrow> rstr list list \<Rightarrow> nat \<Rightarrow> nat \<Rightarrow> nat \<Rightarrow> rstr list option" where
  "table_windows alnum rows header_rows target_tokens max_tokens =
     (if rows = [] then Some []
      else
        (let header_count = min header_rows (length rows); header = render_rows (take header_count rows) in
         if header_count = length rows then split_text alnum header (max max_tokens 1) 0
         else if max_tokens \<le> count_tokens alnum header then split_text alnum (render_rows rows) max_tokens 0
         else table_loop alnum header target_tokens max_tokens (drop header_count rows) [] header False))"

section \<open>Documents\<close>

definition list_text :: "bool \<Rightarrow> rstr list \<Rightarrow> rstr" where
  "list_text ordered items =
     join [10] (map (\<lambda>(index, item). if ordered then show_nat (index + 1) @ str ''. '' @ item else str ''- '' @ item) (enumerate 0 items))"

definition image_text :: "rstr \<Rightarrow> rstr" where
  "image_text alt = (if trim alt = [] then str ''[Image]'' else str ''[Image: '' @ trim alt @ str '']'')"

fun block_texts :: "(nat \<Rightarrow> bool) \<Rightarrow> ChunkPolicy \<Rightarrow> nat \<Rightarrow> nat \<Rightarrow> DocumentBlock \<Rightarrow> rstr list option" where
  "block_texts alnum policy body_target body_max (Paragraph t _) = split_block alnum t body_target body_max policy"
| "block_texts alnum policy body_target body_max (ListBlock ordered items _) = split_block alnum (list_text ordered items) body_target body_max policy"
| "block_texts alnum policy body_target body_max (Table rows _) = table_windows alnum rows (cp_table_header_rows policy) body_target body_max"
| "block_texts alnum policy body_target body_max (Formula t _) =
     map_option (map (\<lambda>part. str ''$$'' @ part @ str ''$$'')) (split_block alnum t body_target body_max policy)"
| "block_texts alnum policy body_target body_max (Image alt _ _) = split_block alnum (image_text alt) body_target body_max policy"
| "block_texts alnum policy body_target body_max (Heading _ _ _) = Some []"

type_synonym pending_chunk = "nat \<times> nat \<times> rstr \<times> SourceLocation"

definition with_context :: "rstr \<Rightarrow> rstr \<Rightarrow> rstr" where
  "with_context heading body = (if heading = [] then body else heading @ [10, 10] @ body)"

definition pend_block :: "(nat \<Rightarrow> bool) \<Rightarrow> ChunkPolicy \<Rightarrow> (nat \<times> rstr) list \<Rightarrow> nat \<Rightarrow> DocumentBlock \<Rightarrow> pending_chunk list option" where
  "pend_block alnum policy path block_index block =
     (let heading = bounded_context alnum path (cp_max_tokens policy);
          context_tokens = count_tokens alnum heading;
          body_target = max (cp_target_tokens policy - context_tokens) 1;
          body_max = max (cp_max_tokens policy - context_tokens) 1 in
      map_option (\<lambda>texts.
          map (\<lambda>(slice_index, body). (block_index, slice_index, with_context heading body, block_location block))
            (filter (\<lambda>(_, body). trim body \<noteq> []) (enumerate 0 texts)))
        (block_texts alnum policy body_target body_max block))"

fun pend_blocks :: "(nat \<Rightarrow> bool) \<Rightarrow> ChunkPolicy \<Rightarrow> (nat \<times> rstr) list \<Rightarrow> nat \<Rightarrow> DocumentBlock list \<Rightarrow> pending_chunk list option" where
  "pend_blocks alnum policy path block_index [] = Some []"
| "pend_blocks alnum policy path block_index (block # blocks) =
     (case block of
        Heading level t _ \<Rightarrow> pend_blocks alnum policy (update_heading_path path level t) (block_index + 1) blocks
      | _ \<Rightarrow>
          Option.bind (pend_block alnum policy path block_index block) (\<lambda>chunks.
          Option.bind (pend_blocks alnum policy path (block_index + 1) blocks) (\<lambda>more_chunks. Some (chunks @ more_chunks))))"

definition le_bytes :: "nat \<Rightarrow> bytes" where
  "le_bytes n = map (\<lambda>i. n div 256 ^ i mod 256) [0..<8]"

definition build_chunk :: "chunk_lib \<Rightarrow> ChunkPolicy \<Rightarrow> nat \<times> pending_chunk \<Rightarrow> (ChunkError, DocumentChunk) result" where
  "build_chunk L policy p =
     (case p of (ordinal, block_index, slice_index, t, location) \<Rightarrow>
        rbind (ok_or \<lparr>ch_code = str ''chunk_encode_failed'', ch_message = str ''source location is not serializable''\<rparr> (cl_location L location)) (\<lambda>place.
        rbind (map_err (\<lambda>error. \<lparr>ch_code = str ''chunk_id_invalid'', ch_message = error\<rparr>)
            (ChunkId_new (str ''chunk-'' @ cl_sha256 L (utf8_encode (cp_version policy) @ [0] @ le_bytes block_index @ le_bytes slice_index @ place @ utf8_encode t)))) (\<lambda>cid.
        rbind (ensure (ordinal \<le> u32_max) \<lparr>ch_code = str ''too_many_chunks'', ch_message = str ''document has too many chunks''\<rparr>) (\<lambda>_.
        Inr \<lparr>dc_id = cid, dc_ordinal = ordinal, dc_text = t, dc_source_location = location, dc_content_sha256 = cl_sha256 L (utf8_encode t),
             dc_token_count = count_tokens (cl_alphanumeric L) t\<rparr>))))"

definition chunk_document :: "chunk_lib \<Rightarrow> DocumentBlock list \<Rightarrow> ChunkPolicy \<Rightarrow> (ChunkError, DocumentChunk list) result option" where
  "chunk_document L blocks policy =
     (case ChunkPolicy_validate policy of
        Inl e \<Rightarrow> Some (Inl e)
      | Inr _ \<Rightarrow>
          map_option (\<lambda>chunks. try_map (build_chunk L policy) (enumerate 0 chunks)) (pend_blocks (cl_alphanumeric L) policy [] 0 blocks))"

end
