(* ===== verification/Rag_Tokens.thy ===== *)
theory Rag_Tokens
  imports Rag_Chunk
begin

text \<open>
  What the chunker does with tokens: a slice between two token starts has exactly the tokens between them, splitting ends, keeps
  every slice within its limit and loses no character, and no chunk exceeds the policy's maximum.
\<close>

section \<open>Token starts\<close>

text \<open>The state of the scanner after a text.\<close>

fun scan_state :: "(nat \<Rightarrow> bool) \<Rightarrow> bool \<Rightarrow> rstr \<Rightarrow> bool" where
  "scan_state alnum w [] = w"
| "scan_state alnum w (c # cs) = scan_state alnum (\<not> is_cjk c \<and> word_char alnum c) cs"

lemma starts_append: "token_starts_from alnum k w (xs @ ys) = token_starts_from alnum k w xs @ token_starts_from alnum (k + length xs) (scan_state alnum w xs) ys"
  by (induction alnum k w xs rule: token_starts_from.induct) auto

lemma starts_shift: "token_starts_from alnum (k + n) w xs = map ((+) n) (token_starts_from alnum k w xs)"
  by (induction alnum k w xs rule: token_starts_from.induct) (auto simp: ac_simps)

lemma starts_length_shift: "length (token_starts_from alnum k w xs) = length (token_starts_from alnum 0 w xs)"
  using starts_shift [of alnum 0 k w xs] by simp

lemma starts_range: "p \<in> set (token_starts_from alnum k w xs) \<Longrightarrow> k \<le> p \<and> p < k + length xs"
  by (induction alnum k w xs rule: token_starts_from.induct) (force split: if_splits)+

lemma starts_sorted: "sorted_wrt (<) (token_starts_from alnum k w xs)"
proof (induction alnum k w xs rule: token_starts_from.induct)
  case (2 alnum k w c cs)
  have "\<forall>p \<in> set (token_starts_from alnum (k + 1) v cs). k < p" for v using starts_range by fastforce
  then show ?case using 2 by auto
qed simp

text \<open>A token that starts somewhere starts there whatever the state of the scanner is.\<close>

lemma starts_at: "p \<in> set (token_starts_from alnum k w (xs @ ys)) \<Longrightarrow> p = k + length xs \<Longrightarrow>
    token_starts_from alnum j (scan_state alnum w xs) ys = token_starts_from alnum j False ys"
proof -
  assume p: "p \<in> set (token_starts_from alnum k w (xs @ ys))" "p = k + length xs"
  have "p \<notin> set (token_starts_from alnum k w xs)" using p(2) starts_range by fastforce
  then have q: "p \<in> set (token_starts_from alnum p (scan_state alnum w xs) ys)" using p by (simp add: starts_append)
  then obtain c cs where "ys = c # cs" by (cases ys) auto
  moreover have "p \<notin> set (token_starts_from alnum (p + 1) v zs)" for v zs using starts_range by fastforce
  ultimately show ?thesis using q by (auto split: if_splits)
qed

lemma count_append: "count_tokens alnum (xs @ ys) = count_tokens alnum xs + length (token_starts_from alnum 0 (scan_state alnum False xs) ys)"
  using starts_length_shift [of alnum "length xs"] by (simp add: count_tokens_def token_starts_def starts_append)

text \<open>Sorted lists: the elements before and from an index.\<close>

lemma sorted_take: "sorted_wrt (<) xs \<Longrightarrow> b < length xs \<Longrightarrow> filter (\<lambda>q :: nat. q < xs ! b) xs = take b xs"
proof (induction xs arbitrary: b)
  case (Cons x xs)
  show ?case
  proof (cases b)
    case 0
    then have "filter (\<lambda>q. q < x) xs = []" using Cons.prems by (auto simp: filter_empty_conv dest: order.strict_trans)
    then show ?thesis using 0 by simp
  next
    case (Suc n)
    then have "x < xs ! n" using Cons.prems by auto
    then show ?thesis using Cons Suc by simp
  qed
qed simp

text \<open>The tokens before a position.\<close>

lemma starts_take: "token_starts_from alnum k w (take n xs) = filter (\<lambda>p. p < k + n) (token_starts_from alnum k w xs)"
proof -
  have "token_starts_from alnum k w xs = token_starts_from alnum k w (take n xs) @ token_starts_from alnum (k + length (take n xs)) (scan_state alnum w (take n xs)) (drop n xs)"
    using starts_append [of alnum k w "take n xs" "drop n xs"] by simp
  moreover have "filter (\<lambda>p. p < k + n) (token_starts_from alnum k w (take n xs)) = token_starts_from alnum k w (take n xs)"
    by (rule filter_True) (use starts_range in fastforce)
  moreover have "filter (\<lambda>p. p < k + n) (token_starts_from alnum (k + length (take n xs)) v (drop n xs)) = []" for v
  proof (cases "n \<le> length xs")
    case True
    then show ?thesis using starts_range [of _ alnum "k + n" v "drop n xs"] by (fastforce simp: filter_empty_conv min_def)
  qed simp
  ultimately show ?thesis by simp
qed

lemma count_take_start:
  assumes "b < length (token_starts alnum t)"
  shows "count_tokens alnum (take (token_starts alnum t ! b) t) = b"
  using sorted_take [of "token_starts alnum t" b] assms starts_sorted [of alnum 0 False t]
  by (simp add: count_tokens_def token_starts_def starts_take)

text \<open>The tokens of a slice that begins at a token start: those of the text before its end, less those before its beginning.\<close>

lemma count_slice_start:
  assumes a: "a < length (token_starts alnum t)" and e: "token_starts alnum t ! a \<le> e"
  shows "count_tokens alnum (text_slice t (token_starts alnum t ! a) e) = count_tokens alnum (take e t) - a"
proof -
  let ?p = "token_starts alnum t ! a"
  have in_set: "?p \<in> set (token_starts_from alnum 0 False t)" using a by (simp add: token_starts_def)
  then have len: "?p < length t" using starts_range by fastforce
  have split: "take e t = take ?p t @ text_slice t ?p e"
    using e take_add [of ?p "e - ?p" t] by (simp add: text_slice_def)
  have "token_starts_from alnum j (scan_state alnum False (take ?p t)) (drop ?p t) = token_starts_from alnum j False (drop ?p t)" for j
    by (rule starts_at [where k = 0 and p = ?p]) (use in_set len in simp_all)
  then have "token_starts_from alnum 0 (scan_state alnum False (take ?p t)) (text_slice t ?p e) = token_starts_from alnum 0 False (text_slice t ?p e)"
    by (simp add: text_slice_def starts_take)
  then have "count_tokens alnum (take e t) = a + count_tokens alnum (text_slice t ?p e)"
    using split count_append [of alnum "take ?p t" "text_slice t ?p e"] count_take_start [OF a] by (simp add: count_tokens_def token_starts_def)
  then show ?thesis by simp
qed

section \<open>Splitting\<close>

definition token_end :: "rstr \<Rightarrow> nat list \<Rightarrow> nat \<Rightarrow> nat" where
  "token_end t starts n = (if n < length starts then starts ! n else length t)"

definition token_begin :: "nat list \<Rightarrow> nat \<Rightarrow> nat" where
  "token_begin starts n = (if n = 0 then 0 else starts ! n)"

lemma count_take_end: "n \<le> length (token_starts alnum t) \<Longrightarrow> count_tokens alnum (take (token_end t (token_starts alnum t) n) t) = n"
  using count_take_start [of n alnum t] by (auto simp: token_end_def count_tokens_def)

lemma begin_le_end: "a \<le> b \<Longrightarrow> a < length (token_starts alnum t) \<Longrightarrow> token_begin (token_starts alnum t) a \<le> token_end t (token_starts alnum t) b"
proof -
  assume ab: "a \<le> b" "a < length (token_starts alnum t)"
  have "token_starts alnum t ! a \<le> token_starts alnum t ! b" if "b < length (token_starts alnum t)"
    using starts_sorted [of alnum 0 False t] ab that by (cases "a = b") (auto simp: token_starts_def sorted_wrt_iff_nth_less less_imp_le)
  moreover have "token_starts alnum t ! a < length t" using ab starts_range [of _ alnum 0 False t] by (metis add_0 nth_mem token_starts_def)
  ultimately show ?thesis by (simp add: token_begin_def token_end_def)
qed

lemma end_mono: "a \<le> b \<Longrightarrow> token_end t (token_starts alnum t) a \<le> token_end t (token_starts alnum t) b"
proof (cases "a < length (token_starts alnum t)")
  case True
  assume "a \<le> b"
  then have "token_starts alnum t ! a \<le> token_end t (token_starts alnum t) b" if "a \<noteq> 0"
    using begin_le_end [of a b alnum t] True that by (simp add: token_begin_def)
  moreover have "token_starts alnum t ! 0 \<le> token_end t (token_starts alnum t) b"
  proof (cases "b < length (token_starts alnum t)")
    case True
    then show ?thesis using starts_sorted [of alnum 0 False t] by (cases "b = 0") (auto simp: token_end_def token_starts_def sorted_wrt_iff_nth_less less_imp_le)
  next
    case False
    have "token_starts alnum t ! 0 < length t" using True starts_range [of _ alnum 0 False t] by (metis add_0 nth_mem token_starts_def gr_zeroI not_less_zero)
    then show ?thesis using False by (simp add: token_end_def)
  qed
  ultimately show ?thesis using True by (cases "a = 0") (auto simp: token_end_def)
qed (simp add: token_end_def)

lemma count_part:
  assumes "a < length (token_starts alnum t)" "a \<le> b" "b \<le> length (token_starts alnum t)"
  shows "count_tokens alnum (text_slice t (token_begin (token_starts alnum t) a) (token_end t (token_starts alnum t) b)) = b - a"
proof (cases "a = 0")
  case True
  then show ?thesis using count_take_end [OF assms(3)] by (simp add: text_slice_def token_begin_def)
next
  case False
  then show ?thesis using count_slice_start [OF assms(1)] begin_le_end [OF assms(2,1)] count_take_end [OF assms(3)] by (simp add: token_begin_def)
qed

text \<open>
  The loop from a token on: it ends, every slice is within the limit, and dropping from each slice the characters it repeats
  leaves the rest of the text.
\<close>

definition rejoined :: "rstr list \<Rightarrow> rstr \<Rightarrow> bool" where
  "rejoined parts t \<longleftrightarrow> (\<exists>ds. length ds = length parts \<and> concat (map2 drop ds parts) = t)"

lemma rejoined_cons: "rejoined parts u \<Longrightarrow> drop d part @ u = t \<Longrightarrow> rejoined (part # parts) t"
proof -
  assume "rejoined parts u" and t: "drop d part @ u = t"
  then obtain ds where "length ds = length parts" "concat (map2 drop ds parts) = u" by (auto simp: rejoined_def)
  then show ?thesis unfolding rejoined_def using t by (intro exI [of _ "d # ds"]) simp
qed

lemma rejoined_nil: "rejoined [] []"
  by (simp add: rejoined_def)

lemma slice_drop: "a \<le> p \<Longrightarrow> drop (p - a) (text_slice t a e) = text_slice t p e"
  by (simp add: text_slice_def drop_take)

lemma slice_rest: "p \<le> e \<Longrightarrow> text_slice t p e @ drop e t = drop p t"
  by (metis append_take_drop_id drop_drop le_add_diff_inverse text_slice_def add.commute)

text \<open>The next slice begins before the last one ends, and goes further.\<close>

lemma split_loop_spec:
  fixes alnum t
  defines "starts \<equiv> token_starts alnum t"
  assumes "0 < limit" "a < length starts"
  shows "\<exists>parts. split_loop t starts limit overlap a = Some parts \<and> (\<forall>x \<in> set parts. count_tokens alnum x \<le> limit)
    \<and> (\<forall>p. token_begin starts a \<le> p \<and> p \<le> token_end t starts (min (a + limit) (length starts)) \<longrightarrow> rejoined parts (drop p t))"
  using assms(3)
proof (induction "length starts - a" arbitrary: a rule: less_induct)
  case less
  let ?b = "min (a + limit) (length starts)"
  let ?part = "text_slice t (token_begin starts a) (token_end t starts ?b)"
  have part: "count_tokens alnum ?part \<le> limit"
    using count_part [of a alnum t ?b] less.prems by (simp add: starts_def)
  have cut: "drop (p - token_begin starts a) ?part @ drop (token_end t starts ?b) t = drop p t"
    if "token_begin starts a \<le> p" "p \<le> token_end t starts ?b" for p
    using that by (simp add: slice_drop slice_rest)
  show ?case
  proof (cases "?b = length starts")
    case True
    have "split_loop t starts limit overlap a = Some [?part]"
      using less.prems True by (subst split_loop.simps) (simp add: Let_def token_begin_def token_end_def)
    moreover have "rejoined [?part] (drop p t)" if "token_begin starts a \<le> p" "p \<le> token_end t starts ?b" for p
      using rejoined_cons [OF rejoined_nil, of "p - token_begin starts a" ?part "drop p t"] cut [OF that] True by (simp add: token_end_def)
    ultimately show ?thesis using part by auto
  next
    case False
    let ?n = "?b - min overlap (limit - 1)"
    have lt: "a + limit < length starts" using False by linarith
    have n: "a < ?n" "?n < length starts" "?n \<le> ?b" "?b \<le> min (?n + limit) (length starts)" using False less.prems assms(2) by auto
    have "length starts - ?n < length starts - a" using n(1) less.prems by linarith
    from less.hyps [OF this n(2)] obtain parts where
      loop: "split_loop t starts limit overlap ?n = Some parts" and small: "\<forall>x \<in> set parts. count_tokens alnum x \<le> limit"
      and all: "\<forall>p. token_begin starts ?n \<le> p \<and> p \<le> token_end t starts (min (?n + limit) (length starts)) \<longrightarrow> rejoined parts (drop p t)"
      by blast
    have "rejoined parts (drop (token_end t starts ?b) t)"
    proof -
      have "token_begin starts ?n \<le> token_end t starts ?b" using begin_le_end [of ?n ?b alnum t] n by (simp add: starts_def)
      moreover have "token_end t starts ?b \<le> token_end t starts (min (?n + limit) (length starts))"
        using end_mono [OF n(4), of t alnum] by (simp add: starts_def)
      ultimately show ?thesis using all by blast
    qed
    then have "rejoined (?part # parts) (drop p t)" if "token_begin starts a \<le> p" "p \<le> token_end t starts ?b" for p
      using rejoined_cons cut [OF that] by blast
    moreover have "split_loop t starts limit overlap a = Some (?part # parts)"
      using less.prems lt loop by (subst split_loop.simps) (simp add: Let_def token_begin_def token_end_def)
    ultimately show ?thesis using part small by auto
  qed
qed

lemma split_text_spec:
  assumes "0 < limit"
  shows "\<exists>parts. split_text alnum t limit overlap = Some parts \<and> (\<forall>x \<in> set parts. count_tokens alnum x \<le> limit) \<and> rejoined parts t"
proof (cases "length (token_starts alnum t) \<le> limit \<or> token_starts alnum t = []")
  case True
  then have "count_tokens alnum t \<le> limit" by (auto simp: count_tokens_def)
  moreover have "rejoined [t] t" using rejoined_cons [OF rejoined_nil, of 0 t t] by simp
  ultimately show ?thesis using True by (auto simp: split_text_def)
next
  case False
  then have "0 < length (token_starts alnum t)" by auto
  from split_loop_spec [OF assms this, of overlap] show ?thesis using False by (auto simp: split_text_def token_begin_def)
qed

end
