(* ===== verification/Rag_Bounds.thy ===== *)
theory Rag_Bounds
  imports Rag_Tokens
begin

text \<open>Chunking ends and no chunk exceeds the policy's maximum.\<close>

section \<open>Characters between tokens\<close>

text \<open>What is used of \<open>char::is_alphanumeric\<close>: on ASCII it is \<open>is_ascii_alphanumeric\<close>, and no white space is alphanumeric.\<close>

definition unicode_words :: "(nat \<Rightarrow> bool) \<Rightarrow> bool" where
  "unicode_words alnum \<longleftrightarrow> (\<forall>c < 128. alnum c = is_ascii_alphanumeric c) \<and> (\<forall>c. is_whitespace c \<longrightarrow> \<not> alnum c)"

definition breaks :: "(nat \<Rightarrow> bool) \<Rightarrow> nat \<Rightarrow> bool" where
  "breaks alnum c \<longleftrightarrow> \<not> is_cjk c \<and> \<not> word_char alnum c"

lemma breaks_space: "unicode_words alnum \<Longrightarrow> is_whitespace c \<Longrightarrow> breaks alnum c"
proof -
  assume u: "unicode_words alnum" and c: "is_whitespace c"
  have "\<not> is_cjk c" "c \<noteq> 95" using c unfolding is_whitespace_def is_cjk_def by linarith+
  then show ?thesis using u c by (simp add: unicode_words_def breaks_def word_char_def)
qed

lemma breaks_ascii: "unicode_words alnum \<Longrightarrow> c < 128 \<Longrightarrow> \<not> is_ascii_alphanumeric c \<Longrightarrow> c \<noteq> 95 \<Longrightarrow> breaks alnum c"
  by (auto simp: unicode_words_def breaks_def word_char_def is_cjk_def)

lemma breaks_newline: "unicode_words alnum \<Longrightarrow> breaks alnum 10"
  by (rule breaks_space) (simp_all add: is_whitespace_def)

lemma breaks_dollar: "unicode_words alnum \<Longrightarrow> breaks alnum 36"
  by (rule breaks_ascii) (simp_all add: ascii_defs)

lemma starts_after_break: "breaks alnum c \<Longrightarrow> length (token_starts_from alnum k w (c # ys)) = count_tokens alnum ys"
  using starts_length_shift [of alnum "k + 1" False ys] by (simp add: breaks_def count_tokens_def token_starts_def)

lemma count_break: "breaks alnum c \<Longrightarrow> count_tokens alnum (xs @ c # ys) = count_tokens alnum xs + count_tokens alnum ys"
  using count_append [of alnum xs "c # ys"] starts_after_break by simp

lemma count_break_front: "breaks alnum c \<Longrightarrow> count_tokens alnum (c # ys) = count_tokens alnum ys"
  using count_break [of alnum c "[]" ys] by (simp add: count_tokens_def token_starts_def)

lemma count_break_back: "breaks alnum c \<Longrightarrow> count_tokens alnum (xs @ [c]) = count_tokens alnum xs"
  using count_break [of alnum c xs "[]"] by (simp add: count_tokens_def token_starts_def)

lemma count_dropWhile: "(\<And>c. P c \<Longrightarrow> breaks alnum c) \<Longrightarrow> count_tokens alnum (dropWhile P t) = count_tokens alnum t"
  by (induction t) (auto simp: count_break_front)

lemma count_dropWhile_end: "(\<And>c. P c \<Longrightarrow> breaks alnum c) \<Longrightarrow> count_tokens alnum (rev (dropWhile P (rev t))) = count_tokens alnum t"
  by (induction t rule: rev_induct) (auto simp: count_break_back)

lemma count_trim: "unicode_words alnum \<Longrightarrow> count_tokens alnum (trim t) = count_tokens alnum t"
  by (simp add: trim_def trim_end_def trim_start_def count_dropWhile count_dropWhile_end breaks_space)

lemma count_formula: "unicode_words alnum \<Longrightarrow> count_tokens alnum (str ''$$'' @ t @ str ''$$'') = count_tokens alnum t"
  using count_break_back [of alnum 36 "t @ [36]"] count_break_back [of alnum 36 t] breaks_dollar [of alnum]
  by (simp add: str_def count_break_front)

section \<open>Parts within the limit\<close>

definition within :: "(nat \<Rightarrow> bool) \<Rightarrow> nat \<Rightarrow> rstr list option \<Rightarrow> bool" where
  "within alnum limit out \<longleftrightarrow> (\<exists>parts. out = Some parts \<and> (\<forall>x \<in> set parts. count_tokens alnum x \<le> limit))"

lemma within_mono: "within alnum l out \<Longrightarrow> l \<le> m \<Longrightarrow> within alnum m out"
  by (force simp: within_def)

lemma within_split: "0 < limit \<Longrightarrow> within alnum limit (split_text alnum t limit overlap)"
  using split_text_spec [of limit alnum t overlap] by (auto simp: within_def)

lemma within_block:
  assumes "unicode_words alnum" "0 < m"
  shows "within alnum m (split_block alnum t target m policy)"
proof -
  let ?l = "max (min target m) 1"
  have pos: "0 < ?l" by simp
  obtain parts where p: "split_text alnum t ?l (min (cp_overlap_tokens policy) (?l - 1)) = Some parts" "\<forall>x \<in> set parts. count_tokens alnum x \<le> ?l"
    using split_text_spec [OF pos, of alnum t "min (cp_overlap_tokens policy) (?l - 1)"] by blast
  have "?l \<le> m" using assms(2) by auto
  then have "\<forall>x \<in> set parts. count_tokens alnum (trim x) \<le> m" using p(2) count_trim [OF assms(1)] by fastforce
  then show ?thesis using p(1) by (auto simp: within_def split_block_def Let_def)
qed

lemma within_table_loop:
  assumes u: "unicode_words alnum" and h: "count_tokens alnum header < m"
  shows "\<forall>x \<in> set out. count_tokens alnum x \<le> m \<Longrightarrow> count_tokens alnum win \<le> m \<Longrightarrow>
    within alnum m (table_loop alnum header target m rows out win dat)"
proof (induction rows arbitrary: out win dat)
  case (Cons r rows)
  define row full out' win' where "row = render_row r"
    and "full = (dat \<and> target < count_tokens alnum (win @ [10] @ row))"
    and "out' = (if full then out @ [win] else out)" and "win' = (if full then header else win)"
  have ok: "\<forall>x \<in> set out'. count_tokens alnum x \<le> m" "count_tokens alnum win' \<le> m"
    using Cons.prems h by (auto simp: out'_def win'_def)
  let ?budget = "max (m - count_tokens alnum header) 1"
  have pos: "0 < ?budget" by simp
  obtain parts where p: "split_text alnum row ?budget 0 = Some parts" "\<forall>x \<in> set parts. count_tokens alnum x \<le> ?budget"
    using split_text_spec [OF pos, of alnum row 0] by blast
  have "count_tokens alnum (header @ [10] @ x) \<le> m" if "x \<in> set parts" for x
    using p(2) that h count_break [OF breaks_newline [OF u], of header x] by fastforce
  then have big: "within alnum m (table_loop alnum header target m rows ((if b then out' @ [win'] else out') @ map (\<lambda>part. header @ [10] @ part) parts) header False)" for b
    using ok h by (intro Cons.IH) auto
  have "within alnum m (table_loop alnum header target m rows out' (win' @ [10] @ row) True)" if "count_tokens alnum (win' @ [10] @ row) \<le> m"
    using ok that by (intro Cons.IH) auto
  moreover have "table_loop alnum header target m (r # rows) out win dat =
      (if count_tokens alnum (win' @ [10] @ row) \<le> m then table_loop alnum header target m rows out' (win' @ [10] @ row) True
       else Option.bind (split_text alnum row ?budget 0) (\<lambda>parts. table_loop alnum header target m rows
         ((if (if full then False else dat) then out' @ [win'] else out') @ map (\<lambda>part. header @ [10] @ part) parts) header False))"
    unfolding table_loop.simps Let_def row_def [symmetric] full_def [symmetric] out'_def [symmetric] win'_def [symmetric] ..
  ultimately show ?case using big p(1) by simp
qed (auto simp: within_def)

lemma within_table:
  assumes "unicode_words alnum" "0 < m"
  shows "within alnum m (table_windows alnum rows header_rows target m)"
proof -
  let ?h = "render_rows (take (min header_rows (length rows)) rows)"
  have "within alnum m (table_loop alnum ?h target m (drop (min header_rows (length rows)) rows) [] ?h False)" if "count_tokens alnum ?h < m"
    by (rule within_table_loop [OF assms(1) that]) (use that in simp_all)
  moreover have "max m 1 = m" using assms(2) by simp
  ultimately show ?thesis using within_split [OF assms(2)] by (auto simp: table_windows_def Let_def within_def [of _ _ "Some []"])
qed

lemma within_texts:
  assumes "unicode_words alnum" "0 < m"
  shows "within alnum m (block_texts alnum policy target m block)"
proof (cases block)
  case (Formula t l)
  from within_block [OF assms, of t target policy] obtain parts where
    "split_block alnum t target m policy = Some parts" "\<forall>x \<in> set parts. count_tokens alnum x \<le> m" by (auto simp: within_def)
  then show ?thesis using count_formula [OF assms(1)] by (auto simp: Formula within_def)
qed (use within_block [OF assms] within_table [OF assms] in \<open>simp_all add: within_def [of _ _ "Some []"]\<close>)

section \<open>Documents\<close>

lemma bounded_context_small: "0 < m \<Longrightarrow> count_tokens alnum (bounded_context alnum path m) < m"
  by (induction path) (auto simp: count_tokens_def [of _ "[]"] token_starts_def)

lemma count_context: "unicode_words alnum \<Longrightarrow> count_tokens alnum (with_context heading body) = count_tokens alnum heading + count_tokens alnum body"
  using count_break [OF breaks_newline, of alnum heading "10 # body"] count_break_front [OF breaks_newline, of alnum body]
  by (auto simp: with_context_def count_tokens_def [of _ "[]"] token_starts_def)

definition pending_ok :: "(nat \<Rightarrow> bool) \<Rightarrow> nat \<Rightarrow> pending_chunk \<Rightarrow> bool" where
  "pending_ok alnum m c \<longleftrightarrow> count_tokens alnum (fst (snd (snd c))) \<le> m \<and> trim (fst (snd (snd c))) \<noteq> []"

lemma trim_append_nonempty: "trim ys \<noteq> [] \<Longrightarrow> trim (xs @ ys) \<noteq> []"
proof -
  have e: "trim t = [] \<longleftrightarrow> (\<forall>c \<in> set t. is_whitespace c)" for t
    by (auto simp: trim_def trim_end_def trim_start_def dropWhile_eq_Nil_conv dest: set_dropWhileD)
      (metis dropWhile_eq_Nil_conv dropWhile_idem empty_iff list.set(1) set_rev)
  show "trim ys \<noteq> [] \<Longrightarrow> trim (xs @ ys) \<noteq> []" by (auto simp: e)
qed

lemma pend_block_ok:
  assumes "unicode_words alnum" "0 < cp_max_tokens policy"
  shows "\<exists>chunks. pend_block alnum policy path i block = Some chunks \<and> (\<forall>c \<in> set chunks. pending_ok alnum (cp_max_tokens policy) c)"
proof -
  let ?h = "bounded_context alnum path (cp_max_tokens policy)"
  let ?t = "max (cp_target_tokens policy - count_tokens alnum ?h) 1" and ?m = "max (cp_max_tokens policy - count_tokens alnum ?h) 1"
  have pos: "0 < ?m" by simp
  obtain texts where t: "block_texts alnum policy ?t ?m block = Some texts" "\<forall>x \<in> set texts. count_tokens alnum x \<le> ?m"
    using within_texts [OF assms(1) pos, of policy ?t block] unfolding within_def by blast
  have "pending_ok alnum (cp_max_tokens policy) (i, j, with_context ?h x, l)" if "x \<in> set texts" "trim x \<noteq> []" for x j l
  proof -
    have "count_tokens alnum x \<le> ?m" using t(2) that(1) by blast
    then have "count_tokens alnum (with_context ?h x) \<le> cp_max_tokens policy"
      using bounded_context_small [OF assms(2), of alnum path] by (simp add: count_context [OF assms(1)])
    moreover have "trim (with_context ?h x) \<noteq> []"
      using that(2) trim_append_nonempty [of x "?h @ [10, 10]"] by (simp add: with_context_def)
    ultimately show ?thesis by (simp add: pending_ok_def)
  qed
  then show ?thesis using t(1) by (auto simp: pend_block_def Let_def in_set_enumerate_eq)
qed

lemma pend_blocks_ok:
  assumes "unicode_words alnum" "0 < cp_max_tokens policy"
  shows "\<exists>chunks. pend_blocks alnum policy path i blocks = Some chunks \<and> (\<forall>c \<in> set chunks. pending_ok alnum (cp_max_tokens policy) c)"
proof (induction blocks arbitrary: path i)
  case (Cons b bs)
  obtain first where f: "pend_block alnum policy path i b = Some first" "\<forall>c \<in> set first. pending_ok alnum (cp_max_tokens policy) c"
    using pend_block_ok [OF assms] by blast
  obtain rest where r: "pend_blocks alnum policy path (i + 1) bs = Some rest" "\<forall>c \<in> set rest. pending_ok alnum (cp_max_tokens policy) c"
    using Cons.IH by blast
  show ?case using f r Cons.IH by (cases b) auto
qed simp

lemma policy_positive: "ChunkPolicy_validate policy = Inr u \<Longrightarrow> 0 < cp_max_tokens policy"
  by (auto simp: ChunkPolicy_validate_def split: if_splits)

lemma build_chunk_fields: "build_chunk L policy (n, i, j, t, l) = Inr c \<Longrightarrow>
    dc_text c = t \<and> dc_ordinal c = n \<and> dc_token_count c = count_tokens (cl_alphanumeric L) t \<and> dc_source_location c = l"
  by (auto simp: build_chunk_def res_simps)

text \<open>The chunks of a document: numbered from 0, not blank, counted, and within the maximum.\<close>

definition chunks_ok :: "chunk_lib \<Rightarrow> ChunkPolicy \<Rightarrow> DocumentChunk list \<Rightarrow> bool" where
  "chunks_ok L policy chunks \<longleftrightarrow> map dc_ordinal chunks = [0..<length chunks]
     \<and> (\<forall>c \<in> set chunks. trim (dc_text c) \<noteq> [] \<and> dc_token_count c = count_tokens (cl_alphanumeric L) (dc_text c) \<and> dc_token_count c \<le> cp_max_tokens policy)"

lemma chunk_document_ok:
  assumes "unicode_words (cl_alphanumeric L)"
  shows "\<exists>r. chunk_document L blocks policy = Some r \<and> (\<forall>chunks. r = Inr chunks \<longrightarrow> chunks_ok L policy chunks)"
proof (cases "ChunkPolicy_validate policy")
  case (Inr u)
  obtain pending where p: "pend_blocks (cl_alphanumeric L) policy [] 0 blocks = Some pending"
    "\<forall>c \<in> set pending. pending_ok (cl_alphanumeric L) (cp_max_tokens policy) c"
    using pend_blocks_ok [OF assms policy_positive [OF Inr]] by blast
  have "chunks_ok L policy chunks" if t: "try_map (build_chunk L policy) (enumerate 0 pending) = Inr chunks" for chunks
  proof -
    have n: "length chunks = length pending" using t by (auto simp: try_map_Inr_iff dest: list_all2_lengthD)
    have b: "build_chunk L policy (k, pending ! k) = Inr (chunks ! k)" if "k < length chunks" for k
      using try_map_nth [OF t, of k] that n by (simp add: nth_enumerate_eq)
    have f: "dc_text (chunks ! k) = fst (snd (snd (pending ! k))) \<and> dc_ordinal (chunks ! k) = k
        \<and> dc_token_count (chunks ! k) = count_tokens (cl_alphanumeric L) (dc_text (chunks ! k))" if "k < length chunks" for k
      using b [OF that] build_chunk_fields [of L policy k] by (cases "pending ! k") auto
    have "map dc_ordinal chunks = [0..<length chunks]" using f by (auto intro: nth_equalityI)
    moreover have "\<forall>c \<in> set chunks. trim (dc_text c) \<noteq> [] \<and> dc_token_count c = count_tokens (cl_alphanumeric L) (dc_text c) \<and> dc_token_count c \<le> cp_max_tokens policy"
      using f p(2) n by (auto simp: all_set_conv_all_nth pending_ok_def)
    ultimately show ?thesis unfolding chunks_ok_def by blast
  qed
  then show ?thesis using Inr p(1) by (auto simp: chunk_document_def)
qed (simp add: chunk_document_def)

end
