(* ===== verification/Rag_Fusion.thy ===== *)
theory Rag_Fusion
  imports Loop_Types Rag_Chunk
begin

text \<open>
  Fusion of the lexical and the dense ranking (\<open>rag/retrieve/rrf.rs\<close>) and reranking of the candidates by a provider
  (\<open>rag/rerank.rs\<close>).  Scores are elements of a linear order: the arithmetic on \<open>f64\<close> is the parameter \<open>score\<close> of a fusion,
  and \<open>total_cmp\<close> is the order.  A version ID is its text.  A \<open>HashMap\<close> is iterated in the order of the parameter \<open>iter\<close>.
\<close>

section \<open>Reciprocal rank fusion\<close>

definition MAX_FUSED_RESULTS :: nat where
  "MAX_FUSED_RESULTS = 500"

record RankedChunk =
  rk_version_id :: rstr
  rk_chunk_id :: rstr

record 's FusedChunk =
  fc_version_id :: rstr
  fc_chunk_id :: rstr
  fc_lexical_rank :: "nat option"
  fc_dense_rank :: "nat option"
  fc_rrf_score :: 's

type_synonym ranks = "(RankedChunk \<times> (nat option \<times> nat option)) list"

text \<open>\<open>ranks.entry(chunk).or_insert((None, None))\<close>, then the rank in its half of the entry.\<close>

fun set_rank :: "bool \<Rightarrow> nat \<Rightarrow> RankedChunk \<Rightarrow> ranks \<Rightarrow> ranks" where
  "set_rank lexical rank c [] = [(c, if lexical then (Some rank, None) else (None, Some rank))]"
| "set_rank lexical rank c ((d, (l, v)) # m) =
     (if c = d then (d, if lexical then (Some rank, v) else (l, Some rank)) # m else (d, (l, v)) # set_rank lexical rank c m)"

fun merge_loop :: "bool \<Rightarrow> RankedChunk list \<Rightarrow> RankedChunk set \<Rightarrow> nat \<Rightarrow> ranks \<Rightarrow> ranks" where
  "merge_loop lexical [] seen rank m = m"
| "merge_loop lexical (c # cs) seen rank m =
     (if c \<in> seen then merge_loop lexical cs seen rank m
      else merge_loop lexical cs (insert c seen) (rank + 1) (set_rank lexical (rank + 1) c m))"

definition merge_ranks :: "RankedChunk list \<Rightarrow> bool \<Rightarrow> ranks \<Rightarrow> ranks" where
  "merge_ranks chunks lexical m = merge_loop lexical chunks {} 0 m"

definition fused_le :: "('s :: linorder) FusedChunk \<Rightarrow> 's FusedChunk \<Rightarrow> bool" where
  "fused_le l r \<longleftrightarrow> fc_rrf_score r < fc_rrf_score l \<or> fc_rrf_score l = fc_rrf_score r
     \<and> (fc_chunk_id l < fc_chunk_id r \<or> fc_chunk_id l = fc_chunk_id r \<and> fc_version_id l \<le> fc_version_id r)"

text \<open>The arithmetic of \<open>f64\<close> that the scores use, a parameter: conversion from an integer, sum and quotient.\<close>

record 's float_ops =
  fl_of_nat :: "nat \<Rightarrow> 's"
  fl_add :: "'s \<Rightarrow> 's \<Rightarrow> 's"
  fl_div :: "'s \<Rightarrow> 's \<Rightarrow> 's"

definition rrf_score :: "'s float_ops \<Rightarrow> nat \<Rightarrow> nat option \<Rightarrow> 's" where
  "rrf_score F rrf_k rank =
     (case rank of
        None \<Rightarrow> fl_of_nat F 0
      | Some rank \<Rightarrow> fl_div F (fl_of_nat F 1) (fl_add F (fl_of_nat F rrf_k) (fl_of_nat F rank)))"

definition fuse :: "'s float_ops \<Rightarrow> nat \<Rightarrow> RankedChunk \<times> (nat option \<times> nat option) \<Rightarrow> 's FusedChunk" where
  "fuse F rrf_k e = (case e of (c, (l, d)) \<Rightarrow>
     \<lparr>fc_version_id = rk_version_id c, fc_chunk_id = rk_chunk_id c, fc_lexical_rank = l, fc_dense_rank = d,
      fc_rrf_score = fl_add F (rrf_score F rrf_k l) (rrf_score F rrf_k d)\<rparr>)"

definition reciprocal_rank_fusion ::
  "(ranks \<Rightarrow> ranks) \<Rightarrow> ('s :: linorder) float_ops \<Rightarrow> RankedChunk list \<Rightarrow> RankedChunk list \<Rightarrow> nat \<Rightarrow> nat \<Rightarrow> 's FusedChunk list" where
  "reciprocal_rank_fusion iter F lexical dense rrf_k limit =
     (let limit = min limit MAX_FUSED_RESULTS in
      if limit = 0 then []
      else take limit (sort_by fused_le (map (fuse F rrf_k) (iter (merge_ranks dense False (merge_ranks lexical True []))))))"

section \<open>Reranking\<close>

definition MAX_RERANK_DOCUMENTS :: nat where
  "MAX_RERANK_DOCUMENTS = 64"

datatype RerankDegradationReason =
    RrMissingCredential | RrInvalidConfiguration | RrNetwork | RrAuthentication | RrQuota | RrTimeout | RrCancelled
  | RrUnsupportedCapability | RrProviderResponse | RrMalformedResponse

record ('f, 's) RetrievedChunk =
  rc_knowledge_base_id :: rstr
  rc_document_id :: rstr
  rc_version_id :: rstr
  rc_chunk_id :: rstr
  rc_source_name :: rstr
  rc_source_location :: SourceLocation
  rc_text :: rstr
  rc_lexical_rank :: "nat option"
  rc_dense_rank :: "nat option"
  rc_rrf_score :: 's
  rc_rerank_score :: "'f option"

text \<open>\<open>rerank_score\<close> is an \<open>f32\<close> in the order of \<open>total_cmp\<close>.\<close>

record RerankDocument =
  rd_id :: rstr
  rd_text :: rstr

record 'f RerankResult =
  rr_id :: rstr
  rr_score :: 'f

record 'f rerank_remote =
  rm_max_documents :: nat
  rm_rerank :: "rstr \<Rightarrow> RerankDocument list \<Rightarrow> (ProviderError, 'f RerankResult list) result"

datatype 'f RerankProviderState = RrDisabled | RrReady "'f rerank_remote" | RrUnavailable RerankDegradationReason

record ('f, 's) RerankOutcome =
  ro_chunks :: "('f, 's) RetrievedChunk list"
  ro_degradation :: "RerankDegradationReason option"

definition rerank_outcome :: "('f, 's) RetrievedChunk list \<Rightarrow> RerankDegradationReason option \<Rightarrow> ('f, 's) RerankOutcome" where
  "rerank_outcome chunks d = \<lparr>ro_chunks = chunks, ro_degradation = d\<rparr>"

definition candidate_id :: "('f, 's) RetrievedChunk \<Rightarrow> rstr" where
  "candidate_id c = rc_version_id c @ str '':'' @ rc_chunk_id c"

fun provider_degradation :: "ProviderErrorCode \<Rightarrow> RerankDegradationReason" where
  "provider_degradation PeNetwork = RrNetwork"
| "provider_degradation PeAuthentication = RrAuthentication"
| "provider_degradation PeQuota = RrQuota"
| "provider_degradation PeTimeout = RrTimeout"
| "provider_degradation PeProviderResponse = RrProviderResponse"
| "provider_degradation PeContextLimit = RrProviderResponse"
| "provider_degradation PeCancelled = RrCancelled"
| "provider_degradation PeUnsupportedCapability = RrUnsupportedCapability"

text \<open>The loop of \<open>validate_results\<close>; the scores map is a function with its domain listed in the order of insertion.\<close>

fun collect_scores :: "('f \<Rightarrow> bool) \<Rightarrow> rstr set \<Rightarrow> 'f RerankResult list \<Rightarrow> (rstr \<times> 'f) list \<Rightarrow> (rstr \<times> 'f) list option" where
  "collect_scores finite_score expected [] scores = Some scores"
| "collect_scores finite_score expected (r # rs) scores =
     (if rr_id r \<notin> expected \<or> \<not> finite_score (rr_score r) \<or> map_of scores (rr_id r) \<noteq> None then None
      else collect_scores finite_score expected rs ((rr_id r, rr_score r) # scores))"

definition validate_results :: "('f \<Rightarrow> bool) \<Rightarrow> rstr list \<Rightarrow> 'f RerankResult list \<Rightarrow> (rstr \<times> 'f) list option" where
  "validate_results finite_score ids results =
     (if length results \<noteq> card (set ids) then None
      else Option.bind (collect_scores finite_score (set ids) results []) (\<lambda>scores. if length scores = card (set ids) then Some scores else None))"

text \<open>\<open>unwrap_or_default\<close>: \<open>zero\<close> is the score 0.\<close>

definition rerank_key :: "'f \<Rightarrow> ('f, 's) RetrievedChunk \<Rightarrow> 'f" where
  "rerank_key zero c = (case rc_rerank_score c of None \<Rightarrow> zero | Some f \<Rightarrow> f)"

text \<open>The polls of the cancellation flag are \<open>cancelled_before\<close> and \<open>cancelled_after\<close> the request.\<close>

definition rerank_candidates ::
  "('f :: linorder \<Rightarrow> bool) \<Rightarrow> 'f \<Rightarrow> rstr \<Rightarrow> ('f, 's) RetrievedChunk list \<Rightarrow> 'f RerankProviderState \<Rightarrow> nat \<Rightarrow> bool \<Rightarrow> bool \<Rightarrow> ('f, 's) RerankOutcome" where
  "rerank_candidates finite_score zero query chunks provider max_documents cancelled_before cancelled_after =
     (if chunks = [] then rerank_outcome chunks None
      else (case provider of
              RrDisabled \<Rightarrow> rerank_outcome chunks None
            | RrUnavailable why \<Rightarrow> rerank_outcome chunks (Some why)
            | RrReady remote \<Rightarrow>
                if cancelled_before then rerank_outcome chunks (Some RrCancelled)
                else
                  (let limit = min (min (min (length chunks) max_documents) (rm_max_documents remote)) MAX_RERANK_DOCUMENTS in
                   if limit = 0 then rerank_outcome chunks (Some RrInvalidConfiguration)
                   else
                     (let documents = map (\<lambda>c. \<lparr>rd_id = candidate_id c, rd_text = rc_text c\<rparr>) (take limit chunks) in
                      case rm_rerank remote (trim query) documents of
                        Inl e \<Rightarrow> rerank_outcome chunks (Some (provider_degradation (pe_code e)))
                      | Inr results \<Rightarrow>
                          if cancelled_after then rerank_outcome chunks (Some RrCancelled)
                          else (case validate_results finite_score (map rd_id documents) results of
                                  None \<Rightarrow> rerank_outcome chunks (Some RrMalformedResponse)
                                | Some scores \<Rightarrow>
                                    rerank_outcome
                                      (sort_by (\<lambda>l r. rerank_key zero r \<le> rerank_key zero l)
                                         (map (\<lambda>c. c\<lparr>rc_rerank_score := map_of scores (candidate_id c)\<rparr>) (take limit chunks)) @ drop limit chunks)
                                      None)))))"

section \<open>Ranks\<close>

text \<open>The rank of a chunk: the position of its first occurrence among the distinct chunks.\<close>

definition rank_in :: "RankedChunk list \<Rightarrow> RankedChunk \<Rightarrow> nat option" where
  "rank_in cs c = (if c \<in> set cs then Some (card (set (takeWhile (\<lambda>d. d \<noteq> c) cs)) + 1) else None)"

lemma set_rank_get: "map_of (set_rank lx r c m) d =
    (if d = c then Some (case map_of m c of None \<Rightarrow> if lx then (Some r, None) else (None, Some r)
        | Some (l, v) \<Rightarrow> if lx then (Some r, v) else (l, Some r)) else map_of m d)"
  by (induction lx r c m rule: set_rank.induct) auto

lemma set_rank_keys: "map fst (set_rank lx r c m) = (if c \<in> fst ` set m then map fst m else map fst m @ [c])"
  by (induction lx r c m rule: set_rank.induct) auto

lemma set_rank_distinct: "distinct (map fst m) \<Longrightarrow> distinct (map fst (set_rank lx r c m))"
  by (simp add: set_rank_keys)

text \<open>What a half of an entry becomes.\<close>

definition put_rank :: "bool \<Rightarrow> nat option \<Rightarrow> (nat option \<times> nat option) option \<Rightarrow> (nat option \<times> nat option) option" where
  "put_rank lx r e = (case r of None \<Rightarrow> e | Some n \<Rightarrow>
     Some (case e of None \<Rightarrow> if lx then (Some n, None) else (None, Some n) | Some (l, v) \<Rightarrow> if lx then (Some n, v) else (l, Some n)))"

lemma merge_loop_get:
  assumes "finite seen"
  shows "map_of (merge_loop lx cs seen r m) d =
    put_rank lx (if d \<in> set cs \<and> d \<notin> seen then Some (r + card (set (takeWhile (\<lambda>c. c \<noteq> d) cs) - seen) + 1) else None) (map_of m d)"
  using assms
proof (induction lx cs seen r m rule: merge_loop.induct)
  case (2 lx c cs seen r m)
  show ?case
  proof (cases "c \<in> seen")
    case True
    then have "set (takeWhile (\<lambda>x. x \<noteq> d) (c # cs)) - seen = set (takeWhile (\<lambda>x. x \<noteq> d) cs) - seen" if "d \<notin> seen" using that by auto
    then show ?thesis using 2 True by (auto simp: put_rank_def)
  next
    case False
    have e: "set (takeWhile (\<lambda>x. x \<noteq> d) (c # cs)) - seen = insert c (set (takeWhile (\<lambda>x. x \<noteq> d) cs) - insert c seen)" if "c \<noteq> d"
      using that False by auto
    have "card (insert c (set (takeWhile (\<lambda>x. x \<noteq> d) cs) - insert c seen)) = card (set (takeWhile (\<lambda>x. x \<noteq> d) cs) - insert c seen) + 1" by simp
    then show ?thesis using 2 False e by (cases "c = d") (auto simp: put_rank_def set_rank_get split: option.splits)
  qed
qed (simp add: put_rank_def)

lemma merge_loop_distinct: "distinct (map fst m) \<Longrightarrow> distinct (map fst (merge_loop lx cs seen r m))"
  by (induction lx cs seen r m rule: merge_loop.induct) (auto simp: set_rank_distinct)

lemma merge_ranks_get: "map_of (merge_ranks cs lx m) d = put_rank lx (rank_in cs d) (map_of m d)"
  by (simp add: merge_ranks_def merge_loop_get rank_in_def)

definition both_ranks :: "RankedChunk list \<Rightarrow> RankedChunk list \<Rightarrow> ranks" where
  "both_ranks lexical dense = map (\<lambda>c. (c, (rank_in lexical c, rank_in dense c))) (remdups (lexical @ dense))"

lemma merged_mset: "mset (merge_ranks dense False (merge_ranks lexical True [])) = mset (both_ranks lexical dense)"
proof -
  let ?m = "merge_ranks dense False (merge_ranks lexical True [])" and ?b = "both_ranks lexical dense"
  have d: "distinct (map fst ?m)" "distinct (map fst ?b)"
    by (simp_all add: merge_ranks_def merge_loop_distinct both_ranks_def comp_def)
  have b: "map_of ?b c = (if c \<in> set lexical \<union> set dense then Some (rank_in lexical c, rank_in dense c) else None)" for c
    by (simp add: both_ranks_def map_of_map_restrict restrict_map_def)
  have "map_of ?m c = map_of ?b c" for c
    by (simp add: b merge_ranks_get put_rank_def) (auto simp: rank_in_def split: option.splits)
  then have "set ?m = set ?b" using d by (metis map_of_inject_set ext)
  moreover have "distinct ?m" "distinct ?b" using d by (simp_all add: distinct_map)
  ultimately show ?thesis by (simp add: set_eq_iff_mset_eq_distinct)
qed

section \<open>The order of the fusion\<close>

lemma fused_le_total: "total_preorder fused_le"
  unfolding total_preorder_def fused_le_def by auto

lemma sorted_antisym_unique:
  assumes "sorted_wrt le xs" "sorted_wrt le ys" "mset xs = mset ys"
    and "\<And>a b. a \<in> set xs \<Longrightarrow> b \<in> set xs \<Longrightarrow> le a b \<Longrightarrow> le b a \<Longrightarrow> a = b"
  shows "xs = ys"
  using assms
proof (induction xs arbitrary: ys)
  case (Cons x xs)
  then obtain y zs where y: "ys = y # zs" by (cases ys) auto
  have s: "set (x # xs) = set ys" using Cons.prems(3) by (metis set_mset_mset)
  have "x = y"
  proof (rule ccontr)
    assume n: "x \<noteq> y"
    have "y \<in> set xs" "x \<in> set zs" using s n y by auto
    then have "le x y" "le y x" using Cons.prems(1,2) y by auto
    then show False using Cons.prems(4) n s y by auto
  qed
  then show ?case using Cons y by auto
qed simp

lemma sort_by_mset_unique:
  assumes "total_preorder le" "mset xs = mset ys" "\<And>a b. a \<in> set xs \<Longrightarrow> b \<in> set xs \<Longrightarrow> le a b \<Longrightarrow> le b a \<Longrightarrow> a = b"
  shows "sort_by le xs = sort_by le ys"
  by (rule sorted_antisym_unique [of le]) (use assms in \<open>simp_all add: sorted_sort_by\<close>)

lemma fuse_inj:
  assumes "a \<in> set (map (fuse F rrf_k) (both_ranks l d))" "b \<in> set (map (fuse F rrf_k) (both_ranks l d))" "fused_le a b" "fused_le b a"
  shows "a = b"
proof -
  have k: "fc_chunk_id a = fc_chunk_id b" "fc_version_id a = fc_version_id b" using assms(3,4) by (auto simp: fused_le_def)
  obtain c e where ce: "a = fuse F rrf_k (c, (rank_in l c, rank_in d c))" "b = fuse F rrf_k (e, (rank_in l e, rank_in d e))"
    using assms(1,2) by (auto simp: both_ranks_def)
  then have "c = e" using k by (cases c; cases e) (simp add: fuse_def)
  then show ?thesis using ce by simp
qed

lemma fusion_reference:
  assumes "\<And>m. mset (iter m) = mset m"
  shows "reciprocal_rank_fusion iter F lexical dense rrf_k limit =
    take (min limit MAX_FUSED_RESULTS) (sort_by fused_le (map (fuse F rrf_k) (both_ranks lexical dense)))"
proof -
  have "mset (map (fuse F rrf_k) (iter (merge_ranks dense False (merge_ranks lexical True [])))) = mset (map (fuse F rrf_k) (both_ranks lexical dense))"
    using assms merged_mset [of dense lexical] by simp
  then have "sort_by fused_le (map (fuse F rrf_k) (iter (merge_ranks dense False (merge_ranks lexical True [])))) = sort_by fused_le (map (fuse F rrf_k) (both_ranks lexical dense))"
    by (rule sort_by_mset_unique [OF fused_le_total, symmetric, OF sym]) (use fuse_inj in blast)
  then show ?thesis by (simp add: reciprocal_rank_fusion_def Let_def)
qed

section \<open>Reranking keeps the candidates\<close>

definition unscored :: "('f, 's) RetrievedChunk \<Rightarrow> ('f, 's) RetrievedChunk" where
  "unscored c = c\<lparr>rc_rerank_score := None\<rparr>"

lemma collect_scores_spec:
  "collect_scores fin expected rs acc = Some scores \<Longrightarrow> distinct (map fst acc) \<Longrightarrow> fst ` set acc \<subseteq> expected \<Longrightarrow>
    distinct (map fst scores) \<and> fst ` set scores \<subseteq> expected \<and> length scores = length acc + length rs"
proof (induction rs arbitrary: acc)
  case (Cons r rs)
  have g: "rr_id r \<in> expected" "map_of acc (rr_id r) = None" "collect_scores fin expected rs ((rr_id r, rr_score r) # acc) = Some scores"
    using Cons.prems(1) by (auto split: if_splits)
  then have "rr_id r \<notin> fst ` set acc" by (simp add: map_of_eq_None_iff)
  then show ?case using Cons.IH [OF g(3)] Cons.prems(2,3) g(1) by simp
qed simp

text \<open>Accepted results score every document that was sent.\<close>

lemma validate_results_total:
  assumes "validate_results fin ids results = Some scores" "i \<in> set ids"
  shows "\<exists>f. map_of scores i = Some f"
proof -
  have c: "collect_scores fin (set ids) results [] = Some scores" "length scores = card (set ids)"
    using assms(1) by (auto simp: validate_results_def bind_eq_Some_conv split: if_splits)
  have s: "distinct (map fst scores)" "fst ` set scores \<subseteq> set ids" using collect_scores_spec [OF c(1)] by simp_all
  then have "card (fst ` set scores) = card (set ids)" using c(2) distinct_card [of "map fst scores"] by simp
  then have "fst ` set scores = set ids" using s(2) by (simp add: card_subset_eq)
  then show ?thesis using assms(2) by (metis domD dom_map_of_conv_image_fst)
qed

end
