(* ===== verification/Rag_Properties.thy ===== *)
theory Rag_Properties
  imports Rag_Bounds Rag_Fusion
begin

text \<open>Properties of chunking, fusion and reranking.\<close>

text \<open>C8. Chunking any document under any policy ends.  If it succeeds, the chunks are numbered from 0, none is blank, each is labelled
  with its own token count, and none exceeds the maximum of the policy, whatever its headings, tables, lists and formulas.\<close>

theorem chunk_document_bounded:
  assumes "unicode_words (cl_alphanumeric L)"
  shows "\<exists>r. chunk_document L blocks policy = Some r \<and> (\<forall>chunks. r = Inr chunks \<longrightarrow> map dc_ordinal chunks = [0..<length chunks]
    \<and> (\<forall>c \<in> set chunks. trim (dc_text c) \<noteq> [] \<and> dc_token_count c = count_tokens (cl_alphanumeric L) (dc_text c) \<and> dc_token_count c \<le> cp_max_tokens policy))"
  using chunk_document_ok [OF assms, of blocks policy] by (simp only: chunks_ok_def)

definition ascii_lib :: chunk_lib where
  "ascii_lib = \<lparr>cl_alphanumeric = is_ascii_alphanumeric, cl_sha256 = (\<lambda>_. str ''00''), cl_location = (\<lambda>_. Some [])\<rparr>"

lemma ascii_words: "unicode_words is_ascii_alphanumeric"
proof -
  have "\<not> is_ascii_alphanumeric c" if "is_whitespace c" for c
    using that unfolding is_whitespace_def ascii_defs by linarith
  then show ?thesis by (simp add: unicode_words_def)
qed

definition demo_document :: "DocumentBlock list" where
  "demo_document = [Heading 1 (str ''Q690'') (TextOffsets 0 4), Paragraph (str ''tempering raises toughness'') (TextOffsets 4 30)]"

theorem chunk_document_bounded_witness:
  "\<exists>r. chunk_document ascii_lib demo_document ChunkPolicy_default = Some r \<and> (\<forall>chunks. r = Inr chunks \<longrightarrow> map dc_ordinal chunks = [0..<length chunks]
    \<and> (\<forall>c \<in> set chunks. trim (dc_text c) \<noteq> [] \<and> dc_token_count c = count_tokens (cl_alphanumeric ascii_lib) (dc_text c) \<and> dc_token_count c \<le> cp_max_tokens ChunkPolicy_default))"
  by (rule chunk_document_bounded) (simp add: ascii_lib_def ascii_words)

text \<open>C35. Splitting a text with a positive limit ends, no part has more tokens than the limit, and no character is lost: dropping from each
  part the characters it repeats and joining the rest gives the text again.\<close>

theorem split_text_rejoins:
  assumes "0 < limit"
  shows "\<exists>parts. split_text alnum t limit overlap = Some parts \<and> (\<forall>x \<in> set parts. count_tokens alnum x \<le> limit)
    \<and> (\<exists>ds. length ds = length parts \<and> concat (map2 drop ds parts) = t)"
  using split_text_spec [OF assms] by (simp only: rejoined_def)

theorem split_text_rejoins_witness:
  "\<exists>parts. split_text is_ascii_alphanumeric (str ''a b c'') 2 1 = Some parts \<and> (\<forall>x \<in> set parts. count_tokens is_ascii_alphanumeric x \<le> 2)
    \<and> (\<exists>ds. length ds = length parts \<and> concat (map2 drop ds parts) = str ''a b c'')"
  by (rule split_text_rejoins) simp

text \<open>C36. Fusion does not depend on the iteration order of its hash map: it is the first \<open>min limit 500\<close> of all chunks of either ranking, each
  with the rank of its first occurrence in each and with the sum of \<open>1 / (rrf_k + rank)\<close> over the rankings it occurs in as its score, by
  descending score, ties broken by chunk and version; whatever the arithmetic of the scores is.\<close>

theorem fusion_deterministic:
  assumes "\<And>m. mset (iter m) = mset m"
  shows "reciprocal_rank_fusion iter F lexical dense rrf_k limit =
    take (min limit MAX_FUSED_RESULTS)
      (sort_by fused_le (map (\<lambda>c. \<lparr>fc_version_id = rk_version_id c, fc_chunk_id = rk_chunk_id c, fc_lexical_rank = rank_in lexical c, fc_dense_rank = rank_in dense c,
         fc_rrf_score = fl_add F (rrf_score F rrf_k (rank_in lexical c)) (rrf_score F rrf_k (rank_in dense c))\<rparr>) (remdups (lexical @ dense))))"
  using fusion_reference [OF assms, of F lexical dense rrf_k limit] by (simp add: both_ranks_def comp_def fuse_def)

definition demo_floats :: "nat float_ops" where
  "demo_floats = \<lparr>fl_of_nat = (\<lambda>n. 1000 * n), fl_add = (+), fl_div = (\<lambda>x y. 1000 * x div y)\<rparr>"

definition demo_ranking :: "RankedChunk list" where
  "demo_ranking = [\<lparr>rk_version_id = str ''v'', rk_chunk_id = str ''a''\<rparr>, \<lparr>rk_version_id = str ''v'', rk_chunk_id = str ''b''\<rparr>]"

theorem fusion_deterministic_witness:
  "map (\<lambda>c. (fc_chunk_id c, fc_rrf_score c)) (reciprocal_rank_fusion rev demo_floats demo_ranking (tl demo_ranking) 1 5) = [(str ''b'', 833), (str ''a'', 500)]"
proof -
  have "\<And>m :: ranks. mset (rev m) = mset m" by simp
  from fusion_deterministic [OF this, of demo_floats demo_ranking "tl demo_ranking" 1 5] show ?thesis
    by (simp add: demo_floats_def demo_ranking_def rrf_score_def rank_in_def MAX_FUSED_RESULTS_def fused_le_def str_def)
qed

text \<open>What reranking may do to the candidates: change their scores, and sort a bounded prefix of them.\<close>

definition reranked :: "'f :: linorder \<Rightarrow> ('f, 's) RetrievedChunk list \<Rightarrow> ('f, 's) RerankOutcome \<Rightarrow> bool" where
  "reranked zero chunks out \<longleftrightarrow> mset (map unscored (ro_chunks out)) = mset (map unscored chunks)
     \<and> (ro_degradation out = None \<or> ro_chunks out = chunks)
     \<and> (\<exists>n \<le> MAX_RERANK_DOCUMENTS. drop n (ro_chunks out) = drop n chunks
          \<and> sorted_wrt (\<lambda>l r. rerank_key zero r \<le> rerank_key zero l) (take n (ro_chunks out)))"

lemma unscored_update [simp]: "unscored (c\<lparr>rc_rerank_score := f\<rparr>) = unscored c"
  by (simp add: unscored_def)

lemma reranked_same: "reranked zero chunks (rerank_outcome chunks d)"
  by (auto simp: reranked_def rerank_outcome_def)

lemma reranked_sorted:
  assumes "n \<le> MAX_RERANK_DOCUMENTS" "n \<le> length chunks"
  shows "reranked zero chunks (rerank_outcome
    (sort_by (\<lambda>l r. rerank_key zero r \<le> rerank_key zero l) (map (\<lambda>c. c\<lparr>rc_rerank_score := f c\<rparr>) (take n chunks)) @ drop n chunks) None)"
proof -
  let ?s = "sort_by (\<lambda>l r. rerank_key zero r \<le> rerank_key zero l) (map (\<lambda>c. c\<lparr>rc_rerank_score := f c\<rparr>) (take n chunks))"
  have "mset (map unscored ?s) = mset (map unscored (take n chunks))"
    by (simp add: multiset.map_comp comp_def)
  then have "mset (map unscored (?s @ drop n chunks)) = mset (map unscored chunks)"
    using arg_cong [OF append_take_drop_id [of n chunks], of "\<lambda>cs. mset (map unscored cs)"] by (simp del: append_take_drop_id)
  moreover have "total_preorder (\<lambda>l r. rerank_key zero r \<le> rerank_key zero l)" by (auto simp: total_preorder_def)
  then have "sorted_wrt (\<lambda>l r. rerank_key zero r \<le> rerank_key zero l) ?s" by (rule sorted_sort_by)
  moreover have "length ?s = n" using assms(2) by simp
  ultimately show ?thesis using assms(1) unfolding reranked_def by (auto simp: rerank_outcome_def intro!: exI [of _ n])
qed

text \<open>C37. Whatever a reranking provider returns, no candidate is lost, added or altered except for its rerank score.  When the reranking is degraded the
  candidates are returned as they came; otherwise the leading ones, at most 64, are in descending order of their scores and the others stay in place.\<close>

theorem rerank_keeps_candidates:
  "reranked zero chunks (rerank_candidates fin zero query chunks provider max_documents cancelled_before cancelled_after)"
proof (cases provider)
  case (RrReady remote)
  let ?n = "min (min (min (length chunks) max_documents) (rm_max_documents remote)) MAX_RERANK_DOCUMENTS"
  have "?n \<le> MAX_RERANK_DOCUMENTS" "?n \<le> length chunks" by simp_all
  note n = reranked_sorted [OF this]
  show ?thesis
    by (simp only: rerank_candidates_def Let_def RrReady RerankProviderState.case reranked_same n if_True if_False simp_thms split: if_split sum.split option.split)
qed (simp_all add: rerank_candidates_def reranked_same)

end
