(* ===== verification/Cron.thy ===== *)
theory Cron
  imports Task_Model
begin

text \<open>
  Schedules of background agents: the cron expressions (\<open>tasks/cron.rs\<close>) and their tables (\<open>tasks/cron_repository.rs\<close>,
  \<open>storage/migrations/0025_cron.sql\<close>, \<open>0032_agent_automations.sql\<close>).  Instants are integers.  The cron and time-zone libraries
  and the RFC 3339 format are the parameter \<open>cron_lib\<close>; the conversations, the agent profiles and the runs, which the
  repository only reads, are \<open>cron_world\<close>.  A transaction that fails leaves the database as it was.
\<close>

section \<open>Expressions\<close>

text \<open>\<open>cr_schedule\<close> is \<open>Schedule::from_str\<close> (with the seconds field), \<open>cr_next\<close> the first occurrence after an instant in a zone,
  \<open>cr_zone\<close> whether a zone is known.\<close>

record cron_lib =
  cr_schedule :: "rstr \<Rightarrow> (rstr, unit) result"
  cr_next :: "rstr \<Rightarrow> rstr \<Rightarrow> int \<Rightarrow> int option"
  cr_zone :: "rstr \<Rightarrow> bool"
  cr_show :: "int \<Rightarrow> rstr"
  cr_instant :: "rstr \<Rightarrow> int option"

record CronPlan =
  pl_expression :: rstr
  pl_timezone :: rstr

definition five_fields :: rstr where
  "five_fields = str ''cron expression must contain exactly five fields''"

definition normalize_weekday :: "rstr \<Rightarrow> (rstr, rstr) result" where
  "normalize_weekday v =
     (if v = str ''*'' then Inr v
      else (case parse_uint u8_max v of
              None \<Rightarrow> Inl (str ''invalid numeric weekday: '' @ v)
            | Some n \<Rightarrow>
                if 7 < n then Inl (str ''weekday must be between 0 and 7: '' @ show_nat n)
                else Inr (show_nat (if n = 0 \<or> n = 7 then 1 else n + 1))))"

definition normalize_weekday_part :: "rstr \<Rightarrow> (rstr, rstr) result" where
  "normalize_weekday_part part =
     (let pieces = split_on 47 part; range = hd pieces in
      if 2 < length pieces then Inl (str ''cron weekday step is malformed'')
      else rbind (try_map normalize_weekday (split_on 45 range)) (\<lambda>days.
        Inr (if length pieces = 2 then join [45] days @ str ''/'' @ pieces ! 1 else join [45] days)))"

definition normalize_expression :: "rstr \<Rightarrow> (rstr, rstr) result" where
  "normalize_expression expression =
     (let fields = split_whitespace expression in
      if length fields \<noteq> 5 then Inl five_fields
      else rbind (try_map normalize_weekday_part (split_on 44 (fields ! 4))) (\<lambda>days. Inr (join [32] (fields[4 := join [44] days]))))"

definition with_seconds :: "rstr \<Rightarrow> rstr" where
  "with_seconds e = str ''0 '' @ e"

definition CronPlan_validate :: "cron_lib \<Rightarrow> rstr \<Rightarrow> rstr \<Rightarrow> (rstr, CronPlan) result" where
  "CronPlan_validate L expression timezone =
     (let expression = trim expression in
      rbind (ensure (length (split_whitespace expression) = 5) five_fields) (\<lambda>_.
      rbind (normalize_expression expression) (\<lambda>normalized.
      rbind (map_err (\<lambda>e. str ''invalid cron expression: '' @ e) (cr_schedule L (with_seconds normalized))) (\<lambda>_.
      rbind (ensure (cr_zone L timezone) (str ''unknown IANA timezone: '' @ timezone)) (\<lambda>_.
      Inr \<lparr>pl_expression = expression, pl_timezone = timezone\<rparr>)))))"

text \<open>An expression that restricts both the day of the month and the day of the week is due on either.\<close>

definition plan_expressions :: "rstr \<Rightarrow> (rstr, rstr list) result" where
  "plan_expressions expression =
     (let fields = split_whitespace expression in
      rbind (normalize_expression expression) (\<lambda>normalized.
      if fields ! 2 \<noteq> str ''*'' \<and> fields ! 4 \<noteq> str ''*''
      then try_map normalize_expression [join [32] (fields[4 := str ''*'']), join [32] (fields[2 := str ''*''])]
      else Inr [normalized]))"

definition next_after :: "cron_lib \<Rightarrow> CronPlan \<Rightarrow> int \<Rightarrow> (rstr, int) result" where
  "next_after L plan now =
     rbind (ensure (cr_zone L (pl_timezone plan)) (str ''unknown IANA timezone: '' @ pl_timezone plan)) (\<lambda>_.
     rbind (plan_expressions (pl_expression plan)) (\<lambda>expressions.
     let slots = List.map_filter (\<lambda>e. if is_ok (cr_schedule L (with_seconds e)) then cr_next L (with_seconds e) (pl_timezone plan) now else None) expressions in
     if slots = [] then Inl (str ''cron expression has no future occurrence'') else Inr (Min (set slots))))"

section \<open>Tables\<close>

record cron_row =
  cj_id :: rstr
  cj_workspace_id :: rstr
  cj_expression :: rstr
  cj_timezone :: rstr
  cj_prompt :: rstr
  cj_identity :: rstr
  cj_recurring :: bool
  cj_durable :: bool
  cj_enabled :: bool
  cj_conversation_id :: "rstr option"
  cj_agent_id :: rstr
  cj_next_run_at_utc :: rstr
  cj_last_slot_at_utc :: "rstr option"

record outbox_row =
  ob_event_id :: rstr
  ob_workspace_id :: rstr
  ob_job_id :: rstr
  ob_slot_at_utc :: rstr
  ob_identity :: rstr
  ob_prompt :: rstr
  ob_conversation_id :: "rstr option"
  ob_agent_id :: rstr
  ob_run_id :: "rstr option"
  ob_error_message :: "rstr option"
  ob_acknowledged :: bool

record cron_db =
  cd_jobs :: "cron_row list"
  cd_outbox :: "outbox_row list"

text \<open>\<open>cw_conversation\<close>: the conversation exists and is not archived; \<open>cw_profile\<close>: the enabled flag of an agent profile;
  \<open>cw_run_state\<close>: the state of a run.\<close>

record cron_world =
  cw_conversation :: "rstr \<Rightarrow> rstr \<Rightarrow> bool"
  cw_profile :: "rstr \<Rightarrow> rstr \<Rightarrow> bool option"
  cw_run_state :: "rstr \<Rightarrow> rstr \<Rightarrow> rstr option"

record CronJob =
  jb_row :: cron_row
  jb_last_error :: "rstr option"
  jb_last_run_id :: "rstr option"
  jb_last_run_state :: "rstr option"

text \<open>The unique constraints of the outbox.\<close>

definition outbox_keys :: "outbox_row list \<Rightarrow> bool" where
  "outbox_keys rows \<longleftrightarrow> distinct (map ob_event_id rows) \<and> distinct (map (\<lambda>r. (ob_workspace_id r, ob_job_id r, ob_slot_at_utc r)) rows)"

section \<open>Reading\<close>

definition latest_event :: "cron_db \<Rightarrow> cron_row \<Rightarrow> outbox_row option" where
  "latest_event db j =
     (case sort_by (\<lambda>a b. ob_slot_at_utc b \<le> ob_slot_at_utc a)
        (filter (\<lambda>r. ob_workspace_id r = cj_workspace_id j \<and> ob_job_id r = cj_id j) (cd_outbox db)) of
        [] \<Rightarrow> None | r # _ \<Rightarrow> Some r)"

definition list_jobs :: "cron_world \<Rightarrow> cron_db \<Rightarrow> rstr \<Rightarrow> CronJob list" where
  "list_jobs W db workspace_id =
     map (\<lambda>j. let r = latest_event db j; run = Option.bind r ob_run_id in
           \<lparr>jb_row = j, jb_last_error = Option.bind r ob_error_message, jb_last_run_id = run,
            jb_last_run_state = Option.bind run (cw_run_state W workspace_id)\<rparr>)
       (sort_by (\<lambda>a b. cj_next_run_at_utc a < cj_next_run_at_utc b \<or> cj_next_run_at_utc a = cj_next_run_at_utc b \<and> cj_id a \<le> cj_id b)
         (filter (\<lambda>j. cj_workspace_id j = workspace_id) (cd_jobs db)))"

definition find_job :: "cron_world \<Rightarrow> cron_db \<Rightarrow> rstr \<Rightarrow> rstr \<Rightarrow> rstr \<Rightarrow> (rstr, CronJob) result" where
  "find_job W db workspace_id i missing = ok_or missing (find (\<lambda>j. cj_id (jb_row j) = i) (list_jobs W db workspace_id))"

section \<open>Schedules\<close>

definition is_job :: "rstr \<Rightarrow> rstr \<Rightarrow> cron_row \<Rightarrow> bool" where
  "is_job workspace_id i j \<longleftrightarrow> cj_workspace_id j = workspace_id \<and> cj_id j = i"

text \<open>An event is unstarted while it is not acknowledged and its run, if one is reserved, does not exist.\<close>

definition unstarted :: "cron_world \<Rightarrow> outbox_row \<Rightarrow> bool" where
  "unstarted W r \<longleftrightarrow> \<not> ob_acknowledged r \<and> (case ob_run_id r of None \<Rightarrow> True | Some run \<Rightarrow> cw_run_state W (ob_workspace_id r) run = None)"

definition cancel_unstarted :: "cron_world \<Rightarrow> rstr \<Rightarrow> rstr \<Rightarrow> string \<Rightarrow> cron_db \<Rightarrow> cron_db" where
  "cancel_unstarted W workspace_id i why db =
     db\<lparr>cd_outbox := map (\<lambda>r. if ob_workspace_id r = workspace_id \<and> ob_job_id r = i \<and> unstarted W r
        then r\<lparr>ob_acknowledged := True, ob_error_message := Some (str why)\<rparr> else r) (cd_outbox db)\<rparr>"

record SaveAgentSchedule =
  sv_id :: "rstr option"
  sv_conversation_id :: rstr
  sv_agent_id :: rstr
  sv_expression :: rstr
  sv_timezone :: rstr
  sv_prompt :: rstr
  sv_enabled :: bool
  sv_recurring :: bool

definition save_update :: "SaveAgentSchedule \<Rightarrow> CronPlan \<Rightarrow> rstr \<Rightarrow> cron_row \<Rightarrow> cron_row" where
  "save_update q plan slot j =
     j\<lparr>cj_expression := pl_expression plan, cj_timezone := pl_timezone plan, cj_prompt := trim (sv_prompt q), cj_identity := sv_agent_id q,
       cj_recurring := sv_recurring q, cj_durable := True, cj_enabled := sv_enabled q, cj_conversation_id := Some (sv_conversation_id q),
       cj_agent_id := sv_agent_id q, cj_next_run_at_utc := slot\<rparr>"

definition save_new :: "rstr \<Rightarrow> rstr \<Rightarrow> SaveAgentSchedule \<Rightarrow> CronPlan \<Rightarrow> rstr \<Rightarrow> cron_row" where
  "save_new i workspace_id q plan slot =
     \<lparr>cj_id = i, cj_workspace_id = workspace_id, cj_expression = pl_expression plan, cj_timezone = pl_timezone plan, cj_prompt = trim (sv_prompt q),
      cj_identity = sv_agent_id q, cj_recurring = sv_recurring q, cj_durable = True, cj_enabled = sv_enabled q,
      cj_conversation_id = Some (sv_conversation_id q), cj_agent_id = sv_agent_id q, cj_next_run_at_utc = slot, cj_last_slot_at_utc = None\<rparr>"

text \<open>\<open>INSERT INTO cron_jobs\<close>: the id is the primary key.\<close>

definition insert_job :: "cron_row \<Rightarrow> cron_db \<Rightarrow> (rstr, cron_db) result" where
  "insert_job j db =
     (if cj_id j \<in> set (map cj_id (cd_jobs db)) then Inl (str ''UNIQUE constraint failed: cron_jobs.id'') else Inr (db\<lparr>cd_jobs := cd_jobs db @ [j]\<rparr>))"

definition save_transaction :: "cron_lib \<Rightarrow> cron_world \<Rightarrow> rstr \<Rightarrow> rstr \<Rightarrow> SaveAgentSchedule \<Rightarrow> CronPlan \<Rightarrow> int \<Rightarrow> cron_db \<Rightarrow> (rstr, rstr \<times> cron_db) result" where
  "save_transaction L W new_id workspace_id q plan now db =
     rbind (ensure (cw_conversation W workspace_id (sv_conversation_id q)) (str ''schedule conversation was not found or is archived'')) (\<lambda>_.
     rbind (next_after L plan now) (\<lambda>slot.
     case sv_id q of
       Some i \<Rightarrow>
         if list_ex (is_job workspace_id i) (cd_jobs db)
         then Inr (i, cancel_unstarted W workspace_id i ''schedule_updated''
           (db\<lparr>cd_jobs := map (\<lambda>j. if is_job workspace_id i j then save_update q plan (cr_show L slot) j else j) (cd_jobs db)\<rparr>))
         else Inl (str ''schedule was not found'')
     | None \<Rightarrow> rbind (insert_job (save_new new_id workspace_id q plan (cr_show L slot)) db) (\<lambda>db. Inr (new_id, db))))"

text \<open>\<open>validate_identifier(name, ..)\<close> as a string.\<close>

definition identifier_error :: "string \<Rightarrow> rstr" where
  "identifier_error name = str ''invalid_task: '' @ str name @ str '' must use 1-'' @ show_nat MAX_IDENTIFIER_LENGTH
     @ str '' ASCII letters, digits, '' @ [39, 46, 39] @ str '', '' @ [39, 95, 39] @ str '' or '' @ [39, 45, 39]"

definition cron_save :: "cron_lib \<Rightarrow> cron_world \<Rightarrow> rstr \<Rightarrow> rstr \<Rightarrow> SaveAgentSchedule \<Rightarrow> int \<Rightarrow> cron_db \<Rightarrow> (rstr, CronJob) result \<times> cron_db" where
  "cron_save L W new_id workspace_id q now db =
     (case rbind (CronPlan_validate L (sv_expression q) (sv_timezone q)) (\<lambda>plan.
           rbind (map_err (\<lambda>_. identifier_error ''workspace_id'') (validate_identifier workspace_id)) (\<lambda>_.
           rbind (map_err (\<lambda>_. identifier_error ''agent_id'') (validate_identifier (sv_agent_id q))) (\<lambda>_.
           rbind (ok_or (str ''schedule Agent profile was not found'') (cw_profile W workspace_id (sv_agent_id q))) (\<lambda>profile_enabled.
           rbind (ensure (\<not> (sv_enabled q \<and> \<not> profile_enabled)) (str ''enable the selected Agent before enabling its schedule'')) (\<lambda>_.
           rbind (ensure (\<not> (trim (sv_prompt q) = [] \<or> 64 * 1024 < str_len (sv_prompt q))) (str ''schedule prompt must contain 1 to 65536 bytes'')) (\<lambda>_.
           save_transaction L W new_id workspace_id q plan now db)))))) of
        Inl e \<Rightarrow> (Inl e, db)
      | Inr (i, db') \<Rightarrow> (find_job W db' workspace_id i (str ''saved schedule could not be read''), db'))"

definition cron_delete :: "cron_world \<Rightarrow> rstr \<Rightarrow> rstr \<Rightarrow> cron_db \<Rightarrow> (rstr, unit) result \<times> cron_db" where
  "cron_delete W workspace_id i db =
     (if list_ex (is_job workspace_id i) (cd_jobs db)
      then (Inr (), cancel_unstarted W workspace_id i ''schedule_deleted'' (db\<lparr>cd_jobs := filter (\<lambda>j. \<not> is_job workspace_id i j) (cd_jobs db)\<rparr>))
      else (Inl (str ''schedule was not found''), db))"

definition check_enable :: "cron_world \<Rightarrow> rstr \<Rightarrow> bool \<Rightarrow> cron_row \<Rightarrow> (rstr, unit) result" where
  "check_enable W workspace_id enabled j =
     (case cj_conversation_id j of
        Some c \<Rightarrow>
          if enabled
          then rbind (ensure (cw_profile W workspace_id (cj_agent_id j) = Some True) (str ''schedule Agent is missing or disabled'')) (\<lambda>_.
            ensure (cw_conversation W workspace_id c) (str ''schedule conversation was deleted or archived''))
          else Inr ()
      | None \<Rightarrow> Inr ())"

definition cron_set_enabled :: "cron_lib \<Rightarrow> cron_world \<Rightarrow> rstr \<Rightarrow> rstr \<Rightarrow> bool \<Rightarrow> int \<Rightarrow> cron_db \<Rightarrow> (rstr, unit) result \<times> cron_db" where
  "cron_set_enabled L W workspace_id i enabled now db =
     (case rbind (ok_or (str ''schedule was not found'') (find (is_job workspace_id i) (cd_jobs db))) (\<lambda>j.
           rbind (check_enable W workspace_id enabled j) (\<lambda>_.
           rbind (CronPlan_validate L (cj_expression j) (cj_timezone j)) (\<lambda>plan. next_after L plan now))) of
        Inl e \<Rightarrow> (Inl e, db)
      | Inr slot \<Rightarrow>
          (let db = db\<lparr>cd_jobs := map (\<lambda>j. if is_job workspace_id i j then j\<lparr>cj_enabled := enabled, cj_next_run_at_utc := cr_show L slot\<rparr> else j) (cd_jobs db)\<rparr> in
           (Inr (), if enabled then db else cancel_unstarted W workspace_id i ''schedule_disabled'' db)))"

definition cron_schedule :: "cron_lib \<Rightarrow> cron_world \<Rightarrow> rstr \<Rightarrow> rstr \<Rightarrow> rstr \<Rightarrow> rstr \<Rightarrow> rstr \<Rightarrow> rstr \<Rightarrow> bool \<Rightarrow> bool \<Rightarrow> int \<Rightarrow> cron_db
    \<Rightarrow> (rstr, CronJob) result \<times> cron_db" where
  "cron_schedule L W new_id workspace_id expression timezone prompt identity recurring durable now db =
     (case rbind (CronPlan_validate L expression timezone) (\<lambda>plan.
           rbind (ensure (\<not> (trim workspace_id = [] \<or> trim identity = [] \<or> trim prompt = [])) (str ''workspace, identity and prompt are required'')) (\<lambda>_.
           rbind (next_after L plan now) (\<lambda>slot.
           insert_job \<lparr>cj_id = new_id, cj_workspace_id = workspace_id, cj_expression = pl_expression plan, cj_timezone = pl_timezone plan, cj_prompt = prompt,
             cj_identity = identity, cj_recurring = recurring, cj_durable = durable, cj_enabled = True, cj_conversation_id = None,
             cj_agent_id = str ''master'', cj_next_run_at_utc = cr_show L slot, cj_last_slot_at_utc = None\<rparr> db))) of
        Inl e \<Rightarrow> (Inl e, db)
      | Inr db' \<Rightarrow> (find_job W db' workspace_id new_id (str ''scheduled job could not be read''), db'))"

section \<open>The tick\<close>

definition due_jobs :: "cron_lib \<Rightarrow> cron_world \<Rightarrow> cron_db \<Rightarrow> rstr \<Rightarrow> int \<Rightarrow> nat \<Rightarrow> cron_row list" where
  "due_jobs L W db workspace_id now capacity =
     take capacity (filter (\<lambda>j. cj_enabled j \<and> (case cr_instant L (cj_next_run_at_utc j) of None \<Rightarrow> False | Some slot \<Rightarrow> slot \<le> now))
       (map jb_row (list_jobs W db workspace_id)))"

definition event_of :: "rstr \<Rightarrow> rstr \<Rightarrow> cron_row \<Rightarrow> outbox_row" where
  "event_of event_id workspace_id j =
     \<lparr>ob_event_id = event_id, ob_workspace_id = workspace_id, ob_job_id = cj_id j, ob_slot_at_utc = cj_next_run_at_utc j, ob_identity = cj_identity j,
      ob_prompt = cj_prompt j, ob_conversation_id = cj_conversation_id j, ob_agent_id = cj_agent_id j, ob_run_id = None, ob_error_message = None,
      ob_acknowledged = False\<rparr>"

text \<open>\<open>INSERT OR IGNORE\<close>: a row that would break a unique constraint is not inserted.\<close>

definition insert_or_ignore :: "outbox_row \<Rightarrow> outbox_row list \<Rightarrow> bool \<times> outbox_row list" where
  "insert_or_ignore r rows =
     (if list_ex (\<lambda>q. ob_event_id q = ob_event_id r \<or> ob_workspace_id q = ob_workspace_id r \<and> ob_job_id q = ob_job_id r \<and> ob_slot_at_utc q = ob_slot_at_utc r) rows
      then (False, rows) else (True, rows @ [r]))"

text \<open>The \<open>n\<close>-th fresh id of the transaction is \<open>new_id n\<close>.\<close>

fun tick_loop :: "cron_lib \<Rightarrow> rstr \<Rightarrow> int \<Rightarrow> (nat \<Rightarrow> rstr) \<Rightarrow> nat \<Rightarrow> cron_row list \<Rightarrow> cron_db \<Rightarrow> (rstr, outbox_row list \<times> cron_db) result" where
  "tick_loop L workspace_id now new_id n [] db = Inr ([], db)"
| "tick_loop L workspace_id now new_id n (j # js) db =
     (let event = event_of (new_id n) workspace_id j;
          (inserted, rows) = insert_or_ignore event (cd_outbox db) in
      rbind (CronPlan_validate L (cj_expression j) (cj_timezone j)) (\<lambda>plan.
      rbind (next_after L plan now) (\<lambda>slot.
      rbind (tick_loop L workspace_id now new_id (n + 1) js
        (db\<lparr>cd_outbox := rows,
            cd_jobs := map (\<lambda>k. if is_job workspace_id (cj_id j) k
              then k\<lparr>cj_last_slot_at_utc := Some (cj_next_run_at_utc j), cj_next_run_at_utc := cr_show L slot, cj_enabled := cj_recurring j\<rparr> else k) (cd_jobs db)\<rparr>)) (\<lambda>(events, db).
      Inr (if inserted then event # events else events, db)))))"

definition cron_tick :: "cron_lib \<Rightarrow> cron_world \<Rightarrow> rstr \<Rightarrow> int \<Rightarrow> (nat \<Rightarrow> rstr) \<Rightarrow> nat \<Rightarrow> cron_db \<Rightarrow> (rstr, outbox_row list) result \<times> cron_db" where
  "cron_tick L W workspace_id now new_id capacity db =
     (case tick_loop L workspace_id now new_id 0 (due_jobs L W db workspace_id now capacity) db of
        Inl e \<Rightarrow> (Inl e, db)
      | Inr (events, db') \<Rightarrow> (Inr events, db'))"

section \<open>The outbox\<close>

definition cron_pending :: "cron_db \<Rightarrow> rstr \<Rightarrow> outbox_row list" where
  "cron_pending db workspace_id =
     sort_by (\<lambda>a b. ob_slot_at_utc a < ob_slot_at_utc b \<or> ob_slot_at_utc a = ob_slot_at_utc b \<and> ob_event_id a \<le> ob_event_id b)
       (filter (\<lambda>r. ob_workspace_id r = workspace_id \<and> \<not> ob_acknowledged r) (cd_outbox db))"

definition open_event :: "rstr \<Rightarrow> rstr \<Rightarrow> outbox_row \<Rightarrow> bool" where
  "open_event workspace_id event_id r \<longleftrightarrow> ob_workspace_id r = workspace_id \<and> ob_event_id r = event_id \<and> \<not> ob_acknowledged r"

definition update_event :: "rstr \<Rightarrow> rstr \<Rightarrow> (outbox_row \<Rightarrow> outbox_row) \<Rightarrow> cron_db \<Rightarrow> cron_db" where
  "update_event workspace_id event_id f db =
     db\<lparr>cd_outbox := map (\<lambda>r. if open_event workspace_id event_id r then f r else r) (cd_outbox db)\<rparr>"

text \<open>\<open>run_id\<close> is unique in a workspace.\<close>

definition run_taken :: "rstr \<Rightarrow> rstr \<Rightarrow> cron_db \<Rightarrow> bool" where
  "run_taken workspace_id event_id db \<longleftrightarrow>
     list_ex (\<lambda>r. ob_workspace_id r = workspace_id \<and> ob_run_id r = Some event_id \<and> ob_event_id r \<noteq> event_id) (cd_outbox db)"

definition reserve_run :: "rstr \<Rightarrow> rstr \<Rightarrow> cron_db \<Rightarrow> (rstr, rstr) result \<times> cron_db" where
  "reserve_run workspace_id event_id db =
     (if run_taken workspace_id event_id db \<and> list_ex (\<lambda>r. open_event workspace_id event_id r \<and> ob_run_id r = None) (cd_outbox db)
      then (Inl (str ''UNIQUE constraint failed: cron_outbox.workspace_id, cron_outbox.run_id''), db)
      else
        (let db = update_event workspace_id event_id (\<lambda>r. if ob_run_id r = None then r\<lparr>ob_run_id := Some event_id\<rparr> else r) db in
         (ok_or (str ''Query returned no rows'') (Option.bind (find (open_event workspace_id event_id) (cd_outbox db)) ob_run_id), db)))"

definition record_error :: "(rstr \<Rightarrow> rstr) \<Rightarrow> rstr \<Rightarrow> rstr \<Rightarrow> rstr \<Rightarrow> cron_db \<Rightarrow> cron_db" where
  "record_error redact workspace_id event_id error db =
     update_event workspace_id event_id (\<lambda>r. r\<lparr>ob_error_message := Some (take 2000 (redact error)), ob_acknowledged := True\<rparr>) db"

definition cron_acknowledge :: "rstr \<Rightarrow> rstr \<Rightarrow> cron_db \<Rightarrow> bool \<times> cron_db" where
  "cron_acknowledge workspace_id event_id db =
     (list_ex (open_event workspace_id event_id) (cd_outbox db), update_event workspace_id event_id (\<lambda>r. r\<lparr>ob_acknowledged := True\<rparr>) db)"

end
