(* ===== verification/Cron_Properties.thy ===== *)
theory Cron_Properties
  imports Cron
begin

text \<open>What the schedules promise: every slot of a job is emitted at most once, and an event is started under one run.\<close>

section \<open>The operations as steps\<close>

datatype cron_op =
    OpSave rstr rstr SaveAgentSchedule int
  | OpDelete rstr rstr
  | OpSetEnabled rstr rstr bool int
  | OpSchedule rstr rstr rstr rstr rstr rstr bool bool int
  | OpTick rstr int "nat \<Rightarrow> rstr" nat
  | OpReserve rstr rstr
  | OpRecordError rstr rstr rstr
  | OpAcknowledge rstr rstr

text \<open>The world may change between operations; the events of the ticks so far are kept beside the database.\<close>

type_synonym cron_state = "outbox_row list \<times> cron_db"

fun cron_step :: "cron_lib \<Rightarrow> (rstr \<Rightarrow> rstr) \<Rightarrow> cron_state \<Rightarrow> cron_world \<times> cron_op \<Rightarrow> cron_state" where
  "cron_step L redact (out, db) (W, OpSave i w q now) = (out, snd (cron_save L W i w q now db))"
| "cron_step L redact (out, db) (W, OpDelete w i) = (out, snd (cron_delete W w i db))"
| "cron_step L redact (out, db) (W, OpSetEnabled w i b now) = (out, snd (cron_set_enabled L W w i b now db))"
| "cron_step L redact (out, db) (W, OpSchedule i w e z p d r u now) = (out, snd (cron_schedule L W i w e z p d r u now db))"
| "cron_step L redact (out, db) (W, OpTick w now new_id c) =
     (case cron_tick L W w now new_id c db of (Inl e, db') \<Rightarrow> (out, db') | (Inr events, db') \<Rightarrow> (out @ events, db'))"
| "cron_step L redact (out, db) (W, OpReserve w e) = (out, snd (reserve_run w e db))"
| "cron_step L redact (out, db) (W, OpRecordError w e t) = (out, record_error redact w e t db)"
| "cron_step L redact (out, db) (W, OpAcknowledge w e) = (out, snd (cron_acknowledge w e db))"

definition slot_key :: "outbox_row \<Rightarrow> rstr \<times> rstr \<times> rstr" where
  "slot_key r = (ob_workspace_id r, ob_job_id r, ob_slot_at_utc r)"

text \<open>The unique constraints hold, a reserved run is the event's own id, and what was emitted stays recorded.\<close>

definition cron_inv :: "cron_state \<Rightarrow> bool" where
  "cron_inv st \<longleftrightarrow> outbox_keys (cd_outbox (snd st)) \<and> (\<forall>r \<in> set (cd_outbox (snd st)). ob_run_id r \<in> {None, Some (ob_event_id r)})
     \<and> distinct (map slot_key (fst st)) \<and> slot_key ` set (fst st) \<subseteq> slot_key ` set (cd_outbox (snd st))"

text \<open>A change of the outbox that keeps what identifies its rows.\<close>

definition same_rows :: "outbox_row list \<Rightarrow> outbox_row list \<Rightarrow> bool" where
  "same_rows old new \<longleftrightarrow> map ob_event_id new = map ob_event_id old \<and> map slot_key new = map slot_key old
     \<and> ((\<forall>r \<in> set old. ob_run_id r \<in> {None, Some (ob_event_id r)}) \<longrightarrow> (\<forall>r \<in> set new. ob_run_id r \<in> {None, Some (ob_event_id r)}))"

lemma slot_key_fun: "slot_key = (\<lambda>r. (ob_workspace_id r, ob_job_id r, ob_slot_at_utc r))"
  by (rule ext) (simp add: slot_key_def)

lemma outbox_keys_slot: "outbox_keys rows \<longleftrightarrow> distinct (map ob_event_id rows) \<and> distinct (map slot_key rows)"
  by (simp add: outbox_keys_def slot_key_fun)

lemma same_rows_inv: "cron_inv (out, db) \<Longrightarrow> same_rows (cd_outbox db) (cd_outbox db') \<Longrightarrow> cron_inv (out, db')"
proof -
  assume i: "cron_inv (out, db)" and s: "same_rows (cd_outbox db) (cd_outbox db')"
  then have "slot_key ` set (cd_outbox db') = slot_key ` set (cd_outbox db)" unfolding same_rows_def by (metis list.set_map)
  then show ?thesis using i s unfolding cron_inv_def same_rows_def outbox_keys_slot by auto
qed

lemma same_rows_refl [simp]: "same_rows rows rows"
  by (simp add: same_rows_def)

lemma same_rows_map:
  assumes "\<And>r. ob_event_id (f r) = ob_event_id r \<and> slot_key (f r) = slot_key r \<and> (ob_run_id (f r) = ob_run_id r \<or> ob_run_id (f r) = Some (ob_event_id r))"
  shows "same_rows rows (map f rows)"
  using assms unfolding same_rows_def by (auto simp: comp_def) metis

lemma cancel_same: "same_rows (cd_outbox db) (cd_outbox (cancel_unstarted W w i why (db\<lparr>cd_jobs := js\<rparr>)))"
  unfolding cancel_unstarted_def by (simp, rule same_rows_map) (simp add: slot_key_def)

lemma update_event_same:
  assumes "\<And>r. open_event w e r \<Longrightarrow> ob_event_id (f r) = ob_event_id r \<and> slot_key (f r) = slot_key r \<and> (ob_run_id (f r) = ob_run_id r \<or> ob_run_id (f r) = Some (ob_event_id r))"
  shows "same_rows (cd_outbox db) (cd_outbox (update_event w e f db))"
  unfolding update_event_def by (simp, rule same_rows_map) (use assms in auto)

lemma insert_job_same: "insert_job j db = Inr db' \<Longrightarrow> cd_outbox db' = cd_outbox db"
  by (auto simp: insert_job_def split: if_splits)

lemma save_same: "same_rows (cd_outbox db) (cd_outbox (snd (cron_save L W i w q now db)))"
proof -
  have "same_rows (cd_outbox db) (cd_outbox db')" if "save_transaction L W i w q plan now db = Inr (k, db')" for plan k db'
    using that insert_job_same by (auto simp: save_transaction_def rbind_Inr cancel_same split: option.splits if_splits)
  then show ?thesis unfolding cron_save_def by (auto simp: rbind_Inr split: sum.split)
qed

lemma delete_same: "same_rows (cd_outbox db) (cd_outbox (snd (cron_delete W w i db)))"
  by (simp add: cron_delete_def cancel_same)

lemma set_enabled_same: "same_rows (cd_outbox db) (cd_outbox (snd (cron_set_enabled L W w i b now db)))"
  by (auto simp: cron_set_enabled_def Let_def cancel_same split: sum.split)

lemma schedule_same: "same_rows (cd_outbox db) (cd_outbox (snd (cron_schedule L W i w e z p d r u now db)))"
  using insert_job_same by (fastforce simp: cron_schedule_def rbind_Inr split: sum.split)

lemma reserve_same: "same_rows (cd_outbox db) (cd_outbox (snd (reserve_run w e db)))"
  unfolding reserve_run_def Let_def by (auto intro!: update_event_same simp: slot_key_def open_event_def split: if_split_asm)

lemma record_error_same: "same_rows (cd_outbox db) (cd_outbox (record_error redact w e t db))"
  unfolding record_error_def by (rule update_event_same) (simp add: slot_key_def)

lemma acknowledge_same: "same_rows (cd_outbox db) (cd_outbox (snd (cron_acknowledge w e db)))"
  unfolding cron_acknowledge_def snd_conv by (rule update_event_same) (simp add: slot_key_def)

section \<open>The tick\<close>

lemma tick_loop_inv:
  "tick_loop L w now new_id n js db = Inr (events, db') \<Longrightarrow> cron_inv (out, db) \<Longrightarrow> cron_inv (out @ events, db')"
proof (induction js arbitrary: n db events out)
  case (Cons j js)
  let ?e = "event_of (new_id n) w j"
  obtain inserted rows where ins: "insert_or_ignore ?e (cd_outbox db) = (inserted, rows)" by (cases "insert_or_ignore ?e (cd_outbox db)")
  define jobs where "jobs slot = map (\<lambda>k. if is_job w (cj_id j) k then k\<lparr>cj_last_slot_at_utc := Some (cj_next_run_at_utc j), cj_next_run_at_utc := cr_show L slot,
      cj_enabled := cj_recurring j\<rparr> else k) (cd_jobs db)" for slot
  obtain slot more_events where t: "tick_loop L w now new_id (n + 1) js (db\<lparr>cd_outbox := rows, cd_jobs := jobs slot\<rparr>) = Inr (more_events, db')"
    and e: "events = (if inserted then ?e # more_events else more_events)"
    using Cons.prems(1) by (auto simp: ins Let_def rbind_Inr jobs_def)
  show ?case
  proof (cases inserted)
    case True
    then have r: "rows = cd_outbox db @ [?e]" "slot_key ?e \<notin> slot_key ` set (cd_outbox db)" "ob_event_id ?e \<notin> ob_event_id ` set (cd_outbox db)"
      using ins by (auto simp: insert_or_ignore_def list_ex_iff slot_key_def split: if_splits)
    have "cron_inv (out @ [?e], db\<lparr>cd_outbox := rows, cd_jobs := jobs slot\<rparr>)"
      using Cons.prems(2) r unfolding cron_inv_def outbox_keys_slot by (auto simp: event_of_def)
    then have "cron_inv ((out @ [?e]) @ more_events, db')" by (rule Cons.IH [OF t])
    then show ?thesis using e True by simp
  next
    case False
    then have "rows = cd_outbox db" using ins by (auto simp: insert_or_ignore_def split: if_splits)
    then have "cron_inv (out, db\<lparr>cd_outbox := rows, cd_jobs := jobs slot\<rparr>)" using Cons.prems(2) by (simp add: cron_inv_def)
    then show ?thesis using Cons.IH [OF t] e False by simp
  qed
qed simp

lemma cron_step_inv: "cron_inv st \<Longrightarrow> cron_inv (cron_step L redact st a)"
proof -
  assume i: "cron_inv st"
  obtain out db W op where st: "st = (out, db)" "a = (W, op)" by (metis surj_pair)
  note inv = same_rows_inv [OF i [unfolded st]]
  show ?thesis
  proof (cases op)
    case (OpTick w now new_id c)
    then show ?thesis using i tick_loop_inv [of L w now new_id 0 "due_jobs L W db w now c" db]
      by (auto simp: st cron_tick_def split: sum.splits)
  qed (simp_all add: st inv save_same delete_same set_enabled_same schedule_same reserve_same record_error_same acknowledge_same)
qed

interpretation cron: invariant_system "cron_step L redact" cron_inv "\<lambda>_. True" for L redact
  by unfold_locales (rule cron_step_inv)

lemma cron_empty: "cron_inv ([], \<lparr>cd_jobs = [], cd_outbox = []\<rparr>)"
  by (simp add: cron_inv_def outbox_keys_def)

section \<open>Properties\<close>

text \<open>C38. Whatever is saved, deleted, enabled, acknowledged or started in between and whatever the clock shows, the ticks never emit the same slot
  of the same job twice.\<close>

theorem cron_slots_emitted_once:
  "distinct (map (\<lambda>r. (ob_workspace_id r, ob_job_id r, ob_slot_at_utc r)) (fst (foldl (cron_step L redact) ([], \<lparr>cd_jobs = [], cd_outbox = []\<rparr>) ops)))"
  using cron.inv_run [OF cron_empty, of ops L redact] by (simp add: cron_inv_def slot_key_fun list_all_iff)

text \<open>Reserving the run of a pending event gives the event's own id, and reserving it again after a crash gives the same id and changes nothing.\<close>

theorem reserve_run_stable:
  assumes inv: "cron_inv (out, db)" and first: "reserve_run w e db = (Inr r, db')"
  shows "r = e \<and> reserve_run w e db' = (Inr e, db')"
proof -
  let ?f = "\<lambda>r. if ob_run_id r = None then r\<lparr>ob_run_id := Some e\<rparr> else r"
  let ?g = "\<lambda>r. if open_event w e r then ?f r else r"
  have db': "db' = update_event w e ?f db" and found: "Option.bind (find (open_event w e) (cd_outbox db')) ob_run_id = Some r"
    using first by (auto simp: reserve_run_def Let_def ok_or_def split: if_splits option.splits)
  have rows: "cd_outbox db' = map ?g (cd_outbox db)" by (simp add: db' update_event_def)
  have own: "ob_run_id x = Some e" if member: "x \<in> set (cd_outbox db')" and pending: "open_event w e x" for x
  proof -
    obtain y where y: "y \<in> set (cd_outbox db)" "x = ?g y" using member unfolding rows set_map by blast
    have "ob_run_id y \<in> {None, Some (ob_event_id y)}" using inv y(1) by (simp add: cron_inv_def)
    then show ?thesis using pending y(2) by (cases "ob_run_id y"; cases "open_event w e y") (auto simp: open_event_def)
  qed
  obtain x where x: "find (open_event w e) (cd_outbox db') = Some x" "ob_run_id x = Some r" using found by (auto simp: bind_eq_Some_conv)
  have "r = e" using own find_Some_split [OF x(1)] x(2) by auto
  moreover have "map (\<lambda>r. if open_event w e r then ?f r else r) (cd_outbox db') = cd_outbox db'"
    by (rule map_idI) (use own in auto)
  then have "update_event w e ?f db' = db'" by (simp add: update_event_def)
  moreover have "\<not> list_ex (\<lambda>r. open_event w e r \<and> ob_run_id r = None) (cd_outbox db')" using own by (auto simp: list_ex_iff)
  ultimately show ?thesis using x found by (simp add: reserve_run_def Let_def ok_or_def)
qed

definition one_event :: cron_db where
  "one_event = \<lparr>cd_jobs = [], cd_outbox = [\<lparr>ob_event_id = str ''e'', ob_workspace_id = str ''w'', ob_job_id = str ''j'', ob_slot_at_utc = str ''t'',
     ob_identity = str ''i'', ob_prompt = str ''p'', ob_conversation_id = None, ob_agent_id = str ''a'', ob_run_id = None, ob_error_message = None, ob_acknowledged = False\<rparr>]\<rparr>"

theorem reserve_run_stable_witness:
  "reserve_run (str ''w'') (str ''e'') (snd (reserve_run (str ''w'') (str ''e'') one_event)) = (Inr (str ''e''), snd (reserve_run (str ''w'') (str ''e'') one_event))"
proof -
  have "cron_inv ([], one_event)" by (simp add: cron_inv_def outbox_keys_def one_event_def)
  moreover have "reserve_run (str ''w'') (str ''e'') one_event = (Inr (str ''e''), snd (reserve_run (str ''w'') (str ''e'') one_event))"
    by (simp add: reserve_run_def one_event_def run_taken_def open_event_def update_event_def ok_or_def Let_def)
  ultimately show ?thesis by (rule reserve_run_stable [THEN conjunct2])
qed

text \<open>A tick that fails on one job, and any other operation that fails, leaves the tables as they were.\<close>

lemma cron_failure_changes_nothing:
  "(fst (cron_tick L W w now new_id c db) = Inl e \<longrightarrow> snd (cron_tick L W w now new_id c db) = db)
   \<and> (fst (cron_delete W w i db) = Inl e \<longrightarrow> snd (cron_delete W w i db) = db)
   \<and> (fst (cron_set_enabled L W w i b now db) = Inl e \<longrightarrow> snd (cron_set_enabled L W w i b now db) = db)"
  by (auto simp: cron_tick_def cron_delete_def cron_set_enabled_def Let_def split: sum.splits prod.splits if_splits)

section \<open>Weekdays\<close>

text \<open>Unix numbers the days from Sunday, 0 or 7; the cron library from Sunday, 1.\<close>

lemma weekday_number: "d \<le> 7 \<Longrightarrow> normalize_weekday (show_nat d) = Inr (show_nat (d mod 7 + 1))"
proof -
  assume d: "d \<le> 7"
  then have s: "show_nat d = [48 + d]" by (simp add: show_nat.simps)
  then have p: "parse_uint u8_max (show_nat d) = Some d" by (use d s in \<open>simp add: parse_uint_def u8_max_def digits_value_def is_ascii_digit_def\<close>)
  have "show_nat d \<noteq> str ''*''" using d s by (simp add: str_def)
  moreover have "(if d = 0 \<or> d = 7 then 1 else d + 1) = d mod 7 + 1" using d by auto
  ultimately show ?thesis using d p by (simp add: normalize_weekday_def)
qed

text \<open>A range of weekdays that ends on Sunday written 7, Friday to Sunday in Unix numbers, is translated to the range from 6 to 1.\<close>

theorem weekday_range_reversed: "normalize_weekday_part (str ''5-7'') = Inr (str ''6-1'')"
proof -
  have "normalize_weekday (show_nat 5) = Inr (show_nat 6)" "normalize_weekday (show_nat 7) = Inr (show_nat 1)"
    using weekday_number [of 5] weekday_number [of 7] by simp_all
  moreover have "split_on 47 (str ''5-7'') = [str ''5-7'']" "split_on 45 (str ''5-7'') = [show_nat 5, show_nat 7]" by (simp_all add: str_def show_nat.simps)
  ultimately show ?thesis by (simp add: normalize_weekday_part_def str_def show_nat.simps)
qed

end
