(* ===== verification/Mailbox.thy ===== *)
theory Mailbox
  imports Agent_Protocol
begin

text \<open>
  The mailbox of background agents (\<open>tasks/mailbox.rs\<close>): a message is a file that moves between the folders \<open>ready\<close>,
  \<open>processing\<close>, \<open>done\<close> and \<open>quarantine\<close> of its recipient by atomic renames.  The file system is the association of
  recipient, folder and file name with a content; any of its operations may fail with a message, as the argument \<open>fails\<close>
  decides.  \<open>Uuid::parse_str\<close> is the parameter \<open>parse_uuid\<close>, which gives the text of the id as it is printed.
\<close>

section \<open>Messages and files\<close>

datatype MailboxMessageKind = TaskMail | MessageMail | ResultMail

record MailboxMessage =
  mm_id :: uuid
  mm_sender :: rstr
  mm_recipient :: rstr
  mm_kind :: MailboxMessageKind
  mm_content :: rstr

text \<open>A file that is not the JSON of a message carries the decoder's error.\<close>

datatype mail_file = Mail MailboxMessage | Junk rstr

type_synonym mail_key = "rstr \<times> rstr \<times> rstr"

type_synonym mailbox = "(mail_key \<times> mail_file) list"

datatype fs_op = FsCreate | FsList | FsRename rstr | FsQuarantine | FsRead | FsWrite | FsInstall

type_synonym failures = "fs_op \<Rightarrow> rstr option"

definition put_file :: "mail_key \<Rightarrow> mail_file \<Rightarrow> mailbox \<Rightarrow> mailbox" where
  "put_file k f m = filter (\<lambda>e. fst e \<noteq> k) m @ [(k, f)]"

definition delete_file :: "mail_key \<Rightarrow> mailbox \<Rightarrow> mailbox" where
  "delete_file k m = filter (\<lambda>e. fst e \<noteq> k) m"

text \<open>\<open>fs::rename\<close> replaces the target.\<close>

definition rename_file :: "failures \<Rightarrow> fs_op \<Rightarrow> mail_key \<Rightarrow> mail_key \<Rightarrow> mailbox \<Rightarrow> (rstr, unit) result \<times> mailbox" where
  "rename_file fails op from to m =
     (case fails op of
        Some e \<Rightarrow> (Inl e, m)
      | None \<Rightarrow>
          (case map_of m from of
             None \<Rightarrow> (Inl (str ''No such file or directory''), m)
           | Some f \<Rightarrow> (Inr (), put_file to f (delete_file from m))))"

definition json_name :: "uuid \<Rightarrow> rstr" where
  "json_name i = i @ str ''.json''"

definition mail_path :: "rstr \<Rightarrow> string \<Rightarrow> uuid \<Rightarrow> mail_key" where
  "mail_path recipient folder i = (recipient, str folder, json_name i)"

definition file_exists :: "mail_key \<Rightarrow> mailbox \<Rightarrow> bool" where
  "file_exists k m \<longleftrightarrow> map_of m k \<noteq> None"

text \<open>\<open>extension() == Some("json")\<close> and \<open>file_stem()\<close>.\<close>

definition has_json_extension :: "rstr \<Rightarrow> bool" where
  "has_json_extension name \<longleftrightarrow> ends_with (str ''.json'') name \<and> 5 < length name"

definition file_stem :: "rstr \<Rightarrow> rstr" where
  "file_stem name = take (length name - 5) name"

definition names_in :: "rstr \<Rightarrow> string \<Rightarrow> mailbox \<Rightarrow> rstr list" where
  "names_in recipient folder m =
     map (\<lambda>e. snd (snd (fst e))) (filter (\<lambda>e. fst (fst e) = recipient \<and> fst (snd (fst e)) = str folder \<and> has_json_extension (snd (snd (fst e)))) m)"

section \<open>Helpers\<close>

definition validate_recipient :: "rstr \<Rightarrow> (rstr, unit) result" where
  "validate_recipient v =
     ensure (\<not> (v = [] \<or> \<not> bytes_all (\<lambda>b. is_ascii_lowercase b \<or> is_ascii_digit b \<or> b = 45) v \<or> starts_with [45] v \<or> ends_with [45] v))
       (str ''invalid mailbox recipient: '' @ v)"

definition validate_message :: "MailboxMessage \<Rightarrow> (rstr, unit) result" where
  "validate_message m =
     rbind (validate_recipient (mm_sender m)) (\<lambda>_.
     rbind (validate_recipient (mm_recipient m)) (\<lambda>_.
     ensure (mm_content m \<noteq> []) (str ''mailbox message content must not be empty'')))"

definition ensure_recipient :: "failures \<Rightarrow> rstr \<Rightarrow> (rstr, unit) result" where
  "ensure_recipient fails recipient =
     rbind (validate_recipient recipient) (\<lambda>_.
     case fails FsCreate of None \<Rightarrow> Inr () | Some e \<Rightarrow> Inl (str ''create mailbox directory failed: '' @ e))"

definition first_message :: "failures \<Rightarrow> rstr \<Rightarrow> string \<Rightarrow> mailbox \<Rightarrow> (rstr, rstr option) result" where
  "first_message fails recipient folder m =
     (case fails FsList of
        Some e \<Rightarrow> Inl (str ''read mailbox failed: '' @ e)
      | None \<Rightarrow> Inr (case sort_by (\<le>) (names_in recipient folder m) of [] \<Rightarrow> None | name # _ \<Rightarrow> Some name))"

definition parse_id :: "(rstr \<Rightarrow> (rstr, uuid) result) \<Rightarrow> rstr \<Rightarrow> (rstr, uuid) result" where
  "parse_id parse_uuid name = map_err (\<lambda>e. str ''invalid mailbox filename: '' @ e) (parse_uuid (file_stem name))"

definition read_message :: "failures \<Rightarrow> mail_key \<Rightarrow> mailbox \<Rightarrow> (rstr, MailboxMessage) result" where
  "read_message fails k m =
     (case fails FsRead of
        Some e \<Rightarrow> Inl (str ''read mailbox message failed: '' @ e)
      | None \<Rightarrow>
          (case map_of m k of
             None \<Rightarrow> Inl (str ''read mailbox message failed: No such file or directory'')
           | Some (Junk e) \<Rightarrow> Inl (str ''decode mailbox message failed: '' @ e)
           | Some (Mail msg) \<Rightarrow> Inr msg))"

text \<open>The temporary file stays behind when it cannot be installed.\<close>

definition write_atomically :: "failures \<Rightarrow> rstr \<Rightarrow> MailboxMessage \<Rightarrow> mailbox \<Rightarrow> (rstr, unit) result \<times> mailbox" where
  "write_atomically fails recipient msg m =
     (let temporary = (recipient, str ''ready'', json_name (mm_id msg) @ str ''.tmp'') in
      case fails FsWrite of
        Some e \<Rightarrow> (Inl (str ''write mailbox message failed: '' @ e), m)
      | None \<Rightarrow>
          (case rename_file fails FsInstall temporary (mail_path recipient ''ready'' (mm_id msg)) (put_file temporary (Mail msg) m) of
             (Inl e, m') \<Rightarrow> (Inl (str ''install mailbox message failed: '' @ e), m')
           | (Inr _, m') \<Rightarrow> (Inr (), m')))"

section \<open>Operations\<close>

definition send :: "failures \<Rightarrow> MailboxMessage \<Rightarrow> mailbox \<Rightarrow> (rstr, unit) result \<times> mailbox" where
  "send fails msg m =
     (case rbind (validate_message msg) (\<lambda>_. ensure_recipient fails (mm_recipient msg)) of
        Inl e \<Rightarrow> (Inl e, m)
      | Inr _ \<Rightarrow>
          if file_exists (mail_path (mm_recipient msg) ''ready'' (mm_id msg)) m \<or> file_exists (mail_path (mm_recipient msg) ''processing'' (mm_id msg)) m
             \<or> file_exists (mail_path (mm_recipient msg) ''done'' (mm_id msg)) m
          then (Inl (str ''mailbox message id already exists: '' @ mm_id msg), m)
          else write_atomically fails (mm_recipient msg) msg m)"

definition claim :: "(rstr \<Rightarrow> (rstr, uuid) result) \<Rightarrow> failures \<Rightarrow> rstr \<Rightarrow> mailbox \<Rightarrow> (rstr, MailboxMessage option) result \<times> mailbox" where
  "claim parse_uuid fails recipient m =
     (case rbind (ensure_recipient fails recipient) (\<lambda>_. first_message fails recipient ''ready'' m) of
        Inl e \<Rightarrow> (Inl e, m)
      | Inr None \<Rightarrow> (Inr None, m)
      | Inr (Some name) \<Rightarrow>
          (case parse_id parse_uuid name of
             Inl e \<Rightarrow> (Inl e, m)
           | Inr i \<Rightarrow>
               (case rename_file fails (FsRename name) (recipient, str ''ready'', name) (mail_path recipient ''processing'' i) m of
                  (Inl e, m') \<Rightarrow> (Inl (str ''claim mailbox message failed: '' @ e), m')
                | (Inr _, m') \<Rightarrow>
                    (case read_message fails (mail_path recipient ''processing'' i) m' of
                       Inr msg \<Rightarrow>
                         if mm_recipient msg = recipient \<and> mm_id msg = i then (Inr (Some msg), m')
                         else (Inr None, snd (rename_file fails FsQuarantine (mail_path recipient ''processing'' i) (mail_path recipient ''quarantine'' i) m'))
                     | Inl _ \<Rightarrow>
                         (Inr None, snd (rename_file fails FsQuarantine (mail_path recipient ''processing'' i) (mail_path recipient ''quarantine'' i) m'))))))"

definition mismatch :: "MailboxMessage \<Rightarrow> rstr" where
  "mismatch msg = str ''mailbox message content mismatch: '' @ mm_id msg"

definition ack :: "failures \<Rightarrow> MailboxMessage \<Rightarrow> mailbox \<Rightarrow> (rstr, bool) result \<times> mailbox" where
  "ack fails msg m =
     (let processing = mail_path (mm_recipient msg) ''processing'' (mm_id msg); finished = mail_path (mm_recipient msg) ''done'' (mm_id msg) in
      case validate_message msg of
        Inl e \<Rightarrow> (Inl e, m)
      | Inr _ \<Rightarrow>
          if file_exists finished m
          then (rbind (read_message fails finished m) (\<lambda>stored. if stored = msg then Inr True else Inl (mismatch msg)), m)
          else if \<not> file_exists processing m then (Inl (str ''mailbox message is not processing: '' @ mm_id msg), m)
          else (case read_message fails processing m of
                  Inl e \<Rightarrow> (Inl e, m)
                | Inr stored \<Rightarrow>
                    if stored \<noteq> msg then (Inl (mismatch msg), m)
                    else (case rename_file fails (FsRename (json_name (mm_id msg))) processing finished m of
                            (Inl e, m') \<Rightarrow> (Inl (str ''ack mailbox message failed: '' @ e), m')
                          | (Inr _, m') \<Rightarrow> (Inr True, m'))))"

definition release :: "failures \<Rightarrow> MailboxMessage \<Rightarrow> mailbox \<Rightarrow> (rstr, unit) result \<times> mailbox" where
  "release fails msg m =
     (let processing = mail_path (mm_recipient msg) ''processing'' (mm_id msg); ready = mail_path (mm_recipient msg) ''ready'' (mm_id msg) in
      case validate_message msg of
        Inl e \<Rightarrow> (Inl e, m)
      | Inr _ \<Rightarrow>
          if file_exists processing m
          then (case rename_file fails (FsRename (json_name (mm_id msg))) processing ready m of
                  (Inl e, m') \<Rightarrow> (Inl (str ''release mailbox message failed: '' @ e), m')
                | (Inr _, m') \<Rightarrow> (Inr (), m'))
          else (Inr (), m))"

text \<open>The loop over the files that the folder held when it was listed; it stops at the first error.\<close>

fun recover_loop :: "(rstr \<Rightarrow> (rstr, uuid) result) \<Rightarrow> failures \<Rightarrow> rstr \<Rightarrow> rstr list \<Rightarrow> nat \<Rightarrow> mailbox \<Rightarrow> (rstr, nat) result \<times> mailbox" where
  "recover_loop parse_uuid fails recipient [] n m = (Inr n, m)"
| "recover_loop parse_uuid fails recipient (name # names) n m =
     (case parse_id parse_uuid name of
        Inl e \<Rightarrow> (Inl e, m)
      | Inr i \<Rightarrow>
          (case rename_file fails (FsRename name) (recipient, str ''processing'', name) (mail_path recipient ''ready'' i) m of
             (Inl e, m') \<Rightarrow> (Inl (str ''recover mailbox message failed: '' @ e), m')
           | (Inr _, m') \<Rightarrow> recover_loop parse_uuid fails recipient names (n + 1) m'))"

definition recover_processing :: "(rstr \<Rightarrow> (rstr, uuid) result) \<Rightarrow> failures \<Rightarrow> rstr \<Rightarrow> mailbox \<Rightarrow> (rstr, nat) result \<times> mailbox" where
  "recover_processing parse_uuid fails recipient m =
     (case ensure_recipient fails recipient of
        Inl e \<Rightarrow> (Inl e, m)
      | Inr _ \<Rightarrow>
          (case fails FsList of
             Some e \<Rightarrow> (Inl (str ''read processing mailbox failed: '' @ e), m)
           | None \<Rightarrow> recover_loop parse_uuid fails recipient (names_in recipient ''processing'' m) 0 m))"

end
