(* ===== verification/Mailbox_Properties.thy ===== *)
theory Mailbox_Properties
  imports Mailbox
begin

text \<open>
  The mailbox as a transition system on files: every operation, whichever of its file operations fail, is a sequence of moves,
  and the moves keep every message in at most one of the folders \<open>ready\<close>, \<open>processing\<close> and \<open>done\<close> and never touch a message
  that is done.
\<close>

section \<open>Files\<close>

lemma put_file_get [simp]: "map_of (put_file k f m) = (map_of m)(k \<mapsto> f)"
proof -
  have "map_of (filter (\<lambda>e. fst e \<noteq> k) m) = (map_of m)(k := None)" by (induction m) auto
  then show ?thesis by (auto simp: put_file_def map_add_def split: option.split)
qed

lemma delete_file_get [simp]: "map_of (delete_file k m) = (map_of m)(k := None)"
  by (induction m) (auto simp: delete_file_def)

lemma rename_file_cases:
  obtains e where "rename_file fails op k l m = (Inl e, m)"
  | f where "map_of m k = Some f" "rename_file fails op k l m = (Inr (), put_file l f (delete_file k m))"
  by (cases "fails op"; cases "map_of m k") (auto simp: rename_file_def)

lemma json_name_stem: "has_json_extension name \<Longrightarrow> name = json_name (file_stem name)"
  by (auto simp: has_json_extension_def ends_with_iff json_name_def file_stem_def)

lemma json_name_inj [simp]: "json_name i = json_name j \<longleftrightarrow> i = j"
  by (simp add: json_name_def)

lemma temporary_name: "\<not> has_json_extension (n @ str ''.tmp'')"
proof
  assume "has_json_extension (n @ str ''.tmp'')"
  then obtain t where "n @ str ''.tmp'' = t @ str ''.json''" by (auto simp: has_json_extension_def ends_with_iff)
  then have "last (n @ str ''.tmp'') = last (t @ str ''.json'')" by (rule arg_cong)
  then show False by (simp add: str_def)
qed

lemma json_name_extension: "i \<noteq> [] \<Longrightarrow> has_json_extension (json_name i)"
  by (auto simp: has_json_extension_def ends_with_iff json_name_def str_def)

lemma stem_json_name [simp]: "file_stem (json_name i) = i"
  by (simp add: file_stem_def json_name_def str_def)

lemma names_in_file: "name \<in> set (names_in r d m) \<Longrightarrow> has_json_extension name \<and> map_of m (r, str d, name) \<noteq> None"
  by (force simp: names_in_def map_of_eq_None_iff)

section \<open>Moves\<close>

inductive mail_step :: "(rstr \<Rightarrow> (rstr, uuid) result) \<Rightarrow> mailbox \<Rightarrow> mailbox \<Rightarrow> bool" for P where
  draft: "\<not> has_json_extension name \<Longrightarrow> map_of m' = (map_of m)((r, d, name) := v) \<Longrightarrow> mail_step P m m'"
| arrive: "P i = Inr i \<Longrightarrow> i \<noteq> [] \<Longrightarrow> map_of m (mail_path r ''ready'' i) = None \<Longrightarrow> map_of m (mail_path r ''processing'' i) = None \<Longrightarrow> map_of m (mail_path r ''done'' i) = None
    \<Longrightarrow> map_of m' = (map_of m)(mail_path r ''ready'' i \<mapsto> f) \<Longrightarrow> mail_step P m m'"
| move: "map_of m (mail_path r src i) = Some f \<Longrightarrow> i \<noteq> [] \<Longrightarrow> (src, dst) \<in> {(''ready'', ''processing''), (''processing'', ''ready''), (''processing'', ''done''), (''processing'', ''quarantine'')}
    \<Longrightarrow> map_of m' = (map_of m)(mail_path r src i := None, mail_path r dst i \<mapsto> f) \<Longrightarrow> mail_step P m m'"

abbreviation mail_steps :: "(rstr \<Rightarrow> (rstr, uuid) result) \<Rightarrow> mailbox \<Rightarrow> mailbox \<Rightarrow> bool" where
  "mail_steps P \<equiv> (mail_step P)\<^sup>*\<^sup>*"

text \<open>A message is in one place; the files of the live folders are named by ids as they are printed.\<close>

definition mail_inv :: "(rstr \<Rightarrow> (rstr, uuid) result) \<Rightarrow> mailbox \<Rightarrow> bool" where
  "mail_inv P m \<longleftrightarrow>
     (\<forall>r i. i \<noteq> [] \<longrightarrow> length (filter (\<lambda>d. map_of m (mail_path r d i) \<noteq> None) [''ready'', ''processing'', ''done'']) \<le> 1)
     \<and> (\<forall>r d i. d \<in> {''ready'', ''processing''} \<longrightarrow> i \<noteq> [] \<longrightarrow> map_of m (mail_path r d i) \<noteq> None \<longrightarrow> P i = Inr i)"

lemma path_eq [simp]: "mail_path r d i = mail_path s e j \<longleftrightarrow> r = s \<and> d = e \<and> i = j"
  by (auto simp: mail_path_def)

lemma path_not_draft: "\<not> has_json_extension name \<Longrightarrow> i \<noteq> [] \<Longrightarrow> mail_path s e i \<noteq> (r, d, name)"
  using json_name_extension by (auto simp: mail_path_def)

section \<open>Moves keep the invariant\<close>

text \<open>What a move does to the three folders of one message.\<close>

definition in_folder :: "mailbox \<Rightarrow> rstr \<Rightarrow> uuid \<Rightarrow> string \<Rightarrow> bool" where
  "in_folder m r i d \<longleftrightarrow> map_of m (mail_path r d i) \<noteq> None"

lemma one_place:
  "mail_inv P m \<longleftrightarrow>
     (\<forall>r i. i \<noteq> [] \<longrightarrow> \<not> (in_folder m r i ''ready'' \<and> in_folder m r i ''processing'') \<and> \<not> (in_folder m r i ''ready'' \<and> in_folder m r i ''done'')
        \<and> \<not> (in_folder m r i ''processing'' \<and> in_folder m r i ''done''))
     \<and> (\<forall>r i. i \<noteq> [] \<longrightarrow> in_folder m r i ''ready'' \<or> in_folder m r i ''processing'' \<longrightarrow> P i = Inr i)"
  unfolding mail_inv_def in_folder_def [symmetric] by auto

lemma exclusive:
  assumes "mail_inv P m" "i \<noteq> []"
  shows "\<not> (in_folder m r i ''ready'' \<and> in_folder m r i ''processing'')" "\<not> (in_folder m r i ''ready'' \<and> in_folder m r i ''done'')"
    "\<not> (in_folder m r i ''processing'' \<and> in_folder m r i ''done'')" "in_folder m r i ''ready'' \<or> in_folder m r i ''processing'' \<Longrightarrow> P i = Inr i"
  using assms unfolding one_place by blast+

lemma mail_invI:
  assumes "\<And>r i. i \<noteq> [] \<Longrightarrow> \<not> (in_folder m r i ''ready'' \<and> in_folder m r i ''processing'') \<and> \<not> (in_folder m r i ''ready'' \<and> in_folder m r i ''done'')
        \<and> \<not> (in_folder m r i ''processing'' \<and> in_folder m r i ''done'')"
    and "\<And>r i. i \<noteq> [] \<Longrightarrow> in_folder m r i ''ready'' \<or> in_folder m r i ''processing'' \<Longrightarrow> P i = Inr i"
  shows "mail_inv P m"
  using assms unfolding one_place by blast

lemma mail_step_inv: "mail_step P m m' \<Longrightarrow> mail_inv P m \<Longrightarrow> mail_inv P m'"
proof (induction rule: mail_step.induct)
  case (draft name m' m r d v)
  have e: "in_folder m' s i e = in_folder m s i e" if "i \<noteq> []" for s i e
    using path_not_draft [OF draft(1) that, of s e r d] by (simp add: in_folder_def draft(2))
  show ?case by (rule mail_invI) (use exclusive [OF draft(3)] in \<open>simp_all add: e\<close>)
next
  case (arrive i m r m' f)
  have n: "\<not> in_folder m r i ''ready''" "\<not> in_folder m r i ''processing''" "\<not> in_folder m r i ''done''" using arrive by (simp_all add: in_folder_def)
  have e: "in_folder m' s j e = (in_folder m s j e \<or> s = r \<and> j = i \<and> e = ''ready'')" for s j e
    by (auto simp: in_folder_def arrive)
  show ?case
  proof (rule mail_invI)
    fix s j :: rstr assume j: "j \<noteq> []"
    show "\<not> (in_folder m' s j ''ready'' \<and> in_folder m' s j ''processing'') \<and> \<not> (in_folder m' s j ''ready'' \<and> in_folder m' s j ''done'')
        \<and> \<not> (in_folder m' s j ''processing'' \<and> in_folder m' s j ''done'')"
      using exclusive(1-3) [OF arrive(7) j, of s] n by (auto simp: e)
    show "P j = Inr j" if "in_folder m' s j ''ready'' \<or> in_folder m' s j ''processing''"
      using that exclusive(4) [OF arrive(7) j, of s] arrive(1) by (auto simp: e)
  qed
next
  case (move m r src i f dst m')
  have f: "in_folder m r i src" using move(1) by (simp add: in_folder_def)
  have same: "in_folder m' s j e = in_folder m s j e" if "\<not> (s = r \<and> j = i)" for s j e
    using that by (auto simp: in_folder_def move(4))
  have here: "in_folder m' r i e \<longleftrightarrow> e = dst \<or> e \<noteq> src \<and> in_folder m r i e" for e
    using move(3) by (auto simp: in_folder_def move(4))
  note x = exclusive [OF move(5,2), of r]
  have one: "\<not> (in_folder m' r i ''ready'' \<and> in_folder m' r i ''processing'') \<and> \<not> (in_folder m' r i ''ready'' \<and> in_folder m' r i ''done'')
        \<and> \<not> (in_folder m' r i ''processing'' \<and> in_folder m' r i ''done'')"
    using move(3) f x(1-3) unfolding here by auto
  have P: "P i = Inr i" using move(3) f x(4) by auto
  show ?case
  proof (rule mail_invI)
    fix s j :: rstr assume j: "j \<noteq> []"
    show "\<not> (in_folder m' s j ''ready'' \<and> in_folder m' s j ''processing'') \<and> \<not> (in_folder m' s j ''ready'' \<and> in_folder m' s j ''done'')
        \<and> \<not> (in_folder m' s j ''processing'' \<and> in_folder m' s j ''done'')"
      using one same [of s j] exclusive [OF move(5) j, of s] by (cases "s = r \<and> j = i") auto
    show "P j = Inr j" if "in_folder m' s j ''ready'' \<or> in_folder m' s j ''processing''"
      using P that same [of s j] exclusive(4) [OF move(5) j, of s] by (cases "s = r \<and> j = i") auto
  qed
qed

lemma mail_steps_inv: "mail_steps P m m' \<Longrightarrow> mail_inv P m \<Longrightarrow> mail_inv P m'"
  by (induction rule: rtranclp_induct) (auto intro: mail_step_inv)

text \<open>A message that is done stays as it is.\<close>

lemma mail_step_done: "mail_step P m m' \<Longrightarrow> mail_inv P m \<Longrightarrow> i \<noteq> [] \<Longrightarrow> map_of m (mail_path r ''done'' i) = Some f \<Longrightarrow> map_of m' (mail_path r ''done'' i) = Some f"
proof (induction rule: mail_step.induct)
  case (draft name m' m s d v)
  then show ?case using path_not_draft [OF draft(1), of i r "''done''" s d] by simp
next
  case (arrive j m s m' g)
  then show ?case by auto
next
  case (move m s src j g dst m')
  have "\<not> (s = r \<and> j = i \<and> dst = ''done'')"
    using move(1,3,7) exclusive(2,3) [OF move(5,6), of r] by (auto simp: in_folder_def)
  then show ?case using move by auto
qed

lemma mail_steps_done: "mail_steps P m m' \<Longrightarrow> mail_inv P m \<Longrightarrow> i \<noteq> [] \<Longrightarrow> map_of m (mail_path r ''done'' i) = Some f \<Longrightarrow> map_of m' (mail_path r ''done'' i) = Some f"
proof (induction rule: rtranclp_induct)
  case (step y z)
  then show ?case using mail_step_done mail_steps_inv by metis
qed simp

section \<open>Operations are moves\<close>

lemma rename_steps:
  assumes "(from, to) \<in> {(''ready'', ''processing''), (''processing'', ''ready''), (''processing'', ''done''), (''processing'', ''quarantine'')}" "i \<noteq> []"
  shows "mail_steps P m (snd (rename_file fails op (mail_path r from i) (mail_path r to i) m))"
proof (cases rule: rename_file_cases [of fails op "mail_path r from i" "mail_path r to i" m])
  case (2 f)
  have "mail_step P m (put_file (mail_path r to i) f (delete_file (mail_path r from i) m))"
    by (rule mail_step.move [OF 2(1) assms(2,1)]) simp
  then show ?thesis using 2(2) by simp
qed simp

text \<open>The file that is claimed or recovered is named by the id it is parsed to.\<close>

lemma listed_name:
  assumes "mail_inv P m" "d \<in> {''ready'', ''processing''}" "has_json_extension name" "map_of m (r, str d, name) \<noteq> None" "parse_id P name = Inr i"
  shows "(r, str d, name) = mail_path r d i \<and> i \<noteq> []"
proof -
  let ?j = "file_stem name"
  have j: "name = json_name ?j" "?j \<noteq> []" using assms(3) json_name_stem by (auto simp: has_json_extension_def file_stem_def)
  then have "map_of m (mail_path r d ?j) \<noteq> None" using assms(4) by (simp add: mail_path_def)
  then have "P ?j = Inr ?j" using assms(1,2) j(2) unfolding mail_inv_def by blast
  then have "i = ?j" using assms(5) by (simp add: parse_id_def)
  then show ?thesis using j by (simp add: mail_path_def)
qed

lemma send_steps: "P (mm_id msg) = Inr (mm_id msg) \<Longrightarrow> mm_id msg \<noteq> [] \<Longrightarrow> mail_steps P m (snd (send fails msg m))"
proof -
  assume canonical: "P (mm_id msg) = Inr (mm_id msg)" "mm_id msg \<noteq> []"
  let ?r = "mm_recipient msg" and ?i = "mm_id msg"
  let ?t = "(?r, str ''ready'', json_name ?i @ str ''.tmp'')"
  have draft: "mail_step P m (put_file ?t (Mail msg) m)" by (rule mail_step.draft [OF temporary_name]) simp
  have t: "?t \<noteq> mail_path ?r d ?i" for d using path_not_draft [OF temporary_name canonical(2)] by metis
  have "mail_steps P m (snd (write_atomically fails ?r msg m))"
    if free: "\<not> file_exists (mail_path ?r ''ready'' ?i) m" "\<not> file_exists (mail_path ?r ''processing'' ?i) m" "\<not> file_exists (mail_path ?r ''done'' ?i) m"
  proof (cases "fails FsWrite")
    case None
    show ?thesis
    proof (cases rule: rename_file_cases [of fails FsInstall ?t "mail_path ?r ''ready'' ?i" "put_file ?t (Mail msg) m"])
      case (1 e)
      then show ?thesis using draft None by (simp add: write_atomically_def Let_def)
    next
      case (2 f)
      let ?m1 = "delete_file ?t (put_file ?t (Mail msg) m)"
      have "mail_step P (put_file ?t (Mail msg) m) ?m1"
        by (rule mail_step.draft [OF temporary_name, of _ _ ?r "str ''ready''" "json_name ?i" None]) simp
      moreover have "mail_step P ?m1 (put_file (mail_path ?r ''ready'' ?i) f ?m1)"
        by (rule mail_step.arrive [where P = P, OF canonical]) (use free t in \<open>auto simp: file_exists_def\<close>)
      ultimately show ?thesis using draft None 2 by (auto simp: write_atomically_def Let_def intro: converse_rtranclp_into_rtranclp)
    qed
  qed (simp add: write_atomically_def Let_def)
  then show ?thesis by (auto simp: send_def split: sum.split)
qed

lemma claim_steps: "mail_inv P m \<Longrightarrow> mail_steps P m (snd (claim P fails r m))"
proof -
  assume inv: "mail_inv P m"
  show ?thesis
  proof (cases "rbind (ensure_recipient fails r) (\<lambda>_. first_message fails r ''ready'' m)")
    case (Inr opt)
    show ?thesis
    proof (cases opt)
      case (Some name)
      have "name \<in> set (names_in r ''ready'' m)" using Inr Some
        by (auto simp: rbind_Inr first_message_def split: option.splits list.splits) (metis list.set_intros(1) set_sort_by)
      then have entry: "has_json_extension name" "map_of m (r, str ''ready'', name) \<noteq> None" using names_in_file by blast+
      show ?thesis
      proof (cases "parse_id P name")
        case (Inr i)
        have k: "(r, str ''ready'', name) = mail_path r ''ready'' i" "i \<noteq> []" using listed_name [OF inv _ entry Inr] by simp_all
        let ?q = "rename_file fails (FsRename name) (mail_path r ''ready'' i) (mail_path r ''processing'' i) m"
        have first: "mail_steps P m (snd ?q)" by (rule rename_steps) (use k in simp_all)
        have second: "mail_steps P m (snd (rename_file fails FsQuarantine (mail_path r ''processing'' i) (mail_path r ''quarantine'' i) (snd ?q)))"
          by (rule rtranclp_trans [OF first rename_steps]) (use k in simp_all)
        obtain x m' where q: "?q = (x, m')" by (cases ?q)
        show ?thesis using \<open>rbind _ _ = Inr opt\<close> Some Inr first second
          by (auto simp: claim_def k(1) q split: sum.split)
      qed (use Inr Some in \<open>simp add: claim_def\<close>)
    qed (use Inr in \<open>simp add: claim_def\<close>)
  qed (simp add: claim_def)
qed

lemma ack_steps: "mm_id msg \<noteq> [] \<Longrightarrow> mail_steps P m (snd (ack fails msg m))"
proof -
  assume i: "mm_id msg \<noteq> []"
  let ?q = "rename_file fails (FsRename (json_name (mm_id msg))) (mail_path (mm_recipient msg) ''processing'' (mm_id msg)) (mail_path (mm_recipient msg) ''done'' (mm_id msg)) m"
  have "mail_steps P m (snd ?q)" by (rule rename_steps) (use i in simp_all)
  moreover obtain x m' where "?q = (x, m')" by (cases ?q)
  ultimately show ?thesis by (auto simp: ack_def Let_def split: sum.split)
qed

lemma release_steps: "mm_id msg \<noteq> [] \<Longrightarrow> mail_steps P m (snd (release fails msg m))"
proof -
  assume i: "mm_id msg \<noteq> []"
  let ?q = "rename_file fails (FsRename (json_name (mm_id msg))) (mail_path (mm_recipient msg) ''processing'' (mm_id msg)) (mail_path (mm_recipient msg) ''ready'' (mm_id msg)) m"
  have "mail_steps P m (snd ?q)" by (rule rename_steps) (use i in simp_all)
  moreover obtain x m' where "?q = (x, m')" by (cases ?q)
  ultimately show ?thesis by (auto simp: release_def Let_def split: sum.split)
qed

lemma recover_loop_steps:
  "mail_inv P m \<Longrightarrow> \<forall>name \<in> set names. has_json_extension name \<Longrightarrow> mail_steps P m (snd (recover_loop P fails r names n m))"
proof (induction names arbitrary: n m)
  case (Cons name names)
  show ?case
  proof (cases "parse_id P name")
    case (Inr i)
    show ?thesis
    proof (cases rule: rename_file_cases [of fails "FsRename name" "(r, str ''processing'', name)" "mail_path r ''ready'' i" m])
      case (1 e)
      then show ?thesis using Inr by simp
    next
      case (2 f)
      have k: "(r, str ''processing'', name) = mail_path r ''processing'' i" "i \<noteq> []"
        using listed_name [OF Cons.prems(1), of "''processing''" name r i] Cons.prems(2) 2(1) Inr by simp_all
      let ?m = "put_file (mail_path r ''ready'' i) f (delete_file (mail_path r ''processing'' i) m)"
      have s: "mail_steps P m ?m" using rename_steps [of "''processing''" "''ready''" i P m fails "FsRename name" r] 2(2) k by simp
      then have "mail_steps P ?m (snd (recover_loop P fails r names (n + 1) ?m))" using Cons by (intro Cons.IH mail_steps_inv [OF s]) simp_all
      then show ?thesis using s 2(2) Inr k by simp
    qed
  qed simp
qed simp

lemma recover_steps: "mail_inv P m \<Longrightarrow> mail_steps P m (snd (recover_processing P fails r m))"
  using recover_loop_steps [of P m "names_in r ''processing'' m"] names_in_file
  by (auto simp: recover_processing_def split: sum.split option.split)

section \<open>Histories\<close>

datatype mail_op = Send MailboxMessage | Claim rstr | Ack MailboxMessage | Release MailboxMessage | Recover rstr

text \<open>An operation with the failures it meets.\<close>

fun mail_run :: "(rstr \<Rightarrow> (rstr, uuid) result) \<Rightarrow> mailbox \<Rightarrow> failures \<times> mail_op \<Rightarrow> mailbox" where
  "mail_run P m (fails, Send msg) = snd (send fails msg m)"
| "mail_run P m (fails, Claim r) = snd (claim P fails r m)"
| "mail_run P m (fails, Ack msg) = snd (ack fails msg m)"
| "mail_run P m (fails, Release msg) = snd (release fails msg m)"
| "mail_run P m (fails, Recover r) = snd (recover_processing P fails r m)"

text \<open>The id of a message is a UUID: it is read back as it is printed.\<close>

definition proper_id :: "(rstr \<Rightarrow> (rstr, uuid) result) \<Rightarrow> MailboxMessage \<Rightarrow> bool" where
  "proper_id P msg \<longleftrightarrow> P (mm_id msg) = Inr (mm_id msg) \<and> mm_id msg \<noteq> []"

fun proper_op :: "(rstr \<Rightarrow> (rstr, uuid) result) \<Rightarrow> failures \<times> mail_op \<Rightarrow> bool" where
  "proper_op P (fails, Send msg) = proper_id P msg"
| "proper_op P (fails, Ack msg) = proper_id P msg"
| "proper_op P (fails, Release msg) = proper_id P msg"
| "proper_op P _ = True"

lemma mail_run_steps: "mail_inv P m \<Longrightarrow> proper_op P a \<Longrightarrow> mail_steps P m (mail_run P m a)"
proof -
  assume i: "mail_inv P m" and p: "proper_op P a"
  obtain fails op where a: "a = (fails, op)" by (cases a)
  show ?thesis using i p unfolding a by (cases op) (auto simp: proper_id_def send_steps claim_steps ack_steps release_steps recover_steps)
qed

interpretation mail: invariant_system "mail_run P" "mail_inv P" "proper_op P" for P
  by unfold_locales (use mail_steps_inv mail_run_steps in blast)

lemma mail_history_steps: "mail_inv P m \<Longrightarrow> list_all (proper_op P) ops \<Longrightarrow> mail_steps P m (foldl (mail_run P) m ops)"
proof (induction ops arbitrary: m)
  case (Cons a ops)
  have s: "mail_steps P m (mail_run P m a)" using Cons.prems mail_run_steps by simp
  then have "mail_steps P (mail_run P m a) (foldl (mail_run P) (mail_run P m a) ops)"
    using Cons by (intro Cons.IH mail_steps_inv [OF s]) simp_all
  then show ?case using s by simp
qed simp

lemma mail_empty: "mail_inv P []"
  by (simp add: mail_inv_def)

text \<open>What a claim returns was ready, under the id of the file.\<close>

lemma claim_ready:
  assumes inv: "mail_inv P m" and c: "claim P fails r m = (Inr (Some msg), m')"
  shows "in_folder m r (mm_id msg) ''ready'' \<and> mm_id msg \<noteq> [] \<and> mm_recipient msg = r"
proof -
  obtain name i m1 where f: "first_message fails r ''ready'' m = Inr (Some name)" and p: "parse_id P name = Inr i"
    and msg: "mm_recipient msg = r" "mm_id msg = i"
    using c by (auto simp: claim_def rbind_Inr split: sum.splits option.splits prod.splits if_splits)
  have "name \<in> set (names_in r ''ready'' m)"
    using f by (auto simp: first_message_def split: option.splits list.splits) (metis list.set_intros(1) set_sort_by)
  then have entry: "has_json_extension name" "map_of m (r, str ''ready'', name) \<noteq> None" using names_in_file by blast+
  have k: "(r, str ''ready'', name) = mail_path r ''ready'' i" "i \<noteq> []" using listed_name [OF inv _ entry p] by simp_all
  then show ?thesis using entry(2) msg by (simp add: in_folder_def)
qed

lemma ack_done:
  assumes "ack fails msg m = (Inr b, m')"
  shows "in_folder m' (mm_recipient msg) (mm_id msg) ''done''"
proof (cases "file_exists (mail_path (mm_recipient msg) ''done'' (mm_id msg)) m")
  case True
  then have "m' = m" using assms by (simp add: ack_def Let_def split: sum.splits)
  then show ?thesis using True by (simp add: in_folder_def file_exists_def)
next
  case False
  show ?thesis
  proof (cases rule: rename_file_cases [of fails "FsRename (json_name (mm_id msg))" "mail_path (mm_recipient msg) ''processing'' (mm_id msg)"
      "mail_path (mm_recipient msg) ''done'' (mm_id msg)" m])
    case (1 e)
    then show ?thesis using assms False by (simp add: ack_def Let_def split: sum.splits if_splits)
  next
    case (2 f)
    then have "m' = put_file (mail_path (mm_recipient msg) ''done'' (mm_id msg)) f (delete_file (mail_path (mm_recipient msg) ''processing'' (mm_id msg)) m)"
      using assms False by (simp add: ack_def Let_def split: sum.splits if_splits)
    then show ?thesis by (simp add: in_folder_def)
  qed
qed

section \<open>Properties\<close>

text \<open>C9. Through any history of sends, claims, acknowledgements, releases and recoveries, with file operations failing anywhere, a message is
  never in two of the folders ready, processing and done.\<close>

theorem mailbox_one_place:
  assumes "list_all (proper_op P) ops" "i \<noteq> []"
  shows "length (filter (\<lambda>d. map_of (foldl (mail_run P) [] ops) (mail_path r d i) \<noteq> None) [''ready'', ''processing'', ''done'']) \<le> 1"
  using mail.inv_run [OF mail_empty assms(1)] assms(2) unfolding mail_inv_def by blast

definition demo_mail :: MailboxMessage where
  "demo_mail = \<lparr>mm_id = str ''m1'', mm_sender = str ''lead'', mm_recipient = str ''worker'', mm_kind = TaskMail, mm_content = str ''go''\<rparr>"

definition no_failures :: failures where
  "no_failures op = None"

theorem mailbox_one_place_witness:
  "length (filter (\<lambda>d. map_of (foldl (mail_run Inr) [] [(no_failures, Send demo_mail), (no_failures, Claim (str ''worker''))]) (mail_path (str ''worker'') d (str ''m1'')) \<noteq> None)
     [''ready'', ''processing'', ''done'']) \<le> 1"
  by (rule mailbox_one_place) (simp_all add: proper_id_def demo_mail_def)

text \<open>C39. A message that has been acknowledged is never claimed again, whatever happens to the mailbox afterwards.\<close>

theorem acknowledged_never_claimed:
  assumes "mail_inv P m" "proper_id P msg" "ack fails msg m = (Inr b, m')" "list_all (proper_op P) ops"
    and "claim P fails' r (foldl (mail_run P) m' ops) = (Inr (Some again), m'')"
  shows "\<not> (mm_id again = mm_id msg \<and> mm_recipient again = mm_recipient msg)"
proof
  assume eq: "mm_id again = mm_id msg \<and> mm_recipient again = mm_recipient msg"
  let ?n = "foldl (mail_run P) m' ops"
  have i: "mm_id msg \<noteq> []" using assms(2) by (simp add: proper_id_def)
  have inv: "mail_inv P m'" using mail_steps_inv [OF ack_steps [OF i] assms(1), of fails] assms(3) by simp
  then have later: "mail_inv P ?n" "mail_steps P m' ?n" using mail.inv_run assms(4) mail_history_steps by blast+
  obtain f where "map_of m' (mail_path (mm_recipient msg) ''done'' (mm_id msg)) = Some f" using ack_done [OF assms(3)] by (auto simp: in_folder_def)
  then have "in_folder ?n (mm_recipient msg) (mm_id msg) ''done''" using mail_steps_done [OF later(2) inv i] by (simp add: in_folder_def)
  moreover have "in_folder ?n (mm_recipient msg) (mm_id msg) ''ready''" using claim_ready [OF later(1) assms(5)] eq by simp
  ultimately show False using exclusive(2) [OF later(1) i] by blast
qed

definition demo_processing :: mailbox where
  "demo_processing = [(mail_path (str ''worker'') ''processing'' (str ''m1''), Mail demo_mail)]"

definition demo_other :: MailboxMessage where
  "demo_other = demo_mail\<lparr>mm_id := str ''m2''\<rparr>"

definition demo_acked :: mailbox where
  "demo_acked = [(mail_path (str ''worker'') ''done'' (str ''m1''), Mail demo_mail)]"

lemma demo_valid: "validate_message demo_mail = Inr ()" "validate_message demo_other = Inr ()" "ensure_recipient no_failures (str ''worker'') = Inr ()"
  by (simp_all add: validate_message_def validate_recipient_def demo_other_def demo_mail_def ensure_def ensure_recipient_def no_failures_def str_def bytes_all_def
      is_ascii_lowercase_def is_ascii_digit_def ends_with_def len_utf8_def)

lemma demo_worker: "ensure_recipient no_failures [119, 111, 114, 107, 101, 114] = Inr ()"
  using demo_valid(3) by (simp add: str_def)

lemma demo_fields [simp]: "mm_id demo_mail = str ''m1''" "mm_recipient demo_mail = str ''worker''" "mm_id demo_other = str ''m2''" "mm_recipient demo_other = str ''worker''"
  "no_failures op = None"
  by (simp_all add: demo_mail_def demo_other_def no_failures_def)

lemma demo_ack: "ack no_failures demo_mail demo_processing = (Inr True, demo_acked)"
  by (simp add: ack_def Let_def demo_valid demo_processing_def demo_acked_def file_exists_def read_message_def rename_file_def put_file_def delete_file_def)

lemma demo_send: "send no_failures demo_other demo_acked = (Inr (), demo_acked @ [(mail_path (str ''worker'') ''ready'' (str ''m2''), Mail demo_other)])"
proof -
  have "(r, d, n @ str ''.tmp'') \<noteq> mail_path s e i" for r d n s e i by (auto simp: mail_path_def json_name_def str_def)
  then show ?thesis
    by (simp add: send_def demo_valid demo_acked_def file_exists_def write_atomically_def Let_def rename_file_def put_file_def delete_file_def)
       (auto simp: mail_path_def json_name_def str_def)
qed

theorem acknowledged_never_claimed_witness:
  "\<not> (mm_id demo_other = mm_id demo_mail \<and> mm_recipient demo_other = mm_recipient demo_mail)"
proof -
  have ok: "mail_inv Inr demo_processing" by (auto simp: mail_inv_def demo_processing_def)
  let ?m = "demo_acked @ [(mail_path (str ''worker'') ''ready'' (str ''m2''), Mail demo_other)]"
  have "claim Inr no_failures (str ''worker'') ?m = (Inr (Some demo_other), snd (claim Inr no_failures (str ''worker'') ?m))"
    by (simp add: claim_def demo_worker first_message_def names_in_def demo_acked_def mail_path_def has_json_extension_def json_name_def str_def ends_with_def
        parse_id_def file_stem_def rename_file_def read_message_def put_file_def delete_file_def)
  then show ?thesis
    using acknowledged_never_claimed [OF ok _ demo_ack, of "[(no_failures, Send demo_other)]" no_failures "str ''worker''" demo_other] demo_send
    by (simp add: proper_id_def)
qed

text \<open>A file in the ready folder whose name is not a UUID and sorts first stops every claim: each one fails and leaves the mailbox as it is, although
  files that cannot be read are quarantined.\<close>

theorem stray_file_blocks_claims:
  assumes "ensure_recipient fails r = Inr ()" "fails FsList = None" "sort_by (\<le>) (names_in r ''ready'' m) = name # names" "P (file_stem name) = Inl e"
  shows "claim P fails r m = (Inl (str ''invalid mailbox filename: '' @ e), m)"
  using assms by (simp add: claim_def first_message_def parse_id_def)

theorem stray_file_blocks_claims_witness:
  "claim (\<lambda>s. if length s = 36 then Inr s else Inl (str ''bad'')) no_failures (str ''worker'') [((str ''worker'', str ''ready'', str ''a.json''), Junk [])]
     = (Inl (str ''invalid mailbox filename: '' @ str ''bad''), [((str ''worker'', str ''ready'', str ''a.json''), Junk [])])"
  by (rule stray_file_blocks_claims [where name = "str ''a.json''" and names = "[]"])
    (simp_all add: demo_worker names_in_def has_json_extension_def ends_with_def file_stem_def str_def)

end
