(* ===== verification/Protocol_Store.thy ===== *)
theory Protocol_Store
  imports Agent_Protocol
begin

text \<open>
  The requests between background agents that need an answer (\<open>tasks/protocol.rs\<close>): a file with the list of requests, rewritten
  atomically by every change.  \<open>fails\<close> says whether the file cannot be read or written; instants are integers.
\<close>

datatype ProtocolKind = Shutdown | PlanApproval

datatype ProtocolStatus = PsPending | PsApproved | PsRejected

datatype ProtocolMessageKind = ShutdownRequest | ShutdownResponse | PlanApprovalRequest | PlanApprovalResponse

record ProtocolMailboxMessage =
  pm_id :: uuid
  pm_sender :: rstr
  pm_recipient :: rstr
  pm_kind :: ProtocolMessageKind
  pm_content :: rstr
  pm_request_id :: uuid
  pm_approved :: "bool option"

record ProtocolResolution =
  rs_message_id :: uuid
  rs_approved :: bool
  rs_content :: rstr
  rs_resolved_at :: int

record ProtocolRequest =
  pq_id :: uuid
  pq_kind :: ProtocolKind
  pq_sender :: rstr
  pq_target :: rstr
  pq_status :: ProtocolStatus
  pq_content :: rstr
  pq_created_at :: int
  pq_expires_at :: int
  pq_resolution :: "ProtocolResolution option"

datatype state_op = ReadState | WriteState

type_synonym store_failures = "state_op \<Rightarrow> rstr option"

definition DAY :: int where
  "DAY = 24 * 60 * 60"

definition read_state :: "store_failures \<Rightarrow> ProtocolRequest list \<Rightarrow> (rstr, ProtocolRequest list) result" where
  "read_state fails rs = (case fails ReadState of Some e \<Rightarrow> Inl e | None \<Rightarrow> Inr rs)"

definition write_state :: "store_failures \<Rightarrow> ProtocolRequest list \<Rightarrow> 'a \<Rightarrow> ProtocolRequest list \<Rightarrow> (rstr, 'a) result \<times> ProtocolRequest list" where
  "write_state fails new x old = (case fails WriteState of Some e \<Rightarrow> (Inl e, old) | None \<Rightarrow> (Inr x, new))"

definition protocol_create :: "store_failures \<Rightarrow> uuid \<Rightarrow> ProtocolKind \<Rightarrow> rstr \<Rightarrow> rstr \<Rightarrow> rstr \<Rightarrow> int \<Rightarrow> ProtocolRequest list
    \<Rightarrow> (rstr, ProtocolRequest) result \<times> ProtocolRequest list" where
  "protocol_create fails new_id kind sender target content now rs =
     (if sender = [] \<or> target = [] \<or> content = [] then (Inl (str ''protocol request fields must not be empty''), rs)
      else (case read_state fails rs of
              Inl e \<Rightarrow> (Inl e, rs)
            | Inr requests \<Rightarrow>
                (let request = \<lparr>pq_id = new_id, pq_kind = kind, pq_sender = sender, pq_target = target, pq_status = PsPending, pq_content = content,
                   pq_created_at = now, pq_expires_at = now + DAY, pq_resolution = None\<rparr> in
                 write_state fails (requests @ [request]) request rs)))"

definition protocol_get :: "store_failures \<Rightarrow> uuid \<Rightarrow> ProtocolRequest list \<Rightarrow> (rstr, ProtocolRequest) result" where
  "protocol_get fails i rs =
     rbind (read_state fails rs) (\<lambda>requests. ok_or (str ''protocol request not found: '' @ i) (find (\<lambda>q. pq_id q = i) requests))"

text \<open>\<open>max_by_key\<close>: the last of the maximal elements.\<close>

definition newer :: "ProtocolRequest option \<Rightarrow> ProtocolRequest \<Rightarrow> ProtocolRequest option" where
  "newer best q = (case best of None \<Rightarrow> Some q | Some b \<Rightarrow> if pq_created_at b \<le> pq_created_at q then Some q else Some b)"

definition latest_plan :: "store_failures \<Rightarrow> rstr \<Rightarrow> ProtocolRequest list \<Rightarrow> (rstr, ProtocolRequest option) result" where
  "latest_plan fails sender rs =
     rbind (read_state fails rs) (\<lambda>requests. Inr (foldl newer None (filter (\<lambda>q. pq_kind q = PlanApproval \<and> pq_sender q = sender) requests)))"

definition allows_effectful :: "store_failures \<Rightarrow> rstr \<Rightarrow> ProtocolRequest list \<Rightarrow> (rstr, bool) result" where
  "allows_effectful fails sender rs =
     rbind (latest_plan fails sender rs) (\<lambda>q. Inr (case q of None \<Rightarrow> True | Some q \<Rightarrow> pq_status q = PsApproved))"

definition resolve :: "ProtocolMailboxMessage \<Rightarrow> bool \<Rightarrow> int \<Rightarrow> ProtocolRequest \<Rightarrow> ProtocolRequest" where
  "resolve msg approved now q =
     q\<lparr>pq_status := if approved then PsApproved else PsRejected,
       pq_resolution := Some \<lparr>rs_message_id = pm_id msg, rs_approved = approved, rs_content = pm_content msg, rs_resolved_at = now\<rparr>\<rparr>"

text \<open>The first request with an id is replaced in place.\<close>

fun update_first :: "('a \<Rightarrow> bool) \<Rightarrow> ('a \<Rightarrow> 'a) \<Rightarrow> 'a list \<Rightarrow> 'a list" where
  "update_first p f [] = []"
| "update_first p f (x # xs) = (if p x then f x # xs else x # update_first p f xs)"

definition consume_response :: "store_failures \<Rightarrow> ProtocolMailboxMessage \<Rightarrow> int \<Rightarrow> ProtocolRequest list
    \<Rightarrow> (rstr, ProtocolRequest) result \<times> ProtocolRequest list" where
  "consume_response fails msg now rs =
     (case rbind (read_state fails rs) (\<lambda>requests. ok_or (str ''protocol request not found'') (find (\<lambda>q. pq_id q = pm_request_id msg) requests)) of
        Inl e \<Rightarrow> (Inl e, rs)
      | Inr q \<Rightarrow>
          if pq_status q \<noteq> PsPending then
            (if (case pq_resolution q of None \<Rightarrow> False | Some r \<Rightarrow> rs_message_id r = pm_id msg) then (Inr q, rs)
             else (Inl (str ''protocol request is already resolved''), rs))
          else if pq_expires_at q \<le> now \<or> pm_recipient msg \<noteq> pq_sender q \<or> pm_sender msg \<noteq> pq_target q
          then (Inl (str ''protocol response does not match request''), rs)
          else (case pm_approved msg of
                  None \<Rightarrow> (Inl (str ''protocol response requires approved''), rs)
                | Some approved \<Rightarrow>
                    write_state fails (update_first (\<lambda>q. pq_id q = pm_request_id msg) (resolve msg approved now) rs) (resolve msg approved now q) rs))"

definition to_message :: "uuid \<Rightarrow> ProtocolRequest \<Rightarrow> ProtocolMailboxMessage" where
  "to_message new_id q =
     \<lparr>pm_id = new_id, pm_sender = pq_sender q, pm_recipient = pq_target q,
      pm_kind = (case pq_kind q of Shutdown \<Rightarrow> ShutdownRequest | PlanApproval \<Rightarrow> PlanApprovalRequest),
      pm_content = pq_content q, pm_request_id = pq_id q, pm_approved = None\<rparr>"

section \<open>Resolved requests are final\<close>

datatype protocol_op = OpCreate uuid ProtocolKind rstr rstr rstr int | OpConsume ProtocolMailboxMessage int

fun protocol_step :: "ProtocolRequest list \<Rightarrow> store_failures \<times> protocol_op \<Rightarrow> ProtocolRequest list" where
  "protocol_step rs (fails, OpCreate i k s t c now) = snd (protocol_create fails i k s t c now rs)"
| "protocol_step rs (fails, OpConsume msg now) = snd (consume_response fails msg now rs)"

text \<open>Every request stays where it is; what it says about itself does not change once it is resolved, and it is resolved only by its target.\<close>

definition later :: "ProtocolRequest \<Rightarrow> ProtocolRequest \<Rightarrow> bool" where
  "later q q' \<longleftrightarrow> q' = q \<or> pq_status q = PsPending \<and> (\<exists>msg now approved. q' = resolve msg approved now q
     \<and> pm_approved msg = Some approved \<and> pm_request_id msg = pq_id q \<and> pm_sender msg = pq_target q \<and> pm_recipient msg = pq_sender q \<and> now < pq_expires_at q)"

lemma update_first_later:
  assumes "find p rs = Some q" "later q (f q)"
  shows "list_all2 later rs (update_first p f rs)"
  using assms by (induction rs) (auto simp: later_def list_all2_same split: if_splits)

lemma consume_later: "list_all2 later rs (snd (consume_response fails msg now rs))"
proof (cases "rbind (read_state fails rs) (\<lambda>requests. ok_or (str ''protocol request not found'') (find (\<lambda>q. pq_id q = pm_request_id msg) requests))")
  case (Inr q)
  have same: "list_all2 later rs rs" by (simp add: later_def list_all2_same)
  have q: "find (\<lambda>q. pq_id q = pm_request_id msg) rs = Some q"
    using Inr by (auto simp: rbind_Inr read_state_def ok_or_def split: option.splits)
  have i: "pq_id q = pm_request_id msg" using find_Some_split [OF q] by simp
  have "list_all2 later rs (update_first (\<lambda>q. pq_id q = pm_request_id msg) (resolve msg approved now) rs)"
    if "pq_status q = PsPending" "\<not> (pq_expires_at q \<le> now \<or> pm_recipient msg \<noteq> pq_sender q \<or> pm_sender msg \<noteq> pq_target q)" "pm_approved msg = Some approved" for approved
  proof (rule update_first_later [OF q])
    have "now < pq_expires_at q \<and> pm_recipient msg = pq_sender q \<and> pm_sender msg = pq_target q" using that(2) by auto
    then show "later q (resolve msg approved now q)" unfolding later_def using that(1,3) i by metis
  qed
  then show ?thesis using Inr same by (auto simp: consume_response_def write_state_def split: option.split)
qed (simp add: consume_response_def later_def list_all2_same)

lemma step_later: "\<exists>new. list_all2 later (rs @ new) (protocol_step rs a)"
proof -
  obtain fails op where a: "a = (fails, op)" by (cases a)
  have same: "list_all2 later qs qs" for qs by (simp add: later_def list_all2_same)
  show ?thesis
  proof (cases op)
    case (OpCreate i k s t c now)
    have "\<exists>new. snd (protocol_create fails i k s t c now rs) = rs @ new"
      by (auto simp: protocol_create_def read_state_def write_state_def Let_def split: sum.splits option.splits)
    then obtain new where "protocol_step rs a = rs @ new" by (auto simp: a OpCreate)
    then show ?thesis using same by metis
  next
    case (OpConsume msg now)
    then show ?thesis using consume_later [of rs fails msg now] by (auto simp: a intro: exI [of _ "[]"])
  qed
qed

lemma step_resolved:
  assumes "q \<in> set rs" "pq_status q \<noteq> PsPending"
  shows "q \<in> set (protocol_step rs a)"
proof -
  obtain new where l: "list_all2 later (rs @ new) (protocol_step rs a)" using step_later by blast
  obtain k where k: "k < length (rs @ new)" "(rs @ new) ! k = q" using assms(1) by (metis Un_iff in_set_conv_nth set_append)
  then have "later q (protocol_step rs a ! k)" "k < length (protocol_step rs a)" using l by (auto simp: list_all2_conv_all_nth)
  then show ?thesis using assms(2) by (auto simp: later_def)
qed

text \<open>C40. A request between agents that has been approved or rejected stays recorded exactly as it was resolved, through any later creations and
  responses, late, repeated or forged, and through failures of the file.\<close>

theorem resolved_request_final:
  assumes "q \<in> set rs" "pq_status q \<noteq> PsPending"
  shows "q \<in> set (foldl protocol_step rs ops)"
  using assms by (induction ops arbitrary: rs) (auto simp: step_resolved)

definition resolved_demo :: ProtocolRequest where
  "resolved_demo = \<lparr>pq_id = str ''r'', pq_kind = PlanApproval, pq_sender = str ''worker'', pq_target = str ''lead'', pq_status = PsRejected, pq_content = str ''plan'',
     pq_created_at = 0, pq_expires_at = DAY, pq_resolution = None\<rparr>"

theorem resolved_request_final_witness:
  "resolved_demo \<in> set (foldl protocol_step [resolved_demo] [(\<lambda>_. None, OpConsume (to_message (str ''m'') resolved_demo) 1)])"
  by (rule resolved_request_final) (simp_all add: resolved_demo_def)

end
