(* ===== verification/Spec2Isabelle.thy ===== *)
theory Spec2Isabelle
  imports Task_Properties Run_Properties Context_Properties Tool_Properties Loop_Properties Agent_Loop_Properties
    Provider_Properties Rag_Properties Cron_Properties Mailbox_Properties Protocol_Store
begin

text \<open>
  Verification of the core of Suna (the desktop agent of the \<open>bloomery\<close> repository), the Rust code under
  \<open>src-tauri/src/\<close>.

  \<^bold>\<open>The program.\<close>  A desktop process keeps durable background tasks and agent runs in SQLite.  A scheduler claims tasks,
  runs handlers and records their outcome; a lease-based claim lets several processes share the table.  An agent run is
  an event-sourced record of one turn of the agent: its state changes are events of an append-only log.  During a turn
  the loop selects a context under the model's token limit, sends it to a model, and executes the tool calls of the
  answer through a registry of tools, a permission policy and an executor.  The model is reached through HTTP clients that read
  its answer as a stream of server-sent events.  After a crash, recovery reads the logs and settles every run.  Background
  agents are started by schedules, talk through a mailbox of files and ask each other for approval; documents are cut into
  chunks for retrieval, and the rankings of two searches are fused and reranked.

  \<^bold>\<open>The theories.\<close>

  \<^item> \<open>Prelude\<close>: results and early return, Rust strings as lists of Unicode scalar values with the library functions the
    code uses, decimal numbers, saturating arithmetic, stable sorting, \<open>BTreeMap\<close>, and the locales
    \<open>invariant_system\<close> (operations that keep an invariant) and \<open>fenced_system\<close> (operations that never lower a version).
    They are interpreted on the task table, the run store, the tool registry, the permission policy, the input queue, the
    schedules and the mailbox;
    the properties over sequences of operations are facts of these interpretations.
  \<^item> \<open>Task_Model\<close>, \<open>Task_Repository\<close>, \<open>Work_Stealing\<close>, \<open>Task_System\<close>, \<open>Scheduler\<close>: \<open>tasks/model.rs\<close>,
    \<open>repository.rs\<close>, \<open>work_stealing.rs\<close>, \<open>scheduler.rs\<close>.  The table is a list of rows with the CHECK constraints of the
    migrations; each operation is one function from the table to a result and the table, with every validation, guard,
    \<open>WHERE\<close> clause and error code of the code.  \<open>Task_Properties\<close>: the table stays readable, stale workers are fenced for
    ever, what a transition, a claim, a lease, finishing and recovery do, the retry delays.
  \<^item> \<open>Json\<close>, \<open>Agent_Protocol\<close>: \<open>serde_json\<close> values, the events and errors of \<open>agent/protocol/\<close>.
  \<^item> \<open>Run_State\<close>, \<open>Run_Store\<close>, \<open>Run_Log\<close>, \<open>Run_Recovery\<close>: \<open>agent/runtime/state_machine.rs\<close>,
    \<open>storage/repositories/runs*.rs\<close>, \<open>events.rs\<close>, \<open>checkpoints.rs\<close>, \<open>agent/runtime/recovery.rs\<close>.  Transactions commit a
    new value of the store or leave the old one.  \<open>Run_Properties\<close>: how a run completes, that the log is gap-free and folds
    to the stored state, that finished runs stay finished, and that recovery settles every run that can be decoded.
  \<^item> \<open>Context_Budget\<close>, \<open>Context_Summary\<close>: \<open>agent/context/tokens.rs\<close>, \<open>budget.rs\<close>, \<open>summary.rs\<close>.
    \<open>Context_Properties\<close>: the report stays within the input limit, exceeding it by at most the current request and only when
    the mailbox is listed before it, and accounts for every item, recent turns are
    contiguous, truncation is maximal, a summary and the remaining messages make up the conversation.
  \<^item> \<open>Chat_Message\<close>, \<open>Chat_Budget\<close>, \<open>Loop_Helpers\<close>: \<open>providers/capabilities.rs\<close>, \<open>agent/loop_helpers.rs\<close>,
    \<open>agent/loop_types.rs\<close>, the pure helpers.  \<open>Loop_Properties\<close>: the request view stays within the model's limit and never separates tool
    calls from their results, the citation check, the input queue.
  \<^item> \<open>Tool_Registry\<close>, \<open>Tool_Output\<close>, \<open>Tool_Executor\<close>, \<open>Permission_Policy\<close>: \<open>tools/*.rs\<close>, \<open>permissions/model.rs\<close>,
    \<open>policy.rs\<close>.  \<open>Tool_Properties\<close>: a request is allowed automatically only for read-only automatic tools or under a consent that is in
    force, decisions for one call are consumed, mutual exclusion and
    progress of the executor's gates, redaction, snapshots, atomic batches, schema validation, versions.

  \<^item> \<open>Tool_Repair\<close>: \<open>agent/tool_repair.rs\<close>: from the text of a model to a call of a registered tool, with the validation of its
    arguments; \<open>conforms\<close> is the declarative reading of a schema.  \<open>Task_Delivery\<close>: \<open>tasks/agent_delivery.rs\<close>, results of
    background tasks on their way to the run.
  \<^item> \<open>Loop_Types\<close>, \<open>Loop_Monad\<close>, \<open>Loop_Operations\<close>, \<open>Loop_Tools\<close>, \<open>Agent_Loop\<close>: the agent loop, \<open>AgentLoop::run\<close> of
    \<open>agent/loop_run.rs\<close> with \<open>agent/runtime/loop/*.rs\<close>.  The loop is a program in a monad of state and errors; \<open>loop_state\<close>
    holds the mutable locals, the abstract world and the trace of the calls to the model, the tools, the permission resolver
    and the event sink; \<open>loop_env\<close> holds these as arbitrary functions of the world.  Each \<open>?\<close>, early return and \<open>continue\<close>
    of the code is a branch.
  \<^item> \<open>Loop_Steady\<close>, \<open>Loop_Contract\<close>: the locales through which properties of whole runs are proved.  \<open>stable_assertion\<close> and
    \<open>machine_free\<close> say which actions keep an assertion; \<open>loop_contract\<close> and \<open>loop_ledger\<close> say what the assertion has to
    survive (state changes, a model call, a round of tools, a resumed run) and give it for whole runs.  They are interpreted on
    the model in \<open>Loop_Limits\<close> (requests and executions are counted), \<open>Loop_Consent\<close> (consent before execution),
    \<open>Loop_Safety\<close> (the state changes are a path of the machine), \<open>Loop_Failure\<close> (which errors are reported),
    \<open>Loop_Termination\<close> (rounds are bounded), \<open>Loop_Outcome\<close> (what a run that returns has done) and \<open>Loop_Findings\<close> (two ways in
    which a run ends without being finished).  \<open>Loop_Example\<close> evaluates a concrete run.  \<open>Agent_Loop_Properties\<close>: the
    properties of whole runs.

  \<^item> \<open>Utf8\<close>, \<open>Line_Stream\<close>, \<open>Provider_Http\<close>, \<open>Sse_Client\<close>: what the readers of event streams share, from
    \<open>providers/http.rs\<close>, \<open>profiles.rs\<close> and the loops of the clients.  UTF-8 is defined, so that a character cut in two by a chunk
    is a case of the model.  The locale \<open>chunk_reader\<close> says when a reader does not see how its input is cut into chunks; its lemma
    lifts this from two chunks to any number.  It is interpreted on the line buffer of both clients (\<open>sse\<close>) and on the parser of \<open>mcp/sse.rs\<close>
    (\<open>mcp\<close>).  The locale \<open>telling_client\<close> says that every line keeps the agreement between what a client has accumulated and what
    it has told its listener.
  \<^item> \<open>Provider_Openai\<close>, \<open>Provider_Anthropic\<close>: \<open>providers/openai.rs\<close>, \<open>providers/anthropic.rs\<close>: the request bodies, the events and
    the whole \<open>chat\<close> operation, with a server as an arbitrary function of the request; each interprets \<open>telling_client\<close>.
    \<open>Mcp_Sse\<close>: \<open>mcp/sse.rs\<close>: the event parser, the resolution of the endpoint and the reconnecting stream.  \<open>Loop_Streaming\<close>
    relates the deltas the agent loop records to the events of a client.  \<open>Provider_Properties\<close>: chunking does not matter, a
    response is what was told, a streamed answer is recorded completely and once, tools are offered as they are, the stream of the MCP client is
    bounded and keeps to its origin.
  \<^item> \<open>Rag_Chunk\<close>, \<open>Rag_Tokens\<close>, \<open>Rag_Bounds\<close>: \<open>rag/chunk/*.rs\<close>: tokens, splitting, tables and the chunks of a document; how
    tokens behave under slicing and joining.  \<open>Rag_Fusion\<close>: \<open>rag/retrieve/rrf.rs\<close>, \<open>rag/rerank.rs\<close>.  \<open>Rag_Properties\<close>: chunks
    are bounded and lose nothing, fusion does not depend on the order of its hash map, reranking keeps the candidates.
  \<^item> \<open>Cron\<close>, \<open>Cron_Properties\<close>: \<open>tasks/cron.rs\<close>, \<open>tasks/cron_repository.rs\<close>: a slot is emitted once, a reserved run is stable.
    \<open>Mailbox\<close>, \<open>Mailbox_Properties\<close>: \<open>tasks/mailbox.rs\<close> over a file system whose operations may fail; the renames are the inductive
    relation \<open>mail_step\<close>: a message is in one place, an acknowledged one never comes back.  \<open>Protocol_Store\<close>:
    \<open>tasks/protocol.rs\<close>: a resolved request is final.

  \<^bold>\<open>Parameters.\<close>  Code outside the repository is an argument: parsing and printing of timestamps, \<open>julianday\<close>, JSON
  printing and parsing (\<open>lib\<close>, \<open>run_lib\<close>, \<open>to_vec\<close>), UUID generation (\<open>fresh\<close>), base64 and UTF-8 decoding, the artifact
  store.  The properties of the task table, the run store and recovery state as hypotheses what they need of the first group:
  for the task table that encoding and decoding are inverse on what it stores and that timestamps compare as their printed
  forms; for the run store (\<open>run_lib_ok\<close>) that instants RFC 3339 can print are read back and that an event whose JSON values are
  nested at most 120 deep is decoded to the same event up to its JSON values (\<open>same_event\<close>), since \<open>serde_json\<close> reads
  \<open>Some(Null)\<close> back as \<open>None\<close> and need not keep the last bit of a float; the witnesses instantiate them.  For the agent loop the parameters are the fields of \<open>loop_env\<close>, on which nothing is assumed
  except, for termination, that waits for background tasks end (\<open>waits_end\<close>).  For the clients they are JSON, lossy decoding and
  redaction (\<open>provider_lib\<close>), URLs (\<open>url_lib\<close>) and the decoder and receiver of messages (\<open>mcp_env\<close>); for retrieval Unicode's
  alphanumeric characters, SHA-256 and the JSON of a location (\<open>chunk_lib\<close>), the iteration order of a hash map (\<open>iter\<close>, any
  permutation) and the arithmetic of the scores (\<open>float_ops\<close>) in any linear order; for schedules the cron and time-zone libraries (\<open>cron_lib\<close>) and the other tables
  (\<open>cron_world\<close>); for the mailbox UUID parsing and which file operation fails (\<open>failures\<close>).

  \<^bold>\<open>Numbers.\<close>  Machine integers are natural numbers with the code's saturation, wrap-around and limits written out
  (\<open>usize_max\<close>, \<open>u64_max\<close>, \<open>u32_max\<close>; the registry version is a 64-bit word).  Sums the code forms with unchecked \<open>usize\<close>
  addition (token totals of a history) are natural numbers: they overflow only beyond the address space.

  \<^bold>\<open>Termination and fuel.\<close>  All loops but three are total functions; the ones that are not structural (schema validation, the
  backward block scan, the trimming of a tool result, the scan for citations, the retries of a request, the batch of tools)
  carry a termination proof.  Splitting a text (\<open>split_loop\<close> of \<open>Rag_Chunk\<close>) need not end for a limit of 0 and is a partial function, \<open>None\<close>
  meaning that it does not end; with a positive limit it returns, and chunking always does.  The two others that need not end take fuel: the main loop (\<open>loop_run\<close>) and the wait for background
  tasks (\<open>await_background\<close>); running out is the value \<open>Unfinished\<close>, distinct from every result and error.  With a limit of \<open>l\<close>
  model calls more than \<open>l + 2\<close> rounds are enough for every run (\<open>agent_run_terminates\<close>), each round but the last two being a
  counted model call.  The other properties of runs hold for every amount of fuel.

  \<^bold>\<open>Concurrency.\<close>  The gates of the executor are a transition relation over all interleavings.  In the agent loop a block of
  parallel reads is joined; the model executes its calls in their order, since the loop sees only the joined results.  The operations of the mailbox and of the protocol store are sequential steps,
  each atomic between two file operations that may fail; the code takes no lock there, so two processes that interleave inside
  one operation are outside the model.

  \<^bold>\<open>Findings.\<close>  Theorems that state a behaviour of the code its authors will not have meant stand beside the others: the two of
  \<open>Loop_Findings\<close>, \<open>ws_complete_scheduled_task_fails\<close>, \<open>mailbox_before_request_exceeds_limit\<close>,
  \<open>mcp_healthy_streams_exhaust_retries\<close>, \<open>weekday_range_reversed\<close> and \<open>stray_file_blocks_claims\<close>.

  \<^bold>\<open>Not modelled.\<close>  The runtime host, sub-agents and the desktop service connect the modelled parts through threads and callbacks.
  Path authorisation rests on the operating system's path resolution.  Document formats are read by third-party parsers; the
  full-text and vector indexes, the compute worker, domain packages, database drivers, Tauri commands and diagnostics are I/O
  and glue; the frontend and the Python worker are not Rust.
\<close>

end
